(* ===== verification/GoBase.thy ===== *)
theory GoBase
  imports Main "HOL-Library.Char_ord" "HOL-Library.List_Lexorder" "HOL-Library.Sublist"
begin

text \<open>
  The prelude of the development: the part of Go's string library the modelled code uses,
  the shape of Go's validation loops, and one locale for "every operation keeps the
  invariant, hence every run does".

  A Go string is a byte string. It is modelled as a \<^typ>\<open>string\<close>, one \<^typ>\<open>char\<close> per byte.
  Case folding and white space are the ASCII ones: every keyword the modelled code compares
  with is ASCII, and bytes from 128 on are left alone. Go's functions also fold and trim
  some non-ASCII code points; strings that contain those are outside the model.
\<close>

named_theorems go_str "definitions of the string operations, for evaluation"

section \<open>Strings\<close>

type_synonym gostring = string

definition to_lower_char :: "char \<Rightarrow> char" where
  "to_lower_char c =
     (if CHR ''A'' \<le> c \<and> c \<le> CHR ''Z'' then char_of (of_char c + (32::nat)) else c)"

definition is_space :: "char \<Rightarrow> bool" where
  "is_space c \<longleftrightarrow> c = CHR '' '' \<or> (CHR 0x09 \<le> c \<and> c \<le> CHR 0x0D)"

definition to_lower :: "gostring \<Rightarrow> gostring" where
  "to_lower s = map to_lower_char s"

definition trim_space :: "gostring \<Rightarrow> gostring" where
  "trim_space s = rev (dropWhile is_space (rev (dropWhile is_space s)))"

definition equal_fold :: "gostring \<Rightarrow> gostring \<Rightarrow> bool" where
  "equal_fold a b \<longleftrightarrow> to_lower a = to_lower b"

definition has_prefix :: "gostring \<Rightarrow> gostring \<Rightarrow> bool" where
  "has_prefix s p \<longleftrightarrow> take (length p) s = p"

definition trim_prefix :: "gostring \<Rightarrow> gostring \<Rightarrow> gostring" where
  "trim_prefix s p = (if has_prefix s p then drop (length p) s else s)"

definition trim_right_char :: "char \<Rightarrow> gostring \<Rightarrow> gostring" where
  "trim_right_char c s = rev (dropWhile (\<lambda>x. x = c) (rev s))"

definition trim_char :: "char \<Rightarrow> gostring \<Rightarrow> gostring" where
  "trim_char c s = trim_right_char c (dropWhile (\<lambda>x. x = c) s)"

definition contains_any :: "gostring \<Rightarrow> gostring \<Rightarrow> bool" where
  "contains_any s cs \<longleftrightarrow> (\<exists>c \<in> set s. c \<in> set cs)"

fun contains_sub :: "gostring \<Rightarrow> gostring \<Rightarrow> bool" where
  "contains_sub [] p = (p = [])"
| "contains_sub (c # s) p = (has_prefix (c # s) p \<or> contains_sub s p)"

text \<open>\<open>strings.Split\<close> on a one-byte separator: always at least one part.\<close>

fun split_on :: "char \<Rightarrow> gostring \<Rightarrow> gostring list" where
  "split_on sep [] = [[]]"
| "split_on sep (c # s) =
     (if c = sep then [] # split_on sep s
      else (case split_on sep s of [] \<Rightarrow> [[c]] | p # ps \<Rightarrow> (c # p) # ps))"

text \<open>The first value that is not blank; the shape of \<open>FirstNonEmpty\<close> and
  \<open>ChoosePolicyVersion\<close>.\<close>

fun first_nonblank :: "gostring list \<Rightarrow> gostring" where
  "first_nonblank [] = []"
| "first_nonblank (v # vs) = (if trim_space v \<noteq> [] then v else first_nonblank vs)"

declare to_lower_char_def [go_str] is_space_def [go_str] to_lower_def [go_str]
  trim_space_def [go_str] equal_fold_def [go_str] has_prefix_def [go_str]
  trim_prefix_def [go_str] trim_right_char_def [go_str] trim_char_def [go_str]
  contains_any_def [go_str] char_of_def [go_str]

lemma to_lower_Nil [simp]: "to_lower [] = []"
  by (simp add: to_lower_def)

lemma to_lower_eq_Nil [simp]: "to_lower s = [] \<longleftrightarrow> s = []"
  by (simp add: to_lower_def)

lemma trim_space_Nil [simp]: "trim_space [] = []"
  by (simp add: trim_space_def)

lemma trim_space_blank: "trim_space s = [] \<longleftrightarrow> (\<forall>c \<in> set s. is_space c)"
proof -
  have "trim_space s = [] \<longleftrightarrow> dropWhile is_space s = []"
    by (auto simp: trim_space_def dropWhile_eq_Nil_conv dest: set_dropWhileD)
      (metis dropWhile_eq_Nil_conv hd_dropWhile hd_in_set)
  then show ?thesis by simp
qed

lemma trim_space_ends:
  assumes "trim_space s \<noteq> []"
  shows "\<not> is_space (hd (trim_space s))" "\<not> is_space (last (trim_space s))"
proof -
  define a where "a = dropWhile is_space s"
  have t: "trim_space s = rev (dropWhile is_space (rev a))" by (simp add: trim_space_def a_def)
  from assms t have ne: "dropWhile is_space (rev a) \<noteq> []" by auto
  show "\<not> is_space (last (trim_space s))" using hd_dropWhile [OF ne] ne by (simp add: t last_rev)
  obtain b where b: "rev a = b @ dropWhile is_space (rev a)" by (metis takeWhile_dropWhile_id)
  then have "a = trim_space s @ rev b" by (metis t rev_append rev_rev_ident)
  then have "hd a = hd (trim_space s)" using assms by (metis hd_append2)
  moreover have "a \<noteq> []" using ne by auto
  ultimately show "\<not> is_space (hd (trim_space s))" using hd_dropWhile [of is_space s] by (simp add: a_def)
qed

lemma trim_space_idem [simp]: "trim_space (trim_space s) = trim_space s"
proof (cases "trim_space s = []")
  case False
  define t where "t = trim_space s"
  from False trim_space_ends [OF False] have t: "t \<noteq> []" "\<not> is_space (hd t)" "\<not> is_space (last t)"
    by (simp_all add: t_def)
  then have "dropWhile is_space t = t" by (cases t) simp_all
  moreover have "dropWhile is_space (rev t) = rev t" using t by (cases t rule: rev_cases) simp_all
  ultimately have "trim_space t = t" by (simp add: trim_space_def)
  then show ?thesis by (simp only: t_def)
qed simp

lemma equal_fold_refl [simp]: "equal_fold s s"
  by (simp add: equal_fold_def)

lemma equal_fold_sym: "equal_fold a b = equal_fold b a"
  by (auto simp: equal_fold_def)

lemma equal_fold_trans: "equal_fold a b \<Longrightarrow> equal_fold b c \<Longrightarrow> equal_fold a c"
  by (simp add: equal_fold_def)

lemma first_nonblank_cons_nonblank [simp]:
  "trim_space v \<noteq> [] \<Longrightarrow> first_nonblank (v # vs) = v"
  by simp

section \<open>Validation loops\<close>

text \<open>
  The validators of the code share one loop: for each element in turn run some checks,
  refuse a key already seen, remember the key, run the remaining checks, and stop at the
  first error. \<open>validate_loop pre key dup post\<close> is that loop, the index and the set of keys
  seen being its state; \<^term>\<open>None\<close> is Go's nil error.
\<close>

fun validate_loop ::
  "(nat \<Rightarrow> 'a \<Rightarrow> 'e option) \<Rightarrow> ('a \<Rightarrow> 'k) \<Rightarrow> ('a \<Rightarrow> 'e) \<Rightarrow> (nat \<Rightarrow> 'a \<Rightarrow> 'e option)
    \<Rightarrow> nat \<Rightarrow> 'k list \<Rightarrow> 'a list \<Rightarrow> 'e option" where
  "validate_loop pre key dup post i seen [] = None"
| "validate_loop pre key dup post i seen (x # xs) =
     (case pre i x of
        Some e \<Rightarrow> Some e
      | None \<Rightarrow>
          if List.member seen (key x) then Some (dup x)
          else (case post i x of
                  Some e \<Rightarrow> Some e
                | None \<Rightarrow> validate_loop pre key dup post (Suc i) (key x # seen) xs))"

lemma validate_loop_None:
  "validate_loop pre key dup post i seen xs = None \<longleftrightarrow>
     (\<forall>j < length xs. pre (i + j) (xs ! j) = None \<and> post (i + j) (xs ! j) = None) \<and>
     distinct (map key xs) \<and> set (map key xs) \<inter> set seen = {}"
proof (induction xs arbitrary: i seen)
  case Nil
  then show ?case by simp
next
  case (Cons x xs)
  show ?case
    by (simp only: length_Cons All_less_Suc2) (auto simp: Cons.IH split: option.splits)
qed

lemma validate_loop_distinct:
  "validate_loop pre key dup post i seen xs = None \<Longrightarrow> distinct (map key xs)"
  by (simp add: validate_loop_None)

lemma validate_loop_all:
  assumes "validate_loop pre key dup post i seen xs = None" and "x \<in> set xs"
  shows "\<exists>j. pre j x = None \<and> post j x = None"
  using assms by (auto simp: validate_loop_None in_set_conv_nth)

section \<open>Counting in a list\<close>

lemma length_filter_update:
  "i < length xs \<Longrightarrow>
     length (filter P (xs[i := y])) =
       length (filter P xs) - (if P (xs ! i) then 1 else 0) + (if P y then 1 else 0)"
proof (induction xs arbitrary: i)
  case Nil
  then show ?case by simp
next
  case (Cons x xs)
  have pos: "0 < length (filter P xs)" if "j < length xs" "P (xs ! j)" for j
    using that by (metis filter_empty_conv length_greater_0_conv nth_mem)
  show ?case using Cons pos by (cases i) auto
qed

lemma list_all_update: "list_all P xs \<Longrightarrow> P y \<Longrightarrow> list_all P (xs[i := y])"
  by (auto simp: list_all_iff dest!: set_update_subset_insert [THEN subsetD])

lemma length_filter_mono: "(\<And>x. x \<in> set xs \<Longrightarrow> P x \<Longrightarrow> Q x) \<Longrightarrow> length (filter P xs) \<le> length (filter Q xs)"
  by (induction xs) (auto simp: le_SucI)

lemma length_filter_pos: "x \<in> set xs \<Longrightarrow> P x \<Longrightarrow> 0 < length (filter P xs)"
  by (metis filter_empty_conv length_greater_0_conv)

section \<open>Invariants of runs\<close>

text \<open>
  A component is an operation that takes an event and a state to the next state, and an
  invariant every event keeps. Then every run keeps it. Each stateful component interprets
  this locale with its own step function and invariant.
\<close>

locale step_machine =
  fixes step :: "'e \<Rightarrow> 's \<Rightarrow> 's"
    and inv :: "'s \<Rightarrow> bool"
  assumes step_inv: "inv s \<Longrightarrow> inv (step e s)"
begin

lemma run_inv: "inv s \<Longrightarrow> inv (fold step es s)"
  by (induction es arbitrary: s) (auto intro: step_inv)

lemma run_prefix_inv: "inv s \<Longrightarrow> inv (fold step (take n es) s)"
  by (rule run_inv)

end

text \<open>A machine whose steps also never lower a measure of the state.\<close>

locale monotone_machine = step_machine step inv
  for step :: "'e \<Rightarrow> 's \<Rightarrow> 's" and inv :: "'s \<Rightarrow> bool" +
  fixes rank :: "'s \<Rightarrow> 'r::preorder"
  assumes step_rank: "inv s \<Longrightarrow> rank s \<le> rank (step e s)"
begin

lemma run_rank: "inv s \<Longrightarrow> rank s \<le> rank (fold step es s)"
proof (induction es arbitrary: s)
  case Nil
  then show ?case by simp
next
  case (Cons e es)
  from Cons.prems have "rank s \<le> rank (step e s)" by (rule step_rank)
  also have "\<dots> \<le> rank (fold step es (step e s))"
    using Cons.prems by (intro Cons.IH step_inv)
  finally show ?case by simp
qed

end

section \<open>Lists and folds\<close>

lemma filter_nth_indices:
  "map (\<lambda>i. xs ! i) (filter (\<lambda>i. P (xs ! i)) [0..<length xs]) = filter P xs"
proof (induction xs rule: rev_induct)
  case Nil
  then show ?case by simp
next
  case (snoc x xs)
  have "filter (\<lambda>i. P ((xs @ [x]) ! i)) [0..<length xs] = filter (\<lambda>i. P (xs ! i)) [0..<length xs]"
    by (rule filter_cong) (auto simp: nth_append)
  moreover have "map (\<lambda>i. (xs @ [x]) ! i) (filter (\<lambda>i. P (xs ! i)) [0..<length xs])
      = map (\<lambda>i. xs ! i) (filter (\<lambda>i. P (xs ! i)) [0..<length xs])"
    by (rule map_cong) (auto simp: nth_append)
  ultimately show ?case using snoc by (simp add: nth_append)
qed

lemma find_Some_nth:
  "List.find P xs = Some x \<Longrightarrow> \<exists>i < length xs. xs ! i = x \<and> P x \<and> (\<forall>j < i. \<not> P (xs ! j))"
  by (auto simp: find_Some_iff)

end
