(* ===== verification/GoTime.thy ===== *)
theory GoTime
  imports GoBase
begin

text \<open>
  Instants and the RFC 3339 layout of Go's \<open>time\<close> package. An instant is the number of
  nanoseconds since the zero value of \<open>time.Time\<close> (1 January of year 1, 00:00 UTC), so
  \<open>IsZero\<close> is equality with 0, \<open>Before\<close> is \<open><\<close> and \<open>Add\<close> is addition.

  \<open>parse_rfc3339\<close> is \<open>time.Parse(time.RFC3339, s)\<close>: one or two digits for the hour, two for
  the other fields, an optional fraction after a period or a comma, and \<open>Z\<close> or a numeric
  offset of at most 24 hours and 60 minutes. \<open>format_rfc3339\<close> is
  \<open>t.UTC().Format(time.RFC3339)\<close> for years 0 to 9999. The round trip between the two is
  what lets the operator's rendered expiry mean the same instant at the gateway.
\<close>

type_synonym time = int

abbreviation (input) zero_time :: time where
  "zero_time \<equiv> 0"

definition second :: int where "second = 1000000000"

definition minute :: int where "minute = 60 * second"

section \<open>The calendar\<close>

definition leap_year :: "int \<Rightarrow> bool" where
  "leap_year y \<longleftrightarrow> y mod 4 = 0 \<and> (y mod 100 \<noteq> 0 \<or> y mod 400 = 0)"

definition month_lengths :: "int list" where
  "month_lengths = [31, 28, 31, 30, 31, 30, 31, 31, 30, 31, 30, 31]"

definition days_in_month :: "int \<Rightarrow> int \<Rightarrow> int" where
  "days_in_month m y =
     (if m = 2 \<and> leap_year y then 29 else month_lengths ! nat (m - 1))"

definition days_before_year :: "int \<Rightarrow> int" where
  "days_before_year y =
     (let p = y - 1 in 365 * p + p div 4 - p div 100 + p div 400)"

definition month_starts :: "int list" where
  "month_starts = [0, 31, 59, 90, 120, 151, 181, 212, 243, 273, 304, 334]"

definition days_before_month :: "int \<Rightarrow> int \<Rightarrow> int" where
  "days_before_month m y =
     month_starts ! nat (m - 1) + (if 2 < m \<and> leap_year y then 1 else 0)"

definition date_days :: "int \<Rightarrow> int \<Rightarrow> int \<Rightarrow> int" where
  "date_days y m d = days_before_year y + days_before_month m y + d - 1"

definition date_time :: "int \<Rightarrow> int \<Rightarrow> int \<Rightarrow> int \<Rightarrow> int \<Rightarrow> int \<Rightarrow> int \<Rightarrow> time" where
  "date_time y m d hh mm ss ns =
     ((date_days y m d * 24 + hh) * 60 + mm) * minute + ss * second + ns"

section \<open>Parsing\<close>

definition digit_val :: "char \<Rightarrow> int option" where
  "digit_val c =
     (if CHR ''0'' \<le> c \<and> c \<le> CHR ''9'' then Some (int (of_char c) - 48) else None)"

fun expect :: "char \<Rightarrow> gostring \<Rightarrow> gostring option" where
  "expect c [] = None"
| "expect c (x # s) = (if x = c then Some s else None)"

fun two_digits :: "gostring \<Rightarrow> (int \<times> gostring) option" where
  "two_digits (a # b # s) =
     (case (digit_val a, digit_val b) of
        (Some x, Some y) \<Rightarrow> Some (10 * x + y, s)
      | _ \<Rightarrow> None)"
| "two_digits _ = None"

fun hour_digits :: "gostring \<Rightarrow> (int \<times> gostring) option" where
  "hour_digits [] = None"
| "hour_digits (a # s) =
     (case digit_val a of
        None \<Rightarrow> None
      | Some x \<Rightarrow>
          (case s of
             [] \<Rightarrow> Some (x, s)
           | b # s' \<Rightarrow> (case digit_val b of None \<Rightarrow> Some (x, s) | Some y \<Rightarrow> Some (10 * x + y, s'))))"

fun digits_value :: "int \<Rightarrow> gostring \<Rightarrow> int" where
  "digits_value acc [] = acc"
| "digits_value acc (c # s) =
     digits_value (10 * acc + (case digit_val c of None \<Rightarrow> 0 | Some v \<Rightarrow> v)) s"

text \<open>An optional fraction: at most nine digits count, all digits are consumed.\<close>

fun fraction :: "gostring \<Rightarrow> int \<times> gostring" where
  "fraction (p # c # s) =
     (if (p = CHR ''.'' \<or> p = CHR '','') \<and> digit_val c \<noteq> None then
        (let ds = takeWhile (\<lambda>x. digit_val x \<noteq> None) (c # s);
             kept = take 9 ds
         in (digits_value 0 (kept @ replicate (9 - length kept) (CHR ''0'')),
             dropWhile (\<lambda>x. digit_val x \<noteq> None) (c # s)))
      else (0, p # c # s))"
| "fraction s = (0, s)"

text \<open>The zone offset in minutes: \<open>Z\<close>, or a sign, two digits, a colon, two digits.\<close>

definition zone_offset :: "gostring \<Rightarrow> (int \<times> gostring) option" where
  "zone_offset s =
     (case s of
        [] \<Rightarrow> None
      | c # s' \<Rightarrow>
          if c = CHR ''Z'' then Some (0, s')
          else Option.bind (two_digits s') (\<lambda>(hr, s1).
               Option.bind (expect (CHR '':'') s1) (\<lambda>s2.
               Option.bind (two_digits s2) (\<lambda>(mm, s3).
                 if hr > 24 \<or> mm > 60 then None
                 else if c = CHR ''+'' then Some (hr * 60 + mm, s3)
                 else if c = CHR ''-'' then Some (- (hr * 60 + mm), s3)
                 else None))))"

definition parse_date :: "gostring \<Rightarrow> ((int \<times> int \<times> int) \<times> gostring) option" where
  "parse_date s =
     Option.bind (two_digits s) (\<lambda>(y1, s1).
     Option.bind (two_digits s1) (\<lambda>(y2, s2).
     Option.bind (expect (CHR ''-'') s2) (\<lambda>s3.
     Option.bind (two_digits s3) (\<lambda>(m, s4).
       if m \<le> 0 \<or> 12 < m then None
       else Option.bind (expect (CHR ''-'') s4) (\<lambda>s5.
            Option.bind (two_digits s5) (\<lambda>(d, s6).
              Some ((100 * y1 + y2, m, d), s6)))))))"

definition parse_clock :: "gostring \<Rightarrow> ((int \<times> int \<times> int) \<times> gostring) option" where
  "parse_clock s =
     Option.bind (hour_digits s) (\<lambda>(hh, s1).
       if 24 \<le> hh then None
       else Option.bind (expect (CHR '':'') s1) (\<lambda>s2.
            Option.bind (two_digits s2) (\<lambda>(mm, s3).
              if 60 \<le> mm then None
              else Option.bind (expect (CHR '':'') s3) (\<lambda>s4.
                   Option.bind (two_digits s4) (\<lambda>(ss, s5).
                     if 60 \<le> ss then None else Some ((hh, mm, ss), s5))))))"

definition parse_rfc3339 :: "gostring \<Rightarrow> time option" where
  "parse_rfc3339 s =
     Option.bind (parse_date s) (\<lambda>((y, m, d), s1).
     Option.bind (expect (CHR ''T'') s1) (\<lambda>s2.
     Option.bind (parse_clock s2) (\<lambda>((hh, mm, ss), s3).
       (let (ns, s4) = fraction s3 in
        Option.bind (zone_offset s4) (\<lambda>(off, s5).
          if s5 \<noteq> [] \<or> d < 1 \<or> d > days_in_month m y then None
          else Some (date_time y m d hh mm ss ns - off * minute))))))"

section \<open>Formatting\<close>

definition year_of_days :: "int \<Rightarrow> int" where
  "year_of_days n =
     (let y = n * 400 div 146097 + 1 in
      if n < days_before_year y then y - 1
      else if days_before_year (y + 1) \<le> n then y + 1
      else y)"

fun month_of_day :: "int list \<Rightarrow> int \<Rightarrow> int \<Rightarrow> int \<Rightarrow> int" where
  "month_of_day [] y m n = m - 1"
| "month_of_day (x # xs) y m n =
     (if n < days_before_month m y then m - 1 else month_of_day xs y (m + 1) n)"

definition civil_of_days :: "int \<Rightarrow> int \<times> int \<times> int" where
  "civil_of_days n =
     (let y = year_of_days n;
          r = n - days_before_year y;
          m = month_of_day month_starts y 1 r
      in (y, m, r - days_before_month m y + 1))"

definition digit_char :: "int \<Rightarrow> char" where
  "digit_char n = char_of (nat (n + 48))"

definition show2 :: "int \<Rightarrow> gostring" where
  "show2 n = [digit_char (n div 10 mod 10), digit_char (n mod 10)]"

definition format_rfc3339 :: "time \<Rightarrow> gostring" where
  "format_rfc3339 t =
     (let secs = t div second;
          day = secs div 86400;
          sod = secs mod 86400;
          (y, m, d) = civil_of_days day
      in show2 (y div 100) @ show2 (y mod 100) @ ''-'' @ show2 m @ ''-'' @ show2 d @ ''T'' @
         show2 (sod div 3600) @ '':'' @ show2 (sod mod 3600 div 60) @ '':'' @ show2 (sod mod 60) @ ''Z'')"

end
