(* ===== verification/PolicyTypes.thy ===== *)
theory PolicyTypes
  imports GoTime
begin

text \<open>
  The rendered gateway policy (\<open>pkg/policy/types.go\<close>) and the scalar vocabularies it is
  written in: trust levels (\<open>trust.go\<close>), side effects (\<open>side_effect.go\<close>), risk levels and
  the accessors of \<open>helpers.go\<close>.

  A pointer to a struct is an \<open>option\<close>; a nil slice and an empty one are the empty list (no
  modelled function tells them apart); the private index of a compiled document is a field of
  the document, as in the code. The string wrapper types (\<open>HumanID\<close>, \<open>ToolName\<close>, \<dots>) are
  synonyms of strings. Record fields carry a prefix per record.
\<close>

type_synonym human_id = gostring
type_synonym agent_id = gostring
type_synonym team_id = gostring
type_synonym session_id = gostring
type_synonym tool_name = gostring
type_synonym namespace = gostring

section \<open>The document\<close>

record server =
  sv_uid :: gostring
  sv_name :: gostring
  sv_namespace :: namespace
  sv_team_id :: team_id
  sv_cluster :: gostring

record auth =
  au_mode :: gostring
  au_headers :: "gostring list"
  au_credential_presence :: gostring
  au_token_header :: gostring
  au_issuer_url :: gostring
  au_audience :: gostring
  au_scopes :: "gostring list"
  au_trust_domain :: gostring

record delegated_tool_rule =
  dr_name :: tool_name
  dr_decision :: gostring

record config =
  cf_mode :: gostring
  cf_default_decision :: gostring
  cf_enforce_on :: gostring
  cf_policy_version :: gostring
  cf_delegated_tool_rules :: "delegated_tool_rule list"
  cf_max_side_effect :: gostring

record session_config =
  sc_required :: bool
  sc_store :: gostring
  sc_max_lifetime :: gostring
  sc_idle_timeout :: gostring
  sc_upstream_token_header :: gostring

record tool =
  tl_name :: tool_name
  tl_description :: gostring
  tl_required_trust :: gostring
  tl_side_effect :: gostring
  tl_risk_level :: gostring
  tl_labels :: "(gostring \<times> gostring) list"

record tool_access =
  ta_name :: tool_name
  ta_decision :: gostring
  ta_required_trust :: gostring

record grant =
  gr_name :: gostring
  gr_mode :: gostring
  gr_namespace :: namespace
  gr_human_id :: human_id
  gr_agent_id :: agent_id
  gr_team_id :: team_id
  gr_max_trust :: gostring
  gr_allowed_side_effects :: "gostring list"
  gr_policy_version :: gostring
  gr_disabled :: bool
  gr_expires_at :: gostring
  gr_tool_rules :: "tool_access list"

record binding =
  bd_name :: session_id
  bd_namespace :: namespace
  bd_human_id :: human_id
  bd_agent_id :: agent_id
  bd_team_id :: team_id
  bd_consented_trust :: gostring
  bd_revoked :: bool
  bd_expires_at :: gostring
  bd_policy_version :: gostring
  bd_upstream_token_ref :: gostring

text \<open>The private index of a compiled document (\<open>compiled.go\<close>). A Go map from a key to a
  slice of positions is a partial map; the grant index may be the nil map, which is
  \<^term>\<open>None\<close>.\<close>

record subject_key =
  sk_human :: human_id
  sk_agent :: agent_id
  sk_team :: team_id

record compiled_index =
  ix_has_monitor :: bool
  ix_tools :: "tool_name \<rightharpoonup> nat"
  ix_sessions :: "session_id \<rightharpoonup> nat list"
  ix_session_subjects :: "subject_key \<rightharpoonup> nat list"
  ix_grants :: "(subject_key \<rightharpoonup> nat list) option"

record document =
  dc_credential_bindings :: "gostring list"
  dc_compiled :: "compiled_index option"
  dc_schema_version :: gostring
  dc_revision :: gostring
  dc_generated_at :: gostring
  dc_server :: server
  dc_auth :: "auth option"
  dc_policy :: "config option"
  dc_session :: "session_config option"
  dc_tools :: "tool list"
  dc_grants :: "grant list"
  dc_sessions :: "binding list"

definition binding_zero :: binding where
  "binding_zero =
     \<lparr>bd_name = [], bd_namespace = [], bd_human_id = [], bd_agent_id = [], bd_team_id = [],
      bd_consented_trust = [], bd_revoked = False, bd_expires_at = [], bd_policy_version = [],
      bd_upstream_token_ref = []\<rparr>"

definition server_zero :: server where
  "server_zero = \<lparr>sv_uid = [], sv_name = [], sv_namespace = [], sv_team_id = [], sv_cluster = []\<rparr>"

definition config_zero :: config where
  "config_zero =
     \<lparr>cf_mode = [], cf_default_decision = [], cf_enforce_on = [], cf_policy_version = [],
      cf_delegated_tool_rules = [], cf_max_side_effect = []\<rparr>"

definition session_config_zero :: session_config where
  "session_config_zero =
     \<lparr>sc_required = False, sc_store = [], sc_max_lifetime = [], sc_idle_timeout = [],
      sc_upstream_token_header = []\<rparr>"

definition document_zero :: document where
  "document_zero =
     \<lparr>dc_credential_bindings = [], dc_compiled = None, dc_schema_version = [], dc_revision = [],
      dc_generated_at = [], dc_server = server_zero, dc_auth = None, dc_policy = None,
      dc_session = None, dc_tools = [], dc_grants = [], dc_sessions = []\<rparr>"

section \<open>Trust levels\<close>

definition NormalizeTrust :: "gostring \<Rightarrow> gostring" where
  "NormalizeTrust v =
     (let s = to_lower (trim_space v) in
      if s = ''high'' then ''high'' else if s = ''medium'' then ''medium'' else ''low'')"

definition TrustRank :: "gostring \<Rightarrow> nat" where
  "TrustRank v =
     (if NormalizeTrust v = ''high'' then 3 else if NormalizeTrust v = ''medium'' then 2 else 1)"

definition RankToTrust :: "nat \<Rightarrow> gostring" where
  "RankToTrust n = (if 3 \<le> n then ''high'' else if n = 2 then ''medium'' else ''low'')"

lemma NormalizeTrust_cases:
  "NormalizeTrust v = ''low'' \<or> NormalizeTrust v = ''medium'' \<or> NormalizeTrust v = ''high''"
  by (simp add: NormalizeTrust_def Let_def)

lemma NormalizeTrust_levels [simp]:
  "NormalizeTrust ''low'' = ''low''" "NormalizeTrust ''medium'' = ''medium''"
  "NormalizeTrust ''high'' = ''high''"
  by code_simp+

lemma NormalizeTrust_idem [simp]: "NormalizeTrust (NormalizeTrust v) = NormalizeTrust v"
  using NormalizeTrust_cases [of v] by auto

lemma TrustRank_bounds: "1 \<le> TrustRank v" "TrustRank v \<le> 3"
  by (simp_all add: TrustRank_def)

lemma TrustRank_pos [simp]: "0 < TrustRank v"
  by (simp add: TrustRank_def)

lemma TrustRank_Normalize [simp]: "TrustRank (NormalizeTrust v) = TrustRank v"
  by (simp add: TrustRank_def)

lemma RankToTrust_TrustRank [simp]: "RankToTrust (TrustRank v) = NormalizeTrust v"
  using NormalizeTrust_cases [of v] by (auto simp: RankToTrust_def TrustRank_def)

lemma TrustRank_RankToTrust: "1 \<le> n \<Longrightarrow> n \<le> 3 \<Longrightarrow> TrustRank (RankToTrust n) = n"
  by (auto simp: RankToTrust_def TrustRank_def)

section \<open>Side effects\<close>

definition NormalizeSideEffect :: "gostring \<Rightarrow> gostring" where
  "NormalizeSideEffect v =
     (let s = to_lower (trim_space v) in
      if s = ''read'' then ''read'' else if s = ''write'' then ''write''
      else if s = ''destructive'' then ''destructive'' else '''')"

definition sideEffectAllowed :: "gostring list \<Rightarrow> gostring \<Rightarrow> bool" where
  "sideEffectAllowed allowed required =
     (let r = NormalizeSideEffect required in
      r \<noteq> '''' \<and> list_ex (\<lambda>c. NormalizeSideEffect c = r) allowed)"

definition sideEffectRank :: "gostring \<Rightarrow> nat" where
  "sideEffectRank v =
     (let s = NormalizeSideEffect v in
      if s = ''read'' then 1 else if s = ''write'' then 2
      else if s = ''destructive'' then 3 else 0)"

lemma NormalizeSideEffect_cases:
  "NormalizeSideEffect v = '''' \<or> NormalizeSideEffect v = ''read'' \<or>
   NormalizeSideEffect v = ''write'' \<or> NormalizeSideEffect v = ''destructive''"
  by (simp add: NormalizeSideEffect_def Let_def)

lemma NormalizeSideEffect_levels [simp]:
  "NormalizeSideEffect '''' = ''''" "NormalizeSideEffect ''read'' = ''read''"
  "NormalizeSideEffect ''write'' = ''write''"
  "NormalizeSideEffect ''destructive'' = ''destructive''"
  by code_simp+

lemma NormalizeSideEffect_idem [simp]:
  "NormalizeSideEffect (NormalizeSideEffect v) = NormalizeSideEffect v"
  using NormalizeSideEffect_cases [of v] by auto

lemma sideEffectAllowed_blank [simp]: "\<not> sideEffectAllowed allowed ''''"
  by (simp add: sideEffectAllowed_def Let_def)

lemma sideEffectRank_0 [simp]: "sideEffectRank v = 0 \<longleftrightarrow> NormalizeSideEffect v = ''''"
  using NormalizeSideEffect_cases [of v] by (auto simp: sideEffectRank_def Let_def)

section \<open>Risk levels\<close>

definition NormalizeRiskLevel :: "gostring \<Rightarrow> gostring \<Rightarrow> gostring \<Rightarrow> gostring" where
  "NormalizeRiskLevel risk trust sideEffect =
     (let r = to_lower (trim_space risk) in
      if r = ''low'' \<or> r = ''medium'' \<or> r = ''high'' then r
      else
        (let t = NormalizeTrust trust; s = NormalizeSideEffect sideEffect in
         if s = ''destructive'' \<or> t = ''high'' then ''high''
         else if s = ''write'' \<or> t = ''medium'' then ''medium''
         else if s = ''read'' \<and> t = ''low'' then ''low''
         else ''''))"

section \<open>Accessors\<close>

definition IsToolCallMethod :: "gostring \<Rightarrow> bool" where
  "IsToolCallMethod m \<longleftrightarrow> m = ''tools/call'' \<or> m = ''call_tool''"

definition FirstNonEmpty :: "gostring list \<Rightarrow> gostring" where
  "FirstNonEmpty vs = first_nonblank vs"

definition ChoosePolicyVersion :: "gostring list \<Rightarrow> gostring" where
  "ChoosePolicyVersion vs = first_nonblank vs"

definition PolicyServerName :: "document option \<Rightarrow> gostring" where
  "PolicyServerName p = (case p of None \<Rightarrow> '''' | Some d \<Rightarrow> sv_name (dc_server d))"

definition PolicyServerNamespace :: "document option \<Rightarrow> gostring" where
  "PolicyServerNamespace p = (case p of None \<Rightarrow> '''' | Some d \<Rightarrow> sv_namespace (dc_server d))"

definition PolicyServerTeamID :: "document option \<Rightarrow> gostring" where
  "PolicyServerTeamID p = (case p of None \<Rightarrow> '''' | Some d \<Rightarrow> sv_team_id (dc_server d))"

definition PolicyServerCluster :: "document option \<Rightarrow> gostring" where
  "PolicyServerCluster p = (case p of None \<Rightarrow> '''' | Some d \<Rightarrow> sv_cluster (dc_server d))"

definition PolicyVersion :: "document option \<Rightarrow> gostring" where
  "PolicyVersion p =
     (case p of None \<Rightarrow> ''''
      | Some d \<Rightarrow> (case dc_policy d of None \<Rightarrow> '''' | Some c \<Rightarrow> cf_policy_version c))"

definition UsesDelegatedHeaders :: "document option \<Rightarrow> bool" where
  "UsesDelegatedHeaders p =
     (case p of None \<Rightarrow> False
      | Some d \<Rightarrow> (case dc_auth d of None \<Rightarrow> False
                   | Some a \<Rightarrow> equal_fold (trim_space (au_mode a)) ''header''))"

definition DelegatedHeaderConfigured :: "document option \<Rightarrow> gostring \<Rightarrow> bool" where
  "DelegatedHeaderConfigured p name =
     (if \<not> UsesDelegatedHeaders p then False
      else (case p of None \<Rightarrow> False
            | Some d \<Rightarrow> (case dc_auth d of None \<Rightarrow> False
                         | Some a \<Rightarrow> list_ex (\<lambda>h. equal_fold h name) (au_headers a))))"

definition PolicyUsesOAuth :: "document option \<Rightarrow> bool" where
  "PolicyUsesOAuth p =
     (case p of None \<Rightarrow> False
      | Some d \<Rightarrow>
          (case dc_auth d of None \<Rightarrow> False
           | Some a \<Rightarrow>
               \<not> UsesDelegatedHeaders p \<and>
               (trim_space (au_issuer_url a) \<noteq> '''' \<or> trim_space (au_audience a) \<noteq> '''')))"

lemma delegated_not_oauth: "UsesDelegatedHeaders p \<Longrightarrow> \<not> PolicyUsesOAuth p"
  by (auto simp: PolicyUsesOAuth_def split: option.splits)

section \<open>Schema versions\<close>

definition hasMonitorGrant :: "document option \<Rightarrow> bool" where
  "hasMonitorGrant p =
     (case p of None \<Rightarrow> False
      | Some d \<Rightarrow> list_ex (\<lambda>g. equal_fold (trim_space (gr_mode g)) ''monitor'') (dc_grants d))"

definition supported_schema_versions :: "gostring list" where
  "supported_schema_versions = [''v6'', ''v1'', ''v2'', ''v3'', ''v4'', ''v5'']"

definition RequiredSchemaVersion :: "document option \<Rightarrow> gostring" where
  "RequiredSchemaVersion p =
     (case p of
        None \<Rightarrow> if hasMonitorGrant p then ''v5'' else ''v1''
      | Some d \<Rightarrow>
          if dc_credential_bindings d \<noteq> [] then ''v6''
          else if (case dc_session d of None \<Rightarrow> False | Some s \<Rightarrow> sc_store s = ''platform'') then
            (if hasMonitorGrant p then ''v5'' else ''v4'')
          else if hasMonitorGrant p then ''v5''
          else if (case dc_auth d of None \<Rightarrow> False
                   | Some a \<Rightarrow> equal_fold (trim_space (au_mode a)) ''header'') then ''v3''
          else if list_ex (\<lambda>g. trim_space (gr_expires_at g) \<noteq> '''') (dc_grants d) then ''v2''
          else ''v1'')"

definition schemaRank :: "gostring \<Rightarrow> nat" where
  "schemaRank v =
     (if v = ''v1'' then 1 else if v = ''v2'' then 2 else if v = ''v3'' then 3
      else if v = ''v4'' then 4 else if v = ''v5'' then 5 else if v = ''v6'' then 6 else 0)"

lemma RequiredSchemaVersion_supported:
  "RequiredSchemaVersion p \<in> set supported_schema_versions"
  by (simp add: RequiredSchemaVersion_def supported_schema_versions_def split: option.split)

section \<open>Risk of a tool\<close>

definition ToolRiskLevel :: "document option \<Rightarrow> gostring \<Rightarrow> gostring" where
  "ToolRiskLevel p name =
     (case p of None \<Rightarrow> ''''
      | Some d \<Rightarrow>
          if name = '''' then ''''
          else
            (case dc_compiled d of
               Some ix \<Rightarrow>
                 (case ix_tools ix name of
                    None \<Rightarrow> ''''
                  | Some i \<Rightarrow>
                      NormalizeRiskLevel (tl_risk_level (dc_tools d ! i))
                        (tl_required_trust (dc_tools d ! i)) (tl_side_effect (dc_tools d ! i)))
             | None \<Rightarrow>
                 (case List.find (\<lambda>t. tl_name t = name) (dc_tools d) of
                    None \<Rightarrow> ''''
                  | Some t \<Rightarrow> NormalizeRiskLevel (tl_risk_level t) (tl_required_trust t) (tl_side_effect t))))"

end
