(* ===== verification/PolicyIndex.thy ===== *)
theory PolicyIndex
  imports PolicyTypes
begin

text \<open>
  Looking up grants, sessions and tool metadata in a policy document: the linear scans of
  \<open>pkg/policy/evaluator.go\<close> (\<open>matchingGrants\<close>, \<open>findSession\<close>, \<open>resolveToolMetadata\<close>) and the
  indexed versions of \<open>pkg/policy/compiled.go\<close> that the gateway uses after \<open>Compile\<close>.
  The locale \<open>key_index\<close> is the contract of a positional index; interpreting it on the code's
  three slice-valued indexes shows that every indexed lookup agrees with its scan.
\<close>

unbundle bit_operations_syntax

section \<open>Requests\<close>

record identity =
  id_human :: human_id
  id_agent :: agent_id
  id_team :: team_id
  id_session :: session_id

record request =
  rq_identity :: identity
  rq_rpc_method :: gostring
  rq_tool_name :: tool_name
  rq_session :: "binding option"

section \<open>Linear scans\<close>

definition subjectMatchesTeam :: "human_id \<Rightarrow> agent_id \<Rightarrow> team_id \<Rightarrow> identity \<Rightarrow> bool" where
  "subjectMatchesTeam h a t idn =
     (if h \<noteq> '''' \<and> h \<noteq> id_human idn then False
      else if a \<noteq> '''' \<and> a \<noteq> id_agent idn then False
      else if t \<noteq> '''' \<and> t \<noteq> id_team idn then False
      else h \<noteq> '''' \<or> a \<noteq> '''' \<or> t \<noteq> '''')"

abbreviation grant_matches :: "identity \<Rightarrow> grant \<Rightarrow> bool" where
  "grant_matches idn g \<equiv> subjectMatchesTeam (gr_human_id g) (gr_agent_id g) (gr_team_id g) idn"

abbreviation binding_matches :: "identity \<Rightarrow> binding \<Rightarrow> bool" where
  "binding_matches idn b \<equiv> subjectMatchesTeam (bd_human_id b) (bd_agent_id b) (bd_team_id b) idn"

definition matchingGrants :: "grant list \<Rightarrow> identity \<Rightarrow> grant list" where
  "matchingGrants grants idn = filter (grant_matches idn) grants"

definition findSession :: "binding list \<Rightarrow> identity \<Rightarrow> binding option" where
  "findSession sessions idn =
     (if id_session idn \<noteq> '''' then
        List.find (\<lambda>s. bd_name s = id_session idn \<and> binding_matches idn s) sessions
      else List.find (binding_matches idn) sessions)"

definition resolveToolMetadata :: "tool list \<Rightarrow> tool_name \<Rightarrow> gostring \<times> gostring \<times> gostring" where
  "resolveToolMetadata tools name =
     (case List.find (\<lambda>t. tl_name t = name) tools of
        None \<Rightarrow> (''low'', '''', '''')
      | Some t \<Rightarrow>
          (let rt = (if tl_required_trust t \<noteq> '''' then NormalizeTrust (tl_required_trust t) else ''low'')
           in (rt, NormalizeSideEffect (tl_side_effect t),
               NormalizeRiskLevel (tl_risk_level t) rt (tl_side_effect t))))"

lemma subjectMatchesTeam_iff:
  "subjectMatchesTeam h a t idn \<longleftrightarrow>
     (h = '''' \<or> h = id_human idn) \<and> (a = '''' \<or> a = id_agent idn) \<and> (t = '''' \<or> t = id_team idn) \<and>
     (h \<noteq> '''' \<or> a \<noteq> '''' \<or> t \<noteq> '''')"
  by (auto simp: subjectMatchesTeam_def)

lemma subject_wildcard_matches_nobody [simp]: "\<not> subjectMatchesTeam '''' '''' '''' idn"
  by (simp add: subjectMatchesTeam_def)

section \<open>Positional indexes\<close>

definition slice_at :: "('k \<rightharpoonup> nat list) \<Rightarrow> 'k \<Rightarrow> nat list" where
  "slice_at m k = (case m k of None \<Rightarrow> [] | Some is \<Rightarrow> is)"

definition index_all :: "('a \<Rightarrow> 'k) \<Rightarrow> 'a list \<Rightarrow> ('k \<rightharpoonup> nat list)" where
  "index_all key xs =
     fold (\<lambda>i m. m(key (xs ! i) \<mapsto> slice_at m (key (xs ! i)) @ [i])) [0..<length xs] Map.empty"

definition index_first :: "('a \<Rightarrow> 'k) \<Rightarrow> 'a list \<Rightarrow> ('k \<rightharpoonup> nat)" where
  "index_first key xs =
     fold (\<lambda>i m. if m (key (xs ! i)) = None then m(key (xs ! i) \<mapsto> i) else m)
       [0..<length xs] Map.empty"

lemma slice_at_upd: "slice_at (m(k \<mapsto> is)) k' = (if k' = k then is else slice_at m k')"
  by (simp add: slice_at_def)

lemma slice_at_index_all:
  "slice_at (index_all key xs) k = filter (\<lambda>i. key (xs ! i) = k) [0..<length xs]"
proof -
  have "slice_at (fold (\<lambda>i m. m(key (xs ! i) \<mapsto> slice_at m (key (xs ! i)) @ [i])) is m) k
      = slice_at m k @ filter (\<lambda>i. key (xs ! i) = k) is" for "is" m
    by (induction "is" arbitrary: m) (auto simp: slice_at_upd)
  from this [of "[0..<length xs]" Map.empty] show ?thesis
    by (simp add: index_all_def slice_at_def)
qed

lemma index_first_find:
  "index_first key xs k = List.find (\<lambda>i. key (xs ! i) = k) [0..<length xs]"
proof -
  have "fold (\<lambda>i m. if m (key (xs ! i)) = None then m(key (xs ! i) \<mapsto> i) else m) is m k
      = (case m k of None \<Rightarrow> List.find (\<lambda>i. key (xs ! i) = k) is | Some i \<Rightarrow> Some i)" for "is" m
    by (induction "is" arbitrary: m) (auto split: option.split)
  from this [of "[0..<length xs]" Map.empty] show ?thesis
    by (simp add: index_first_def)
qed

text \<open>A scan is determined by the least position that satisfies it.\<close>

lemma find_at_least_index:
  assumes "first \<le> length xs" and "first < length xs \<Longrightarrow> P (xs ! first)"
    and "\<And>i. i < length xs \<Longrightarrow> P (xs ! i) \<Longrightarrow> first \<le> i"
  shows "List.find P xs = (if first = length xs then None else Some (xs ! first))"
proof (cases "first = length xs")
  case True
  with assms(3) have "\<forall>x \<in> set xs. \<not> P x" by (fastforce simp: in_set_conv_nth)
  with True show ?thesis by (simp add: find_None_iff)
next
  case False
  with assms(1) have "first < length xs" by simp
  with assms(2,3) have "\<exists>i<length xs. P (xs ! i) \<and> xs ! first = xs ! i \<and> (\<forall>j<i. \<not> P (xs ! j))"
    by (metis le_less_trans not_le order_less_trans)
  with False show ?thesis by (simp add: find_Some_iff)
qed

lemma find_index_nth:
  "map_option (\<lambda>i. xs ! i) (List.find (\<lambda>i. P (xs ! i)) [0..<length xs]) = List.find P xs"
proof (cases "List.find (\<lambda>i. P (xs ! i)) [0..<length xs]")
  case None
  then have "List.find P xs = None" by (auto simp: find_None_iff in_set_conv_nth)
  with None show ?thesis by simp
next
  case (Some i)
  then have "i < length xs" "P (xs ! i)" "\<forall>j<i. \<not> P (xs ! j)"
    by (auto simp: find_Some_iff)
  then have "List.find P xs = Some (xs ! i)" by (auto simp: find_Some_iff)
  with Some show ?thesis by simp
qed

text \<open>The contract of an index from keys to positions: a lookup returns exactly the positions
  whose element has the key, in increasing order.\<close>

locale key_index =
  fixes build :: "'a list \<Rightarrow> 'm"
    and lookup :: "'m \<Rightarrow> 'k \<Rightarrow> nat list"
    and key :: "'a \<Rightarrow> 'k"
  assumes lookup_build:
    "lookup (build xs) k = filter (\<lambda>i. key (xs ! i) = k) [0..<length xs]"
begin

lemma lookup_mem: "i \<in> set (lookup (build xs) k) \<longleftrightarrow> i < length xs \<and> key (xs ! i) = k"
  by (auto simp: lookup_build)

lemma buckets_distinct:
  "distinct ks \<Longrightarrow> distinct (concat (map (lookup (build xs)) ks))"
proof (induction ks)
  case Nil
  then show ?case by simp
next
  case (Cons k ks)
  moreover have "distinct (lookup (build xs) k)" by (simp add: lookup_build)
  ultimately show ?case by (auto simp: lookup_mem)
qed

lemma sorted_buckets:
  assumes "distinct ks"
  shows "sort (concat (map (lookup (build xs)) ks)) =
         filter (\<lambda>i. key (xs ! i) \<in> set ks) [0..<length xs]"
proof (rule sorted_distinct_set_unique)
  show "set (sort (concat (map (lookup (build xs)) ks))) =
      set (filter (\<lambda>i. key (xs ! i) \<in> set ks) [0..<length xs])"
    by (auto simp: lookup_mem)
qed (use assms buckets_distinct in \<open>auto simp: sorted_wrt_filter\<close>)

lemma gather:
  assumes "distinct ks"
  shows "map (\<lambda>i. xs ! i) (sort (concat (map (lookup (build xs)) ks))) =
         filter (\<lambda>x. key x \<in> set ks) xs"
  unfolding sorted_buckets [OF assms]
  by (rule filter_nth_indices [where P = "\<lambda>x. key x \<in> set ks"])

lemma find_in_bucket:
  "map_option (\<lambda>i. xs ! i) (List.find (\<lambda>i. P (xs ! i)) (lookup (build xs) k)) =
   List.find (\<lambda>x. key x = k \<and> P x) xs"
proof -
  have "List.find (\<lambda>i. P (xs ! i)) (filter (\<lambda>i. key (xs ! i) = k) is) =
        List.find (\<lambda>i. key (xs ! i) = k \<and> P (xs ! i)) is" for "is"
    by (induction "is") auto
  then show ?thesis
    using find_index_nth [of xs "\<lambda>x. key x = k \<and> P x"] by (simp add: lookup_build)
qed

text \<open>The least position over several keys, as the running minimum over the heads of their
  buckets.\<close>

definition least_head :: "'m \<Rightarrow> 'k list \<Rightarrow> nat \<Rightarrow> nat" where
  "least_head m ks n =
     fold (\<lambda>k first. case lookup m k of [] \<Rightarrow> first | i # _ \<Rightarrow> if i < first then i else first) ks n"

lemma head_least:
  assumes "lookup (build xs) k = i # is"
  shows "i < length xs \<and> key (xs ! i) = k \<and> (\<forall>j < length xs. key (xs ! j) = k \<longrightarrow> i \<le> j)"
proof -
  have "sorted (i # is)" using assms by (metis lookup_build sorted_upt sorted_wrt_filter)
  moreover have "j \<in> set (i # is) \<longleftrightarrow> j < length xs \<and> key (xs ! j) = k" for j
    using lookup_mem [of j xs k] assms by simp
  moreover have "\<forall>j \<in> set (i # is). i \<le> j" using \<open>sorted (i # is)\<close> by auto
  ultimately show ?thesis by (metis list.set_intros(1))
qed

lemma least_head_inv:
  assumes "first \<le> length xs"
  shows "least_head (build xs) ks first \<le> first \<and>
    (least_head (build xs) ks first < first \<longrightarrow> key (xs ! least_head (build xs) ks first) \<in> set ks) \<and>
    (\<forall>i < length xs. key (xs ! i) \<in> set ks \<longrightarrow> least_head (build xs) ks first \<le> i)"
  using assms
proof (induction ks arbitrary: first)
  case Nil
  then show ?case by (simp add: least_head_def)
next
  case (Cons k ks)
  define nf where "nf = (case lookup (build xs) k of [] \<Rightarrow> first | i # _ \<Rightarrow> if i < first then i else first)"
  have step: "least_head (build xs) (k # ks) first = least_head (build xs) ks nf"
    by (simp add: least_head_def nf_def)
  have le: "nf \<le> first" by (auto simp: nf_def split: list.split)
  have kept: "nf < first \<longrightarrow> key (xs ! nf) = k"
    by (auto simp: nf_def dest: head_least split: list.split)
  have low: "\<forall>i < length xs. key (xs ! i) = k \<longrightarrow> nf \<le> i"
  proof (cases "lookup (build xs) k")
    case Nil
    then show ?thesis using lookup_mem [of _ xs k] by auto
  next
    case (Cons i "is")
    then show ?thesis using head_least [OF Cons] by (auto simp: nf_def)
  qed
  have IH: "least_head (build xs) ks nf \<le> nf \<and>
    (least_head (build xs) ks nf < nf \<longrightarrow> key (xs ! least_head (build xs) ks nf) \<in> set ks) \<and>
    (\<forall>i < length xs. key (xs ! i) \<in> set ks \<longrightarrow> least_head (build xs) ks nf \<le> i)"
    by (rule Cons.IH) (use le Cons.prems in simp)
  show ?case
    unfolding step using IH le kept low by (fastforce simp: order_le_less)
qed

lemma find_by_least_head:
  "List.find (\<lambda>x. key x \<in> set ks) xs =
     (let first = least_head (build xs) ks (length xs)
      in if first = length xs then None else Some (xs ! first))"
  unfolding Let_def
  by (rule find_at_least_index) (use least_head_inv [of "length xs" xs ks] in auto)

end

section \<open>The compiled snapshot\<close>

definition grant_key :: "grant \<Rightarrow> subject_key" where
  "grant_key g = \<lparr>sk_human = gr_human_id g, sk_agent = gr_agent_id g, sk_team = gr_team_id g\<rparr>"

definition binding_key :: "binding \<Rightarrow> subject_key" where
  "binding_key b = \<lparr>sk_human = bd_human_id b, sk_agent = bd_agent_id b, sk_team = bd_team_id b\<rparr>"

text \<open>\<open>Compile\<close> copies the document through JSON, which drops the private index and keeps every
  exported field (the strings of a decoded document are valid UTF-8), then builds the index.\<close>

definition build_index :: "document \<Rightarrow> compiled_index" where
  "build_index d =
     \<lparr>ix_has_monitor = list_ex (\<lambda>g. equal_fold (trim_space (gr_mode g)) ''monitor'') (dc_grants d),
      ix_tools = index_first tl_name (dc_tools d),
      ix_sessions = index_all bd_name (dc_sessions d),
      ix_session_subjects = index_all binding_key (dc_sessions d),
      ix_grants = Some (index_all grant_key (dc_grants d))\<rparr>"

definition Compile :: "document option \<Rightarrow> document option" where
  "Compile p =
     (case p of None \<Rightarrow> None | Some d \<Rightarrow> Some (d\<lparr>dc_compiled := Some (build_index d)\<rparr>))"

definition bits_key :: "identity \<Rightarrow> nat \<Rightarrow> subject_key list" where
  "bits_key idn bits =
     (if (bits AND 1 \<noteq> 0 \<and> id_human idn = '''') \<or> (bits AND 2 \<noteq> 0 \<and> id_agent idn = '''') \<or>
         (bits AND 4 \<noteq> 0 \<and> id_team idn = '''') then []
      else [\<lparr>sk_human = (if bits AND 1 \<noteq> 0 then id_human idn else ''''),
             sk_agent = (if bits AND 2 \<noteq> 0 then id_agent idn else ''''),
             sk_team = (if bits AND 4 \<noteq> 0 then id_team idn else '''')\<rparr>])"

definition matchingSubjectKeys :: "identity \<Rightarrow> subject_key list" where
  "matchingSubjectKeys idn = concat (map (bits_key idn) [1..<8])"

definition matchingPolicyGrants :: "document option \<Rightarrow> identity \<Rightarrow> grant list" where
  "matchingPolicyGrants p idn =
     (case p of
        None \<Rightarrow> []
      | Some d \<Rightarrow>
          (case Option.bind (dc_compiled d) ix_grants of
             None \<Rightarrow> matchingGrants (dc_grants d) idn
           | Some ix \<Rightarrow>
               map (\<lambda>i. dc_grants d ! i)
                 (sort (concat (map (slice_at ix) (matchingSubjectKeys idn))))))"

definition policyWithGrants :: "document \<Rightarrow> grant list \<Rightarrow> document" where
  "policyWithGrants d grants =
     d\<lparr>dc_grants := grants,
       dc_compiled := map_option (\<lambda>ix. ix\<lparr>ix_grants := None\<rparr>) (dc_compiled d)\<rparr>"

definition first_subject_session :: "(subject_key \<rightharpoonup> nat list) \<Rightarrow> subject_key list \<Rightarrow> nat \<Rightarrow> nat" where
  "first_subject_session m keys n =
     fold (\<lambda>k first. case slice_at m k of [] \<Rightarrow> first | i # _ \<Rightarrow> if i < first then i else first) keys n"

definition findPolicySession :: "document option \<Rightarrow> request \<Rightarrow> binding option" where
  "findPolicySession p req =
     (let idn = rq_identity req in
      case rq_session req of
        Some b \<Rightarrow> findSession [b] idn
      | None \<Rightarrow>
          (case p of
             None \<Rightarrow> None
           | Some d \<Rightarrow>
               if (case dc_session d of None \<Rightarrow> False | Some s \<Rightarrow> sc_store s = ''platform'') then None
               else
                 (case dc_compiled d of
                    None \<Rightarrow> findSession (dc_sessions d) idn
                  | Some ix \<Rightarrow>
                      if id_session idn \<noteq> '''' then
                        map_option (\<lambda>i. dc_sessions d ! i)
                          (List.find (\<lambda>i. binding_matches idn (dc_sessions d ! i))
                             (slice_at (ix_sessions ix) (id_session idn)))
                      else
                        (let n = length (dc_sessions d);
                             first = first_subject_session (ix_session_subjects ix)
                                       (matchingSubjectKeys idn) n
                         in if first = n then None else Some (dc_sessions d ! first)))))"

definition resolvePolicyToolMetadata ::
  "document option \<Rightarrow> tool_name \<Rightarrow> gostring \<times> gostring \<times> gostring" where
  "resolvePolicyToolMetadata p name =
     (case p of
        None \<Rightarrow> resolveToolMetadata [] name
      | Some d \<Rightarrow>
          (case dc_compiled d of
             None \<Rightarrow> resolveToolMetadata (dc_tools d) name
           | Some ix \<Rightarrow>
               (case ix_tools ix name of
                  Some i \<Rightarrow> resolveToolMetadata (take 1 (drop i (dc_tools d))) name
                | None \<Rightarrow> resolveToolMetadata [] name)))"

section \<open>Indexed lookups agree with the scans\<close>

interpretation grants_ix: key_index "index_all grant_key" slice_at grant_key
  by unfold_locales (rule slice_at_index_all)

interpretation names_ix: key_index "index_all bd_name" slice_at bd_name
  by unfold_locales (rule slice_at_index_all)

interpretation subjects_ix: key_index "index_all binding_key" slice_at binding_key
  by unfold_locales (rule slice_at_index_all)

lemma upt_1_8: "[1..<8::nat] = [1, 2, 3, 4, 5, 6, 7]"
  by code_simp

lemma matchingSubjectKeys_eq:
  "matchingSubjectKeys idn =
     bits_key idn 1 @ bits_key idn 2 @ bits_key idn 3 @ bits_key idn 4 @ bits_key idn 5 @
     bits_key idn 6 @ bits_key idn 7"
  unfolding matchingSubjectKeys_def upt_1_8 by simp

lemma matchingSubjectKeys_distinct: "distinct (matchingSubjectKeys idn)"
  unfolding matchingSubjectKeys_eq
  by (cases "id_human idn = ''''"; cases "id_agent idn = ''''"; cases "id_team idn = ''''")
    (simp_all add: bits_key_def)

lemma matchingSubjectKeys_length: "length (matchingSubjectKeys idn) \<le> 7"
  unfolding matchingSubjectKeys_eq by (simp add: bits_key_def)

lemma matchingSubjectKeys_mem:
  "\<lparr>sk_human = h, sk_agent = a, sk_team = t\<rparr> \<in> set (matchingSubjectKeys idn) \<longleftrightarrow>
     subjectMatchesTeam h a t idn"
  unfolding matchingSubjectKeys_eq subjectMatchesTeam_iff
  by (cases "id_human idn = ''''"; cases "id_agent idn = ''''"; cases "id_team idn = ''''")
    (auto simp add: bits_key_def)

lemma grant_key_mem: "grant_key g \<in> set (matchingSubjectKeys idn) \<longleftrightarrow> grant_matches idn g"
  by (simp add: grant_key_def matchingSubjectKeys_mem)

lemma binding_key_mem: "binding_key b \<in> set (matchingSubjectKeys idn) \<longleftrightarrow> binding_matches idn b"
  by (simp add: binding_key_def matchingSubjectKeys_mem)

text \<open>\<open>index_ok d\<close>: the private index, if there is one, was built from the document's own
  tools, sessions and grants, or has had its grant index dropped by \<open>policyWithGrants\<close>.\<close>

definition index_ok :: "document \<Rightarrow> bool" where
  "index_ok d =
     (case dc_compiled d of
        None \<Rightarrow> True
      | Some ix \<Rightarrow>
          ix_tools ix = index_first tl_name (dc_tools d) \<and>
          ix_sessions ix = index_all bd_name (dc_sessions d) \<and>
          ix_session_subjects ix = index_all binding_key (dc_sessions d) \<and>
          (ix_grants ix = None \<or> ix_grants ix = Some (index_all grant_key (dc_grants d))))"

lemma index_ok_Compile [simp]: "index_ok (d\<lparr>dc_compiled := Some (build_index d)\<rparr>)"
  by (simp add: index_ok_def build_index_def)

lemma index_ok_policyWithGrants: "index_ok d \<Longrightarrow> index_ok (policyWithGrants d gs)"
  by (auto simp: index_ok_def policyWithGrants_def split: option.splits)

lemma matchingPolicyGrants_indexed:
  "index_ok d \<Longrightarrow> matchingPolicyGrants (Some d) idn = matchingGrants (dc_grants d) idn"
  using grants_ix.gather [OF matchingSubjectKeys_distinct, of "dc_grants d" idn]
  by (auto simp: matchingPolicyGrants_def matchingGrants_def grant_key_mem index_ok_def
      split: option.splits bind_splits)

lemma findPolicySession_indexed:
  assumes "index_ok d"
  shows "findPolicySession (Some d) req = findPolicySession (Some (d\<lparr>dc_compiled := None\<rparr>)) req"
proof -
  have named: "map_option (\<lambda>i. dc_sessions d ! i)
        (List.find (\<lambda>i. binding_matches idn (dc_sessions d ! i))
          (slice_at (index_all bd_name (dc_sessions d)) n)) =
      List.find (\<lambda>s. bd_name s = n \<and> binding_matches idn s) (dc_sessions d)" for idn n
    by (rule names_ix.find_in_bucket)
  have first: "(let m = length (dc_sessions d);
            first = first_subject_session (index_all binding_key (dc_sessions d)) (matchingSubjectKeys idn) m
          in if first = m then None else Some (dc_sessions d ! first)) =
        List.find (binding_matches idn) (dc_sessions d)" for idn
    using subjects_ix.find_by_least_head [of "matchingSubjectKeys idn" "dc_sessions d"]
    by (simp add: first_subject_session_def subjects_ix.least_head_def binding_key_mem Let_def)
  show ?thesis
  proof (cases "dc_compiled d")
    case None
    then have "d\<lparr>dc_compiled := None\<rparr> = d" by simp
    then show ?thesis by (simp only:)
  next
    case (Some ix)
    with assms have "ix_sessions ix = index_all bd_name (dc_sessions d)"
      "ix_session_subjects ix = index_all binding_key (dc_sessions d)"
      by (simp_all add: index_ok_def)
    with Some show ?thesis
      by (simp add: findPolicySession_def findSession_def named first [unfolded Let_def] Let_def
          split: option.split)
  qed
qed

lemma resolvePolicyToolMetadata_indexed:
  assumes "index_ok d"
  shows "resolvePolicyToolMetadata (Some d) name = resolveToolMetadata (dc_tools d) name"
proof (cases "dc_compiled d")
  case None
  then show ?thesis by (simp add: resolvePolicyToolMetadata_def)
next
  case (Some ix)
  with assms have tools: "ix_tools ix = index_first tl_name (dc_tools d)" by (simp add: index_ok_def)
  show ?thesis
  proof (cases "index_first tl_name (dc_tools d) name")
    case None
    then have "List.find (\<lambda>t. tl_name t = name) (dc_tools d) = None"
      using find_index_nth [of "dc_tools d" "\<lambda>t. tl_name t = name"] by (simp add: index_first_find)
    with None Some tools show ?thesis
      by (simp add: resolvePolicyToolMetadata_def resolveToolMetadata_def)
  next
    case (Some i)
    then have found: "List.find (\<lambda>t. tl_name t = name) (dc_tools d) = Some (dc_tools d ! i)"
      using find_index_nth [of "dc_tools d" "\<lambda>t. tl_name t = name"] by (simp add: index_first_find)
    from Some have "i < length (dc_tools d)" "tl_name (dc_tools d ! i) = name"
      by (auto simp: index_first_find find_Some_iff)
    then have "take 1 (drop i (dc_tools d)) = [dc_tools d ! i]"
      by (simp add: Cons_nth_drop_Suc [symmetric])
    with Some \<open>dc_compiled d = Some ix\<close> tools found \<open>tl_name (dc_tools d ! i) = name\<close> show ?thesis
      by (simp add: resolvePolicyToolMetadata_def resolveToolMetadata_def)
  qed
qed

lemmas indexed_lookups = matchingPolicyGrants_indexed resolvePolicyToolMetadata_indexed

lemma ToolRiskLevel_compiled:
  "ToolRiskLevel (Compile (Some d)) name = ToolRiskLevel (Some (d\<lparr>dc_compiled := None\<rparr>)) name"
  using find_index_nth [of "dc_tools d" "\<lambda>t. tl_name t = name"]
  by (auto simp: ToolRiskLevel_def Compile_def build_index_def index_first_find split: option.splits)

end
