(* ===== verification/PolicyEval.thy ===== *)
theory PolicyEval
  imports PolicyIndex
begin

text \<open>
  The authorization decision of the gateway (\<open>pkg/policy/evaluator.go\<close> and
  \<open>evaluator_delegated.go\<close>), definitions only. \<open>authorize\<close> is one Go function; here it is cut
  at its two early-return stages into \<open>resolve_session\<close> (the session gate), \<open>decide_grants\<close>
  (the grant gate) and \<open>authorize\<close>, which runs them in order. \<open>Authorize\<close> is the exported
  entry point with monitor-mode grants. The clock is the argument \<open>wall\<close>, read only where the
  code calls \<open>time.Now\<close>: when the caller passed the zero time.

  \<open>sort.Slice\<close> is modelled by the stable \<^const>\<open>sort_key\<close>; the two agree whenever no two
  grants share namespace and name, which \<open>Validate\<close> guarantees for an activated policy.
\<close>

section \<open>Decisions\<close>

record decision =
  de_allowed :: bool
  de_status :: nat
  de_reason :: gostring
  de_would_deny :: bool
  de_would_deny_reason :: gostring
  de_policy_version :: gostring
  de_required_trust :: gostring
  de_required_side_effect :: gostring
  de_risk_level :: gostring
  de_admin_trust :: gostring
  de_consented_trust :: gostring
  de_effective_trust :: gostring
  de_matched_grant :: gostring
  de_matched_grant_namespace :: gostring
  de_matched_session :: gostring
  de_matched_session_namespace :: gostring

definition decision_zero :: decision where
  "decision_zero =
     \<lparr>de_allowed = False, de_status = 0, de_reason = [], de_would_deny = False,
      de_would_deny_reason = [], de_policy_version = [], de_required_trust = [],
      de_required_side_effect = [], de_risk_level = [], de_admin_trust = [],
      de_consented_trust = [], de_effective_trust = [], de_matched_grant = [],
      de_matched_grant_namespace = [], de_matched_session = [],
      de_matched_session_namespace = []\<rparr>"

definition Deny :: "nat \<Rightarrow> gostring \<Rightarrow> gostring \<Rightarrow> decision" where
  "Deny status reason version =
     decision_zero\<lparr>de_status := status, de_reason := reason, de_policy_version := version\<rparr>"

definition Allow :: "gostring \<Rightarrow> gostring \<Rightarrow> decision" where
  "Allow reason version =
     decision_zero\<lparr>de_allowed := True, de_status := 200, de_reason := reason,
       de_policy_version := version\<rparr>"

lemma decision_zero_sel [simp]:
  "de_allowed decision_zero = False" "de_status decision_zero = 0" "de_reason decision_zero = []"
  "de_would_deny decision_zero = False" "de_policy_version decision_zero = []"
  "de_matched_grant decision_zero = []" "de_matched_grant_namespace decision_zero = []"
  "de_matched_session decision_zero = []" "de_matched_session_namespace decision_zero = []"
  "de_risk_level decision_zero = []" "de_would_deny_reason decision_zero = []"
  by (simp_all add: decision_zero_def)

lemma Deny_sel [simp]:
  "\<not> de_allowed (Deny s r v)" "de_status (Deny s r v) = s" "de_reason (Deny s r v) = r"
  "de_policy_version (Deny s r v) = v" "\<not> de_would_deny (Deny s r v)"
  "de_matched_grant (Deny s r v) = []" "de_matched_grant_namespace (Deny s r v) = []"
  by (simp_all add: Deny_def)

lemma Allow_sel [simp]:
  "de_allowed (Allow r v)" "de_status (Allow r v) = 200" "de_reason (Allow r v) = r"
  "de_policy_version (Allow r v) = v" "\<not> de_would_deny (Allow r v)"
  by (simp_all add: Allow_def)

section \<open>Document settings\<close>

definition policyVersionOrDefault :: "document option \<Rightarrow> gostring \<Rightarrow> gostring" where
  "policyVersionOrDefault p def =
     (case p of None \<Rightarrow> def
      | Some d \<Rightarrow>
          (case dc_policy d of None \<Rightarrow> def
           | Some c \<Rightarrow> if cf_policy_version c \<noteq> '''' then cf_policy_version c else def))"

definition sessionRequired :: "document option \<Rightarrow> bool" where
  "sessionRequired p =
     (case p of None \<Rightarrow> False
      | Some d \<Rightarrow> (case dc_session d of None \<Rightarrow> False | Some s \<Rightarrow> sc_required s))"

definition policyModeObserve :: "document option \<Rightarrow> bool" where
  "policyModeObserve p =
     (case p of None \<Rightarrow> False
      | Some d \<Rightarrow> (case dc_policy d of None \<Rightarrow> False | Some c \<Rightarrow> equal_fold (cf_mode c) ''observe''))"

definition defaultDecisionAllow :: "document option \<Rightarrow> bool" where
  "defaultDecisionAllow p =
     (case p of None \<Rightarrow> False
      | Some d \<Rightarrow> (case dc_policy d of None \<Rightarrow> False
                   | Some c \<Rightarrow> equal_fold (cf_default_decision c) ''allow''))"

definition isExpiredAt :: "gostring \<Rightarrow> time \<Rightarrow> bool" where
  "isExpiredAt v now =
     (if trim_space v = '''' then False
      else (case parse_rfc3339 v of None \<Rightarrow> True | Some e \<Rightarrow> \<not> now < e))"

definition decideByDefault :: "document option \<Rightarrow> gostring \<Rightarrow> decision" where
  "decideByDefault p reason =
     (let version = policyVersionOrDefault p '''' in
      if defaultDecisionAllow p then Allow reason version else Deny 403 reason version)"

definition monitorableGrantDenial :: "gostring \<Rightarrow> bool" where
  "monitorableGrantDenial reason =
     List.member [''tool_denied'', ''tool_not_granted'', ''side_effect_not_allowed'', ''trust_too_low'']
       reason"

lemma decideByDefault_sel [simp]:
  "de_allowed (decideByDefault p r) = defaultDecisionAllow p"
  "de_reason (decideByDefault p r) = r" "\<not> de_would_deny (decideByDefault p r)"
  by (simp_all add: decideByDefault_def Let_def)

section \<open>Choosing a grant\<close>

record grant_selection =
  gs_tool_allowed :: bool
  gs_side_effect_allowed :: bool
  gs_admin_rank :: nat
  gs_required_rank :: nat
  gs_required_trust :: gostring
  gs_policy_version :: gostring
  gs_grant_name :: gostring
  gs_grant_namespace :: gostring
  gs_deny :: "decision option"
  gs_only_expired :: bool

definition attribute :: "gostring \<Rightarrow> grant \<Rightarrow> grant_selection \<Rightarrow> grant_selection" where
  "attribute version g sel =
     sel\<lparr>gs_grant_name := gr_name g, gs_grant_namespace := gr_namespace g,
         gs_policy_version := ChoosePolicyVersion [gr_policy_version g, version]\<rparr>"

definition note_tool_allowed :: "gostring \<Rightarrow> grant \<Rightarrow> grant_selection \<Rightarrow> grant_selection" where
  "note_tool_allowed version g sel =
     (let sel1 = sel\<lparr>gs_tool_allowed := True\<rparr>
      in if gs_grant_name sel1 = '''' then attribute version g sel1 else sel1)"

definition note_side_effect :: "gostring \<Rightarrow> grant \<Rightarrow> nat \<Rightarrow> grant_selection \<Rightarrow> grant_selection" where
  "note_side_effect version g rank sel =
     (let sel1 = (if \<not> gs_side_effect_allowed sel \<or> rank > gs_admin_rank sel
                  then attribute version g sel else sel)
      in sel1\<lparr>gs_side_effect_allowed := True\<rparr>)"

definition raise_admin :: "nat \<Rightarrow> grant_selection \<Rightarrow> grant_selection" where
  "raise_admin rank sel = sel\<lparr>gs_admin_rank := max (gs_admin_rank sel) rank\<rparr>"

text \<open>A grant without tool rules covers every tool.\<close>

definition apply_open_grant ::
  "gostring \<Rightarrow> gostring \<Rightarrow> grant \<Rightarrow> grant_selection \<Rightarrow> grant_selection" where
  "apply_open_grant side version g sel =
     (let sel1 = note_tool_allowed version g sel
      in if sideEffectAllowed (gr_allowed_side_effects g) side then
           raise_admin (TrustRank (gr_max_trust g))
             (note_side_effect version g (TrustRank (gr_max_trust g)) sel1)
         else sel1)"

definition apply_rule ::
  "gostring \<Rightarrow> gostring \<Rightarrow> grant \<Rightarrow> tool_access \<Rightarrow> grant_selection \<Rightarrow> grant_selection" where
  "apply_rule side version g r sel =
     (let rank = TrustRank (gr_max_trust g);
          sel1 = note_tool_allowed version g sel
      in if sideEffectAllowed (gr_allowed_side_effects g) side then
           (let sel2 = note_side_effect version g rank sel1;
                ruleRank = TrustRank (ta_required_trust r);
                sel3 = (if ruleRank > gs_required_rank sel2 then
                          attribute version g
                            (sel2\<lparr>gs_required_rank := ruleRank,
                                  gs_required_trust := NormalizeTrust (ta_required_trust r)\<rparr>)
                        else sel2)
            in raise_admin rank sel3)
         else sel1)"

text \<open>The rules of one grant: \<^term>\<open>Inl\<close> is the early return on an explicit deny.\<close>

fun rules_loop ::
  "tool_name \<Rightarrow> gostring \<Rightarrow> gostring \<Rightarrow> grant \<Rightarrow> tool_access list \<Rightarrow> grant_selection
    \<Rightarrow> grant_selection + grant_selection" where
  "rules_loop name side version g [] sel = Inr sel"
| "rules_loop name side version g (r # rs) sel =
     (if ta_name r \<noteq> name then rules_loop name side version g rs sel
      else if equal_fold (ta_decision r) ''deny'' then
        Inl (sel\<lparr>gs_deny :=
          Some ((Deny 403 ''tool_denied'' (ChoosePolicyVersion [gr_policy_version g, version]))
                  \<lparr>de_matched_grant := gr_name g, de_matched_grant_namespace := gr_namespace g\<rparr>)\<rparr>)
      else rules_loop name side version g rs (apply_rule side version g r sel))"

text \<open>The grants in order, with the counts of expired and active ones.\<close>

fun grants_loop ::
  "tool_name \<Rightarrow> gostring \<Rightarrow> gostring \<Rightarrow> time \<Rightarrow> grant list \<Rightarrow> nat \<Rightarrow> nat \<Rightarrow> grant_selection
    \<Rightarrow> grant_selection \<times> nat \<times> nat" where
  "grants_loop name side version now [] expired active sel = (sel, expired, active)"
| "grants_loop name side version now (g # gs) expired active sel =
     (if gr_disabled g then grants_loop name side version now gs expired active sel
      else if isExpiredAt (gr_expires_at g) now then
        grants_loop name side version now gs (Suc expired) active sel
      else if gr_tool_rules g = [] then
        grants_loop name side version now gs expired (Suc active) (apply_open_grant side version g sel)
      else
        (case rules_loop name side version g (gr_tool_rules g) sel of
           Inl sel' \<Rightarrow> (sel', expired, Suc active)
         | Inr sel' \<Rightarrow> grants_loop name side version now gs expired (Suc active) sel'))"

definition grant_order :: "grant \<Rightarrow> gostring" where
  "grant_order g = gr_namespace g @ [CHR 0x00] @ gr_name g"

definition bestGrantFor ::
  "grant list \<Rightarrow> tool_name \<Rightarrow> gostring \<Rightarrow> gostring \<Rightarrow> gostring \<Rightarrow> time \<Rightarrow> grant_selection" where
  "bestGrantFor grants name requiredTrust side version now =
     (let sel0 = \<lparr>gs_tool_allowed = False, gs_side_effect_allowed = False, gs_admin_rank = 0,
                  gs_required_rank = TrustRank requiredTrust, gs_required_trust = requiredTrust,
                  gs_policy_version = version, gs_grant_name = '''', gs_grant_namespace = '''',
                  gs_deny = None, gs_only_expired = False\<rparr>;
          (sel, expired, active) =
             grants_loop name side version now (sort_key grant_order grants) 0 0 sel0
      in sel\<lparr>gs_only_expired := 0 < expired \<and> active = 0\<rparr>)"

section \<open>Delegated header authentication\<close>

definition delegatedDeny ::
  "nat \<Rightarrow> gostring \<Rightarrow> gostring \<Rightarrow> gostring \<Rightarrow> gostring \<Rightarrow> gostring \<Rightarrow> decision" where
  "delegatedDeny status reason version trust side risk =
     (Deny status reason version)
       \<lparr>de_required_trust := trust, de_required_side_effect := side, de_risk_level := risk\<rparr>"

definition authorizeDelegated :: "document option \<Rightarrow> request \<Rightarrow> decision" where
  "authorizeDelegated p req =
     (let version = policyVersionOrDefault p '''' in
      case p of
        None \<Rightarrow> Deny 403 ''delegated_policy_unsupported'' version
      | Some d \<Rightarrow>
        (case dc_policy d of
           None \<Rightarrow> Deny 403 ''delegated_policy_unsupported'' version
         | Some c \<Rightarrow>
           if policyModeObserve p \<or> \<not> equal_fold (cf_mode c) ''allow-list'' \<or>
              \<not> equal_fold (cf_default_decision c) ''deny''
           then Deny 403 ''delegated_policy_unsupported'' version
           else if dc_session d \<noteq> None \<or> dc_grants d \<noteq> [] \<or> dc_sessions d \<noteq> []
           then Deny 403 ''delegated_identity_policy_unsupported'' version
           else if \<not> IsToolCallMethod (rq_rpc_method req) then Allow ''delegated_lifecycle'' version
           else
             (let (trust, side, risk) = resolvePolicyToolMetadata p (rq_tool_name req);
                  named = (\<lambda>r. equal_fold (dr_name r) (rq_tool_name req));
                  limit = NormalizeSideEffect (cf_max_side_effect c)
              in if list_ex (\<lambda>r. named r \<and> equal_fold (dr_decision r) ''deny'')
                      (cf_delegated_tool_rules c)
                 then delegatedDeny 403 ''tool_denied'' version trust side risk
                 else if NormalizeSideEffect side = ''''
                 then delegatedDeny 403 ''tool_side_effect_unknown'' version trust side risk
                 else if limit \<noteq> '''' \<and> sideEffectRank side > sideEffectRank limit
                 then delegatedDeny 403 ''side_effect_not_allowed'' version trust side risk
                 else if list_ex (\<lambda>r. named r \<and> equal_fold (dr_decision r) ''allow'')
                      (cf_delegated_tool_rules c)
                 then (Allow ''delegated_tool_allowed'' version)
                        \<lparr>de_required_trust := trust, de_required_side_effect := side,
                         de_risk_level := risk\<rparr>
                 else delegatedDeny 403 ''tool_not_allowed'' version trust side risk)))"

section \<open>Sessions and grants\<close>

definition with_session :: "binding option \<Rightarrow> decision \<Rightarrow> decision" where
  "with_session s d =
     d\<lparr>de_matched_session := (case s of None \<Rightarrow> '''' | Some b \<Rightarrow> bd_name b),
       de_matched_session_namespace := (case s of None \<Rightarrow> '''' | Some b \<Rightarrow> bd_namespace b)\<rparr>"

lemma with_session_sel [simp]:
  "de_allowed (with_session s d) = de_allowed d" "de_reason (with_session s d) = de_reason d"
  "de_status (with_session s d) = de_status d" "de_would_deny (with_session s d) = de_would_deny d"
  "de_matched_grant (with_session s d) = de_matched_grant d"
  "de_policy_version (with_session s d) = de_policy_version d"
  by (simp_all add: with_session_def)

text \<open>The session gate: \<^term>\<open>Inl\<close> a denial, or \<^term>\<open>Inr\<close> the live session, if any.\<close>

definition resolve_session ::
  "document option \<Rightarrow> request \<Rightarrow> time \<Rightarrow> decision + binding option" where
  "resolve_session p req now =
     (let version = policyVersionOrDefault p '''';
          found = findPolicySession p req
      in if sessionRequired p then
           (case found of
              None \<Rightarrow> Inl (Deny 401 ''session_not_found'' version)
            | Some s \<Rightarrow>
                if bd_revoked s then
                  Inl (with_session (Some s)
                    (Deny 401 ''session_revoked'' (ChoosePolicyVersion [bd_policy_version s, version])))
                else if isExpiredAt (bd_expires_at s) now then
                  Inl (with_session (Some s)
                    (Deny 401 ''session_expired'' (ChoosePolicyVersion [bd_policy_version s, version])))
                else Inr (Some s))
         else
           (case found of
              None \<Rightarrow> Inr None
            | Some s \<Rightarrow>
                if id_session (rq_identity req) = '''' \<or> bd_revoked s \<or> isExpiredAt (bd_expires_at s) now
                then Inr None else Inr (Some s)))"

definition consented_rank :: "binding option \<Rightarrow> nat \<Rightarrow> nat" where
  "consented_rank s adminRank =
     (case s of
        Some b \<Rightarrow> if bd_consented_trust b \<noteq> '''' then TrustRank (bd_consented_trust b) else adminRank
      | None \<Rightarrow> adminRank)"

definition decide_grants ::
  "document option \<Rightarrow> request \<Rightarrow> time \<Rightarrow> binding option \<Rightarrow> decision" where
  "decide_grants p req now session =
     (let (requiredTrust, side, risk) = resolvePolicyToolMetadata p (rq_tool_name req);
          matching = matchingPolicyGrants p (rq_identity req)
      in if matching = [] then with_session session (decideByDefault p ''no_matching_grant'')
         else
           (let sel = bestGrantFor matching (rq_tool_name req) requiredTrust side
                        (policyVersionOrDefault p '''') now
            in case gs_deny sel of
                 Some denied \<Rightarrow> with_session session denied
               | None \<Rightarrow>
                 if \<not> gs_tool_allowed sel then
                   with_session session (decideByDefault p
                     (if gs_only_expired sel then ''grant_expired'' else ''tool_not_granted''))
                 else if side = '''' then
                   with_session session (decision_zero
                     \<lparr>de_status := 403, de_reason := ''tool_side_effect_unknown'',
                      de_policy_version := gs_policy_version sel,
                      de_required_trust := gs_required_trust sel, de_risk_level := risk,
                      de_matched_grant := gs_grant_name sel,
                      de_matched_grant_namespace := gs_grant_namespace sel\<rparr>)
                 else if \<not> gs_side_effect_allowed sel then
                   with_session session (decision_zero
                     \<lparr>de_status := 403, de_reason := ''side_effect_not_allowed'',
                      de_policy_version := gs_policy_version sel,
                      de_required_trust := gs_required_trust sel, de_required_side_effect := side,
                      de_risk_level := risk, de_matched_grant := gs_grant_name sel,
                      de_matched_grant_namespace := gs_grant_namespace sel\<rparr>)
                 else if gs_admin_rank sel = 0 then
                   with_session session ((decideByDefault p ''grant_without_trust'')
                     \<lparr>de_matched_grant := gs_grant_name sel,
                      de_matched_grant_namespace := gs_grant_namespace sel\<rparr>)
                 else
                   (let consented = consented_rank session (gs_admin_rank sel);
                        effective = min (gs_admin_rank sel) consented;
                        common = decision_zero
                          \<lparr>de_policy_version := gs_policy_version sel,
                           de_required_trust := gs_required_trust sel,
                           de_required_side_effect := side, de_risk_level := risk,
                           de_admin_trust := RankToTrust (gs_admin_rank sel),
                           de_consented_trust := RankToTrust consented,
                           de_effective_trust := RankToTrust effective,
                           de_matched_grant := gs_grant_name sel,
                           de_matched_grant_namespace := gs_grant_namespace sel\<rparr>
                    in if effective < gs_required_rank sel
                       then with_session session
                              (common\<lparr>de_status := 403, de_reason := ''trust_too_low''\<rparr>)
                       else with_session session
                              (common\<lparr>de_allowed := True, de_status := 200,
                                      de_reason := ''allowed''\<rparr>))))"

section \<open>The decision\<close>

definition authorize :: "document option \<Rightarrow> request \<Rightarrow> time \<Rightarrow> time \<Rightarrow> decision" where
  "authorize p req now wall =
     (if UsesDelegatedHeaders p then authorizeDelegated p req
      else
        (let version = policyVersionOrDefault p '''';
             allowed = Allow ''allowed'' version;
             idn = rq_identity req
         in if \<not> IsToolCallMethod (rq_rpc_method req) then allowed
            else
              (let (_, _, risk) = resolvePolicyToolMetadata p (rq_tool_name req)
               in if policyModeObserve p then allowed\<lparr>de_risk_level := risk\<rparr>
                  else if id_human idn = '''' \<and> id_agent idn = '''' \<and> id_team idn = ''''
                  then Deny 401 ''missing_identity'' version
                  else if sessionRequired p \<and> id_session idn = ''''
                  then Deny 401 ''missing_session'' version
                  else
                    (let now' = (if now = zero_time then wall else now)
                     in case resolve_session p req now' of
                          Inl denied \<Rightarrow> denied
                        | Inr session \<Rightarrow> decide_grants p req now' session))))"

definition is_monitor :: "grant \<Rightarrow> bool" where
  "is_monitor g \<longleftrightarrow> equal_fold (trim_space (gr_mode g)) ''monitor''"

definition active_for :: "identity \<Rightarrow> time \<Rightarrow> grant \<Rightarrow> bool" where
  "active_for idn now g \<longleftrightarrow>
     grant_matches idn g \<and> \<not> gr_disabled g \<and> \<not> isExpiredAt (gr_expires_at g) now"

definition no_monitor_index :: "document \<Rightarrow> bool" where
  "no_monitor_index d =
     (case dc_compiled d of None \<Rightarrow> False | Some ix \<Rightarrow> \<not> ix_has_monitor ix)"

definition Authorize :: "document option \<Rightarrow> request \<Rightarrow> time \<Rightarrow> time \<Rightarrow> decision" where
  "Authorize p req now wall =
     (case p of
        None \<Rightarrow> authorize p req now wall
      | Some d \<Rightarrow>
        if UsesDelegatedHeaders p \<or> policyModeObserve p \<or> \<not> IsToolCallMethod (rq_rpc_method req)
        then authorize p req now wall
        else if no_monitor_index d then authorize p req now wall
        else
          (let now' = (if now = zero_time then wall else now);
               idn = rq_identity req;
               matching = matchingPolicyGrants p idn;
               monitoring = filter is_monitor matching;
               enforcing = filter (\<lambda>g. \<not> is_monitor g) matching;
               (_, side, _) = resolvePolicyToolMetadata p (rq_tool_name req)
           in if \<not> list_ex (active_for idn now') monitoring then authorize p req now' wall
              else if side = '''' then authorize p req now' wall
              else
                (let shadow = authorize (Some (policyWithGrants d monitoring)) req now' wall;
                     enforced = authorize (Some (policyWithGrants d enforcing)) req now' wall;
                     activeEnforcing = list_ex (active_for idn now') enforcing;
                     decision = (if activeEnforcing then enforced else shadow)
                 in if activeEnforcing \<and> \<not> de_allowed enforced then enforced
                    else if monitorableGrantDenial (de_reason shadow)
                    then decision\<lparr>de_allowed := True, de_status := 200, de_would_deny := True,
                                  de_would_deny_reason := de_reason shadow\<rparr>
                    else decision)))"

end
