(* ===== verification/PolicySelection.thy ===== *)
theory PolicySelection
  imports PolicyEval
begin

text \<open>
  What \<open>bestGrantFor\<close> computes, independent of its loop: a set-based specification of the
  selection over the grants that are neither disabled nor expired, and the proof that the
  two nested loops with their early return meet it. Every later theorem about decisions
  uses the specification and not the loop, so none depends on the order of the grants.
\<close>

section \<open>What a grant says about a tool\<close>

definition live :: "time \<Rightarrow> grant \<Rightarrow> bool" where
  "live now g \<longleftrightarrow> \<not> gr_disabled g \<and> \<not> isExpiredAt (gr_expires_at g) now"

definition covers_tool :: "tool_name \<Rightarrow> grant \<Rightarrow> bool" where
  "covers_tool name g \<longleftrightarrow>
     gr_tool_rules g = [] \<or> (\<exists>r \<in> set (gr_tool_rules g). ta_name r = name)"

definition denies_tool :: "tool_name \<Rightarrow> grant \<Rightarrow> bool" where
  "denies_tool name g \<longleftrightarrow>
     (\<exists>r \<in> set (gr_tool_rules g). ta_name r = name \<and> equal_fold (ta_decision r) ''deny'')"

definition contributes :: "tool_name \<Rightarrow> gostring \<Rightarrow> grant \<Rightarrow> bool" where
  "contributes name side g \<longleftrightarrow>
     covers_tool name g \<and> sideEffectAllowed (gr_allowed_side_effects g) side"

definition rule_ranks :: "tool_name \<Rightarrow> tool_access list \<Rightarrow> nat set" where
  "rule_ranks name rs = (\<lambda>r. TrustRank (ta_required_trust r)) ` {r \<in> set rs. ta_name r = name}"

definition admin_rank_of :: "tool_name \<Rightarrow> gostring \<Rightarrow> grant set \<Rightarrow> nat" where
  "admin_rank_of name side A =
     Max (insert 0 ((\<lambda>g. TrustRank (gr_max_trust g)) ` {g \<in> A. contributes name side g}))"

definition required_rank_of :: "tool_name \<Rightarrow> gostring \<Rightarrow> nat \<Rightarrow> grant set \<Rightarrow> nat" where
  "required_rank_of name side base A =
     Max (insert base (\<Union>g \<in> {g \<in> A. contributes name side g}. rule_ranks name (gr_tool_rules g)))"

text \<open>The grant a selection reports: a live grant that covers the tool, and one that also
  allows the side effect as soon as there is one; the policy version moves with it. The code
  recognises "nothing attributed yet" by an empty name, so this holds of named grants.\<close>

definition attributed :: "tool_name \<Rightarrow> gostring \<Rightarrow> gostring \<Rightarrow> grant set \<Rightarrow> grant_selection \<Rightarrow> bool" where
  "attributed name side version A sel \<longleftrightarrow>
     (\<exists>g \<in> A. (if gs_side_effect_allowed sel then contributes name side g else covers_tool name g) \<and>
        gs_grant_name sel = gr_name g \<and> gs_grant_namespace sel = gr_namespace g \<and>
        gs_policy_version sel = ChoosePolicyVersion [gr_policy_version g, version])"

definition selection_spec ::
  "tool_name \<Rightarrow> gostring \<Rightarrow> gostring \<Rightarrow> nat \<Rightarrow> grant set \<Rightarrow> grant_selection \<Rightarrow> bool" where
  "selection_spec name side version base A sel \<longleftrightarrow>
     gs_deny sel = None \<and>
     gs_tool_allowed sel = (\<exists>g \<in> A. covers_tool name g) \<and>
     gs_side_effect_allowed sel = (\<exists>g \<in> A. contributes name side g) \<and>
     gs_admin_rank sel = admin_rank_of name side A \<and>
     gs_required_rank sel = required_rank_of name side base A \<and>
     ((\<forall>g \<in> A. gr_name g \<noteq> '''') \<and> gs_tool_allowed sel \<longrightarrow> attributed name side version A sel)"

lemma Max_insert_max:
  "finite S \<Longrightarrow> Max (insert (max a x) S) = Max (insert a (insert (x::nat) S))"
  by (cases "S = {}") (simp_all add: max.assoc)

lemma finite_rule_ranks [simp]: "finite (rule_ranks name rs)"
  by (simp add: rule_ranks_def)

lemma rule_ranks_simps [simp]:
  "rule_ranks name [] = {}"
  "rule_ranks name (r # rs) =
     (if ta_name r = name then insert (TrustRank (ta_required_trust r)) (rule_ranks name rs)
      else rule_ranks name rs)"
proof -
  show "rule_ranks name [] = {}" by (simp add: rule_ranks_def)
  have "{x \<in> set (r # rs). ta_name x = name} =
      (if ta_name r = name then insert r {x \<in> set rs. ta_name x = name}
       else {x \<in> set rs. ta_name x = name})" by auto
  then show "rule_ranks name (r # rs) =
     (if ta_name r = name then insert (TrustRank (ta_required_trust r)) (rule_ranks name rs)
      else rule_ranks name rs)"
    unfolding rule_ranks_def by auto
qed

lemma rule_ranks_empty: "rule_ranks name rs = {} \<longleftrightarrow> (\<forall>r \<in> set rs. ta_name r \<noteq> name)"
  by (auto simp: rule_ranks_def)

section \<open>The operations on a selection\<close>

lemma attribute_sel [simp]:
  "gs_tool_allowed (attribute v g sel) = gs_tool_allowed sel"
  "gs_side_effect_allowed (attribute v g sel) = gs_side_effect_allowed sel"
  "gs_admin_rank (attribute v g sel) = gs_admin_rank sel"
  "gs_required_rank (attribute v g sel) = gs_required_rank sel"
  "gs_required_trust (attribute v g sel) = gs_required_trust sel"
  "gs_deny (attribute v g sel) = gs_deny sel"
  "gs_grant_name (attribute v g sel) = gr_name g"
  "gs_grant_namespace (attribute v g sel) = gr_namespace g"
  "gs_policy_version (attribute v g sel) = ChoosePolicyVersion [gr_policy_version g, v]"
  by (simp_all add: attribute_def)

lemmas selection_ops = apply_rule_def apply_open_grant_def note_tool_allowed_def
  note_side_effect_def raise_admin_def Let_def

lemma apply_rule_sel [simp]:
  "gs_tool_allowed (apply_rule side v g r sel)"
  "gs_side_effect_allowed (apply_rule side v g r sel) =
     (gs_side_effect_allowed sel \<or> sideEffectAllowed (gr_allowed_side_effects g) side)"
  "gs_admin_rank (apply_rule side v g r sel) =
     (if sideEffectAllowed (gr_allowed_side_effects g) side
      then max (gs_admin_rank sel) (TrustRank (gr_max_trust g)) else gs_admin_rank sel)"
  "gs_required_rank (apply_rule side v g r sel) =
     (if sideEffectAllowed (gr_allowed_side_effects g) side
      then max (gs_required_rank sel) (TrustRank (ta_required_trust r)) else gs_required_rank sel)"
  "gs_deny (apply_rule side v g r sel) = gs_deny sel"
  by (auto simp: selection_ops)

lemma apply_open_grant_sel [simp]:
  "gs_tool_allowed (apply_open_grant side v g sel)"
  "gs_side_effect_allowed (apply_open_grant side v g sel) =
     (gs_side_effect_allowed sel \<or> sideEffectAllowed (gr_allowed_side_effects g) side)"
  "gs_admin_rank (apply_open_grant side v g sel) =
     (if sideEffectAllowed (gr_allowed_side_effects g) side
      then max (gs_admin_rank sel) (TrustRank (gr_max_trust g)) else gs_admin_rank sel)"
  "gs_required_rank (apply_open_grant side v g sel) = gs_required_rank sel"
  "gs_deny (apply_open_grant side v g sel) = gs_deny sel"
  by (auto simp: selection_ops)

text \<open>A selection with no tool allowed yet has no side effect allowed either; the attribution
  of \<open>apply_*\<close> is to the new grant or stays.\<close>

lemma apply_rule_attribution:
  assumes "attributed name side v A sel \<or> \<not> gs_tool_allowed sel \<and> \<not> gs_side_effect_allowed sel \<and> gs_grant_name sel = ''''"
    and "g \<in> A" and "covers_tool name g" and "\<forall>g \<in> A. gr_name g \<noteq> ''''"
  shows "attributed name side v A (apply_rule side v g r sel)"
  using assms unfolding attributed_def selection_ops contributes_def
  by (auto split: if_splits)

lemma apply_open_grant_attribution:
  assumes "attributed name side v A sel \<or> \<not> gs_tool_allowed sel \<and> \<not> gs_side_effect_allowed sel \<and> gs_grant_name sel = ''''"
    and "g \<in> A" and "covers_tool name g" and "\<forall>g \<in> A. gr_name g \<noteq> ''''"
  shows "attributed name side v A (apply_open_grant side v g sel)"
  using assms unfolding attributed_def selection_ops contributes_def
  by (auto split: if_splits)

section \<open>The loop over the rules of a grant\<close>

lemma rules_loop_Inl:
  "rules_loop name side v g rs sel = Inl sel' \<Longrightarrow>
     (\<exists>r \<in> set rs. ta_name r = name \<and> equal_fold (ta_decision r) ''deny'') \<and>
     gs_deny sel' = Some ((Deny 403 ''tool_denied'' (ChoosePolicyVersion [gr_policy_version g, v]))
        \<lparr>de_matched_grant := gr_name g, de_matched_grant_namespace := gr_namespace g\<rparr>)"
  by (induction name side v g rs sel rule: rules_loop.induct) (auto split: if_splits)

lemma rules_loop_Inr:
  "rules_loop name side v g rs sel = Inr sel' \<Longrightarrow>
     \<not> (\<exists>r \<in> set rs. ta_name r = name \<and> equal_fold (ta_decision r) ''deny'') \<and>
     gs_deny sel' = gs_deny sel \<and>
     gs_tool_allowed sel' = (gs_tool_allowed sel \<or> rule_ranks name rs \<noteq> {}) \<and>
     gs_side_effect_allowed sel' = (gs_side_effect_allowed sel \<or>
        sideEffectAllowed (gr_allowed_side_effects g) side \<and> rule_ranks name rs \<noteq> {}) \<and>
     gs_admin_rank sel' =
       (if sideEffectAllowed (gr_allowed_side_effects g) side \<and> rule_ranks name rs \<noteq> {}
        then max (gs_admin_rank sel) (TrustRank (gr_max_trust g)) else gs_admin_rank sel) \<and>
     gs_required_rank sel' =
       (if sideEffectAllowed (gr_allowed_side_effects g) side
        then Max (insert (gs_required_rank sel) (rule_ranks name rs)) else gs_required_rank sel)"
proof (induction name side v g rs sel rule: rules_loop.induct)
  case (1 name side v g sel)
  then show ?case by simp
next
  case (2 name side v g r rs sel)
  show ?case
  proof (cases "ta_name r = name")
    case False
    with 2 show ?thesis by auto
  next
    case True
    with 2 show ?thesis by (auto split: if_splits simp: Max_insert_max)
  qed
qed

lemma rules_loop_attribution:
  "rules_loop name side v g rs sel = Inr sel' \<Longrightarrow> g \<in> A \<Longrightarrow> covers_tool name g \<Longrightarrow>
   \<forall>g \<in> A. gr_name g \<noteq> '''' \<Longrightarrow>
   attributed name side v A sel \<or>
     \<not> gs_tool_allowed sel \<and> \<not> gs_side_effect_allowed sel \<and> gs_grant_name sel = '''' \<Longrightarrow>
   rule_ranks name rs \<noteq> {} \<or> attributed name side v A sel \<Longrightarrow>
   attributed name side v A sel'"
proof (induction name side v g rs sel rule: rules_loop.induct)
  case (1 name side v g sel)
  then show ?case by simp
next
  case (2 name side v g r rs sel)
  show ?case
  proof (cases "ta_name r = name")
    case False
    with 2 show ?thesis by auto
  next
    case True
    have "attributed name side v A (apply_rule side v g r sel)"
      by (rule apply_rule_attribution) (use 2 in auto)
    with True 2 show ?thesis by (auto split: if_splits)
  qed
qed

section \<open>The loop over the grants\<close>

lemma covers_iff_ranks:
  "gr_tool_rules g \<noteq> [] \<Longrightarrow> covers_tool name g \<longleftrightarrow> rule_ranks name (gr_tool_rules g) \<noteq> {}"
  by (auto simp: covers_tool_def rule_ranks_empty)

lemma contributors_insert:
  "{x \<in> insert g A. contributes name side x} =
     (if contributes name side g then insert g {x \<in> A. contributes name side x}
      else {x \<in> A. contributes name side x})"
  by auto

lemma admin_rank_of_insert:
  assumes "finite A"
  shows "admin_rank_of name side (insert g A) =
     (if contributes name side g then max (admin_rank_of name side A) (TrustRank (gr_max_trust g))
      else admin_rank_of name side A)"
proof -
  have "Max (insert 0 (insert r S)) = max (Max (insert 0 S)) r" if "finite S" for r :: nat and S
    using that by (cases "S = {}") (simp_all add: max.commute)
  note ins = this [OF finite_imageI, OF finite_subset [OF _ assms]]
  show ?thesis
    unfolding admin_rank_of_def contributors_insert image_insert if_distrib [of "insert 0"]
      if_distrib [of "image _"] if_distrib [of Max]
    by (subst ins) auto
qed

lemma required_rank_of_insert:
  assumes "finite A"
  shows "required_rank_of name side base (insert g A) =
     (if contributes name side g
      then Max (insert (required_rank_of name side base A) (rule_ranks name (gr_tool_rules g)))
      else required_rank_of name side base A)"
proof -
  let ?U = "\<Union>g \<in> {g \<in> A. contributes name side g}. rule_ranks name (gr_tool_rules g)"
  have fin: "finite ?U" using assms by simp
  have "Max (insert (Max (insert base ?U)) R) = Max (insert base (R \<union> ?U))" if "finite R" for R
  proof (cases "R = {}")
    case True
    then show ?thesis using fin by simp
  next
    case False
    have "Max (insert (Max (insert base ?U)) R) = max (Max (insert base ?U)) (Max R)"
      using that False by (simp add: Max_insert)
    also have "\<dots> = Max (insert base ?U \<union> R)"
      using that False fin by (subst Max_Un) auto
    finally show ?thesis by (simp add: Un_commute)
  qed
  then show ?thesis
    unfolding required_rank_of_def contributors_insert by auto
qed

lemma attributed_mono: "attributed name side v A sel \<Longrightarrow> A \<subseteq> B \<Longrightarrow> attributed name side v B sel"
  by (auto simp: attributed_def)

lemma spec_or_fresh:
  assumes "selection_spec name side v base A sel" and "gs_grant_name sel = '''' \<or> gs_tool_allowed sel"
    and "\<forall>g \<in> A. gr_name g \<noteq> ''''"
  shows "attributed name side v (insert g A) sel \<or>
     \<not> gs_tool_allowed sel \<and> \<not> gs_side_effect_allowed sel \<and> gs_grant_name sel = ''''"
  using assms by (auto simp: selection_spec_def contributes_def intro: attributed_mono)

lemma open_grant_step:
  assumes spec: "selection_spec name side v base A sel" and fin: "finite A"
    and fresh: "gs_grant_name sel = '''' \<or> gs_tool_allowed sel" and "gr_tool_rules g = []"
  shows "selection_spec name side v base (insert g A) (apply_open_grant side v g sel)"
proof -
  have cov: "covers_tool name g" using assms(4) by (simp add: covers_tool_def)
  have att: "attributed name side v (insert g A) (apply_open_grant side v g sel)"
    if "\<forall>g \<in> insert g A. gr_name g \<noteq> ''''"
    by (rule apply_open_grant_attribution [OF spec_or_fresh [OF spec fresh] _ cov that])
      (use that in simp_all)
  have req: "Max (insert x (rule_ranks name (gr_tool_rules g))) = x" for x
    using assms(4) by simp
  show ?thesis
    using spec cov att fin assms(4)
    by (auto simp: selection_spec_def admin_rank_of_insert required_rank_of_insert contributes_def)
qed

lemma ruled_grant_step:
  assumes spec: "selection_spec name side v base A sel" and fin: "finite A"
    and fresh: "gs_grant_name sel = '''' \<or> gs_tool_allowed sel" and rules: "gr_tool_rules g \<noteq> []"
    and loop: "rules_loop name side v g (gr_tool_rules g) sel = Inr sel'"
  shows "selection_spec name side v base (insert g A) sel'"
proof -
  note out = rules_loop_Inr [OF loop]
  have cov: "covers_tool name g \<longleftrightarrow> rule_ranks name (gr_tool_rules g) \<noteq> {}"
    by (rule covers_iff_ranks [OF rules])
  have att: "attributed name side v (insert g A) sel'"
    if "gs_tool_allowed sel'" and names: "\<forall>g \<in> insert g A. gr_name g \<noteq> ''''"
  proof (cases "covers_tool name g")
    case True
    then show ?thesis
      using rules_loop_attribution [OF loop _ True names spec_or_fresh [OF spec fresh]] cov names by simp
  next
    case False
    have "rules_loop name side v g rs s = Inr s" if "rule_ranks name rs = {}" for rs s
      using that by (induction rs) (auto split: if_splits)
    with loop cov False have "sel' = sel" by simp
    with that spec show ?thesis by (auto simp: selection_spec_def intro: attributed_mono)
  qed
  show ?thesis
    using spec out cov att fin
    by (auto simp: selection_spec_def admin_rank_of_insert required_rank_of_insert contributes_def)
qed

text \<open>The decision of an explicit deny, and a live grant that gives it.\<close>

definition denial_of :: "gostring \<Rightarrow> grant \<Rightarrow> decision" where
  "denial_of v g =
     (Deny 403 ''tool_denied'' (ChoosePolicyVersion [gr_policy_version g, v]))
       \<lparr>de_matched_grant := gr_name g, de_matched_grant_namespace := gr_namespace g\<rparr>"

definition vetoes :: "tool_name \<Rightarrow> time \<Rightarrow> grant list \<Rightarrow> grant set" where
  "vetoes name now gs = {g \<in> set gs. live now g \<and> denies_tool name g}"

lemma vetoes_simps [simp]:
  "vetoes name now [] = {}"
  "vetoes name now (g # gs) =
     (if live now g \<and> denies_tool name g then insert g (vetoes name now gs) else vetoes name now gs)"
  by (auto simp: vetoes_def)

lemma live_simps:
  "gr_disabled g \<Longrightarrow> \<not> live now g"
  "isExpiredAt (gr_expires_at g) now \<Longrightarrow> \<not> live now g"
  "\<not> gr_disabled g \<Longrightarrow> \<not> isExpiredAt (gr_expires_at g) now \<Longrightarrow> live now g"
  by (auto simp: live_def)

lemma rules_loop_denies:
  "rules_loop name side v g (gr_tool_rules g) sel = Inl sel' \<Longrightarrow>
     denies_tool name g \<and> gs_deny sel' = Some (denial_of v g)"
  "rules_loop name side v g (gr_tool_rules g) sel = Inr sel' \<Longrightarrow> \<not> denies_tool name g"
  by (auto simp: denies_tool_def denial_of_def dest: rules_loop_Inl rules_loop_Inr)

lemma grants_loop_denied:
  "grants_loop name side v now gs e a sel = (sel', e', a') \<Longrightarrow> vetoes name now gs \<noteq> {} \<Longrightarrow>
     \<exists>g \<in> vetoes name now gs. gs_deny sel' = Some (denial_of v g)"
proof (induction gs arbitrary: e a sel)
  case Nil
  then show ?case by simp
next
  case (Cons g gs)
  consider "gr_disabled g \<or> isExpiredAt (gr_expires_at g) now" | "live now g" "gr_tool_rules g = []"
    | "live now g" "gr_tool_rules g \<noteq> []"
    by (auto simp: live_def)
  then show ?case
  proof cases
    case 1
    then show ?thesis using Cons by (auto simp: live_simps split: if_splits)
  next
    case 2
    then show ?thesis using Cons by (auto simp: live_def denies_tool_def split: if_splits)
  next
    case 3
    show ?thesis
    proof (cases "rules_loop name side v g (gr_tool_rules g) sel")
      case (Inl s)
      then show ?thesis using 3 Cons.prems rules_loop_denies(1) [OF Inl] by (auto simp: live_def)
    next
      case (Inr s)
      then show ?thesis using 3 Cons rules_loop_denies(2) [OF Inr] by (auto simp: live_def)
    qed
  qed
qed

lemma rules_loop_skip: "rule_ranks name rs = {} \<Longrightarrow> rules_loop name side v g rs s = Inr s"
  by (induction rs) (auto split: if_splits)

text \<open>The invariant of the loop over the grants: the specification for those seen so far, and no
  name attributed before a tool was allowed.\<close>

definition loop_inv ::
  "tool_name \<Rightarrow> gostring \<Rightarrow> gostring \<Rightarrow> nat \<Rightarrow> grant set \<Rightarrow> grant_selection \<Rightarrow> bool" where
  "loop_inv name side v base A sel \<longleftrightarrow>
     selection_spec name side v base A sel \<and> finite A \<and>
     (gs_grant_name sel = '''' \<or> gs_tool_allowed sel)"

lemma loop_inv_open:
  "loop_inv name side v base A sel \<Longrightarrow> gr_tool_rules g = [] \<Longrightarrow>
     loop_inv name side v base (insert g A) (apply_open_grant side v g sel)"
  unfolding loop_inv_def by (simp add: open_grant_step)

lemma loop_inv_ruled:
  assumes "loop_inv name side v base A sel" and "gr_tool_rules g \<noteq> []"
    and loop: "rules_loop name side v g (gr_tool_rules g) sel = Inr sel'"
  shows "loop_inv name side v base (insert g A) sel'"
proof -
  have "selection_spec name side v base (insert g A) sel'"
    by (rule ruled_grant_step [OF _ _ _ assms(2) loop]) (use assms(1) in \<open>simp_all add: loop_inv_def\<close>)
  moreover have "gs_grant_name sel' = '''' \<or> gs_tool_allowed sel'"
  proof (cases "rule_ranks name (gr_tool_rules g) = {}")
    case True
    with loop assms(1) show ?thesis by (simp add: rules_loop_skip loop_inv_def)
  next
    case False
    then show ?thesis using rules_loop_Inr [OF loop] by simp
  qed
  ultimately show ?thesis using assms(1) by (simp add: loop_inv_def)
qed

lemma grants_loop_selected:
  "grants_loop name side v now gs e a sel = (sel', e', a') \<Longrightarrow> vetoes name now gs = {} \<Longrightarrow>
   loop_inv name side v base A sel \<Longrightarrow>
     loop_inv name side v base (A \<union> {g \<in> set gs. live now g}) sel'"
proof (induction gs arbitrary: e a sel A)
  case Nil
  then show ?case by simp
next
  case (Cons g gs)
  have dead: "{x \<in> set (g # gs). live now x} = {x \<in> set gs. live now x}" if "\<not> live now g"
    using that by auto
  have grow: "A \<union> {x \<in> set (g # gs). live now x} = insert g A \<union> {x \<in> set gs. live now x}"
    if "live now g" using that by auto
  have noveto: "vetoes name now gs = {}" using Cons.prems(2) by (simp split: if_splits)
  consider "gr_disabled g \<or> isExpiredAt (gr_expires_at g) now" | "live now g" "gr_tool_rules g = []"
    | "live now g" "gr_tool_rules g \<noteq> []"
    by (auto simp: live_def)
  then show ?case
  proof cases
    case 1
    then have "\<exists>e2. grants_loop name side v now gs e2 a sel = (sel', e', a')"
      using Cons.prems(1) by (auto split: if_splits)
    moreover have "\<not> live now g" using 1 by (auto simp: live_def)
    ultimately show ?thesis unfolding dead [OF \<open>\<not> live now g\<close>]
      using Cons.IH Cons.prems(3) noveto by blast
  next
    case 2
    then have "grants_loop name side v now gs e (Suc a) (apply_open_grant side v g sel) = (sel', e', a')"
      using Cons.prems(1) by (simp add: live_def)
    then show ?thesis unfolding grow [OF 2(1)]
      by (rule Cons.IH [OF _ noveto loop_inv_open [OF Cons.prems(3) 2(2)]])
  next
    case 3
    show ?thesis
    proof (cases "rules_loop name side v g (gr_tool_rules g) sel")
      case (Inl s)
      then show ?thesis using 3 Cons.prems(2) rules_loop_denies(1) [OF Inl] by simp
    next
      case (Inr s)
      then have "grants_loop name side v now gs e (Suc a) s = (sel', e', a')"
        using Cons.prems(1) 3 by (simp add: live_def)
      then show ?thesis unfolding grow [OF 3(1)]
        by (rule Cons.IH [OF _ noveto loop_inv_ruled [OF Cons.prems(3) 3(2) Inr]])
    qed
  qed
qed

section \<open>The selection\<close>

lemma selection_spec_fresh:
  assumes "\<not> gs_tool_allowed sel" "\<not> gs_side_effect_allowed sel" "gs_admin_rank sel = 0"
    "gs_required_rank sel = base" "gs_deny sel = None"
  shows "selection_spec name side v base {} sel"
  using assms by (simp add: selection_spec_def admin_rank_of_def required_rank_of_def)

lemma selection_spec_only_expired:
  "selection_spec name side v b A (sel\<lparr>gs_only_expired := x\<rparr>) = selection_spec name side v b A sel"
  by (simp add: selection_spec_def attributed_def)

lemma bestGrantFor_loop:
  obtains s e a where
    "grants_loop name side v now (sort_key grant_order grants) 0 0
       \<lparr>gs_tool_allowed = False, gs_side_effect_allowed = False, gs_admin_rank = 0,
        gs_required_rank = TrustRank trust, gs_required_trust = trust, gs_policy_version = v,
        gs_grant_name = '''', gs_grant_namespace = '''', gs_deny = None,
        gs_only_expired = False\<rparr> = (s, e, a)"
    "bestGrantFor grants name trust side v now = s\<lparr>gs_only_expired := 0 < e \<and> a = 0\<rparr>"
proof -
  let ?out = "grants_loop name side v now (sort_key grant_order grants) 0 0
       \<lparr>gs_tool_allowed = False, gs_side_effect_allowed = False, gs_admin_rank = 0,
        gs_required_rank = TrustRank trust, gs_required_trust = trust, gs_policy_version = v,
        gs_grant_name = '''', gs_grant_namespace = '''', gs_deny = None,
        gs_only_expired = False\<rparr>"
  show thesis
    by (rule that [of "fst ?out" "fst (snd ?out)" "snd (snd ?out)"])
      (simp_all add: bestGrantFor_def Let_def case_prod_unfold)
qed

lemma vetoes_sort [simp]: "vetoes name now (sort_key f gs) = vetoes name now gs"
  by (simp add: vetoes_def)

theorem bestGrantFor_deny:
  assumes "vetoes name now grants \<noteq> {}"
  shows "\<exists>g \<in> vetoes name now grants.
           gs_deny (bestGrantFor grants name trust side v now) = Some (denial_of v g)"
proof (rule bestGrantFor_loop [of name side v now grants trust])
  fix s e a
  assume loop: "grants_loop name side v now (sort_key grant_order grants) 0 0
       \<lparr>gs_tool_allowed = False, gs_side_effect_allowed = False, gs_admin_rank = 0,
        gs_required_rank = TrustRank trust, gs_required_trust = trust, gs_policy_version = v,
        gs_grant_name = '''', gs_grant_namespace = '''', gs_deny = None,
        gs_only_expired = False\<rparr> = (s, e, a)"
    and best: "bestGrantFor grants name trust side v now = s\<lparr>gs_only_expired := 0 < e \<and> a = 0\<rparr>"
  then show ?thesis using grants_loop_denied [OF loop] assms by simp
qed

theorem bestGrantFor_selection:
  assumes "vetoes name now grants = {}"
  shows "selection_spec name side v (TrustRank trust) {g \<in> set grants. live now g}
           (bestGrantFor grants name trust side v now)"
proof (rule bestGrantFor_loop [of name side v now grants trust])
  fix s e a
  assume loop: "grants_loop name side v now (sort_key grant_order grants) 0 0
       \<lparr>gs_tool_allowed = False, gs_side_effect_allowed = False, gs_admin_rank = 0,
        gs_required_rank = TrustRank trust, gs_required_trust = trust, gs_policy_version = v,
        gs_grant_name = '''', gs_grant_namespace = '''', gs_deny = None,
        gs_only_expired = False\<rparr> = (s, e, a)"
    and best: "bestGrantFor grants name trust side v now = s\<lparr>gs_only_expired := 0 < e \<and> a = 0\<rparr>"
  have "loop_inv name side v (TrustRank trust) ({} \<union> {g \<in> set (sort_key grant_order grants). live now g}) s"
    by (rule grants_loop_selected [OF loop]) (use assms in \<open>simp_all add: loop_inv_def selection_spec_fresh\<close>)
  then have "selection_spec name side v (TrustRank trust) {g \<in> set grants. live now g} s"
    by (simp add: loop_inv_def)
  then show ?thesis unfolding best by (simp only: selection_spec_only_expired)
qed

lemma bestGrantFor_denied:
  "gs_deny (bestGrantFor grants name trust side v now) = None \<longleftrightarrow> vetoes name now grants = {}"
  using bestGrantFor_deny [of name now grants trust side v]
    bestGrantFor_selection [of name now grants side v trust]
  by (cases "vetoes name now grants = {}") (auto simp: selection_spec_def)

lemma bestGrantFor_deny_decision:
  "gs_deny (bestGrantFor grants name trust side v now) = Some d \<Longrightarrow>
   \<exists>g \<in> vetoes name now grants. d = denial_of v g"
  using bestGrantFor_deny [of name now grants trust side v] bestGrantFor_denied
  by (metis option.distinct(1) option.inject)

end
