(* ===== verification/PolicyAuthz.thy ===== *)
theory PolicyAuthz
  imports PolicySelection
begin

text \<open>
  What the gateway's authorization decides. The specification \<open>grant_verdict\<close> and
  \<open>enforced_verdict\<close> state verdict and reason over the set of grants of the document, with no
  loop, sorting or index; the lemmas show that \<open>authorize\<close> meets it, and the properties about
  \<open>Authorize\<close> (compiled policies, explicit denials, sessions, monitor mode, order of the
  grants) are read off it.
\<close>

section \<open>Expired grants\<close>

definition expired_only :: "time \<Rightarrow> grant set \<Rightarrow> bool" where
  "expired_only now M \<longleftrightarrow>
     (\<exists>g \<in> M. \<not> gr_disabled g \<and> isExpiredAt (gr_expires_at g) now) \<and> (\<forall>g \<in> M. \<not> live now g)"

lemma grants_loop_counts:
  "grants_loop name side v now gs e a sel = (sel', e', a') \<Longrightarrow> vetoes name now gs = {} \<Longrightarrow>
     (0 < e' \<longleftrightarrow> 0 < e \<or> (\<exists>g \<in> set gs. \<not> gr_disabled g \<and> isExpiredAt (gr_expires_at g) now)) \<and>
     (a' = 0 \<longleftrightarrow> a = 0 \<and> (\<forall>g \<in> set gs. \<not> live now g))"
proof (induction gs arbitrary: e a sel)
  case Nil
  then show ?case by simp
next
  case (Cons g gs)
  have noveto: "vetoes name now gs = {}" using Cons.prems(2) by (simp split: if_splits)
  consider (off) "gr_disabled g" | (late) "\<not> gr_disabled g" "isExpiredAt (gr_expires_at g) now"
    | (open_grant) "live now g" "gr_tool_rules g = []" | (ruled) "live now g" "gr_tool_rules g \<noteq> []"
    by (auto simp: live_def)
  then show ?case
  proof cases
    case off
    then show ?thesis using Cons.IH Cons.prems(1) noveto by (simp add: live_simps)
  next
    case late
    then have "grants_loop name side v now gs (Suc e) a sel = (sel', e', a')"
      using Cons.prems(1) by simp
    from Cons.IH [OF this noveto] late show ?thesis by (auto simp: live_def)
  next
    case open_grant
    then have "grants_loop name side v now gs e (Suc a) (apply_open_grant side v g sel) = (sel', e', a')"
      using Cons.prems(1) by (simp add: live_def)
    from Cons.IH [OF this noveto] open_grant show ?thesis by (auto simp: live_def)
  next
    case ruled
    obtain s where "rules_loop name side v g (gr_tool_rules g) sel = Inr s"
      using Cons.prems(2) ruled rules_loop_denies(1) by (cases "rules_loop name side v g (gr_tool_rules g) sel")
        (fastforce split: if_splits)+
    with ruled have "grants_loop name side v now gs e (Suc a) s = (sel', e', a')"
      using Cons.prems(1) by (simp add: live_def)
    from Cons.IH [OF this noveto] ruled show ?thesis by (auto simp: live_def)
  qed
qed

lemma bestGrantFor_only_expired:
  assumes "vetoes name now grants = {}"
  shows "gs_only_expired (bestGrantFor grants name trust side v now) = expired_only now (set grants)"
proof (rule bestGrantFor_loop [of name side v now grants trust])
  fix s e a
  assume loop: "grants_loop name side v now (sort_key grant_order grants) 0 0
       \<lparr>gs_tool_allowed = False, gs_side_effect_allowed = False, gs_admin_rank = 0,
        gs_required_rank = TrustRank trust, gs_required_trust = trust, gs_policy_version = v,
        gs_grant_name = '''', gs_grant_namespace = '''', gs_deny = None,
        gs_only_expired = False\<rparr> = (s, e, a)"
    and best: "bestGrantFor grants name trust side v now = s\<lparr>gs_only_expired := 0 < e \<and> a = 0\<rparr>"
  from grants_loop_counts [OF loop] assms show ?thesis
    by (simp add: best expired_only_def)
qed

section \<open>The verdict, over sets of grants\<close>

definition grant_verdict :: "document \<Rightarrow> request \<Rightarrow> time \<Rightarrow> binding option \<Rightarrow> bool \<times> gostring" where
  "grant_verdict d req now session =
     (let name = rq_tool_name req;
          (trust, side, _) = resolveToolMetadata (dc_tools d) name;
          M = {g \<in> set (dc_grants d). grant_matches (rq_identity req) g};
          A = {g \<in> M. live now g};
          open = defaultDecisionAllow (Some d);
          admin = admin_rank_of name side A
      in if M = {} then (open, ''no_matching_grant'')
         else if \<exists>g \<in> A. denies_tool name g then (False, ''tool_denied'')
         else if \<not> (\<exists>g \<in> A. covers_tool name g) then
           (open, if expired_only now M then ''grant_expired'' else ''tool_not_granted'')
         else if side = '''' then (False, ''tool_side_effect_unknown'')
         else if \<not> (\<exists>g \<in> A. contributes name side g) then (False, ''side_effect_not_allowed'')
         else if min admin (consented_rank session admin) < required_rank_of name side (TrustRank trust) A
         then (False, ''trust_too_low'')
         else (True, ''allowed''))"

lemma policyVersionOrDefault_compiled [simp]:
  "policyVersionOrDefault (Some (d\<lparr>dc_compiled := c\<rparr>)) v = policyVersionOrDefault (Some d) v"
  "policyVersionOrDefault (Some (d\<lparr>dc_grants := gs\<rparr>)) v = policyVersionOrDefault (Some d) v"
  by (simp_all add: policyVersionOrDefault_def)

lemma sessionRequired_compiled [simp]:
  "sessionRequired (Some (d\<lparr>dc_compiled := c\<rparr>)) = sessionRequired (Some d)"
  "sessionRequired (Some (d\<lparr>dc_grants := gs\<rparr>)) = sessionRequired (Some d)"
  by (simp_all add: sessionRequired_def)

lemma policyModeObserve_compiled [simp]:
  "policyModeObserve (Some (d\<lparr>dc_compiled := c\<rparr>)) = policyModeObserve (Some d)"
  "policyModeObserve (Some (d\<lparr>dc_grants := gs\<rparr>)) = policyModeObserve (Some d)"
  by (simp_all add: policyModeObserve_def)

lemma defaultDecisionAllow_compiled [simp]:
  "defaultDecisionAllow (Some (d\<lparr>dc_compiled := c\<rparr>)) = defaultDecisionAllow (Some d)"
  "defaultDecisionAllow (Some (d\<lparr>dc_grants := gs\<rparr>)) = defaultDecisionAllow (Some d)"
  by (simp_all add: defaultDecisionAllow_def)

lemma decideByDefault_compiled [simp]:
  "decideByDefault (Some (d\<lparr>dc_compiled := c\<rparr>)) r = decideByDefault (Some d) r"
  "decideByDefault (Some (d\<lparr>dc_grants := gs\<rparr>)) r = decideByDefault (Some d) r"
  by (simp_all add: decideByDefault_def)

lemma UsesDelegatedHeaders_compiled [simp]:
  "UsesDelegatedHeaders (Some (d\<lparr>dc_compiled := c\<rparr>)) = UsesDelegatedHeaders (Some d)"
  "UsesDelegatedHeaders (Some (d\<lparr>dc_grants := gs\<rparr>)) = UsesDelegatedHeaders (Some d)"
  by (simp_all add: UsesDelegatedHeaders_def)

lemma index_ok_None [simp]: "dc_compiled d = None \<Longrightarrow> index_ok d"
  by (simp add: index_ok_def)

lemma admin_rank_pos:
  assumes "finite A" and "g \<in> A" and "contributes name side g"
  shows "0 < admin_rank_of name side A"
proof -
  have "0 < TrustRank (gr_max_trust g)" by (simp add: TrustRank_def Let_def)
  also have "TrustRank (gr_max_trust g) \<le> admin_rank_of name side A"
    unfolding admin_rank_of_def using assms by (intro Max_ge) auto
  finally show ?thesis .
qed

lemma decide_grants_verdict:
  assumes "index_ok d"
  shows "(de_allowed (decide_grants (Some d) req now s), de_reason (decide_grants (Some d) req now s)) =
     grant_verdict d req now s"
proof -
  define name where "name = rq_tool_name req"
  define match where "match = matchingGrants (dc_grants d) (rq_identity req)"
  obtain trust side risk where meta: "resolveToolMetadata (dc_tools d) name = (trust, side, risk)"
    by (metis prod_cases3)
  define v where "v = policyVersionOrDefault (Some d) ''''"
  let ?best = "bestGrantFor match name trust side v now"
  let ?A = "{g \<in> set match. live now g}"
  have M: "set match = {g \<in> set (dc_grants d). grant_matches (rq_identity req) g}"
    by (simp add: match_def matchingGrants_def)
  have empty: "match = [] \<longleftrightarrow> set match = {}" by simp
  have veto: "vetoes name now match = {} \<longleftrightarrow> \<not> (\<exists>g \<in> ?A. denies_tool name g)"
    by (auto simp: vetoes_def)
  note code = decide_grants_def indexed_lookups [OF assms] match_def [symmetric]
    name_def [symmetric] v_def [symmetric] meta
  note spec = grant_verdict_def M [symmetric] name_def [symmetric] meta
  show ?thesis
  proof (cases "match = [] \<or> vetoes name now match \<noteq> {}")
    case True
    show ?thesis
    proof (cases "match = []")
      case True
      then show ?thesis unfolding code spec Let_def by simp
    next
      case False
      with \<open>match = [] \<or> _\<close> obtain g where deny: "gs_deny ?best = Some (denial_of v g)"
        and some: "\<exists>g \<in> ?A. denies_tool name g"
        using bestGrantFor_deny veto by blast
      from False have "set match \<noteq> {}" by simp
      with False deny some show ?thesis
        unfolding code spec Let_def by (simp add: denial_of_def)
    qed
  next
    case False
    then have none: "gs_deny ?best = None" by (simp add: bestGrantFor_denied)
    from False have sel: "selection_spec name side v (TrustRank trust) ?A ?best"
      by (intro bestGrantFor_selection) simp
    from False have only: "gs_only_expired ?best = expired_only now (set match)"
      by (simp add: bestGrantFor_only_expired)
    from False veto have nodeny: "\<not> (\<exists>g \<in> ?A. denies_tool name g)" by simp
    have facts: "gs_tool_allowed ?best = (\<exists>g \<in> ?A. covers_tool name g)"
      "gs_side_effect_allowed ?best = (\<exists>g \<in> ?A. contributes name side g)"
      "gs_admin_rank ?best = admin_rank_of name side ?A"
      "gs_required_rank ?best = required_rank_of name side (TrustRank trust) ?A"
      using sel by (simp_all add: selection_spec_def)
    have ranked: "gs_admin_rank ?best \<noteq> 0" if "gs_side_effect_allowed ?best"
    proof -
      from that obtain g where "g \<in> ?A" "contributes name side g" unfolding facts by blast
      then have "0 < admin_rank_of name side ?A" by (intro admin_rank_pos) simp_all
      then show ?thesis unfolding facts by simp
    qed
    have M0: "match \<noteq> []" "set match \<noteq> {}" using False by simp_all
    have verdict: "(de_allowed (decide_grants (Some d) req now s), de_reason (decide_grants (Some d) req now s)) =
      (if \<not> gs_tool_allowed ?best then
         (defaultDecisionAllow (Some d), if gs_only_expired ?best then ''grant_expired'' else ''tool_not_granted'')
       else if side = '''' then (False, ''tool_side_effect_unknown'')
       else if \<not> gs_side_effect_allowed ?best then (False, ''side_effect_not_allowed'')
       else if min (gs_admin_rank ?best) (consented_rank s (gs_admin_rank ?best)) < gs_required_rank ?best
       then (False, ''trust_too_low'') else (True, ''allowed''))"
      using M0(1) none ranked unfolding code Let_def
      by (cases "gs_side_effect_allowed ?best") simp_all
    show ?thesis
      unfolding verdict spec Let_def facts only using M0(2) nodeny by simp
  qed
qed

section \<open>The enforced decision\<close>

text \<open>The session gate over the plain document: a verdict on denial, else the live session.\<close>

definition session_gate ::
  "document \<Rightarrow> request \<Rightarrow> time \<Rightarrow> (bool \<times> gostring) + binding option" where
  "session_gate d req now =
     (let found = findPolicySession (Some (d\<lparr>dc_compiled := None\<rparr>)) req;
          current = (\<lambda>s. \<not> bd_revoked s \<and> \<not> isExpiredAt (bd_expires_at s) now)
      in if sessionRequired (Some d) then
           (case found of
              None \<Rightarrow> Inl (False, ''session_not_found'')
            | Some s \<Rightarrow>
                if bd_revoked s then Inl (False, ''session_revoked'')
                else if current s then Inr (Some s) else Inl (False, ''session_expired''))
         else Inr (case found of None \<Rightarrow> None
                   | Some s \<Rightarrow> if id_session (rq_identity req) \<noteq> '''' \<and> current s then Some s else None))"

definition enforced_verdict :: "document \<Rightarrow> request \<Rightarrow> time \<Rightarrow> bool \<times> gostring" where
  "enforced_verdict d req now =
     (let idn = rq_identity req in
      if id_human idn = '''' \<and> id_agent idn = '''' \<and> id_team idn = '''' then (False, ''missing_identity'')
      else if sessionRequired (Some d) \<and> id_session idn = '''' then (False, ''missing_session'')
      else (case session_gate d req now of
              Inl denied \<Rightarrow> denied
            | Inr s \<Rightarrow> grant_verdict d req now s))"

text \<open>The requests that reach the grants: a tool call, under a policy that enforces identities.\<close>

definition enforces :: "document \<Rightarrow> request \<Rightarrow> bool" where
  "enforces d req \<longleftrightarrow>
     \<not> UsesDelegatedHeaders (Some d) \<and> \<not> policyModeObserve (Some d) \<and>
     IsToolCallMethod (rq_rpc_method req)"

definition clock :: "time \<Rightarrow> time \<Rightarrow> time" where
  "clock now wall = (if now = zero_time then wall else now)"

lemma clock_idem [simp]: "clock (clock now wall) wall = clock now wall"
  by (simp add: clock_def)

lemma resolve_session_gate:
  assumes "index_ok d"
  shows "(case resolve_session (Some d) req now of
            Inl x \<Rightarrow> Inl (de_allowed x, de_reason x) | Inr s \<Rightarrow> Inr s) = session_gate d req now"
  unfolding resolve_session_def session_gate_def findPolicySession_indexed [OF assms] Let_def
  by (cases "findPolicySession (Some (d\<lparr>dc_compiled := None\<rparr>)) req") auto

lemma authorize_verdict:
  assumes "index_ok d" and "enforces d req"
  shows "(de_allowed (authorize (Some d) req now wall), de_reason (authorize (Some d) req now wall)) =
     enforced_verdict d req (clock now wall)"
proof -
  note gate = resolve_session_gate [OF assms(1), of req "clock now wall", symmetric]
  show ?thesis
    unfolding enforced_verdict_def gate
    using assms(2) decide_grants_verdict [OF assms(1), of req "clock now wall"]
    unfolding authorize_def enforces_def Let_def clock_def [symmetric]
    by (cases "resolve_session (Some d) req (clock now wall)") (auto split: prod.split)
qed

lemma authorize_clock: "authorize p req (clock now wall) wall = authorize p req now wall"
  unfolding authorize_def Let_def clock_def [symmetric] clock_idem by (rule refl)

text \<open>The document with an index is its plain version for every step of \<open>authorize\<close>.\<close>

lemma authorize_indexed:
  assumes "index_ok d"
  shows "authorize (Some d) req now wall = authorize (Some (d\<lparr>dc_compiled := None\<rparr>)) req now wall"
proof -
  have plain: "index_ok (d\<lparr>dc_compiled := None\<rparr>)" by simp
  have "decide_grants (Some d) req t s = decide_grants (Some (d\<lparr>dc_compiled := None\<rparr>)) req t s" for t s
    unfolding decide_grants_def indexed_lookups [OF assms] indexed_lookups [OF plain]
    by (simp cong: if_cong option.case_cong)
  moreover have "resolve_session (Some d) req t = resolve_session (Some (d\<lparr>dc_compiled := None\<rparr>)) req t" for t
    unfolding resolve_session_def findPolicySession_indexed [OF assms] by simp
  moreover have "authorizeDelegated (Some d) req = authorizeDelegated (Some (d\<lparr>dc_compiled := None\<rparr>)) req"
    unfolding authorizeDelegated_def indexed_lookups [OF assms] indexed_lookups [OF plain]
    by (cases "dc_policy d") (simp_all add: Let_def)
  ultimately show ?thesis
    unfolding authorize_def indexed_lookups [OF assms] indexed_lookups [OF plain]
    by (cases "resolveToolMetadata (dc_tools d) (rq_tool_name req)") (simp add: Let_def split: sum.split)
qed

section \<open>The decision with monitor grants\<close>

text \<open>A policy as the gateway holds it: as read, or activated by \<open>Compile\<close>.\<close>

definition activated :: "document \<Rightarrow> bool" where
  "activated d \<longleftrightarrow>
     (case dc_compiled d of
        None \<Rightarrow> True
      | Some ix \<Rightarrow> ix = build_index (d\<lparr>dc_compiled := None\<rparr>))"

definition only :: "(grant \<Rightarrow> bool) \<Rightarrow> document \<Rightarrow> document" where
  "only P d = d\<lparr>dc_grants := filter P (dc_grants d), dc_compiled := None\<rparr>"

definition some_active :: "(grant \<Rightarrow> bool) \<Rightarrow> document \<Rightarrow> request \<Rightarrow> time \<Rightarrow> bool" where
  "some_active P d req now \<longleftrightarrow>
     (\<exists>g \<in> set (dc_grants d). active_for (rq_identity req) now g \<and> P g)"

definition monitored_verdict :: "document \<Rightarrow> request \<Rightarrow> time \<Rightarrow> bool \<times> gostring \<times> bool" where
  "monitored_verdict d req now =
     (let plain = (\<lambda>v. (fst v, snd v, False));
          (_, side, _) = resolveToolMetadata (dc_tools d) (rq_tool_name req);
          shadow = enforced_verdict (only is_monitor d) req now;
          enforced = enforced_verdict (only (\<lambda>g. \<not> is_monitor g) d) req now;
          binding = some_active (\<lambda>g. \<not> is_monitor g) d req now
      in if \<not> some_active is_monitor d req now \<or> side = '''' then plain (enforced_verdict d req now)
         else if binding \<and> \<not> fst enforced then plain enforced
         else if monitorableGrantDenial (snd shadow)
         then (True, snd (if binding then enforced else shadow), True)
         else plain (if binding then enforced else shadow))"

lemma build_index_compiled [simp]: "build_index (d\<lparr>dc_compiled := c\<rparr>) = build_index d"
  by (simp add: build_index_def)

lemma activated_index_ok: "activated d \<Longrightarrow> index_ok d"
  by (auto simp: activated_def index_ok_def build_index_def split: option.splits)

lemma activated_plain [simp]: "activated (d\<lparr>dc_compiled := None\<rparr>)"
  by (simp add: activated_def)

lemma activated_Compile: "Compile (Some d) = Some d' \<Longrightarrow> activated d'"
  by (auto simp: Compile_def activated_def)

lemma no_monitor_active:
  assumes "activated d" and "no_monitor_index d"
  shows "filter is_monitor (dc_grants d) = []"
  using assms
  by (auto simp: activated_def no_monitor_index_def build_index_def is_monitor_def
      filter_empty_conv list_ex_iff split: option.splits)

lemma findPolicySession_plain:
  "findPolicySession (Some (d\<lparr>dc_grants := gs, dc_compiled := None\<rparr>)) req =
   findPolicySession (Some (d\<lparr>dc_compiled := None\<rparr>)) req"
  by (cases "rq_session req"; cases "dc_session d") (simp_all add: findPolicySession_def Let_def)

text \<open>Only the grants that match, as a set, and the settings matter.\<close>

lemma enforced_verdict_cong:
  assumes "\<And>g. grant_matches (rq_identity req) g \<Longrightarrow> g \<in> set gs \<longleftrightarrow> g \<in> set gs'"
  shows "enforced_verdict (d\<lparr>dc_grants := gs, dc_compiled := c\<rparr>) req now =
         enforced_verdict (d\<lparr>dc_grants := gs', dc_compiled := c'\<rparr>) req now"
proof -
  have M: "{g \<in> set gs. grant_matches (rq_identity req) g} = {g \<in> set gs'. grant_matches (rq_identity req) g}"
    using assms by auto
  have "grant_verdict (d\<lparr>dc_grants := gs, dc_compiled := c\<rparr>) req now s =
        grant_verdict (d\<lparr>dc_grants := gs', dc_compiled := c'\<rparr>) req now s" for s
    unfolding grant_verdict_def by (simp add: M defaultDecisionAllow_def)
  moreover have "session_gate (d\<lparr>dc_grants := gs, dc_compiled := c\<rparr>) req now =
        session_gate (d\<lparr>dc_grants := gs', dc_compiled := c'\<rparr>) req now"
    by (simp add: session_gate_def findPolicySession_plain sessionRequired_def)
  moreover have "sessionRequired (Some (d\<lparr>dc_grants := gs, dc_compiled := c\<rparr>)) =
        sessionRequired (Some (d\<lparr>dc_grants := gs', dc_compiled := c'\<rparr>))"
    by (simp add: sessionRequired_def)
  ultimately show ?thesis by (simp add: enforced_verdict_def sessionRequired_def Let_def split: sum.split)
qed

lemma enforced_verdict_matching:
  "enforced_verdict (policyWithGrants d (filter P (matchingGrants (dc_grants d) (rq_identity req)))) req now
     = enforced_verdict (only P d) req now"
proof -
  have "enforced_verdict (d\<lparr>dc_grants := filter P (matchingGrants (dc_grants d) (rq_identity req)),
          dc_compiled := map_option (\<lambda>ix. ix\<lparr>ix_grants := None\<rparr>) (dc_compiled d)\<rparr>) req now =
        enforced_verdict (d\<lparr>dc_grants := filter P (dc_grants d), dc_compiled := None\<rparr>) req now"
    by (rule enforced_verdict_cong) (auto simp: matchingGrants_def)
  then show ?thesis by (simp add: policyWithGrants_def only_def)
qed

lemma enforces_policyWithGrants: "enforces d req \<Longrightarrow> enforces (policyWithGrants d gs) req"
  by (simp add: enforces_def policyWithGrants_def UsesDelegatedHeaders_def policyModeObserve_def)

lemma some_active_matching:
  "list_ex (active_for (rq_identity req) t) (filter P (matchingGrants (dc_grants d) (rq_identity req)))
     = some_active P d req t"
  by (auto simp: some_active_def matchingGrants_def active_for_def list_ex_iff)

lemma verdict_triple:
  assumes "index_ok d" and "enforces d req"
  shows "de_allowed (authorize (Some d) req now wall) = fst (enforced_verdict d req (clock now wall))"
    and "de_reason (authorize (Some d) req now wall) = snd (enforced_verdict d req (clock now wall))"
  using authorize_verdict [OF assms, of now wall] by (metis fst_conv, metis snd_conv)

lemma authorize_no_would_deny [simp]: "\<not> de_would_deny (authorize p req now wall)"
proof -
  have [simp]: "\<not> de_would_deny (denial_of v g)" for v g by (simp add: denial_of_def)
  have "\<not> de_would_deny (decide_grants p req t s)" for t s
    unfolding decide_grants_def Let_def
    by (auto split: prod.split option.split dest: bestGrantFor_deny_decision)
  moreover have "\<not> de_would_deny d" if "resolve_session p req t = Inl d" for t d
    using that unfolding resolve_session_def Let_def by (auto split: if_splits option.splits)
  moreover have "\<not> de_would_deny (authorizeDelegated p req)"
    unfolding authorizeDelegated_def Let_def
    by (auto simp: delegatedDeny_def split: option.split prod.split)
  ultimately show ?thesis
    unfolding authorize_def Let_def by (auto split: prod.split sum.split)
qed

lemma Authorize_verdict:
  assumes act: "activated d" and enf: "enforces d req"
  shows "(de_allowed (Authorize (Some d) req now wall), de_reason (Authorize (Some d) req now wall),
          de_would_deny (Authorize (Some d) req now wall)) = monitored_verdict d req (clock now wall)"
proof -
  note ok = activated_index_ok [OF act]
  let ?t = "clock now wall"
  let ?only = "\<lambda>P. policyWithGrants d (filter P (matchingGrants (dc_grants d) (rq_identity req)))"
  have sub: "de_allowed (authorize (Some (?only P)) req ?t wall) = fst (enforced_verdict (only P d) req ?t)"
    "de_reason (authorize (Some (?only P)) req ?t wall) = snd (enforced_verdict (only P d) req ?t)" for P
    using verdict_triple [OF index_ok_policyWithGrants [OF ok] enforces_policyWithGrants [OF enf], of _ ?t wall]
    by (simp_all add: enforced_verdict_matching)
  have whole: "de_allowed (authorize (Some d) req ?t wall) = fst (enforced_verdict d req ?t)"
    "de_reason (authorize (Some d) req ?t wall) = snd (enforced_verdict d req ?t)"
    "de_allowed (authorize (Some d) req now wall) = fst (enforced_verdict d req ?t)"
    "de_reason (authorize (Some d) req now wall) = snd (enforced_verdict d req ?t)"
    using verdict_triple [OF ok enf, of ?t wall] verdict_triple [OF ok enf, of now wall] by simp_all
  obtain trust side risk where meta:
    "resolveToolMetadata (dc_tools d) (rq_tool_name req) = (trust, side, risk)" by (metis prod_cases3)
  note code = Authorize_def indexed_lookups [OF ok] meta Let_def clock_def [symmetric]
  show ?thesis
  proof (cases "no_monitor_index d")
    case True
    then have "\<not> some_active is_monitor d req ?t"
      using no_monitor_active [OF act True] by (auto simp: some_active_def filter_empty_conv)
    with True enf show ?thesis
      unfolding monitored_verdict_def code by (simp add: whole enforces_def case_prod_unfold meta)
  next
    case False
    with enf show ?thesis
      unfolding monitored_verdict_def code
      by (simp add: whole sub enforces_def case_prod_unfold meta some_active_matching)
  qed
qed

end
