(* ===== verification/PolicyClaims.thy ===== *)
theory PolicyClaims
  imports PolicyAuthz
begin

text \<open>
  The properties of the policy engine: what holds of every decision of \<open>Authorize\<close>, read off
  the verdict specification of the previous theory, each with a concrete instance.
\<close>

section \<open>A document to instantiate the properties\<close>

definition sample_grant :: "gostring \<Rightarrow> gostring \<Rightarrow> gostring \<Rightarrow> grant" where
  "sample_grant name mode decision =
     \<lparr>gr_name = name, gr_mode = mode, gr_namespace = ''ns'', gr_human_id = ''alice'',
      gr_agent_id = '''', gr_team_id = '''', gr_max_trust = ''high'',
      gr_allowed_side_effects = [''read''], gr_policy_version = '''', gr_disabled = False,
      gr_expires_at = '''',
      gr_tool_rules = [\<lparr>ta_name = ''search'', ta_decision = decision, ta_required_trust = ''low''\<rparr>]\<rparr>"

definition sample_document :: "grant list \<Rightarrow> bool \<Rightarrow> document" where
  "sample_document gs need_session = document_zero
     \<lparr>dc_policy := Some (config_zero\<lparr>cf_mode := ''allow-list'', cf_default_decision := ''deny''\<rparr>),
      dc_session := Some (session_config_zero\<lparr>sc_required := need_session\<rparr>),
      dc_tools := [\<lparr>tl_name = ''search'', tl_description = '''', tl_required_trust = ''low'',
         tl_side_effect = ''read'', tl_risk_level = '''', tl_labels = []\<rparr>],
      dc_grants := gs,
      dc_sessions := [binding_zero\<lparr>bd_name := ''s1'', bd_human_id := ''alice''\<rparr>]\<rparr>"

definition sample_request :: request where
  "sample_request =
     \<lparr>rq_identity = \<lparr>id_human = ''alice'', id_agent = '''', id_team = '''', id_session = ''s1''\<rparr>,
      rq_rpc_method = ''tools/call'', rq_tool_name = ''search'', rq_session = None\<rparr>"

lemma sample_live [simp]:
  "active_for (rq_identity sample_request) 5 (sample_grant n m dec)"
  by (simp add: active_for_def sample_grant_def sample_request_def subjectMatchesTeam_iff
      isExpiredAt_def)

lemma sample_activated [simp]: "activated (sample_document gs b)"
  by (simp add: activated_def sample_document_def document_zero_def)

lemma sample_enforces [simp]: "enforces (sample_document gs b) sample_request"
  by code_simp

abbreviation sample :: document where
  "sample \<equiv> sample_document [sample_grant ''g'' '''' ''allow''] True"

lemma sample_allowed:
  "de_allowed (Authorize (Some sample) sample_request 5 7)"
  "\<not> de_would_deny (Authorize (Some sample) sample_request 5 7)"
proof -
  have "(\<lambda>x. de_allowed x \<and> \<not> de_would_deny x) (Authorize (Some sample) sample_request 5 7)" by code_simp
  then show "de_allowed (Authorize (Some sample) sample_request 5 7)"
    "\<not> de_would_deny (Authorize (Some sample) sample_request 5 7)" by auto
qed

lemma sample_settings:
  "\<not> defaultDecisionAllow (Some sample)" "sessionRequired (Some sample)"
  "resolveToolMetadata (dc_tools sample) (rq_tool_name sample_request) = (''low'', ''read'', ''low'')"
  by code_simp+

section \<open>Compiled policies\<close>

text \<open>C8: a policy activated by \<open>Compile\<close> decides every request exactly as the document it was
  compiled from, in every field of the decision: the tool, session, subject and grant indexes
  and the "no monitor grants" shortcut are an optimisation only.\<close>

theorem compiled_policy_equivalent:
  "Authorize (Compile (Some d)) req now wall = Authorize (Some (d\<lparr>dc_compiled := None\<rparr>)) req now wall"
proof -
  let ?c = "d\<lparr>dc_compiled := Some (build_index d)\<rparr>" and ?p = "d\<lparr>dc_compiled := None\<rparr>"
  have ok: "index_ok ?c" "index_ok ?p" by simp_all
  have same: "authorize (Some ?c) req t wall = authorize (Some ?p) req t wall" for t
    using authorize_indexed [OF ok(1)] by simp
  have sub: "authorize (Some (policyWithGrants ?c gs)) req t wall = authorize (Some (policyWithGrants ?p gs)) req t wall"
    for gs t
    using authorize_indexed [OF index_ok_policyWithGrants [OF ok(1)], of gs]
      authorize_indexed [OF index_ok_policyWithGrants [OF ok(2)], of gs]
    by (simp add: policyWithGrants_def)
  have skip: "filter is_monitor (matchingGrants (dc_grants d) idn) = []"
    if "no_monitor_index ?c" for idn
    using that by (auto simp: no_monitor_index_def build_index_def is_monitor_def list_ex_iff
        matchingGrants_def filter_empty_conv)
  obtain trust side risk where meta:
    "resolveToolMetadata (dc_tools d) (rq_tool_name req) = (trust, side, risk)" by (metis prod_cases3)
  have plain: "\<not> no_monitor_index ?p" by (simp add: no_monitor_index_def)
  note lookups = indexed_lookups [OF ok(1)] indexed_lookups [OF ok(2)]
  show ?thesis
  proof (cases "no_monitor_index ?c")
    case True
    with plain skip [OF True, of "rq_identity req"] show ?thesis unfolding Authorize_def Compile_def
      by (simp add: lookups same meta Let_def clock_def [symmetric] authorize_clock)
  next
    case False
    with plain show ?thesis unfolding Authorize_def Compile_def
      by (simp add: lookups same sub meta Let_def clock_def [symmetric])
  qed
qed

section \<open>Denials and permissions\<close>

lemma Authorize_parts:
  assumes "activated d" and "enforces d req"
  shows "de_allowed (Authorize (Some d) req now wall) = fst (monitored_verdict d req (clock now wall))"
    and "de_reason (Authorize (Some d) req now wall) = fst (snd (monitored_verdict d req (clock now wall)))"
    and "de_would_deny (Authorize (Some d) req now wall) = snd (snd (monitored_verdict d req (clock now wall)))"
  using Authorize_verdict [OF assms, of now wall] by (metis fst_conv, metis fst_conv snd_conv, metis snd_conv)

lemma only_simps [simp]:
  "dc_grants (only P d) = filter P (dc_grants d)" "dc_tools (only P d) = dc_tools d"
  "sessionRequired (Some (only P d)) = sessionRequired (Some d)"
  "defaultDecisionAllow (Some (only P d)) = defaultDecisionAllow (Some d)"
  by (simp_all add: only_def sessionRequired_def defaultDecisionAllow_def)

lemma session_gate_only [simp]: "session_gate (only P d) req now = session_gate d req now"
  by (simp add: session_gate_def only_def findPolicySession_plain Let_def sessionRequired_def)

lemma session_gate_denies: "session_gate d req now = Inl x \<Longrightarrow> \<not> fst x \<and> \<not> monitorableGrantDenial (snd x)"
  by (auto simp: session_gate_def Let_def monitorableGrantDenial_def split: if_splits option.splits)

lemma grant_verdict_veto:
  assumes "g \<in> set (dc_grants d)" and "active_for (rq_identity req) now g"
    and "denies_tool (rq_tool_name req) g"
  shows "grant_verdict d req now s = (False, ''tool_denied'')"
proof -
  let ?M = "{g \<in> set (dc_grants d). grant_matches (rq_identity req) g}"
  have M: "g \<in> ?M" "live now g" using assms by (simp_all add: active_for_def live_def)
  then have "?M \<noteq> {}" "\<exists>g \<in> {g \<in> ?M. live now g}. denies_tool (rq_tool_name req) g"
    using assms(3) by blast+
  then show ?thesis unfolding grant_verdict_def Let_def case_prod_unfold by (simp only: if_True if_False)
qed

lemma enforced_veto:
  assumes "g \<in> set (dc_grants d)" and "active_for (rq_identity req) now g"
    and "denies_tool (rq_tool_name req) g"
  shows "\<not> fst (enforced_verdict d req now)"
  by (auto simp: enforced_verdict_def grant_verdict_veto [OF assms] Let_def
      dest: session_gate_denies split: sum.split)

text \<open>C2: an explicit "deny" rule of one active enforcing grant that matches the caller wins. Under a
  policy that enforces (its mode is not "observe" and it does not delegate its headers to the
  upstream), as read or as activated, a tool call it covers is refused whatever the other grants,
  the sessions, the default decision and the monitor grants say. In the two other modes denials
  are not enforced here: observe mode only reports them, delegated headers have rules of their own.\<close>

theorem explicit_deny_wins:
  assumes "activated d" and "\<not> policyModeObserve (Some d)" and "\<not> UsesDelegatedHeaders (Some d)"
    and "IsToolCallMethod (rq_rpc_method req)" and "g \<in> set (dc_grants d)" and "\<not> is_monitor g"
    and "active_for (rq_identity req) (clock now wall) g" and "denies_tool (rq_tool_name req) g"
  shows "\<not> de_allowed (Authorize (Some d) req now wall)"
proof -
  have enf: "enforces d req" using assms(2-4) by (simp add: enforces_def)
  have "g \<in> set (dc_grants (only (\<lambda>g. \<not> is_monitor g) d))" using assms(5,6) by simp
  from enforced_veto [OF this assms(7,8)] enforced_veto [OF assms(5,7,8)] assms(5-7)
  show ?thesis
    unfolding Authorize_parts [OF assms(1) enf]
    by (auto simp: monitored_verdict_def Let_def some_active_def split: prod.split)
qed

theorem explicit_deny_wins_instance:
  "\<not> de_allowed (Authorize (Some (sample_document
      [sample_grant ''a'' '''' ''allow'', sample_grant ''b'' '''' ''Deny'',
       sample_grant ''c'' ''monitor'' ''allow''] False)) sample_request 5 7)"
proof (rule explicit_deny_wins [of _ _ "sample_grant ''b'' '''' ''Deny''"])
  let ?d = "sample_document [sample_grant ''a'' '''' ''allow'', sample_grant ''b'' '''' ''Deny'',
      sample_grant ''c'' ''monitor'' ''allow''] False"
  show "\<not> policyModeObserve (Some ?d)" "\<not> UsesDelegatedHeaders (Some ?d)"
    "IsToolCallMethod (rq_rpc_method sample_request)"
    using sample_enforces unfolding enforces_def by blast+
  show "denies_tool (rq_tool_name sample_request) (sample_grant ''b'' '''' ''Deny'')" by code_simp
  show "\<not> is_monitor (sample_grant ''b'' '''' ''Deny'')" by code_simp
qed (simp_all add: sample_document_def clock_def, simp_all flip: sample_document_def)

lemma required_rank_ge: "finite A \<Longrightarrow> base \<le> required_rank_of name side base A"
  unfolding required_rank_of_def by (intro Max_ge) auto

lemma admin_rank_attained:
  assumes "finite A" and "g0 \<in> A" and "contributes name side g0"
  shows "\<exists>g \<in> A. contributes name side g \<and> TrustRank (gr_max_trust g) = admin_rank_of name side A"
proof -
  let ?S = "insert 0 ((\<lambda>g. TrustRank (gr_max_trust g)) ` {g \<in> A. contributes name side g})"
  have "Max ?S \<in> ?S" using assms(1) by (intro Max_in) auto
  then show ?thesis
    using admin_rank_pos [OF assms] unfolding admin_rank_of_def [symmetric] by auto
qed

lemma enforced_allowed:
  assumes "fst (enforced_verdict d req now)" and "\<not> defaultDecisionAllow (Some d)"
    and meta: "resolveToolMetadata (dc_tools d) (rq_tool_name req) = (trust, side, risk)"
  shows "\<exists>g \<in> set (dc_grants d). active_for (rq_identity req) now g \<and>
           contributes (rq_tool_name req) side g \<and> TrustRank trust \<le> TrustRank (gr_max_trust g)"
    and "side \<noteq> ''''"
proof -
  let ?A = "{g \<in> {g \<in> set (dc_grants d). grant_matches (rq_identity req) g}. live now g}"
  let ?admin = "admin_rank_of (rq_tool_name req) side ?A"
  obtain s where gate: "session_gate d req now = Inr s" and ok: "fst (grant_verdict d req now s)"
    using assms(1) session_gate_denies
    by (fastforce simp: enforced_verdict_def Let_def split: if_splits sum.splits)
  have side: "side \<noteq> ''''" and some: "\<exists>g \<in> ?A. contributes (rq_tool_name req) side g"
    and trust: "\<not> min ?admin (consented_rank s ?admin)
                  < required_rank_of (rq_tool_name req) side (TrustRank trust) ?A"
    using ok assms(2) unfolding grant_verdict_def Let_def meta
    by (auto split: if_splits)
  show "side \<noteq> ''''" by (rule side)
  have fin: "finite ?A" by simp
  from some obtain g where g: "g \<in> ?A" "contributes (rq_tool_name req) side g"
    "TrustRank (gr_max_trust g) = ?admin"
    using admin_rank_attained [OF fin] by blast
  have "TrustRank trust \<le> ?admin"
    using trust required_rank_ge [OF fin, of "TrustRank trust" "rq_tool_name req" side] by linarith
  with g show "\<exists>g \<in> set (dc_grants d). active_for (rq_identity req) now g \<and>
           contributes (rq_tool_name req) side g \<and> TrustRank trust \<le> TrustRank (gr_max_trust g)"
    by (auto simp: active_for_def live_def intro!: bexI [of _ g])
qed

lemma allowed_call_active_grant:
  assumes "activated d" and "enforces d req" and "\<not> defaultDecisionAllow (Some d)"
    and "resolveToolMetadata (dc_tools d) (rq_tool_name req) = (trust, side, risk)"
    and "de_allowed (Authorize (Some d) req now wall)" and "\<not> de_would_deny (Authorize (Some d) req now wall)"
  shows "side \<noteq> '''' \<and>
    (\<exists>g \<in> set (dc_grants d). active_for (rq_identity req) (clock now wall) g \<and>
       contributes (rq_tool_name req) side g \<and> TrustRank trust \<le> TrustRank (gr_max_trust g))"
proof -
  have "fst (enforced_verdict d req (clock now wall)) \<or>
      (\<exists>P. fst (enforced_verdict (only P d) req (clock now wall)))"
    using assms(5,6) unfolding Authorize_parts [OF assms(1,2)] monitored_verdict_def Let_def assms(4)
    by (auto split: if_splits)
  then show ?thesis
  proof
    assume "fst (enforced_verdict d req (clock now wall))"
    from enforced_allowed [OF this assms(3,4)] show ?thesis by blast
  next
    assume "\<exists>P. fst (enforced_verdict (only P d) req (clock now wall))"
    then obtain P where P: "fst (enforced_verdict (only P d) req (clock now wall))" ..
    from enforced_allowed [OF P, unfolded only_simps, OF assms(3,4)] show ?thesis by auto
  qed
qed

text \<open>C3: under a policy that enforces (not in observe mode, no delegated headers) and whose default
  decision is not "allow", a tool call that is allowed outright, and not as a monitored would-be denial,
  is covered by an active grant for the caller that permits this tool and its side effect and
  whose trust reaches what the tool requires, and the tool's side effect is declared.\<close>

theorem allowed_call_is_granted:
  assumes "activated d" and "\<not> policyModeObserve (Some d)" and "\<not> UsesDelegatedHeaders (Some d)"
    and "IsToolCallMethod (rq_rpc_method req)" and "\<not> defaultDecisionAllow (Some d)"
    and "resolveToolMetadata (dc_tools d) (rq_tool_name req) = (trust, side, risk)"
    and "de_allowed (Authorize (Some d) req now wall)" and "\<not> de_would_deny (Authorize (Some d) req now wall)"
  shows "side \<noteq> '''' \<and>
    (\<exists>g \<in> set (dc_grants d). active_for (rq_identity req) (clock now wall) g \<and>
       contributes (rq_tool_name req) side g \<and> TrustRank trust \<le> TrustRank (gr_max_trust g))"
proof -
  have "enforces d req" using assms(2-4) by (simp add: enforces_def)
  from allowed_call_active_grant [OF assms(1) this assms(5-8)] show ?thesis .
qed

theorem allowed_call_is_granted_instance:
  "\<exists>g \<in> set (dc_grants sample).
     active_for (rq_identity sample_request) (clock 5 7) g \<and>
     contributes (rq_tool_name sample_request) ''read'' g \<and> TrustRank ''low'' \<le> TrustRank (gr_max_trust g)"
  using allowed_call_is_granted [OF sample_activated _ _ _ sample_settings(1,3) sample_allowed] sample_enforces
  unfolding enforces_def by blast

section \<open>Sessions\<close>

lemma enforced_session:
  assumes "fst (enforced_verdict d req now) \<or> monitorableGrantDenial (snd (enforced_verdict d req now))"
    and "sessionRequired (Some d)"
  shows "id_session (rq_identity req) \<noteq> ''''"
    and "\<exists>s. findPolicySession (Some (d\<lparr>dc_compiled := None\<rparr>)) req = Some s \<and> \<not> bd_revoked s \<and>
             \<not> isExpiredAt (bd_expires_at s) now"
proof -
  obtain x where gate: "session_gate d req now = Inr x" and sid: "id_session (rq_identity req) \<noteq> ''''"
    using assms session_gate_denies
    by (fastforce simp: enforced_verdict_def Let_def monitorableGrantDenial_def split: if_splits sum.splits)
  show "id_session (rq_identity req) \<noteq> ''''" by (rule sid)
  show "\<exists>s. findPolicySession (Some (d\<lparr>dc_compiled := None\<rparr>)) req = Some s \<and> \<not> bd_revoked s \<and>
             \<not> isExpiredAt (bd_expires_at s) now"
    using gate assms(2) by (auto simp: session_gate_def Let_def split: option.splits if_splits)
qed

lemma monitored_allowed:
  assumes "fst (monitored_verdict d req now)"
  shows "\<exists>P. fst (enforced_verdict (only P d) req now) \<or>
             monitorableGrantDenial (snd (enforced_verdict (only P d) req now))"
proof -
  have "enforced_verdict (d\<lparr>dc_grants := dc_grants d, dc_compiled := None\<rparr>) req now =
      enforced_verdict (d\<lparr>dc_grants := dc_grants d, dc_compiled := dc_compiled d\<rparr>) req now"
    by (rule enforced_verdict_cong) simp
  then have whole: "enforced_verdict (only (\<lambda>_. True) d) req now = enforced_verdict d req now"
    by (simp add: only_def)
  have "\<exists>e. (e = d \<or> (\<exists>P. e = only P d)) \<and> (fst (enforced_verdict e req now) \<or>
          monitorableGrantDenial (snd (enforced_verdict e req now)))"
    using assms unfolding monitored_verdict_def Let_def case_prod_unfold
    by (auto split: if_splits)
  then show ?thesis using whole by metis
qed

text \<open>C4: when a policy that enforces (not in observe mode, no delegated headers) requires a session, a
  tool call is never allowed, not even as a monitored would-be denial, unless the session the
  caller names exists for that caller, is not revoked and has not expired at the time of the
  decision.\<close>

theorem allowed_call_has_live_session:
  assumes "activated d" and "\<not> policyModeObserve (Some d)" and "\<not> UsesDelegatedHeaders (Some d)"
    and "IsToolCallMethod (rq_rpc_method req)" and "sessionRequired (Some d)"
    and "de_allowed (Authorize (Some d) req now wall)"
  shows "\<exists>s. findPolicySession (Some d) req = Some s \<and> \<not> bd_revoked s \<and>
             \<not> isExpiredAt (bd_expires_at s) (clock now wall) \<and>
             bd_name s = id_session (rq_identity req) \<and> binding_matches (rq_identity req) s"
proof -
  have enf: "enforces d req" using assms(2-4) by (simp add: enforces_def)
  obtain P where "fst (enforced_verdict (only P d) req (clock now wall)) \<or>
      monitorableGrantDenial (snd (enforced_verdict (only P d) req (clock now wall)))"
    using assms(6) monitored_allowed unfolding Authorize_parts [OF assms(1) enf] by blast
  from enforced_session [OF this] assms(5)
  have sid: "id_session (rq_identity req) \<noteq> ''''" and
    "\<exists>s. findPolicySession (Some (d\<lparr>dc_compiled := None\<rparr>)) req = Some s \<and> \<not> bd_revoked s \<and>
         \<not> isExpiredAt (bd_expires_at s) (clock now wall)"
    by (simp_all add: only_def findPolicySession_plain)
  then obtain s where s: "findPolicySession (Some (d\<lparr>dc_compiled := None\<rparr>)) req = Some s"
    "\<not> bd_revoked s" "\<not> isExpiredAt (bd_expires_at s) (clock now wall)" by blast
  have "bd_name s = id_session (rq_identity req) \<and> binding_matches (rq_identity req) s"
    using s(1) sid
    by (cases "rq_session req")
      (auto simp: findPolicySession_def findSession_def find_Some_iff Let_def split: if_splits)
  with s show ?thesis
    using findPolicySession_indexed [OF activated_index_ok [OF assms(1)], of req] by auto
qed

theorem allowed_call_has_live_session_instance:
  "\<exists>s. findPolicySession (Some sample) sample_request = Some s \<and> \<not> bd_revoked s"
  using allowed_call_has_live_session [OF sample_activated _ _ _ sample_settings(2) sample_allowed(1)] sample_enforces
  unfolding enforces_def by blast

section \<open>Monitor mode\<close>

lemma enforced_no_active_monitor:
  assumes "\<not> some_active is_monitor d req now" and "some_active (\<lambda>g. \<not> is_monitor g) d req now"
  shows "fst (enforced_verdict (only (\<lambda>g. \<not> is_monitor g) d) req now) = fst (enforced_verdict d req now)"
proof -
  let ?idn = "rq_identity req"
  let ?M = "{g \<in> set (dc_grants d). grant_matches ?idn g}"
  let ?N = "{g \<in> set (filter (\<lambda>g. \<not> is_monitor g) (dc_grants d)). grant_matches ?idn g}"
  have A: "{g \<in> ?N. live now g} = {g \<in> ?M. live now g}"
    using assms(1) by (auto simp: some_active_def active_for_def live_def)
  have ne: "?M \<noteq> {}" "?N \<noteq> {}"
    using assms(2) by (auto simp: some_active_def active_for_def)
  have "fst (grant_verdict (only (\<lambda>g. \<not> is_monitor g) d) req now s) = fst (grant_verdict d req now s)" for s
    unfolding grant_verdict_def Let_def only_simps A case_prod_unfold
    by (simp only: ne if_False if_distrib [of fst] fst_conv)
  then show ?thesis
    unfolding enforced_verdict_def Let_def only_simps session_gate_only
    by (simp split: sum.split)
qed

lemma grant_verdict_undeclared:
  assumes "resolveToolMetadata (dc_tools d) (rq_tool_name req) = (trust, '''', risk)"
    and "some_active (\<lambda>g. \<not> is_monitor g) d req now" and "fst (grant_verdict d req now s)"
  shows "fst (grant_verdict (only (\<lambda>g. \<not> is_monitor g) d) req now s)"
proof -
  let ?idn = "rq_identity req"
  let ?M = "{g \<in> set (dc_grants d). grant_matches ?idn g}"
  let ?N = "{g \<in> set (filter (\<lambda>g. \<not> is_monitor g) (dc_grants d)). grant_matches ?idn g}"
  have ne: "?M \<noteq> {}" "?N \<noteq> {}"
    using assms(2) by (auto simp: some_active_def active_for_def)
  have "\<not> (\<exists>g \<in> {g \<in> ?M. live now g}. denies_tool (rq_tool_name req) g)"
    "\<not> (\<exists>g \<in> {g \<in> ?M. live now g}. covers_tool (rq_tool_name req) g)"
    "defaultDecisionAllow (Some d)"
    using assms(3) unfolding grant_verdict_def Let_def assms(1) case_prod_conv
    by (simp_all only: ne if_False refl if_True split: if_splits) simp_all
  moreover from this(1,2)
  have "\<not> (\<exists>g \<in> {g \<in> ?N. live now g}. denies_tool (rq_tool_name req) g)"
    "\<not> (\<exists>g \<in> {g \<in> ?N. live now g}. covers_tool (rq_tool_name req) g)" by auto
  ultimately show ?thesis
    unfolding grant_verdict_def Let_def only_simps case_prod_unfold
    by (simp only: ne if_False not_False_eq_True if_True fst_conv)
qed

text \<open>a monitor-mode grant never widens access: when an enforcing grant of the caller is
  active, a call that is allowed (as would-be denial or not) is also allowed by the policy with
  every monitor grant removed.\<close>

theorem monitor_never_widens:
  assumes "activated d" and "enforces d req"
    and "some_active (\<lambda>g. \<not> is_monitor g) d req (clock now wall)"
    and "de_allowed (Authorize (Some d) req now wall)"
  shows "de_allowed (Authorize (Some (only (\<lambda>g. \<not> is_monitor g) d)) req now wall)"
proof -
  let ?t = "clock now wall" and ?e = "only (\<lambda>g. \<not> is_monitor g) d"
  have e: "activated ?e" "enforces ?e req" "\<not> some_active is_monitor ?e req ?t"
    using assms(2) by (auto simp: only_def activated_def enforces_def some_active_def
        UsesDelegatedHeaders_def policyModeObserve_def)
  obtain trust side risk where meta:
    "resolveToolMetadata (dc_tools d) (rq_tool_name req) = (trust, side, risk)" by (metis prod_cases3)
  have undeclared: "fst (enforced_verdict ?e req ?t)" if "side = ''''" "fst (enforced_verdict d req ?t)"
    using that(2) grant_verdict_undeclared [OF meta [unfolded that(1)] assms(3)]
    unfolding enforced_verdict_def Let_def only_simps session_gate_only
    by (auto split: if_splits sum.splits)
  have "fst (enforced_verdict ?e req ?t)"
    using assms(4) undeclared enforced_no_active_monitor [OF _ assms(3)] assms(3)
    unfolding Authorize_parts [OF assms(1,2)] monitored_verdict_def Let_def meta case_prod_conv
    by (auto split: if_splits)
  then show ?thesis
    unfolding Authorize_parts [OF e(1,2)] monitored_verdict_def Let_def case_prod_unfold using e(3) by simp
qed

theorem monitor_never_widens_instance:
  "de_allowed (Authorize (Some (only (\<lambda>g. \<not> is_monitor g) (sample_document
      [sample_grant ''g'' '''' ''allow'', sample_grant ''m'' ''monitor'' ''deny''] False)))
      sample_request 5 7)"
proof (rule monitor_never_widens)
  show "de_allowed (Authorize (Some (sample_document
      [sample_grant ''g'' '''' ''allow'', sample_grant ''m'' ''monitor'' ''deny''] False))
      sample_request 5 7)" by code_simp
  show "some_active (\<lambda>g. \<not> is_monitor g) (sample_document
      [sample_grant ''g'' '''' ''allow'', sample_grant ''m'' ''monitor'' ''deny''] False)
      sample_request (clock 5 7)" by code_simp
qed simp_all

section \<open>The order of the grants\<close>

text \<open>verdict, reason and would-be denial depend on the set of grants only: listing them in
  another order, or repeating some, changes nothing.\<close>

theorem grant_order_irrelevant:
  assumes "activated d" and "enforces d req" and "set gs = set (dc_grants d)"
  shows "(\<lambda>x. (de_allowed x, de_reason x, de_would_deny x))
           (Authorize (Some (d\<lparr>dc_grants := gs, dc_compiled := None\<rparr>)) req now wall) =
         (\<lambda>x. (de_allowed x, de_reason x, de_would_deny x)) (Authorize (Some d) req now wall)"
proof -
  let ?e = "d\<lparr>dc_grants := gs, dc_compiled := None\<rparr>"
  have e: "activated ?e" "enforces ?e req"
    using assms(2) by (simp_all add: activated_def enforces_def UsesDelegatedHeaders_def policyModeObserve_def)
  have whole: "enforced_verdict ?e req t = enforced_verdict d req t" for t
  proof -
    have "enforced_verdict ?e req t =
        enforced_verdict (d\<lparr>dc_grants := dc_grants d, dc_compiled := dc_compiled d\<rparr>) req t"
      by (rule enforced_verdict_cong) (simp add: assms(3))
    then show ?thesis by simp
  qed
  have part: "enforced_verdict (only P ?e) req t = enforced_verdict (only P d) req t" for P t
  proof -
    have "enforced_verdict (d\<lparr>dc_grants := filter P gs, dc_compiled := None\<rparr>) req t =
        enforced_verdict (d\<lparr>dc_grants := filter P (dc_grants d), dc_compiled := None\<rparr>) req t"
      by (rule enforced_verdict_cong) (simp add: assms(3))
    then show ?thesis by (simp add: only_def)
  qed
  have "some_active P ?e req t = some_active P d req t" for P t
    by (simp add: some_active_def assms(3))
  then have "monitored_verdict ?e req t = monitored_verdict d req t" for t
    unfolding monitored_verdict_def whole part by simp
  then show ?thesis
    by (simp add: Authorize_verdict [OF e] Authorize_verdict [OF assms(1,2)])
qed

theorem grant_order_irrelevant_instance:
  "de_allowed (Authorize (Some (sample_document
       [sample_grant ''a'' '''' ''allow'', sample_grant ''b'' '''' ''allow''] True
     \<lparr>dc_grants := [sample_grant ''b'' '''' ''allow'', sample_grant ''a'' '''' ''allow''],
      dc_compiled := None\<rparr>)) sample_request 5 7) =
   de_allowed (Authorize (Some (sample_document
     [sample_grant ''a'' '''' ''allow'', sample_grant ''b'' '''' ''allow''] True)) sample_request 5 7)"
proof -
  have "set [sample_grant ''b'' '''' ''allow'', sample_grant ''a'' '''' ''allow''] =
      set (dc_grants (sample_document [sample_grant ''a'' '''' ''allow'', sample_grant ''b'' '''' ''allow''] True))"
    by (auto simp: sample_document_def)
  from grant_order_irrelevant [OF sample_activated sample_enforces this, of 5 7] show ?thesis
    by (simp only: prod.inject)
qed

section \<open>Status codes and reasons\<close>

text \<open>The decision is well formed: an allowed one has status 200, a refused one 401 or 403.\<close>

definition well_formed :: "decision \<Rightarrow> bool" where
  "well_formed x \<longleftrightarrow> (if de_allowed x then de_status x = 200 else de_status x \<in> {401, 403})"

lemma decideByDefault_status [simp]:
  "de_status (decideByDefault p r) = (if defaultDecisionAllow p then 200 else 403)"
  by (simp add: decideByDefault_def Let_def)

lemma well_formed_simps [simp]:
  "well_formed (Allow r v)" "well_formed (Deny 401 r v)" "well_formed (Deny 403 r v)"
  "well_formed ((Allow r v)\<lparr>de_risk_level := l\<rparr>)"
  "well_formed (with_session b x) = well_formed x" "well_formed (denial_of v g)"
  by (auto simp: well_formed_def denial_of_def)

lemma decide_grants_well_formed: "well_formed (decide_grants p req t s)"
proof -
  obtain trust side risk where meta: "resolvePolicyToolMetadata p (rq_tool_name req) = (trust, side, risk)"
    by (metis prod_cases3)
  define best where "best = bestGrantFor (matchingPolicyGrants p (rq_identity req)) (rq_tool_name req)
    trust side (policyVersionOrDefault p '''') t"
  show ?thesis
  proof (cases "gs_deny best")
    case None
    then show ?thesis
      unfolding decide_grants_def Let_def meta case_prod_conv best_def [symmetric]
      by (simp only: if_distrib [of well_formed] well_formed_simps option.case) (simp add: well_formed_def)
  next
    case (Some x)
    then have "well_formed x" using bestGrantFor_deny_decision unfolding best_def by fastforce
    with Some show ?thesis
      unfolding decide_grants_def Let_def meta case_prod_conv best_def [symmetric]
      by (simp only: if_distrib [of well_formed] well_formed_simps option.case) (simp add: well_formed_def)
  qed
qed

lemma resolve_session_well_formed: "resolve_session p req t = Inl x \<Longrightarrow> well_formed x"
  unfolding resolve_session_def Let_def by (auto split: if_splits option.splits)

lemma delegated_well_formed: "well_formed (authorizeDelegated p req)"
  unfolding authorizeDelegated_def Let_def
  by (auto simp: delegatedDeny_def split: option.split prod.split) (auto simp: well_formed_def)

lemma authorize_well_formed: "well_formed (authorize p req now wall)"
  unfolding authorize_def Let_def
  by (auto simp: delegated_well_formed decide_grants_well_formed
      dest: resolve_session_well_formed split: prod.split sum.split)

text \<open>for every policy (or none), request and clock, a decision that allows has status 200 and
  one that refuses has status 401 or 403; the proxy answers with that status, so no denial can
  reach the client as a success.\<close>

theorem decision_status:
  "(de_allowed (Authorize p req now wall) = (de_status (Authorize p req now wall) = 200)) \<and>
   de_status (Authorize p req now wall) \<in> {200, 401, 403}"
proof -
  have "well_formed (Authorize p req now wall)"
    unfolding Authorize_def Let_def
    by (auto simp: authorize_well_formed split: prod.split option.split) (simp_all add: well_formed_def)
  then show ?thesis by (auto simp: well_formed_def split: if_splits)
qed

section \<open>Delegated header authentication\<close>

lemma delegated_tool_call:
  assumes "dc_policy d = Some c" and "IsToolCallMethod (rq_rpc_method req)" and "index_ok d"
    and meta: "resolveToolMetadata (dc_tools d) (rq_tool_name req) = (trust, side, risk)"
  shows "de_allowed (authorizeDelegated (Some d) req) \<longleftrightarrow>
     \<not> policyModeObserve (Some d) \<and> equal_fold (cf_mode c) ''allow-list'' \<and>
     equal_fold (cf_default_decision c) ''deny'' \<and>
     dc_session d = None \<and> dc_grants d = [] \<and> dc_sessions d = [] \<and>
     NormalizeSideEffect side \<noteq> '''' \<and>
     (NormalizeSideEffect (cf_max_side_effect c) = '''' \<or>
      sideEffectRank side \<le> sideEffectRank (NormalizeSideEffect (cf_max_side_effect c))) \<and>
     (\<exists>r \<in> set (cf_delegated_tool_rules c).
        equal_fold (dr_name r) (rq_tool_name req) \<and> equal_fold (dr_decision r) ''allow'') \<and>
     \<not> (\<exists>r \<in> set (cf_delegated_tool_rules c).
        equal_fold (dr_name r) (rq_tool_name req) \<and> equal_fold (dr_decision r) ''deny'')"
  using assms(1,2) unfolding authorizeDelegated_def Let_def indexed_lookups [OF assms(3)] meta
  by (auto simp: delegatedDeny_def list_ex_iff)

text \<open>with delegated header authentication the gateway authenticates nobody, so it allows a
  tool call exactly under an enforcing allow-list with default deny, without any identity
  policy (sessions, grants), for a tool with a declared side effect within the configured
  ceiling that some rule allows and no rule denies.\<close>

theorem delegated_allow_iff:
  assumes "activated d" and "UsesDelegatedHeaders (Some d)" and "IsToolCallMethod (rq_rpc_method req)"
    and "dc_policy d = Some c"
    and "resolveToolMetadata (dc_tools d) (rq_tool_name req) = (trust, side, risk)"
  shows "de_allowed (Authorize (Some d) req now wall) \<longleftrightarrow>
     \<not> policyModeObserve (Some d) \<and> equal_fold (cf_mode c) ''allow-list'' \<and>
     equal_fold (cf_default_decision c) ''deny'' \<and>
     dc_session d = None \<and> dc_grants d = [] \<and> dc_sessions d = [] \<and>
     NormalizeSideEffect side \<noteq> '''' \<and>
     (NormalizeSideEffect (cf_max_side_effect c) = '''' \<or>
      sideEffectRank side \<le> sideEffectRank (NormalizeSideEffect (cf_max_side_effect c))) \<and>
     (\<exists>r \<in> set (cf_delegated_tool_rules c).
        equal_fold (dr_name r) (rq_tool_name req) \<and> equal_fold (dr_decision r) ''allow'') \<and>
     \<not> (\<exists>r \<in> set (cf_delegated_tool_rules c).
        equal_fold (dr_name r) (rq_tool_name req) \<and> equal_fold (dr_decision r) ''deny'')"
proof -
  have "Authorize (Some d) req now wall = authorizeDelegated (Some d) req"
    using assms(2) by (simp add: Authorize_def authorize_def)
  with delegated_tool_call [OF assms(4,3) activated_index_ok [OF assms(1)] assms(5)]
  show ?thesis by simp
qed

definition delegated_sample :: document where
  "delegated_sample = document_zero
     \<lparr>dc_auth := Some \<lparr>au_mode = ''header'', au_headers = [''Authorization''],
        au_credential_presence = '''', au_token_header = '''', au_issuer_url = '''', au_audience = '''',
        au_scopes = [], au_trust_domain = ''''\<rparr>,
      dc_policy := Some (config_zero\<lparr>cf_mode := ''allow-list'', cf_default_decision := ''deny'',
        cf_max_side_effect := ''write'',
        cf_delegated_tool_rules := [\<lparr>dr_name = ''Search'', dr_decision = ''Allow''\<rparr>]\<rparr>),
      dc_tools := [\<lparr>tl_name = ''search'', tl_description = '''', tl_required_trust = ''low'',
         tl_side_effect = ''read'', tl_risk_level = '''', tl_labels = []\<rparr>]\<rparr>"

theorem delegated_allow_iff_instance:
  "de_allowed (Authorize (Some delegated_sample) sample_request 5 7)"
proof (rule delegated_allow_iff [THEN iffD2])
  show "activated delegated_sample" by (simp add: delegated_sample_def activated_def document_zero_def)
  show "UsesDelegatedHeaders (Some delegated_sample)" by code_simp
  show "IsToolCallMethod (rq_rpc_method sample_request)" by code_simp
  show "resolveToolMetadata (dc_tools delegated_sample) (rq_tool_name sample_request) =
      (''low'', ''read'', ''low'')" by code_simp
  show "dc_policy delegated_sample = Some (config_zero\<lparr>cf_mode := ''allow-list'',
      cf_default_decision := ''deny'', cf_max_side_effect := ''write'',
      cf_delegated_tool_rules := [\<lparr>dr_name = ''Search'', dr_decision = ''Allow''\<rparr>]\<rparr>)"
    by (simp add: delegated_sample_def)
qed code_simp

section \<open>Attribution\<close>

lemma decide_grants_attribution:
  assumes "index_ok d" and "\<forall>g \<in> set (dc_grants d). gr_name g \<noteq> ''''"
    and "de_reason (decide_grants (Some d) req t s) = ''allowed''"
  shows "\<exists>g \<in> set (dc_grants d). grant_matches (rq_identity req) g \<and> live t g \<and>
     contributes (rq_tool_name req) (fst (snd (resolveToolMetadata (dc_tools d) (rq_tool_name req)))) g \<and>
     de_matched_grant (decide_grants (Some d) req t s) = gr_name g \<and>
     de_matched_grant_namespace (decide_grants (Some d) req t s) = gr_namespace g \<and>
     de_policy_version (decide_grants (Some d) req t s) =
       ChoosePolicyVersion [gr_policy_version g, policyVersionOrDefault (Some d) '''']"
proof -
  define name where "name = rq_tool_name req"
  define match where "match = matchingGrants (dc_grants d) (rq_identity req)"
  obtain trust side risk where meta: "resolveToolMetadata (dc_tools d) name = (trust, side, risk)"
    by (metis prod_cases3)
  define v where "v = policyVersionOrDefault (Some d) ''''"
  define best where "best = bestGrantFor match name trust side v t"
  note code = decide_grants_def indexed_lookups [OF assms(1)] match_def [symmetric]
    name_def [symmetric] v_def [symmetric] meta best_def [symmetric] Let_def case_prod_conv
  have none: "gs_deny best = None"
  proof (rule ccontr)
    assume "gs_deny best \<noteq> None"
    then obtain x where x: "gs_deny best = Some x" by blast
    then have "de_reason x = ''tool_denied''"
      using bestGrantFor_deny_decision [of match name trust side v t x] unfolding best_def
      by (auto simp: denial_of_def)
    with assms(3) x show False unfolding code by (simp split: if_splits)
  qed
  then have sel: "selection_spec name side v (TrustRank trust) {g \<in> set match. live t g} best"
    unfolding best_def by (intro bestGrantFor_selection) (simp add: bestGrantFor_denied)
  have ok: "match \<noteq> []" "gs_tool_allowed best" "gs_side_effect_allowed best" "gs_admin_rank best \<noteq> 0"
    "side \<noteq> ''''" "\<not> min (gs_admin_rank best) (consented_rank s (gs_admin_rank best)) < gs_required_rank best"
    using assms(3) none unfolding code by (simp_all split: if_splits)
  have "attributed name side v {g \<in> set match. live t g} best"
    using sel ok(2) assms(2) by (auto simp: selection_spec_def match_def matchingGrants_def)
  then obtain g where "g \<in> set match" "live t g" "contributes name side g"
    "gs_grant_name best = gr_name g" "gs_grant_namespace best = gr_namespace g"
    "gs_policy_version best = ChoosePolicyVersion [gr_policy_version g, v]"
    using ok(3) by (auto simp: attributed_def)
  then show ?thesis
    using ok none unfolding code
    by (intro bexI [of _ g]) (auto simp: match_def matchingGrants_def with_session_def)
qed

lemma authorize_granted:
  assumes "index_ok d" and "enforces d req" and "de_reason (authorize (Some d) req now wall) = ''allowed''"
  shows "\<exists>s. authorize (Some d) req now wall = decide_grants (Some d) req (clock now wall) s"
proof -
  obtain trust side risk where meta:
    "resolvePolicyToolMetadata (Some d) (rq_tool_name req) = (trust, side, risk)" by (metis prod_cases3)
  have "de_reason x \<noteq> ''allowed''" if "resolve_session (Some d) req t = Inl x" for x t
    using that unfolding resolve_session_def Let_def by (auto split: if_splits option.splits)
  then show ?thesis
    using assms(2,3) unfolding authorize_def enforces_def Let_def meta case_prod_conv clock_def [symmetric]
    by (auto split: if_splits sum.splits)
qed

text \<open>the audit attribution of a granted call is truthful: when no monitor grant is active
  and every grant is named, a decision with reason "allowed" reports the name, the namespace and
  the policy version of one and the same active grant of the caller that permits the tool and
  its side effect.\<close>

theorem granted_call_attribution:
  assumes "activated d" and "enforces d req" and "\<forall>g \<in> set (dc_grants d). gr_name g \<noteq> ''''"
    and "\<not> some_active is_monitor d req (clock now wall)"
    and "de_reason (Authorize (Some d) req now wall) = ''allowed''"
    and "resolveToolMetadata (dc_tools d) (rq_tool_name req) = (trust, side, risk)"
  shows "\<exists>g \<in> set (dc_grants d). active_for (rq_identity req) (clock now wall) g \<and>
     contributes (rq_tool_name req) side g \<and>
     de_matched_grant (Authorize (Some d) req now wall) = gr_name g \<and>
     de_matched_grant_namespace (Authorize (Some d) req now wall) = gr_namespace g \<and>
     de_policy_version (Authorize (Some d) req now wall) =
       ChoosePolicyVersion [gr_policy_version g, policyVersionOrDefault (Some d) '''']"
proof -
  note ok = activated_index_ok [OF assms(1)]
  have "list_ex (active_for (rq_identity req) (clock now wall))
      (filter is_monitor (matchingGrants (dc_grants d) (rq_identity req))) = False"
    using assms(4) by (simp add: some_active_matching)
  then have same: "Authorize (Some d) req now wall = authorize (Some d) req now wall"
    using assms(2) unfolding Authorize_def
    by (simp add: indexed_lookups [OF ok] assms(6) Let_def clock_def [symmetric] authorize_clock enforces_def)
  obtain s where run: "Authorize (Some d) req now wall = decide_grants (Some d) req (clock now wall) s"
    using authorize_granted [OF ok assms(2)] assms(5) unfolding same by blast
  then show ?thesis
    using decide_grants_attribution [OF ok assms(3), of req "clock now wall" s] assms(5,6)
    by (auto simp: active_for_def live_def)
qed

theorem granted_call_attribution_instance:
  "de_matched_grant (Authorize (Some sample) sample_request 5 7) = ''g''"
proof -
  have reason: "de_reason (Authorize (Some sample) sample_request 5 7) = ''allowed''"
    and "\<not> some_active is_monitor sample sample_request (clock 5 7)" by code_simp+
  moreover have "\<forall>g \<in> set (dc_grants sample). gr_name g \<noteq> ''''"
    by (simp add: sample_document_def sample_grant_def)
  ultimately show ?thesis
    using granted_call_attribution [OF sample_activated sample_enforces _ _ reason sample_settings(3)]
    by (auto simp: sample_document_def sample_grant_def)
qed

end
