(* ===== verification/CredentialHeaders.thy ===== *)
theory CredentialHeaders
  imports GoBase "HOL-Library.Multiset"
begin

text \<open>
  The credential header contract of \<open>pkg/credentialheaders/headers.go\<close> and the name syntax of
  \<open>pkg/credentialbroker\<close>: which header names may carry a delegated credential, and when a
  request carries the configured ones. An \<open>http.Header\<close> is a map from names to value lists;
  it is an association list here, because Go ranges over a map in an arbitrary order, and
  \<open>CheckRequest_order\<close> shows that the order does not matter.
\<close>

section \<open>Names and values\<close>

definition is_alnum :: "char \<Rightarrow> bool" where
  "is_alnum c \<longleftrightarrow> (CHR ''a'' \<le> c \<and> c \<le> CHR ''z'') \<or> (CHR ''A'' \<le> c \<and> c \<le> CHR ''Z'') \<or>
     (CHR ''0'' \<le> c \<and> c \<le> CHR ''9'')"

definition is_lower_alnum :: "char \<Rightarrow> bool" where
  "is_lower_alnum c \<longleftrightarrow> (CHR ''a'' \<le> c \<and> c \<le> CHR ''z'') \<or> (CHR ''0'' \<le> c \<and> c \<le> CHR ''9'')"

text \<open>The token characters besides letters and digits; 0x27 is the single quote.\<close>

definition token_symbols :: "gostring" where
  "token_symbols = ''!#$%&'' @ [CHR 0x27] @ ''*+-.^_'' @ [CHR 0x60] @ ''|~''"

definition is_token_char :: "char \<Rightarrow> bool" where
  "is_token_char c \<longleftrightarrow> is_alnum c \<or> List.member token_symbols c"

definition reserved_names :: "gostring list" where
  "reserved_names =
     [''host'', ''connection'', ''keep-alive'', ''proxy-connection'', ''proxy-authenticate'',
      ''proxy-authorization'', ''te'', ''trailer'', ''transfer-encoding'', ''upgrade'',
      ''content-length'', ''content-type'', ''content-encoding'', ''accept'', ''cookie'',
      ''set-cookie'', ''forwarded'', ''x-forwarded-client-cert'', ''origin'', ''referer'']"

datatype header_error =
    HeaderNameEmpty
  | HeaderNameInvalid
  | HeaderNameReserved gostring
  | HeaderNamesCount
  | HeaderNameDuplicate gostring
  | CredentialLength
  | CredentialControl
  | PresenceInvalid

definition ValidateName :: "gostring \<Rightarrow> header_error option" where
  "ValidateName name =
     (if name = '''' then Some HeaderNameEmpty
      else if \<not> list_all is_token_char name then Some HeaderNameInvalid
      else (let lower = to_lower name in
            if has_prefix lower ''x-forwarded-'' \<or> has_prefix lower ''x-mcp-'' \<or> has_prefix lower ''mcp-''
            then Some (HeaderNameReserved name)
            else if List.member reserved_names lower then Some (HeaderNameReserved name)
            else None))"

text \<open>Ranging over a string yields runes; a byte of a multi-byte rune is at least 128, so the
  check of the runes below 32 and of 127 is the check of the bytes.\<close>

definition is_control :: "char \<Rightarrow> bool" where
  "is_control c \<longleftrightarrow> c < CHR 0x20 \<or> c = CHR 0x7F"

definition ValidateValue :: "gostring \<Rightarrow> header_error option" where
  "ValidateValue v =
     (if trim_space v = '''' \<or> length v > 8192 then Some CredentialLength
      else if list_ex is_control v then Some CredentialControl
      else None)"

definition MaxNames :: nat where
  "MaxNames = 16"

definition NormalizeNames :: "gostring list \<Rightarrow> header_error option" where
  "NormalizeNames names =
     (if names = [] \<or> length names > MaxNames then Some HeaderNamesCount
      else validate_loop (\<lambda>_. ValidateName) to_lower HeaderNameDuplicate (\<lambda>_ _. None) 0 [] names)"

definition NormalizePresence :: "gostring \<Rightarrow> header_error + gostring" where
  "NormalizePresence v =
     (let s = to_lower (trim_space v) in
      if s = '''' \<or> s = ''any'' then Inr ''any''
      else if s = ''all'' then Inr ''all''
      else Inl PresenceInvalid)"

section \<open>Checking a request\<close>

type_synonym header = "(gostring \<times> gostring list) list"

definition values_of :: "header \<Rightarrow> gostring \<Rightarrow> gostring list" where
  "values_of h name = concat (map snd (filter (\<lambda>e. equal_fold (fst e) name) h))"

fun check_names :: "header \<Rightarrow> nat \<Rightarrow> gostring list \<Rightarrow> gostring + nat" where
  "check_names h present [] = Inr present"
| "check_names h present (name # names) =
     (let vs = values_of h name in
      if list_ex (\<lambda>v. trim_space v = '''') vs then Inl ''empty_credential''
      else if length vs > 1 then Inl ''duplicate_credential''
      else check_names h (if length vs = 1 then Suc present else present) names)"

definition CheckRequest :: "header \<Rightarrow> gostring list \<Rightarrow> gostring \<Rightarrow> gostring" where
  "CheckRequest h names presence =
     (case NormalizeNames names of
        Some _ \<Rightarrow> ''invalid_credential_config''
      | None \<Rightarrow>
          (case NormalizePresence presence of
             Inl _ \<Rightarrow> ''invalid_credential_config''
           | Inr mode \<Rightarrow>
               (case check_names h 0 names of
                  Inl reason \<Rightarrow> reason
                | Inr present \<Rightarrow>
                    if (mode = ''all'' \<and> present \<noteq> length names) \<or> (mode = ''any'' \<and> present = 0)
                    then ''missing_credential'' else '''')))"

section \<open>Kubernetes-style names\<close>

text \<open>\<open>nameRE\<close>: one to 63 lower-case letters, digits or hyphens, no hyphen at either end.\<close>

definition NameValid :: "gostring \<Rightarrow> bool" where
  "NameValid s \<longleftrightarrow>
     s \<noteq> [] \<and> length s \<le> 63 \<and> list_all (\<lambda>c. is_lower_alnum c \<or> c = CHR ''-'') s \<and>
     is_lower_alnum (hd s) \<and> is_lower_alnum (last s)"

section \<open>Lemmas\<close>

lemma NormalizeNames_None:
  "NormalizeNames names = None \<longleftrightarrow>
     names \<noteq> [] \<and> length names \<le> MaxNames \<and> (\<forall>n \<in> set names. ValidateName n = None) \<and>
     distinct (map to_lower names)"
  by (auto simp: NormalizeNames_def validate_loop_None all_set_conv_all_nth)

lemma NormalizePresence_cases:
  "NormalizePresence v = Inr m \<Longrightarrow> m = ''any'' \<or> m = ''all''"
  by (auto simp: NormalizePresence_def Let_def split: if_splits)

lemma values_of_mset: "mset h = mset h' \<Longrightarrow> mset (values_of h n) = mset (values_of h' n)"
proof -
  have "mset (values_of h n) =
      \<Sum>\<^sub># (image_mset (\<lambda>e. mset (snd e)) (filter_mset (\<lambda>e. equal_fold (fst e) n) (mset h)))" for h
    unfolding values_of_def by (induction h) auto
  then show "mset h = mset h' \<Longrightarrow> ?thesis" by simp
qed

lemma check_names_order:
  assumes "mset h = mset h'"
  shows "check_names h present names = check_names h' present names"
proof (induction names arbitrary: present)
  case (Cons n names)
  have eq: "mset (values_of h n) = mset (values_of h' n)" by (rule values_of_mset [OF assms])
  then have "set (values_of h n) = set (values_of h' n)" "length (values_of h n) = length (values_of h' n)"
    by (metis mset_eq_setD, metis mset_eq_length)
  with Cons show ?case by (simp add: Let_def list_ex_iff)
qed simp

text \<open>A successful scan counts the configured names that carry exactly one nonblank value.\<close>

definition carries :: "header \<Rightarrow> gostring \<Rightarrow> bool" where
  "carries h n \<longleftrightarrow> (\<exists>v. values_of h n = [v] \<and> trim_space v \<noteq> '''')"

lemma check_names_Inr:
  "check_names h k names = Inr present \<Longrightarrow>
     present = k + length (filter (carries h) names) \<and>
     (\<forall>n \<in> set names. values_of h n = [] \<or> carries h n)"
proof (induction names arbitrary: k)
  case (Cons n names)
  consider "values_of h n = []" | v where "values_of h n = [v]" | "length (values_of h n) > 1"
    by (cases "values_of h n" rule: remdups_adj.cases) auto
  then show ?case
  proof cases
    case 1
    then show ?thesis using Cons.prems Cons.IH [of k] by (simp add: carries_def)
  next
    case 2
    then show ?thesis using Cons.prems Cons.IH [of "Suc k"] by (simp add: Let_def carries_def split: if_splits)
  next
    case 3
    then show ?thesis using Cons.prems by (simp add: Let_def split: if_splits)
  qed
qed simp

lemma check_names_complete:
  "\<forall>n \<in> set names. values_of h n = [] \<or> carries h n \<Longrightarrow>
     check_names h k names = Inr (k + length (filter (carries h) names))"
  by (induction names arbitrary: k) (auto simp: Let_def carries_def)

section \<open>Properties\<close>

text \<open>a request satisfies the header contract exactly when the configuration is valid and every
  configured header is absent or carries one nonblank value, all of them being present under
  "all" and at least one under "any"; in every other case a reason code is reported.\<close>

theorem CheckRequest_accepts_iff:
  "CheckRequest h names presence = '''' \<longleftrightarrow>
     NormalizeNames names = None \<and>
     (\<exists>mode. NormalizePresence presence = Inr mode \<and>
        (\<forall>n \<in> set names. values_of h n = [] \<or> carries h n) \<and>
        (if mode = ''all'' then \<forall>n \<in> set names. carries h n else \<exists>n \<in> set names. carries h n))"
proof -
  have all: "length (filter (carries h) names) = length names \<longleftrightarrow> (\<forall>n \<in> set names. carries h n)"
    by (metis filter_True length_filter_less nat_less_le)
  have none: "length (filter (carries h) names) = 0 \<longleftrightarrow> \<not> (\<exists>n \<in> set names. carries h n)"
    by (simp add: filter_empty_conv)
  have bad: "check_names h 0 names = Inl r \<Longrightarrow> r \<noteq> '''' \<and>
      \<not> (\<forall>n \<in> set names. values_of h n = [] \<or> carries h n)" for r
  proof -
    assume l: "check_names h 0 names = Inl r"
    have "check_names h k ns = Inl r \<Longrightarrow> r \<noteq> ''''" for k ns
      by (induction h k ns rule: check_names.induct) (auto simp: Let_def split: if_splits)
    with l show ?thesis using check_names_complete [of names h 0] by auto
  qed
  show ?thesis
  proof (cases "check_names h 0 names")
    case (Inl r)
    then have "CheckRequest h names presence \<noteq> ''''"
      using bad [OF Inl] by (simp add: CheckRequest_def split: option.split sum.split)
    with bad [OF Inl] show ?thesis by blast
  next
    case (Inr present)
    note scan = check_names_Inr [OF Inr]
    have "CheckRequest h names presence = '''' \<longleftrightarrow>
        NormalizeNames names = None \<and>
        (\<exists>mode. NormalizePresence presence = Inr mode \<and>
           \<not> (mode = ''all'' \<and> present \<noteq> length names) \<and> \<not> (mode = ''any'' \<and> present = 0))"
      by (simp add: CheckRequest_def Inr split: option.split sum.split)
    moreover have "\<not> (mode = ''all'' \<and> present \<noteq> length names) \<and> \<not> (mode = ''any'' \<and> present = 0) \<longleftrightarrow>
        (if mode = ''all'' then \<forall>n \<in> set names. carries h n else \<exists>n \<in> set names. carries h n)"
      if "NormalizePresence presence = Inr mode" for mode
      using NormalizePresence_cases [OF that] scan all none by auto
    ultimately show ?thesis using scan by blast
  qed
qed

text \<open>The verdict on a request does not depend on the order in which Go ranges over the header
  map.\<close>

theorem CheckRequest_order:
  assumes "mset h = mset h'"
  shows "CheckRequest h names presence = CheckRequest h' names presence"
  unfolding CheckRequest_def check_names_order [OF assms] by (rule refl)

theorem CheckRequest_order_instance:
  "CheckRequest [(''A'', [''x'']), (''B'', [])] [''a''] '''' = CheckRequest [(''B'', []), (''A'', [''x''])] [''a''] ''''"
  by (rule CheckRequest_order) simp

theorem CheckRequest_accepts_iff_instance:
  "CheckRequest [(''AUTHORIZATION'', [''Bearer t'']), (''Accept'', [''x''])] [''Authorization''] ''all'' = ''''"
proof (rule CheckRequest_accepts_iff [THEN iffD2])
  let ?h = "[(''AUTHORIZATION'', [''Bearer t'']), (''Accept'', [''x''])]"
  have "values_of ?h ''Authorization'' = [''Bearer t'']" "trim_space ''Bearer t'' \<noteq> ''''" by code_simp+
  then have "carries ?h ''Authorization''" by (auto simp: carries_def)
  moreover have "NormalizeNames [''Authorization''] = None" "NormalizePresence ''all'' = Inr ''all''" by code_simp+
  ultimately show "NormalizeNames [''Authorization''] = None \<and>
     (\<exists>mode. NormalizePresence ''all'' = Inr mode \<and>
        (\<forall>n \<in> set [''Authorization'']. values_of ?h n = [] \<or> carries ?h n) \<and>
        (if mode = ''all'' then \<forall>n \<in> set [''Authorization'']. carries ?h n
         else \<exists>n \<in> set [''Authorization'']. carries ?h n))" by simp
qed

end
