(* ===== verification/PolicyValidate.thy ===== *)
theory PolicyValidate
  imports PolicyClaims CredentialHeaders
begin

text \<open>
  The contract both the operator and the gateway check before a policy is used:
  \<open>Validate\<close> (\<open>pkg/policy/validate.go\<close>), \<open>ComputeRevision\<close> and \<open>Stamp\<close>
  (\<open>pkg/policy/revision.go\<close>). Every \<open>fmt.Errorf\<close> of the code is a constructor of \<open>policy_error\<close>
  and \<^term>\<open>None\<close> is the nil error. Two parts of the library are arguments: \<open>digest\<close> is the
  hexadecimal SHA-256 of the JSON of a document (which leaves out the private index) and
  \<open>parse_url\<close> is \<open>url.Parse\<close>, giving scheme, host and fragment.
\<close>

section \<open>Errors\<close>

datatype policy_error =
    NilDocument
  | RevisionOfNil
  | StampNil
  | UnsupportedSchema gostring
  | ExpiryNeedsSchema gostring
  | NeedsSchema gostring gostring
  | RevisionRequired
  | RevisionMismatch gostring gostring
  | ServerNameRequired
  | CredentialBindingsPolicy
  | CredentialBindingName
  | PlatformNeedsUID
  | PlatformEmbedsSessions
  | AuthMode gostring
  | AuthIncomplete
  | AuthNeedsIssuer
  | AuthNeedsAudience
  | AudienceNotURI gostring
  | AudienceNotAbsolute gostring
  | AudienceFragment gostring
  | AuthHeaders header_error
  | AuthHeaderFields
  | PolicyModeInvalid gostring
  | DefaultDecisionInvalid gostring
  | ToolNameRequired nat
  | ToolDuplicate gostring
  | ToolTrust gostring gostring
  | ToolSideEffect gostring gostring
  | GrantNameRequired nat
  | GrantDuplicate gostring
  | GrantMode gostring gostring
  | GrantTrust gostring gostring
  | GrantExpiry gostring gostring
  | GrantSideEffect gostring gostring
  | RuleNameRequired gostring nat
  | RuleDuplicate gostring gostring
  | RuleDecision gostring gostring gostring
  | RuleTrust gostring gostring gostring
  | SessionNameRequired nat
  | SessionDuplicate gostring
  | SessionTrust gostring gostring
  | DelegatedNeedsHeader
  | DelegatedNeedsAllowList
  | DelegatedIdentity
  | DelegatedSideEffect gostring
  | DelegatedNameRequired nat
  | DelegatedDuplicate gostring
  | DelegatedDecision gostring

text \<open>Sequencing of checks: the first error wins.\<close>

fun first_error :: "'e option list \<Rightarrow> 'e option" where
  "first_error [] = None"
| "first_error (Some e # es) = Some e"
| "first_error (None # es) = first_error es"

definition check :: "bool \<Rightarrow> 'e \<Rightarrow> 'e option" where
  "check ok e = (if ok then None else Some e)"

lemma first_error_None: "first_error es = None \<longleftrightarrow> (\<forall>e \<in> set es. e = None)"
  by (induction es rule: first_error.induct) auto

lemma check_None [simp]: "check ok e = None \<longleftrightarrow> ok"
  by (simp add: check_def)

section \<open>Values\<close>

definition validTrust :: "gostring \<Rightarrow> bool" where
  "validTrust v = List.member ['''', ''low'', ''medium'', ''high''] (to_lower (trim_space v))"

definition validSideEffect :: "gostring \<Rightarrow> bool \<Rightarrow> bool" where
  "validSideEffect v allowEmpty =
     (let s = to_lower (trim_space v) in
      if s = '''' then allowEmpty else List.member [''read'', ''write'', ''destructive''] s)"

definition validDecision :: "gostring \<Rightarrow> bool" where
  "validDecision v = List.member ['''', ''allow'', ''deny''] (to_lower (trim_space v))"

section \<open>Sections of the document\<close>

type_synonym url_parser = "gostring \<Rightarrow> (gostring \<times> gostring \<times> gostring) option"

definition validateResourceURI :: "url_parser \<Rightarrow> gostring \<Rightarrow> policy_error option" where
  "validateResourceURI parse_url v =
     (let t = trim_space v in
      case parse_url t of
        None \<Rightarrow> Some (AudienceNotURI t)
      | Some (scheme, host, fragment) \<Rightarrow>
          if scheme = '''' \<or> host = '''' then Some (AudienceNotAbsolute t)
          else if fragment \<noteq> '''' then Some (AudienceFragment t)
          else None)"

definition validateDelegatedAuth :: "auth \<Rightarrow> policy_error option" where
  "validateDelegatedAuth a =
     (case NormalizeNames (au_headers a) of
        Some e \<Rightarrow> Some (AuthHeaders e)
      | None \<Rightarrow>
          (case NormalizePresence (au_credential_presence a) of
             Inl e \<Rightarrow> Some (AuthHeaders e)
           | Inr _ \<Rightarrow>
               if trim_space (au_issuer_url a) \<noteq> '''' \<or> trim_space (au_audience a) \<noteq> '''' \<or>
                  au_scopes a \<noteq> [] \<or> trim_space (au_token_header a) \<noteq> '''' \<or>
                  trim_space (au_trust_domain a) \<noteq> ''''
               then Some AuthHeaderFields else None))"

definition validateAuth :: "url_parser \<Rightarrow> auth option \<Rightarrow> policy_error option" where
  "validateAuth parse_url auth =
     (case auth of
        None \<Rightarrow> None
      | Some a \<Rightarrow>
          (let mode = to_lower (trim_space (au_mode a)) in
           if mode = ''header'' then validateDelegatedAuth a
           else if mode \<noteq> '''' then Some (AuthMode (au_mode a))
           else if trim_space (au_issuer_url a) = '''' \<and> trim_space (au_audience a) = '''' then
             (if trim_space (au_trust_domain a) \<noteq> '''' then None else Some AuthIncomplete)
           else if trim_space (au_issuer_url a) = '''' then Some AuthNeedsIssuer
           else if trim_space (au_audience a) = '''' then Some AuthNeedsAudience
           else validateResourceURI parse_url (au_audience a)))"

definition validateConfig :: "config option \<Rightarrow> policy_error option" where
  "validateConfig cfg =
     (case cfg of
        None \<Rightarrow> None
      | Some c \<Rightarrow>
          if \<not> List.member ['''', ''allow-list'', ''observe''] (to_lower (trim_space (cf_mode c)))
          then Some (PolicyModeInvalid (cf_mode c))
          else if \<not> List.member ['''', ''allow'', ''deny''] (to_lower (trim_space (cf_default_decision c)))
          then Some (DefaultDecisionInvalid (cf_default_decision c))
          else None)"

definition validateTools :: "tool list \<Rightarrow> policy_error option" where
  "validateTools tools =
     validate_loop
       (\<lambda>i t. check (trim_space (tl_name t) \<noteq> '''') (ToolNameRequired i))
       tl_name
       (\<lambda>t. ToolDuplicate (tl_name t))
       (\<lambda>_ t. first_error
          [check (validTrust (tl_required_trust t)) (ToolTrust (tl_name t) (tl_required_trust t)),
           check (validSideEffect (tl_side_effect t) True) (ToolSideEffect (tl_name t) (tl_side_effect t))])
       0 [] tools"

definition validateRules :: "gostring \<Rightarrow> tool_access list \<Rightarrow> policy_error option" where
  "validateRules grant rules =
     validate_loop
       (\<lambda>j r. check (trim_space (ta_name r) \<noteq> '''') (RuleNameRequired grant j))
       ta_name
       (\<lambda>r. RuleDuplicate grant (ta_name r))
       (\<lambda>_ r. first_error
          [check (validDecision (ta_decision r)) (RuleDecision grant (ta_name r) (ta_decision r)),
           check (validTrust (ta_required_trust r)) (RuleTrust grant (ta_name r) (ta_required_trust r))])
       0 [] rules"

definition validateGrantBody :: "grant \<Rightarrow> policy_error option" where
  "validateGrantBody g =
     first_error
       [check (List.member ['''', ''enforce'', ''monitor''] (to_lower (trim_space (gr_mode g))))
          (GrantMode (gr_name g) (gr_mode g)),
        check (validTrust (gr_max_trust g)) (GrantTrust (gr_name g) (gr_max_trust g)),
        check (trim_space (gr_expires_at g) = '''' \<or> parse_rfc3339 (trim_space (gr_expires_at g)) \<noteq> None)
          (GrantExpiry (gr_name g) (gr_expires_at g)),
        map_option (GrantSideEffect (gr_name g))
          (List.find (\<lambda>s. \<not> validSideEffect s False) (gr_allowed_side_effects g)),
        validateRules (gr_name g) (gr_tool_rules g)]"

definition validateGrants :: "grant list \<Rightarrow> policy_error option" where
  "validateGrants grants =
     validate_loop
       (\<lambda>i g. check (trim_space (gr_name g) \<noteq> '''') (GrantNameRequired i))
       gr_name (\<lambda>g. GrantDuplicate (gr_name g)) (\<lambda>_. validateGrantBody) 0 [] grants"

definition validateBindings :: "binding list \<Rightarrow> policy_error option" where
  "validateBindings bindings =
     validate_loop
       (\<lambda>i b. check (trim_space (bd_name b) \<noteq> '''') (SessionNameRequired i))
       bd_name (\<lambda>b. SessionDuplicate (bd_name b))
       (\<lambda>_ b. check (validTrust (bd_consented_trust b)) (SessionTrust (bd_name b) (bd_consented_trust b)))
       0 [] bindings"

text \<open>The key of a delegated rule is its trimmed lower-case name.\<close>

definition validateDelegatedRules :: "delegated_tool_rule list \<Rightarrow> policy_error option" where
  "validateDelegatedRules rules =
     validate_loop
       (\<lambda>i r. check (trim_space (dr_name r) \<noteq> '''') (DelegatedNameRequired i))
       (\<lambda>r. to_lower (trim_space (dr_name r)))
       (\<lambda>r. DelegatedDuplicate (trim_space (dr_name r)))
       (\<lambda>_ r. check (List.member [''allow'', ''deny''] (to_lower (trim_space (dr_decision r))))
          (DelegatedDecision (trim_space (dr_name r))))
       0 [] rules"

definition validateDelegatedDocument :: "document \<Rightarrow> policy_error option" where
  "validateDelegatedDocument d =
     (let delegated = UsesDelegatedHeaders (Some d) in
      if (case dc_policy d of None \<Rightarrow> False
          | Some c \<Rightarrow> \<not> delegated \<and> (cf_delegated_tool_rules c \<noteq> [] \<or> trim_space (cf_max_side_effect c) \<noteq> ''''))
      then Some DelegatedNeedsHeader
      else if \<not> delegated then None
      else
        (case dc_policy d of
           None \<Rightarrow> Some DelegatedNeedsAllowList
         | Some c \<Rightarrow>
             if \<not> equal_fold (trim_space (cf_mode c)) ''allow-list'' \<or>
                \<not> equal_fold (trim_space (cf_default_decision c)) ''deny''
             then Some DelegatedNeedsAllowList
             else if dc_session d \<noteq> None \<or> dc_grants d \<noteq> [] \<or> dc_sessions d \<noteq> []
             then Some DelegatedIdentity
             else if \<not> validSideEffect (cf_max_side_effect c) True
             then Some (DelegatedSideEffect (cf_max_side_effect c))
             else validateDelegatedRules (cf_delegated_tool_rules c)))"

section \<open>Credential bindings and platform sessions\<close>

definition platform_sessions :: "document \<Rightarrow> bool" where
  "platform_sessions d = (case dc_session d of None \<Rightarrow> False | Some s \<Rightarrow> sc_store s = ''platform'')"

definition brokered_policy :: "document \<Rightarrow> bool" where
  "brokered_policy d \<longleftrightarrow>
     length (dc_credential_bindings d) \<le> 16 \<and>
     (case dc_policy d of None \<Rightarrow> False
      | Some c \<Rightarrow> cf_mode c = ''allow-list'' \<and> cf_default_decision c = ''deny'') \<and>
     (case dc_session d of None \<Rightarrow> False | Some s \<Rightarrow> sc_required s \<and> sc_store s = ''platform'') \<and>
     (case dc_auth d of None \<Rightarrow> True | Some a \<Rightarrow> au_mode a \<noteq> ''header'')"

definition validateCredentialBindings :: "document \<Rightarrow> policy_error option" where
  "validateCredentialBindings d =
     (if dc_credential_bindings d = [] then None
      else if \<not> brokered_policy d then Some CredentialBindingsPolicy
      else validate_loop (\<lambda>_ n. check (NameValid n) CredentialBindingName) (\<lambda>n. n)
             (\<lambda>_. CredentialBindingName) (\<lambda>_ _. None) 0 [] (dc_credential_bindings d))"

definition validatePlatform :: "document \<Rightarrow> policy_error option" where
  "validatePlatform d =
     (if platform_sessions d then
        (if trim_space (sv_uid (dc_server d)) = '''' then Some PlatformNeedsUID
         else if dc_sessions d \<noteq> [] then Some PlatformEmbedsSessions
         else None)
      else None)"

section \<open>Revisions\<close>

definition canonical :: "document \<Rightarrow> document" where
  "canonical d = d\<lparr>dc_revision := '''', dc_generated_at := '''', dc_compiled := None\<rparr>"

definition ComputeRevision :: "(document \<Rightarrow> gostring) \<Rightarrow> document option \<Rightarrow> policy_error + gostring" where
  "ComputeRevision digest p =
     (case p of
        None \<Rightarrow> Inl RevisionOfNil
      | Some d \<Rightarrow> Inr (''sha256:'' @ digest (canonical d)))"

definition Stamp :: "(document \<Rightarrow> gostring) \<Rightarrow> document option \<Rightarrow> gostring \<Rightarrow> policy_error + document" where
  "Stamp digest p generatedAt =
     (case p of
        None \<Rightarrow> Inl StampNil
      | Some d \<Rightarrow>
          (let d1 = d\<lparr>dc_schema_version := RequiredSchemaVersion (Some d), dc_generated_at := generatedAt\<rparr>
           in case ComputeRevision digest (Some d1) of
                Inl e \<Rightarrow> Inl e
              | Inr revision \<Rightarrow> Inr (d1\<lparr>dc_revision := revision\<rparr>)))"

section \<open>The whole document\<close>

definition validateVersion :: "(document \<Rightarrow> gostring) \<Rightarrow> document \<Rightarrow> policy_error option" where
  "validateVersion digest d =
     (let required = RequiredSchemaVersion (Some d) in
      if \<not> List.member supported_schema_versions (dc_schema_version d)
      then Some (UnsupportedSchema (dc_schema_version d))
      else if schemaRank (dc_schema_version d) < schemaRank required then
        (if required = ''v2'' then Some (ExpiryNeedsSchema (dc_schema_version d))
         else Some (NeedsSchema required (dc_schema_version d)))
      else if trim_space (dc_revision d) = '''' then Some RevisionRequired
      else
        (case ComputeRevision digest (Some d) of
           Inl e \<Rightarrow> Some e
         | Inr computed \<Rightarrow>
             if computed \<noteq> dc_revision d then Some (RevisionMismatch (dc_revision d) computed) else None))"

definition validateContent :: "url_parser \<Rightarrow> document \<Rightarrow> policy_error option" where
  "validateContent parse_url d =
     first_error
       [check (trim_space (sv_name (dc_server d)) \<noteq> '''') ServerNameRequired,
        validateCredentialBindings d,
        validatePlatform d,
        validateAuth parse_url (dc_auth d),
        validateConfig (dc_policy d),
        validateTools (dc_tools d),
        validateGrants (dc_grants d),
        validateBindings (dc_sessions d),
        validateDelegatedDocument d]"

definition Validate :: "url_parser \<Rightarrow> (document \<Rightarrow> gostring) \<Rightarrow> document option \<Rightarrow> policy_error option" where
  "Validate parse_url digest p =
     (case p of
        None \<Rightarrow> Some NilDocument
      | Some d \<Rightarrow> first_error [validateVersion digest d, validateContent parse_url d])"

section \<open>Lemmas\<close>

lemma RequiredSchemaVersion_meta [simp]:
  "RequiredSchemaVersion (Some (d\<lparr>dc_schema_version := v\<rparr>)) = RequiredSchemaVersion (Some d)"
  "RequiredSchemaVersion (Some (d\<lparr>dc_generated_at := v\<rparr>)) = RequiredSchemaVersion (Some d)"
  "RequiredSchemaVersion (Some (d\<lparr>dc_revision := v\<rparr>)) = RequiredSchemaVersion (Some d)"
  by (simp_all add: RequiredSchemaVersion_def hasMonitorGrant_def)

lemma UsesDelegatedHeaders_meta [simp]:
  "UsesDelegatedHeaders (Some (d\<lparr>dc_schema_version := v\<rparr>)) = UsesDelegatedHeaders (Some d)"
  "UsesDelegatedHeaders (Some (d\<lparr>dc_generated_at := v\<rparr>)) = UsesDelegatedHeaders (Some d)"
  "UsesDelegatedHeaders (Some (d\<lparr>dc_revision := v\<rparr>)) = UsesDelegatedHeaders (Some d)"
  by (simp_all add: UsesDelegatedHeaders_def)

lemma validateContent_meta:
  "validateContent parse_url (d\<lparr>dc_schema_version := v, dc_generated_at := g, dc_revision := r\<rparr>) =
   validateContent parse_url d"
proof -
  let ?d = "d\<lparr>dc_schema_version := v, dc_generated_at := g, dc_revision := r\<rparr>"
  have "brokered_policy ?d = brokered_policy d" by (simp add: brokered_policy_def)
  then have "validateCredentialBindings ?d = validateCredentialBindings d"
    by (simp add: validateCredentialBindings_def)
  moreover have "validatePlatform ?d = validatePlatform d"
    by (simp add: validatePlatform_def platform_sessions_def)
  moreover have "validateDelegatedDocument ?d = validateDelegatedDocument d"
    by (cases "dc_policy d") (simp_all add: validateDelegatedDocument_def Let_def)
  ultimately show ?thesis by (simp add: validateContent_def)
qed

lemma canonical_meta:
  "canonical (d\<lparr>dc_schema_version := v, dc_generated_at := g, dc_revision := r\<rparr>) =
   canonical (d\<lparr>dc_schema_version := v\<rparr>)"
  by (simp add: canonical_def)

lemma trim_space_prefixed: "\<not> is_space c \<Longrightarrow> trim_space (c # s) \<noteq> []"
  by (auto simp: trim_space_blank)

lemma Stamp_result:
  "Stamp digest (Some d) t =
     Inr (d\<lparr>dc_schema_version := RequiredSchemaVersion (Some d), dc_generated_at := t,
            dc_revision := ''sha256:'' @ digest (canonical (d\<lparr>dc_schema_version := RequiredSchemaVersion (Some d)\<rparr>))\<rparr>)"
  by (simp add: Stamp_def ComputeRevision_def Let_def canonical_def)

lemma Validate_None:
  "Validate parse_url digest (Some d) = None \<longleftrightarrow>
     validateVersion digest d = None \<and> validateContent parse_url d = None"
  by (simp add: Validate_def first_error_None)

lemma validateGrants_None:
  "validateGrants gs = None \<longleftrightarrow>
     (\<forall>g \<in> set gs. trim_space (gr_name g) \<noteq> '''' \<and> validateGrantBody g = None) \<and>
     distinct (map gr_name gs)"
  by (auto simp: validateGrants_def validate_loop_None all_set_conv_all_nth)

lemma validateRules_None:
  "validateRules n rs = None \<longleftrightarrow>
     (\<forall>r \<in> set rs. trim_space (ta_name r) \<noteq> '''' \<and> validDecision (ta_decision r) \<and>
        validTrust (ta_required_trust r)) \<and>
     distinct (map ta_name rs)"
  by (auto simp: validateRules_def validate_loop_None all_set_conv_all_nth first_error_None)

lemma validateTools_None:
  "validateTools ts = None \<longleftrightarrow>
     (\<forall>t \<in> set ts. trim_space (tl_name t) \<noteq> '''' \<and> validTrust (tl_required_trust t) \<and>
        validSideEffect (tl_side_effect t) True) \<and>
     distinct (map tl_name ts)"
  by (auto simp: validateTools_def validate_loop_None all_set_conv_all_nth first_error_None)

lemma validateBindings_None:
  "validateBindings bs = None \<longleftrightarrow>
     (\<forall>b \<in> set bs. trim_space (bd_name b) \<noteq> '''' \<and> validTrust (bd_consented_trust b)) \<and>
     distinct (map bd_name bs)"
  by (auto simp: validateBindings_def validate_loop_None all_set_conv_all_nth)

lemma validateContent_None:
  "validateContent parse_url d = None \<longleftrightarrow>
     trim_space (sv_name (dc_server d)) \<noteq> '''' \<and> validateCredentialBindings d = None \<and>
     validatePlatform d = None \<and> validateAuth parse_url (dc_auth d) = None \<and>
     validateConfig (dc_policy d) = None \<and> validateTools (dc_tools d) = None \<and>
     validateGrants (dc_grants d) = None \<and> validateBindings (dc_sessions d) = None \<and>
     validateDelegatedDocument d = None"
  by (simp add: validateContent_def first_error_None)

lemmas validate_None = Validate_None validateContent_None validateGrants_None validateTools_None
  validateBindings_None validateRules_None

lemma Validate_stamped:
  assumes "Stamp digest (Some d) t = Inr v"
  shows "Validate parse_url digest (Some v) = validateContent parse_url d"
proof -
  let ?v = "RequiredSchemaVersion (Some d)"
  let ?r = "''sha256:'' @ digest (canonical (d\<lparr>dc_schema_version := ?v\<rparr>))"
  let ?d = "d\<lparr>dc_schema_version := ?v, dc_generated_at := t, dc_revision := ?r\<rparr>"
  have v: "v = ?d" using assms by (simp add: Stamp_result)
  have "\<not> is_space CHR ''s''" by code_simp
  then have rev: "trim_space ?r \<noteq> ''''" by (simp add: trim_space_prefixed)
  have "validateVersion digest ?d = None"
    using RequiredSchemaVersion_supported [of "Some d"] rev
    by (simp add: validateVersion_def Let_def ComputeRevision_def canonical_def)
  then show ?thesis unfolding v Validate_def
    by (cases "validateContent parse_url d") (simp_all add: validateContent_meta)
qed

section \<open>Properties\<close>

text \<open>stamping makes the version part of validation succeed: a stamped document is refused
  only for its content, never for its schema version or revision, whatever it was stamped
  with before.\<close>

theorem Stamp_then_Validate:
  "(case Stamp digest (Some d) t of
      Inl _ \<Rightarrow> False
    | Inr d' \<Rightarrow> Validate parse_url digest (Some d') = validateContent parse_url d)"
proof (cases "Stamp digest (Some d) t")
  case (Inl e)
  then show ?thesis by (simp add: Stamp_result)
qed (simp add: Validate_stamped)

text \<open>The revision is a function of the content: stamping again at another time, or after the
  document was stamped, dated or compiled before, gives the same revision and schema version.\<close>

theorem revision_content_only:
  "map_sum id (\<lambda>x. (dc_schema_version x, dc_revision x))
     (Stamp digest (Some (d\<lparr>dc_schema_version := v, dc_generated_at := g, dc_revision := r, dc_compiled := c\<rparr>)) t) =
   map_sum id (\<lambda>x. (dc_schema_version x, dc_revision x)) (Stamp digest (Some d) t')"
proof -
  have "RequiredSchemaVersion (Some (d\<lparr>dc_compiled := c\<rparr>)) = RequiredSchemaVersion (Some d)"
    by (simp add: RequiredSchemaVersion_def hasMonitorGrant_def)
  moreover have "d\<lparr>dc_schema_version := v, dc_generated_at := g, dc_revision := r, dc_compiled := c\<rparr> =
      (d\<lparr>dc_compiled := c\<rparr>)\<lparr>dc_schema_version := v, dc_generated_at := g, dc_revision := r\<rparr>" by simp
  ultimately have "RequiredSchemaVersion
      (Some (d\<lparr>dc_schema_version := v, dc_generated_at := g, dc_revision := r, dc_compiled := c\<rparr>)) =
      RequiredSchemaVersion (Some d)"
    by (simp only: RequiredSchemaVersion_meta)
  then show ?thesis unfolding Stamp_result by (simp add: canonical_def)
qed

text \<open>a document that validates is stamped with the digest of its own content, declares a
  schema version that carries every feature it uses, and is well formed: names are unique and
  not blank, every expiry of a grant is a timestamp, modes, decisions and trust levels are known
  ones, and a platform-session policy embeds no session.\<close>

theorem Validate_sound:
  assumes "Validate parse_url digest (Some d) = None"
  shows "dc_revision d = ''sha256:'' @ digest (canonical d) \<and>
    schemaRank (RequiredSchemaVersion (Some d)) \<le> schemaRank (dc_schema_version d) \<and>
    distinct (map tl_name (dc_tools d)) \<and> distinct (map gr_name (dc_grants d)) \<and>
    distinct (map bd_name (dc_sessions d)) \<and>
    (\<forall>g \<in> set (dc_grants d). gr_name g \<noteq> '''' \<and>
       (trim_space (gr_expires_at g) = '''' \<or> parse_rfc3339 (trim_space (gr_expires_at g)) \<noteq> None) \<and>
       (is_monitor g \<or> List.member ['''', ''enforce''] (to_lower (trim_space (gr_mode g)))) \<and>
       distinct (map ta_name (gr_tool_rules g)) \<and>
       (\<forall>r \<in> set (gr_tool_rules g). validDecision (ta_decision r) \<and> validTrust (ta_required_trust r))) \<and>
    (platform_sessions d \<longrightarrow> dc_sessions d = [])"
proof -
  have version: "validateVersion digest d = None" and content: "validateContent parse_url d = None"
    using assms by (simp_all add: Validate_None)
  have "dc_revision d = ''sha256:'' @ digest (canonical d) \<and>
    schemaRank (RequiredSchemaVersion (Some d)) \<le> schemaRank (dc_schema_version d)"
    using version by (simp add: validateVersion_def ComputeRevision_def Let_def split: if_splits)
  moreover have "platform_sessions d \<longrightarrow> dc_sessions d = []"
    using content by (auto simp: validateContent_None validatePlatform_def split: if_splits)
  moreover have "distinct (map tl_name (dc_tools d)) \<and> distinct (map gr_name (dc_grants d)) \<and>
      distinct (map bd_name (dc_sessions d))"
    using content by (simp add: validate_None)
  moreover have "gr_name g \<noteq> '''' \<and>
       (trim_space (gr_expires_at g) = '''' \<or> parse_rfc3339 (trim_space (gr_expires_at g)) \<noteq> None) \<and>
       (is_monitor g \<or> List.member ['''', ''enforce''] (to_lower (trim_space (gr_mode g)))) \<and>
       distinct (map ta_name (gr_tool_rules g)) \<and>
       (\<forall>r \<in> set (gr_tool_rules g). validDecision (ta_decision r) \<and> validTrust (ta_required_trust r))"
    if "g \<in> set (dc_grants d)" for g
  proof -
    have low: "to_lower ''monitor'' = ''monitor''" by code_simp
    have "trim_space (gr_name g) \<noteq> ''''" "validateGrantBody g = None"
      using content that by (simp_all add: validate_None)
    then show ?thesis
      by (auto simp: validateGrantBody_def first_error_None validateRules_None is_monitor_def equal_fold_def low)
  qed
  ultimately show ?thesis by blast
qed

definition stamped_sample :: "gostring \<Rightarrow> document" where
  "stamped_sample decision =
     (sample_document [sample_grant ''g'' '''' decision] True)
       \<lparr>dc_server := server_zero\<lparr>sv_name := ''srv''\<rparr>, dc_schema_version := ''v1'', dc_revision := ''sha256:00''\<rparr>"

theorem Validate_sound_instance:
  "Validate (\<lambda>_. None) (\<lambda>_. ''00'') (Some (stamped_sample ''deny'')) = None \<and>
   distinct (map gr_name (dc_grants (stamped_sample ''deny'')))"
proof -
  have "Validate (\<lambda>_. None) (\<lambda>_. ''00'') (Some (stamped_sample ''deny'')) = None" by code_simp
  with Validate_sound [OF this] show ?thesis by blast
qed

end
