(* ===== verification/PolicyPadding.thy ===== *)
theory PolicyPadding
  imports PolicyValidate
begin

text \<open>
  Where the contract and the evaluation of a policy disagree: \<open>validDecision\<close>
  (\<open>pkg/policy/validate.go\<close>) trims the decision of a tool rule before it compares it, and
  \<open>bestGrantFor\<close> (\<open>pkg/policy/evaluator.go\<close>) compares the raw text with "deny".
\<close>

section \<open>Rewriting the decisions of a policy\<close>

definition rewrite_rule :: "(gostring \<Rightarrow> gostring) \<Rightarrow> tool_access \<Rightarrow> tool_access" where
  "rewrite_rule f r = r\<lparr>ta_decision := f (ta_decision r)\<rparr>"

definition rewrite_grant :: "(gostring \<Rightarrow> gostring) \<Rightarrow> grant \<Rightarrow> grant" where
  "rewrite_grant f g = g\<lparr>gr_tool_rules := map (rewrite_rule f) (gr_tool_rules g)\<rparr>"

definition rewrite_policy :: "(gostring \<Rightarrow> gostring) \<Rightarrow> document \<Rightarrow> document" where
  "rewrite_policy f d = d\<lparr>dc_grants := map (rewrite_grant f) (dc_grants d), dc_compiled := None\<rparr>"

text \<open>A decision that is "deny" only after trimming, and the two readings of it.\<close>

definition padded_deny :: "gostring \<Rightarrow> bool" where
  "padded_deny s \<longleftrightarrow> to_lower (trim_space s) = ''deny'' \<and> \<not> equal_fold s ''deny''"

definition read_as :: "gostring \<Rightarrow> gostring \<Rightarrow> gostring" where
  "read_as v s = (if padded_deny s then v else s)"

section \<open>Validation\<close>

lemma rewrite_grant_sel [simp]:
  "gr_name (rewrite_grant f g) = gr_name g" "gr_mode (rewrite_grant f g) = gr_mode g"
  "gr_max_trust (rewrite_grant f g) = gr_max_trust g" "gr_expires_at (rewrite_grant f g) = gr_expires_at g"
  "gr_allowed_side_effects (rewrite_grant f g) = gr_allowed_side_effects g"
  "gr_disabled (rewrite_grant f g) = gr_disabled g"
  "gr_tool_rules (rewrite_grant f g) = map (rewrite_rule f) (gr_tool_rules g)"
  "ta_name (rewrite_rule f r) = ta_name r" "ta_required_trust (rewrite_rule f r) = ta_required_trust r"
  "ta_decision (rewrite_rule f r) = f (ta_decision r)"
  by (simp_all add: rewrite_grant_def rewrite_rule_def)

lemma map_rewritten [simp]:
  "map ta_name (map (rewrite_rule f) rs) = map ta_name rs" "map gr_name (map (rewrite_grant f) gs) = map gr_name gs"
  by (simp_all add: o_def)

lemma validDecision_read_as: "v \<in> {''allow'', ''deny''} \<Longrightarrow> validDecision (read_as v s) = validDecision s"
proof -
  assume "v \<in> {''allow'', ''deny''}"
  moreover have "validDecision ''allow''" "validDecision ''deny''" by code_simp+
  moreover have "padded_deny s \<Longrightarrow> validDecision s" by (simp add: padded_deny_def validDecision_def)
  ultimately show ?thesis by (auto simp: read_as_def)
qed

lemma validateGrantBody_rewritten:
  assumes "\<And>s. validDecision (f s) = validDecision s"
  shows "validateGrantBody (rewrite_grant f g) = None \<longleftrightarrow> validateGrantBody g = None"
  by (simp add: validateGrantBody_def first_error_None validateRules_None assms o_def)

lemma validateContent_rewritten:
  assumes "\<And>s. validDecision (f s) = validDecision s"
  shows "validateContent parse_url (rewrite_policy f d) = None \<longleftrightarrow> validateContent parse_url d = None"
proof -
  have "validateCredentialBindings (rewrite_policy f d) = validateCredentialBindings d"
    by (simp add: validateCredentialBindings_def brokered_policy_def rewrite_policy_def)
  moreover have "validatePlatform (rewrite_policy f d) = validatePlatform d"
    by (simp add: validatePlatform_def platform_sessions_def rewrite_policy_def)
  moreover have "validateGrants (dc_grants (rewrite_policy f d)) = None \<longleftrightarrow> validateGrants (dc_grants d) = None"
    by (simp add: validateGrants_None rewrite_policy_def validateGrantBody_rewritten [OF assms] o_def)
  moreover have "validateDelegatedDocument (rewrite_policy f d) = validateDelegatedDocument d"
    by (cases "dc_policy d") (simp_all add: validateDelegatedDocument_def Let_def rewrite_policy_def UsesDelegatedHeaders_def)
  ultimately show ?thesis by (simp add: validateContent_None rewrite_policy_def)
qed

section \<open>Evaluation\<close>

lemma Bex_of_image: "Bex (h ` A) P \<longleftrightarrow> (\<exists>x \<in> A. P (h x))"
  by auto

lemma filter_image: "(\<And>x. P (h x) = P x) \<Longrightarrow> {y \<in> h ` A. P y} = h ` {x \<in> A. P x}"
  by auto

definition keeps_deny :: "(gostring \<Rightarrow> gostring) \<Rightarrow> bool" where
  "keeps_deny f \<longleftrightarrow> (\<forall>s. equal_fold (f s) ''deny'' = equal_fold s ''deny'')"

lemma rule_ranks_rewritten [simp]: "rule_ranks name (map (rewrite_rule f) rs) = rule_ranks name rs"
  by (induction rs) simp_all

lemma rewritten_grant [simp]:
  "grant_matches idn (rewrite_grant f g) = grant_matches idn g" "live now (rewrite_grant f g) = live now g"
  "covers_tool name (rewrite_grant f g) = covers_tool name g" "is_monitor (rewrite_grant f g) = is_monitor g"
  "contributes name side (rewrite_grant f g) = contributes name side g"
proof -
  show "covers_tool name (rewrite_grant f g) = covers_tool name g" by (auto simp: covers_tool_def)
  then show "contributes name side (rewrite_grant f g) = contributes name side g" by (simp add: contributes_def)
qed (simp_all add: live_def rewrite_grant_def is_monitor_def)

lemma rewritten_denies: "keeps_deny f \<Longrightarrow> denies_tool name (rewrite_grant f g) = denies_tool name g"
  by (auto simp: denies_tool_def keeps_deny_def)

lemma rewritten_ranks [simp]:
  "admin_rank_of name side (rewrite_grant f ` A) = admin_rank_of name side A"
  "required_rank_of name side base (rewrite_grant f ` A) = required_rank_of name side base A"
  "expired_only now (rewrite_grant f ` A) = expired_only now A"
  by (simp_all add: admin_rank_of_def required_rank_of_def expired_only_def filter_image image_image)

lemma rewrite_policy_sel [simp]:
  "dc_tools (rewrite_policy f d) = dc_tools d" "sessionRequired (Some (rewrite_policy f d)) = sessionRequired (Some d)"
  "defaultDecisionAllow (Some (rewrite_policy f d)) = defaultDecisionAllow (Some d)"
  "session_gate (rewrite_policy f d) req now = session_gate d req now"
  by (simp_all add: session_gate_def rewrite_policy_def findPolicySession_plain sessionRequired_def defaultDecisionAllow_def)

lemma grant_verdict_rewritten:
  assumes "keeps_deny f"
  shows "grant_verdict (rewrite_policy f d) req now s = grant_verdict d req now s"
proof -
  have M: "{g \<in> set (dc_grants (rewrite_policy f d)). grant_matches (rq_identity req) g} =
      rewrite_grant f ` {g \<in> set (dc_grants d). grant_matches (rq_identity req) g}"
    by (simp add: rewrite_policy_def filter_image)
  have A: "{g \<in> rewrite_grant f ` S. live now g} = rewrite_grant f ` {g \<in> S. live now g}" for S
    by (rule filter_image) simp
  show ?thesis
    unfolding grant_verdict_def Let_def M A
    by (cases "resolveToolMetadata (dc_tools d) (rq_tool_name req)")
      (simp only: rewrite_policy_sel prod.case image_is_empty Bex_of_image rewritten_grant rewritten_ranks
        rewritten_denies [OF assms])
qed

lemma enforced_verdict_rewritten:
  "keeps_deny f \<Longrightarrow> enforced_verdict (rewrite_policy f d) req now = enforced_verdict d req now"
  unfolding enforced_verdict_def Let_def
  by (cases "session_gate d req now") (simp_all add: grant_verdict_rewritten)

lemma monitored_verdict_rewritten:
  assumes "keeps_deny f"
  shows "monitored_verdict (rewrite_policy f d) req now = monitored_verdict d req now"
proof -
  have only: "only P (rewrite_policy f d) = rewrite_policy f (only P d)" if "\<And>g. P (rewrite_grant f g) = P g" for P
    using that by (simp add: only_def rewrite_policy_def filter_map o_def)
  have act: "some_active P (rewrite_policy f d) req now = some_active P d req now" if "\<And>g. P (rewrite_grant f g) = P g" for P
    using that by (simp add: some_active_def rewrite_policy_def active_for_def)
  have kinds: "enforced_verdict (only P (rewrite_policy f d)) req now = enforced_verdict (only P d) req now"
    if "\<And>g. P (rewrite_grant f g) = P g" for P
    unfolding only [of P, OF that] by (rule enforced_verdict_rewritten [OF assms])
  show ?thesis
    unfolding monitored_verdict_def
    by (cases "resolveToolMetadata (dc_tools d) (rq_tool_name req)")
      (simp only: rewrite_policy_sel kinds act rewritten_grant enforced_verdict_rewritten [OF assms] prod.case)
qed

lemma read_as_keeps_deny: "keeps_deny (read_as ''allow'')"
proof -
  have "\<not> equal_fold ''allow'' ''deny''" by code_simp
  then show ?thesis by (simp add: keeps_deny_def read_as_def padded_deny_def)
qed

text \<open>C38: the two readings of a tool rule whose decision is "deny" only once the blanks around it are
  trimmed. Validation reads it as "deny": a stamped policy is accepted exactly if the same policy with
  "deny" in the place of every such decision is. Evaluation reads it as "allow": under a policy that
  does not observe and does not delegate its headers, every tool call is decided, at every time,
  exactly as under the same policy with "allow" in their place, in the outcome, its reason and
  the would-be denial.\<close>

theorem padded_deny_is_granted:
  assumes "Stamp digest (Some d) t = Inr v" and "Stamp digest (Some (rewrite_policy (read_as ''deny'') d)) t = Inr v'"
    and "activated d" and "\<not> UsesDelegatedHeaders (Some d)" and "\<not> policyModeObserve (Some d)"
    and "IsToolCallMethod (rq_rpc_method req)"
  shows "(Validate parse_url digest (Some v) = None \<longleftrightarrow> Validate parse_url digest (Some v') = None) \<and>
    (let held = Authorize (Some d) req now wall;
         meant = Authorize (Some (rewrite_policy (read_as ''allow'') d)) req now wall
     in de_allowed held = de_allowed meant \<and> de_reason held = de_reason meant \<and>
        de_would_deny held = de_would_deny meant)"
proof -
  let ?d = "rewrite_policy (read_as ''allow'') d"
  have valid: "Validate parse_url digest (Some v) = None \<longleftrightarrow> Validate parse_url digest (Some v') = None"
    unfolding Validate_stamped [OF assms(1)] Validate_stamped [OF assms(2)]
    by (simp add: validateContent_rewritten validDecision_read_as)
  have enf: "enforces d req" using assms(4-6) by (simp add: enforces_def)
  have enf': "enforces ?d req"
    using assms(4-6) by (simp add: enforces_def rewrite_policy_def UsesDelegatedHeaders_def policyModeObserve_def)
  have act': "activated ?d" by (simp add: rewrite_policy_def)
  have "monitored_verdict ?d req (clock now wall) = monitored_verdict d req (clock now wall)"
    by (rule monitored_verdict_rewritten [OF read_as_keeps_deny])
  then show ?thesis
    using valid by (simp add: Authorize_parts [OF assms(3) enf] Authorize_parts [OF act' enf'] Let_def)
qed

text \<open>A policy whose only rule for the tool says " deny " is accepted like the one that says "deny",
  and allows the call that the latter refuses.\<close>

theorem padded_deny_is_granted_instance:
  "\<exists>v. Stamp (\<lambda>_. ''00'') (Some (stamped_sample '' deny '')) ''t'' = Inr v \<and>
     Validate (\<lambda>_. None) (\<lambda>_. ''00'') (Some v) = None \<and>
     de_allowed (Authorize (Some (stamped_sample '' deny '')) sample_request 5 7) \<and>
     \<not> de_allowed (Authorize (Some (rewrite_policy (read_as ''deny'') (stamped_sample '' deny ''))) sample_request 5 7)"
proof -
  let ?d = "stamped_sample '' deny ''" and ?d' = "rewrite_policy (read_as ''deny'') (stamped_sample '' deny '')"
  obtain v v' where v: "Stamp (\<lambda>_. ''00'') (Some ?d) ''t'' = Inr v" "Stamp (\<lambda>_. ''00'') (Some ?d') ''t'' = Inr v'"
    by (simp add: Stamp_result)
  have act: "activated ?d" by (simp add: activated_def stamped_sample_def sample_document_def document_zero_def)
  have mode: "\<not> UsesDelegatedHeaders (Some ?d)" "\<not> policyModeObserve (Some ?d)"
    "IsToolCallMethod (rq_rpc_method sample_request)"
    by code_simp+
  note both = padded_deny_is_granted [OF v act mode, of "\<lambda>_. None" 5 7]
  have "validateContent (\<lambda>_. None) ?d' = None" by code_simp
  then have "Validate (\<lambda>_. None) (\<lambda>_. ''00'') (Some v) = None"
    using both Validate_stamped [OF v(2), of "\<lambda>_. None"] by simp
  moreover have "de_allowed (Authorize (Some (rewrite_policy (read_as ''allow'') ?d)) sample_request 5 7)" by code_simp
  moreover have "\<not> de_allowed (Authorize (Some ?d') sample_request 5 7)" by code_simp
  ultimately show ?thesis using both v(1) by (simp add: Let_def)
qed

end
