(* ===== verification/SessionStore.thy ===== *)
theory SessionStore
  imports PolicyTypes
begin

text \<open>
  The platform's session store: the rows and the bounded change log behind the gateway session
  protocol (\<open>pkg/sessionstate\<close>, \<open>services/platform-api/internal/platformstore/sessions.go\<close>,
  \<open>session_enrollment.go\<close>, the session parts of \<open>agents.go\<close> and \<open>user_lifecycle.go\<close>).

  Each operation of the code is one SQL transaction under one row lock, so here it is a
  function from the database to an error or a new database; a failing driver rolls back and is
  not modelled. A table is a list of rows in insertion order, a row of \<open>sessions\<close> is its JSON
  \<open>data\<close> (the other columns are projections of it that the code never lets diverge: an update
  of a row keeps namespace, name and server), identifiers are compared byte by byte. The
  clock and \<open>uuid.NewString\<close> are arguments.
\<close>

section \<open>Protocol data\<close>

record server_ident =
  sn_namespace :: namespace
  sn_name :: gostring
  sn_uid :: gostring

record session_row =
  se_id :: gostring
  se_uid :: gostring
  se_namespace :: gostring
  se_server_namespace :: gostring
  se_server_name :: gostring
  se_server_uid :: gostring
  se_grant_namespace :: gostring
  se_grant_name :: gostring
  se_authority_team :: gostring
  se_binding :: binding
  se_created_at :: time
  se_revoked_at :: "time option"
  se_revocation_cause :: gostring
  se_labels :: "(gostring \<times> gostring) list"
  se_annotations :: "(gostring \<times> gostring) list"

record session_filter =
  fi_human :: gostring
  fi_namespace :: gostring
  fi_server_name :: gostring
  fi_server_uid :: gostring
  fi_agent :: gostring
  fi_grant_namespace :: gostring
  fi_grant_name :: gostring
  fi_after :: gostring
  fi_limit :: int

record session_page =
  pa_sessions :: "session_row list"
  pa_next :: gostring

record session_snapshot =
  sp_epoch :: gostring
  sp_sequence :: int
  sp_sessions :: "session_row list"

record session_change =
  ch_kind :: gostring
  ch_sequence :: int
  ch_operation :: gostring
  ch_id :: gostring
  ch_session :: "session_row option"

record session_changes =
  cs_epoch :: gostring
  cs_sequence :: int
  cs_changes :: "session_change list"
  cs_more :: bool

definition ChangeLimit :: nat where
  "ChangeLimit = 1000"

definition pending_annotation :: gostring where
  "pending_annotation = ''mcpruntime.org/adapter-enrollment-pending''"

datatype store_error =
    ErrMissingField
  | ErrMissingSubject
  | ErrMissingTeam
  | ErrInvalidIdentity
  | ErrNamespaceMismatch
  | ErrInvalidExpiry
  | ErrInvalidSession
  | ErrConflict
  | ErrNotFound
  | ErrInactiveAgent
  | ErrInactiveHuman
  | ErrInvalidStatus
  | ErrAgentNotFound
  | ErrBulkScope
  | ErrRetirementScope
  | ErrReset

section \<open>The database\<close>

record log_entry =
  lg_sequence :: int
  lg_server_namespace :: gostring
  lg_server_uid :: gostring
  lg_change :: session_change

record session_db =
  db_epoch :: gostring
  db_sequence :: int
  db_floor :: int
  db_sessions :: "session_row list"
  db_changes :: "log_entry list"
  db_retired :: "gostring list"
  db_deleted :: "gostring list"
  db_agents :: "gostring \<rightharpoonup> gostring \<times> gostring"
  db_deleted_users :: "gostring list"

definition session_key :: "gostring \<Rightarrow> gostring \<Rightarrow> gostring" where
  "session_key ns name = ns @ ''/'' @ name"

abbreviation row_name :: "session_row \<Rightarrow> gostring" where
  "row_name r \<equiv> bd_name (se_binding r)"

definition initializeSessions :: "gostring \<Rightarrow> session_db \<Rightarrow> session_db" where
  "initializeSessions fresh db = db\<lparr>db_epoch := fresh\<rparr>"

definition validateSession :: "session_row \<Rightarrow> store_error option" where
  "validateSession r =
     (let b = se_binding r in
      if se_namespace r = '''' \<or> bd_name b = '''' \<or> se_server_namespace r = '''' \<or>
         se_server_name r = '''' \<or> se_server_uid r = '''' then Some ErrMissingField
      else if bd_human_id b = '''' \<and> bd_agent_id b = '''' \<and> bd_team_id b = '''' then Some ErrMissingSubject
      else if bd_agent_id b \<noteq> '''' \<and> bd_team_id b = '''' then Some ErrMissingTeam
      else if contains_any (se_namespace r @ bd_name b) [CHR ''/'', CHR 0x5C] then Some ErrInvalidIdentity
      else if bd_namespace b \<noteq> '''' \<and> bd_namespace b \<noteq> se_namespace r then Some ErrNamespaceMismatch
      else if bd_expires_at b \<noteq> '''' \<and> parse_rfc3339 (bd_expires_at b) = None then Some ErrInvalidExpiry
      else None)"

text \<open>The log keeps the last 100000 sequence numbers; the floor is the last one removed.\<close>

definition sessionChangeRetention :: int where
  "sessionChangeRetention = 100000"

definition appendSessionChange :: "session_row \<Rightarrow> bool \<Rightarrow> session_db \<Rightarrow> session_db" where
  "appendSessionChange item deleted db =
     (let seq = db_sequence db + 1;
          gone = (deleted \<or> bd_revoked (se_binding item));
          change = \<lparr>ch_kind = ''session'', ch_sequence = seq,
                    ch_operation = (if gone then ''delete'' else ''upsert''), ch_id = se_id item,
                    ch_session = (if gone then None else Some item)\<rparr>;
          log = db_changes db @
                  [\<lparr>lg_sequence = seq, lg_server_namespace = se_server_namespace item,
                    lg_server_uid = se_server_uid item, lg_change = change\<rparr>];
          floor = seq - sessionChangeRetention
      in if floor > 0 then
           db\<lparr>db_sequence := seq, db_changes := filter (\<lambda>e. \<not> lg_sequence e \<le> floor) log,
              db_floor := max (db_floor db) floor\<rparr>
         else db\<lparr>db_sequence := seq, db_changes := log\<rparr>)"

definition upsert_row :: "session_row \<Rightarrow> session_row list \<Rightarrow> session_row list" where
  "upsert_row item rows =
     (if list_ex (\<lambda>r. se_id r = se_id item) rows
      then map (\<lambda>r. if se_id r = se_id item then item else r) rows
      else rows @ [item])"

definition writeSession :: "session_row \<Rightarrow> session_db \<Rightarrow> session_db" where
  "writeSession item db =
     appendSessionChange item False (db\<lparr>db_sessions := upsert_row item (db_sessions db)\<rparr>)"

definition checkSessionHuman :: "session_db \<Rightarrow> session_row \<Rightarrow> store_error option" where
  "checkSessionHuman db item =
     (let h = bd_human_id (se_binding item) in
      if h = '''' then None
      else if List.member (db_deleted_users db) h then Some ErrInactiveHuman else None)"

definition checkSessionAgent :: "session_db \<Rightarrow> session_row \<Rightarrow> store_error option" where
  "checkSessionAgent db item =
     (case db_agents db (bd_agent_id (se_binding item)) of
        None \<Rightarrow> Some ErrInactiveAgent
      | Some (status, team) \<Rightarrow>
          if status \<noteq> ''active'' \<or> team \<noteq> bd_team_id (se_binding item) then Some ErrInactiveAgent
          else None)"

text \<open>The two membership checks in the order the code runs them.\<close>

definition checkSubject :: "session_db \<Rightarrow> session_row \<Rightarrow> store_error option" where
  "checkSubject db item =
     (case checkSessionHuman db item of
        Some e \<Rightarrow> Some e
      | None \<Rightarrow> if bd_agent_id (se_binding item) \<noteq> '''' then checkSessionAgent db item else None)"

definition find_row :: "session_db \<Rightarrow> gostring \<Rightarrow> gostring \<Rightarrow> session_row option" where
  "find_row db ns name = List.find (\<lambda>r. se_namespace r = ns \<and> row_name r = name) (db_sessions db)"

section \<open>Writing sessions\<close>

definition revoked_stamp :: "time \<Rightarrow> session_row \<Rightarrow> session_row" where
  "revoked_stamp now item =
     (if bd_revoked (se_binding item)
      then (if se_revoked_at item = None then item\<lparr>se_revoked_at := Some now\<rparr> else item)
      else item\<lparr>se_revoked_at := None, se_revocation_cause := ''''\<rparr>)"

text \<open>A new row gets an identifier and a creation time; a known one brings its own.\<close>

definition stamp_row :: "time \<Rightarrow> gostring \<Rightarrow> session_row \<Rightarrow> session_row" where
  "stamp_row now fresh item =
     (let it1 = (if se_uid item = '''' then item\<lparr>se_uid := fresh\<rparr> else item);
          it2 = (if se_created_at it1 = zero_time then it1\<lparr>se_created_at := now\<rparr> else it1)
      in revoked_stamp now it2)"

definition PutSession ::
  "session_row \<Rightarrow> time \<Rightarrow> gostring \<Rightarrow> session_db \<Rightarrow> store_error + (session_row \<times> session_db)" where
  "PutSession item0 now fresh db =
     (case validateSession item0 of
        Some e \<Rightarrow> Inl e
      | None \<Rightarrow>
          (let item = item0\<lparr>se_id := session_key (se_namespace item0) (row_name item0),
                            se_binding := (se_binding item0)\<lparr>bd_namespace := se_namespace item0\<rparr>\<rparr>
           in if List.member (db_retired db) (se_server_uid item) \<or> List.member (db_deleted db) (se_id item)
              then Inl ErrConflict
              else
                (case checkSubject db item of
                   Some e \<Rightarrow> Inl e
                 | None \<Rightarrow>
                     (case List.find (\<lambda>r. se_id r = se_id item) (db_sessions db) of
                        None \<Rightarrow>
                          (let row = stamp_row now fresh item in Inr (row, writeSession row db))
                      | Some old \<Rightarrow>
                          if se_server_uid old \<noteq> se_server_uid item \<or>
                             se_server_namespace old \<noteq> se_server_namespace item \<or>
                             se_server_name old \<noteq> se_server_name item
                          then Inl ErrConflict
                          else
                            (let row = stamp_row now fresh
                                   (item\<lparr>se_uid := se_uid old, se_created_at := se_created_at old\<rparr>)
                             in Inr (row, writeSession row db))))))"

definition GetSession :: "gostring \<Rightarrow> gostring \<Rightarrow> session_db \<Rightarrow> session_row option" where
  "GetSession ns name db = find_row db ns name"

definition set_revoked :: "bool \<Rightarrow> gostring \<Rightarrow> time \<Rightarrow> session_row \<Rightarrow> session_row" where
  "set_revoked revoked cause now item =
     (let b = (se_binding item)\<lparr>bd_revoked := revoked\<rparr> in
      if revoked then item\<lparr>se_binding := b, se_revocation_cause := cause, se_revoked_at := Some now\<rparr>
      else item\<lparr>se_binding := b, se_revocation_cause := '''', se_revoked_at := None\<rparr>)"

definition SetSessionRevoked ::
  "gostring \<Rightarrow> gostring \<Rightarrow> bool \<Rightarrow> gostring \<Rightarrow> time \<Rightarrow> session_db \<Rightarrow> store_error + session_db" where
  "SetSessionRevoked ns name revoked cause now db =
     (case find_row db ns name of
        None \<Rightarrow> Inl ErrNotFound
      | Some item \<Rightarrow>
          (case (if revoked then None
                 else if List.member (db_retired db) (se_server_uid item) then Some ErrConflict
                 else checkSubject db item) of
             Some e \<Rightarrow> Inl e
           | None \<Rightarrow> Inr (writeSession (set_revoked revoked cause now item) db)))"

section \<open>Deleting sessions\<close>

definition deleteSessionTx :: "session_row \<Rightarrow> session_db \<Rightarrow> session_db" where
  "deleteSessionTx item db =
     appendSessionChange item True
       (db\<lparr>db_deleted := (if List.member (db_deleted db) (se_id item) then db_deleted db
                          else se_id item # db_deleted db),
          db_sessions := filter (\<lambda>r. \<not> (se_namespace r = se_namespace item \<and> row_name r = row_name item))
                           (db_sessions db)\<rparr>)"

definition DeleteSessionVersioned ::
  "gostring \<Rightarrow> gostring \<Rightarrow> gostring \<Rightarrow> session_db \<Rightarrow> store_error + session_db" where
  "DeleteSessionVersioned ns name uid db =
     (case find_row db ns name of
        None \<Rightarrow> Inl ErrNotFound
      | Some item \<Rightarrow>
          if uid \<noteq> '''' \<and> se_uid item \<noteq> uid then Inl ErrConflict
          else Inr (deleteSessionTx item db))"

definition DeleteSession :: "gostring \<Rightarrow> gostring \<Rightarrow> session_db \<Rightarrow> store_error + session_db" where
  "DeleteSession ns name = DeleteSessionVersioned ns name ''''"

definition mutateSessionEnrollment ::
  "gostring \<Rightarrow> gostring \<Rightarrow> gostring \<Rightarrow> gostring \<Rightarrow> bool \<Rightarrow> time \<Rightarrow> session_db \<Rightarrow> store_error + session_db" where
  "mutateSessionEnrollment ns name uid human cleanup now db =
     (if uid = '''' \<or> (cleanup \<and> human = '''') then Inl ErrInvalidSession
      else
        (case find_row db ns name of
           None \<Rightarrow> Inl ErrNotFound
         | Some item \<Rightarrow>
             (let pending = (map_of (se_annotations item) pending_annotation = Some ''true'')
              in if se_uid item \<noteq> uid then Inl ErrConflict
                 else if cleanup then
                   (if bd_human_id (se_binding item) \<noteq> human \<or> \<not> pending then Inl ErrConflict
                    else Inr (deleteSessionTx item db))
                 else
                   (case parse_rfc3339 (bd_expires_at (se_binding item)) of
                      None \<Rightarrow> Inl ErrConflict
                    | Some expires \<Rightarrow>
                        if \<not> now < expires \<or> bd_revoked (se_binding item) then Inl ErrConflict
                        else
                          (case (if bd_agent_id (se_binding item) \<noteq> '''' then checkSessionAgent db item else None) of
                             Some e \<Rightarrow> Inl e
                           | None \<Rightarrow>
                               if pending then
                                 Inr (writeSession (item\<lparr>se_annotations :=
                                   filter (\<lambda>a. fst a \<noteq> pending_annotation) (se_annotations item)\<rparr>) db)
                               else Inr db)))))"

definition CompleteSessionEnrollment ::
  "gostring \<Rightarrow> gostring \<Rightarrow> gostring \<Rightarrow> time \<Rightarrow> session_db \<Rightarrow> store_error + session_db" where
  "CompleteSessionEnrollment ns name uid now = mutateSessionEnrollment ns name uid '''' False now"

definition DeletePendingSession ::
  "gostring \<Rightarrow> gostring \<Rightarrow> gostring \<Rightarrow> gostring \<Rightarrow> time \<Rightarrow> session_db \<Rightarrow> store_error + session_db" where
  "DeletePendingSession ns name uid human now = mutateSessionEnrollment ns name uid human True now"

section \<open>Filters, lists and bulk revocation\<close>

definition sessionFilter :: "session_filter \<Rightarrow> session_row \<Rightarrow> bool" where
  "sessionFilter f r \<longleftrightarrow>
     (fi_namespace f = '''' \<or> se_namespace r = fi_namespace f) \<and>
     (fi_server_name f = '''' \<or> se_server_name r = fi_server_name f) \<and>
     (fi_server_uid f = '''' \<or> se_server_uid r = fi_server_uid f) \<and>
     (fi_agent f = '''' \<or> bd_agent_id (se_binding r) = fi_agent f) \<and>
     (fi_human f = '''' \<or> bd_human_id (se_binding r) = fi_human f) \<and>
     (fi_grant_namespace f = '''' \<or> se_grant_namespace r = fi_grant_namespace f) \<and>
     (fi_grant_name f = '''' \<or> se_grant_name r = fi_grant_name f) \<and>
     (fi_after f = '''' \<or> fi_after f < se_id r)"

definition page_limit :: "session_filter \<Rightarrow> nat" where
  "page_limit f = (if fi_limit f \<le> 0 \<or> 1000 < fi_limit f then 1000 else nat (fi_limit f))"

definition ListSessions :: "session_filter \<Rightarrow> session_db \<Rightarrow> session_page" where
  "ListSessions f db =
     (let limit = page_limit f;
          items = take (limit + 1) (sort_key se_id (filter (sessionFilter f) (db_sessions db)))
      in if length items > limit
         then \<lparr>pa_sessions = take limit items, pa_next = se_id (items ! (limit - 1))\<rparr>
         else \<lparr>pa_sessions = items, pa_next = ''''\<rparr>)"

definition revokeSessionsTx ::
  "session_filter \<Rightarrow> gostring \<Rightarrow> time \<Rightarrow> session_db \<Rightarrow> nat \<times> session_db" where
  "revokeSessionsTx f cause now db =
     (let items = filter (\<lambda>r. \<not> bd_revoked (se_binding r) \<and> sessionFilter f r) (db_sessions db)
      in (length items, fold (\<lambda>r. writeSession (set_revoked True cause now r)) items db))"

definition RevokeSessions ::
  "session_filter \<Rightarrow> gostring \<Rightarrow> time \<Rightarrow> session_db \<Rightarrow> store_error + (nat \<times> session_db)" where
  "RevokeSessions f cause now db =
     (if fi_server_uid f = '''' \<and> fi_agent f = '''' \<and> fi_grant_name f = '''' then Inl ErrBulkScope
      else if cause = ''server_retired'' then
        (if fi_server_uid f = '''' then Inl ErrRetirementScope
         else Inr (revokeSessionsTx f cause now
           (db\<lparr>db_retired := (if List.member (db_retired db) (fi_server_uid f) then db_retired db
                              else fi_server_uid f # db_retired db)\<rparr>)))
      else Inr (revokeSessionsTx f cause now db))"

definition filter_zero :: session_filter where
  "filter_zero = \<lparr>fi_human = '''', fi_namespace = '''', fi_server_name = '''', fi_server_uid = '''',
     fi_agent = '''', fi_grant_namespace = '''', fi_grant_name = '''', fi_after = '''', fi_limit = 0\<rparr>"

definition SetAgentStatus ::
  "gostring \<Rightarrow> gostring \<Rightarrow> time \<Rightarrow> session_db \<Rightarrow> store_error + session_db" where
  "SetAgentStatus agent status now db =
     (if status \<noteq> ''active'' \<and> status \<noteq> ''inactive'' then Inl ErrInvalidStatus
      else
        (case db_agents db (trim_space agent) of
           None \<Rightarrow> Inl ErrAgentNotFound
         | Some (_, team) \<Rightarrow>
             (let db1 = db\<lparr>db_agents := (db_agents db)(trim_space agent \<mapsto> (status, team))\<rparr>
              in if status = ''inactive''
                 then Inr (snd (revokeSessionsTx (filter_zero\<lparr>fi_agent := trim_space agent\<rparr>)
                        ''agent_deactivated'' now db1))
                 else Inr db1)))"

text \<open>The part of \<open>DeactivateUser\<close> that runs once its authority checks have passed.\<close>

definition DeactivateUser_sessions :: "gostring \<Rightarrow> time \<Rightarrow> session_db \<Rightarrow> session_db" where
  "DeactivateUser_sessions user now db =
     snd (revokeSessionsTx (filter_zero\<lparr>fi_human := user\<rparr>) ''user_deactivated'' now
       (db\<lparr>db_deleted_users := (if List.member (db_deleted_users db) user then db_deleted_users db
                                else user # db_deleted_users db)\<rparr>))"

section \<open>What gateways read\<close>

text \<open>The \<open>expires_at\<close> column: NULL for a blank expiry, else the parsed instant, the zero time
  when parsing fails (which \<open>validateSession\<close> excludes).\<close>

definition expiry_column :: "session_row \<Rightarrow> time option" where
  "expiry_column r =
     (let e = bd_expires_at (se_binding r) in
      if e = '''' then None
      else Some (case parse_rfc3339 e of None \<Rightarrow> zero_time | Some t \<Rightarrow> t))"

definition current_row :: "time \<Rightarrow> session_row \<Rightarrow> bool" where
  "current_row now r \<longleftrightarrow> (case expiry_column r of None \<Rightarrow> True | Some t \<Rightarrow> now < t)"

definition SessionSnapshot :: "server_ident \<Rightarrow> time \<Rightarrow> session_db \<Rightarrow> session_snapshot" where
  "SessionSnapshot srv now db =
     \<lparr>sp_epoch = db_epoch db, sp_sequence = db_sequence db,
      sp_sessions = sort_key se_id
        (filter (\<lambda>r. se_server_namespace r = sn_namespace srv \<and> se_server_uid r = sn_uid srv \<and>
                     \<not> bd_revoked (se_binding r) \<and> current_row now r) (db_sessions db))\<rparr>"

definition server_log :: "server_ident \<Rightarrow> int \<Rightarrow> session_db \<Rightarrow> session_change list" where
  "server_log srv after db =
     map lg_change (filter (\<lambda>e. lg_server_namespace e = sn_namespace srv \<and>
       lg_server_uid e = sn_uid srv \<and> after < lg_sequence e) (sort_key lg_sequence (db_changes db)))"

definition SessionChanges ::
  "server_ident \<Rightarrow> gostring \<Rightarrow> int \<Rightarrow> session_db \<Rightarrow> store_error + session_changes" where
  "SessionChanges srv epoch after db =
     (if epoch \<noteq> db_epoch db \<or> after < db_floor db \<or> db_sequence db < after \<or> after < 0 then Inl ErrReset
      else
        (let found = take (ChangeLimit + 1) (server_log srv after db)
         in if length found > ChangeLimit
            then (let page = take ChangeLimit found
                  in Inr \<lparr>cs_epoch = db_epoch db, cs_sequence = ch_sequence (last page),
                          cs_changes = page, cs_more = True\<rparr>)
            else Inr \<lparr>cs_epoch = db_epoch db, cs_sequence = db_sequence db, cs_changes = found,
                      cs_more = False\<rparr>))"

end
