(* ===== verification/SessionInv.thy ===== *)
theory SessionInv
  imports SessionStore
begin

text \<open>
  Invariants of the session store. Every operation is a sequence of three primitive transitions
  (write a row, delete a row, change the directory tables), or the rotation of the epoch at a
  restart; what these keep is an invariant of the store. \<open>store_ok\<close> is the shape of rows and log, \<open>access_ok\<close> says
  that no usable session belongs to a retired server, a deactivated user or an inactive agent.
\<close>

section \<open>Events\<close>

datatype store_event =
    EvPut session_row time gostring
  | EvSetRevoked gostring gostring bool gostring time
  | EvDelete gostring gostring gostring
  | EvComplete gostring gostring gostring time
  | EvDeletePending gostring gostring gostring gostring time
  | EvRevoke session_filter gostring time
  | EvAgentStatus gostring gostring time
  | EvDeactivateUser gostring time
  | EvRestart gostring

definition keep :: "session_db \<Rightarrow> store_error + session_db \<Rightarrow> session_db" where
  "keep db r = (case r of Inl _ \<Rightarrow> db | Inr db' \<Rightarrow> db')"

fun store_step :: "store_event \<Rightarrow> session_db \<Rightarrow> session_db" where
  "store_step (EvPut item now fresh) db = keep db (map_sum id snd (PutSession item now fresh db))"
| "store_step (EvSetRevoked ns n v cause now) db = keep db (SetSessionRevoked ns n v cause now db)"
| "store_step (EvDelete ns n uid) db = keep db (DeleteSessionVersioned ns n uid db)"
| "store_step (EvComplete ns n uid now) db = keep db (CompleteSessionEnrollment ns n uid now db)"
| "store_step (EvDeletePending ns n uid h now) db = keep db (DeletePendingSession ns n uid h now db)"
| "store_step (EvRevoke f cause now) db = keep db (map_sum id snd (RevokeSessions f cause now db))"
| "store_step (EvAgentStatus a s now) db = keep db (SetAgentStatus a s now db)"
| "store_step (EvDeactivateUser u now) db = DeactivateUser_sessions u now db"
| "store_step (EvRestart fresh) db = initializeSessions fresh db"

lemma keep_simps [simp]: "keep db (Inl e) = db" "keep db (Inr db') = db'"
  by (simp_all add: keep_def)

section \<open>Shape of the store\<close>

definition row_ok :: "session_row \<Rightarrow> bool" where
  "row_ok r \<longleftrightarrow> se_id r = session_key (se_namespace r) (row_name r) \<and> CHR ''/'' \<notin> set (se_namespace r)"

definition same_server :: "session_row \<Rightarrow> session_row \<Rightarrow> bool" where
  "same_server r s \<longleftrightarrow>
     se_server_namespace r = se_server_namespace s \<and> se_server_uid r = se_server_uid s"

definition store_ok :: "session_db \<Rightarrow> bool" where
  "store_ok db \<longleftrightarrow>
     (\<forall>r \<in> set (db_sessions db). row_ok r) \<and> distinct (map se_id (db_sessions db)) \<and>
     sorted_wrt (<) (map lg_sequence (db_changes db)) \<and>
     (\<forall>e \<in> set (db_changes db). lg_sequence e \<le> db_sequence db \<and>
        ch_sequence (lg_change e) = lg_sequence e) \<and>
     0 \<le> db_floor db \<and> db_floor db \<le> db_sequence db"

definition writable :: "session_row \<Rightarrow> session_db \<Rightarrow> bool" where
  "writable item db \<longleftrightarrow>
     row_ok item \<and> (\<forall>r \<in> set (db_sessions db). se_id r = se_id item \<longrightarrow> same_server r item)"

inductive prim :: "session_db \<Rightarrow> session_db \<Rightarrow> bool" where
  prim_write: "writable item db \<Longrightarrow> prim db (writeSession item db)"
| prim_delete: "item \<in> set (db_sessions db) \<Longrightarrow> prim db (deleteSessionTx item db)"
| prim_directory: "prim db (db\<lparr>db_retired := a, db_agents := b, db_deleted_users := c\<rparr>)"

lemma session_key_inj:
  "CHR ''/'' \<notin> set ns \<Longrightarrow> CHR ''/'' \<notin> set ns' \<Longrightarrow> session_key ns n = session_key ns' n' \<Longrightarrow> ns = ns' \<and> n = n'"
proof (induction ns arbitrary: ns')
  case Nil
  then show ?case by (cases ns') (auto simp: session_key_def)
next
  case (Cons c ns)
  then show ?case by (cases ns') (auto simp: session_key_def)
qed

lemma row_ok_id: "row_ok r \<Longrightarrow> row_ok s \<Longrightarrow> se_id r = se_id s \<longleftrightarrow> se_namespace r = se_namespace s \<and> row_name r = row_name s"
  using session_key_inj [of "se_namespace r" "se_namespace s" "row_name r" "row_name s"]
  unfolding row_ok_def by metis

text \<open>The tables after the primitives.\<close>

lemma append_sel [simp]:
  "db_epoch (appendSessionChange item d db) = db_epoch db"
  "db_sequence (appendSessionChange item d db) = db_sequence db + 1"
  "db_sessions (appendSessionChange item d db) = db_sessions db"
  "db_retired (appendSessionChange item d db) = db_retired db"
  "db_deleted (appendSessionChange item d db) = db_deleted db"
  "db_agents (appendSessionChange item d db) = db_agents db"
  "db_deleted_users (appendSessionChange item d db) = db_deleted_users db"
  by (simp_all add: appendSessionChange_def Let_def)

lemma write_sel [simp]:
  "db_epoch (writeSession item db) = db_epoch db"
  "db_sequence (writeSession item db) = db_sequence db + 1"
  "db_sessions (writeSession item db) = upsert_row item (db_sessions db)"
  "db_retired (writeSession item db) = db_retired db"
  "db_deleted (writeSession item db) = db_deleted db"
  "db_agents (writeSession item db) = db_agents db"
  "db_deleted_users (writeSession item db) = db_deleted_users db"
  by (simp_all add: writeSession_def)

lemma set_upsert_row:
  "set (upsert_row item rows) = insert item {r \<in> set rows. se_id r \<noteq> se_id item}"
  by (auto simp: upsert_row_def list_ex_iff image_iff)

lemma ids_upsert_row:
  "map se_id (upsert_row item rows) =
     (if se_id item \<in> se_id ` set rows then map se_id rows else map se_id rows @ [se_id item])"
  by (auto simp: upsert_row_def list_ex_iff intro: rev_image_eqI)

lemma distinct_upsert_row: "distinct (map se_id rows) \<Longrightarrow> distinct (map se_id (upsert_row item rows))"
  by (simp add: ids_upsert_row)

lemma deleted_sessions:
  assumes "\<forall>r \<in> set (db_sessions db). row_ok r" and "item \<in> set (db_sessions db)"
  shows "set (db_sessions (deleteSessionTx item db)) = {r \<in> set (db_sessions db). se_id r \<noteq> se_id item}"
  using assms row_ok_id by (fastforce simp: deleteSessionTx_def)

lemma delete_sel [simp]:
  "db_epoch (deleteSessionTx item db) = db_epoch db"
  "db_sequence (deleteSessionTx item db) = db_sequence db + 1"
  "db_retired (deleteSessionTx item db) = db_retired db"
  "db_agents (deleteSessionTx item db) = db_agents db"
  "db_deleted_users (deleteSessionTx item db) = db_deleted_users db"
  "set (db_deleted (deleteSessionTx item db)) = insert (se_id item) (set (db_deleted db))"
  by (auto simp: deleteSessionTx_def)

section \<open>The log\<close>

definition log_ok :: "session_db \<Rightarrow> bool" where
  "log_ok db \<longleftrightarrow>
     sorted_wrt (<) (map lg_sequence (db_changes db)) \<and>
     (\<forall>e \<in> set (db_changes db). lg_sequence e \<le> db_sequence db \<and> ch_sequence (lg_change e) = lg_sequence e) \<and>
     0 \<le> db_floor db \<and> db_floor db \<le> db_sequence db"

lemma sorted_wrt_filter_map:
  "sorted_wrt (<) (map f xs) \<Longrightarrow> sorted_wrt (<) (map f (filter P xs))"
  by (induction xs) auto

lemma sorted_after_take:
  fixes f :: "'a \<Rightarrow> 'b::linorder"
  assumes "sorted_wrt (<) (map f xs)" and "n < length xs" and "0 < n"
  shows "drop n xs = filter (\<lambda>x. f (xs ! (n - 1)) < f x) xs"
proof -
  have split: "xs = take n xs @ drop n xs" by simp
  have "\<not> f (xs ! (n - 1)) < f x" if "x \<in> set (take n xs)" for x
  proof -
    from that obtain i where "i < n" "x = xs ! i" by (auto simp: in_set_conv_nth)
    with assms have "i = n - 1 \<or> f (xs ! i) < f (xs ! (n - 1))"
      by (cases "i = n - 1") (auto simp: sorted_wrt_iff_nth_less)
    with \<open>x = xs ! i\<close> show ?thesis by auto
  qed
  then have "filter (\<lambda>x. f (xs ! (n - 1)) < f x) (take n xs) = []" by (simp add: filter_empty_conv)
  moreover have "f (xs ! (n - 1)) < f x" if "x \<in> set (drop n xs)" for x
  proof -
    from that obtain i where "i < length xs - n" "x = xs ! (n + i)" by (auto simp: in_set_conv_nth)
    with assms show ?thesis by (auto simp: sorted_wrt_iff_nth_less)
  qed
  then have "filter (\<lambda>x. f (xs ! (n - 1)) < f x) (drop n xs) = drop n xs" by (simp add: filter_id_conv)
  ultimately show ?thesis using split by (metis append_Nil filter_append)
qed

lemma append_log_ok: "log_ok db \<Longrightarrow> log_ok (appendSessionChange item d db)"
  by (auto simp: log_ok_def appendSessionChange_def Let_def sessionChangeRetention_def
      sorted_wrt_append sorted_wrt_filter_map)

lemma write_log_ok: "log_ok db \<Longrightarrow> log_ok (writeSession item db)"
  unfolding writeSession_def by (rule append_log_ok) (simp add: log_ok_def)

lemma delete_log_ok: "log_ok db \<Longrightarrow> log_ok (deleteSessionTx item db)"
  unfolding deleteSessionTx_def by (rule append_log_ok) (simp add: log_ok_def)

lemma store_ok_log:
  "store_ok db \<longleftrightarrow> (\<forall>r \<in> set (db_sessions db). row_ok r) \<and> distinct (map se_id (db_sessions db)) \<and> log_ok db"
  by (auto simp: store_ok_def log_ok_def)

lemma prim_store_ok: "prim db db' \<Longrightarrow> store_ok db \<Longrightarrow> store_ok db'"
proof (induction rule: prim.induct)
  case (prim_write item db)
  then show ?case
    by (auto simp: store_ok_log writable_def set_upsert_row distinct_upsert_row write_log_ok)
next
  case (prim_delete item db)
  then have "distinct (map se_id (db_sessions (deleteSessionTx item db)))"
    by (auto simp: store_ok_log deleteSessionTx_def distinct_map_filter)
  with prim_delete show ?case
    by (auto simp: store_ok_log deleted_sessions delete_log_ok)
qed (auto simp: store_ok_def)

lemma prims_store_ok: "prim\<^sup>*\<^sup>* db db' \<Longrightarrow> store_ok db \<Longrightarrow> store_ok db'"
  by (induction rule: rtranclp_induct) (auto intro: prim_store_ok)

section \<open>Operations as primitive transitions\<close>

lemma find_row_mem: "find_row db ns n = Some r \<Longrightarrow> r \<in> set (db_sessions db) \<and> se_namespace r = ns \<and> row_name r = n"
  by (auto simp: find_row_def find_Some_iff)

lemma set_revoked_sel [simp]:
  "se_id (set_revoked v c t r) = se_id r" "se_namespace (set_revoked v c t r) = se_namespace r"
  "row_name (set_revoked v c t r) = row_name r"
  "se_server_namespace (set_revoked v c t r) = se_server_namespace r"
  "se_server_uid (set_revoked v c t r) = se_server_uid r"
  "bd_revoked (se_binding (set_revoked v c t r)) = v"
  "bd_human_id (se_binding (set_revoked v c t r)) = bd_human_id (se_binding r)"
  "bd_agent_id (se_binding (set_revoked v c t r)) = bd_agent_id (se_binding r)"
  "bd_team_id (se_binding (set_revoked v c t r)) = bd_team_id (se_binding r)"
  by (simp_all add: set_revoked_def Let_def)

lemma rewrite_writable:
  assumes "store_ok db" and "r \<in> set (db_sessions db)" and "se_id x = se_id r"
    and "se_namespace x = se_namespace r" and "row_name x = row_name r" and "same_server r x"
  shows "writable x db"
proof -
  have "row_ok x" using assms by (auto simp: store_ok_def row_ok_def)
  moreover have "same_server s x" if "s \<in> set (db_sessions db)" "se_id s = se_id x" for s
  proof -
    have "s = r"
      using assms(1,2,3) that unfolding store_ok_def by (metis eq_key_imp_eq_value inj_onD distinct_map)
    then show ?thesis using assms(6) by simp
  qed
  ultimately show ?thesis by (auto simp: writable_def)
qed

lemma writable_write:
  assumes "writable x db" and "writable y db" and "se_id y = se_id x \<Longrightarrow> same_server y x"
  shows "writable x (writeSession y db)"
  using assms by (auto simp: writable_def set_upsert_row)

lemma writes_prims:
  assumes "\<forall>r \<in> set items. writable r db" and "distinct (map se_id items)"
  shows "prim\<^sup>*\<^sup>* db (fold writeSession items db)"
  using assms
proof (induction items arbitrary: db)
  case (Cons r items)
  have "\<forall>x \<in> set items. writable x (writeSession r db)"
    using Cons.prems by (auto intro!: writable_write)
  then have "prim\<^sup>*\<^sup>* (writeSession r db) (fold writeSession items (writeSession r db))"
    using Cons by simp
  moreover have "prim db (writeSession r db)" using Cons.prems by (simp add: prim_write)
  ultimately show ?case by (simp add: converse_rtranclp_into_rtranclp)
qed simp

definition revoked_rows :: "session_filter \<Rightarrow> gostring \<Rightarrow> time \<Rightarrow> session_db \<Rightarrow> session_row list" where
  "revoked_rows f cause now db =
     map (set_revoked True cause now)
       (filter (\<lambda>r. \<not> bd_revoked (se_binding r) \<and> sessionFilter f r) (db_sessions db))"

lemma revokeSessionsTx_writes:
  "snd (revokeSessionsTx f cause now db) = fold writeSession (revoked_rows f cause now db) db"
  by (simp add: revokeSessionsTx_def revoked_rows_def fold_map comp_def Let_def)

lemma revoked_rows_writable:
  assumes "store_ok db"
  shows "\<forall>r \<in> set (revoked_rows f cause now db). writable r db"
    and "distinct (map se_id (revoked_rows f cause now db))"
proof -
  show "\<forall>r \<in> set (revoked_rows f cause now db). writable r db"
    using assms by (auto simp: revoked_rows_def same_server_def intro!: rewrite_writable [OF assms])
  have "map se_id (revoked_rows f cause now db) =
      map se_id (filter (\<lambda>r. \<not> bd_revoked (se_binding r) \<and> sessionFilter f r) (db_sessions db))"
    by (simp add: revoked_rows_def)
  then show "distinct (map se_id (revoked_rows f cause now db))"
    using assms by (simp add: store_ok_def distinct_map_filter)
qed

lemma revoke_prims: "store_ok db \<Longrightarrow> prim\<^sup>*\<^sup>* db (snd (revokeSessionsTx f cause now db))"
  unfolding revokeSessionsTx_writes by (intro writes_prims revoked_rows_writable)

lemma directory_then:
  assumes "store_ok db" and "db1 = db\<lparr>db_retired := a, db_agents := b, db_deleted_users := c\<rparr>"
    and "store_ok db1 \<Longrightarrow> prim\<^sup>*\<^sup>* db1 db2"
  shows "prim\<^sup>*\<^sup>* db db2"
proof -
  have "prim db db1" unfolding assms(2) by (rule prim_directory)
  moreover have "store_ok db1" by (rule prim_store_ok [OF calculation assms(1)])
  ultimately show ?thesis using assms(3) by (simp add: converse_rtranclp_into_rtranclp)
qed

text \<open>The row that \<open>PutSession\<close> writes.\<close>

lemma revoked_stamp_sel [simp]:
  "se_id (revoked_stamp t r) = se_id r" "se_namespace (revoked_stamp t r) = se_namespace r"
  "se_binding (revoked_stamp t r) = se_binding r"
  "se_server_namespace (revoked_stamp t r) = se_server_namespace r"
  "se_server_uid (revoked_stamp t r) = se_server_uid r"
  by (simp_all add: revoked_stamp_def)

lemma stamp_row_sel [simp]:
  "se_id (stamp_row t u r) = se_id r" "se_namespace (stamp_row t u r) = se_namespace r"
  "se_binding (stamp_row t u r) = se_binding r"
  "se_server_namespace (stamp_row t u r) = se_server_namespace r"
  "se_server_uid (stamp_row t u r) = se_server_uid r"
  by (simp_all add: stamp_row_def Let_def)

lemma PutSession_Inr:
  assumes "PutSession item0 now fresh db = Inr (r, db')"
  shows "db' = writeSession r db" and "row_ok r"
    and "se_namespace r = se_namespace item0" and "row_name r = row_name item0"
    and "se_server_uid r = se_server_uid item0" and "se_server_namespace r = se_server_namespace item0"
    and "\<not> List.member (db_retired db) (se_server_uid r)" and "\<not> List.member (db_deleted db) (se_id r)"
    and "checkSubject db r = None"
    and "\<forall>o1. List.find (\<lambda>x. se_id x = se_id r) (db_sessions db) = Some o1 \<longrightarrow> same_server o1 r"
    and "bd_revoked (se_binding r) = bd_revoked (se_binding item0)"
proof -
  let ?item = "item0\<lparr>se_id := session_key (se_namespace item0) (row_name item0),
                            se_binding := (se_binding item0)\<lparr>bd_namespace := se_namespace item0\<rparr>\<rparr>"
  have valid: "validateSession item0 = None" and free: "\<not> List.member (db_retired db) (se_server_uid ?item)"
    "\<not> List.member (db_deleted db) (se_id ?item)" and subj: "checkSubject db ?item = None"
    using assms by (auto simp: PutSession_def Let_def split: option.splits if_splits)
  have slash: "CHR ''/'' \<notin> set (se_namespace item0)"
    using valid by (auto simp: validateSession_def Let_def contains_any_def split: if_splits)
  have out: "db' = writeSession r db \<and> se_id r = se_id ?item \<and> se_namespace r = se_namespace ?item \<and>
      se_binding r = se_binding ?item \<and> se_server_namespace r = se_server_namespace ?item \<and>
      se_server_uid r = se_server_uid ?item \<and>
      (\<forall>o1. List.find (\<lambda>x. se_id x = se_id ?item) (db_sessions db) = Some o1 \<longrightarrow> same_server o1 ?item)"
    using assms valid free subj
    by (cases "List.find (\<lambda>x. se_id x = se_id ?item) (db_sessions db)")
      (auto simp: PutSession_def Let_def same_server_def split: if_splits)
  note fields = out [THEN conjunct2]
  show "db' = writeSession r db" using out by blast
  show "row_ok r" using fields slash by (simp add: row_ok_def)
  have binding: "se_binding r = se_binding ?item" using fields by blast
  have "checkSubject db r = checkSubject db ?item"
    unfolding checkSubject_def checkSessionHuman_def checkSessionAgent_def binding by (rule refl)
  then show "checkSubject db r = None" using subj by simp
  show "\<forall>o1. List.find (\<lambda>x. se_id x = se_id r) (db_sessions db) = Some o1 \<longrightarrow> same_server o1 r"
    using fields by (simp add: same_server_def)
  show "\<not> List.member (db_retired db) (se_server_uid r)" "\<not> List.member (db_deleted db) (se_id r)"
    "se_namespace r = se_namespace item0" "row_name r = row_name item0"
    "se_server_uid r = se_server_uid item0" "se_server_namespace r = se_server_namespace item0"
    "bd_revoked (se_binding r) = bd_revoked (se_binding item0)"
    using free fields by simp_all
qed

lemma PutSession_writable:
  assumes "store_ok db" and "PutSession item0 now fresh db = Inr (r, db')"
  shows "writable r db"
proof -
  note put = PutSession_Inr [OF assms(2)]
  have "same_server s r" if "s \<in> set (db_sessions db)" "se_id s = se_id r" for s
  proof -
    have "List.find (\<lambda>x. se_id x = se_id r) (db_sessions db) \<noteq> None"
      using that by (auto simp: find_None_iff)
    then obtain o1 where o1: "List.find (\<lambda>x. se_id x = se_id r) (db_sessions db) = Some o1" by blast
    then have "o1 \<in> set (db_sessions db)" "se_id o1 = se_id r" by (auto simp: find_Some_iff)
    then have "o1 = s"
      using assms(1) that unfolding store_ok_def by (metis distinct_map inj_onD)
    with put(10) o1 show ?thesis by blast
  qed
  with put(2) show ?thesis by (simp add: writable_def)
qed

lemma step_prims:
  assumes "store_ok db" and "\<forall>ep. e \<noteq> EvRestart ep"
  shows "prim\<^sup>*\<^sup>* db (store_step e db)"
proof -
  have writes: "prim\<^sup>*\<^sup>* db (writeSession x db)" if "writable x db" for x
    using that by (blast intro: prim_write)
  have deletes: "prim\<^sup>*\<^sup>* db (deleteSessionTx x db)" if "x \<in> set (db_sessions db)" for x
    using that by (blast intro: prim_delete)
  have enroll: "prim\<^sup>*\<^sup>* db (keep db (mutateSessionEnrollment ns n uid h c t db))" for ns n uid h c t
  proof (cases "find_row db ns n")
    case None
    then show ?thesis by (simp add: mutateSessionEnrollment_def)
  next
    case (Some r)
    then have r: "r \<in> set (db_sessions db)" by (simp add: find_row_mem)
    have "writable (r\<lparr>se_annotations := a\<rparr>) db" for a
      by (rule rewrite_writable [OF assms(1) r]) (simp_all add: same_server_def)
    with Some r show ?thesis
      by (auto simp: mutateSessionEnrollment_def Let_def intro: writes deletes split: option.split)
  qed
  have delete_versioned: "prim\<^sup>*\<^sup>* db (keep db (DeleteSessionVersioned ns n uid db))" for ns n uid
    by (auto simp: DeleteSessionVersioned_def intro: deletes dest: find_row_mem split: option.split)
  have set_revoked_writable: "writable (set_revoked v c t r) db" if "r \<in> set (db_sessions db)" for v c t r
    by (rule rewrite_writable [OF assms(1) that]) (simp_all add: same_server_def)
  have revoke: "prim\<^sup>*\<^sup>* db (snd (revokeSessionsTx f cause now (db\<lparr>db_retired := a, db_agents := b, db_deleted_users := c\<rparr>)))"
    for f cause now a b c
    by (rule directory_then [OF assms(1) refl revoke_prims])
  show ?thesis
  proof (cases e)
    case (EvPut item now fresh)
    then show ?thesis
      using writes PutSession_writable [OF assms(1), of item now fresh] PutSession_Inr(1) [of item now fresh db]
      by (cases "PutSession item now fresh db") (auto simp: keep_def)
  next
    case (EvSetRevoked ns n v cause now)
    then show ?thesis
      by (auto simp: SetSessionRevoked_def intro!: writes set_revoked_writable dest: find_row_mem split: option.split)
  next
    case (EvDelete ns n uid)
    then show ?thesis by (simp add: delete_versioned)
  next
    case (EvComplete ns n uid now)
    then show ?thesis by (simp add: CompleteSessionEnrollment_def enroll)
  next
    case (EvDeletePending ns n uid h now)
    then show ?thesis by (simp add: DeletePendingSession_def enroll)
  next
    case (EvRevoke f cause now)
    then show ?thesis
      using revoke [where b = "db_agents db" and c = "db_deleted_users db"] revoke_prims [OF assms(1)]
      by (simp add: RevokeSessions_def)
  next
    case (EvAgentStatus a s now)
    have "prim\<^sup>*\<^sup>* db (db\<lparr>db_agents := x\<rparr>)" for x
      using prim_directory [where db = db and a = "db_retired db" and b = x and c = "db_deleted_users db"]
      by auto
    then show ?thesis
      using EvAgentStatus revoke [where a = "db_retired db" and c = "db_deleted_users db"]
      by (auto simp: SetAgentStatus_def Let_def split: option.split)
  next
    case (EvDeactivateUser u now)
    then show ?thesis
      using revoke [where a = "db_retired db" and b = "db_agents db"]
      by (auto simp: DeactivateUser_sessions_def)
  next
    case (EvRestart fresh)
    then show ?thesis using assms(2) by simp
  qed
qed

lemma step_store_ok: "store_ok db \<Longrightarrow> store_ok (store_step e db)"
proof (cases e)
  case (EvRestart ep)
  then show "store_ok db \<Longrightarrow> ?thesis" by (simp add: initializeSessions_def store_ok_def)
qed (blast intro: prims_store_ok step_prims)+

interpretation store_machine: step_machine store_step store_ok
  by unfold_locales (rule step_store_ok)

end
