(* ===== verification/SessionClaims.thy ===== *)
theory SessionClaims
  imports SessionInv
begin

text \<open>
  The properties of the session store: deletions and deactivations are final, the change log is
  strictly increasing, and listing by pages is complete.
\<close>

section \<open>Deleted identities\<close>

definition no_deleted_rows :: "session_db \<Rightarrow> bool" where
  "no_deleted_rows db \<longleftrightarrow> (\<forall>r \<in> set (db_sessions db). se_id r \<notin> set (db_deleted db))"

lemma writes_sessions:
  "distinct (map se_id items) \<Longrightarrow>
     set (db_sessions (fold writeSession items db)) =
       set items \<union> {r \<in> set (db_sessions db). se_id r \<notin> se_id ` set items}"
proof (induction items arbitrary: db)
  case (Cons x items)
  then have "se_id x \<notin> se_id ` set items" by simp
  with Cons show ?case by (auto simp: set_upsert_row)
qed simp

lemma writes_tables [simp]:
  "db_deleted (fold writeSession items db) = db_deleted db"
  "db_retired (fold writeSession items db) = db_retired db"
  "db_agents (fold writeSession items db) = db_agents db"
  "db_deleted_users (fold writeSession items db) = db_deleted_users db"
  by (induction items arbitrary: db) simp_all

lemma revoke_tables [simp]:
  "db_deleted (snd (revokeSessionsTx f c t db)) = db_deleted db"
  "db_retired (snd (revokeSessionsTx f c t db)) = db_retired db"
  "db_agents (snd (revokeSessionsTx f c t db)) = db_agents db"
  "db_deleted_users (snd (revokeSessionsTx f c t db)) = db_deleted_users db"
  unfolding revokeSessionsTx_writes by simp_all

text \<open>After a bulk revocation the rows have the old identifiers, and an unrevoked row is an old one
  outside the filter.\<close>

lemma revoke_rows:
  assumes "store_ok db" and "r \<in> set (db_sessions (snd (revokeSessionsTx f c t db)))"
  shows "\<exists>s \<in> set (db_sessions db). se_id s = se_id r"
    and "\<not> bd_revoked (se_binding r) \<Longrightarrow> r \<in> set (db_sessions db) \<and> \<not> sessionFilter f r"
proof -
  note sets = writes_sessions [OF revoked_rows_writable(2) [OF assms(1)], of f c t db]
  have r: "r \<in> set (revoked_rows f c t db) \<or>
      r \<in> set (db_sessions db) \<and> se_id r \<notin> se_id ` set (revoked_rows f c t db)"
    using assms(2) unfolding revokeSessionsTx_writes sets by auto
  show "\<exists>s \<in> set (db_sessions db). se_id s = se_id r"
    using r by (auto simp: revoked_rows_def)
  assume "\<not> bd_revoked (se_binding r)"
  with r have "r \<in> set (db_sessions db)" "se_id r \<notin> se_id ` set (revoked_rows f c t db)"
    by (auto simp: revoked_rows_def)
  with \<open>\<not> bd_revoked (se_binding r)\<close> show "r \<in> set (db_sessions db) \<and> \<not> sessionFilter f r"
    by (auto simp: revoked_rows_def image_image)
qed

lemma write_no_deleted:
  "no_deleted_rows db \<Longrightarrow> se_id r \<notin> set (db_deleted db) \<Longrightarrow> no_deleted_rows (writeSession r db)"
  by (auto simp: no_deleted_rows_def set_upsert_row)

lemma rewrite_no_deleted:
  "no_deleted_rows db \<Longrightarrow> s \<in> set (db_sessions db) \<Longrightarrow> se_id r = se_id s \<Longrightarrow> no_deleted_rows (writeSession r db)"
  by (rule write_no_deleted) (auto simp: no_deleted_rows_def)

lemma delete_no_deleted:
  "store_ok db \<Longrightarrow> no_deleted_rows db \<Longrightarrow> r \<in> set (db_sessions db) \<Longrightarrow> no_deleted_rows (deleteSessionTx r db)"
  by (auto simp: no_deleted_rows_def store_ok_def deleted_sessions)

lemma revoke_no_deleted:
  "store_ok db \<Longrightarrow> no_deleted_rows db \<Longrightarrow> no_deleted_rows (snd (revokeSessionsTx f c t db))"
  using revoke_rows(1) unfolding no_deleted_rows_def by fastforce

lemma enroll_cases:
  "keep db (mutateSessionEnrollment ns n uid h c t db) = db \<or>
   (\<exists>r \<in> set (db_sessions db).
      keep db (mutateSessionEnrollment ns n uid h c t db) = deleteSessionTx r db \<or>
      (\<exists>a. \<not> bd_revoked (se_binding r) \<and>
         keep db (mutateSessionEnrollment ns n uid h c t db) = writeSession (r\<lparr>se_annotations := a\<rparr>) db))"
proof (cases "find_row db ns n")
  case (Some r)
  then have "r \<in> set (db_sessions db)" by (simp add: find_row_mem)
  then show ?thesis
    using Some by (auto simp: mutateSessionEnrollment_def Let_def split: option.split)
qed (simp add: mutateSessionEnrollment_def)

lemma store_ok_directory:
  "store_ok db \<Longrightarrow> store_ok (db\<lparr>db_retired := a\<rparr>)" "store_ok db \<Longrightarrow> store_ok (db\<lparr>db_agents := b\<rparr>)"
  "store_ok db \<Longrightarrow> store_ok (db\<lparr>db_deleted_users := c\<rparr>)"
  by (simp_all add: store_ok_def)

lemma no_deleted_directory [simp]:
  "no_deleted_rows (db\<lparr>db_retired := a\<rparr>) = no_deleted_rows db"
  "no_deleted_rows (db\<lparr>db_agents := b\<rparr>) = no_deleted_rows db"
  "no_deleted_rows (db\<lparr>db_deleted_users := c\<rparr>) = no_deleted_rows db"
  "no_deleted_rows (db\<lparr>db_epoch := e\<rparr>) = no_deleted_rows db"
  by (simp_all add: no_deleted_rows_def)

lemma step_no_deleted:
  assumes "store_ok db" and "no_deleted_rows db"
  shows "no_deleted_rows (store_step e db) \<and> set (db_deleted db) \<subseteq> set (db_deleted (store_step e db))"
proof -
  note facts = assms write_no_deleted rewrite_no_deleted delete_no_deleted revoke_no_deleted
  have enroll: "no_deleted_rows (keep db (mutateSessionEnrollment ns n uid h c t db)) \<and>
      set (db_deleted db) \<subseteq> set (db_deleted (keep db (mutateSessionEnrollment ns n uid h c t db)))" for ns n uid h c t
    using enroll_cases [of db ns n uid h c t] facts by auto
  show ?thesis
  proof (cases e)
    case (EvPut item now fresh)
    then show ?thesis
      using PutSession_Inr(1,8) [of item now fresh db] facts
      by (cases "PutSession item now fresh db") (auto simp: keep_def)
  next
    case (EvSetRevoked ns n v c now)
    then show ?thesis
      using facts by (auto simp: SetSessionRevoked_def dest!: find_row_mem split: option.split)
  next
    case (EvDelete ns n uid)
    then show ?thesis
      using facts by (auto simp: DeleteSessionVersioned_def dest!: find_row_mem split: option.split)
  next
    case (EvComplete ns n uid now)
    then show ?thesis using enroll by (simp add: CompleteSessionEnrollment_def)
  next
    case (EvDeletePending ns n uid h now)
    then show ?thesis using enroll by (simp add: DeletePendingSession_def)
  next
    case (EvRevoke f c now)
    then show ?thesis using facts by (simp add: RevokeSessions_def store_ok_directory)
  next
    case (EvAgentStatus a s now)
    then show ?thesis
      using facts by (auto simp: SetAgentStatus_def Let_def store_ok_directory split: option.split)
  next
    case (EvDeactivateUser u now)
    then show ?thesis using facts by (simp add: DeactivateUser_sessions_def store_ok_directory)
  next
    case (EvRestart fresh)
    then show ?thesis using facts by (simp add: initializeSessions_def)
  qed
qed

interpretation identity_machine: monotone_machine store_step
    "\<lambda>db. store_ok db \<and> no_deleted_rows db" "\<lambda>db. set (db_deleted db)"
  using step_no_deleted store_machine.step_inv by unfold_locales auto

text \<open>a deleted session identity never comes back: once \<open>namespace/name\<close> was deleted, no sequence
  of store operations ever creates a row with it again (certificates name sessions by it).\<close>

theorem deleted_identity_is_final:
  assumes "store_ok db" and "no_deleted_rows db" and "ident \<in> set (db_deleted db)"
  shows "ident \<notin> se_id ` set (db_sessions (fold store_step es db))"
  using identity_machine.run_inv [of db es] identity_machine.run_rank [of db es] assms
  by (auto simp: no_deleted_rows_def)

definition empty_db :: session_db where
  "empty_db = \<lparr>db_epoch = ''e0'', db_sequence = 0, db_floor = 0, db_sessions = [], db_changes = [],
     db_retired = [], db_deleted = [], db_agents = Map.empty, db_deleted_users = []\<rparr>"

definition sample_row :: "gostring \<Rightarrow> session_row" where
  "sample_row name = \<lparr>se_id = '''', se_uid = '''', se_namespace = ''ns'', se_server_namespace = ''ns'',
     se_server_name = ''srv'', se_server_uid = ''u1'', se_grant_namespace = '''', se_grant_name = '''',
     se_authority_team = '''', se_binding = binding_zero\<lparr>bd_name := name, bd_human_id := ''alice''\<rparr>,
     se_created_at = 0, se_revoked_at = None, se_revocation_cause = '''', se_labels = [],
     se_annotations = []\<rparr>"

lemma empty_db_ok [simp]: "store_ok empty_db" "no_deleted_rows empty_db"
  by (simp_all add: store_ok_def no_deleted_rows_def empty_db_def)

theorem deleted_identity_is_final_instance:
  "''ns/s1'' \<notin> se_id ` set (db_sessions (fold store_step [EvPut (sample_row ''s1'') 5 ''id2'']
     (fold store_step [EvPut (sample_row ''s1'') 3 ''id1'', EvDelete ''ns'' ''s1'' ''''] empty_db)))"
proof (rule deleted_identity_is_final)
  show "store_ok (fold store_step [EvPut (sample_row ''s1'') 3 ''id1'', EvDelete ''ns'' ''s1'' ''''] empty_db)"
    by (rule store_machine.run_inv) simp
  show "no_deleted_rows (fold store_step [EvPut (sample_row ''s1'') 3 ''id1'', EvDelete ''ns'' ''s1'' ''''] empty_db)"
    by (rule identity_machine.run_inv [THEN conjunct2]) simp
  show "''ns/s1'' \<in> set (db_deleted (fold store_step
      [EvPut (sample_row ''s1'') 3 ''id1'', EvDelete ''ns'' ''s1'' ''''] empty_db))" by code_simp
qed

section \<open>Usable sessions\<close>

text \<open>A session may be unrevoked only while its server is not retired, its user not deactivated and
  its agent, if any, active in the session's team.\<close>

definition usable :: "session_db \<Rightarrow> session_row \<Rightarrow> bool" where
  "usable db r \<longleftrightarrow>
     se_server_uid r \<notin> set (db_retired db) \<and> checkSubject db r = None"

definition access_ok :: "session_db \<Rightarrow> bool" where
  "access_ok db \<longleftrightarrow> (\<forall>r \<in> set (db_sessions db). \<not> bd_revoked (se_binding r) \<longrightarrow> usable db r)"

text \<open>The calls the platform makes: a retirement names the server and nothing else, and the
  directory never hands out blank identifiers.\<close>

fun event_ok :: "store_event \<Rightarrow> bool" where
  "event_ok (EvRevoke f cause now) =
     (cause = ''server_retired'' \<longrightarrow> f = filter_zero\<lparr>fi_server_uid := fi_server_uid f\<rparr>)"
| "event_ok (EvAgentStatus a s now) = (trim_space a \<noteq> '''')"
| "event_ok (EvDeactivateUser u now) = (u \<noteq> '''')"
| "event_ok _ = True"

lemma checkSubject_iff:
  "checkSubject db r = None \<longleftrightarrow>
     (let b = se_binding r in
      (bd_human_id b = '''' \<or> bd_human_id b \<notin> set (db_deleted_users db)) \<and>
      (bd_agent_id b \<noteq> '''' \<longrightarrow> db_agents db (bd_agent_id b) = Some (''active'', bd_team_id b)))"
  by (auto simp: checkSubject_def checkSessionHuman_def checkSessionAgent_def Let_def
      split: option.splits if_splits)

lemma usable_tables [simp]:
  "usable (writeSession x db) r = usable db r" "usable (deleteSessionTx x db) r = usable db r"
  "usable (snd (revokeSessionsTx f c t db)) r = usable db r" "usable (db\<lparr>db_epoch := e\<rparr>) r = usable db r"
  by (simp_all add: usable_def checkSubject_iff)

lemma write_access: "access_ok db \<Longrightarrow> bd_revoked (se_binding x) \<or> usable db x \<Longrightarrow> access_ok (writeSession x db)"
  by (auto simp: access_ok_def set_upsert_row)

lemma delete_access: "store_ok db \<Longrightarrow> access_ok db \<Longrightarrow> x \<in> set (db_sessions db) \<Longrightarrow> access_ok (deleteSessionTx x db)"
  by (auto simp: access_ok_def store_ok_def deleted_sessions)

text \<open>A directory change followed by the revocation of what it makes unusable.\<close>

lemma revoke_access:
  assumes "store_ok db" and "\<forall>r \<in> set (db_sessions db). \<not> bd_revoked (se_binding r) \<and> \<not> sessionFilter f r \<longrightarrow> usable db r"
  shows "access_ok (snd (revokeSessionsTx f c t db))"
  using revoke_rows(2) [OF assms(1)] assms(2) by (auto simp: access_ok_def)

lemma step_access:
  assumes "store_ok db" and "access_ok db" and "event_ok e"
  shows "access_ok (store_step e db)"
proof -
  note facts = assms(1,2) write_access delete_access
  have known: "\<not> bd_revoked (se_binding r) \<Longrightarrow> usable db r" if "r \<in> set (db_sessions db)" for r
    using assms(2) that by (simp add: access_ok_def)
  have enroll: "access_ok (keep db (mutateSessionEnrollment ns n uid h c t db))" for ns n uid h c t
  proof -
    have "usable db (r\<lparr>se_annotations := a\<rparr>) = usable db r" for r a
      by (simp add: usable_def checkSubject_iff)
    then show ?thesis using enroll_cases [of db ns n uid h c t] facts known by auto
  qed
  have bulk: "access_ok (snd (revokeSessionsTx f c t db))" for f c t
    by (rule revoke_access [OF assms(1)]) (use known in blast)
  show ?thesis
  proof (cases e)
    case (EvPut item now fresh)
    show ?thesis
    proof (cases "PutSession item now fresh db")
      case (Inr p)
      then obtain r db' where put: "PutSession item now fresh db = Inr (r, db')" by (cases p) auto
      note out = PutSession_Inr [OF put]
      have "usable db r" using out(7,9) by (simp add: usable_def)
      with EvPut put out(1) facts show ?thesis by simp
    qed (use EvPut assms in simp)
  next
    case (EvSetRevoked ns n v c now)
    have "usable db (set_revoked False c now r) = usable db r" for r
      by (simp add: usable_def checkSubject_iff Let_def set_revoked_def)
    then have "access_ok (writeSession (set_revoked v c now r) db)" if "v \<or> usable db r" for r
      using that facts by (cases v) auto
    then show ?thesis
      using EvSetRevoked facts
      by (auto simp: SetSessionRevoked_def usable_def split: option.split)
  next
    case (EvDelete ns n uid)
    then show ?thesis
      using facts by (auto simp: DeleteSessionVersioned_def dest!: find_row_mem split: option.split)
  next
    case (EvComplete ns n uid now)
    then show ?thesis using enroll by (simp add: CompleteSessionEnrollment_def)
  next
    case (EvDeletePending ns n uid h now)
    then show ?thesis using enroll by (simp add: DeletePendingSession_def)
  next
    case (EvRevoke f c now)
    have "access_ok (snd (revokeSessionsTx f ''server_retired'' now (db\<lparr>db_retired := l\<rparr>)))"
      if "c = ''server_retired''" "set l = insert (fi_server_uid f) (set (db_retired db))" for l
    proof (rule revoke_access)
      have f: "f = filter_zero\<lparr>fi_server_uid := fi_server_uid f\<rparr>" using assms(3) EvRevoke that by simp
      show "store_ok (db\<lparr>db_retired := l\<rparr>)" by (rule store_ok_directory [OF assms(1)])
      show "\<forall>r \<in> set (db_sessions (db\<lparr>db_retired := l\<rparr>)).
          \<not> bd_revoked (se_binding r) \<and> \<not> sessionFilter f r \<longrightarrow> usable (db\<lparr>db_retired := l\<rparr>) r"
        using known that(2) by (subst f) (auto simp: sessionFilter_def filter_zero_def usable_def checkSubject_iff)
    qed
    then show ?thesis using EvRevoke bulk by (auto simp: RevokeSessions_def assms insert_absorb)
  next
    case (EvAgentStatus a s now)
    let ?a = "trim_space a"
    have "access_ok (snd (revokeSessionsTx (filter_zero\<lparr>fi_agent := ?a\<rparr>) c now (db\<lparr>db_agents := (db_agents db)(?a \<mapsto> v)\<rparr>)))" for v c
    proof (rule revoke_access)
      show "store_ok (db\<lparr>db_agents := (db_agents db)(?a \<mapsto> v)\<rparr>)" by (rule store_ok_directory [OF assms(1)])
      show "\<forall>r \<in> set (db_sessions (db\<lparr>db_agents := (db_agents db)(?a \<mapsto> v)\<rparr>)).
          \<not> bd_revoked (se_binding r) \<and> \<not> sessionFilter (filter_zero\<lparr>fi_agent := ?a\<rparr>) r \<longrightarrow>
          usable (db\<lparr>db_agents := (db_agents db)(?a \<mapsto> v)\<rparr>) r"
        using known by (auto simp: sessionFilter_def filter_zero_def usable_def checkSubject_iff Let_def)
    qed
    moreover have "access_ok (db\<lparr>db_agents := (db_agents db)(?a \<mapsto> (''active'', team))\<rparr>)"
      if "db_agents db ?a = Some (st, team)" for st team
      using assms(2) that by (fastforce simp: access_ok_def usable_def checkSubject_iff Let_def)
    ultimately show ?thesis using EvAgentStatus assms
      by (auto simp: SetAgentStatus_def Let_def split: option.split)
  next
    case (EvDeactivateUser u now)
    have "access_ok (snd (revokeSessionsTx (filter_zero\<lparr>fi_human := u\<rparr>) c now (db\<lparr>db_deleted_users := l\<rparr>)))"
      if "set l = insert u (set (db_deleted_users db))" for l c
    proof (rule revoke_access)
      show "store_ok (db\<lparr>db_deleted_users := l\<rparr>)" by (rule store_ok_directory [OF assms(1)])
      show "\<forall>r \<in> set (db_sessions (db\<lparr>db_deleted_users := l\<rparr>)).
          \<not> bd_revoked (se_binding r) \<and> \<not> sessionFilter (filter_zero\<lparr>fi_human := u\<rparr>) r \<longrightarrow>
          usable (db\<lparr>db_deleted_users := l\<rparr>) r"
        using known that by (auto simp: sessionFilter_def filter_zero_def usable_def checkSubject_iff Let_def)
    qed
    then show ?thesis using EvDeactivateUser by (auto simp: DeactivateUser_sessions_def insert_absorb)
  next
    case (EvRestart fresh)
    then show ?thesis using assms by (simp add: initializeSessions_def access_ok_def)
  qed
qed

interpretation access_machine: step_machine
    "\<lambda>e db. if event_ok e then store_step e db else db"
    "\<lambda>db. store_ok db \<and> access_ok db"
  using step_access store_machine.step_inv by unfold_locales auto

lemma fold_guarded:
  "\<forall>e \<in> set es. event_ok e \<Longrightarrow> fold (\<lambda>e db. if event_ok e then store_step e db else db) es db = fold store_step es db"
  by (induction es arbitrary: db) auto

text \<open>C36: revocation by the directory is final: in every state the store can reach, an unrevoked
  session belongs to a server that is not retired, to no deactivated user, and to an agent (if any)
  that is active in the session's team.\<close>

theorem unrevoked_sessions_are_usable:
  assumes "store_ok db" and "access_ok db" and "\<forall>e \<in> set es. event_ok e"
    and "r \<in> set (db_sessions (fold store_step es db))" and "\<not> bd_revoked (se_binding r)"
  shows "se_server_uid r \<notin> set (db_retired (fold store_step es db)) \<and>
     (bd_human_id (se_binding r) \<noteq> '''' \<longrightarrow>
        bd_human_id (se_binding r) \<notin> set (db_deleted_users (fold store_step es db))) \<and>
     (bd_agent_id (se_binding r) \<noteq> '''' \<longrightarrow>
        db_agents (fold store_step es db) (bd_agent_id (se_binding r)) =
          Some (''active'', bd_team_id (se_binding r)))"
proof -
  have "access_ok (fold store_step es db)"
    using access_machine.run_inv [of db es] assms(1,2) by (simp add: fold_guarded [OF assms(3)])
  with assms(4,5) have "usable (fold store_step es db) r" by (simp add: access_ok_def)
  then show ?thesis by (auto simp: usable_def checkSubject_iff Let_def)
qed

definition sample_db :: session_db where
  "sample_db = fold store_step [EvPut (sample_row ''s1'') 3 ''id1'', EvPut (sample_row ''s2'') 4 ''id2''] empty_db"

lemma sample_db_ok: "store_ok sample_db" "access_ok sample_db"
proof -
  have start: "access_ok empty_db" by (simp add: access_ok_def empty_db_def)
  show "store_ok sample_db" unfolding sample_db_def by (rule store_machine.run_inv) simp
  show "access_ok sample_db"
    using access_machine.run_inv [of empty_db "[EvPut (sample_row ''s1'') 3 ''id1'', EvPut (sample_row ''s2'') 4 ''id2'']"] start
    by (simp add: sample_db_def fold_guarded)
qed

theorem unrevoked_sessions_are_usable_instance:
  "\<exists>r \<in> set (db_sessions (fold store_step [EvDeactivateUser ''bob'' 9] sample_db)).
     bd_human_id (se_binding r) = ''alice'' \<and>
     bd_human_id (se_binding r) \<notin> set (db_deleted_users (fold store_step [EvDeactivateUser ''bob'' 9] sample_db))"
proof -
  let ?db = "fold store_step [EvDeactivateUser ''bob'' 9] sample_db"
  have rows: "list_ex (\<lambda>r. \<not> bd_revoked (se_binding r) \<and> bd_human_id (se_binding r) = ''alice'') (db_sessions ?db)"
    unfolding sample_db_def by code_simp
  then obtain r where r: "r \<in> set (db_sessions ?db)" "\<not> bd_revoked (se_binding r)"
    "bd_human_id (se_binding r) = ''alice''" by (auto simp: list_ex_iff)
  have "\<forall>e \<in> set [EvDeactivateUser ''bob'' 9]. event_ok e" by simp
  from unrevoked_sessions_are_usable [OF sample_db_ok this r(1,2)] r show ?thesis by auto
qed

section \<open>The change log\<close>

lemma prim_sequence: "prim db db' \<Longrightarrow> db_sequence db \<le> db_sequence db'"
  by (induction rule: prim.induct) simp_all

lemma prims_sequence: "prim\<^sup>*\<^sup>* db db' \<Longrightarrow> db_sequence db \<le> db_sequence db'"
  by (induction rule: rtranclp_induct) (auto dest: prim_sequence)

lemma step_sequence: "store_ok db \<Longrightarrow> db_sequence db \<le> db_sequence (store_step e db)"
proof (cases e)
  case (EvRestart ep)
  then show ?thesis by (simp add: initializeSessions_def)
qed (blast intro: prims_sequence step_prims)+

interpretation sequence_machine: monotone_machine store_step store_ok db_sequence
  by unfold_locales (rule step_sequence)

text \<open>the change log is what the sync protocol needs: sequence numbers never go back, entries are
  strictly increasing and none is beyond the counter, so a cursor splits the log without gaps or
  repeats.\<close>

theorem change_log_increasing:
  assumes "store_ok db"
  shows "db_sequence db \<le> db_sequence (fold store_step es db) \<and>
     sorted_wrt (<) (map lg_sequence (db_changes (fold store_step es db))) \<and>
     list_all (\<lambda>e. lg_sequence e \<le> db_sequence (fold store_step es db)) (db_changes (fold store_step es db)) \<and>
     db_floor (fold store_step es db) \<le> db_sequence (fold store_step es db)"
  using sequence_machine.run_rank [OF assms, of es] store_machine.run_inv [OF assms, of es]
  by (auto simp: store_ok_def list_all_iff)

theorem change_log_increasing_instance:
  "db_sequence sample_db \<le> db_sequence (fold store_step [EvSetRevoked ''ns'' ''s1'' True ''x'' 9] sample_db)"
  using change_log_increasing [OF sample_db_ok(1)] by blast

section \<open>Listing by pages\<close>

definition matching_rows :: "session_filter \<Rightarrow> session_db \<Rightarrow> session_row list" where
  "matching_rows f db = sort_key se_id (filter (sessionFilter f) (db_sessions db))"

lemma sorted_matching:
  assumes "store_ok db"
  shows "sorted_wrt (<) (map se_id (matching_rows f db))"
proof -
  have "distinct (map se_id (matching_rows f db))"
    using assms by (simp add: matching_rows_def store_ok_def distinct_map_filter flip: distinct_map_filter)
      (metis distinct_map_filter distinct_map distinct_sort set_sort)
  then show ?thesis by (simp add: strict_sorted_iff matching_rows_def)
qed

lemma sessionFilter_after:
  assumes "sessionFilter f s" and "row_ok s"
  shows "sessionFilter (f\<lparr>fi_after := se_id s\<rparr>) r \<longleftrightarrow> sessionFilter f r \<and> se_id s < se_id r"
proof -
  have "se_id s \<noteq> ''''" using assms(2) by (simp add: row_ok_def session_key_def)
  moreover have "fi_after f = '''' \<or> fi_after f < se_id s" using assms(1) by (simp add: sessionFilter_def)
  ultimately show ?thesis by (auto simp: sessionFilter_def)
qed

text \<open>listing by pages loses and repeats nothing: the sessions that match a filter, in order, are
  those of the first page followed by those the same filter matches after its cursor; without
  a cursor the page is complete.\<close>

theorem pages_complete:
  assumes "store_ok db"
  shows "matching_rows f db =
     pa_sessions (ListSessions f db) @
       (if pa_next (ListSessions f db) = '''' then []
        else matching_rows (f\<lparr>fi_after := pa_next (ListSessions f db)\<rparr>) db)"
proof -
  define xs where "xs = matching_rows f db"
  define n where "n = page_limit f"
  have n: "0 < n" by (simp add: n_def page_limit_def)
  have list: "ListSessions f db =
      (if n < length xs then \<lparr>pa_sessions = take n xs, pa_next = se_id (xs ! (n - 1))\<rparr>
       else \<lparr>pa_sessions = xs, pa_next = ''''\<rparr>)"
    unfolding ListSessions_def matching_rows_def [symmetric] xs_def [symmetric] n_def [symmetric] Let_def
    using n by (simp add: min_def)
  show ?thesis
  proof (cases "n < length xs")
    case True
    let ?s = "xs ! (n - 1)"
    have "?s \<in> set xs" using True n by simp
    then have s: "sessionFilter f ?s" "row_ok ?s"
      using assms by (auto simp: xs_def matching_rows_def store_ok_def)
    then have "se_id ?s \<noteq> ''''" by (simp add: row_ok_def session_key_def)
    moreover have "matching_rows (f\<lparr>fi_after := se_id ?s\<rparr>) db = filter (\<lambda>r. se_id ?s < se_id r) xs"
    proof -
      have "sessionFilter (f\<lparr>fi_after := se_id ?s\<rparr>) = (\<lambda>r. sessionFilter f r \<and> se_id ?s < se_id r)"
        by (rule ext) (rule sessionFilter_after [OF s])
      then have "matching_rows (f\<lparr>fi_after := se_id ?s\<rparr>) db =
          sort_key se_id (filter (\<lambda>r. se_id ?s < se_id r) (filter (sessionFilter f) (db_sessions db)))"
        unfolding matching_rows_def by (simp add: conj_commute)
      also have "\<dots> = filter (\<lambda>r. se_id ?s < se_id r) xs"
        unfolding xs_def matching_rows_def filter_sort by (rule refl)
      finally show ?thesis .
    qed
    moreover have "\<dots> = drop n xs"
      using sorted_after_take [OF _ True n, of se_id] sorted_matching [OF assms, of f] by (simp add: xs_def)
    ultimately show ?thesis
      using True by (simp add: list xs_def [symmetric])
  next
    case False
    then show ?thesis by (simp add: list xs_def [symmetric])
  qed
qed

theorem pages_complete_instance:
  "map row_name (pa_sessions (ListSessions (filter_zero\<lparr>fi_limit := 1\<rparr>) sample_db)) = [''s1''] \<and>
   matching_rows (filter_zero\<lparr>fi_limit := 1\<rparr>) sample_db =
     pa_sessions (ListSessions (filter_zero\<lparr>fi_limit := 1\<rparr>) sample_db) @
       matching_rows (filter_zero\<lparr>fi_limit := 1, fi_after := ''ns/s1''\<rparr>) sample_db"
proof -
  have page: "map row_name (pa_sessions (ListSessions (filter_zero\<lparr>fi_limit := 1\<rparr>) sample_db)) = [''s1'']"
    "pa_next (ListSessions (filter_zero\<lparr>fi_limit := 1\<rparr>) sample_db) = ''ns/s1''"
    unfolding sample_db_def by code_simp+
  from pages_complete [OF sample_db_ok(1), of "filter_zero\<lparr>fi_limit := 1\<rparr>"] page show ?thesis by simp
qed

end
