(* ===== verification/SessionSync.thy ===== *)
theory SessionSync
  imports SessionInv
begin

text \<open>
  The gateway's replica of its server's sessions (\<open>services/mcp-gateway/session_sync.go\<close>). A
  reply of the platform is an argument of the operations; a nil Go map is \<^term>\<open>None\<close>, and an
  assignment into it, which panics, makes the operation \<^term>\<open>None\<close>. \<open>sync\<close> reads its cursor,
  waits for the reply and then applies it: \<open>sync_changes\<close> takes the cursor it read as arguments,
  so that another goroutine's \<open>invalidate\<close> can be placed between the two halves.
\<close>

section \<open>Replies and errors\<close>

datatype 'a reply =
    NoCredential
  | TransportError
  | Response nat "'a option"

datatype sync_error =
    SyncNoCredential
  | SyncTransport
  | SyncDecode
  | SyncIdentityInvalid
  | SyncReset
  | SyncNotFound
  | SyncStatus nat
  | SyncBadCursor
  | SyncForeignServer
  | SyncBadSequence
  | SyncBadOperation
  | SyncBadIdentity
  | SyncCatchingUp

record gateway_sync =
  gw_server :: server_ident
  gw_epoch :: gostring
  gw_sequence :: int
  gw_sessions :: "(gostring \<rightharpoonup> session_row) option"
  gw_last_sync :: time
  gw_stale_window :: int

definition invalidate :: "gateway_sync \<Rightarrow> gateway_sync" where
  "invalidate st = st\<lparr>gw_epoch := '''', gw_last_sync := zero_time, gw_sessions := None\<rparr>"

definition fresh :: "time \<Rightarrow> gateway_sync option \<Rightarrow> bool" where
  "fresh now st =
     (case st of None \<Rightarrow> False
      | Some s \<Rightarrow> gw_last_sync s \<noteq> zero_time \<and> now - gw_last_sync s \<le> gw_stale_window s)"

definition getJSON :: "'a reply \<Rightarrow> gateway_sync \<Rightarrow> (sync_error + 'a) \<times> gateway_sync" where
  "getJSON r st =
     (case r of
        NoCredential \<Rightarrow> (Inl SyncNoCredential, st)
      | TransportError \<Rightarrow> (Inl SyncTransport, st)
      | Response status body \<Rightarrow>
          if status = 401 \<or> status = 403 then (Inl SyncIdentityInvalid, invalidate st)
          else if status = 410 then (Inl SyncReset, st)
          else if status = 404 then (Inl SyncNotFound, st)
          else if status \<noteq> 200 then (Inl (SyncStatus status), st)
          else (case body of None \<Rightarrow> (Inl SyncDecode, st) | Some b \<Rightarrow> (Inr b, st)))"

definition owns :: "server_ident \<Rightarrow> session_row \<Rightarrow> bool" where
  "owns srv r \<longleftrightarrow>
     se_server_uid r = sn_uid srv \<and> se_server_namespace r = sn_namespace srv \<and>
     se_server_name r = sn_name srv \<and> se_id r = session_key (se_namespace r) (row_name r) \<and>
     bd_namespace (se_binding r) = se_namespace r"

section \<open>One poll\<close>

definition snapshot_map :: "session_row list \<Rightarrow> (gostring \<rightharpoonup> session_row)" where
  "snapshot_map rows = fold (\<lambda>r m. m(se_id r \<mapsto> r)) rows Map.empty"

definition sync_snapshot ::
  "session_snapshot reply \<Rightarrow> time \<Rightarrow> gateway_sync \<Rightarrow> gateway_sync \<times> sync_error option" where
  "sync_snapshot r now st =
     (case getJSON r st of
        (Inl e, st') \<Rightarrow> (st', Some e)
      | (Inr snap, st') \<Rightarrow>
          if sp_epoch snap = '''' \<or> sp_sequence snap < 0 then (st', Some SyncBadCursor)
          else if \<not> list_all (owns (gw_server st')) (sp_sessions snap) then (st', Some SyncForeignServer)
          else (st'\<lparr>gw_sessions := Some (snapshot_map (sp_sessions snap)), gw_epoch := sp_epoch snap,
                    gw_sequence := sp_sequence snap, gw_last_sync := now\<rparr>, None))"

text \<open>The validation of a page of changes, before anything is applied.\<close>

fun check_changes :: "server_ident \<Rightarrow> int \<Rightarrow> int \<Rightarrow> session_change list \<Rightarrow> sync_error option" where
  "check_changes srv limit previous [] = None"
| "check_changes srv limit previous (c # cs) =
     (if ch_kind c \<noteq> ''session'' \<or> ch_sequence c \<le> previous \<or> limit < ch_sequence c
      then Some SyncBadSequence
      else if ch_operation c \<noteq> ''upsert'' \<and> ch_operation c \<noteq> ''delete'' then Some SyncBadOperation
      else if ch_operation c = ''upsert'' \<and>
              (case ch_session c of None \<Rightarrow> True | Some r \<Rightarrow> \<not> owns srv r \<or> ch_id c \<noteq> se_id r)
      then Some SyncBadIdentity
      else check_changes srv limit (ch_sequence c) cs)"

text \<open>Applying a page; \<^term>\<open>None\<close> is the panic of an assignment to a nil map.\<close>

fun apply_page ::
  "session_change list \<Rightarrow> (gostring \<rightharpoonup> session_row) option \<Rightarrow> (gostring \<rightharpoonup> session_row) option option" where
  "apply_page [] m = Some m"
| "apply_page (c # cs) m =
     (if ch_operation c = ''delete'' then apply_page cs (map_option (\<lambda>s. s(ch_id c := None)) m)
      else (case (m, ch_session c) of
              (Some s, Some r) \<Rightarrow> apply_page cs (Some (s(ch_id c \<mapsto> r)))
            | _ \<Rightarrow> None))"

definition sync_changes ::
  "gostring \<Rightarrow> int \<Rightarrow> session_changes reply \<Rightarrow> time \<Rightarrow> gateway_sync
    \<Rightarrow> (gateway_sync \<times> sync_error option) option" where
  "sync_changes epoch sequence r now st =
     (case getJSON r st of
        (Inl e, st') \<Rightarrow> Some (if e = SyncReset then invalidate st' else st', Some e)
      | (Inr ch, st') \<Rightarrow>
          if cs_epoch ch \<noteq> epoch \<or> cs_sequence ch < sequence then Some (invalidate st', Some SyncReset)
          else
            (case check_changes (gw_server st') (cs_sequence ch) sequence (cs_changes ch) of
               Some e \<Rightarrow> Some (st', Some e)
             | None \<Rightarrow>
                 (case apply_page (cs_changes ch) (gw_sessions st') of
                    None \<Rightarrow> None
                  | Some m \<Rightarrow>
                      (let st1 = st'\<lparr>gw_sessions := m, gw_sequence := cs_sequence ch\<rparr>
                       in if cs_more ch then Some (st1, Some SyncCatchingUp)
                          else Some (st1\<lparr>gw_last_sync := now\<rparr>, None)))))"

definition sync ::
  "session_snapshot reply \<Rightarrow> (int \<Rightarrow> gostring \<Rightarrow> session_changes reply) \<Rightarrow> time \<Rightarrow> gateway_sync
    \<Rightarrow> (gateway_sync \<times> sync_error option) option" where
  "sync snap changes now st =
     (if gw_epoch st = '''' then Some (sync_snapshot snap now st)
      else sync_changes (gw_epoch st) (gw_sequence st)
             (changes (gw_sequence st) (gw_epoch st)) now st)"

section \<open>The polling loop and the lookup\<close>

text \<open>One round of \<open>run\<close>: the delay before the next poll and the new backoff. \<open>jitter\<close> is the
  random number, which Go draws below a quarter of the backoff plus one.\<close>

definition poll_interval :: int where
  "poll_interval = second div 2"

definition run_delay :: "sync_error option \<Rightarrow> int \<Rightarrow> int \<Rightarrow> int \<times> int" where
  "run_delay err backoff jitter =
     (case err of
        Some SyncCatchingUp \<Rightarrow> (0, backoff)
      | Some _ \<Rightarrow> (backoff + jitter, if backoff < 10 * second then 2 * backoff else backoff)
      | None \<Rightarrow> (poll_interval, poll_interval))"

definition session_binding ::
  "gostring \<Rightarrow> gostring \<Rightarrow> session_row reply \<Rightarrow> time \<Rightarrow> gateway_sync option
    \<Rightarrow> (binding option \<times> gostring) \<times> gateway_sync option" where
  "session_binding ns name lookup now st =
     (case st of
        None \<Rightarrow> ((None, ''policy_unavailable''), None)
      | Some s \<Rightarrow>
          if \<not> fresh now st then ((None, ''policy_unavailable''), st)
          else
            (case Option.bind (gw_sessions s) (\<lambda>m. m (session_key ns name)) of
               Some row \<Rightarrow> ((Some (se_binding row), ''''), st)
             | None \<Rightarrow>
                 (case getJSON lookup s of
                    (Inl e, s') \<Rightarrow>
                      ((None, if e = SyncNotFound then ''session_not_found'' else ''policy_unavailable''), Some s')
                  | (Inr row, s') \<Rightarrow>
                      if \<not> owns (gw_server s') row then ((None, ''session_not_found''), Some s')
                      else ((Some (se_binding row), ''''), Some s'))))"

section \<open>Lemmas\<close>

definition gw_ok :: "gateway_sync \<Rightarrow> bool" where
  "gw_ok st \<longleftrightarrow> (gw_epoch st \<noteq> '''' \<longleftrightarrow> gw_sessions st \<noteq> None)"

lemma invalidate_sel [simp]:
  "gw_server (invalidate st) = gw_server st" "gw_epoch (invalidate st) = ''''"
  "gw_sessions (invalidate st) = None" "gw_last_sync (invalidate st) = 0" "gw_ok (invalidate st)"
  by (simp_all add: invalidate_def gw_ok_def)

lemma getJSON_Inr: "getJSON r st = (Inr b, st') \<longleftrightarrow> st' = st \<and> r = Response 200 (Some b)"
  by (auto simp: getJSON_def split: reply.splits if_splits option.splits)

lemma getJSON_Inl: "getJSON r st = (Inl e, st') \<Longrightarrow> st' = st \<or> st' = invalidate st"
  by (auto simp: getJSON_def split: reply.splits if_splits option.splits)

definition apply_change ::
  "session_change \<Rightarrow> (gostring \<rightharpoonup> session_row) \<Rightarrow> (gostring \<rightharpoonup> session_row)" where
  "apply_change c m = m(ch_id c := (if ch_operation c = ''delete'' then None else ch_session c))"

lemma apply_page_replay:
  "check_changes srv limit prev cs = None \<Longrightarrow> apply_page cs (Some m) = Some (Some (fold apply_change cs m))"
proof (induction cs arbitrary: m prev)
  case (Cons c cs)
  have rest: "check_changes srv limit (ch_sequence c) cs = None"
    using Cons.prems by (simp split: if_splits)
  have "apply_page (c # cs) (Some m) = apply_page cs (Some (apply_change c m))"
    using Cons.prems by (cases "ch_session c") (auto simp: apply_change_def split: if_splits)
  with Cons.IH [OF rest] show ?case by simp
qed simp

lemma apply_page_Some: "check_changes srv limit prev cs = None \<Longrightarrow> apply_page cs (Some m) \<noteq> None"
  by (simp add: apply_page_replay)

lemma apply_page_keeps: "apply_page cs (Some m) = Some m' \<Longrightarrow> m' \<noteq> None"
  by (induction cs arbitrary: m) (auto split: if_splits option.splits)

section \<open>The replica refines the store\<close>

text \<open>What the store holds for a server: its unrevoked rows.\<close>

definition view :: "server_ident \<Rightarrow> session_db \<Rightarrow> (gostring \<rightharpoonup> session_row)" where
  "view srv db key =
     List.find (\<lambda>r. se_id r = key \<and> se_server_namespace r = sn_namespace srv \<and>
       se_server_uid r = sn_uid srv \<and> \<not> bd_revoked (se_binding r)) (db_sessions db)"

text \<open>A replica agrees with a view if they differ at most in rows that have expired.\<close>

definition agree :: "time \<Rightarrow> (gostring \<rightharpoonup> session_row) \<Rightarrow> (gostring \<rightharpoonup> session_row) \<Rightarrow> bool" where
  "agree t m v \<longleftrightarrow> (\<forall>key. m key = v key \<or> m key = None \<and> (\<exists>r. v key = Some r \<and> \<not> current_row t r))"

text \<open>The simulation relation: under the store's epoch, replaying the rest of the log on the
  replica gives the view, unless the log was truncated past the cursor.\<close>

definition in_sync :: "time \<Rightarrow> session_db \<Rightarrow> gateway_sync \<Rightarrow> bool" where
  "in_sync t db st \<longleftrightarrow>
     gw_epoch st = '''' \<or> gw_epoch st \<noteq> db_epoch db \<or>
     (\<exists>m. gw_sessions st = Some m \<and> 0 \<le> gw_sequence st \<and> gw_sequence st \<le> db_sequence db \<and>
        (db_floor db \<le> gw_sequence st \<longrightarrow>
           agree t (fold apply_change (server_log (gw_server st) (gw_sequence st) db) m)
             (view (gw_server st) db)))"

lemma view_iff:
  assumes "store_ok db"
  shows "view srv db key = Some r \<longleftrightarrow>
     r \<in> set (db_sessions db) \<and> se_id r = key \<and> se_server_namespace r = sn_namespace srv \<and>
     se_server_uid r = sn_uid srv \<and> \<not> bd_revoked (se_binding r)"
    (is "_ \<longleftrightarrow> r \<in> _ \<and> ?P r")
proof
  assume "view srv db key = Some r"
  then show "r \<in> set (db_sessions db) \<and> ?P r" by (auto simp: view_def find_Some_iff)
next
  assume r: "r \<in> set (db_sessions db) \<and> ?P r"
  then have "view srv db key \<noteq> None" by (auto simp: view_def find_None_iff)
  then obtain s where s: "view srv db key = Some s" by blast
  then have "s \<in> set (db_sessions db)" "se_id s = key" by (auto simp: view_def find_Some_iff)
  with r assms have "s = r" unfolding store_ok_def by (metis distinct_map inj_onD)
  with s show "view srv db key = Some r" by simp
qed

lemma view_eqI:
  assumes "\<And>key r. view srv db key = Some r \<longleftrightarrow> m key = Some r"
  shows "view srv db = m"
proof
  fix key
  show "view srv db key = m key"
    using assms [of key] by (metis not_Some_eq)
qed

lemma view_tables [simp]:
  "view srv (db\<lparr>db_retired := a, db_agents := b, db_deleted_users := c\<rparr>) = view srv db"
  "view srv (db\<lparr>db_epoch := e\<rparr>) = view srv db"
  by (rule ext, simp add: view_def)+

lemma agree_change:
  assumes "agree t m v"
  shows "agree t (apply_change c m) (apply_change c v)"
  unfolding agree_def
proof
  fix key
  show "apply_change c m key = apply_change c v key \<or>
      apply_change c m key = None \<and> (\<exists>r. apply_change c v key = Some r \<and> \<not> current_row t r)"
    using assms by (cases "key = ch_id c") (simp_all add: apply_change_def agree_def)
qed

lemma agree_later:
  assumes "agree t m v" and "t \<le> t'"
  shows "agree t' m v"
proof -
  have "\<not> current_row t r \<Longrightarrow> \<not> current_row t' r" for r
    using assms(2) by (auto simp: current_row_def split: option.splits)
  then show ?thesis using assms(1) unfolding agree_def by blast
qed

definition log_server :: "server_ident \<Rightarrow> session_row \<Rightarrow> bool" where
  "log_server srv r \<longleftrightarrow> se_server_namespace r = sn_namespace srv \<and> se_server_uid r = sn_uid srv"

text \<open>The change logged for an item, and what it does to the view.\<close>

definition change_of :: "session_row \<Rightarrow> bool \<Rightarrow> int \<Rightarrow> session_change" where
  "change_of item deleted seq =
     (let gone = (deleted \<or> bd_revoked (se_binding item)) in
      \<lparr>ch_kind = ''session'', ch_sequence = seq, ch_operation = (if gone then ''delete'' else ''upsert''),
       ch_id = se_id item, ch_session = (if gone then None else Some item)\<rparr>)"

lemma view_write:
  assumes "store_ok db" and "writable item db"
  shows "view srv (writeSession item db) =
     (if log_server srv item then apply_change (change_of item False n) (view srv db) else view srv db)"
proof -
  have ok: "store_ok (writeSession item db)" by (rule prim_store_ok [OF prim_write [OF assms(2)] assms(1)])
  have same: "log_server srv r = log_server srv item"
    if "r \<in> set (db_sessions db)" "se_id r = se_id item" for r
    using assms(2) that by (auto simp: writable_def same_server_def log_server_def)
  show ?thesis
  proof (rule view_eqI)
    fix key r
    show "view srv (writeSession item db) key = Some r \<longleftrightarrow>
        (if log_server srv item then apply_change (change_of item False n) (view srv db) else view srv db) key = Some r"
    proof (cases "key = se_id item")
      case True
      have "view srv db key = None" if "\<not> log_server srv item"
        using same that True view_iff [OF assms(1), of srv key] unfolding log_server_def
        by (metis not_Some_eq)
      with True show ?thesis
        by (auto simp: view_iff [OF ok] set_upsert_row apply_change_def change_of_def Let_def log_server_def)
    next
      case False
      then show ?thesis
        by (auto simp: view_iff [OF ok] view_iff [OF assms(1)] set_upsert_row apply_change_def change_of_def Let_def)
    qed
  qed
qed

lemma view_delete:
  assumes "store_ok db" and "item \<in> set (db_sessions db)"
  shows "view srv (deleteSessionTx item db) =
     (if log_server srv item then apply_change (change_of item True n) (view srv db) else view srv db)"
proof -
  have ok: "store_ok (deleteSessionTx item db)" by (rule prim_store_ok [OF prim_delete [OF assms(2)] assms(1)])
  have rows: "\<forall>r \<in> set (db_sessions db). row_ok r" using assms(1) by (simp add: store_ok_def)
  have only: "r = item" if "r \<in> set (db_sessions db)" "se_id r = se_id item" for r
    using assms that unfolding store_ok_def by (metis distinct_map inj_onD)
  show ?thesis
  proof (rule view_eqI)
    fix key r
    show "view srv (deleteSessionTx item db) key = Some r \<longleftrightarrow>
        (if log_server srv item then apply_change (change_of item True n) (view srv db) else view srv db) key = Some r"
      using only
      by (auto simp: view_iff [OF ok] view_iff [OF assms(1)] deleted_sessions [OF rows assms(2)]
          apply_change_def change_of_def Let_def log_server_def)
  qed
qed

lemma sort_key_sorted: "sorted_wrt (<) (map f xs) \<Longrightarrow> sort_key f xs = (xs :: 'a list)" for f :: "'a \<Rightarrow> 'b::linorder"
  by (induction xs) (auto simp: insort_is_Cons less_imp_le)

lemma server_log_sorted:
  "log_ok db \<Longrightarrow> server_log srv after db = map lg_change (filter (\<lambda>e. lg_server_namespace e = sn_namespace srv \<and>
       lg_server_uid e = sn_uid srv \<and> after < lg_sequence e) (db_changes db))"
  by (simp add: server_log_def log_ok_def sort_key_sorted)

lemma server_log_append:
  assumes "log_ok db" and "after \<le> db_sequence db"
    and "db_floor (appendSessionChange item d db) \<le> after"
  shows "server_log srv after (appendSessionChange item d db) =
     server_log srv after db @
       (if log_server srv item then [change_of item d (db_sequence db + 1)] else [])"
proof -
  have same: "filter (\<lambda>e. lg_server_namespace e = sn_namespace srv \<and> lg_server_uid e = sn_uid srv \<and>
        after < lg_sequence e) (filter (\<lambda>e. \<not> lg_sequence e \<le> k) l) =
      filter (\<lambda>e. lg_server_namespace e = sn_namespace srv \<and> lg_server_uid e = sn_uid srv \<and>
        after < lg_sequence e) l" if "k \<le> after" for k l
    using that unfolding filter_filter by (intro filter_cong) auto
  have "db_sequence db + 1 - sessionChangeRetention \<le> after"
    if "0 < db_sequence db + 1 - sessionChangeRetention"
    using assms(3) that by (simp add: appendSessionChange_def Let_def)
  then show ?thesis
    using assms(2)
    unfolding server_log_sorted [OF assms(1)] server_log_sorted [OF append_log_ok [OF assms(1)]]
    by (simp add: appendSessionChange_def Let_def same log_server_def change_of_def
        sessionChangeRetention_def del: filter_filter)
qed

lemma append_floor: "log_ok db \<Longrightarrow> db_floor db \<le> db_floor (appendSessionChange item d db)"
  by (simp add: appendSessionChange_def Let_def)

text \<open>The simulation: every store transition keeps the replica in sync.\<close>

lemma in_sync_append:
  assumes "in_sync t db st" and "log_ok db" and "db_epoch db1 = db_epoch db"
    and "db_sequence db1 = db_sequence db" and "db_floor db1 = db_floor db" and "db_changes db1 = db_changes db"
    and "view (gw_server st) (appendSessionChange item d db1) =
      (if log_server (gw_server st) item
       then apply_change (change_of item d (db_sequence db + 1)) (view (gw_server st) db)
       else view (gw_server st) db)"
  shows "in_sync t (appendSessionChange item d db1) st"
proof -
  have log1: "log_ok db1" using assms(2,4,5,6) by (simp add: log_ok_def)
  have logs: "server_log srv after db1 = server_log srv after db" for srv after
    by (simp add: server_log_def assms(6))
  consider "gw_epoch st = '''' \<or> gw_epoch st \<noteq> db_epoch db"
    | m where "gw_sessions st = Some m" "0 \<le> gw_sequence st" "gw_sequence st \<le> db_sequence db"
        "db_floor db \<le> gw_sequence st \<longrightarrow>
           agree t (fold apply_change (server_log (gw_server st) (gw_sequence st) db) m) (view (gw_server st) db)"
    using assms(1) unfolding in_sync_def by blast
  then show ?thesis
  proof cases
    case 2
    have "agree t (fold apply_change (server_log (gw_server st) (gw_sequence st) (appendSessionChange item d db1)) m)
        (view (gw_server st) (appendSessionChange item d db1))"
      if floor: "db_floor (appendSessionChange item d db1) \<le> gw_sequence st"
    proof -
      have "db_floor db \<le> gw_sequence st"
        using append_floor [OF log1, of item d] floor assms(5) by simp
      with 2(4) have old: "agree t (fold apply_change (server_log (gw_server st) (gw_sequence st) db) m)
          (view (gw_server st) db)" by blast
      have "server_log (gw_server st) (gw_sequence st) (appendSessionChange item d db1) =
          server_log (gw_server st) (gw_sequence st) db @
          (if log_server (gw_server st) item then [change_of item d (db_sequence db + 1)] else [])"
        using server_log_append [OF log1 _ floor, of "gw_server st"] 2(3) assms(4) logs by simp
      then show ?thesis using old agree_change [OF old] by (simp add: assms(7))
    qed
    with 2(1-3) assms(4) show ?thesis by (auto simp: in_sync_def)
  qed (auto simp: in_sync_def assms(3))
qed

lemma prim_in_sync:
  assumes "prim db db'" and "store_ok db" and "in_sync t db st"
  shows "in_sync t db' st"
  using assms
proof (induction rule: prim.induct)
  case (prim_write item db)
  let ?db1 = "db\<lparr>db_sessions := upsert_row item (db_sessions db)\<rparr>"
  show ?case unfolding writeSession_def
  proof (rule in_sync_append [of t db st ?db1])
    show "view (gw_server st) (appendSessionChange item False ?db1) =
      (if log_server (gw_server st) item
       then apply_change (change_of item False (db_sequence db + 1)) (view (gw_server st) db)
       else view (gw_server st) db)"
      using view_write [OF prim_write(2,1)] unfolding writeSession_def by simp
  qed (use prim_write in \<open>simp_all add: store_ok_log\<close>)
next
  case (prim_delete item db)
  let ?db1 = "db\<lparr>db_deleted := (if List.member (db_deleted db) (se_id item) then db_deleted db
                          else se_id item # db_deleted db),
          db_sessions := filter (\<lambda>r. \<not> (se_namespace r = se_namespace item \<and> row_name r = row_name item))
                           (db_sessions db)\<rparr>"
  show ?case unfolding deleteSessionTx_def
  proof (rule in_sync_append [of t db st ?db1])
    show "view (gw_server st) (appendSessionChange item True ?db1) =
      (if log_server (gw_server st) item
       then apply_change (change_of item True (db_sequence db + 1)) (view (gw_server st) db)
       else view (gw_server st) db)"
      using view_delete [OF prim_delete(2,1)] unfolding deleteSessionTx_def by simp
  qed (use prim_delete in \<open>simp_all add: store_ok_log\<close>)
next
  case (prim_directory db a b c)
  then show ?case by (simp add: in_sync_def server_log_def)
qed

lemma prims_in_sync: "prim\<^sup>*\<^sup>* db db' \<Longrightarrow> store_ok db \<Longrightarrow> in_sync t db st \<Longrightarrow> in_sync t db' st"
  by (induction rule: rtranclp_induct) (auto intro: prim_in_sync prims_store_ok)

text \<open>A restarted store draws a fresh epoch, which no gateway holds.\<close>

definition fresh_restart :: "gateway_sync \<Rightarrow> store_event \<Rightarrow> bool" where
  "fresh_restart st e \<longleftrightarrow> (case e of EvRestart ep \<Rightarrow> ep \<noteq> gw_epoch st | _ \<Rightarrow> True)"

lemma step_in_sync:
  assumes "store_ok db" and "in_sync t db st" and "fresh_restart st e"
  shows "in_sync t (store_step e db) st"
proof (cases e)
  case (EvRestart ep)
  with assms(3) show ?thesis by (simp add: fresh_restart_def in_sync_def initializeSessions_def)
qed (blast intro: prims_in_sync step_prims assms)+

lemma steps_in_sync:
  "store_ok db \<Longrightarrow> in_sync t db st \<Longrightarrow> \<forall>e \<in> set es. fresh_restart st e \<Longrightarrow> in_sync t (fold store_step es db) st"
  by (induction es arbitrary: db) (auto intro: step_in_sync step_store_ok)

section \<open>A poll of an honest platform\<close>

text \<open>A successful reply carries what the store returns at that moment; any failure is possible.\<close>

definition honest_snapshot :: "session_db \<Rightarrow> server_ident \<Rightarrow> time \<Rightarrow> session_snapshot reply \<Rightarrow> bool" where
  "honest_snapshot db srv t r \<longleftrightarrow> (\<forall>b. r = Response 200 (Some b) \<longrightarrow> b = SessionSnapshot srv t db)"

definition honest_changes :: "session_db \<Rightarrow> server_ident \<Rightarrow> gostring \<Rightarrow> int \<Rightarrow> session_changes reply \<Rightarrow> bool" where
  "honest_changes db srv epoch after r \<longleftrightarrow>
     (\<forall>b. r = Response 200 (Some b) \<longrightarrow> SessionChanges srv epoch after db = Inr b)"

lemma snapshot_map_None: "key \<notin> se_id ` set rows \<Longrightarrow> fold (\<lambda>r m. m(se_id r \<mapsto> r)) rows m key = m key"
  by (induction rows arbitrary: m) auto

lemma snapshot_map_Some:
  "distinct (map se_id rows) \<Longrightarrow> r \<in> set rows \<Longrightarrow> snapshot_map rows (se_id r) = Some r"
proof -
  have "distinct (map se_id rows) \<Longrightarrow> r \<in> set rows \<Longrightarrow>
      fold (\<lambda>r m. m(se_id r \<mapsto> r)) rows m (se_id r) = Some r" for m
    by (induction rows arbitrary: m) (auto simp: snapshot_map_None)
  then show "distinct (map se_id rows) \<Longrightarrow> r \<in> set rows \<Longrightarrow> ?thesis" by (simp add: snapshot_map_def)
qed

lemma snapshot_agree:
  assumes "store_ok db"
  shows "agree t (snapshot_map (sp_sessions (SessionSnapshot srv t db))) (view srv db)"
  unfolding agree_def
proof
  fix key
  let ?rows = "sp_sessions (SessionSnapshot srv t db)"
  have mem: "r \<in> set ?rows \<longleftrightarrow> view srv db (se_id r) = Some r \<and> current_row t r" for r
    by (auto simp: view_iff [OF assms] SessionSnapshot_def)
  have "distinct (map se_id (filter P (db_sessions db)))" for P
    using assms by (simp add: store_ok_def distinct_map_filter)
  then have dist: "distinct (map se_id ?rows)" by (simp add: SessionSnapshot_def distinct_map)
  show "snapshot_map ?rows key = view srv db key \<or>
      snapshot_map ?rows key = None \<and> (\<exists>r. view srv db key = Some r \<and> \<not> current_row t r)"
  proof (cases "key \<in> se_id ` set ?rows")
    case True
    then show ?thesis using mem snapshot_map_Some [OF dist] by auto
  next
    case False
    then have none: "snapshot_map ?rows key = None" by (simp add: snapshot_map_def snapshot_map_None)
    show ?thesis
    proof (cases "view srv db key")
      case (Some r)
      then have "se_id r = key" by (simp add: view_iff [OF assms])
      with Some False mem [of r] have "\<not> current_row t r" by auto
      with Some none show ?thesis by simp
    qed (simp add: none)
  qed
qed

lemma server_log_now: "log_ok db \<Longrightarrow> server_log srv (db_sequence db) db = []"
  by (auto simp: server_log_sorted log_ok_def filter_empty_conv)

lemma sync_snapshot_in_sync:
  assumes "store_ok db" and "in_sync t db st" and "honest_snapshot db (gw_server st) t' r" and "t \<le> t'"
    and "sync_snapshot r now st = (st', err)"
  shows "in_sync t' db st'" and "gw_server st' = gw_server st"
    and "err = None \<Longrightarrow> \<exists>m. gw_sessions st' = Some m \<and> agree t' m (view (gw_server st) db)"
proof -
  have log: "log_ok db" using assms(1) by (simp add: store_ok_log)
  have later: "in_sync t' db st" using assms(2) agree_later [OF _ assms(4)] unfolding in_sync_def by blast
  have "in_sync t' db (invalidate st)" by (simp add: in_sync_def)
  then have "in_sync t' db st' \<and> gw_server st' = gw_server st \<and>
      (err = None \<longrightarrow> (\<exists>m. gw_sessions st' = Some m \<and> agree t' m (view (gw_server st) db)))"
    using assms(3,5) later snapshot_agree [OF assms(1), of t' "gw_server st"] server_log_now [OF log]
    by (auto simp: sync_snapshot_def honest_snapshot_def getJSON_Inr in_sync_def SessionSnapshot_def
        dest: getJSON_Inl split: prod.splits sum.splits if_splits)
  then show "in_sync t' db st'" "gw_server st' = gw_server st"
    "err = None \<Longrightarrow> \<exists>m. gw_sessions st' = Some m \<and> agree t' m (view (gw_server st) db)" by auto
qed

text \<open>The rest of the log after the last change of a page of \<open>n\<close> changes.\<close>

lemma server_log_page:
  assumes "log_ok db" and "0 < n" and "n < length (server_log srv after db)"
  shows "server_log srv (ch_sequence (last (take n (server_log srv after db)))) db =
      drop n (server_log srv after db)"
    and "after < ch_sequence (last (take n (server_log srv after db)))"
    and "ch_sequence (last (take n (server_log srv after db))) \<le> db_sequence db"
proof -
  let ?P = "\<lambda>e. lg_server_namespace e = sn_namespace srv \<and> lg_server_uid e = sn_uid srv"
  define xs where "xs = filter (\<lambda>e. ?P e \<and> after < lg_sequence e) (db_changes db)"
  have logs: "server_log srv k db = map lg_change (filter (\<lambda>e. ?P e \<and> k < lg_sequence e) (db_changes db))" for k
    by (simp add: server_log_sorted [OF assms(1)] conj_assoc)
  have tail: "server_log srv after db = map lg_change xs" by (simp add: logs xs_def)
  have len: "n < length xs" using assms(3) by (simp add: tail)
  let ?e = "xs ! (n - 1)"
  have e: "?e \<in> set xs" using len assms(2) by simp
  then have e': "after < lg_sequence ?e" "lg_sequence ?e \<le> db_sequence db" "ch_sequence (lg_change ?e) = lg_sequence ?e"
    using assms(1) by (auto simp: xs_def log_ok_def)
  have "take n xs \<noteq> []" using len assms(2) by (cases xs) auto
  then have "last (take n (map lg_change xs)) = lg_change ?e"
    using len assms(2) by (simp add: last_map take_map last_conv_nth min_def)
  then have last: "ch_sequence (last (take n (server_log srv after db))) = lg_sequence ?e"
    unfolding tail using e'(3) by simp
  have "sorted_wrt (<) (map lg_sequence xs)"
    using assms(1) by (simp add: xs_def log_ok_def sorted_wrt_filter_map)
  then have "drop n xs = filter (\<lambda>x. lg_sequence ?e < lg_sequence x) xs"
    by (rule sorted_after_take [OF _ len assms(2)])
  also have "\<dots> = filter (\<lambda>x. ?P x \<and> lg_sequence ?e < lg_sequence x) (db_changes db)"
    unfolding xs_def filter_filter using e'(1) by (intro filter_cong) (auto simp: xs_def)
  finally have "map lg_change (drop n xs) = server_log srv (lg_sequence ?e) db" by (simp add: logs)
  then show "server_log srv (ch_sequence (last (take n (server_log srv after db)))) db =
      drop n (server_log srv after db)" unfolding last by (simp add: tail drop_map)
  show "after < ch_sequence (last (take n (server_log srv after db)))"
    "ch_sequence (last (take n (server_log srv after db))) \<le> db_sequence db"
    unfolding last using e' by simp_all
qed

lemma fold_take_drop: "fold f (drop n l) (fold f (take n l) m) = fold f l m"
  by (metis append_take_drop_id comp_apply fold_append)

lemma ChangeLimit_pos: "0 < ChangeLimit"
  by (simp add: ChangeLimit_def)

lemma SessionChanges_Inr:
  assumes "SessionChanges srv epoch after db = Inr b"
  shows "epoch = db_epoch db \<and> db_floor db \<le> after \<and> after \<le> db_sequence db \<and> 0 \<le> after \<and>
     cs_epoch b = db_epoch db \<and>
     (if cs_more b
      then ChangeLimit < length (server_log srv after db) \<and> cs_changes b = take ChangeLimit (server_log srv after db) \<and>
           cs_sequence b = ch_sequence (last (cs_changes b))
      else cs_changes b = server_log srv after db \<and> cs_sequence b = db_sequence db)"
  using assms by (auto simp: SessionChanges_def Let_def split: if_splits)

lemma sync_changes_in_sync:
  assumes "store_ok db" and "in_sync t db st" and "gw_ok st" and "gw_epoch st \<noteq> ''''"
    and "honest_changes db (gw_server st) (gw_epoch st) (gw_sequence st) r" and "t \<le> t'"
    and "sync_changes (gw_epoch st) (gw_sequence st) r now st = Some (st', err)"
  shows "in_sync t' db st'" and "gw_server st' = gw_server st"
    and "err = None \<Longrightarrow> \<exists>m. gw_sessions st' = Some m \<and> agree t' m (view (gw_server st) db)"
proof -
  let ?srv = "gw_server st" and ?seq = "gw_sequence st"
  have log: "log_ok db" using assms(1) by (simp add: store_ok_log)
  have later: "in_sync t' db st" using assms(2) agree_later [OF _ assms(6)] unfolding in_sync_def by blast
  have gone: "in_sync t' db (invalidate x)" for x by (simp add: in_sync_def)
  have "in_sync t' db st' \<and> gw_server st' = ?srv \<and>
      (err = None \<longrightarrow> (\<exists>m. gw_sessions st' = Some m \<and> agree t' m (view ?srv db)))"
  proof (cases "\<exists>b m. r = Response 200 (Some b) \<and> \<not> (cs_epoch b \<noteq> gw_epoch st \<or> cs_sequence b < ?seq) \<and>
      check_changes ?srv (cs_sequence b) ?seq (cs_changes b) = None")
    case False
    then show ?thesis
      using assms(7) later gone
      by (auto simp: sync_changes_def getJSON_Inr dest: getJSON_Inl split: prod.splits sum.splits if_splits option.splits)
  next
    case True
    then obtain b where r: "r = Response 200 (Some b)" and valid: "cs_epoch b = gw_epoch st" "?seq \<le> cs_sequence b"
      and checked: "check_changes ?srv (cs_sequence b) ?seq (cs_changes b) = None" by auto
    have reply: "SessionChanges ?srv (gw_epoch st) ?seq db = Inr b"
      using assms(5) r by (simp add: honest_changes_def)
    note b = SessionChanges_Inr [OF reply]
    obtain m where m: "gw_sessions st = Some m"
      and agree: "agree t' (fold apply_change (server_log ?srv ?seq db) m) (view ?srv db)"
      using later assms(4) b by (auto simp: in_sync_def)
    have st': "st' = (let st1 = st\<lparr>gw_sessions := Some (fold apply_change (cs_changes b) m), gw_sequence := cs_sequence b\<rparr>
        in if cs_more b then st1 else st1\<lparr>gw_last_sync := now\<rparr>)"
      "err = (if cs_more b then Some SyncCatchingUp else None)"
      using assms(7) valid checked apply_page_replay [OF checked, of m]
      unfolding sync_changes_def r by (auto simp: getJSON_def m Let_def split: if_splits)
    show ?thesis
    proof (cases "cs_more b")
      case True
      let ?tail = "server_log ?srv ?seq db"
      have page: "cs_changes b = take ChangeLimit ?tail" "cs_sequence b = ch_sequence (last (take ChangeLimit ?tail))"
        "ChangeLimit < length ?tail" using b True by auto
      note rest = server_log_page [OF log ChangeLimit_pos page(3)]
      have replay: "fold apply_change (server_log ?srv (cs_sequence b) db) (fold apply_change (cs_changes b) m) =
          fold apply_change ?tail m"
        unfolding page(1,2) rest(1) by (rule fold_take_drop)
      have st1: "st' = st\<lparr>gw_sessions := Some (fold apply_change (cs_changes b) m), gw_sequence := cs_sequence b\<rparr>"
        and err: "err \<noteq> None" using st' True by (simp_all add: Let_def)
      have "0 \<le> cs_sequence b \<and> cs_sequence b \<le> db_sequence db" using rest(2,3) b unfolding page(2) by simp
      then have "in_sync t' db st'" using agree unfolding in_sync_def st1 by (simp add: replay)
      with st1 err show ?thesis by auto
    next
      case False
      then show ?thesis
        using st' agree b server_log_now [OF log, of ?srv] by (auto simp: in_sync_def Let_def)
    qed
  qed
  then show "in_sync t' db st'" "gw_server st' = gw_server st"
    "err = None \<Longrightarrow> \<exists>m. gw_sessions st' = Some m \<and> agree t' m (view (gw_server st) db)" by auto
qed

section \<open>The gateway against the store\<close>

text \<open>
  The polling goroutine and everything around it, as events of one world. A poll has three
  moments: it reads its cursor (\<open>Ask\<close>), the platform computes the reply from the store of that
  moment (\<open>Answer\<close>, at a time that never goes back; a failure of any kind is a reply too), and
  \<open>sync\<close> processes it (\<open>Finish\<close>). Between them the store changes, and request goroutines look up
  single sessions: a \<open>Lookup\<close> is the part of \<open>binding\<close> that can write, \<open>getJSON\<close> with its
  \<open>invalidate\<close>. A poll that panics ends the process, and the next one starts without a replica.
\<close>

definition sync_cursor :: "gateway_sync \<Rightarrow> gostring \<times> int" where
  "sync_cursor st = (gw_epoch st, gw_sequence st)"

definition sync_reply ::
  "gostring \<Rightarrow> int \<Rightarrow> session_snapshot reply \<Rightarrow> session_changes reply \<Rightarrow> time \<Rightarrow> gateway_sync
    \<Rightarrow> (gateway_sync \<times> sync_error option) option" where
  "sync_reply epoch sequence snap changes now st =
     (if epoch = '''' then Some (sync_snapshot snap now st) else sync_changes epoch sequence changes now st)"

text \<open>\<open>sync\<close> is the two halves with nothing in between.\<close>

lemma sync_halves:
  "sync snap changes now st =
     (case sync_cursor st of (epoch, sequence) \<Rightarrow> sync_reply epoch sequence snap (changes sequence epoch) now st)"
  by (simp add: sync_def sync_reply_def sync_cursor_def)

definition restarted :: "gateway_sync \<Rightarrow> gateway_sync" where
  "restarted st = (invalidate st)\<lparr>gw_sequence := 0\<rparr>"

datatype poll_state =
    NoPoll
  | Asked gostring int
  | Answered gostring int "session_snapshot reply" "session_changes reply"

record sync_world =
  wo_db :: session_db
  wo_gateway :: gateway_sync
  wo_poll :: poll_state
  wo_time :: time

datatype world_event =
    Store store_event
  | Ask
  | Answer time "session_snapshot reply" "session_changes reply"
  | Finish time
  | Lookup "session_row reply"

text \<open>The epochs the gateway holds or is about to hold: a store that restarts draws another one.\<close>

fun reply_epochs :: "poll_state \<Rightarrow> gostring list" where
  "reply_epochs (Answered epoch sequence (Response status (Some snap)) changes) = [sp_epoch snap]"
| "reply_epochs p = []"

definition fresh_epoch :: "sync_world \<Rightarrow> store_event \<Rightarrow> bool" where
  "fresh_epoch w e =
     (case e of EvRestart ep \<Rightarrow> ep \<noteq> gw_epoch (wo_gateway w) \<and> ep \<notin> set (reply_epochs (wo_poll w)) | _ \<Rightarrow> True)"

fun world_allowed :: "world_event \<Rightarrow> sync_world \<Rightarrow> bool" where
  "world_allowed (Store e) w = fresh_epoch w e"
| "world_allowed Ask w = (wo_poll w = NoPoll)"
| "world_allowed (Answer t snap changes) w =
     (case wo_poll w of
        Asked epoch sequence \<Rightarrow>
          wo_time w \<le> t \<and> honest_snapshot (wo_db w) (gw_server (wo_gateway w)) t snap \<and>
          honest_changes (wo_db w) (gw_server (wo_gateway w)) epoch sequence changes
      | _ \<Rightarrow> False)"
| "world_allowed (Finish now) w = (case wo_poll w of Answered _ _ _ _ \<Rightarrow> True | _ \<Rightarrow> False)"
| "world_allowed (Lookup r) w = True"

fun world_step :: "world_event \<Rightarrow> sync_world \<Rightarrow> sync_world" where
  "world_step (Store e) w = w\<lparr>wo_db := store_step e (wo_db w)\<rparr>"
| "world_step Ask w =
     (case sync_cursor (wo_gateway w) of (epoch, sequence) \<Rightarrow> w\<lparr>wo_poll := Asked epoch sequence\<rparr>)"
| "world_step (Answer t snap changes) w =
     (case wo_poll w of
        Asked epoch sequence \<Rightarrow> w\<lparr>wo_poll := Answered epoch sequence snap changes, wo_time := t\<rparr>
      | _ \<Rightarrow> w)"
| "world_step (Finish now) w =
     (case wo_poll w of
        Answered epoch sequence snap changes \<Rightarrow>
          (case sync_reply epoch sequence snap changes now (wo_gateway w) of
             None \<Rightarrow> w\<lparr>wo_gateway := restarted (wo_gateway w), wo_poll := NoPoll\<rparr>
           | Some (st, _) \<Rightarrow> w\<lparr>wo_gateway := st, wo_poll := NoPoll\<rparr>)
      | _ \<Rightarrow> w)"
| "world_step (Lookup r) w = w\<lparr>wo_gateway := snd (getJSON r (wo_gateway w))\<rparr>"

definition world_run :: "world_event list \<Rightarrow> sync_world \<Rightarrow> sync_world" where
  "world_run es w = fold (\<lambda>e w. if world_allowed e w then world_step e w else w) es w"

text \<open>A pending poll's cursor is the replica's, unless the replica was dropped; and once the reply
  is there, processing it leaves a replica in sync with the store as it is now.\<close>

definition cursor_ok :: "gateway_sync \<Rightarrow> gostring \<Rightarrow> int \<Rightarrow> bool" where
  "cursor_ok st epoch sequence \<longleftrightarrow> gw_epoch st = '''' \<or> sync_cursor st = (epoch, sequence)"

fun poll_ok :: "time \<Rightarrow> session_db \<Rightarrow> gateway_sync \<Rightarrow> poll_state \<Rightarrow> bool" where
  "poll_ok t db st NoPoll = True"
| "poll_ok t db st (Asked epoch sequence) = cursor_ok st epoch sequence"
| "poll_ok t db st (Answered epoch sequence snap changes) =
     (cursor_ok st epoch sequence \<and>
      (\<forall>now st' err. sync_reply epoch sequence snap changes now st = Some (st', err) \<longrightarrow> in_sync t db st'))"

definition world_ok :: "sync_world \<Rightarrow> bool" where
  "world_ok w \<longleftrightarrow>
     store_ok (wo_db w) \<and> gw_ok (wo_gateway w) \<and> in_sync (wo_time w) (wo_db w) (wo_gateway w) \<and>
     poll_ok (wo_time w) (wo_db w) (wo_gateway w) (wo_poll w)"

lemma restarted_sel [simp]:
  "gw_epoch (restarted st) = ''''" "gw_sessions (restarted st) = None" "gw_server (restarted st) = gw_server st"
  by (simp_all add: restarted_def)

lemma apply_page_None: "apply_page cs None = Some m \<Longrightarrow> m = None"
  by (induction cs) (auto split: if_splits)

lemma sync_changes_kept:
  assumes "sync_changes epoch sequence r now st = Some (st', err)" and "gw_ok st"
  shows "gw_ok st'" "gw_epoch st' = gw_epoch st \<or> gw_epoch st' = ''''"
proof -
  have "gw_ok st' \<and> (gw_epoch st' = gw_epoch st \<or> gw_epoch st' = '''')"
  proof (cases "gw_sessions st")
    case None
    then show ?thesis
      using assms by (auto simp: sync_changes_def getJSON_Inr gw_ok_def Let_def
          dest: getJSON_Inl apply_page_None split: prod.splits sum.splits if_splits option.splits)
  next
    case (Some m)
    then show ?thesis
      using assms by (auto simp: sync_changes_def getJSON_Inr gw_ok_def Let_def
          dest: getJSON_Inl apply_page_keeps split: prod.splits sum.splits if_splits option.splits)
  qed
  then show "gw_ok st'" "gw_epoch st' = gw_epoch st \<or> gw_epoch st' = ''''" by auto
qed

lemma sync_snapshot_kept:
  assumes "sync_snapshot r now st = (st', err)" and "gw_ok st"
  shows "gw_ok st'"
  using assms by (auto simp: sync_snapshot_def getJSON_Inr gw_ok_def
      dest: getJSON_Inl split: prod.splits sum.splits if_splits)

lemma sync_reply_gw_ok:
  "sync_reply epoch sequence snap changes now st = Some (st', err) \<Longrightarrow> gw_ok st \<Longrightarrow> gw_ok st'"
  by (auto simp: sync_reply_def split: if_splits dest: sync_snapshot_kept sync_changes_kept)

text \<open>Where a processed reply can leave the cursor.\<close>

lemma sync_reply_epoch:
  assumes "sync_reply epoch sequence snap changes now st = Some (st', err)" and "gw_ok st"
  shows "gw_epoch st' \<in> {'''', gw_epoch st} \<union> set (reply_epochs (Answered epoch sequence snap changes))"
proof (cases "epoch = ''''")
  case True
  then have run: "sync_snapshot snap now st = (st', err)" using assms(1) by (simp add: sync_reply_def)
  show ?thesis
  proof (cases "\<exists>b. snap = Response 200 (Some b)")
    case True
    then show ?thesis using run by (auto simp: sync_snapshot_def getJSON_def split: if_splits)
  next
    case False
    then have "st' = st \<or> st' = invalidate st"
      using run by (auto simp: sync_snapshot_def getJSON_Inr dest: getJSON_Inl split: prod.splits sum.splits)
    then show ?thesis by auto
  qed
next
  case False
  then have "sync_changes epoch sequence changes now st = Some (st', err)"
    using assms(1) by (simp add: sync_reply_def)
  from sync_changes_kept(2) [OF this assms(2)] show ?thesis by auto
qed

lemma in_sync_later: "in_sync t db st \<Longrightarrow> t \<le> t' \<Longrightarrow> in_sync t' db st"
  unfolding in_sync_def by (metis agree_later)

lemma in_sync_dropped: "gw_epoch st = '''' \<Longrightarrow> in_sync t db st"
  by (simp add: in_sync_def)

lemma getJSON_state: "snd (getJSON r st) = st \<or> snd (getJSON r st) = invalidate st"
  by (auto simp: getJSON_def split: reply.splits option.splits)

text \<open>What an honest reply leaves, for a replica that is where the poll found it or was dropped.\<close>

lemma sync_reply_in_sync:
  assumes "store_ok db" and "in_sync t db st" and "gw_ok st" and "cursor_ok st epoch sequence" and "t \<le> t'"
    and "honest_snapshot db (gw_server st) t' snap" and "honest_changes db (gw_server st) epoch sequence changes"
    and "sync_reply epoch sequence snap changes now st = Some (st', err)"
  shows "in_sync t' db st'"
    and "err = None \<Longrightarrow> epoch = '''' \<or> gw_epoch st \<noteq> '''' \<Longrightarrow>
      \<exists>m. gw_sessions st' = Some m \<and> agree t' m (view (gw_server st) db)"
proof -
  have "in_sync t' db st' \<and> (err = None \<longrightarrow> epoch = '''' \<or> gw_epoch st \<noteq> '''' \<longrightarrow>
      (\<exists>m. gw_sessions st' = Some m \<and> agree t' m (view (gw_server st) db)))"
  proof (cases "epoch = ''''")
    case True
    then have run: "sync_snapshot snap now st = (st', err)" using assms(8) by (simp add: sync_reply_def)
    show ?thesis using sync_snapshot_in_sync [OF assms(1,2,6,5) run] by blast
  next
    case False
    then have run: "sync_changes epoch sequence changes now st = Some (st', err)"
      using assms(8) by (simp add: sync_reply_def)
    show ?thesis
    proof (cases "gw_epoch st = ''''")
      case True
      then have "gw_epoch st' = ''''" using sync_changes_kept(2) [OF run assms(3)] by simp
      with True False show ?thesis by (simp add: in_sync_dropped)
    next
      case kept: False
      then have cursor: "epoch = gw_epoch st" "sequence = gw_sequence st"
        using assms(4) by (simp_all add: cursor_ok_def sync_cursor_def)
      show ?thesis
        using sync_changes_in_sync [OF assms(1,2,3) kept assms(7) [unfolded cursor] assms(5) run [unfolded cursor]]
        by blast
    qed
  qed
  then show "in_sync t' db st'" "err = None \<Longrightarrow> epoch = '''' \<or> gw_epoch st \<noteq> '''' \<Longrightarrow>
      \<exists>m. gw_sessions st' = Some m \<and> agree t' m (view (gw_server st) db)" by auto
qed

text \<open>A lookup in between only ever drops the replica.\<close>

lemma sync_reply_dropped:
  assumes "sync_reply epoch sequence snap changes now (invalidate st) = Some (st', err)"
    and "poll_ok t db st (Answered epoch sequence snap changes)"
  shows "in_sync t db st'"
proof (cases "epoch = ''''")
  case False
  then show ?thesis
    using assms(1) sync_changes_kept(2) [of epoch sequence changes now "invalidate st" st' err]
    by (auto simp: sync_reply_def intro: in_sync_dropped)
next
  case True
  then have run: "sync_snapshot snap now (invalidate st) = (st', err)" using assms(1) by (simp add: sync_reply_def)
  obtain st1 err1 where run1: "sync_snapshot snap now st = (st1, err1)" by force
  have sync1: "in_sync t db st1" using assms(2) True run1 by (auto simp: sync_reply_def)
  show ?thesis
  proof (cases "err = None")
    case True
    then have "gw_sessions st' = gw_sessions st1 \<and> gw_epoch st' = gw_epoch st1 \<and> gw_sequence st' = gw_sequence st1 \<and>
        gw_server st' = gw_server st1"
      using run run1 by (auto simp: sync_snapshot_def getJSON_def split: reply.splits if_splits option.splits)
    with sync1 show ?thesis by (simp add: in_sync_def)
  next
    case False
    then have "gw_epoch st' = ''''"
      using run by (auto simp: sync_snapshot_def getJSON_Inr dest!: getJSON_Inl split: prod.splits sum.splits if_splits)
    then show ?thesis by (rule in_sync_dropped)
  qed
qed

lemma store_step_world_ok:
  assumes "world_ok w" and "fresh_epoch w e"
  shows "world_ok (w\<lparr>wo_db := store_step e (wo_db w)\<rparr>)"
proof -
  let ?db = "store_step e (wo_db w)" and ?st = "wo_gateway w"
  have ok: "store_ok (wo_db w)" "gw_ok ?st" "in_sync (wo_time w) (wo_db w) ?st"
    "poll_ok (wo_time w) (wo_db w) ?st (wo_poll w)" using assms(1) by (simp_all add: world_ok_def)
  have gw: "fresh_restart ?st e" using assms(2) by (auto simp: fresh_restart_def fresh_epoch_def split: store_event.splits)
  have "poll_ok (wo_time w) ?db ?st (wo_poll w)"
  proof (cases "wo_poll w")
    case (Answered epoch sequence snap changes)
    have "in_sync (wo_time w) ?db st'"
      if run: "sync_reply epoch sequence snap changes now ?st = Some (st', err)" for now st' err
    proof (cases "gw_epoch st' = ''''")
      case False
      then have "fresh_restart st' e"
        using sync_reply_epoch [OF run ok(2)] assms(2) Answered
        by (auto simp: fresh_restart_def fresh_epoch_def split: store_event.splits)
      moreover have "in_sync (wo_time w) (wo_db w) st'" using ok(4) Answered run by auto
      ultimately show ?thesis using step_in_sync [OF ok(1)] by blast
    qed (rule in_sync_dropped)
    then show ?thesis using ok(4) Answered by auto
  qed (use ok(4) in auto)
  with ok step_store_ok step_in_sync [OF ok(1,3) gw] show ?thesis by (simp add: world_ok_def)
qed

lemma lookup_world_ok:
  assumes "world_ok w"
  shows "world_ok (w\<lparr>wo_gateway := snd (getJSON r (wo_gateway w))\<rparr>)"
proof -
  consider "snd (getJSON r (wo_gateway w)) = wo_gateway w" | "snd (getJSON r (wo_gateway w)) = invalidate (wo_gateway w)"
    using getJSON_state by blast
  then show ?thesis
  proof cases
    case 2
    have "poll_ok (wo_time w) (wo_db w) (invalidate (wo_gateway w)) (wo_poll w)"
      using assms sync_reply_dropped
      by (cases "wo_poll w") (auto simp: world_ok_def cursor_ok_def simp del: poll_ok.simps(3) simp add: poll_ok.simps(3) [of _ _ "invalidate (wo_gateway w)"])
    with 2 assms show ?thesis by (simp add: world_ok_def in_sync_dropped)
  qed (use assms in simp)
qed

lemma finish_world_ok:
  assumes "world_ok w"
  shows "world_ok (world_step (Finish now) w)"
proof (cases "wo_poll w")
  case (Answered epoch sequence snap changes)
  show ?thesis
  proof (cases "sync_reply epoch sequence snap changes now (wo_gateway w)")
    case None
    then show ?thesis using Answered assms by (simp add: world_ok_def in_sync_dropped gw_ok_def)
  next
    case (Some p)
    obtain st' err where p: "p = (st', err)" by (cases p)
    have "in_sync (wo_time w) (wo_db w) st'" "gw_ok st'"
      using assms Answered sync_reply_gw_ok [OF Some [unfolded p]] Some p by (auto simp: world_ok_def)
    with Answered Some p assms show ?thesis by (simp add: world_ok_def)
  qed
qed (use assms in simp_all)

lemma world_step_ok:
  assumes "world_ok w" and "world_allowed e w"
  shows "world_ok (world_step e w)"
proof (cases e)
  case Ask
  then show ?thesis using assms by (simp add: world_ok_def sync_cursor_def cursor_ok_def)
next
  case (Answer t snap changes)
  then obtain epoch sequence where a: "wo_poll w = Asked epoch sequence" "wo_time w \<le> t"
    "honest_snapshot (wo_db w) (gw_server (wo_gateway w)) t snap"
    "honest_changes (wo_db w) (gw_server (wo_gateway w)) epoch sequence changes"
    using assms(2) by (auto split: poll_state.splits)
  then show ?thesis
    using assms(1) Answer sync_reply_in_sync(1) [OF _ _ _ _ a(2-4)] in_sync_later [OF _ a(2)]
    by (simp add: world_ok_def)
qed (use assms store_step_world_ok lookup_world_ok finish_world_ok in simp_all)

interpretation world_machine: step_machine "\<lambda>e w. if world_allowed e w then world_step e w else w" world_ok
  using world_step_ok by unfold_locales auto

text \<open>Until a pending reply is processed, the replica stays as it was or is dropped.\<close>

fun finishes :: "world_event \<Rightarrow> bool" where
  "finishes (Finish now) = True"
| "finishes e = False"

lemma invalidate_idem [simp]: "invalidate (invalidate st) = invalidate st"
  by (simp add: invalidate_def)

lemma pending_run:
  assumes "wo_poll w = Answered epoch sequence snap changes" and "\<forall>e \<in> set es. \<not> finishes e"
  shows "wo_poll (world_run es w) = Answered epoch sequence snap changes \<and>
    wo_gateway (world_run es w) \<in> {wo_gateway w, invalidate (wo_gateway w)}"
  using assms
proof (induction es arbitrary: w)
  case Nil
  then show ?case by (simp add: world_run_def)
next
  case (Cons e es)
  let ?w = "if world_allowed e w then world_step e w else w"
  have "wo_poll ?w = wo_poll w \<and> wo_gateway ?w \<in> {wo_gateway w, invalidate (wo_gateway w)}"
    using Cons.prems getJSON_state by (cases e) auto
  with Cons.IH [of ?w] Cons.prems show ?case by (auto simp: world_run_def)
qed

text \<open>C9: the replica refines the store. Whatever store operations, polls, rejected lookups and crashes
  came before, and whatever the store and the lookups do while a poll is under way: when the poll
  completes without an error, the gateway holds exactly the unrevoked sessions of its server in
  the store that answered, up to rows that have expired, so that every session revoked or deleted
  before the answer is gone from the gateway; or a lookup rejected in the meantime dropped the
  replica under the poll, and then the gateway holds no session at all and no epoch, so that the
  next poll fetches a snapshot.\<close>

theorem completed_poll_matches_store:
  assumes "world_ok w0" and "w1 = world_run es w0"
    and "wo_poll w1 = Asked epoch sequence" and "world_allowed (Answer t snap changes) w1"
    and "w2 = world_run later (world_step (Answer t snap changes) w1)" and "\<forall>e \<in> set later. \<not> finishes e"
    and "sync_reply epoch sequence snap changes now (wo_gateway w2) = Some (st', None)"
  shows "wo_gateway (world_step (Finish now) w2) = st' \<and>
    ((\<exists>m. gw_sessions st' = Some m \<and> agree t m (view (gw_server (wo_gateway w1)) (wo_db w1)) \<and>
        (\<forall>key r. m key = Some r \<longrightarrow> r \<in> set (db_sessions (wo_db w1)) \<and> \<not> bd_revoked (se_binding r)))
     \<or> epoch \<noteq> '''' \<and> gw_epoch (wo_gateway w2) = '''' \<and> gw_sessions st' = None \<and> gw_epoch st' = '''')"
proof -
  let ?st = "wo_gateway w2" and ?db = "wo_db w1" and ?srv = "gw_server (wo_gateway w1)"
  have ok: "world_ok w1" unfolding assms(2) world_run_def by (rule world_machine.run_inv [OF assms(1)])
  have later: "wo_poll w2 = Answered epoch sequence snap changes" "?st \<in> {wo_gateway w1, invalidate (wo_gateway w1)}"
    using pending_run [OF _ assms(6), of "world_step (Answer t snap changes) w1"] assms(3,5) by auto
  have st: "store_ok ?db" "in_sync (wo_time w1) ?db ?st" "gw_ok ?st" "cursor_ok ?st epoch sequence" "gw_server ?st = ?srv"
    using ok later(2) assms(3) by (auto simp: world_ok_def in_sync_dropped cursor_ok_def)
  have answer: "wo_time w1 \<le> t" "honest_snapshot ?db (gw_server ?st) t snap"
    "honest_changes ?db (gw_server ?st) epoch sequence changes"
    using assms(3,4) st(5) by simp_all
  have finish: "wo_gateway (world_step (Finish now) w2) = st'" by (simp add: later(1) assms(7))
  show ?thesis
  proof (cases "epoch = '''' \<or> gw_epoch ?st \<noteq> ''''")
    case True
    then obtain m where m: "gw_sessions st' = Some m" "agree t m (view ?srv ?db)"
      using sync_reply_in_sync(2) [OF st(1-4) answer assms(7)] st(5) by auto
    have "r \<in> set (db_sessions ?db) \<and> \<not> bd_revoked (se_binding r)" if "m key = Some r" for key r
    proof -
      have "view ?srv ?db key = Some r" using m(2) that unfolding agree_def by (metis option.distinct(1))
      then show ?thesis by (simp add: view_iff [OF st(1)])
    qed
    with m finish show ?thesis by blast
  next
    case False
    then have "sync_changes epoch sequence changes now ?st = Some (st', None)"
      using assms(7) by (simp add: sync_reply_def)
    with False finish sync_changes_kept [OF this st(3)] show ?thesis by (simp add: gw_ok_def)
  qed
qed

text \<open>a poll never panics as long as nothing else touches the replica in between.\<close>

theorem sync_never_panics:
  assumes "gw_ok st"
  shows "sync snap changes now st \<noteq> None"
proof (cases "gw_epoch st = ''''")
  case False
  then obtain m where m: "gw_sessions st = Some m" using assms by (auto simp: gw_ok_def)
  show ?thesis
    using False m
    by (auto simp: sync_def sync_changes_def getJSON_Inr Let_def dest: apply_page_Some [where m = m]
        split: prod.splits sum.splits option.splits)
qed (simp add: sync_def)

definition sample_server :: server_ident where
  "sample_server = \<lparr>sn_namespace = ''ns'', sn_name = ''srv'', sn_uid = ''u1''\<rparr>"

definition new_gateway :: gateway_sync where
  "new_gateway = \<lparr>gw_server = sample_server, gw_epoch = '''', gw_sequence = 0, gw_sessions = None,
     gw_last_sync = 0, gw_stale_window = 600 * second\<rparr>"

definition stored_row :: "gostring \<Rightarrow> session_row" where
  "stored_row name = \<lparr>se_id = ''ns/'' @ name, se_uid = ''i'', se_namespace = ''ns'', se_server_namespace = ''ns'',
     se_server_name = ''srv'', se_server_uid = ''u1'', se_grant_namespace = '''', se_grant_name = '''',
     se_authority_team = '''', se_binding = binding_zero\<lparr>bd_name := name, bd_namespace := ''ns'', bd_human_id := ''alice''\<rparr>,
     se_created_at = 3, se_revoked_at = None, se_revocation_cause = '''', se_labels = [],
     se_annotations = []\<rparr>"

definition start_db :: session_db where
  "start_db = \<lparr>db_epoch = ''e0'', db_sequence = 0, db_floor = 0, db_sessions = [], db_changes = [],
     db_retired = [], db_deleted = [], db_agents = Map.empty, db_deleted_users = []\<rparr>"

definition start_world :: sync_world where
  "start_world = \<lparr>wo_db = start_db, wo_gateway = new_gateway, wo_poll = NoPoll, wo_time = 0\<rparr>"

lemma start_world_ok: "world_ok start_world"
  by (simp add: world_ok_def start_world_def new_gateway_def start_db_def gw_ok_def in_sync_def store_ok_def)

definition stored_db :: session_db where
  "stored_db = store_step (EvPut (stored_row ''s1'') 3 ''i'') start_db"

text \<open>A snapshot answered while a lookup of an unknown session is rejected.\<close>

theorem completed_poll_matches_store_instance:
  "\<exists>m. gw_sessions (fst (sync_snapshot (Response 200 (Some (SessionSnapshot sample_server 9 stored_db))) 9
          (invalidate new_gateway))) = Some m \<and>
     agree 9 m (view sample_server stored_db) \<and> (\<forall>key r. m key = Some r \<longrightarrow> \<not> bd_revoked (se_binding r))"
proof -
  let ?snap = "Response 200 (Some (SessionSnapshot sample_server 9 stored_db))"
  let ?es = "[Store (EvPut (stored_row ''s1'') 3 ''i''), Ask]"
  let ?w1 = "start_world\<lparr>wo_db := stored_db, wo_poll := Asked '''' 0\<rparr>"
  let ?w2 = "world_run [Lookup (Response 401 None)] (world_step (Answer 9 ?snap NoCredential) ?w1)"
  have w1: "?w1 = world_run ?es start_world"
    by (simp add: world_run_def start_world_def fresh_epoch_def sync_cursor_def new_gateway_def stored_db_def)
  have allowed: "world_allowed (Answer 9 ?snap NoCredential) ?w1"
    by (simp add: honest_snapshot_def honest_changes_def start_world_def new_gateway_def)
  have gw: "wo_gateway ?w2 = invalidate new_gateway"
    by (simp add: world_run_def getJSON_def start_world_def)
  have none: "snd (sync_snapshot ?snap 9 (invalidate new_gateway)) = None" by code_simp
  have "sync_reply '''' 0 ?snap NoCredential 9 (wo_gateway ?w2) =
      Some (fst (sync_snapshot ?snap 9 (invalidate new_gateway)), None)"
    unfolding gw using none by (simp add: sync_reply_def prod_eq_iff)
  from completed_poll_matches_store [OF start_world_ok w1 _ allowed refl _ this] show ?thesis
    by (auto simp: start_world_def new_gateway_def)
qed

theorem sync_never_panics_instance:
  "sync NoCredential (\<lambda>_ _. Response 410 None) 9 (new_gateway\<lparr>gw_epoch := ''e0'', gw_sessions := Some Map.empty\<rparr>) \<noteq> None"
  by (rule sync_never_panics) (simp add: gw_ok_def)

text \<open>An upsert panics on a nil map, and only there, wherever it stands in a page.\<close>

lemma apply_page_nil:
  "apply_page cs None = None \<longleftrightarrow> (\<exists>c \<in> set cs. ch_operation c \<noteq> ''delete'')"
  by (induction cs) auto

text \<open>C37: a lookup that the platform rejects (401 or 403) while a poll waits for its reply drops the
  replica under the poll. For every replica and every page of changes: if the page passes all the
  gateway's checks, so that the poll alone would have applied it, the poll then panics by assigning into a
  nil map exactly when the page has an upsert.\<close>

theorem rejected_lookup_panics_poll:
  assumes "gw_ok st" and "gw_epoch st \<noteq> ''''" and "fresh at (Some st)"
    and "Option.bind (gw_sessions st) (\<lambda>m. m (session_key ns name)) = None" and "status \<in> {401, 403}"
    and "cs_epoch page = gw_epoch st" and "gw_sequence st \<le> cs_sequence page"
    and "check_changes (gw_server st) (cs_sequence page) (gw_sequence st) (cs_changes page) = None"
  shows "(let ((_, reason), after) = session_binding ns name (Response status body) at (Some st);
              poll = sync_reply (gw_epoch st) (gw_sequence st) snap (Response 200 (Some page)) now
     in reason = ''policy_unavailable'' \<and> poll st \<noteq> None \<and>
        (\<exists>dropped. after = Some dropped \<and>
           (poll dropped = None \<longleftrightarrow> (\<exists>c \<in> set (cs_changes page). ch_operation c = ''upsert''))))"
proof -
  let ?poll = "sync_reply (gw_epoch st) (gw_sequence st) snap (Response 200 (Some page)) now"
  have lookup: "session_binding ns name (Response status body) at (Some st) =
      ((None, ''policy_unavailable''), Some (invalidate st))"
    using assms(3,4,5) by (auto simp: session_binding_def getJSON_def)
  have poll: "?poll x = map_option (\<lambda>m. let st1 = x\<lparr>gw_sessions := m, gw_sequence := cs_sequence page\<rparr>
        in if cs_more page then (st1, Some SyncCatchingUp) else (st1\<lparr>gw_last_sync := now\<rparr>, None))
      (apply_page (cs_changes page) (gw_sessions x))"
    if "gw_server x = gw_server st" for x
    using assms(2,6-8) that
    by (simp add: sync_reply_def sync_changes_def getJSON_def Let_def split: option.split)
  obtain m where "gw_sessions st = Some m" using assms(1,2) by (auto simp: gw_ok_def)
  then have kept: "?poll st \<noteq> None" using apply_page_Some [OF assms(8)] by (simp add: poll)
  have ops: "check_changes srv limit prev cs = None \<Longrightarrow> c \<in> set cs \<Longrightarrow>
      (ch_operation c \<noteq> ''delete'') = (ch_operation c = ''upsert'')" for srv limit prev cs c
    by (induction cs arbitrary: prev) (auto split: if_splits)
  have "?poll (invalidate st) = None \<longleftrightarrow> (\<exists>c \<in> set (cs_changes page). ch_operation c = ''upsert'')"
    using apply_page_nil ops [OF assms(8)] by (simp add: poll cong: bex_cong)
  with lookup kept show ?thesis by simp
qed

theorem rejected_lookup_panics_poll_instance:
  "\<exists>page. SessionChanges sample_server ''e0'' 0 stored_db = Inr page \<and>
     (let st = new_gateway\<lparr>gw_epoch := ''e0'', gw_sessions := Some Map.empty, gw_last_sync := 5\<rparr>;
          poll = sync_reply ''e0'' 0 NoCredential (Response 200 (Some page)) 7
      in poll st \<noteq> None \<and> poll (invalidate st) = None)"
proof -
  let ?st = "new_gateway\<lparr>gw_epoch := ''e0'', gw_sessions := Some Map.empty, gw_last_sync := 5\<rparr>"
  define page where "page = (case SessionChanges sample_server ''e0'' 0 stored_db of Inr p \<Rightarrow> p
    | Inl _ \<Rightarrow> \<lparr>cs_epoch = '''', cs_sequence = 0, cs_changes = [], cs_more = False\<rparr>)"
  have page: "\<not> isl (SessionChanges sample_server ''e0'' 0 stored_db)" "cs_epoch page = ''e0''" "0 \<le> cs_sequence page"
    "check_changes sample_server (cs_sequence page) 0 (cs_changes page) = None"
    "list_ex (\<lambda>c. ch_operation c = ''upsert'') (cs_changes page)"
    unfolding page_def by code_simp+
  have inr: "SessionChanges sample_server ''e0'' 0 stored_db = Inr page"
    using page(1) by (auto simp: page_def split: sum.splits)
  have st: "gw_ok ?st" "gw_epoch ?st \<noteq> ''''" "fresh 6 (Some ?st)" "gw_server ?st = sample_server"
    "Option.bind (gw_sessions ?st) (\<lambda>m. m (session_key ''ns'' ''s1'')) = None" "gw_sequence ?st = 0" "gw_epoch ?st = ''e0''"
    by (simp_all add: gw_ok_def fresh_def new_gateway_def second_def)
  have lookup: "session_binding ''ns'' ''s1'' (Response 401 None) 6 (Some ?st) =
      ((None, ''policy_unavailable''), Some (invalidate ?st))"
    using st(3,5) by (simp add: session_binding_def getJSON_def)
  from rejected_lookup_panics_poll [OF st(1-3,5), of 401 page None NoCredential 7] page(2-5) st(4,6,7) inr lookup
  show ?thesis by (auto simp: Let_def list_ex_iff)
qed

section \<open>Polling\<close>

definition backoff_ok :: "int \<Rightarrow> bool" where
  "backoff_ok b \<longleftrightarrow> poll_interval \<le> b \<and> b < 20 * second"

lemma run_delay_ok: "backoff_ok b \<Longrightarrow> backoff_ok (snd (run_delay err b jitter))"
  by (auto simp: run_delay_def backoff_ok_def poll_interval_def second_def split: option.splits sync_error.splits)

interpretation backoff_machine: step_machine "\<lambda>(err, jitter) b. snd (run_delay err b jitter)" backoff_ok
  by unfold_locales (auto intro: run_delay_ok)

text \<open>The poller never stops asking for long: whatever results the polls had, the next poll comes
  within 25 seconds, and no sooner than half a second unless the store said there is more.\<close>

theorem poll_delay_bounds:
  assumes "0 \<le> jitter" and "4 * jitter \<le> fold (\<lambda>(err, jitter) b. snd (run_delay err b jitter)) history poll_interval"
  shows "(let delay = fst (run_delay err (fold (\<lambda>(err, jitter) b. snd (run_delay err b jitter)) history poll_interval) jitter)
     in delay \<le> 25 * second \<and> (err \<noteq> Some SyncCatchingUp \<longrightarrow> poll_interval \<le> delay))"
proof -
  have "backoff_ok (fold (\<lambda>(err, jitter) b. snd (run_delay err b jitter)) history poll_interval)"
    by (rule backoff_machine.run_inv) (simp add: backoff_ok_def poll_interval_def second_def)
  then show ?thesis
    using assms by (auto simp: run_delay_def backoff_ok_def poll_interval_def second_def Let_def
        split: option.splits sync_error.splits)
qed

theorem poll_delay_bounds_instance:
  "(let delay = fst (run_delay (Some SyncTransport)
          (fold (\<lambda>(err, jitter) b. snd (run_delay err b jitter)) [] poll_interval) 7)
    in delay \<le> 25 * second \<and> poll_interval \<le> delay)"
  using poll_delay_bounds [of 7 "[]" "Some SyncTransport"] by (simp add: poll_interval_def second_def Let_def)

end
