(* ===== verification/Breaker.thy ===== *)
theory Breaker
  imports GoTime "HOL-Library.Word"
begin

text \<open>
  The gateway's upstream transport (\<open>services/mcp-gateway/upstream_resilience.go\<close>): the circuit
  breaker, the two permit budgets and the life of one forwarded call. The breaker's generation
  keeps its width, so it wraps. A forwarded call is a record in a list, its position being its
  identity; one event is one critical section of the code, so that any interleaving of
  concurrent calls is a list of events.
\<close>

section \<open>The circuit breaker\<close>

record breaker_lease =
  le_generation :: "64 word"
  le_probe :: bool

record upstream_breaker =
  br_failures :: int
  br_threshold :: int
  br_cooldown :: int
  br_open_until :: time
  br_probing :: bool
  br_generation :: "64 word"

definition acquire :: "time \<Rightarrow> upstream_breaker \<Rightarrow> breaker_lease option \<times> upstream_breaker" where
  "acquire now b =
     (if br_open_until b \<noteq> zero_time then
        if now < br_open_until b \<or> br_probing b then (None, b)
        else (Some \<lparr>le_generation = br_generation b, le_probe = True\<rparr>, b\<lparr>br_probing := True\<rparr>)
      else (Some \<lparr>le_generation = br_generation b, le_probe = False\<rparr>, b))"

text \<open>The outcome is -1 for a failure, 0 for a cancellation, 1 for a success.\<close>

definition complete :: "breaker_lease \<Rightarrow> int \<Rightarrow> time \<Rightarrow> upstream_breaker \<Rightarrow> upstream_breaker" where
  "complete lease outcome now b =
     (if le_generation lease \<noteq> br_generation b then b
      else if le_probe lease then
        (let b1 = b\<lparr>br_probing := False, br_generation := br_generation b + 1\<rparr>
         in if outcome = 1 then b1\<lparr>br_open_until := zero_time, br_failures := 0\<rparr>
            else b1\<lparr>br_open_until := now + br_cooldown b\<rparr>)
      else if br_open_until b \<noteq> zero_time then b
      else
        (let b1 = (if outcome = 1 then b\<lparr>br_failures := 0\<rparr> else b)
         in if outcome = -1 then
              (let b2 = b1\<lparr>br_failures := br_failures b1 + 1\<rparr>
               in if br_threshold b2 \<le> br_failures b2
                  then b2\<lparr>br_open_until := now + br_cooldown b2, br_generation := br_generation b2 + 1\<rparr>
                  else b2)
            else b1))"

section \<open>Forwarded calls\<close>

text \<open>
  The cause of the call's context: \<open>NotDone\<close>, the gateway's own deadline, or anything else
  (the client's request ended, or the body was closed). \<open>ParentDeadline\<close> is a client context
  that ended by its own deadline, which \<open>context.Cause\<close> does not tell from the gateway's.
\<close>

datatype ctx_cause = NotDone | UnaryDeadline | ParentDeadline | Cancelled

datatype permit = Unary | Streams

record upstream_outcome =
  uo_status :: int
  uo_reason :: gostring
  uo_reject :: bool

text \<open>Where the goroutines of a call are: it has its lease; it is with the base transport; its
  response is out; it is about to give its permit back; it is over.\<close>

datatype phase = Leased | Dispatched | Reading | Releasing | Ended

record upstream_call =
  ca_lease :: breaker_lease
  ca_permit :: permit
  ca_once :: bool
  ca_timer :: bool
  ca_cause :: ctx_cause
  ca_parent_done :: bool
  ca_phase :: phase
  ca_body :: bool
  ca_outcome :: "upstream_outcome option"

record resilient_transport =
  rt_unary_limit :: nat
  rt_streams_limit :: nat
  rt_unary :: nat
  rt_streams :: nat
  rt_breaker :: upstream_breaker
  rt_calls :: "upstream_call list"

definition new_transport :: "nat \<Rightarrow> nat \<Rightarrow> int \<Rightarrow> int \<Rightarrow> resilient_transport" where
  "new_transport unary_limit stream_limit failures cooldown =
     \<lparr>rt_unary_limit = unary_limit, rt_streams_limit = stream_limit, rt_unary = 0, rt_streams = 0,
      rt_breaker = \<lparr>br_failures = 0, br_threshold = failures, br_cooldown = cooldown,
        br_open_until = zero_time, br_probing = False, br_generation = 0\<rparr>,
      rt_calls = []\<rparr>"

definition is_deadline :: "ctx_cause \<Rightarrow> bool" where
  "is_deadline c \<longleftrightarrow> c = UnaryDeadline \<or> c = ParentDeadline"

definition markUpstreamOutcome ::
  "int \<Rightarrow> gostring \<Rightarrow> bool \<Rightarrow> upstream_outcome option \<Rightarrow> upstream_outcome option" where
  "markUpstreamOutcome status reason reject out =
     map_option (\<lambda>_. \<lparr>uo_status = status, uo_reason = reason, uo_reject = reject\<rparr>) out"

text \<open>The client's context ends first, the timer fires first, or the call cancels it: only the
  first counts.\<close>

definition cancel_ctx :: "ctx_cause \<Rightarrow> upstream_call \<Rightarrow> upstream_call" where
  "cancel_ctx c k = (if ca_cause k = NotDone then k\<lparr>ca_cause := c\<rparr> else k)"

text \<open>A permit channel: sending into a full one fails, receiving frees a place.\<close>

definition permits_left :: "permit \<Rightarrow> resilient_transport \<Rightarrow> bool" where
  "permits_left p t =
     (case p of Unary \<Rightarrow> rt_unary t < rt_unary_limit t | Streams \<Rightarrow> rt_streams t < rt_streams_limit t)"

definition take_permit :: "permit \<Rightarrow> resilient_transport \<Rightarrow> resilient_transport" where
  "take_permit p t =
     (case p of Unary \<Rightarrow> t\<lparr>rt_unary := rt_unary t + 1\<rparr> | Streams \<Rightarrow> t\<lparr>rt_streams := rt_streams t + 1\<rparr>)"

definition give_permit :: "permit \<Rightarrow> resilient_transport \<Rightarrow> resilient_transport" where
  "give_permit p t =
     (case p of Unary \<Rightarrow> t\<lparr>rt_unary := rt_unary t - 1\<rparr> | Streams \<Rightarrow> t\<lparr>rt_streams := rt_streams t - 1\<rparr>)"

datatype admission = Refused int gostring | Admitted nat

text \<open>\<open>RoundTrip\<close> from its entry to the lease, and the choice of the permit budget.\<close>

definition permit_for :: "gostring \<Rightarrow> gostring \<Rightarrow> permit" where
  "permit_for meth upgrade = (if meth = ''GET'' \<or> upgrade \<noteq> [] then Streams else Unary)"

definition round_trip_acquire ::
  "gostring \<Rightarrow> gostring \<Rightarrow> upstream_outcome option \<Rightarrow> time \<Rightarrow> resilient_transport
    \<Rightarrow> admission \<times> resilient_transport" where
  "round_trip_acquire meth upgrade out now t =
     (case acquire now (rt_breaker t) of
        (None, b) \<Rightarrow> (Refused 503 ''upstream_unavailable'', t\<lparr>rt_breaker := b\<rparr>)
      | (Some lease, b) \<Rightarrow>
          (Admitted (length (rt_calls t)),
           t\<lparr>rt_breaker := b, rt_calls := rt_calls t @
               [\<lparr>ca_lease = lease, ca_permit = permit_for meth upgrade, ca_once = False, ca_timer = False,
                 ca_cause = NotDone, ca_parent_done = False, ca_phase = Leased, ca_body = False,
                 ca_outcome = out\<rparr>]\<rparr>))"

text \<open>The guarded completion of the call \<open>k\<close>, which only its first use passes on.\<close>

definition complete_once ::
  "int \<Rightarrow> time \<Rightarrow> upstream_call \<Rightarrow> upstream_breaker \<Rightarrow> upstream_call \<times> upstream_breaker" where
  "complete_once outcome now k b =
     (if ca_once k then (k, b) else (k\<lparr>ca_once := True\<rparr>, complete (ca_lease k) outcome now b))"

definition put_call :: "nat \<Rightarrow> upstream_call \<times> upstream_breaker \<Rightarrow> resilient_transport \<Rightarrow> resilient_transport" where
  "put_call i kb t = t\<lparr>rt_calls := (rt_calls t)[i := fst kb], rt_breaker := snd kb\<rparr>"

text \<open>\<open>RoundTrip\<close> from the lease to the dispatch: without a permit the lease is given back.\<close>

definition round_trip_permit :: "nat \<Rightarrow> time \<Rightarrow> resilient_transport \<Rightarrow> admission \<times> resilient_transport" where
  "round_trip_permit i now t =
     (let k = rt_calls t ! i
      in if permits_left (ca_permit k) t then
           (Admitted i,
            take_permit (ca_permit k) (put_call i (k\<lparr>ca_timer := True, ca_phase := Dispatched\<rparr>, rt_breaker t) t))
         else
           (Refused 429 ''upstream_backpressure'',
            put_call i (k\<lparr>ca_once := True, ca_phase := Ended\<rparr>, complete (ca_lease k) 0 now (rt_breaker t)) t))"

text \<open>The base transport returned an error; the permit is given back in a step of its own.\<close>

definition round_trip_error :: "nat \<Rightarrow> time \<Rightarrow> resilient_transport \<Rightarrow> resilient_transport" where
  "round_trip_error i now t =
     (let k = rt_calls t ! i;
          (k1, b1) = complete_once (if ca_parent_done k then 0 else -1) now k (rt_breaker t);
          k2 = (cancel_ctx Cancelled (k1\<lparr>ca_timer := False\<rparr>))\<lparr>ca_phase := Releasing\<rparr>
      in put_call i (k2, b1) t)"

text \<open>The errors the transport hands on: the gateway's refusals, an expired deadline in place of
  whatever the base transport or the body reported, or that report itself. \<open>BaseError\<close> carries
  whether the base transport's own error is a timeout.\<close>

datatype transport_error =
    GateError int gostring
  | DeadlineExceeded
  | BaseError bool

definition round_trip_err :: "upstream_call \<Rightarrow> bool \<Rightarrow> transport_error" where
  "round_trip_err k timeout = (if is_deadline (ca_cause k) then DeadlineExceeded else BaseError timeout)"

definition isUpstreamTimeout :: "transport_error \<Rightarrow> bool" where
  "isUpstreamTimeout e =
     (case e of GateError _ _ \<Rightarrow> False | DeadlineExceeded \<Rightarrow> True | BaseError timeout \<Rightarrow> timeout)"

text \<open>\<open>handleUpstreamError\<close>: the status and code of the reply, and the outcome it notes.\<close>

definition handleUpstreamError ::
  "transport_error \<Rightarrow> upstream_outcome option \<Rightarrow> (int \<times> gostring) \<times> upstream_outcome option" where
  "handleUpstreamError e out =
     (let gate = (case e of GateError st reason \<Rightarrow> (st, reason) | _ \<Rightarrow> (0, []));
          (status, code) = (case e of GateError _ _ \<Rightarrow> gate | _ \<Rightarrow> (502, ''upstream_error''));
          (status1, code1) = (if isUpstreamTimeout e then (504, ''upstream_timeout'') else (status, code))
      in ((status1, code1), markUpstreamOutcome status1 code1 (snd gate \<noteq> []) out))"

definition release_permit :: "nat \<Rightarrow> resilient_transport \<Rightarrow> resilient_transport" where
  "release_permit i t =
     (let k = rt_calls t ! i
      in give_permit (ca_permit k) (put_call i (k\<lparr>ca_phase := Ended\<rparr>, rt_breaker t) t))"

definition is_event_stream :: "int \<Rightarrow> gostring \<Rightarrow> bool" where
  "is_event_stream status content_type \<longleftrightarrow>
     status = 101 \<or>
     equal_fold (trim_space (takeWhile (\<lambda>c. c \<noteq> CHR '';'') content_type)) ''text/event-stream''"

text \<open>The base transport returned a response.\<close>

definition round_trip_response ::
  "nat \<Rightarrow> int \<Rightarrow> gostring \<Rightarrow> time \<Rightarrow> resilient_transport \<Rightarrow> resilient_transport" where
  "round_trip_response i status content_type now t =
     (let k = rt_calls t ! i;
          stream = is_event_stream status content_type;
          k1 = (if stream then k\<lparr>ca_timer := False\<rparr> else k);
          (k2, b2) = (if status = 502 \<or> status = 503 \<or> status = 504
                      then complete_once (-1) now k1 (rt_breaker t)
                      else if stream then complete_once 1 now k1 (rt_breaker t)
                      else (k1, rt_breaker t))
      in put_call i (k2\<lparr>ca_phase := Reading, ca_body := True\<rparr>, b2) t)"

text \<open>A read of the body that ends in \<open>io.EOF\<close> or in another error: \<open>readResult\<close>.\<close>

datatype read_error = ReadEOF | ReadFailed

definition read_result ::
  "read_error \<Rightarrow> time \<Rightarrow> upstream_call \<Rightarrow> upstream_breaker \<Rightarrow> upstream_call \<times> upstream_breaker" where
  "read_result err now k b =
     (if is_deadline (ca_cause k) then
        complete_once (-1) now
          (k\<lparr>ca_outcome := markUpstreamOutcome 504 ''upstream_timeout'' False (ca_outcome k)\<rparr>) b
      else if err = ReadEOF then complete_once 1 now k b
      else if ca_cause k \<noteq> NotDone then complete_once 0 now k b
      else complete_once (-1) now k b)"

definition body_read_error :: "nat \<Rightarrow> read_error \<Rightarrow> time \<Rightarrow> resilient_transport \<Rightarrow> resilient_transport" where
  "body_read_error i err now t = put_call i (read_result err now (rt_calls t ! i) (rt_breaker t)) t"

text \<open>Closing the body; a second close does nothing.\<close>

definition body_close :: "nat \<Rightarrow> time \<Rightarrow> resilient_transport \<Rightarrow> resilient_transport" where
  "body_close i now t =
     (let k = rt_calls t ! i
      in if ca_phase k \<noteq> Reading then t
         else
           (let (k1, b1) = complete_once 0 now k (rt_breaker t);
                k2 = (cancel_ctx Cancelled (k1\<lparr>ca_timer := False\<rparr>))\<lparr>ca_phase := Releasing\<rparr>
            in put_call i (k2, b1) t))"

section \<open>Events\<close>

text \<open>
  What happens to the transport: a request arrives, the timer of call \<open>i\<close> fires, its client's
  context ends, the base transport returns, its body is read or closed. An event that cannot
  happen in a state (no such call, or not in that phase) leaves it as it is; a clock before the
  zero instant does not exist.
\<close>

datatype upstream_event =
    RequestArrives gostring gostring "upstream_outcome option"
  | PermitTried nat
  | TimerFires nat
  | ClientDone nat bool
  | BaseFails nat
  | BaseResponds nat int gostring
  | BodyRead nat read_error
  | BodyClose nat
  | PermitGiven nat

definition in_phase :: "phase set \<Rightarrow> nat \<Rightarrow> resilient_transport \<Rightarrow> bool" where
  "in_phase ps i t \<longleftrightarrow> i < length (rt_calls t) \<and> ca_phase (rt_calls t ! i) \<in> ps"

definition update_call ::
  "nat \<Rightarrow> (upstream_call \<Rightarrow> upstream_call) \<Rightarrow> resilient_transport \<Rightarrow> resilient_transport" where
  "update_call i f t = t\<lparr>rt_calls := (rt_calls t)[i := f (rt_calls t ! i)]\<rparr>"

definition has_body :: "nat \<Rightarrow> resilient_transport \<Rightarrow> bool" where
  "has_body i t \<longleftrightarrow> i < length (rt_calls t) \<and> ca_body (rt_calls t ! i)"

fun upstream_event_step :: "upstream_event \<Rightarrow> time \<Rightarrow> resilient_transport \<Rightarrow> resilient_transport" where
  "upstream_event_step (RequestArrives meth upgrade out) now t = snd (round_trip_acquire meth upgrade out now t)"
| "upstream_event_step (PermitTried i) now t =
     (if in_phase {Leased} i t then snd (round_trip_permit i now t) else t)"
| "upstream_event_step (TimerFires i) now t =
     (if in_phase UNIV i t \<and> ca_timer (rt_calls t ! i)
      then update_call i (\<lambda>k. cancel_ctx UnaryDeadline (k\<lparr>ca_timer := False\<rparr>)) t else t)"
| "upstream_event_step (ClientDone i deadline) now t =
     (if in_phase UNIV i t
      then update_call i (\<lambda>k. cancel_ctx (if deadline then ParentDeadline else Cancelled)
                                (k\<lparr>ca_parent_done := True\<rparr>)) t else t)"
| "upstream_event_step (BaseFails i) now t =
     (if in_phase {Dispatched} i t then round_trip_error i now t else t)"
| "upstream_event_step (BaseResponds i status ct) now t =
     (if in_phase {Dispatched} i t then round_trip_response i status ct now t else t)"
| "upstream_event_step (BodyRead i err) now t = (if has_body i t then body_read_error i err now t else t)"
| "upstream_event_step (BodyClose i) now t = (if has_body i t then body_close i now t else t)"
| "upstream_event_step (PermitGiven i) now t = (if in_phase {Releasing} i t then release_permit i t else t)"

definition upstream_step :: "upstream_event \<times> time \<Rightarrow> resilient_transport \<Rightarrow> resilient_transport" where
  "upstream_step = (\<lambda>(e, now) t. if now \<le> 0 then t else upstream_event_step e now t)"

definition upstream_run :: "(upstream_event \<times> time) list \<Rightarrow> resilient_transport \<Rightarrow> resilient_transport" where
  "upstream_run es t = fold upstream_step es t"

section \<open>The invariant\<close>

definition holds_permit :: "permit \<Rightarrow> upstream_call \<Rightarrow> bool" where
  "holds_permit p k \<longleftrightarrow> ca_permit k = p \<and> ca_phase k \<in> {Dispatched, Reading, Releasing}"

definition open_probe :: "upstream_call \<Rightarrow> bool" where
  "open_probe k \<longleftrightarrow> le_probe (ca_lease k) \<and> \<not> ca_once k"

definition permits_ok :: "resilient_transport \<Rightarrow> bool" where
  "permits_ok t \<longleftrightarrow>
     rt_unary t = length (filter (holds_permit Unary) (rt_calls t)) \<and> rt_unary t \<le> rt_unary_limit t \<and>
     rt_streams t = length (filter (holds_permit Streams) (rt_calls t)) \<and> rt_streams t \<le> rt_streams_limit t"

definition breaker_ok :: "upstream_breaker \<Rightarrow> bool" where
  "breaker_ok b \<longleftrightarrow>
     0 \<le> br_failures b \<and> 0 < br_threshold b \<and> 0 \<le> br_cooldown b \<and>
     (br_open_until b = zero_time \<longrightarrow> br_failures b < br_threshold b) \<and>
     (br_probing b \<longrightarrow> br_open_until b \<noteq> zero_time)"

definition phase_ok :: "upstream_call \<Rightarrow> bool" where
  "phase_ok k \<longleftrightarrow>
     (ca_phase k \<in> {Releasing, Ended} \<longrightarrow> ca_once k) \<and> (ca_phase k = Leased \<longrightarrow> \<not> ca_once k) \<and>
     (ca_body k \<longrightarrow> ca_phase k \<notin> {Leased, Dispatched})"

definition call_ok :: "64 word \<Rightarrow> upstream_call \<Rightarrow> bool" where
  "call_ok g k \<longleftrightarrow>
     (open_probe k \<longrightarrow> le_generation (ca_lease k) = g) \<and> phase_ok k"

definition leases_ok :: "upstream_breaker \<Rightarrow> upstream_call list \<Rightarrow> bool" where
  "leases_ok b ks \<longleftrightarrow>
     breaker_ok b \<and> length (filter open_probe ks) = (if br_probing b then 1 else 0) \<and>
     list_all (call_ok (br_generation b)) ks"

definition upstream_ok :: "resilient_transport \<Rightarrow> bool" where
  "upstream_ok t \<longleftrightarrow> permits_ok t \<and> leases_ok (rt_breaker t) (rt_calls t)"

lemma leases_ok_update:
  assumes "leases_ok b ks" and "i < length ks"
    and "ca_lease k = ca_lease (ks ! i)" and "ca_once k = ca_once (ks ! i)"
    and "phase_ok k"
  shows "leases_ok b (ks[i := k])"
proof -
  have same: "open_probe k = open_probe (ks ! i)" using assms(3,4) by (simp add: open_probe_def)
  have "call_ok (br_generation b) k"
    using assms same by (simp add: leases_ok_def call_ok_def list_all_length)
  moreover have "length (filter open_probe (ks[i := k])) = length (filter open_probe ks)"
    using same length_filter_pos [OF nth_mem [OF assms(2)], of open_probe]
    by (simp add: length_filter_update [OF assms(2)])
  ultimately show ?thesis using assms(1) by (simp add: leases_ok_def list_all_update)
qed

text \<open>Without an open probe the generation may change: no call depends on it.\<close>

lemma call_ok_any:
  "list_all (call_ok g) ks \<Longrightarrow> filter open_probe ks = [] \<Longrightarrow> list_all (call_ok g') ks"
  by (auto simp: list_all_iff call_ok_def filter_empty_conv)

lemma complete_open: "\<not> le_probe l \<Longrightarrow> br_open_until b \<noteq> zero_time \<Longrightarrow> complete l outcome now b = b"
  by (simp add: complete_def)

lemma complete_breaker_ok: "breaker_ok b \<Longrightarrow> 0 < now \<Longrightarrow> breaker_ok (complete l outcome now b)"
  by (auto simp: complete_def breaker_ok_def Let_def)

lemma leases_ok_complete:
  assumes ok: "leases_ok b ks" and i: "i < length ks" and fresh: "\<not> ca_once (ks ! i)" and now: "0 < now"
    and k: "ca_lease k = ca_lease (ks ! i)" "ca_once k" "phase_ok k"
  shows "leases_ok (complete (ca_lease (ks ! i)) outcome now b) (ks[i := k])"
proof -
  let ?ks = "ks[i := k]" and ?b = "complete (ca_lease (ks ! i)) outcome now b"
  have k_ok: "call_ok g k" "\<not> open_probe k" for g using k by (simp_all add: call_ok_def open_probe_def)
  have calls: "list_all (call_ok (br_generation b)) ?ks"
    using ok k_ok by (simp add: leases_ok_def list_all_update)
  have b: "breaker_ok ?b" using ok now by (simp add: leases_ok_def complete_breaker_ok)
  show ?thesis
  proof (cases "open_probe (ks ! i)")
    case True
    then have one: "length (filter open_probe ks) = 1" "br_probing b"
      using ok length_filter_pos [OF nth_mem [OF i], of open_probe]
      by (auto simp: leases_ok_def split: if_splits)
    have "le_generation (ca_lease (ks ! i)) = br_generation b" "le_probe (ca_lease (ks ! i))"
      using True ok i by (auto simp: leases_ok_def open_probe_def call_ok_def list_all_length)
    then have "\<not> br_probing ?b" by (simp add: complete_def Let_def)
    moreover have none: "filter open_probe ?ks = []"
      using True k_ok one length_filter_update [OF i, of open_probe k] by simp
    ultimately show ?thesis using b call_ok_any [OF calls none] by (simp add: leases_ok_def)
  next
    case False
    then have probe: "\<not> le_probe (ca_lease (ks ! i))" using fresh by (simp add: open_probe_def)
    have same: "length (filter open_probe ?ks) = length (filter open_probe ks)"
      using False k_ok by (simp add: length_filter_update [OF i])
    have probing: "br_probing ?b = br_probing b" using probe by (simp add: complete_def Let_def)
    show ?thesis
    proof (cases "br_generation ?b = br_generation b")
      case True
      then show ?thesis using b same probing calls ok by (simp add: leases_ok_def)
    next
      case False
      then have "br_open_until b = zero_time" using complete_open [OF probe] by metis
      then have "filter open_probe ?ks = []" using ok same by (simp add: leases_ok_def breaker_ok_def split: if_splits)
      then show ?thesis using b same probing ok call_ok_any [OF calls] by (simp add: leases_ok_def)
    qed
  qed
qed

section \<open>Every event keeps it\<close>

text \<open>The permit count after call \<open>i\<close> became \<open>k\<close>.\<close>

definition spent :: "permit \<Rightarrow> resilient_transport \<Rightarrow> nat" where
  "spent p t = (case p of Unary \<Rightarrow> rt_unary t | Streams \<Rightarrow> rt_streams t)"

definition limit_of :: "permit \<Rightarrow> resilient_transport \<Rightarrow> nat" where
  "limit_of p t = (case p of Unary \<Rightarrow> rt_unary_limit t | Streams \<Rightarrow> rt_streams_limit t)"

lemma permits_ok_iff:
  "permits_ok t \<longleftrightarrow>
     (\<forall>p. spent p t = length (filter (holds_permit p) (rt_calls t)) \<and> spent p t \<le> limit_of p t)"
  by (auto simp: permits_ok_def spent_def limit_of_def split: permit.splits)

lemma spent_simps [simp]:
  "spent p (put_call i kb t) = spent p t"
  "limit_of p (put_call i kb t) = limit_of p t"
  "spent p (take_permit q t) = spent p t + (if p = q then 1 else 0)"
  "limit_of p (take_permit q t) = limit_of p t"
  "spent p (give_permit q t) = spent p t - (if p = q then 1 else 0)"
  "limit_of p (give_permit q t) = limit_of p t"
  "rt_calls (take_permit q t) = rt_calls t" "rt_calls (give_permit q t) = rt_calls t"
  "rt_breaker (take_permit q t) = rt_breaker t" "rt_breaker (give_permit q t) = rt_breaker t"
  "rt_calls (put_call i kb t) = (rt_calls t)[i := fst kb]" "rt_breaker (put_call i kb t) = snd kb"
  by (simp_all add: spent_def limit_of_def put_call_def take_permit_def give_permit_def split: permit.split)

lemma permits_left_iff: "permits_left p t \<longleftrightarrow> spent p t < limit_of p t"
  by (simp add: permits_left_def spent_def limit_of_def split: permit.split)

lemma permits_ok_put:
  assumes "permits_ok t" and "i < length (rt_calls t)"
    and "\<And>p. holds_permit p k = holds_permit p (rt_calls t ! i)"
  shows "permits_ok (put_call i (k, b) t)"
proof -
  have "length (filter (holds_permit p) ((rt_calls t)[i := k])) = length (filter (holds_permit p) (rt_calls t))" for p
    using length_filter_pos [OF nth_mem [OF assms(2)], of "holds_permit p"] assms(3)
    by (simp add: length_filter_update [OF assms(2)])
  with assms(1) show ?thesis by (simp add: permits_ok_iff) metis
qed

text \<open>An event that changes one call, not its lease: it keeps the call's permit and either leaves
  the lease alone or completes it.\<close>

lemma upstream_ok_put:
  assumes "upstream_ok t" and i: "i < length (rt_calls t)" and now: "0 < now"
    and k: "ca_lease k = ca_lease (rt_calls t ! i)" "ca_permit k = ca_permit (rt_calls t ! i)"
      "\<And>p. holds_permit p k = holds_permit p (rt_calls t ! i)"
      "phase_ok k"
    and b: "b = rt_breaker t \<and> ca_once k = ca_once (rt_calls t ! i) \<or>
            b = complete (ca_lease (rt_calls t ! i)) outcome now (rt_breaker t) \<and>
              \<not> ca_once (rt_calls t ! i) \<and> ca_once k"
  shows "upstream_ok (put_call i (k, b) t)"
proof -
  have ok: "permits_ok t" "leases_ok (rt_breaker t) (rt_calls t)" using assms(1) by (simp_all add: upstream_ok_def)
  have "leases_ok b ((rt_calls t)[i := k])"
    using b leases_ok_update [OF ok(2) i k(1)] leases_ok_complete [OF ok(2) i _ now k(1)] k(4) by auto
  then show ?thesis using permits_ok_put [OF ok(1) i k(3)] by (simp add: upstream_ok_def)
qed

lemma complete_once_cases:
  assumes "complete_once outcome now k b = (k', b')"
  shows "k' = k\<lparr>ca_once := True\<rparr> \<and>
         (b' = b \<and> ca_once k \<or> b' = complete (ca_lease k) outcome now b \<and> \<not> ca_once k)"
  using assms by (auto simp: complete_once_def split: if_splits)

lemma cancel_ctx_simps [simp]:
  "ca_lease (cancel_ctx c k) = ca_lease k" "ca_permit (cancel_ctx c k) = ca_permit k"
  "ca_once (cancel_ctx c k) = ca_once k" "ca_phase (cancel_ctx c k) = ca_phase k"
  "ca_body (cancel_ctx c k) = ca_body k" "ca_timer (cancel_ctx c k) = ca_timer k"
  by (simp_all add: cancel_ctx_def)

lemma update_call_put: "update_call i f t = put_call i (f (rt_calls t ! i), rt_breaker t) t"
  by (simp add: update_call_def put_call_def)

lemma in_phaseD:
  "in_phase ps i t \<Longrightarrow> i < length (rt_calls t)"
  "in_phase ps i t \<Longrightarrow> ca_phase (rt_calls t ! i) \<in> ps"
  by (simp_all add: in_phase_def)

lemma ended_once:
  "upstream_ok t \<Longrightarrow> i < length (rt_calls t) \<Longrightarrow> ca_phase (rt_calls t ! i) \<in> {Releasing, Ended} \<Longrightarrow>
     ca_once (rt_calls t ! i)"
  by (auto simp: upstream_ok_def leases_ok_def call_ok_def phase_ok_def list_all_length)

lemma leased_once:
  "upstream_ok t \<Longrightarrow> i < length (rt_calls t) \<Longrightarrow> ca_phase (rt_calls t ! i) = Leased \<Longrightarrow>
     \<not> ca_once (rt_calls t ! i) \<and> \<not> ca_body (rt_calls t ! i)"
  by (auto simp: upstream_ok_def leases_ok_def call_ok_def phase_ok_def list_all_length)

lemma acquire_ok:
  assumes "upstream_ok t"
  shows "upstream_ok (snd (round_trip_acquire meth upgrade out now t))"
proof (cases "acquire now (rt_breaker t)")
  case (Pair lease b)
  show ?thesis
  proof (cases lease)
    case None
    with Pair have "b = rt_breaker t" by (auto simp: acquire_def split: if_splits)
    with assms Pair None show ?thesis by (simp add: round_trip_acquire_def)
  next
    case (Some l)
    with Pair assms show ?thesis
      by (auto simp: round_trip_acquire_def upstream_ok_def permits_ok_def leases_ok_def breaker_ok_def
            call_ok_def phase_ok_def open_probe_def holds_permit_def acquire_def split: if_splits)
  qed
qed

lemma permit_ok:
  assumes ok: "upstream_ok t" and "in_phase {Leased} i t" and now: "0 < now"
  shows "upstream_ok (snd (round_trip_permit i now t))"
proof -
  let ?k = "rt_calls t ! i"
  note i = in_phaseD(1) [OF assms(2)]
  have leased: "ca_phase ?k = Leased" using in_phaseD(2) [OF assms(2)] by simp
  note fresh = leased_once [OF ok i leased]
  show ?thesis
  proof (cases "permits_left (ca_permit ?k) t")
    case True
    let ?k' = "?k\<lparr>ca_timer := True, ca_phase := Dispatched\<rparr>"
    have "length (filter (holds_permit p) ((rt_calls t)[i := ?k'])) =
        length (filter (holds_permit p) (rt_calls t)) + (if p = ca_permit ?k then 1 else 0)" for p
      using leased by (auto simp: length_filter_update [OF i] holds_permit_def)
    then have "permits_ok (take_permit (ca_permit ?k) (put_call i (?k', rt_breaker t) t))"
      using ok True by (simp add: permits_ok_iff upstream_ok_def permits_left_iff Suc_le_eq) metis
    moreover have "leases_ok (rt_breaker t) ((rt_calls t)[i := ?k'])"
      using ok fresh by (intro leases_ok_update) (simp_all add: upstream_ok_def phase_ok_def i)
    ultimately show ?thesis using True by (simp add: round_trip_permit_def Let_def upstream_ok_def)
  next
    case False
    have "upstream_ok (put_call i (?k\<lparr>ca_once := True, ca_phase := Ended\<rparr>,
        complete (ca_lease ?k) 0 now (rt_breaker t)) t)"
      by (rule upstream_ok_put [where outcome = 0, OF ok i now])
        (use leased fresh in \<open>auto simp: holds_permit_def phase_ok_def\<close>)
    with False show ?thesis by (simp add: round_trip_permit_def Let_def)
  qed
qed

lemma error_ok:
  assumes ok: "upstream_ok t" and "in_phase {Dispatched} i t" and now: "0 < now"
  shows "upstream_ok (round_trip_error i now t)"
proof -
  let ?k = "rt_calls t ! i" and ?o = "if ca_parent_done (rt_calls t ! i) then 0 else (-1 :: int)"
  note i = in_phaseD(1) [OF assms(2)]
  have phase: "ca_phase ?k = Dispatched" using in_phaseD(2) [OF assms(2)] by simp
  obtain k' b' where c: "complete_once ?o now ?k (rt_breaker t) = (k', b')" by fastforce
  note cc = complete_once_cases [OF c]
  have "upstream_ok (put_call i ((cancel_ctx Cancelled (k'\<lparr>ca_timer := False\<rparr>))\<lparr>ca_phase := Releasing\<rparr>, b') t)"
    by (rule upstream_ok_put [where outcome = ?o, OF ok i now]) (use phase cc in \<open>auto simp: holds_permit_def phase_ok_def\<close>)
  with c show ?thesis by (simp add: round_trip_error_def Let_def)
qed

lemma response_ok:
  assumes ok: "upstream_ok t" and "in_phase {Dispatched} i t" and now: "0 < now"
  shows "upstream_ok (round_trip_response i status ct now t)"
proof -
  let ?k = "rt_calls t ! i"
  define k1 where "k1 = (if is_event_stream status ct then ?k\<lparr>ca_timer := False\<rparr> else ?k)"
  have k1: "ca_lease k1 = ca_lease ?k" "ca_permit k1 = ca_permit ?k" "ca_once k1 = ca_once ?k"
    by (simp_all add: k1_def)
  note i = in_phaseD(1) [OF assms(2)]
  have phase: "ca_phase ?k = Dispatched" using in_phaseD(2) [OF assms(2)] by simp
  have once: "upstream_ok (put_call i (k'\<lparr>ca_phase := Reading, ca_body := True\<rparr>, b') t)"
    if "complete_once outcome now k1 (rt_breaker t) = (k', b')" for outcome k' b'
    by (rule upstream_ok_put [where outcome = outcome, OF ok i now])
      (use phase k1 complete_once_cases [OF that] in \<open>auto simp: holds_permit_def phase_ok_def\<close>)
  have plain: "upstream_ok (put_call i (k1\<lparr>ca_phase := Reading, ca_body := True\<rparr>, rt_breaker t) t)"
    by (rule upstream_ok_put [where outcome = 0, OF ok i now])
      (use phase k1 in \<open>auto simp: holds_permit_def phase_ok_def\<close>)
  show ?thesis
    using once plain
    by (cases "is_event_stream status ct"; simp add: round_trip_response_def Let_def k1_def split: prod.split)
qed

lemma call_phase_ok: "upstream_ok t \<Longrightarrow> i < length (rt_calls t) \<Longrightarrow> phase_ok (rt_calls t ! i)"
  by (auto simp: upstream_ok_def leases_ok_def call_ok_def list_all_length)

lemma read_ok:
  assumes ok: "upstream_ok t" and body: "has_body i t" and now: "0 < now"
  shows "upstream_ok (body_read_error i err now t)"
proof -
  let ?k = "rt_calls t ! i"
  have i: "i < length (rt_calls t)" using body by (simp add: has_body_def)
  have old: "phase_ok ?k" "ca_body ?k" using body call_phase_ok [OF ok i] by (simp_all add: has_body_def)
  have once: "upstream_ok (put_call i (complete_once outcome now k1 (rt_breaker t)) t)"
    if k1: "ca_lease k1 = ca_lease ?k" "ca_permit k1 = ca_permit ?k" "ca_once k1 = ca_once ?k"
      "ca_phase k1 = ca_phase ?k" "ca_body k1 = ca_body ?k" for k1 outcome
  proof -
    obtain k' b' where c: "complete_once outcome now k1 (rt_breaker t) = (k', b')" by fastforce
    show ?thesis unfolding c
      by (rule upstream_ok_put [where outcome = outcome, OF ok i now])
        (use k1 old complete_once_cases [OF c] in \<open>auto simp: holds_permit_def phase_ok_def\<close>)
  qed
  show ?thesis unfolding body_read_error_def read_result_def by (auto intro!: once)
qed

lemma close_ok:
  assumes ok: "upstream_ok t" and body: "has_body i t" and now: "0 < now"
  shows "upstream_ok (body_close i now t)"
proof (cases "ca_phase (rt_calls t ! i) = Reading")
  case True
  let ?k = "rt_calls t ! i"
  have i: "i < length (rt_calls t)" using body by (simp add: has_body_def)
  obtain k' b' where c: "complete_once 0 now ?k (rt_breaker t) = (k', b')" by fastforce
  have "upstream_ok (put_call i ((cancel_ctx Cancelled (k'\<lparr>ca_timer := False\<rparr>))\<lparr>ca_phase := Releasing\<rparr>, b') t)"
    by (rule upstream_ok_put [where outcome = 0, OF ok i now])
      (use True complete_once_cases [OF c] in \<open>auto simp: holds_permit_def phase_ok_def\<close>)
  with True c show ?thesis by (simp add: body_close_def Let_def)
next
  case False
  with ok show ?thesis by (simp add: body_close_def Let_def)
qed

lemma permit_release_ok:
  assumes ok: "upstream_ok t" and "in_phase {Releasing} i t"
  shows "upstream_ok (release_permit i t)"
proof -
  let ?k = "rt_calls t ! i" and ?k' = "(rt_calls t ! i)\<lparr>ca_phase := Ended\<rparr>"
  note i = in_phaseD(1) [OF assms(2)]
  have phase: "ca_phase ?k = Releasing" using in_phaseD(2) [OF assms(2)] by simp
  have "length (filter (holds_permit p) ((rt_calls t)[i := ?k'])) =
      length (filter (holds_permit p) (rt_calls t)) - (if p = ca_permit ?k then 1 else 0)" for p
    using phase by (auto simp: length_filter_update [OF i] holds_permit_def)
  then have "permits_ok (give_permit (ca_permit ?k) (put_call i (?k', rt_breaker t) t))"
    using ok by (simp add: permits_ok_iff upstream_ok_def) (metis diff_le_self le_trans)
  moreover have "leases_ok (rt_breaker t) ((rt_calls t)[i := ?k'])"
    using ok ended_once [OF ok i] phase by (intro leases_ok_update) (simp_all add: upstream_ok_def phase_ok_def i)
  ultimately show ?thesis by (simp add: release_permit_def Let_def upstream_ok_def)
qed

lemma update_ok:
  assumes ok: "upstream_ok t" and i: "i < length (rt_calls t)"
    and k: "ca_lease (f (rt_calls t ! i)) = ca_lease (rt_calls t ! i)"
      "ca_permit (f (rt_calls t ! i)) = ca_permit (rt_calls t ! i)"
      "ca_once (f (rt_calls t ! i)) = ca_once (rt_calls t ! i)"
      "ca_phase (f (rt_calls t ! i)) = ca_phase (rt_calls t ! i)"
      "ca_body (f (rt_calls t ! i)) = ca_body (rt_calls t ! i)"
  shows "upstream_ok (update_call i f t)"
  unfolding update_call_put
  by (rule upstream_ok_put [where now = 1 and outcome = 0, OF ok i])
    (use k call_phase_ok [OF ok i] in \<open>auto simp: holds_permit_def phase_ok_def\<close>)

lemma upstream_event_step_ok: "upstream_ok t \<Longrightarrow> 0 < now \<Longrightarrow> upstream_ok (upstream_event_step e now t)"
  by (cases e) (auto intro: acquire_ok permit_ok error_ok response_ok read_ok close_ok permit_release_ok
      intro!: update_ok simp: in_phaseD)

interpretation upstream_machine: step_machine upstream_step upstream_ok
  by unfold_locales (auto simp: upstream_step_def split: prod.split intro: upstream_event_step_ok)

lemma new_transport_ok: "0 < failures \<Longrightarrow> 0 \<le> cooldown \<Longrightarrow> upstream_ok (new_transport u s failures cooldown)"
  by (simp add: new_transport_def upstream_ok_def permits_ok_def leases_ok_def breaker_ok_def)

end
