(* ===== verification/BreakerClaims.thy ===== *)
theory BreakerClaims
  imports Breaker
begin

text \<open>
  What the upstream transport promises: one probe at a time, bounded permits, an open breaker
  that only its probe closes, the exact number of failures that opens it, and a transport that
  admits calls again after every outage.
\<close>

section \<open>What each operation does to the breaker\<close>

definition is_open :: "upstream_breaker \<Rightarrow> bool" where
  "is_open b \<longleftrightarrow> br_open_until b \<noteq> zero_time"

lemma transport_run_ok:
  "0 < failures \<Longrightarrow> 0 \<le> cooldown \<Longrightarrow>
     upstream_ok (upstream_run es (new_transport unary streams failures cooldown))"
  by (simp add: upstream_run_def upstream_machine.run_inv new_transport_ok)

lemma acquire_open: "acquire now b = (l, b') \<Longrightarrow> br_open_until b' = br_open_until b"
  by (auto simp: acquire_def split: if_splits)

lemma complete_closes:
  assumes "is_open b" and "\<not> is_open (complete l outcome now b)" and "0 < now" and "0 \<le> br_cooldown b"
  shows "outcome = 1 \<and> le_probe l"
  using assms by (auto simp: complete_def is_open_def Let_def split: if_splits)

lemma complete_once_closes:
  assumes "complete_once outcome now k b = (k', b')" and "is_open b" and "\<not> is_open b'"
    and "0 < now" and "0 \<le> br_cooldown b"
  shows "outcome = 1 \<and> open_probe k"
  using complete_once_cases [OF assms(1)] assms complete_closes by (auto simp: open_probe_def)

section \<open>The properties\<close>

text \<open>In every reachable state at most one admitted call is an unfinished probe, and an open
  breaker gives a lease only when its cooldown is over and no probe is unfinished, and that
  lease is the probe.\<close>

theorem single_probe:
  assumes "0 < failures" and "0 \<le> cooldown"
    and "t = upstream_run es (new_transport unary streams failures cooldown)"
  shows "length (filter open_probe (rt_calls t)) \<le> 1 \<and>
    (is_open (rt_breaker t) \<and> fst (acquire now (rt_breaker t)) = Some lease \<longrightarrow>
       br_open_until (rt_breaker t) \<le> now \<and> le_probe lease \<and> filter open_probe (rt_calls t) = [])"
proof -
  have "upstream_ok t" using assms transport_run_ok by simp
  then show ?thesis by (auto simp: upstream_ok_def leases_ok_def acquire_def is_open_def split: if_splits)
qed

text \<open>The permits in use of either budget are exactly those of the calls that are still with
  the upstream or being read, so they never exceed the budget, and none is in use once every
  call is over.\<close>

theorem permits_bounded:
  assumes "0 < failures" and "0 \<le> cooldown"
    and "t = upstream_run es (new_transport unary streams failures cooldown)"
  shows "spent p t = length (filter (holds_permit p) (rt_calls t)) \<and> spent p t \<le> limit_of p t"
proof -
  have "permits_ok t" using assms transport_run_ok by (simp add: upstream_ok_def)
  then show ?thesis unfolding permits_ok_iff by blast
qed

text \<open>Only the success of the open probe closes an open breaker: the probe's response is an
  event stream that is not a gateway error, or its body was read to the end before its
  deadline.\<close>

theorem only_probe_success_closes:
  assumes "0 < failures" and "0 \<le> cooldown"
    and "t = upstream_run es (new_transport unary streams failures cooldown)"
    and "is_open (rt_breaker t)" and "\<not> is_open (rt_breaker (upstream_step (e, now) t))"
  shows "\<exists>i. i < length (rt_calls t) \<and> open_probe (rt_calls t ! i) \<and>
    ((\<exists>status ct. e = BaseResponds i status ct \<and> is_event_stream status ct \<and> status \<notin> {502, 503, 504}) \<or>
     e = BodyRead i ReadEOF \<and> \<not> is_deadline (ca_cause (rt_calls t ! i)))"
proof -
  have cool: "0 \<le> br_cooldown (rt_breaker t)"
    using transport_run_ok [OF assms(1,2)] by (simp add: assms(3) upstream_ok_def leases_ok_def breaker_ok_def)
  have now: "0 < now" using assms(4,5) by (auto simp: upstream_step_def split: if_splits)
  have closed: "\<not> is_open (rt_breaker (upstream_event_step e now t))"
    using assms(5) now by (simp add: upstream_step_def)
  note once = complete_once_closes [OF _ assms(4) _ now cool]
  show ?thesis
  proof (cases e)
    case (RequestArrives meth upgrade out)
    then have False
      using closed assms(4) acquire_open [of now "rt_breaker t"]
      by (auto simp: round_trip_acquire_def is_open_def split: prod.splits option.splits)
    then show ?thesis ..
  next
    case (PermitTried i)
    then have False
      using closed assms(4) complete_closes [OF assms(4) _ now cool, of _ 0]
      by (auto simp: round_trip_permit_def Let_def split: if_splits)
    then show ?thesis ..
  next
    case (BaseFails i)
    then have False
      using closed assms(4) by (auto simp: round_trip_error_def Let_def split: if_splits prod.splits dest: once)
    then show ?thesis ..
  next
    case (BaseResponds i status ct)
    then show ?thesis
      using closed assms(4)
      by (auto simp: round_trip_response_def Let_def in_phase_def open_probe_def split: if_splits prod.splits
          dest!: once)
  next
    case (BodyRead i err)
    then show ?thesis
      using closed assms(4)
      by (auto simp: body_read_error_def read_result_def has_body_def open_probe_def split: if_splits
          dest: once [OF surjective_pairing])
  next
    case (BodyClose i)
    then have False
      using closed assms(4) by (auto simp: body_close_def Let_def split: if_splits prod.splits dest: once)
    then show ?thesis ..
  qed (use closed assms(4) in \<open>auto simp: update_call_def release_permit_def Let_def split: if_splits\<close>)
qed

text \<open>C39: The transport never wedges: from any reachable state in which every call is over, a
  request that arrives when the cooldown is over reaches the upstream, if its budget is not
  empty by configuration.\<close>

theorem upstream_recovers:
  assumes "0 < failures" and "0 \<le> cooldown"
    and "t = upstream_run es (new_transport unary streams failures cooldown)"
    and "list_all (\<lambda>k. ca_phase k = Ended) (rt_calls t)"
    and "br_open_until (rt_breaker t) \<le> now" and "0 < now" and "0 < limit_of (permit_for meth upgrade) t"
  shows "in_phase {Dispatched} (length (rt_calls t))
    (upstream_run [(RequestArrives meth upgrade out, now), (PermitTried (length (rt_calls t)), now)] t)"
proof -
  have ok: "upstream_ok t" using assms transport_run_ok by simp
  have "filter open_probe (rt_calls t) = []"
    using ok assms(4) by (auto simp: upstream_ok_def leases_ok_def filter_empty_conv list_all_iff call_ok_def
        phase_ok_def open_probe_def)
  then have "\<not> br_probing (rt_breaker t)" using ok by (auto simp: upstream_ok_def leases_ok_def split: if_splits)
  then have "fst (acquire now (rt_breaker t)) \<noteq> None" using assms(5) by (simp add: acquire_def)
  then obtain l b where l: "acquire now (rt_breaker t) = (Some l, b)"
    by (cases "acquire now (rt_breaker t)") auto
  let ?p = "permit_for meth upgrade"
  let ?t = "upstream_step (RequestArrives meth upgrade out, now) t"
  have "filter (holds_permit ?p) (rt_calls t) = []"
    using assms(4) by (auto simp: filter_empty_conv list_all_iff holds_permit_def)
  then have "spent ?p t = 0" using ok by (simp add: upstream_ok_def permits_ok_iff)
  then have "permits_left ?p ?t"
    using assms(6,7) l
    by (simp add: upstream_step_def round_trip_acquire_def permits_left_def spent_def limit_of_def split: permit.splits)
  then show ?thesis
    using assms(6) l
    by (simp add: upstream_run_def upstream_step_def round_trip_acquire_def round_trip_permit_def in_phase_def
        put_call_def take_permit_def Let_def split: permit.splits)
qed

section \<open>When a closed breaker opens\<close>

text \<open>The failures since the last success; cancellations do not count.\<close>

definition failure_run :: "int list \<Rightarrow> int" where
  "failure_run os = int (length (filter (\<lambda>x. x = -1) (takeWhile (\<lambda>x. x \<noteq> 1) (rev os))))"

lemma failure_run_simps [simp]:
  "failure_run [] = 0"
  "failure_run (os @ [1]) = 0"
  "failure_run (os @ [-1]) = failure_run os + 1"
  "x \<noteq> 1 \<Longrightarrow> x \<noteq> -1 \<Longrightarrow> failure_run (os @ [x]) = failure_run os"
  by (simp_all add: failure_run_def)

definition outcomes :: "breaker_lease \<Rightarrow> (int \<times> time) list \<Rightarrow> upstream_breaker \<Rightarrow> upstream_breaker" where
  "outcomes lease os b = fold (\<lambda>(x, now). complete lease x now) os b"

definition reaches :: "int \<Rightarrow> int list \<Rightarrow> bool" where
  "reaches threshold os \<longleftrightarrow> (\<exists>n \<le> length os. threshold \<le> failure_run (take n os))"

lemma reaches_snoc: "reaches th (os @ [x]) \<longleftrightarrow> reaches th os \<or> th \<le> failure_run (os @ [x])"
  by (auto simp: reaches_def le_Suc_eq)

lemma outcomes_simps [simp]:
  "outcomes lease [] b = b"
  "outcomes lease (os @ [(r, now)]) b = complete lease r now (outcomes lease os b)"
  by (simp_all add: outcomes_def)

lemma outcomes_spec:
  assumes "br_open_until b = zero_time" and "br_failures b = 0" and "0 < br_threshold b" and "0 \<le> br_cooldown b"
    and "lease = \<lparr>le_generation = br_generation b, le_probe = False\<rparr>" and "list_all (\<lambda>(x, now). 0 < now) os"
  shows "if reaches (br_threshold b) (map fst os) then is_open (outcomes lease os b)
    else outcomes lease os b = b\<lparr>br_failures := failure_run (map fst os)\<rparr>"
  using assms(6)
proof (induction os rule: rev_induct)
  case Nil
  then show ?case using assms by (simp add: reaches_def)
next
  case (snoc x os)
  obtain r now where x: "x = (r, now)" by force
  have le: "le_generation lease = br_generation b" "\<not> le_probe lease" using assms(5) by simp_all
  let ?b = "outcomes lease os b"
  have now: "0 < now" using snoc.prems x by simp
  show ?case
  proof (cases "reaches (br_threshold b) (map fst os)")
    case True
    then have op: "is_open ?b" using snoc by simp
    then have "complete lease r now ?b = ?b" using le by (simp add: complete_open is_open_def)
    with True op show ?thesis by (simp add: x reaches_snoc)
  next
    case False
    then have b: "?b = b\<lparr>br_failures := failure_run (map fst os)\<rparr>" using snoc by simp
    consider "r = 1" | "r = -1" | "r \<noteq> 1" "r \<noteq> -1" by blast
    then show ?thesis
    proof cases
      case 3
      have "\<not> br_threshold b \<le> failure_run (map fst os)"
        using False by (metis reaches_def order_refl take_all)
      with 3 False le assms(1-4) show ?thesis by (simp add: x b reaches_snoc complete_def)
    qed (use False le assms(1-4) now in \<open>simp_all add: x b reaches_snoc complete_def is_open_def Let_def\<close>)
  qed
qed

text \<open>A closed breaker is opened by the outcomes of the calls it admitted exactly when, at
  some point, the failures since the last success reach the threshold, whatever cancellations
  come between.\<close>

theorem breaker_opens_iff:
  assumes "br_open_until b = zero_time" and "br_failures b = 0" and "0 < br_threshold b" and "0 \<le> br_cooldown b"
    and "fst (acquire now b) = Some lease" and "list_all (\<lambda>(x, t). 0 < t) os"
  shows "is_open (outcomes lease os b) \<longleftrightarrow>
    (\<exists>n \<le> length os. br_threshold b \<le> failure_run (take n (map fst os)))"
proof -
  have "lease = \<lparr>le_generation = br_generation b, le_probe = False\<rparr>" using assms(1,5) by (simp add: acquire_def)
  from outcomes_spec [OF assms(1-4) this assms(6)] show ?thesis
    using assms(1) by (auto simp: is_open_def reaches_def split: if_splits)
qed

section \<open>Concrete runs\<close>

text \<open>One failure opens the breaker; after the cooldown the next call is the probe, whose body
  is then read to its end.\<close>

lemmas upstream_eval = upstream_run_def upstream_step_def new_transport_def round_trip_acquire_def
  round_trip_permit_def round_trip_error_def round_trip_response_def body_read_error_def read_result_def
  body_close_def release_permit_def acquire_def complete_def complete_once_def put_call_def take_permit_def
  give_permit_def permits_left_def permit_for_def is_event_stream_def cancel_ctx_def in_phase_def has_body_def
  is_deadline_def is_open_def Let_def

definition outage :: "(upstream_event \<times> time) list" where
  "outage =
     [(RequestArrives ''POST'' [] None, 1), (PermitTried 0, 1), (BaseFails 0, 2), (PermitGiven 0, 3),
      (RequestArrives ''POST'' [] None, 10), (PermitTried 1, 10), (BaseResponds 1 200 [], 11)]"

definition after_outage :: resilient_transport where
  "after_outage = upstream_run outage (new_transport 1 1 1 5)"

theorem single_probe_instance: "length (filter open_probe (rt_calls after_outage)) \<le> 1"
  using single_probe [of 1 5 after_outage outage 1 1 0 undefined] by (simp add: after_outage_def)

theorem permits_bounded_instance: "spent Unary after_outage \<le> limit_of Unary after_outage"
  using permits_bounded [of 1 5 after_outage outage 1 1 Unary] by (simp add: after_outage_def)

theorem only_probe_success_closes_instance: "\<exists>i. open_probe (rt_calls after_outage ! i)"
proof -
  have "is_open (rt_breaker after_outage)"
    by (simp add: after_outage_def outage_def upstream_eval go_str)
  moreover have "\<not> is_open (rt_breaker (upstream_step (BodyRead 1 ReadEOF, 12) after_outage))"
    by (simp add: after_outage_def outage_def upstream_eval go_str)
  ultimately show ?thesis
    using only_probe_success_closes [of 1 5 after_outage outage 1 1 "BodyRead 1 ReadEOF" 12]
    by (auto simp: after_outage_def)
qed

definition all_over :: resilient_transport where
  "all_over = upstream_run (take 4 outage) (new_transport 1 1 1 5)"

theorem upstream_recovers_instance:
  "in_phase {Dispatched} 1
    (upstream_run [(RequestArrives ''GET'' [] None, 10), (PermitTried 1, 10)] all_over)"
proof -
  have "length (rt_calls all_over) = 1" "br_open_until (rt_breaker all_over) \<le> 10"
      "list_all (\<lambda>k. ca_phase k = Ended) (rt_calls all_over)" "0 < limit_of (permit_for ''GET'' []) all_over"
    by (simp_all add: all_over_def outage_def upstream_eval limit_of_def)
  then show ?thesis
    using upstream_recovers [of 1 5 all_over "take 4 outage" 1 1 10 "''GET''" "[]" None] by (simp add: all_over_def)
qed

theorem breaker_opens_iff_instance:
  "is_open (outcomes \<lparr>le_generation = 0, le_probe = False\<rparr> [(-1, 1), (0, 2), (-1, 3)]
    \<lparr>br_failures = 0, br_threshold = 2, br_cooldown = 5, br_open_until = 0, br_probing = False, br_generation = 0\<rparr>)"
proof -
  have "2 \<le> failure_run (take 3 [-1, 0, -1])" by (simp add: failure_run_def)
  then show ?thesis
    by (subst breaker_opens_iff) (auto simp: acquire_def intro!: exI [where x = 3])
qed

end
