(* ===== verification/IdempotencyStore.thy ===== *)
theory IdempotencyStore
  imports GoTime "HOL-Library.Word"
begin

text \<open>
  The gateway's store of idempotency keys (\<open>services/mcp-gateway/idempotency_store.go\<close>). The
  map from scoped keys to entry pointers is a list of entries with distinct keys; a pointer is
  the entry's identity, a number drawn at its allocation, so that the code's comparison of
  pointers is a comparison of numbers. Each operation is one critical section of the store's
  mutex and takes the clock it reads as an argument.
\<close>

section \<open>Data\<close>

record idem_scope =
  is_principal :: gostring
  is_session :: gostring

datatype idem_state = StInFlight | StDone | StUnknown | StNotReplayable

record idem_reply =
  re_status :: int
  re_content_type :: gostring
  re_body :: gostring

record idem_entry =
  ie_id :: nat
  ie_scope :: idem_scope
  ie_seq :: "64 word"
  ie_key :: gostring
  ie_hash :: gostring
  ie_state :: idem_state
  ie_reply :: idem_reply
  ie_expires :: time

text \<open>The result of \<open>begin\<close>; \<open>IdemStarted\<close> and \<open>IdemReplay\<close> come with the entry.\<close>

datatype idem_status =
    IdemStarted idem_entry
  | IdemReplay idem_entry
  | IdemConflict
  | IdemInFlight
  | IdemUnknownOutcome
  | IdemNotReplayable
  | IdemCapacity

record idem_limits =
  li_ttl :: int
  li_max_entries :: int
  li_max_inflight :: int
  li_max_reply :: int
  li_max_scope_entries :: int
  li_max_scope_inflight :: int
  li_max_principal_entries :: int
  li_max_principal_inflight :: int
  li_max_scope_tombstones :: int

definition defaultIdempotencyLimits :: idem_limits where
  "defaultIdempotencyLimits =
     \<lparr>li_ttl = 5 * minute, li_max_entries = 256, li_max_inflight = 32, li_max_reply = 32768,
      li_max_scope_entries = 32, li_max_scope_inflight = 4, li_max_principal_entries = 64,
      li_max_principal_inflight = 8, li_max_scope_tombstones = 8\<rparr>"

record idem_store =
  st_limits :: idem_limits
  st_entries :: "idem_entry list"
  st_inflight :: int
  st_seq :: "64 word"
  st_next_id :: nat

definition newIdempotencyStore :: "idem_limits \<Rightarrow> idem_store" where
  "newIdempotencyStore l =
     \<lparr>st_limits = l, st_entries = [], st_inflight = 0, st_seq = 0, st_next_id = 0\<rparr>"

definition no_reply :: idem_reply where
  "no_reply = \<lparr>re_status = 0, re_content_type = [], re_body = []\<rparr>"

section \<open>Operations\<close>

definition find_entry :: "gostring \<Rightarrow> idem_store \<Rightarrow> idem_entry option" where
  "find_entry k s = find (\<lambda>e. ie_key e = k) (st_entries s)"

definition dropLocked :: "gostring \<Rightarrow> idem_entry \<Rightarrow> idem_store \<Rightarrow> idem_store" where
  "dropLocked k e s =
     s\<lparr>st_inflight := (if ie_state e = StInFlight then st_inflight s - 1 else st_inflight s),
       st_entries := filter (\<lambda>x. ie_key x \<noteq> k) (st_entries s)\<rparr>"

definition sweepLocked :: "time \<Rightarrow> idem_store \<Rightarrow> idem_store" where
  "sweepLocked now s =
     fold (\<lambda>e s. if ie_state e \<noteq> StInFlight \<and> \<not> now < ie_expires e then dropLocked (ie_key e) e s else s)
       (st_entries s) s"

text \<open>The scan for the oldest completed entry. Completed entries have distinct sequence numbers,
  so the order in which the code ranges over its map does not matter.\<close>

fun oldest_done :: "(idem_entry \<Rightarrow> bool) \<Rightarrow> idem_entry list \<Rightarrow> idem_entry option \<Rightarrow> idem_entry option" where
  "oldest_done m [] oldest = oldest"
| "oldest_done m (e # es) oldest =
     oldest_done m es
       (if ie_state e = StDone \<and> m e \<and>
           (case oldest of None \<Rightarrow> True | Some x \<Rightarrow> ie_seq e < ie_seq x)
        then Some e else oldest)"

definition evictOldestLocked :: "(idem_entry \<Rightarrow> bool) \<Rightarrow> idem_store \<Rightarrow> idem_store option" where
  "evictOldestLocked m s =
     (case oldest_done m (st_entries s) None of
        None \<Rightarrow> None
      | Some e \<Rightarrow> Some (dropLocked (ie_key e) e s))"

definition atLimit :: "int \<Rightarrow> int \<Rightarrow> bool" where
  "atLimit n limit \<longleftrightarrow> limit > 0 \<and> n \<ge> limit"

definition count_entries :: "(idem_entry \<Rightarrow> bool) \<Rightarrow> idem_store \<Rightarrow> int" where
  "count_entries m s = int (length (filter m (st_entries s)))"

definition is_tombstone :: "idem_entry \<Rightarrow> bool" where
  "is_tombstone e \<longleftrightarrow> ie_state e = StUnknown \<or> ie_state e = StNotReplayable"

definition in_session :: "idem_scope \<Rightarrow> idem_entry \<Rightarrow> bool" where
  "in_session sc e \<longleftrightarrow> is_session (ie_scope e) = is_session sc"

definition of_principal :: "idem_scope \<Rightarrow> idem_entry \<Rightarrow> bool" where
  "of_principal sc e \<longleftrightarrow> is_principal (ie_scope e) = is_principal sc"

definition in_flight :: "idem_entry \<Rightarrow> bool" where
  "in_flight e \<longleftrightarrow> ie_state e = StInFlight"

text \<open>Make room if a bound is reached: \<^term>\<open>None\<close> when nothing can be evicted.\<close>

definition make_room :: "int \<Rightarrow> int \<Rightarrow> (idem_entry \<Rightarrow> bool) \<Rightarrow> idem_store \<Rightarrow> idem_store option" where
  "make_room n limit m s = (if atLimit n limit then evictOldestLocked m s else Some s)"

text \<open>The store is changed by evictions even when a later bound refuses the key.\<close>

definition reserve_room ::
  "idem_scope \<Rightarrow> idem_store \<Rightarrow> idem_store \<times> bool" where
  "reserve_room sc s =
     (let l = st_limits s;
          scope_entries = count_entries (in_session sc) s;
          principal_entries = count_entries (of_principal sc) s
      in case make_room scope_entries (li_max_scope_entries l) (in_session sc) s of
           None \<Rightarrow> (s, False)
         | Some s1 \<Rightarrow>
             (case make_room principal_entries (li_max_principal_entries l) (of_principal sc) s1 of
                None \<Rightarrow> (s1, False)
              | Some s2 \<Rightarrow>
                  (case make_room (int (length (st_entries s2))) (li_max_entries l) (\<lambda>_. True) s2 of
                     None \<Rightarrow> (s2, False)
                   | Some s3 \<Rightarrow> (s3, True))))"

definition at_capacity :: "idem_scope \<Rightarrow> idem_store \<Rightarrow> bool" where
  "at_capacity sc s =
     (let l = st_limits s;
          scope_inflight = count_entries (\<lambda>e. in_session sc e \<and> in_flight e) s;
          scope_tombs = count_entries (\<lambda>e. in_session sc e \<and> is_tombstone e) s;
          principal_inflight = count_entries (\<lambda>e. of_principal sc e \<and> in_flight e) s
      in atLimit (scope_tombs + scope_inflight) (li_max_scope_tombstones l) \<or>
         atLimit scope_inflight (li_max_scope_inflight l) \<or>
         atLimit principal_inflight (li_max_principal_inflight l) \<or>
         atLimit (st_inflight s) (li_max_inflight l))"

definition existing_status :: "gostring \<Rightarrow> idem_entry \<Rightarrow> idem_status" where
  "existing_status hash e =
     (if ie_hash e \<noteq> hash then IdemConflict
      else case ie_state e of
             StDone \<Rightarrow> IdemReplay e
           | StUnknown \<Rightarrow> IdemUnknownOutcome
           | StNotReplayable \<Rightarrow> IdemNotReplayable
           | StInFlight \<Rightarrow> IdemInFlight)"

definition new_entry :: "idem_scope \<Rightarrow> gostring \<Rightarrow> gostring \<Rightarrow> time \<Rightarrow> idem_store \<Rightarrow> idem_entry" where
  "new_entry sc key hash now s =
     \<lparr>ie_id = st_next_id s, ie_scope = sc, ie_seq = 0, ie_key = key, ie_hash = hash, ie_state = StInFlight,
      ie_reply = no_reply, ie_expires = now + li_ttl (st_limits s)\<rparr>"

definition idem_begin ::
  "idem_scope \<Rightarrow> gostring \<Rightarrow> gostring \<Rightarrow> time \<Rightarrow> idem_store \<Rightarrow> idem_status \<times> idem_store" where
  "idem_begin sc key hash now s0 =
     (let s = sweepLocked now s0
      in case find_entry key s of
           Some e \<Rightarrow> (existing_status hash e, s)
         | None \<Rightarrow>
             if at_capacity sc s then (IdemCapacity, s)
             else
               (case reserve_room sc s of
                  (s1, False) \<Rightarrow> (IdemCapacity, s1)
                | (s1, True) \<Rightarrow>
                    (let e = new_entry sc key hash now s1
                     in (IdemStarted e,
                         s1\<lparr>st_entries := st_entries s1 @ [e], st_inflight := st_inflight s1 + 1,
                            st_next_id := st_next_id s1 + 1\<rparr>))))"

text \<open>The caller's pointer \<open>e\<close> still is the entry of its key.\<close>

definition current_entry :: "idem_entry \<Rightarrow> idem_store \<Rightarrow> idem_entry option" where
  "current_entry e s =
     (case find_entry (ie_key e) s of
        None \<Rightarrow> None
      | Some cur \<Rightarrow> if ie_id cur = ie_id e then Some cur else None)"

definition update_entry :: "nat \<Rightarrow> (idem_entry \<Rightarrow> idem_entry) \<Rightarrow> idem_store \<Rightarrow> idem_store" where
  "update_entry i f s = s\<lparr>st_entries := map (\<lambda>x. if ie_id x = i then f x else x) (st_entries s)\<rparr>"

definition finishLocked :: "idem_entry \<Rightarrow> idem_state \<Rightarrow> time \<Rightarrow> idem_store \<Rightarrow> idem_store" where
  "finishLocked e state now s =
     (case current_entry e s of
        None \<Rightarrow> s
      | Some cur \<Rightarrow>
          (let s1 = (if ie_state cur = StInFlight then s\<lparr>st_inflight := st_inflight s - 1\<rparr> else s);
               s2 = s1\<lparr>st_seq := st_seq s1 + 1\<rparr>
           in update_entry (ie_id e)
                (\<lambda>x. x\<lparr>ie_seq := st_seq s2, ie_state := state, ie_expires := now + li_ttl (st_limits s2)\<rparr>) s2))"

definition idem_complete :: "idem_entry \<Rightarrow> idem_reply \<Rightarrow> time \<Rightarrow> idem_store \<Rightarrow> idem_store" where
  "idem_complete e reply now s =
     (if li_max_reply (st_limits s) < int (length (re_body reply)) then finishLocked e StNotReplayable now s
      else finishLocked e StDone now (update_entry (ie_id e) (\<lambda>x. x\<lparr>ie_reply := reply\<rparr>) s))"

definition idem_tombstone :: "idem_entry \<Rightarrow> idem_status \<Rightarrow> time \<Rightarrow> idem_store \<Rightarrow> idem_store" where
  "idem_tombstone e kind now s =
     (if kind = IdemNotReplayable then finishLocked e StNotReplayable now s
      else finishLocked e StUnknown now s)"

definition idem_release :: "idem_entry \<Rightarrow> idem_store \<Rightarrow> idem_store" where
  "idem_release e s =
     (case current_entry e s of None \<Rightarrow> s | Some cur \<Rightarrow> dropLocked (ie_key e) cur s)"

section \<open>Runs\<close>

datatype settlement = Complete idem_reply | Tombstone idem_status | Release

definition settle :: "settlement \<Rightarrow> idem_entry \<Rightarrow> time \<Rightarrow> idem_store \<Rightarrow> idem_store" where
  "settle c e now s =
     (case c of
        Complete reply \<Rightarrow> idem_complete e reply now s
      | Tombstone kind \<Rightarrow> idem_tombstone e kind now s
      | Release \<Rightarrow> idem_release e s)"

datatype idem_event =
    Begin idem_scope gostring gostring
  | Settle idem_entry settlement

text \<open>What a client of a store with these two operations does to it.\<close>

fun client_step ::
  "(idem_scope \<Rightarrow> gostring \<Rightarrow> gostring \<Rightarrow> time \<Rightarrow> 's \<Rightarrow> idem_status \<times> 's) \<Rightarrow>
   (settlement \<Rightarrow> idem_entry \<Rightarrow> time \<Rightarrow> 's \<Rightarrow> 's) \<Rightarrow> idem_event \<times> time \<Rightarrow> 's \<Rightarrow> 's" where
  "client_step reserve finish (Begin sc key hash, now) s = snd (reserve sc key hash now s)"
| "client_step reserve finish (Settle e c, now) s = finish c e now s"

definition idem_step :: "idem_event \<times> time \<Rightarrow> idem_store \<Rightarrow> idem_store" where
  "idem_step = client_step idem_begin settle"

definition idem_run :: "(idem_event \<times> time) list \<Rightarrow> idem_store \<Rightarrow> idem_store" where
  "idem_run es s = fold idem_step es s"

text \<open>The identities settled by a run.\<close>

definition settled_id :: "idem_event \<times> time \<Rightarrow> nat option" where
  "settled_id ev = (case fst ev of Settle e c \<Rightarrow> Some (ie_id e) | Begin _ _ _ \<Rightarrow> None)"

definition settled_ids :: "(idem_event \<times> time) list \<Rightarrow> nat list" where
  "settled_ids es = List.map_filter settled_id es"

end
