(* ===== verification/IdempotencyInv.thy ===== *)
theory IdempotencyInv
  imports IdempotencyStore
begin

text \<open>
  The invariant of the idempotency store: one entry per key, one identity per entry, an exact
  in-flight counter and every quota respected. The quotas hold because the gateway settles an
  entry at most once; the set of identities settled so far is part of the invariant.
\<close>

section \<open>Sub-stores: what sweeping and evicting do\<close>

text \<open>\<open>thinned s' s\<close>: some entries of \<open>s\<close>, none of them in flight, are gone.\<close>

definition thinned :: "idem_store \<Rightarrow> idem_store \<Rightarrow> bool" where
  "thinned s' s \<longleftrightarrow>
     (\<exists>P. s' = s\<lparr>st_entries := filter P (st_entries s)\<rparr> \<and> (\<forall>e \<in> set (st_entries s). in_flight e \<longrightarrow> P e))"

lemma thinned_refl [simp]: "thinned s s"
  by (auto simp: thinned_def intro: exI [where x = "\<lambda>_. True"])

lemma thinned_trans:
  assumes "thinned s2 s1" and "thinned s1 s"
  shows "thinned s2 s"
proof -
  obtain P Q where P: "s1 = s\<lparr>st_entries := filter P (st_entries s)\<rparr>" "\<forall>e \<in> set (st_entries s). in_flight e \<longrightarrow> P e"
    and Q: "s2 = s1\<lparr>st_entries := filter Q (st_entries s1)\<rparr>" "\<forall>e \<in> set (st_entries s1). in_flight e \<longrightarrow> Q e"
    using assms by (auto simp: thinned_def)
  have "s2 = s\<lparr>st_entries := filter (\<lambda>e. P e \<and> Q e) (st_entries s)\<rparr>" using P(1) Q(1) by (simp add: conj_commute)
  moreover have "\<forall>e \<in> set (st_entries s). in_flight e \<longrightarrow> P e \<and> Q e" using P Q by simp
  ultimately show ?thesis unfolding thinned_def by blast
qed

lemma thinnedD:
  assumes "thinned s' s"
  shows "set (st_entries s') \<subseteq> set (st_entries s)" "st_limits s' = st_limits s" "st_seq s' = st_seq s"
    "st_inflight s' = st_inflight s" "st_next_id s' = st_next_id s"
    "distinct (map ie_key (st_entries s)) \<Longrightarrow> distinct (map ie_key (st_entries s'))"
    "distinct (map ie_id (st_entries s)) \<Longrightarrow> distinct (map ie_id (st_entries s'))"
    "count_entries m s' \<le> count_entries m s"
    "in_flight e \<Longrightarrow> e \<in> set (st_entries s) \<Longrightarrow> e \<in> set (st_entries s')"
  using assms by (auto simp: thinned_def count_entries_def distinct_map_filter intro!: length_filter_mono)

lemma thinned_in_flight_count:
  assumes "thinned s' s" and "\<And>e. m e \<Longrightarrow> in_flight e"
  shows "count_entries m s' = count_entries m s"
proof -
  obtain P where "s' = s\<lparr>st_entries := filter P (st_entries s)\<rparr>" "\<forall>e \<in> set (st_entries s). in_flight e \<longrightarrow> P e"
    using assms(1) by (auto simp: thinned_def)
  then show ?thesis using assms(2) by (auto simp: count_entries_def intro!: arg_cong [where f = length] filter_cong)
qed

lemma find_entry_None: "find_entry k s = None \<longleftrightarrow> k \<notin> ie_key ` set (st_entries s)"
  by (auto simp: find_entry_def find_None_iff)

lemma find_entry_Some: "find_entry k s = Some e \<Longrightarrow> e \<in> set (st_entries s) \<and> ie_key e = k"
  by (auto simp: find_entry_def find_Some_iff)

lemma find_entry_unique:
  "distinct (map ie_key (st_entries s)) \<Longrightarrow> e \<in> set (st_entries s) \<Longrightarrow> find_entry (ie_key e) s = Some e"
  by (metis find_entry_None find_entry_Some distinct_map image_eqI inj_on_eq_iff not_None_eq)

lemma drop_thinned:
  assumes "e \<in> set (st_entries s)" and "\<not> in_flight e" and "distinct (map ie_key (st_entries s))"
  shows "thinned (dropLocked (ie_key e) e s) s"
proof -
  have "\<forall>x \<in> set (st_entries s). in_flight x \<longrightarrow> ie_key x \<noteq> ie_key e"
    using assms by (metis distinct_map inj_on_eq_iff)
  then show ?thesis using assms(2) unfolding thinned_def dropLocked_def in_flight_def by auto
qed

definition expired :: "time \<Rightarrow> idem_entry \<Rightarrow> bool" where
  "expired now e \<longleftrightarrow> ie_state e \<noteq> StInFlight \<and> \<not> now < ie_expires e"

lemma sweep_loop:
  "fold (\<lambda>e s. if ie_state e \<noteq> StInFlight \<and> \<not> now < ie_expires e then dropLocked (ie_key e) e s else s) es s =
     s\<lparr>st_entries := filter (\<lambda>x. ie_key x \<notin> ie_key ` set (filter (expired now) es)) (st_entries s)\<rparr>"
  by (induction es arbitrary: s) (auto simp: dropLocked_def expired_def intro!: filter_cong)

lemma sweepLocked_eq:
  assumes "distinct (map ie_key (st_entries s))"
  shows "sweepLocked now s = s\<lparr>st_entries := filter (\<lambda>e. \<not> expired now e) (st_entries s)\<rparr>"
proof -
  have "filter (\<lambda>x. ie_key x \<notin> ie_key ` set (filter (expired now) (st_entries s))) (st_entries s) =
      filter (\<lambda>e. \<not> expired now e) (st_entries s)"
  proof (rule filter_cong [OF refl])
    fix x assume "x \<in> set (st_entries s)"
    then show "(ie_key x \<notin> ie_key ` set (filter (expired now) (st_entries s))) = (\<not> expired now x)"
      using assms by (auto simp: distinct_map dest: inj_onD)
  qed
  then show ?thesis by (simp only: sweepLocked_def sweep_loop)
qed

lemma sweep_thinned: "distinct (map ie_key (st_entries s)) \<Longrightarrow> thinned (sweepLocked now s) s"
  by (auto simp: sweepLocked_eq thinned_def expired_def in_flight_def)

lemma oldest_done_mem:
  assumes "oldest_done m es oldest = Some e"
  shows "oldest = Some e \<or> e \<in> set es \<and> ie_state e = StDone \<and> m e"
  using assms by (induction m es oldest rule: oldest_done.induct) (auto split: if_splits)

lemma evict_thinned:
  assumes "evictOldestLocked m s = Some s'" and "distinct (map ie_key (st_entries s))"
  shows "thinned s' s \<and> count_entries m s' < count_entries m s \<and>
    (\<forall>e \<in> set (st_entries s). ie_state e \<noteq> StDone \<longrightarrow> e \<in> set (st_entries s'))"
proof -
  obtain e where e: "oldest_done m (st_entries s) None = Some e" and s': "s' = dropLocked (ie_key e) e s"
    using assms(1) by (auto simp: evictOldestLocked_def split: option.splits)
  then have mem: "e \<in> set (st_entries s)" "ie_state e = StDone" "m e" using oldest_done_mem [OF e] by auto
  have thin: "thinned s' s" using drop_thinned [OF mem(1) _ assms(2)] mem(2) s' by (simp add: in_flight_def)
  have keep: "x \<in> set (st_entries s')" if "x \<in> set (st_entries s)" "ie_state x \<noteq> StDone" for x
    using that mem assms(2) by (auto simp: s' dropLocked_def distinct_map dest: inj_onD)
  have "set (filter m (st_entries s')) \<subset> set (filter m (st_entries s))"
    using mem thinnedD(1) [OF thin] by (auto simp: s' dropLocked_def)
  moreover have "distinct (st_entries s)" "distinct (st_entries s')"
    using assms(2) thinnedD(6) [OF thin] by (auto simp: distinct_map)
  ultimately have "count_entries m s' < count_entries m s"
    by (simp add: count_entries_def flip: distinct_card) (metis List.finite_set psubset_card_mono set_filter)
  with thin keep show ?thesis by blast
qed

section \<open>The invariant\<close>

text \<open>The quotas of one scope: what is counted and its limit.\<close>

definition quotas :: "idem_scope \<Rightarrow> idem_limits \<Rightarrow> ((idem_entry \<Rightarrow> bool) \<times> int) list" where
  "quotas sc l =
     [(\<lambda>_. True, li_max_entries l), (in_flight, li_max_inflight l),
      (in_session sc, li_max_scope_entries l), (\<lambda>e. in_session sc e \<and> in_flight e, li_max_scope_inflight l),
      (of_principal sc, li_max_principal_entries l),
      (\<lambda>e. of_principal sc e \<and> in_flight e, li_max_principal_inflight l),
      (\<lambda>e. in_session sc e \<and> (is_tombstone e \<or> in_flight e), li_max_scope_tombstones l)]"

definition within :: "(idem_entry \<Rightarrow> bool) \<times> int \<Rightarrow> idem_store \<Rightarrow> bool" where
  "within q s \<longleftrightarrow> snd q > 0 \<longrightarrow> count_entries (fst q) s \<le> snd q"

definition quotas_ok :: "idem_store \<Rightarrow> bool" where
  "quotas_ok s \<longleftrightarrow> (\<forall>sc. \<forall>q \<in> set (quotas sc (st_limits s)). within q s)"

definition store_shape :: "idem_store \<Rightarrow> bool" where
  "store_shape s \<longleftrightarrow>
     distinct (map ie_key (st_entries s)) \<and> distinct (map ie_id (st_entries s)) \<and>
     (\<forall>e \<in> set (st_entries s). ie_id e < st_next_id s) \<and> st_inflight s = count_entries in_flight s"

definition idem_ok :: "nat set \<Rightarrow> idem_store \<Rightarrow> bool" where
  "idem_ok settled s \<longleftrightarrow>
     store_shape s \<and> quotas_ok s \<and> (\<forall>e \<in> set (st_entries s). \<not> in_flight e \<longrightarrow> ie_id e \<in> settled)"

lemma quotas_thinned: "thinned s' s \<Longrightarrow> quotas_ok s \<Longrightarrow> quotas_ok s'"
  unfolding quotas_ok_def within_def by (metis thinnedD(2,8) order_trans)

lemma store_shape_thinned: "thinned s' s \<Longrightarrow> store_shape s \<Longrightarrow> store_shape s'"
  by (auto simp: store_shape_def thinned_in_flight_count thinnedD(4,5) intro: thinnedD(6,7)
      dest: thinnedD(1) [THEN subsetD])

lemma thinned_ok: "thinned s' s \<Longrightarrow> idem_ok S s \<Longrightarrow> idem_ok S s'"
  by (auto simp: idem_ok_def intro: quotas_thinned store_shape_thinned dest: thinnedD(1) [THEN subsetD])

section \<open>Making room\<close>

lemma make_room_thinned:
  assumes "make_room n limit m s = Some s'" and "distinct (map ie_key (st_entries s))"
    and "count_entries m s \<le> n" and "0 < limit \<longrightarrow> n \<le> limit"
  shows "thinned s' s \<and> (0 < limit \<longrightarrow> count_entries m s' < limit)"
  using assms evict_thinned [of m s s'] by (fastforce simp: make_room_def atLimit_def split: if_splits)

lemma count_all: "count_entries (\<lambda>_. True) s = int (length (st_entries s))"
  by (simp add: count_entries_def)

lemma quota_of:
  assumes "idem_ok S s"
  shows "0 < li_max_scope_entries (st_limits s) \<longrightarrow> count_entries (in_session sc) s \<le> li_max_scope_entries (st_limits s)"
    "0 < li_max_principal_entries (st_limits s) \<longrightarrow> count_entries (of_principal sc) s \<le> li_max_principal_entries (st_limits s)"
    "0 < li_max_entries (st_limits s) \<longrightarrow> count_entries (\<lambda>_. True) s \<le> li_max_entries (st_limits s)"
  using assms by (auto simp: idem_ok_def quotas_ok_def within_def quotas_def)

lemma reserve_room_thinned:
  assumes ok: "idem_ok S s" and room: "reserve_room sc s = (s', b)"
  shows "thinned s' s \<and>
    (b \<longrightarrow> (0 < li_max_scope_entries (st_limits s) \<longrightarrow> count_entries (in_session sc) s' < li_max_scope_entries (st_limits s)) \<and>
           (0 < li_max_principal_entries (st_limits s) \<longrightarrow> count_entries (of_principal sc) s' < li_max_principal_entries (st_limits s)) \<and>
           (0 < li_max_entries (st_limits s) \<longrightarrow> count_entries (\<lambda>_. True) s' < li_max_entries (st_limits s)))"
proof -
  let ?l = "st_limits s"
  have keys: "distinct (map ie_key (st_entries s))" using ok by (simp add: idem_ok_def store_shape_def)
  show ?thesis
  proof (cases "make_room (count_entries (in_session sc) s) (li_max_scope_entries ?l) (in_session sc) s")
    case None
    then show ?thesis using room by (simp add: reserve_room_def Let_def)
  next
    case (Some s1)
    have q1: "thinned s1 s \<and> (0 < li_max_scope_entries ?l \<longrightarrow> count_entries (in_session sc) s1 < li_max_scope_entries ?l)"
      using make_room_thinned [OF Some keys order_refl quota_of(1) [OF ok]] .
    note keys1 = thinnedD(6) [OF conjunct1 [OF q1] keys]
    show ?thesis
    proof (cases "make_room (count_entries (of_principal sc) s) (li_max_principal_entries ?l) (of_principal sc) s1")
      case None
      then show ?thesis using room Some q1 by (simp add: reserve_room_def Let_def)
    next
      case Some2: (Some s2)
      have q2: "thinned s2 s1 \<and> (0 < li_max_principal_entries ?l \<longrightarrow> count_entries (of_principal sc) s2 < li_max_principal_entries ?l)"
        using make_room_thinned [OF Some2 keys1 thinnedD(8) [OF conjunct1 [OF q1]] quota_of(2) [OF ok]] .
      have t2: "thinned s2 s" using q1 q2 thinned_trans by blast
      note keys2 = thinnedD(6) [OF t2 keys]
      show ?thesis
      proof (cases "make_room (int (length (st_entries s2))) (li_max_entries ?l) (\<lambda>_. True) s2")
        case None
        then show ?thesis using room Some Some2 t2 by (simp add: reserve_room_def Let_def)
      next
        case Some3: (Some s3)
        have "0 < li_max_entries ?l \<longrightarrow> int (length (st_entries s2)) \<le> li_max_entries ?l"
          using quota_of(3) [OF ok] thinnedD(8) [OF t2, of "\<lambda>_. True"] by (auto simp: count_all)
        then have q3: "thinned s3 s2 \<and> (0 < li_max_entries ?l \<longrightarrow> count_entries (\<lambda>_. True) s3 < li_max_entries ?l)"
          using make_room_thinned [OF Some3 keys2] by (simp add: count_all)
        have s': "s' = s3" using room Some Some2 Some3 by (simp add: reserve_room_def Let_def)
        have le: "count_entries m s3 \<le> count_entries m s2" "count_entries m s2 \<le> count_entries m s1" for m
          using q2 q3 by (auto intro: thinnedD(8))
        have "0 < li_max_scope_entries ?l \<longrightarrow> count_entries (in_session sc) s3 < li_max_scope_entries ?l"
          using q1 le(1,2) [of "in_session sc"] by linarith
        moreover have "0 < li_max_principal_entries ?l \<longrightarrow> count_entries (of_principal sc) s3 < li_max_principal_entries ?l"
          using q2 le(1) [of "of_principal sc"] by linarith
        ultimately show ?thesis unfolding s' using q3 t2 thinned_trans [of s3 s2 s] by simp
      qed
    qed
  qed
qed

section \<open>Every operation keeps it\<close>

lemma count_split:
  "count_entries (\<lambda>e. in_session sc e \<and> (is_tombstone e \<or> in_flight e)) s =
     count_entries (\<lambda>e. in_session sc e \<and> is_tombstone e) s + count_entries (\<lambda>e. in_session sc e \<and> in_flight e) s"
proof -
  have "length (filter (\<lambda>e. in_session sc e \<and> (is_tombstone e \<or> in_flight e)) es) =
      length (filter (\<lambda>e. in_session sc e \<and> is_tombstone e) es) +
      length (filter (\<lambda>e. in_session sc e \<and> in_flight e) es)" for es
    by (induction es) (auto simp: is_tombstone_def in_flight_def)
  then show ?thesis by (simp add: count_entries_def)
qed

text \<open>The store after the new entry was added.\<close>

definition add_entry :: "idem_scope \<Rightarrow> gostring \<Rightarrow> gostring \<Rightarrow> time \<Rightarrow> idem_store \<Rightarrow> idem_store" where
  "add_entry sc key hash now s =
     s\<lparr>st_entries := st_entries s @ [new_entry sc key hash now s], st_inflight := st_inflight s + 1,
       st_next_id := st_next_id s + 1\<rparr>"

lemma count_add:
  "count_entries m (add_entry sc key hash now s) = count_entries m s + (if m (new_entry sc key hash now s) then 1 else 0)"
  by (simp add: count_entries_def add_entry_def)

lemma add_entry_quotas:
  assumes ok: "idem_ok S s" and cap: "\<not> at_capacity sc s" and room: "reserve_room sc s = (s1, True)"
  shows "quotas_ok (add_entry sc key hash now s1)"
proof -
  let ?e = "new_entry sc key hash now s1" and ?l = "st_limits s"
  have thin: "thinned s1 s" and free:
      "0 < li_max_scope_entries ?l \<longrightarrow> count_entries (in_session sc) s1 < li_max_scope_entries ?l"
      "0 < li_max_principal_entries ?l \<longrightarrow> count_entries (of_principal sc) s1 < li_max_principal_entries ?l"
      "0 < li_max_entries ?l \<longrightarrow> count_entries (\<lambda>_. True) s1 < li_max_entries ?l"
    using reserve_room_thinned [OF ok room] by auto
  have old: "within q s1" if "q \<in> set (quotas sc' ?l)" for q sc'
    using thinned_ok [OF thin ok] that thinnedD(2) [OF thin] by (simp add: idem_ok_def quotas_ok_def)
  have "st_inflight s = count_entries in_flight s" using ok by (simp add: idem_ok_def store_shape_def)
  then have busy:
      "0 < li_max_scope_tombstones ?l \<longrightarrow>
         count_entries (\<lambda>e. in_session sc e \<and> (is_tombstone e \<or> in_flight e)) s1 < li_max_scope_tombstones ?l"
      "0 < li_max_scope_inflight ?l \<longrightarrow> count_entries (\<lambda>e. in_session sc e \<and> in_flight e) s1 < li_max_scope_inflight ?l"
      "0 < li_max_principal_inflight ?l \<longrightarrow> count_entries (\<lambda>e. of_principal sc e \<and> in_flight e) s1 < li_max_principal_inflight ?l"
      "0 < li_max_inflight ?l \<longrightarrow> count_entries in_flight s1 < li_max_inflight ?l"
    using cap thinnedD(8) [OF thin, of "\<lambda>e. in_session sc e \<and> (is_tombstone e \<or> in_flight e)"]
      thinnedD(8) [OF thin, of "\<lambda>e. in_session sc e \<and> in_flight e"]
      thinnedD(8) [OF thin, of "\<lambda>e. of_principal sc e \<and> in_flight e"] thinnedD(8) [OF thin, of in_flight]
    by (auto simp: at_capacity_def atLimit_def Let_def count_split)
  have same: "in_session sc' = in_session sc" if "is_session sc' = is_session sc" for sc'
    using that by (auto simp: in_session_def fun_eq_iff)
  have same': "of_principal sc' = of_principal sc" if "is_principal sc' = is_principal sc" for sc'
    using that by (auto simp: of_principal_def fun_eq_iff)
  have new: "in_flight ?e" "in_session sc' ?e \<longleftrightarrow> is_session sc' = is_session sc"
      "of_principal sc' ?e \<longleftrightarrow> is_principal sc' = is_principal sc" "\<not> is_tombstone ?e" for sc'
    by (auto simp: new_entry_def in_flight_def in_session_def of_principal_def is_tombstone_def)
  have "within q (add_entry sc key hash now s1)" if q: "q \<in> set (quotas sc' ?l)" for q sc'
  proof -
    have "count_entries (fst q) s1 < snd q" if "fst q ?e" "0 < snd q"
    proof (cases "is_session sc' = is_session sc")
      case True
      then show ?thesis
        using q that free busy same [of sc'] same' [of sc'] unfolding quotas_def list.set insert_iff empty_iff
        by (elim disjE) (simp_all add: new)
    next
      case False
      then show ?thesis
        using q that free busy same' [of sc'] unfolding quotas_def list.set insert_iff empty_iff
        by (elim disjE) (simp_all add: new)
    qed
    then show ?thesis using old [OF q] by (auto simp: within_def count_add)
  qed
  then show ?thesis using thinnedD(2) [OF thin] by (simp add: quotas_ok_def add_entry_def)
qed

lemma idem_begin_cases:
  assumes ok: "idem_ok S s"
  obtains (existing) e where "find_entry key (sweepLocked now s) = Some e" "thinned (sweepLocked now s) s"
      "idem_begin sc key hash now s = (existing_status hash e, sweepLocked now s)"
  | (full) s' where "thinned s' s" "idem_begin sc key hash now s = (IdemCapacity, s')"
  | (started) s1 where "thinned s1 s" "key \<notin> ie_key ` set (st_entries s1)"
      "quotas_ok (add_entry sc key hash now s1)" "find_entry key (sweepLocked now s) = None"
      "idem_begin sc key hash now s = (IdemStarted (new_entry sc key hash now s1), add_entry sc key hash now s1)"
proof -
  have thin: "thinned (sweepLocked now s) s" using ok by (intro sweep_thinned) (simp add: idem_ok_def store_shape_def)
  have ok': "idem_ok S (sweepLocked now s)" using thinned_ok [OF thin ok] .
  show thesis
  proof (cases "find_entry key (sweepLocked now s)")
    case (Some e)
    then show thesis using existing thin by (simp add: idem_begin_def)
  next
    case None
    obtain s1 b where room: "reserve_room sc (sweepLocked now s) = (s1, b)" by force
    have thin1: "thinned s1 (sweepLocked now s)" using reserve_room_thinned [OF ok' room] by blast
    have thin2: "thinned s1 s" by (rule thinned_trans [OF thin1 thin])
    have free: "key \<notin> ie_key ` set (st_entries s1)" using None thinnedD(1) [OF thin1] by (auto simp: find_entry_None)
    show thesis
    proof (cases "at_capacity sc (sweepLocked now s) \<or> \<not> b")
      case True
      then show thesis
        using None room full [OF thin] full [OF thin2]
        by (cases "at_capacity sc (sweepLocked now s)") (simp_all add: idem_begin_def)
    next
      case False
      then have "idem_begin sc key hash now s = (IdemStarted (new_entry sc key hash now s1), add_entry sc key hash now s1)"
        using None room by (simp add: idem_begin_def Let_def add_entry_def)
      moreover have "quotas_ok (add_entry sc key hash now s1)" using False room by (auto intro: add_entry_quotas [OF ok'])
      ultimately show thesis using thin2 free None by (intro started)
    qed
  qed
qed

lemma begin_ok:
  assumes ok: "idem_ok S s"
  shows "idem_ok S (snd (idem_begin sc key hash now s))"
  using ok
proof (cases rule: idem_begin_cases [where key = key and now = now and sc = sc and hash = hash])
  case (existing e)
  then show ?thesis
    using ok by (auto intro: thinned_ok)
next
  case (full s')
  then show ?thesis using ok by (auto intro: thinned_ok)
next
  case (started s1)
  then show ?thesis
    using thinned_ok [OF started(1) ok]
    by (auto simp: idem_ok_def store_shape_def add_entry_def new_entry_def in_flight_def count_entries_def)
qed

text \<open>Settling an entry that is in flight.\<close>

lemma current_entry_Some:
  "current_entry e s = Some cur \<Longrightarrow> cur \<in> set (st_entries s) \<and> ie_key cur = ie_key e \<and> ie_id cur = ie_id e"
  by (auto simp: current_entry_def dest: find_entry_Some split: option.splits if_splits)

text \<open>Changing the entry with identity \<open>i\<close>, not its key, identity or scope, into one no longer in
  flight: nothing that a quota counts grows.\<close>

definition settles :: "(idem_entry \<Rightarrow> idem_entry) \<Rightarrow> bool" where
  "settles f \<longleftrightarrow>
     (\<forall>x. ie_id (f x) = ie_id x \<and> ie_key (f x) = ie_key x \<and> ie_scope (f x) = ie_scope x \<and> \<not> in_flight (f x))"

lemma map_if_id: "map g (map (\<lambda>x. if P x then f x else x) xs) = map g xs" if "\<And>x. g (f x) = g x"
  using that by simp

lemma update_entry_ids:
  assumes "settles f"
  shows "map ie_key (st_entries (update_entry i f s)) = map ie_key (st_entries s)"
    "map ie_id (st_entries (update_entry i f s)) = map ie_id (st_entries s)"
  using assms by (auto simp: update_entry_def settles_def)

lemma count_map_le:
  "(\<And>x. x \<in> set xs \<Longrightarrow> m (g x) \<Longrightarrow> m x) \<Longrightarrow> length (filter m (map g xs)) \<le> length (filter m xs)"
  by (induction xs) (auto simp: le_SucI)

lemma settle_in_flight_count:
  assumes "settles f" and "distinct (map ie_id es)" and "cur \<in> set es" and "in_flight cur"
  shows "length (filter in_flight (map (\<lambda>x. if ie_id x = ie_id cur then f x else x) es)) + 1 = length (filter in_flight es)"
  using assms(2,3)
proof (induction es)
  case Nil
  then show ?case by simp
next
  case (Cons x es)
  show ?case
  proof (cases "x = cur")
    case True
    then have "ie_id y \<noteq> ie_id cur" if "y \<in> set es" for y
      using Cons.prems(1) that by simp (metis image_eqI)
    then have "map (\<lambda>x. if ie_id x = ie_id cur then f x else x) es = es" by (auto intro: map_idI)
    then show ?thesis using True assms by (simp add: settles_def)
  next
    case False
    then have "ie_id x \<noteq> ie_id cur" "cur \<in> set es" using Cons.prems by auto
    then show ?thesis using Cons by simp
  qed
qed

lemma update_entry_ok:
  assumes ok: "idem_ok S s" and cur: "cur \<in> set (st_entries s)" "in_flight cur" and f: "settles f"
  shows "idem_ok (insert (ie_id cur) S) ((update_entry (ie_id cur) f s)\<lparr>st_inflight := st_inflight s - 1, st_seq := q\<rparr>)"
    (is "idem_ok _ ?s")
proof -
  let ?g = "\<lambda>x. if ie_id x = ie_id cur then f x else x"
  have es: "st_entries ?s = map ?g (st_entries s)" by (simp add: update_entry_def)
  have shape: "store_shape s" using ok by (simp add: idem_ok_def)
  have only: "x = cur" if "x \<in> set (st_entries s)" "ie_id x = ie_id cur" for x
    using that cur shape by (auto simp: store_shape_def distinct_map dest: inj_onD)
  have counts: "count_entries m ?s \<le> count_entries m s" if m: "m (f cur) \<Longrightarrow> m cur" for m
  proof -
    have "length (filter m (map ?g (st_entries s))) \<le> length (filter m (st_entries s))"
    proof (rule count_map_le)
      fix x assume "x \<in> set (st_entries s)" "m (?g x)"
      then show "m x" using only [of x] m by (cases "ie_id x = ie_id cur") auto
    qed
    then show ?thesis by (simp only: count_entries_def es of_nat_le_iff)
  qed
  have "within p ?s" if "p \<in> set (quotas sc (st_limits s))" for p sc
  proof -
    have "within p s" using ok that by (simp add: idem_ok_def quotas_ok_def)
    moreover have "count_entries (fst p) ?s \<le> count_entries (fst p) s"
      using that f cur(2) by (intro counts)
        (auto simp: quotas_def settles_def in_session_def of_principal_def)
    ultimately show ?thesis unfolding within_def by (meson order_trans)
  qed
  then have quotas: "quotas_ok ?s" by (simp add: quotas_ok_def update_entry_def)
  have "count_entries in_flight ?s = count_entries in_flight s - 1"
    using settle_in_flight_count [OF f _ cur] shape unfolding count_entries_def es store_shape_def by linarith
  then have "store_shape ?s"
    using shape f by (auto simp: store_shape_def es settles_def update_entry_def o_def if_distrib cong: if_cong)
  then show ?thesis using ok quotas f by (auto simp: idem_ok_def es settles_def)
qed

lemma finish_settles: "state \<noteq> StInFlight \<Longrightarrow> settles (\<lambda>x. x\<lparr>ie_seq := n, ie_state := state, ie_expires := t\<rparr>)"
  by (simp add: settles_def in_flight_def)

lemma count_map_eq: "(\<And>x. m (g x) = m x) \<Longrightarrow> length (filter m (map g xs)) = length (filter m xs)"
  by (induction xs) auto

lemma update_same_ok:
  assumes ok: "idem_ok S s"
    and f: "\<And>x. ie_id (f x) = ie_id x \<and> ie_key (f x) = ie_key x \<and> ie_scope (f x) = ie_scope x \<and> ie_state (f x) = ie_state x"
  shows "idem_ok S (update_entry i f s)"
proof -
  let ?g = "\<lambda>x. if ie_id x = i then f x else x"
  have same: "in_flight (?g x) = in_flight x" "in_session sc (?g x) = in_session sc x"
      "of_principal sc (?g x) = of_principal sc x" "is_tombstone (?g x) = is_tombstone x"
      "ie_id (?g x) = ie_id x" "ie_key (?g x) = ie_key x" for x sc
    using f by (simp_all add: in_flight_def in_session_def of_principal_def is_tombstone_def)
  have count: "count_entries m (update_entry i f s) = count_entries m s" if "\<And>x. m (?g x) = m x" for m
    using count_map_eq [where g = ?g and m = m] that by (simp add: count_entries_def update_entry_def)
  have maps: "map ie_key (map ?g es) = map ie_key es" "map ie_id (map ?g es) = map ie_id es" for es
    using same(5,6) by simp_all
  have "quotas_ok (update_entry i f s)"
    using ok same count by (simp add: idem_ok_def quotas_ok_def quotas_def within_def update_entry_def)
  moreover have "store_shape (update_entry i f s)"
  proof -
    let ?t = "update_entry i f s"
    have es: "st_entries ?t = map ?g (st_entries s)" and rest: "st_inflight ?t = st_inflight s" "st_next_id ?t = st_next_id s"
      by (simp_all add: update_entry_def)
    have "\<forall>e \<in> set (st_entries ?t). ie_id e < st_next_id s"
    proof
      fix e assume "e \<in> set (st_entries ?t)"
      then obtain x where "x \<in> set (st_entries s)" "e = ?g x" unfolding es set_map by blast
      then show "ie_id e < st_next_id s" using ok same(5) [of x] by (simp only: idem_ok_def store_shape_def)
    qed
    moreover have "map ie_key (st_entries ?t) = map ie_key (st_entries s)"
      "map ie_id (st_entries ?t) = map ie_id (st_entries s)" unfolding es by (rule maps)+
    ultimately show ?thesis
      using ok count [of in_flight, OF same(1)] unfolding idem_ok_def store_shape_def rest by simp
  qed
  moreover have "ie_id e \<in> S" if "e \<in> set (st_entries (update_entry i f s))" "\<not> in_flight e" for e
  proof -
    have "st_entries (update_entry i f s) = map ?g (st_entries s)" by (simp add: update_entry_def)
    with that(1) obtain x where "x \<in> set (st_entries s)" "e = ?g x" unfolding set_map by force
    then show ?thesis using ok same(1,5) [of x] that(2) by (simp only: idem_ok_def) blast
  qed
  ultimately show ?thesis by (simp add: idem_ok_def)
qed

lemma finish_eq:
  assumes "current_entry e s = Some cur" and "in_flight cur"
  shows "finishLocked e state now s =
    (update_entry (ie_id cur)
      (\<lambda>x. x\<lparr>ie_seq := st_seq s + 1, ie_state := state, ie_expires := now + li_ttl (st_limits s)\<rparr>) s)
      \<lparr>st_inflight := st_inflight s - 1, st_seq := st_seq s + 1\<rparr>"
  using assms current_entry_Some [OF assms(1)]
  by (simp add: finishLocked_def Let_def update_entry_def in_flight_def)

lemma in_flight_unsettled: "idem_ok S s \<Longrightarrow> e \<in> set (st_entries s) \<Longrightarrow> ie_id e \<notin> S \<Longrightarrow> in_flight e"
  by (auto simp: idem_ok_def)

lemma idem_ok_mono: "idem_ok S s \<Longrightarrow> S \<subseteq> T \<Longrightarrow> idem_ok T s"
  by (auto simp: idem_ok_def)

lemma finish_ok:
  assumes ok: "idem_ok S s" and "ie_id e \<notin> S" and "state \<noteq> StInFlight"
  shows "idem_ok (insert (ie_id e) S) (finishLocked e state now s)"
proof (cases "current_entry e s")
  case None
  then show ?thesis using ok by (auto simp: finishLocked_def intro: idem_ok_mono)
next
  case (Some cur)
  note c = current_entry_Some [OF Some]
  have fl: "in_flight cur" using in_flight_unsettled [OF ok] c assms(2) by metis
  show ?thesis unfolding finish_eq [OF Some fl]
    using update_entry_ok [OF ok _ fl finish_settles [OF assms(3)]] c by simp
qed

lemma release_ok:
  assumes ok: "idem_ok S s" and "ie_id e \<notin> S"
  shows "idem_ok (insert (ie_id e) S) (idem_release e s)"
proof (cases "current_entry e s")
  case None
  then show ?thesis using ok by (auto simp: idem_release_def intro: idem_ok_mono)
next
  case (Some cur)
  note c = current_entry_Some [OF Some]
  have fl: "in_flight cur" using in_flight_unsettled [OF ok] c assms(2) by metis
  let ?es = "filter (\<lambda>x. ie_key x \<noteq> ie_key e) (st_entries s)"
  have eq: "idem_release e s = s\<lparr>st_inflight := st_inflight s - 1, st_entries := ?es\<rparr>"
    using Some fl by (simp add: idem_release_def dropLocked_def in_flight_def)
  have le: "length (filter m ?es) \<le> length (filter m (st_entries s))" for m
    by (auto intro: length_filter_mono)
  have only: "x = cur" if "x \<in> set (st_entries s)" "ie_key x = ie_key e" for x
    using that c ok unfolding idem_ok_def store_shape_def distinct_map by (metis inj_onD)
  have out: "set (filter in_flight (st_entries s)) = insert cur (set (filter in_flight ?es))"
    using c fl only by auto
  have dist: "distinct (filter in_flight (st_entries s))" "distinct (filter in_flight ?es)" "cur \<notin> set (filter in_flight ?es)"
    using ok c by (auto simp: idem_ok_def store_shape_def distinct_map)
  have "length (filter in_flight (st_entries s)) = length (filter in_flight ?es) + 1"
    using dist out by (metis List.finite_set Suc_eq_plus1 card_insert_disjoint distinct_card)
  then have "store_shape (idem_release e s)"
    using ok by (auto simp: eq idem_ok_def store_shape_def count_entries_def distinct_map_filter)
  moreover have "quotas_ok (idem_release e s)"
  proof -
    have "within q (idem_release e s)" if "within q s" for q
      using that le [of "fst q"] by (auto simp: within_def eq count_entries_def)
    then show ?thesis using ok by (simp add: idem_ok_def quotas_ok_def eq)
  qed
  ultimately show ?thesis using ok by (auto simp: eq idem_ok_def)
qed

lemma settle_ok:
  assumes "idem_ok S s" and "ie_id e \<notin> S"
  shows "idem_ok (insert (ie_id e) S) (settle c e now s)"
  using assms
  by (cases c) (auto simp: settle_def idem_complete_def idem_tombstone_def
      intro: release_ok intro!: finish_ok update_same_ok)

end
