(* ===== verification/IdempotencyClaims.thy ===== *)
theory IdempotencyClaims
  imports IdempotencyInv
begin

text \<open>
  What the gateway relies on in its idempotency store, first as an interface: a locale over the
  operations of Go's interface \<open>idempotencyStore\<close>, with the laws its comments promise, and the
  client's two guarantees proved once from them. The in-memory store is an interpretation.
  Then the properties of that store: its quotas and the origin of every replayed reply.
\<close>

section \<open>The interface\<close>

text \<open>\<open>held s e t\<close>: the entry \<open>e\<close> keeps its key from being started again, at least up to time
  \<open>t\<close>.\<close>

locale idempotency_interface =
  fixes reserve :: "idem_scope \<Rightarrow> gostring \<Rightarrow> gostring \<Rightarrow> time \<Rightarrow> 's \<Rightarrow> idem_status \<times> 's"
    and finish :: "settlement \<Rightarrow> idem_entry \<Rightarrow> time \<Rightarrow> 's \<Rightarrow> 's"
    and inv :: "'s \<Rightarrow> bool"
    and present :: "'s \<Rightarrow> idem_entry \<Rightarrow> bool"
    and held :: "'s \<Rightarrow> idem_entry \<Rightarrow> time \<Rightarrow> bool"
    and ttl :: "'s \<Rightarrow> int"
  assumes reserve_inv: "inv s \<Longrightarrow> inv (snd (reserve sc key hash now s))"
    and finish_inv: "inv s \<Longrightarrow> inv (finish c e now s)"
    and reserve_started:
      "inv s \<Longrightarrow> reserve sc key hash now s = (IdemStarted e, s') \<Longrightarrow> ie_key e = key \<and> held s' e t"
    and reserve_refused: "inv s \<Longrightarrow> held s e t \<Longrightarrow> now \<le> t \<Longrightarrow> fst (reserve sc (ie_key e) hash now s) \<noteq> IdemStarted e'"
    and reserve_held: "inv s \<Longrightarrow> held s e t \<Longrightarrow> now \<le> t \<Longrightarrow> held (snd (reserve sc key hash now s)) e t"
    and finish_held: "inv s \<Longrightarrow> held s e t \<Longrightarrow> ie_id e' \<noteq> ie_id e \<Longrightarrow> held (finish c e' now s) e t"
    and tombstone_held:
      "inv s \<Longrightarrow> present s e \<Longrightarrow> t < now + ttl s \<Longrightarrow> held (finish (Tombstone kind) e now s) e t"
begin

lemma step_inv: "inv s \<Longrightarrow> inv (client_step reserve finish ev s)"
  by (cases "(reserve, finish, ev, s)" rule: client_step.cases) (auto intro: reserve_inv finish_inv)

lemma run_inv: "inv s \<Longrightarrow> inv (fold (client_step reserve finish) es s)"
  by (induction es arbitrary: s) (auto intro: step_inv)

lemma step_held:
  assumes "inv s" and "held s e t" and "snd ev \<le> t" and "settled_id ev \<noteq> Some (ie_id e)"
  shows "held (client_step reserve finish ev s) e t"
  using assms
  by (cases "(reserve, finish, ev, s)" rule: client_step.cases)
    (auto simp: settled_id_def intro: reserve_held finish_held)

lemma run_held:
  assumes "inv s" and "held s e t" and "list_all (\<lambda>ev. snd ev \<le> t) es" and "ie_id e \<notin> set (settled_ids es)"
  shows "held (fold (client_step reserve finish) es s) e t"
  using assms
proof (induction es arbitrary: s)
  case (Cons ev es)
  then have "ie_id e \<notin> set (settled_ids es)" "settled_id ev \<noteq> Some (ie_id e)"
    by (auto simp: settled_ids_def List.map_filter_simps split: option.splits)
  with Cons show ?case by (auto intro!: Cons.IH step_inv step_held)
qed simp

text \<open>A key has one owner until it is settled.\<close>

lemma one_owner:
  assumes "inv s" and start: "reserve sc key hash now s = (IdemStarted e, s')"
    and "ie_id e \<notin> set (settled_ids es)"
  shows "fst (reserve sc2 key hash2 later (fold (client_step reserve finish) es s')) \<noteq> IdemStarted e2"
proof -
  define t where "t = Max (insert later (snd ` set es))"
  have "inv s'" using reserve_inv [OF assms(1), of sc key hash now] start by simp
  moreover have "ie_key e = key" "held s' e t" using reserve_started [OF assms(1) start] by auto
  moreover have "list_all (\<lambda>ev. snd ev \<le> t) es" "later \<le> t" by (simp_all add: t_def list_all_iff)
  ultimately show ?thesis using run_held [of s' e t es] run_inv [of s' es] reserve_refused assms(3) by metis
qed

text \<open>After an ambiguous outcome the key is not started again before the outcome expires.\<close>

lemma no_reexecution:
  assumes "inv s" and "present s e" and "later < now + ttl s"
    and "list_all (\<lambda>ev. snd ev \<le> later) es" and "ie_id e \<notin> set (settled_ids es)"
  shows "fst (reserve sc (ie_key e) hash later (fold (client_step reserve finish) es (finish (Tombstone kind) e now s)))
    \<noteq> IdemStarted e2"
proof -
  have "held (finish (Tombstone kind) e now s) e later" by (rule tombstone_held [OF assms(1-3)])
  then show ?thesis
    using run_held [of "finish (Tombstone kind) e now s" e later es] finish_inv [OF assms(1)] run_inv assms(4,5)
      reserve_refused by (metis order_refl)
qed

end
section \<open>The in-memory store implements it\<close>

definition ids_ok :: "idem_store \<Rightarrow> bool" where
  "ids_ok s \<longleftrightarrow>
     distinct (map ie_key (st_entries s)) \<and> distinct (map ie_id (st_entries s)) \<and>
     (\<forall>i \<in> set (map ie_id (st_entries s)). i < st_next_id s)"

definition is_entry :: "idem_store \<Rightarrow> idem_entry \<Rightarrow> bool" where
  "is_entry s e \<longleftrightarrow> current_entry e s \<noteq> None"

definition entry_held :: "idem_store \<Rightarrow> idem_entry \<Rightarrow> time \<Rightarrow> bool" where
  "entry_held s e t \<longleftrightarrow>
     (\<exists>x \<in> set (st_entries s). ie_id x = ie_id e \<and> ie_key x = ie_key e \<and>
        (in_flight x \<or> is_tombstone x \<and> t < ie_expires x))"

lemma ids_ok_keys: "ids_ok s \<Longrightarrow> distinct (map ie_key (st_entries s))"
  by (simp add: ids_ok_def)

lemma thinned_ids: "thinned s' s \<Longrightarrow> ids_ok s \<Longrightarrow> ids_ok s'"
  using thinnedD(1) [of s' s] by (auto simp: ids_ok_def thinnedD(5) intro: thinnedD(6,7))

lemma make_room_keeps:
  assumes "make_room n limit m s = Some s'" and "distinct (map ie_key (st_entries s))"
  shows "thinned s' s \<and> (\<forall>x \<in> set (st_entries s). ie_state x \<noteq> StDone \<longrightarrow> x \<in> set (st_entries s'))"
  using assms evict_thinned [of m s s'] by (auto simp: make_room_def split: if_splits)

lemma reserve_room_keeps:
  assumes "reserve_room sc s = (s', b)" and "distinct (map ie_key (st_entries s))"
  shows "thinned s' s \<and> (\<forall>x \<in> set (st_entries s). ie_state x \<noteq> StDone \<longrightarrow> x \<in> set (st_entries s'))"
  using assms unfolding reserve_room_def Let_def
  by (auto split: option.splits dest!: make_room_keeps intro: thinned_trans dest: thinnedD(6))

text \<open>\<open>begin\<close> without a bound on the quotas: what the store becomes, and what stays in it.\<close>

lemma begin_shape:
  assumes "ids_ok s"
  obtains s1 where "thinned s1 s"
      "\<forall>x \<in> set (st_entries s). in_flight x \<or> is_tombstone x \<and> now < ie_expires x \<longrightarrow> x \<in> set (st_entries s1)"
      "(\<exists>r. idem_begin sc key hash now s = (r, s1) \<and> (\<forall>e. r \<noteq> IdemStarted e)) \<or>
       key \<notin> ie_key ` set (st_entries s1) \<and> key \<notin> ie_key ` set (st_entries (sweepLocked now s)) \<and>
       idem_begin sc key hash now s = (IdemStarted (new_entry sc key hash now s1), add_entry sc key hash now s1)"
proof -
  let ?s = "sweepLocked now s"
  note keys = ids_ok_keys [OF assms]
  have thin: "thinned ?s s" by (rule sweep_thinned [OF keys])
  note keys' = thinnedD(6) [OF thin keys]
  have stays: "x \<in> set (st_entries ?s)" if "x \<in> set (st_entries s)" "in_flight x \<or> is_tombstone x \<and> now < ie_expires x" for x
    using that by (auto simp: sweepLocked_eq [OF keys] expired_def in_flight_def)
  obtain s1 b where room: "reserve_room sc ?s = (s1, b)" by force
  note r = reserve_room_keeps [OF room keys']
  have thin1: "thinned s1 s" using r thin thinned_trans by blast
  have stays1: "x \<in> set (st_entries s1)" if "x \<in> set (st_entries s)" "in_flight x \<or> is_tombstone x \<and> now < ie_expires x" for x
    using stays [OF that] r that(2) by (auto simp: in_flight_def is_tombstone_def)
  show thesis
  proof (cases "find_entry key ?s \<noteq> None \<or> at_capacity sc ?s")
    case True
    then have "\<exists>r. idem_begin sc key hash now s = (r, ?s) \<and> (\<forall>e. r \<noteq> IdemStarted e)"
      by (auto simp: idem_begin_def Let_def existing_status_def split: option.split idem_state.split)
    then show thesis using that [OF thin] stays by blast
  next
    case False
    then have free: "key \<notin> ie_key ` set (st_entries ?s)" by (simp add: find_entry_None)
    then have "key \<notin> ie_key ` set (st_entries s1)" using r thinnedD(1) by blast
    then show thesis
      using that [OF thin1] stays1 False free room
      by (cases b) (auto simp: idem_begin_def Let_def add_entry_def)
  qed
qed

lemma add_ids:
  assumes "ids_ok s" and "key \<notin> ie_key ` set (st_entries s)"
  shows "ids_ok (add_entry sc key hash now s)"
proof -
  have "st_next_id s \<notin> set (map ie_id (st_entries s))" using assms(1) by (meson ids_ok_def less_irrefl)
  then show ?thesis using assms by (simp add: ids_ok_def add_entry_def new_entry_def less_SucI)
qed

lemma begin_ids:
  assumes "ids_ok s"
  shows "ids_ok (snd (idem_begin sc key hash now s))"
proof (rule begin_shape [OF assms, of now sc key hash])
  fix s1 assume thin: "thinned s1 s"
    and res: "(\<exists>r. idem_begin sc key hash now s = (r, s1) \<and> (\<forall>e. r \<noteq> IdemStarted e)) \<or>
       key \<notin> ie_key ` set (st_entries s1) \<and> key \<notin> ie_key ` set (st_entries (sweepLocked now s)) \<and>
       idem_begin sc key hash now s = (IdemStarted (new_entry sc key hash now s1), add_entry sc key hash now s1)"
  have "ids_ok s1" by (rule thinned_ids [OF thin assms])
  then show ?thesis using res add_ids by auto
qed

text \<open>What settling does to the list of entries.\<close>

lemma update_entry_shape:
  assumes "\<And>x. ie_id (f x) = ie_id x \<and> ie_key (f x) = ie_key x"
  shows "map ie_key (st_entries (update_entry i f s)) = map ie_key (st_entries s)"
    "map ie_id (st_entries (update_entry i f s)) = map ie_id (st_entries s)"
  using assms by (simp_all add: update_entry_def)

lemma finish_shape:
  obtains f where "st_entries (finishLocked e state now s) = st_entries (update_entry (ie_id e) f s)"
    "\<And>x. ie_id (f x) = ie_id x \<and> ie_key (f x) = ie_key x"
    "st_next_id (finishLocked e state now s) = st_next_id s"
    "current_entry e s \<noteq> None \<Longrightarrow> \<forall>x. ie_state (f x) = state \<and> ie_expires (f x) = now + li_ttl (st_limits s)"
proof (cases "current_entry e s")
  case None
  then show thesis using that [of "\<lambda>x. x"] by (simp add: finishLocked_def update_entry_def)
next
  case (Some cur)
  then show thesis
    using that [of "\<lambda>x. x\<lparr>ie_seq := st_seq s + 1, ie_state := state, ie_expires := now + li_ttl (st_limits s)\<rparr>"]
    by (simp add: finishLocked_def update_entry_def Let_def)
qed

lemma same_ids:
  assumes "ids_ok s" and "map ie_key (st_entries s') = map ie_key (st_entries s)"
    "map ie_id (st_entries s') = map ie_id (st_entries s)" "st_next_id s' = st_next_id s"
  shows "ids_ok s'"
  using assms(1) unfolding ids_ok_def assms(2-4) .

lemma finish_ids: "ids_ok s \<Longrightarrow> ids_ok (finishLocked e state now s)"
  by (rule finish_shape [of e state now s]) (metis same_ids update_entry_shape)

lemma reply_ids: "ids_ok s \<Longrightarrow> ids_ok (update_entry i (\<lambda>x. x\<lparr>ie_reply := r\<rparr>) s)"
  by (rule same_ids [OF _ update_entry_shape]) (simp_all add: update_entry_def)

lemma drop_ids: "ids_ok s \<Longrightarrow> ids_ok (dropLocked k e s)"
  by (auto simp: ids_ok_def dropLocked_def distinct_map_filter)

lemma settle_ids: "ids_ok s \<Longrightarrow> ids_ok (settle c e now s)"
  by (cases c) (auto simp: settle_def idem_complete_def idem_tombstone_def idem_release_def
      intro!: finish_ids reply_ids drop_ids split: option.split)

lemma update_other: "x \<in> set (st_entries s) \<Longrightarrow> ie_id x \<noteq> i \<Longrightarrow> x \<in> set (st_entries (update_entry i f s))"
  by (force simp: update_entry_def)

lemma finish_other:
  "x \<in> set (st_entries s) \<Longrightarrow> ie_id x \<noteq> ie_id e \<Longrightarrow> x \<in> set (st_entries (finishLocked e state now s))"
  by (rule finish_shape [of e state now s]) (simp add: update_other)

text \<open>An entry that is not the one being settled stays as it is.\<close>

lemma settle_other:
  assumes "ids_ok s" and "x \<in> set (st_entries s)" and "ie_id x \<noteq> ie_id e"
  shows "x \<in> set (st_entries (settle c e now s))"
proof -
  have "x \<in> set (st_entries (idem_release e s))"
  proof (cases "current_entry e s")
    case (Some cur)
    then have "ie_key x \<noteq> ie_key e"
      using assms current_entry_Some [OF Some] unfolding ids_ok_def distinct_map by (metis inj_onD)
    then show ?thesis using Some assms by (simp add: idem_release_def dropLocked_def)
  qed (use assms in \<open>simp add: idem_release_def\<close>)
  then show ?thesis
    using assms by (cases c) (auto simp: settle_def idem_complete_def idem_tombstone_def
        intro!: finish_other update_other)
qed

lemma tombstone_entry:
  assumes "current_entry e s \<noteq> None"
  shows "\<exists>x \<in> set (st_entries (idem_tombstone e kind now s)). ie_id x = ie_id e \<and> ie_key x = ie_key e \<and>
    ie_state x = (if kind = IdemNotReplayable then StNotReplayable else StUnknown) \<and>
    ie_expires x = now + li_ttl (st_limits s)"
proof -
  obtain cur where cur: "cur \<in> set (st_entries s)" "ie_key cur = ie_key e" "ie_id cur = ie_id e"
    using assms current_entry_Some by blast
  have "\<exists>x \<in> set (st_entries (finishLocked e state now s)). ie_id x = ie_id e \<and> ie_key x = ie_key e \<and>
      ie_state x = state \<and> ie_expires x = now + li_ttl (st_limits s)" for state
  proof (rule finish_shape [of e state now s])
    fix f
    assume f: "st_entries (finishLocked e state now s) = st_entries (update_entry (ie_id e) f s)"
      "\<And>x. ie_id (f x) = ie_id x \<and> ie_key (f x) = ie_key x"
      "current_entry e s \<noteq> None \<Longrightarrow> \<forall>x. ie_state (f x) = state \<and> ie_expires (f x) = now + li_ttl (st_limits s)"
    have "f cur \<in> set (st_entries (finishLocked e state now s))"
      using cur(1,3) by (force simp: f(1) update_entry_def)
    moreover have "ie_state (f cur) = state \<and> ie_expires (f cur) = now + li_ttl (st_limits s)"
      using f(3) [OF assms] by blast
    ultimately show ?thesis using f(2) [of cur] cur by (intro bexI [of _ "f cur"]) simp_all
  qed
  then show ?thesis by (simp add: idem_tombstone_def)
qed

lemma begin_keeps:
  assumes "ids_ok s" and "x \<in> set (st_entries s)" and "in_flight x \<or> is_tombstone x \<and> now < ie_expires x"
  shows "x \<in> set (st_entries (snd (idem_begin sc key hash now s)))"
  by (rule begin_shape [OF assms(1), of now sc key hash]) (use assms(2,3) in \<open>auto simp: add_entry_def\<close>)

lemma begin_started:
  assumes "ids_ok s" and "idem_begin sc key hash now s = (IdemStarted e, s')"
  shows "\<exists>s1. e = new_entry sc key hash now s1 \<and> s' = add_entry sc key hash now s1 \<and> thinned s1 s \<and>
    key \<notin> ie_key ` set (st_entries (sweepLocked now s))"
  by (rule begin_shape [OF assms(1), of now sc key hash]) (use assms(2) in auto)

interpretation memory_store: idempotency_interface idem_begin settle ids_ok is_entry entry_held
  "\<lambda>s. li_ttl (st_limits s)"
proof
  fix s sc key hash now e s' t
  assume "ids_ok s" "idem_begin sc key hash now s = (IdemStarted e, s')"
  then show "ie_key e = key \<and> entry_held s' e t"
    using begin_started by (fastforce simp: entry_held_def add_entry_def new_entry_def in_flight_def)
next
  fix s :: idem_store and e t now sc hash e'
  assume ok: "ids_ok s" and "entry_held s e t" "now \<le> t"
  then obtain x where x: "x \<in> set (st_entries s)" "ie_key x = ie_key e" "in_flight x \<or> is_tombstone x \<and> now < ie_expires x"
    unfolding entry_held_def by (metis order.strict_trans1)
  then have "ie_key e \<in> ie_key ` set (st_entries (sweepLocked now s))"
    by (auto simp: sweepLocked_eq [OF ids_ok_keys [OF ok]] expired_def in_flight_def image_iff)
  then show "fst (idem_begin sc (ie_key e) hash now s) \<noteq> IdemStarted e'"
    using begin_started [OF ok] by (metis prod.collapse)
next
  fix s :: idem_store and e t now sc key hash
  assume ok: "ids_ok s" and "entry_held s e t" "now \<le> t"
  then obtain x where "x \<in> set (st_entries s)" "ie_id x = ie_id e" "ie_key x = ie_key e"
      "in_flight x \<or> is_tombstone x \<and> t < ie_expires x"
    unfolding entry_held_def by blast
  then show "entry_held (snd (idem_begin sc key hash now s)) e t"
    using begin_keeps [OF ok, of x now sc key hash] \<open>now \<le> t\<close> unfolding entry_held_def by force
next
  fix s :: idem_store and e e' :: idem_entry and t c now
  assume "ids_ok s" "entry_held s e t" "ie_id e' \<noteq> ie_id e"
  then show "entry_held (settle c e' now s) e t" unfolding entry_held_def using settle_other by metis
next
  fix s :: idem_store and e t now kind
  assume "is_entry s e" "t < now + li_ttl (st_limits s)"
  then show "entry_held (settle (Tombstone kind) e now s) e t"
    using tombstone_entry [of e s kind now]
    by (auto simp: is_entry_def entry_held_def settle_def is_tombstone_def split: if_splits)
qed (auto intro: begin_ids settle_ids)

section \<open>The properties\<close>

lemma settled_ids_snoc: "settled_ids (es @ [ev]) = settled_ids es @ (case settled_id ev of None \<Rightarrow> [] | Some i \<Rightarrow> [i])"
  by (simp add: settled_ids_def List.map_filter_def split: option.split)

lemma new_store_ok: "idem_ok {} (newIdempotencyStore l)"
  by (simp add: idem_ok_def store_shape_def quotas_ok_def quotas_def within_def newIdempotencyStore_def
      count_entries_def)

lemma run_ok: "distinct (settled_ids es) \<Longrightarrow> idem_ok (set (settled_ids es)) (idem_run es (newIdempotencyStore l))"
proof (induction es rule: rev_induct)
  case Nil
  then show ?case by (simp add: settled_ids_def List.map_filter_simps idem_run_def new_store_ok)
next
  case (snoc ev es)
  let ?s = "idem_run es (newIdempotencyStore l)"
  have ok: "idem_ok (set (settled_ids es)) ?s" using snoc by (simp add: settled_ids_snoc)
  have step: "idem_run (es @ [ev]) (newIdempotencyStore l) = idem_step ev ?s" by (simp add: idem_run_def)
  show ?case
  proof (cases ev)
    case (Pair e now)
    show ?thesis
    proof (cases e)
      case (Begin sc key hash)
      then show ?thesis using begin_ok [OF ok] unfolding step
        by (simp add: Pair idem_step_def settled_ids_snoc settled_id_def)
    next
      case (Settle x c)
      then have "ie_id x \<notin> set (settled_ids es)" using snoc.prems Pair by (simp add: settled_ids_snoc settled_id_def)
      then show ?thesis using settle_ok [OF ok] unfolding step
        by (simp add: Pair Settle idem_step_def settled_ids_snoc settled_id_def)
    qed
  qed
qed

lemma run_ids: "ids_ok (idem_run es (newIdempotencyStore l))"
  unfolding idem_run_def idem_step_def
  by (rule memory_store.run_inv) (simp add: ids_ok_def newIdempotencyStore_def)

text \<open>If every entry is settled at most once, the in-flight counter is exact and every bound of
  the limits holds after any run: entries, in-flight entries, and per session and principal the
  entries, the in-flight entries, and tombstones together with the in-flight entries that may
  become tombstones.\<close>

theorem idempotency_quotas:
  assumes "distinct (settled_ids es)" and "s = idem_run es (newIdempotencyStore l)"
  shows "st_inflight s = count_entries in_flight s \<and>
    (\<forall>q \<in> set (quotas sc (st_limits s)). 0 < snd q \<longrightarrow> count_entries (fst q) s \<le> snd q)"
  using run_ok [OF assms(1), of l] by (simp add: assms(2) idem_ok_def store_shape_def quotas_ok_def within_def)

text \<open>A key has at most one owner: after a request started it, and until that request settles
  it, no request starts it again, whatever other requests do and however long it takes.\<close>

theorem key_has_one_owner:
  assumes "s = idem_run es (newIdempotencyStore l)" and "idem_begin sc key hash now s = (IdemStarted e, s')"
    and "ie_id e \<notin> set (settled_ids es')"
  shows "fst (idem_begin sc2 key hash2 later (idem_run es' s')) \<noteq> IdemStarted e2"
  using memory_store.one_owner [OF run_ids assms(2) [unfolded assms(1)] assms(3)]
  by (simp add: idem_run_def idem_step_def)

text \<open>C10: After the owner of a key recorded an ambiguous or not replayable outcome, no request
  starts the key again before the outcome expires, whatever the other requests and however full
  the store.\<close>

theorem ambiguous_outcome_not_repeated:
  assumes "s = idem_run es (newIdempotencyStore l)" and "is_entry s e" and "later < now + li_ttl (st_limits s)"
    and "list_all (\<lambda>(ev, t). t \<le> later) es'" and "ie_id e \<notin> set (settled_ids es')"
  shows "fst (idem_begin sc (ie_key e) hash later (idem_run es' (settle (Tombstone kind) e now s))) \<noteq> IdemStarted e2"
proof -
  have "list_all (\<lambda>ev. snd ev \<le> later) es'" using assms(4) by (simp add: case_prod_unfold)
  from memory_store.no_reexecution [OF run_ids assms(2,3) [unfolded assms(1)] this assms(5)]
  show ?thesis by (simp add: assms(1) idem_run_def idem_step_def)
qed

section \<open>Where a replayed reply comes from\<close>

text \<open>The entry \<open>x\<close> was started by an event of the run, under the key and the request it has.\<close>

definition started_in :: "idem_store \<Rightarrow> (idem_event \<times> time) list \<Rightarrow> idem_entry \<Rightarrow> bool" where
  "started_in s0 es x \<longleftrightarrow>
     (\<exists>es1 sc now es2 e. es = es1 @ (Begin sc (ie_key x) (ie_hash x), now) # es2 \<and>
        fst (idem_begin sc (ie_key x) (ie_hash x) now (idem_run es1 s0)) = IdemStarted e \<and> ie_id e = ie_id x)"

text \<open>It was completed by its owner with the reply it has, at its expiry less the lifetime.\<close>

definition completed_in :: "idem_store \<Rightarrow> (idem_event \<times> time) list \<Rightarrow> idem_entry \<Rightarrow> bool" where
  "completed_in s0 es x \<longleftrightarrow>
     (\<exists>e now. (Settle e (Complete (ie_reply x)), now) \<in> set es \<and> ie_id e = ie_id x \<and>
        ie_expires x = now + li_ttl (st_limits s0) \<and>
        int (length (re_body (ie_reply x))) \<le> li_max_reply (st_limits s0))"

definition history_ok :: "idem_store \<Rightarrow> (idem_event \<times> time) list \<Rightarrow> idem_store \<Rightarrow> bool" where
  "history_ok s0 es s \<longleftrightarrow>
     st_limits s = st_limits s0 \<and>
     (\<forall>x \<in> set (st_entries s). started_in s0 es x \<and> (ie_state x = StDone \<longrightarrow> completed_in s0 es x))"

lemma started_snoc: "started_in s0 es x \<Longrightarrow> started_in s0 (es @ [ev]) x"
  by (fastforce simp: started_in_def)

lemma completed_snoc: "completed_in s0 es x \<Longrightarrow> completed_in s0 (es @ [ev]) x"
  by (auto simp: completed_in_def)

lemma history_snoc: "history_ok s0 es s \<Longrightarrow> history_ok s0 (es @ [ev]) s"
  by (auto simp: history_ok_def started_snoc completed_snoc)

lemma history_thinned: "history_ok s0 es s \<Longrightarrow> thinned s' s \<Longrightarrow> history_ok s0 es s'"
  using thinnedD(1,2) unfolding history_ok_def by (metis subsetD)

lemma begin_history:
  assumes s: "s = idem_run es s0" and ids: "ids_ok s" and h: "history_ok s0 es s"
  shows "history_ok s0 (es @ [(Begin sc key hash, now)]) (snd (idem_begin sc key hash now s))"
proof (rule begin_shape [OF ids, of now sc key hash])
  fix s1
  assume thin: "thinned s1 s"
    and res: "(\<exists>r. idem_begin sc key hash now s = (r, s1) \<and> (\<forall>e. r \<noteq> IdemStarted e)) \<or>
       key \<notin> ie_key ` set (st_entries s1) \<and> key \<notin> ie_key ` set (st_entries (sweepLocked now s)) \<and>
       idem_begin sc key hash now s = (IdemStarted (new_entry sc key hash now s1), add_entry sc key hash now s1)"
  have h1: "history_ok s0 (es @ [(Begin sc key hash, now)]) s1" by (intro history_snoc history_thinned [OF h thin])
  from res show ?thesis
  proof (elim disjE exE conjE)
    fix r assume "idem_begin sc key hash now s = (r, s1)"
    then show ?thesis using h1 by simp
  next
    assume new: "idem_begin sc key hash now s = (IdemStarted (new_entry sc key hash now s1), add_entry sc key hash now s1)"
    have "started_in s0 (es @ [(Begin sc key hash, now)]) (new_entry sc key hash now s1)"
      unfolding started_in_def using new s
      by (intro exI [of _ es] exI [of _ sc] exI [of _ now] exI [of _ "[]"] exI [of _ "new_entry sc key hash now s1"])
        (simp add: new_entry_def)
    then show ?thesis using h1 new by (auto simp: history_ok_def add_entry_def new_entry_def)
  qed
qed

text \<open>The entries after settling: an entry that was there, or a changed copy of one with the
  settled identity, which is completed only by a reply that fits.\<close>

lemma settle_entries:
  assumes x: "x \<in> set (st_entries (settle c e now s))"
    and fl: "\<forall>y \<in> set (st_entries s). ie_id y = ie_id e \<longrightarrow> in_flight y"
  shows "\<exists>y \<in> set (st_entries s). ie_id x = ie_id y \<and> ie_key x = ie_key y \<and> ie_hash x = ie_hash y \<and>
    (x = y \<or> ie_id y = ie_id e \<and>
      (ie_state x = StDone \<longrightarrow> (\<exists>r. c = Complete r \<and> ie_reply x = r \<and> ie_expires x = now + li_ttl (st_limits s) \<and>
         int (length (re_body r)) \<le> li_max_reply (st_limits s))))"
proof -
  have fin: "\<exists>y \<in> set (st_entries t). ie_id z = ie_id y \<and> ie_key z = ie_key y \<and> ie_hash z = ie_hash y \<and>
      (z = y \<or> ie_id y = ie_id e \<and> ie_state z = state \<and> ie_expires z = now + li_ttl (st_limits t) \<and> ie_reply z = ie_reply y)"
    if "z \<in> set (st_entries (finishLocked e state now t))" for z state t
    using that
    by (cases "current_entry e t") (auto simp: finishLocked_def Let_def update_entry_def split: if_splits, metis+)
  show ?thesis
  proof (cases c)
    case (Complete r)
    let ?t = "update_entry (ie_id e) (\<lambda>x. x\<lparr>ie_reply := r\<rparr>) s"
    have t: "\<exists>y \<in> set (st_entries s). ie_id z = ie_id y \<and> ie_key z = ie_key y \<and> ie_hash z = ie_hash y \<and>
        (z = y \<and> ie_id y \<noteq> ie_id e \<or> ie_id y = ie_id e \<and> ie_reply z = r \<and> ie_state z = ie_state y)"
      if "z \<in> set (st_entries ?t)" for z
      using that by (auto simp: update_entry_def split: if_splits) (metis+)?
    show ?thesis
    proof (cases "li_max_reply (st_limits s) < int (length (re_body r))")
      case True
      then show ?thesis using fin [of x StNotReplayable s] x Complete
        by (fastforce simp: settle_def idem_complete_def)
    next
      case False
      then have "x \<in> set (st_entries (finishLocked e StDone now ?t))"
        using x Complete by (simp add: settle_def idem_complete_def)
      then obtain z where z: "z \<in> set (st_entries ?t)" "ie_id x = ie_id z" "ie_key x = ie_key z" "ie_hash x = ie_hash z"
          "x = z \<or> ie_id z = ie_id e \<and> ie_expires x = now + li_ttl (st_limits ?t) \<and> ie_reply x = ie_reply z"
        using fin by metis
      obtain y where "y \<in> set (st_entries s)" "ie_id z = ie_id y" "ie_key z = ie_key y" "ie_hash z = ie_hash y"
          "z = y \<and> ie_id y \<noteq> ie_id e \<or> ie_id y = ie_id e \<and> ie_reply z = r \<and> ie_state z = ie_state y"
        using t [OF z(1)] by blast
      then show ?thesis using z fl False Complete
        by (intro bexI [of _ y]) (auto simp: update_entry_def in_flight_def)
    qed
  next
    case (Tombstone kind)
    then show ?thesis
      using x fin [of x _ s] by (fastforce simp: settle_def idem_tombstone_def split: if_splits)
  next
    case Release
    then show ?thesis
      using x by (auto simp: settle_def idem_release_def dropLocked_def split: option.splits)
  qed
qed

lemma settle_limits: "st_limits (settle c e now s) = st_limits s"
  by (auto simp: settle_def idem_complete_def idem_tombstone_def idem_release_def finishLocked_def Let_def
      update_entry_def dropLocked_def split: settlement.split option.split)

lemma settle_history:
  assumes h: "history_ok s0 es s" and fl: "\<forall>y \<in> set (st_entries s). ie_id y = ie_id e \<longrightarrow> in_flight y"
  shows "history_ok s0 (es @ [(Settle e c, now)]) (settle c e now s)"
proof -
  let ?es = "es @ [(Settle e c, now)]"
  have lim: "st_limits s = st_limits s0" using h by (simp add: history_ok_def)
  have "started_in s0 ?es x \<and> (ie_state x = StDone \<longrightarrow> completed_in s0 ?es x)"
    if x: "x \<in> set (st_entries (settle c e now s))" for x
  proof -
    obtain y where y: "y \<in> set (st_entries s)" "ie_id x = ie_id y" "ie_key x = ie_key y" "ie_hash x = ie_hash y"
      and or: "x = y \<or> ie_id y = ie_id e \<and>
        (ie_state x = StDone \<longrightarrow> (\<exists>r. c = Complete r \<and> ie_reply x = r \<and> ie_expires x = now + li_ttl (st_limits s) \<and>
           int (length (re_body r)) \<le> li_max_reply (st_limits s)))"
      using settle_entries [OF x fl] by blast
    have hy: "started_in s0 es y" "ie_state y = StDone \<longrightarrow> completed_in s0 es y" using h y(1) by (auto simp: history_ok_def)
    have "started_in s0 es x" using hy(1) y unfolding started_in_def by simp
    moreover have "ie_state x = StDone \<longrightarrow> completed_in s0 ?es x"
      using or hy(2) y(2) lim by (auto simp: completed_in_def)
    ultimately show ?thesis by (simp add: started_snoc)
  qed
  then show ?thesis using lim by (simp add: history_ok_def settle_limits)
qed

lemma run_history:
  assumes "distinct (settled_ids es)"
  shows "history_ok (newIdempotencyStore l) es (idem_run es (newIdempotencyStore l))"
  using assms
proof (induction es rule: rev_induct)
  case Nil
  then show ?case by (simp add: history_ok_def idem_run_def newIdempotencyStore_def)
next
  case (snoc ev es)
  let ?new = "newIdempotencyStore l"
  let ?s = "idem_run es ?new"
  have h: "history_ok ?new es ?s" and ok: "idem_ok (set (settled_ids es)) ?s"
    using snoc run_ok by (auto simp: settled_ids_snoc)
  have step: "idem_run (es @ [ev]) ?new = idem_step ev ?s" by (simp add: idem_run_def)
  obtain e now where ev: "ev = (e, now)" by force
  show ?case
  proof (cases e)
    case (Begin sc key hash)
    then show ?thesis using begin_history [OF refl run_ids h] unfolding step by (simp add: ev idem_step_def)
  next
    case (Settle x c)
    then have "ie_id x \<notin> set (settled_ids es)" using snoc.prems ev by (simp add: settled_ids_snoc settled_id_def)
    then have "\<forall>y \<in> set (st_entries ?s). ie_id y = ie_id x \<longrightarrow> in_flight y" using ok in_flight_unsettled by metis
    then show ?thesis using settle_history [OF h] Settle unfolding step by (simp add: ev idem_step_def)
  qed
qed

text \<open>If every entry is settled at most once, a replayed reply is the one with which the owner
  of that key and of the identical request completed it, it fits the size bound, and less than
  the lifetime has passed since.\<close>

theorem replay_was_recorded:
  assumes "distinct (settled_ids es)" and "s = idem_run es (newIdempotencyStore l)"
    and "fst (idem_begin sc key hash now s) = IdemReplay x"
  shows "ie_key x = key \<and> ie_hash x = hash \<and> started_in (newIdempotencyStore l) es x \<and>
    completed_in (newIdempotencyStore l) es x \<and> now < ie_expires x"
proof -
  have ids: "ids_ok s" using run_ids assms(2) by simp
  note keys = ids_ok_keys [OF ids]
  have "find_entry key (sweepLocked now s) = Some x \<and> ie_hash x = hash \<and> ie_state x = StDone"
    using assms(3) by (auto simp: idem_begin_def Let_def existing_status_def
        split: option.splits prod.splits if_splits idem_state.splits bool.splits)
  then have x: "x \<in> set (st_entries s)" "ie_key x = key" "ie_hash x = hash" "ie_state x = StDone" "\<not> expired now x"
    using find_entry_Some [of key "sweepLocked now s" x] by (auto simp: sweepLocked_eq [OF keys])
  then show ?thesis using run_history [OF assms(1), of l] by (auto simp: assms(2) history_ok_def expired_def)
qed

section \<open>A concrete run\<close>

text \<open>A request that completes, one whose outcome is unknown, and one still in flight.\<close>

definition small_limits :: idem_limits where
  "small_limits =
     \<lparr>li_ttl = 10, li_max_entries = 4, li_max_inflight = 2, li_max_reply = 4, li_max_scope_entries = 3,
      li_max_scope_inflight = 1, li_max_principal_entries = 3, li_max_principal_inflight = 2,
      li_max_scope_tombstones = 2\<rparr>"

definition small_scope :: idem_scope where
  "small_scope = \<lparr>is_principal = ''p'', is_session = ''s''\<rparr>"

definition small_entry :: "nat \<Rightarrow> gostring \<Rightarrow> idem_entry" where
  "small_entry i key = new_entry small_scope key ''h'' 0 \<lparr>st_limits = small_limits, st_entries = [], st_inflight = 0,
     st_seq = 0, st_next_id = i\<rparr>"

definition small_reply :: idem_reply where
  "small_reply = \<lparr>re_status = 200, re_content_type = [], re_body = ''ok''\<rparr>"

definition small_run :: "(idem_event \<times> time) list" where
  "small_run =
     [(Begin small_scope ''a'' ''h'', 0), (Settle (small_entry 0 ''a'') (Complete small_reply), 1),
      (Begin small_scope ''b'' ''h'', 2)]"

definition small_store :: idem_store where
  "small_store = idem_run small_run (newIdempotencyStore small_limits)"

lemmas idem_eval = small_store_def small_run_def small_entry_def small_limits_def small_scope_def small_reply_def
  idem_run_def idem_step_def idem_begin_def sweepLocked_def find_entry_def at_capacity_def count_entries_def
  atLimit_def reserve_room_def make_room_def new_entry_def newIdempotencyStore_def in_session_def of_principal_def
  is_tombstone_def in_flight_def settle_def idem_complete_def finishLocked_def current_entry_def update_entry_def
  existing_status_def no_reply_def Let_def

lemma small_store_eval:
  "small_store = \<lparr>st_limits = small_limits,
     st_entries =
       [(small_entry 0 ''a'')\<lparr>ie_seq := 1, ie_state := StDone, ie_reply := small_reply, ie_expires := 11\<rparr>,
        (small_entry 1 ''b'')\<lparr>ie_expires := 12\<rparr>],
     st_inflight = 1, st_seq = 1, st_next_id = 2\<rparr>"
  by (simp add: idem_eval)

theorem idempotency_quotas_instance: "st_inflight small_store = count_entries in_flight small_store"
  using idempotency_quotas [of small_run small_store small_limits]
  by (simp add: small_store_def small_run_def settled_ids_def settled_id_def List.map_filter_simps)

theorem replay_was_recorded_instance:
  "completed_in (newIdempotencyStore small_limits) small_run
     ((small_entry 0 ''a'')\<lparr>ie_seq := 1, ie_state := StDone, ie_reply := small_reply, ie_expires := 11\<rparr>)"
proof -
  have "fst (idem_begin small_scope ''a'' ''h'' 5 small_store) =
      IdemReplay ((small_entry 0 ''a'')\<lparr>ie_seq := 1, ie_state := StDone, ie_reply := small_reply, ie_expires := 11\<rparr>)"
    unfolding small_store_eval by (simp add: idem_eval dropLocked_def)
  moreover have "distinct (settled_ids small_run)"
    by (simp add: small_run_def settled_ids_def settled_id_def List.map_filter_simps)
  ultimately show ?thesis using replay_was_recorded [of small_run small_store small_limits] by (simp add: small_store_def)
qed

theorem key_has_one_owner_instance:
  "fst (idem_begin small_scope ''c'' ''h'' 99
     (idem_run [(Begin small_scope ''c'' ''h'', 50)] (snd (idem_begin small_scope ''c'' ''h'' 20
        (idem_run [] (newIdempotencyStore small_limits)))))) \<noteq> IdemStarted (small_entry 1 ''c'')"
proof -
  have "idem_begin small_scope ''c'' ''h'' 20 (idem_run [] (newIdempotencyStore small_limits)) =
      (IdemStarted ((small_entry 0 ''c'')\<lparr>ie_expires := 30\<rparr>),
       snd (idem_begin small_scope ''c'' ''h'' 20 (idem_run [] (newIdempotencyStore small_limits))))"
    by (simp add: idem_eval)
  from key_has_one_owner [OF refl this, of "[(Begin small_scope ''c'' ''h'', 50)]"] show ?thesis
    by (simp add: settled_ids_def settled_id_def List.map_filter_simps)
qed

theorem ambiguous_outcome_not_repeated_instance:
  "fst (idem_begin small_scope ''b'' ''h'' 12 (idem_run [(Begin small_scope ''b'' ''h'', 10)]
     (settle (Tombstone IdemUnknownOutcome) (small_entry 1 ''b'') 3 small_store))) \<noteq> IdemStarted (small_entry 2 ''b'')"
proof -
  have "is_entry small_store (small_entry 1 ''b'')" "ie_key (small_entry 1 ''b'') = ''b''"
      "li_ttl (st_limits small_store) = 10"
    unfolding small_store_eval by (simp_all add: idem_eval is_entry_def)
  then show ?thesis
    using ambiguous_outcome_not_repeated [of small_store small_run small_limits "small_entry 1 ''b''" 12 3
        "[(Begin small_scope ''b'' ''h'', 10)]" small_scope "''h''"]
    by (simp add: small_store_def settled_ids_def settled_id_def List.map_filter_simps)
qed

end
