(* ===== verification/PolicyCache.thy ===== *)
theory PolicyCache
  imports PolicyValidate PolicyAuthz
begin

text \<open>
  The gateway's policy snapshot (\<open>services/mcp-gateway/policy_cache.go\<close>): loading and validating
  the rendered document, the gateway's defaults, and the snapshot every request reads. Reading
  the file and decoding its JSON into a document are outside the model: the bytes read are an
  argument and \<open>decode\<close> is a parameter, as are \<open>url.Parse\<close> and the digest of a document.
\<close>

section \<open>Configuration and sources\<close>

record gateway_config =
  gc_server_name :: gostring
  gc_server_namespace :: namespace
  gc_cluster :: gostring
  gc_policy_mode :: gostring
  gc_policy_decision :: gostring
  gc_policy_version :: gostring

text \<open>What \<open>os.ReadFile\<close> gives: no file configured, an error, or bytes.\<close>

datatype policy_source = NoPolicyFile | ReadError | FileBytes gostring

datatype load_error = FileError | DecodeError | PolicyInvalid policy_error

definition defaultTokenHeader :: gostring where
  "defaultTokenHeader = ''Authorization''"

definition or_default :: "gostring \<Rightarrow> gostring \<Rightarrow> gostring" where
  "or_default v d = (if v = [] then d else v)"

section \<open>Defaults\<close>

definition default_server :: "gateway_config \<Rightarrow> server \<Rightarrow> server" where
  "default_server cfg s =
     s\<lparr>sv_name := or_default (sv_name s) (gc_server_name cfg),
       sv_namespace := or_default (sv_namespace s) (gc_server_namespace cfg),
       sv_cluster := or_default (sv_cluster s) (gc_cluster cfg)\<rparr>"

definition default_token_header :: "document \<Rightarrow> auth option \<Rightarrow> auth option" where
  "default_token_header d a =
     (case a of
        None \<Rightarrow> None
      | Some au \<Rightarrow>
          if \<not> UsesDelegatedHeaders (Some d) \<and> au_token_header au = []
          then Some (au\<lparr>au_token_header := defaultTokenHeader\<rparr>) else Some au)"

definition default_config :: "gateway_config \<Rightarrow> bool \<Rightarrow> config \<Rightarrow> config" where
  "default_config cfg delegated c =
     (let mode = (if delegated then ''allow-list'' else gc_policy_mode cfg);
          decision = (if delegated then ''deny'' else gc_policy_decision cfg)
      in c\<lparr>cf_mode := or_default (cf_mode c) mode,
           cf_default_decision := or_default (cf_default_decision c) decision,
           cf_policy_version := or_default (cf_policy_version c) (gc_policy_version cfg)\<rparr>)"

definition applyPolicyDefaults :: "gateway_config \<Rightarrow> document \<Rightarrow> document" where
  "applyPolicyDefaults cfg d =
     (let c = (case dc_policy d of None \<Rightarrow> config_zero | Some c \<Rightarrow> c)
      in d\<lparr>dc_server := default_server cfg (dc_server d),
           dc_auth := default_token_header d (dc_auth d),
           dc_policy := Some (default_config cfg (UsesDelegatedHeaders (Some d)) c)\<rparr>)"

definition defaultPolicyDocument :: "(document \<Rightarrow> gostring) \<Rightarrow> gateway_config \<Rightarrow> document" where
  "defaultPolicyDocument digest cfg =
     (let d = document_zero\<lparr>dc_server := server_zero\<lparr>sv_name := gc_server_name cfg,
                  sv_namespace := gc_server_namespace cfg, sv_cluster := gc_cluster cfg\<rparr>,
                dc_policy := Some (config_zero\<lparr>cf_mode := gc_policy_mode cfg,
                  cf_default_decision := gc_policy_decision cfg, cf_policy_version := gc_policy_version cfg\<rparr>)\<rparr>
      in case Stamp digest (Some d) [] of Inl _ \<Rightarrow> d | Inr stamped \<Rightarrow> stamped)"

section \<open>Loading\<close>

text \<open>Reading: the document and whether it came from the file.\<close>

definition read_policy :: "(gostring \<Rightarrow> document option) \<Rightarrow> policy_source \<Rightarrow> load_error + document \<times> bool" where
  "read_policy decode src =
     (case src of
        NoPolicyFile \<Rightarrow> Inr (document_zero, False)
      | ReadError \<Rightarrow> Inl FileError
      | FileBytes data \<Rightarrow>
          if data = [] then Inr (document_zero, False)
          else (case decode data of None \<Rightarrow> Inl DecodeError | Some d \<Rightarrow> Inr (d, True)))"

definition loadPolicy ::
  "url_parser \<Rightarrow> (document \<Rightarrow> gostring) \<Rightarrow> (gostring \<Rightarrow> document option) \<Rightarrow> gateway_config \<Rightarrow> policy_source
    \<Rightarrow> load_error + document" where
  "loadPolicy parse_url digest decode cfg src =
     (case read_policy decode src of
        Inl e \<Rightarrow> Inl e
      | Inr (d, True) \<Rightarrow>
          (case Validate parse_url digest (Some d) of
             Some e \<Rightarrow> Inl (PolicyInvalid e)
           | None \<Rightarrow> Inr (the (Compile (Some (applyPolicyDefaults cfg d)))))
      | Inr (d, False) \<Rightarrow>
          (case Stamp digest (Some (applyPolicyDefaults cfg d)) [] of
             Inl e \<Rightarrow> Inl (PolicyInvalid e)
           | Inr stamped \<Rightarrow>
               (case Validate parse_url digest (Some stamped) of
                  Some e \<Rightarrow> Inl (PolicyInvalid e)
                | None \<Rightarrow> Inr (the (Compile (Some stamped))))))"

section \<open>The snapshot\<close>

record policy_snapshot =
  ps_policy :: "document option"
  ps_revision :: gostring
  ps_loaded_at :: time
  ps_err :: "load_error option"
  ps_ready :: bool

text \<open>The atomic value holds nothing before the first store.\<close>

type_synonym policy_state = "policy_snapshot option"

definition seed_snapshot :: "document \<Rightarrow> policy_snapshot" where
  "seed_snapshot d =
     \<lparr>ps_policy = Some d, ps_revision = [], ps_loaded_at = zero_time, ps_err = None, ps_ready = False\<rparr>"

definition loadPolicySnapshot :: "document \<Rightarrow> policy_state \<Rightarrow> policy_snapshot" where
  "loadPolicySnapshot fallback st = (case st of Some s \<Rightarrow> s | None \<Rightarrow> seed_snapshot fallback)"

definition snapshotPolicy :: "policy_snapshot \<Rightarrow> policy_state" where
  "snapshotPolicy s = Some s"

text \<open>\<open>fallback\<close> is the default document, \<open>loaded\<close> the result of \<open>loadPolicy\<close>.\<close>

definition reloadPolicy ::
  "document \<Rightarrow> load_error + document \<Rightarrow> time \<Rightarrow> policy_state \<Rightarrow> load_error option \<times> policy_state" where
  "reloadPolicy fallback loaded now st =
     (case loaded of
        Inl e \<Rightarrow>
          (let retained = loadPolicySnapshot fallback st;
               p = (case ps_policy retained of None \<Rightarrow> fallback | Some d \<Rightarrow> d)
           in (Some e, snapshotPolicy (retained\<lparr>ps_policy := Some p, ps_err := Some e\<rparr>)))
      | Inr d \<Rightarrow>
          (None, snapshotPolicy \<lparr>ps_policy = Some d, ps_revision = dc_revision d, ps_loaded_at = now,
                   ps_err = None, ps_ready = True\<rparr>))"

definition startPolicyCache ::
  "document \<Rightarrow> load_error + document \<Rightarrow> time \<Rightarrow> policy_state \<Rightarrow> load_error option \<times> policy_state" where
  "startPolicyCache fallback loaded now st =
     reloadPolicy fallback loaded now (snapshotPolicy (seed_snapshot fallback))"

text \<open>The policy a request is served with, and whether it is unavailable.\<close>

definition currentPolicy :: "document \<Rightarrow> policy_state \<Rightarrow> document \<times> bool" where
  "currentPolicy fallback st =
     (let s = loadPolicySnapshot fallback st
      in case ps_policy s of
           None \<Rightarrow> (fallback, True)
         | Some d \<Rightarrow> (d, \<not> ps_ready s))"

text \<open>The ticker's reloads: the results of \<open>loadPolicy\<close> and the times they are stored.\<close>

definition reload_step :: "document \<Rightarrow> (load_error + document) \<times> time \<Rightarrow> policy_state \<Rightarrow> policy_state" where
  "reload_step fallback = (\<lambda>(loaded, now) st. snd (reloadPolicy fallback loaded now st))"

section \<open>Lemmas\<close>

lemma loadPolicy_activated: "loadPolicy parse_url digest decode cfg src = Inr d \<Longrightarrow> activated d"
  by (auto simp: loadPolicy_def Compile_def activated_def split: sum.splits prod.splits bool.splits option.splits)

text \<open>The last document that was loaded, if any.\<close>

definition last_loaded :: "((load_error + document) \<times> time) list \<Rightarrow> (document \<times> time) option" where
  "last_loaded rs =
     fold (\<lambda>(loaded, now) best. case loaded of Inl _ \<Rightarrow> best | Inr d \<Rightarrow> Some (d, now)) rs None"

lemma last_loaded_snoc:
  "last_loaded (rs @ [r]) = (case fst r of Inl _ \<Rightarrow> last_loaded rs | Inr d \<Rightarrow> Some (d, snd r))"
  unfolding last_loaded_def by (cases r) (simp split: sum.split)

text \<open>What every snapshot of a run looks like.\<close>

definition snapshot_of :: "document \<Rightarrow> (document \<times> time) option \<Rightarrow> policy_snapshot \<Rightarrow> bool" where
  "snapshot_of fallback good s \<longleftrightarrow>
     (case good of
        None \<Rightarrow> ps_policy s = Some fallback \<and> \<not> ps_ready s
      | Some (d, now) \<Rightarrow>
          ps_policy s = Some d \<and> ps_revision s = dc_revision d \<and> ps_loaded_at s = now \<and> ps_ready s)"

lemma reload_run:
  "snapshot_of fallback (last_loaded rs)
     (loadPolicySnapshot fallback (fold (reload_step fallback) rs (snapshotPolicy (seed_snapshot fallback))))"
proof (induction rs rule: rev_induct)
  case Nil
  then show ?case
    by (simp add: snapshot_of_def last_loaded_def loadPolicySnapshot_def snapshotPolicy_def seed_snapshot_def)
next
  case (snoc r rs)
  obtain loaded now where r: "r = (loaded, now)" by force
  let ?st = "fold (reload_step fallback) rs (snapshotPolicy (seed_snapshot fallback))"
  show ?case
  proof (cases loaded)
    case (Inl e)
    then show ?thesis using snoc.IH
      by (auto simp: r last_loaded_snoc reload_step_def reloadPolicy_def Let_def snapshot_of_def
          loadPolicySnapshot_def snapshotPolicy_def split: option.splits prod.splits)
  next
    case (Inr d)
    then show ?thesis
      by (simp add: r last_loaded_snoc reload_step_def reloadPolicy_def snapshot_of_def loadPolicySnapshot_def
          snapshotPolicy_def)
  qed
qed

text \<open>What loading leaves alone: everything a decision reads besides the server's identity, the
  token header and the blank fields of the policy block.\<close>

definition same_rules :: "document \<Rightarrow> document \<Rightarrow> bool" where
  "same_rules d v \<longleftrightarrow>
     dc_revision d = dc_revision v \<and> dc_tools d = dc_tools v \<and> dc_grants d = dc_grants v \<and>
     dc_sessions d = dc_sessions v \<and> dc_session d = dc_session v \<and>
     dc_credential_bindings d = dc_credential_bindings v \<and>
     (dc_auth d = None \<longleftrightarrow> dc_auth v = None)"

lemma loadPolicy_validated:
  assumes "loadPolicy parse_url digest decode cfg src = Inr d"
  shows "\<exists>v. Validate parse_url digest (Some v) = None \<and> same_rules d v"
proof (cases "read_policy decode src")
  case (Inr r)
  then obtain doc ff where r: "read_policy decode src = Inr (doc, ff)" by (cases r) auto
  show ?thesis
  proof (cases ff)
    case True
    then have "Validate parse_url digest (Some doc) = None" "d = the (Compile (Some (applyPolicyDefaults cfg doc)))"
      using assms r by (auto simp: loadPolicy_def split: option.splits)
    then show ?thesis
      by (intro exI [of _ doc])
        (auto simp: same_rules_def Compile_def applyPolicyDefaults_def Let_def default_token_header_def split: option.splits)
  next
    case False
    then obtain stamped where "Validate parse_url digest (Some stamped) = None" "d = the (Compile (Some stamped))"
      using assms r by (auto simp: loadPolicy_def split: sum.splits option.splits)
    then show ?thesis by (intro exI [of _ stamped]) (simp add: same_rules_def Compile_def)
  qed
qed (use assms in \<open>simp add: loadPolicy_def\<close>)

section \<open>The properties\<close>

text \<open>The results of loading a sequence of sources.\<close>

definition loads ::
  "url_parser \<Rightarrow> (document \<Rightarrow> gostring) \<Rightarrow> (gostring \<Rightarrow> document option) \<Rightarrow> gateway_config \<Rightarrow>
   (policy_source \<times> time) list \<Rightarrow> ((load_error + document) \<times> time) list" where
  "loads parse_url digest decode cfg srcs = map (\<lambda>(src, now). (loadPolicy parse_url digest decode cfg src, now)) srcs"

lemma last_loaded_mem: "last_loaded rs = Some (d, now) \<Longrightarrow> (Inr d, now) \<in> set rs"
proof (induction rs rule: rev_induct)
  case Nil
  then show ?case by (simp add: last_loaded_def)
next
  case (snoc r rs)
  then show ?case by (cases r) (auto simp: last_loaded_snoc split: sum.splits)
qed

text \<open>The gateway serves the last policy that loaded: whatever reloads fail in between, a request
  gets that document and the policy counts as available; until the first success it gets the
  seed and the policy counts as unavailable.\<close>

theorem last_known_good:
  "currentPolicy fallback (fold (reload_step fallback) rs (snd (startPolicyCache fallback first at st))) =
     (case last_loaded ((first, at) # rs) of None \<Rightarrow> (fallback, True) | Some (d, _) \<Rightarrow> (d, False))"
proof -
  have run: "fold (reload_step fallback) rs (snd (startPolicyCache fallback first at st)) =
      fold (reload_step fallback) ((first, at) # rs) (snapshotPolicy (seed_snapshot fallback))"
    by (simp add: startPolicyCache_def reload_step_def)
  show ?thesis
    unfolding run using reload_run [of fallback "(first, at) # rs"]
    by (auto simp: currentPolicy_def snapshot_of_def Let_def split: option.splits prod.splits)
qed

text \<open>A policy that is served as available was validated, with its revision, before it was
  activated, its index is the one \<open>Compile\<close> builds, and the gateway's defaults have changed
  neither grants, tools, sessions nor credential bindings, nor added or removed the
  authentication block.\<close>

theorem served_policy_validated:
  assumes "last_loaded (loads parse_url digest decode cfg srcs) = Some (d, at)"
  shows "activated d \<and> (\<exists>v. Validate parse_url digest (Some v) = None \<and> same_rules d v)"
proof -
  obtain src where "loadPolicy parse_url digest decode cfg src = Inr d"
    using last_loaded_mem [OF assms] by (auto simp: loads_def)
  then show ?thesis using loadPolicy_activated loadPolicy_validated by blast
qed

definition sample_config :: gateway_config where
  "sample_config =
     \<lparr>gc_server_name = ''demo'', gc_server_namespace = ''mcp-servers'', gc_cluster = [],
      gc_policy_mode = ''allow-list'', gc_policy_decision = ''deny'', gc_policy_version = ''v1''\<rparr>"

text \<open>A missing file is a failed reload: the default document of the first load stays.\<close>

theorem served_policy_validated_instance:
  "\<exists>d. last_loaded (loads (\<lambda>_. None) (\<lambda>_. ''digest'') (\<lambda>_. None) sample_config [(NoPolicyFile, 1), (ReadError, 2)]) =
     Some (d, 1) \<and> activated d"
proof -
  obtain d where d: "loadPolicy (\<lambda>_. None) (\<lambda>_. ''digest'') (\<lambda>_. None) sample_config NoPolicyFile = Inr d"
  proof -
    have "case loadPolicy (\<lambda>_. None) (\<lambda>_. ''digest'') (\<lambda>_. None) sample_config NoPolicyFile of Inl _ \<Rightarrow> False | Inr _ \<Rightarrow> True"
      by code_simp
    then show thesis using that by (auto split: sum.splits)
  qed
  have "loadPolicy (\<lambda>_. None) (\<lambda>_. ''digest'') (\<lambda>_. None) sample_config ReadError = Inl FileError"
    by (simp add: loadPolicy_def read_policy_def)
  with d have "last_loaded (loads (\<lambda>_. None) (\<lambda>_. ''digest'') (\<lambda>_. None) sample_config [(NoPolicyFile, 1), (ReadError, 2)]) =
      Some (d, 1)"
    by (simp add: loads_def last_loaded_def)
  from this served_policy_validated [OF this] show ?thesis by blast
qed

end
