(* ===== verification/CredentialTypes.thy ===== *)
theory CredentialTypes
  imports CredentialHeaders
begin

text \<open>
  The metadata and the delivery contract of the credential broker (\<open>pkg/credentialbroker\<close>):
  sources, bindings, their validation, who may use them, the registry of providers and the check
  of a local upstream. The regular expressions of the package are written out as predicates;
  \<open>url.Parse\<close> is a parameter.
\<close>

section \<open>Character classes and names\<close>

definition chars_in :: "(char \<Rightarrow> bool) \<Rightarrow> gostring \<Rightarrow> bool" where
  "chars_in p s \<longleftrightarrow> list_all p s"

definition nonempty_in :: "(char \<Rightarrow> bool) \<Rightarrow> gostring \<Rightarrow> bool" where
  "nonempty_in p s \<longleftrightarrow> s \<noteq> [] \<and> list_all p s"

definition is_digit :: "char \<Rightarrow> bool" where
  "is_digit c \<longleftrightarrow> CHR ''0'' \<le> c \<and> c \<le> CHR ''9''"

definition is_hex :: "char \<Rightarrow> bool" where
  "is_hex c \<longleftrightarrow> is_digit c \<or> (CHR ''a'' \<le> c \<and> c \<le> CHR ''f'') \<or> (CHR ''A'' \<le> c \<and> c \<le> CHR ''F'')"

definition fieldRE :: "gostring \<Rightarrow> bool" where
  "fieldRE s \<longleftrightarrow> nonempty_in (\<lambda>c. is_alnum c \<or> List.member ''_.-'' c) s \<and> length s \<le> 128"

definition versionRE :: "gostring \<Rightarrow> bool" where
  "versionRE s \<longleftrightarrow> nonempty_in (\<lambda>c. is_alnum c \<or> List.member ''_-'' c) s \<and> length s \<le> 128"

definition uuidRE :: "gostring \<Rightarrow> bool" where
  "uuidRE s \<longleftrightarrow>
     (let parts = split_on (CHR ''-'') s
      in map length parts = [8, 4, 4, 4, 12] \<and> list_all (chars_in is_hex) parts)"

text \<open>\<open>agt_\<close> and 26 characters of a base-32 alphabet without i, l, o and u.\<close>

definition is_base32 :: "char \<Rightarrow> bool" where
  "is_base32 c \<longleftrightarrow> is_lower_alnum c \<and> \<not> List.member ''ilou'' c"

definition agentRE :: "gostring \<Rightarrow> bool" where
  "agentRE s \<longleftrightarrow> has_prefix s ''agt_'' \<and> length s = 30 \<and> chars_in is_base32 (drop 4 s)"

definition control_chars :: gostring where
  "control_chars = [CHR 0x0D, CHR 0x0A, CHR 0x00]"

definition to_upper_char :: "char \<Rightarrow> char" where
  "to_upper_char c =
     (if CHR ''a'' \<le> c \<and> c \<le> CHR ''z'' then char_of (of_char c - (32::nat)) else c)"

fun canonical_key :: "bool \<Rightarrow> gostring \<Rightarrow> gostring" where
  "canonical_key upper [] = []"
| "canonical_key upper (c # s) =
     (if upper then to_upper_char c else to_lower_char c) # canonical_key (c = CHR ''-'') s"

definition CanonicalHeaderKey :: "gostring \<Rightarrow> gostring" where
  "CanonicalHeaderKey s = (if list_all is_token_char s then canonical_key True s else s)"

section \<open>Sources and bindings\<close>

record source =
  so_namespace :: gostring
  so_name :: gostring
  so_provider :: gostring
  so_resource :: gostring
  so_key :: gostring
  so_version :: gostring
  so_user_id :: gostring
  so_team_id :: gostring
  so_disabled :: bool
  so_revision :: int

record cred_binding =
  cr_namespace :: gostring
  cr_name :: gostring
  cr_source :: gostring
  cr_server :: gostring
  cr_server_uid :: gostring
  cr_tools :: "gostring list"
  cr_human_id :: gostring
  cr_agent_id :: gostring
  cr_team_id :: gostring
  cr_session_id :: gostring
  cr_header :: gostring
  cr_disabled :: bool
  cr_revision :: int

record resolution_request =
  rs_session :: gostring
  rs_tool :: gostring
  rs_bindings :: "gostring list"

definition HeaderPrefix :: gostring where
  "HeaderPrefix = ''X-Mcp-Credential-''"

definition MaxValueBytes :: nat where
  "MaxValueBytes = 65536"

definition ProviderSupported :: "gostring \<Rightarrow> bool" where
  "ProviderSupported kind \<longleftrightarrow> kind = ''kubernetes''"

definition knownUnsupportedProvider :: "gostring \<Rightarrow> bool" where
  "knownUnsupportedProvider kind \<longleftrightarrow> List.member [''gcp'', ''aws'', ''azure'', ''vault''] kind"

datatype source_error =
    SourceAuthorityUUID
  | SourceNames
  | ProviderReference
  | ProviderNotSupported
  | UnsupportedProvider
  | ReferenceInvalid

text \<open>What the Azure case reads of a parsed URL.\<close>

record vault_url =
  vu_scheme :: gostring
  vu_hostname :: gostring
  vu_host :: gostring
  vu_user :: bool
  vu_query :: gostring
  vu_fragment :: gostring
  vu_path :: gostring

definition has_suffix :: "gostring \<Rightarrow> gostring \<Rightarrow> bool" where
  "has_suffix s p \<longleftrightarrow> has_prefix (rev s) (rev p)"

definition optional :: "(gostring \<Rightarrow> bool) \<Rightarrow> gostring \<Rightarrow> bool" where
  "optional p s \<longleftrightarrow> s = [] \<or> p s"

definition is_word_char :: "char \<Rightarrow> bool" where
  "is_word_char c \<longleftrightarrow> is_alnum c \<or> c = CHR ''_'' \<or> c = CHR ''-''"

definition gcp_resource :: "gostring \<Rightarrow> bool" where
  "gcp_resource s =
     (case split_on (CHR ''/'') s of
        [a, p, b, n] \<Rightarrow> a = ''projects'' \<and> nonempty_in is_word_char p \<and> b = ''secrets'' \<and> nonempty_in is_word_char n
      | _ \<Rightarrow> False)"

definition aws_resource :: "gostring \<Rightarrow> bool" where
  "aws_resource s =
     (case split_on (CHR '':'') s of
        [a, p, m, r, acc, k, n] \<Rightarrow>
          a = ''arn'' \<and> has_prefix p ''aws'' \<and>
          chars_in (\<lambda>c. (CHR ''a'' \<le> c \<and> c \<le> CHR ''z'') \<or> c = CHR ''-'') (drop 3 p) \<and> m = ''secretsmanager'' \<and>
          nonempty_in (\<lambda>c. is_lower_alnum c \<or> c = CHR ''-'') r \<and> length acc = 12 \<and> chars_in is_digit acc \<and>
          k = ''secret'' \<and> nonempty_in (\<lambda>c. is_alnum c \<or> List.member ''/_+=.@-'' c) n
      | _ \<Rightarrow> False)"

definition vault_resource :: "gostring \<Rightarrow> bool" where
  "vault_resource s \<longleftrightarrow>
     (let mount = takeWhile is_word_char s; rest = dropWhile is_word_char s
      in mount \<noteq> [] \<and> rest \<noteq> [] \<and> hd rest = CHR ''/'' \<and>
         nonempty_in (\<lambda>c. is_word_char c \<or> c = CHR ''/'') (tl rest))"

definition azure_secret_path :: "gostring \<Rightarrow> bool" where
  "azure_secret_path p \<longleftrightarrow>
     has_prefix p ''/secrets/'' \<and> nonempty_in (\<lambda>c. is_alnum c \<or> c = CHR ''-'') (drop 9 p)"

definition kv_version :: "gostring \<Rightarrow> bool" where
  "kv_version v \<longleftrightarrow> nonempty_in is_digit v \<and> hd v \<noteq> CHR ''0''"

text \<open>\<open>True\<close> when the reference is a valid one of its provider.\<close>

definition validateReference :: "(gostring \<Rightarrow> vault_url option) \<Rightarrow> source \<Rightarrow> bool" where
  "validateReference parse s =
     (let p = so_provider s in
      if p = ''kubernetes'' then NameValid (so_resource s) \<and> fieldRE (so_key s) \<and> so_version s = []
      else if p = ''gcp'' then gcp_resource (so_resource s) \<and> so_key s = [] \<and> optional versionRE (so_version s)
      else if p = ''aws'' then aws_resource (so_resource s) \<and> so_key s = [] \<and> optional versionRE (so_version s)
      else if p = ''azure'' then
        (case parse (so_resource s) of
           None \<Rightarrow> False
         | Some u \<Rightarrow>
             vu_scheme u = ''https'' \<and> has_suffix (vu_hostname u) ''.vault.azure.net'' \<and>
             vu_host u = vu_hostname u \<and> \<not> vu_user u \<and> vu_query u = [] \<and> vu_fragment u = [] \<and>
             azure_secret_path (vu_path u) \<and> so_key s = [] \<and> optional versionRE (so_version s))
      else if p = ''vault'' then
        \<not> has_prefix (so_resource s) ''/'' \<and> \<not> contains_sub (so_resource s) ''..'' \<and>
        vault_resource (so_resource s) \<and> fieldRE (so_key s) \<and> optional kv_version (so_version s)
      else False)"

definition source_validate :: "(gostring \<Rightarrow> vault_url option) \<Rightarrow> source \<Rightarrow> source_error option" where
  "source_validate parse s =
     (if (so_user_id s \<noteq> [] \<and> \<not> uuidRE (so_user_id s)) \<or> (so_team_id s \<noteq> [] \<and> \<not> uuidRE (so_team_id s))
      then Some SourceAuthorityUUID
      else if \<not> NameValid (so_namespace s) \<or> \<not> NameValid (so_name s) \<or>
              (so_user_id s = [] \<and> so_team_id s = []) \<or> (so_user_id s \<noteq> [] \<and> so_team_id s \<noteq> [])
      then Some SourceNames
      else if contains_any (so_resource s @ so_key s @ so_version s) control_chars \<or>
              1024 < length (so_resource s) \<or> 128 < length (so_version s)
      then Some ProviderReference
      else if knownUnsupportedProvider (so_provider s) then Some ProviderNotSupported
      else if \<not> ProviderSupported (so_provider s) then Some UnsupportedProvider
      else if \<not> validateReference parse s then Some ReferenceInvalid
      else None)"

datatype binding_error = BindingSubjects | BindingSession | BindingNames | BindingToolsCount | BindingTools | BindingHeader

definition canonical_session_id :: "gostring \<Rightarrow> bool" where
  "canonical_session_id s =
     (case split_on (CHR ''/'') s of [a, b] \<Rightarrow> NameValid a \<and> NameValid b | _ \<Rightarrow> False)"

definition tool_error :: "gostring \<Rightarrow> binding_error option" where
  "tool_error t =
     (if t = [] \<or> contains_any t (CHR ''*'' # control_chars) \<or> 256 < length t then Some BindingTools else None)"

definition delivery_header :: "gostring \<Rightarrow> bool" where
  "delivery_header h \<longleftrightarrow>
     has_prefix (CanonicalHeaderKey h) HeaderPrefix \<and> length HeaderPrefix < length h \<and>
     fieldRE (trim_prefix (CanonicalHeaderKey h) HeaderPrefix) \<and> \<not> contains_any h ''_.''"

definition binding_validate :: "cred_binding \<Rightarrow> binding_error option" where
  "binding_validate b =
     (if \<not> uuidRE (cr_human_id b) \<or> \<not> uuidRE (cr_team_id b) \<or> \<not> agentRE (cr_agent_id b) \<or> 128 < length (cr_server_uid b)
      then Some BindingSubjects
      else if cr_session_id b \<noteq> [] \<and> \<not> canonical_session_id (cr_session_id b) then Some BindingSession
      else if \<not> NameValid (cr_namespace b) \<or> \<not> NameValid (cr_name b) \<or> \<not> NameValid (cr_source b) \<or>
              \<not> NameValid (cr_server b) \<or> cr_server_uid b = [] \<or> cr_human_id b = [] \<or> cr_agent_id b = [] \<or>
              cr_team_id b = []
      then Some BindingNames
      else if cr_tools b = [] \<or> 64 < length (cr_tools b) then Some BindingToolsCount
      else
        (case validate_loop (\<lambda>_. tool_error) (\<lambda>t. t) (\<lambda>_. BindingTools) (\<lambda>_ _. None) 0 [] (cr_tools b) of
           Some e \<Rightarrow> Some e
         | None \<Rightarrow> if \<not> delivery_header (cr_header b) then Some BindingHeader else None))"

definition Allows :: "source \<Rightarrow> gostring \<Rightarrow> gostring \<Rightarrow> bool" where
  "Allows s human team \<longleftrightarrow>
     \<not> so_disabled s \<and>
     ((so_user_id s \<noteq> [] \<and> so_user_id s = human) \<or> (so_team_id s \<noteq> [] \<and> so_team_id s = team))"

definition Matches :: "cred_binding \<Rightarrow> gostring \<Rightarrow> gostring \<Rightarrow> gostring \<Rightarrow> gostring \<Rightarrow> gostring \<Rightarrow> bool" where
  "Matches b human agent team session tool \<longleftrightarrow>
     \<not> cr_disabled b \<and> cr_human_id b = human \<and> cr_agent_id b = agent \<and> cr_team_id b = team \<and>
     (cr_session_id b = [] \<or> cr_session_id b = session) \<and> List.member (cr_tools b) tool"

section \<open>Values\<close>

definition in_range :: "nat \<Rightarrow> nat \<Rightarrow> char \<Rightarrow> bool" where
  "in_range lo hi c \<longleftrightarrow> lo \<le> of_char c \<and> of_char c \<le> hi"

text \<open>\<open>utf8.Valid\<close>: one to four bytes, no overlong form, no surrogate, nothing above U+10FFFF.\<close>

fun utf8_valid :: "gostring \<Rightarrow> bool" where
  "utf8_valid [] = True"
| "utf8_valid (a # s) =
     (if in_range 0 127 a then utf8_valid s
      else if in_range 194 223 a then (case s of b # s' \<Rightarrow> in_range 128 191 b \<and> utf8_valid s' | [] \<Rightarrow> False)
      else if in_range 224 239 a then
        (case s of
           b # c # s' \<Rightarrow>
             in_range (if in_range 224 224 a then 160 else 128) (if in_range 237 237 a then 159 else 191) b \<and>
             in_range 128 191 c \<and> utf8_valid s'
         | _ \<Rightarrow> False)
      else if in_range 240 244 a then
        (case s of
           b # c # d # s' \<Rightarrow>
             in_range (if in_range 240 240 a then 144 else 128) (if in_range 244 244 a then 143 else 191) b \<and>
             in_range 128 191 c \<and> in_range 128 191 d \<and> utf8_valid s'
         | _ \<Rightarrow> False)
      else False)"

definition ValidValue :: "gostring \<Rightarrow> bool" where
  "ValidValue v \<longleftrightarrow>
     v \<noteq> [] \<and> length v \<le> MaxValueBytes \<and> utf8_valid v \<and> hd v \<noteq> CHR '' '' \<and> last v \<noteq> CHR '' '' \<and>
     list_all (\<lambda>c. \<not> is_control c) v"

section \<open>Local upstreams and providers\<close>

record local_url =
  lu_scheme :: gostring
  lu_user :: bool
  lu_query :: gostring
  lu_fragment :: gostring
  lu_hostname :: gostring
  lu_port :: gostring

definition parse_port :: "gostring \<Rightarrow> nat option" where
  "parse_port s =
     (if nonempty_in is_digit s then Some (fold (\<lambda>c n. 10 * n + (of_char c - 48)) s 0) else None)"

definition LocalUpstream :: "local_url option \<Rightarrow> nat \<Rightarrow> bool" where
  "LocalUpstream u expected =
     (case u of
        None \<Rightarrow> False
      | Some u \<Rightarrow>
          if lu_scheme u \<noteq> ''http'' \<or> lu_user u \<or> lu_query u \<noteq> [] \<or> lu_fragment u \<noteq> [] \<or>
             (lu_hostname u \<noteq> ''127.0.0.1'' \<and> lu_hostname u \<noteq> ''::1'')
          then False
          else (case parse_port (lu_port u) of
                  None \<Rightarrow> False
                | Some port \<Rightarrow> 0 < port \<and> port \<le> 65535 \<and> (expected = 0 \<or> port = expected)))"

text \<open>The registry maps kinds to readers; a nil reader is \<^term>\<open>None\<close>.\<close>

type_synonym 'r registry = "gostring \<rightharpoonup> 'r"

datatype register_error = ReaderRequired | KindNotSupported

definition Register :: "gostring \<Rightarrow> 'r option \<Rightarrow> 'r registry \<Rightarrow> register_error option \<times> 'r registry" where
  "Register kind reader r =
     (case reader of
        None \<Rightarrow> (Some ReaderRequired, r)
      | Some x \<Rightarrow> if \<not> ProviderSupported kind then (Some KindNotSupported, r) else (None, r(kind \<mapsto> x)))"

definition Reader :: "gostring \<Rightarrow> 'r registry \<Rightarrow> 'r option" where
  "Reader kind r = (if \<not> ProviderSupported kind then None else r kind)"

end
