(* ===== verification/GatewayRequest.thy ===== *)
theory GatewayRequest
  imports PolicyEval CredentialTypes
begin

text \<open>
  A request as the gateway reads it: the parts of \<open>http.Request\<close> the filters use, the RPC
  inspection of stage 1 (\<open>services/mcp-gateway/rpc.go\<close>) and the exchange the filters share
  (\<open>exchange.go\<close>, \<open>types.go\<close>). A header is an association list of names and values; lookups
  fold case, which on the canonical keys of a parsed request is Go's lookup.
\<close>

section \<open>Headers\<close>

definition header_get :: "header \<Rightarrow> gostring \<Rightarrow> gostring" where
  "header_get h name = (case values_of h name of [] \<Rightarrow> [] | v # _ \<Rightarrow> v)"

definition header_del :: "header \<Rightarrow> gostring \<Rightarrow> header" where
  "header_del h name = filter (\<lambda>e. \<not> equal_fold (fst e) name) h"

definition header_set :: "header \<Rightarrow> gostring \<Rightarrow> gostring \<Rightarrow> header" where
  "header_set h name v = header_del h name @ [(name, [v])]"

lemma values_of_del_same [simp]: "equal_fold name name' \<Longrightarrow> values_of (header_del h name) name' = []"
  by (induction h) (auto simp: header_del_def values_of_def equal_fold_def)

lemma values_of_del_other [simp]: "\<not> equal_fold name name' \<Longrightarrow> values_of (header_del h name) name' = values_of h name'"
  by (induction h) (auto simp: header_del_def values_of_def equal_fold_def)

lemma values_of_set_same [simp]: "equal_fold name name' \<Longrightarrow> values_of (header_set h name v) name' = [v]"
proof -
  assume "equal_fold name name'"
  then show ?thesis using values_of_del_same [of name name' h] by (simp add: header_set_def values_of_def)
qed

lemma values_of_set_other [simp]: "\<not> equal_fold name name' \<Longrightarrow> values_of (header_set h name v) name' = values_of h name'"
  using values_of_del_other [of name name' h] by (simp add: header_set_def values_of_def)

section \<open>Credential headers are stripped\<close>

text \<open>\<open>StripHeaders\<close> of \<open>pkg/credentialbroker\<close>: the reserved names go, also as trailers and in the
  declaration of trailers.\<close>

definition is_credential_name :: "gostring \<Rightarrow> bool" where
  "is_credential_name name \<longleftrightarrow> has_prefix (to_lower name) (to_lower HeaderPrefix)"

definition declared_trailers :: "gostring list \<Rightarrow> gostring list" where
  "declared_trailers declarations =
     filter (\<lambda>n. n \<noteq> [] \<and> \<not> is_credential_name n)
       (map trim_space (concat (map (split_on (CHR '','')) declarations)))"

definition StripHeaders :: "header \<Rightarrow> header" where
  "StripHeaders h =
     (let h1 = filter (\<lambda>e. \<not> is_credential_name (trim_prefix (fst e) ''Trailer:'')) h;
          names = declared_trailers (values_of h1 ''Trailer'');
          h2 = header_del h1 ''Trailer''
      in if names = [] then h2 else h2 @ [(''Trailer'', names)])"

section \<open>Requests\<close>

datatype body = NoBody | BodyFails | BodyBytes gostring

text \<open>The TLS state: whether a client chain was verified, and the URIs of the peer's first
  certificate.\<close>

record tls_state =
  ts_verified :: bool
  ts_peer_uris :: "gostring list option"

record http_request =
  hr_method :: gostring
  hr_path :: gostring
  hr_raw_path :: gostring
  hr_headers :: header
  hr_trailers :: header
  hr_content_length :: int
  hr_body :: body
  hr_tls :: "tls_state option"

section \<open>Inspection\<close>

text \<open>A JSON value as Go's decoder sees it; an object keeps its pairs in order and its duplicates.\<close>

datatype json =
    JNull
  | JBool bool
  | JNumber gostring
  | JString gostring
  | JArray "json list"
  | JObject "(gostring \<times> json) list"

text \<open>Decoding into a struct: a key is matched with a field without regard to case and the last
  match wins. A string field takes a string, leaves itself as it is on null, and fails on
  anything else; a raw field takes the value, \<^term>\<open>None\<close> when the key is absent.\<close>

definition raw_field :: "gostring \<Rightarrow> (gostring \<times> json) list \<Rightarrow> json option" where
  "raw_field name ps = fold (\<lambda>p v. if equal_fold (fst p) name then Some (snd p) else v) ps None"

fun string_field :: "gostring \<Rightarrow> (gostring \<times> json) list \<Rightarrow> gostring \<Rightarrow> gostring option" where
  "string_field name [] v = Some v"
| "string_field name (p # ps) v =
     (if equal_fold (fst p) name then
        (case snd p of
           JString s \<Rightarrow> string_field name ps s
         | JNull \<Rightarrow> string_field name ps v
         | _ \<Rightarrow> None)
      else string_field name ps v)"

text \<open>\<open>rpcRequest\<close> and \<open>toolParams\<close>; null decodes into a struct as the zero struct.\<close>

record rpc_request =
  rr_id :: "json option"
  rr_method :: gostring
  rr_params :: "json option"

definition decode_rpc_request :: "json \<Rightarrow> rpc_request option" where
  "decode_rpc_request j =
     (case j of
        JNull \<Rightarrow> Some \<lparr>rr_id = None, rr_method = [], rr_params = None\<rparr>
      | JObject ps \<Rightarrow>
          map_option (\<lambda>m. \<lparr>rr_id = raw_field ''id'' ps, rr_method = m, rr_params = raw_field ''params'' ps\<rparr>)
            (string_field ''method'' ps [])
      | _ \<Rightarrow> None)"

definition decode_tool_name :: "json \<Rightarrow> gostring option" where
  "decode_tool_name j =
     (case j of JNull \<Rightarrow> Some [] | JObject ps \<Rightarrow> string_field ''name'' ps [] | _ \<Rightarrow> None)"

record rpc_inspection =
  in_method :: gostring
  in_tool_name :: gostring
  in_tool_call :: bool
  in_indeterminate :: bool
  in_failure_reason :: gostring
  in_is_rpc_attempt :: bool
  in_params_raw :: "json option"
  in_id_raw :: "json option"

definition inspection_zero :: rpc_inspection where
  "inspection_zero =
     \<lparr>in_method = [], in_tool_name = [], in_tool_call = False, in_indeterminate = False,
      in_failure_reason = [], in_is_rpc_attempt = False, in_params_raw = None, in_id_raw = None\<rparr>"

definition inspection_failed :: "bool \<Rightarrow> rpc_inspection" where
  "inspection_failed attempt =
     inspection_zero\<lparr>in_indeterminate := True, in_failure_reason := ''rpc_inspection_failed'',
       in_is_rpc_attempt := attempt\<rparr>"

definition maxRPCBodyBytes :: nat where
  "maxRPCBodyBytes = 1048576"

text \<open>The inspection of a body that was read: \<open>parse\<close> is the JSON parser.\<close>

definition inspect_body :: "(gostring \<Rightarrow> json option) \<Rightarrow> gostring \<Rightarrow> rpc_inspection" where
  "inspect_body parse data =
     (if data = [] \<or> maxRPCBodyBytes < length data then inspection_failed True
      else
        (case Option.bind (parse data) decode_rpc_request of
           None \<Rightarrow> inspection_failed True
         | Some req \<Rightarrow>
             if trim_space (rr_method req) = [] then inspection_failed True
             else
               inspection_zero\<lparr>in_method := rr_method req,
                 in_tool_name :=
                   (case Option.bind (rr_params req) decode_tool_name of None \<Rightarrow> [] | Some n \<Rightarrow> n),
                 in_tool_call := IsToolCallMethod (rr_method req),
                 in_params_raw := rr_params req, in_id_raw := rr_id req\<rparr>))"

definition inspectRPCRequest :: "(gostring \<Rightarrow> json option) \<Rightarrow> http_request \<Rightarrow> rpc_inspection" where
  "inspectRPCRequest parse r =
     (let content_type = to_lower (header_get (hr_headers r) ''content-type'')
      in if hr_method r \<noteq> ''POST'' then inspection_zero
         else if content_type \<noteq> [] \<and> \<not> contains_sub content_type ''application/json''
         then inspection_failed False
         else if hr_body r = NoBody \<or> hr_content_length r = 0 \<or> int maxRPCBodyBytes < hr_content_length r
         then inspection_failed True
         else (case hr_body r of
                 NoBody \<Rightarrow> inspection_failed True
               | BodyFails \<Rightarrow> inspection_failed True
               | BodyBytes data \<Rightarrow> inspect_body parse data))"

section \<open>Exchanges\<close>

record identity_context =
  ic_human :: gostring
  ic_agent :: gostring
  ic_team :: gostring
  ic_session_id :: gostring
  ic_session :: "binding option"

definition identity_none :: identity_context where
  "identity_none = \<lparr>ic_human = [], ic_agent = [], ic_team = [], ic_session_id = [], ic_session = None\<rparr>"

datatype filter_result = Continue | Reject | Respond

text \<open>What a filter wrote: a refusal with its status, reason and challenge; a status of its own; a
  stored reply; or what the upstream answered to the request that was forwarded.\<close>

datatype response =
    NotWritten
  | DeniedResponse nat gostring bool
  | DirectResponse nat
  | ReplayedResponse int gostring gostring
  | UpstreamResponse http_request int

record exchange =
  ex_request :: http_request
  ex_original_path :: gostring
  ex_inspection :: rpc_inspection
  ex_policy :: "document option"
  ex_policy_err :: bool
  ex_identity :: identity_context
  ex_oauth_token :: gostring
  ex_decision :: decision
  ex_skip_audit :: bool
  ex_idem_outcome :: gostring
  ex_idem_key_hash :: gostring
  ex_response :: response
  ex_retry_after :: bool
  ex_aborted :: bool

definition newExchange :: "http_request \<Rightarrow> gostring \<Rightarrow> exchange" where
  "newExchange r version =
     \<lparr>ex_request = r, ex_original_path = hr_path r, ex_inspection = inspection_zero, ex_policy = None,
      ex_policy_err = False, ex_identity = identity_none, ex_oauth_token = [],
      ex_decision = Deny 403 ''undecided'' version, ex_skip_audit = False, ex_idem_outcome = [],
      ex_idem_key_hash = [], ex_response = NotWritten, ex_retry_after = False, ex_aborted = False\<rparr>"

definition inspectFilter :: "(gostring \<Rightarrow> json option) \<Rightarrow> exchange \<Rightarrow> filter_result \<times> exchange" where
  "inspectFilter parse ex = (Continue, ex\<lparr>ex_inspection := inspectRPCRequest parse (ex_request ex)\<rparr>)"

end
