(* ===== verification/GatewayOAuth.thy ===== *)
theory GatewayOAuth
  imports GatewayRequest
begin

text \<open>
  OAuth at the gateway (\<open>services/mcp-gateway/oauth.go\<close>): token extraction, the claims, the
  lookup of an issuer's metadata, the verification of a bearer token and the protected resource
  metadata. The JWT library, \<open>url.Parse\<close> and HTTP are parameters: a verifier of tokens, a parsed
  URL and the reply of a metadata endpoint.
\<close>

section \<open>Tokens and claims\<close>

definition ExtractBearer :: "gostring \<Rightarrow> gostring" where
  "ExtractBearer auth = (if has_prefix (to_lower auth) ''bearer '' then trim_space (drop 7 auth) else [])"

definition extractToken :: "gostring \<Rightarrow> gostring \<Rightarrow> gostring" where
  "extractToken header_name value =
     (let v = trim_space value in
      if v = [] then []
      else if equal_fold (trim_space header_name) ''authorization'' then ExtractBearer v
      else if ExtractBearer v \<noteq> [] then ExtractBearer v else v)"

text \<open>The claims of a token: strings, lists of strings, lists of JSON values (\<^term>\<open>None\<close> for one
  that is not a string), and anything else.\<close>

datatype claim = ClaimString gostring | ClaimStrings "gostring list" | ClaimList "gostring option list" | ClaimOther

type_synonym claims = "gostring \<rightharpoonup> claim"

definition stringClaim :: "claims \<Rightarrow> gostring \<Rightarrow> gostring" where
  "stringClaim c key = (case c key of Some (ClaimString v) \<Rightarrow> trim_space v | _ \<Rightarrow> [])"

definition stringClaims :: "claims \<Rightarrow> gostring \<Rightarrow> gostring list" where
  "stringClaims c name =
     (case c name of
        Some (ClaimStrings vs) \<Rightarrow> vs
      | Some (ClaimList vs) \<Rightarrow> filter (\<lambda>v. v \<noteq> []) (map (\<lambda>v. case v of None \<Rightarrow> [] | Some s \<Rightarrow> trim_space s) vs)
      | _ \<Rightarrow> [])"

definition explicit_team :: "claims \<Rightarrow> gostring" where
  "explicit_team c = FirstNonEmpty [stringClaim c ''team_id'', stringClaim c ''tenant_id'', stringClaim c ''tid'']"

definition oauthTeamID :: "claims \<Rightarrow> document option \<Rightarrow> gostring" where
  "oauthTeamID c p =
     (if explicit_team c \<noteq> [] then explicit_team c
      else
        (let teams = stringClaims c ''team_ids'';
             owner = PolicyServerTeamID p
         in if owner \<noteq> [] \<and> List.member teams owner then owner
            else if length teams = 1 then hd teams else []))"

definition oauthTeamIDForSubject :: "claims \<Rightarrow> document option \<Rightarrow> gostring \<Rightarrow> gostring \<times> bool" where
  "oauthTeamIDForSubject c p subject_team =
     (if subject_team = [] then (oauthTeamID c p, True)
      else if explicit_team c \<noteq> [] then (explicit_team c, True)
      else
        (let teams = stringClaims c ''team_ids''
         in if List.member teams subject_team then (subject_team, True)
            else if teams \<noteq> [] then ([], False) else ([], True)))"

section \<open>Issuer metadata\<close>

text \<open>A parsed URL: scheme, host, escaped path, and its text without query and fragment.\<close>

record parsed_url =
  pu_scheme :: gostring
  pu_host :: gostring
  pu_path :: gostring
  pu_text :: gostring

record server_metadata =
  sm_issuer :: gostring
  sm_jwks_uri :: gostring

text \<open>The reply of a metadata endpoint: none, or a status and a decoded body.\<close>

datatype metadata_reply = FetchFailed | Fetched nat "server_metadata option"

datatype oauth_error =
    NoCandidates
  | EndpointFailed
  | EndpointStatus nat
  | EndpointDecode
  | IssuerMismatch gostring
  | JWKSMissing
  | NotUnderIssuer
  | IssuerRequired

definition add_candidate :: "gostring \<Rightarrow> gostring list \<Rightarrow> gostring list" where
  "add_candidate v cs =
     (let s = trim_space v in if s = [] \<or> List.member cs s then cs else cs @ [s])"

definition origin_of :: "parsed_url \<Rightarrow> gostring" where
  "origin_of u = pu_scheme u @ ''://'' @ pu_host u"

definition authServerMetadataCandidates :: "(gostring \<Rightarrow> parsed_url option) \<Rightarrow> gostring \<Rightarrow> gostring list" where
  "authServerMetadataCandidates parse issuer =
     (let url = trim_space issuer in
      if url = [] then []
      else
        (case parse url of
           None \<Rightarrow> []
         | Some u \<Rightarrow>
             if pu_scheme u = [] \<or> pu_host u = [] then []
             else
               (let path = trim_char (CHR ''/'') (pu_path u);
                    base = origin_of u
                in if path = [] then
                     add_candidate (base @ ''/.well-known/openid-configuration'')
                       (add_candidate (base @ ''/.well-known/oauth-authorization-server'') [])
                   else
                     add_candidate (trim_right_char (CHR ''/'') (pu_text u) @ ''/.well-known/openid-configuration'')
                       (add_candidate (base @ ''/.well-known/openid-configuration/'' @ path)
                         (add_candidate (base @ ''/.well-known/oauth-authorization-server/'' @ path) [])))))"

text \<open>One endpoint after the other: the first acceptable document, or the last error.\<close>

fun try_endpoints ::
  "(gostring \<Rightarrow> metadata_reply) \<Rightarrow> gostring \<Rightarrow> gostring list \<Rightarrow> oauth_error \<Rightarrow> oauth_error + server_metadata" where
  "try_endpoints get expected [] err = Inl err"
| "try_endpoints get expected (endpoint # rest) err =
     (case get endpoint of
        FetchFailed \<Rightarrow> try_endpoints get expected rest EndpointFailed
      | Fetched status doc \<Rightarrow>
          if status < 200 \<or> 300 \<le> status then try_endpoints get expected rest (EndpointStatus status)
          else
            (case doc of
               None \<Rightarrow> try_endpoints get expected rest EndpointDecode
             | Some m \<Rightarrow>
                 if trim_space (sm_issuer m) \<noteq> expected
                 then try_endpoints get expected rest (IssuerMismatch (sm_issuer m))
                 else if trim_space (sm_jwks_uri m) = [] then try_endpoints get expected rest JWKSMissing
                 else Inr m))"

definition fetchAuthServerMetadataForIssuer ::
  "(gostring \<Rightarrow> parsed_url option) \<Rightarrow> (gostring \<Rightarrow> metadata_reply) \<Rightarrow> gostring \<Rightarrow> gostring
    \<Rightarrow> oauth_error + server_metadata" where
  "fetchAuthServerMetadataForIssuer parse get lookup expected =
     try_endpoints get expected (authServerMetadataCandidates parse lookup) NoCandidates"

definition fetchAuthServerMetadataWithFallback ::
  "(gostring \<Rightarrow> parsed_url option) \<Rightarrow> (gostring \<Rightarrow> metadata_reply) \<Rightarrow> gostring \<Rightarrow> gostring
    \<Rightarrow> oauth_error + server_metadata \<times> bool" where
  "fetchAuthServerMetadataWithFallback parse get internal issuer =
     (let int_url = trim_space internal;
          direct = map_sum id (\<lambda>m. (m, False)) (fetchAuthServerMetadataForIssuer parse get issuer issuer)
      in if int_url = [] \<or> int_url = issuer then direct
         else (case fetchAuthServerMetadataForIssuer parse get int_url issuer of
                 Inr m \<Rightarrow> Inr (m, True)
               | Inl _ \<Rightarrow> direct))"

definition rewriteOAuthEndpoint :: "gostring \<Rightarrow> gostring \<Rightarrow> gostring \<Rightarrow> oauth_error + gostring" where
  "rewriteOAuthEndpoint endpoint public internal =
     (let pub = trim_right_char (CHR ''/'') (trim_space public);
          int_base = trim_right_char (CHR ''/'') (trim_space internal)
      in if pub = [] \<or> int_base = [] \<or> \<not> has_prefix endpoint (pub @ ''/'') then Inl NotUnderIssuer
         else Inr (int_base @ trim_prefix endpoint pub))"

text \<open>A provider verifies with the keys at a URL, for one issuer and one audience. The cache maps
  an issuer and an audience to its provider.\<close>

record oauth_provider =
  op_jwks :: gostring
  op_issuer :: gostring
  op_audience :: gostring

type_synonym provider_cache = "gostring \<times> gostring \<rightharpoonup> oauth_provider"

text \<open>The lock is released while the metadata is fetched: \<open>others\<close> is what other requests do to the
  cache in the meantime, and a provider one of them stored is used.\<close>

definition oauthProviderForIssuer ::
  "(gostring \<Rightarrow> parsed_url option) \<Rightarrow> (gostring \<Rightarrow> metadata_reply) \<Rightarrow> gostring \<Rightarrow> (provider_cache \<Rightarrow> provider_cache)
    \<Rightarrow> gostring \<Rightarrow> gostring \<Rightarrow> provider_cache \<Rightarrow> (oauth_error + oauth_provider) \<times> provider_cache" where
  "oauthProviderForIssuer parse get internal others issuer_url audience cache =
     (let issuer = trim_space issuer_url in
      if issuer = [] then (Inl IssuerRequired, cache)
      else
        (case cache (issuer, audience) of
           Some p \<Rightarrow> (Inr p, cache)
         | None \<Rightarrow>
             (let cache1 = others cache in
              case fetchAuthServerMetadataWithFallback parse get internal issuer of
                Inl e \<Rightarrow> (Inl e, cache1)
              | Inr (m, using_internal) \<Rightarrow>
                  (case (if using_internal then rewriteOAuthEndpoint (sm_jwks_uri m) (sm_issuer m) internal
                         else Inr (sm_jwks_uri m)) of
                     Inl e \<Rightarrow> (Inl e, cache1)
                   | Inr jwks \<Rightarrow>
                       (case cache1 (issuer, audience) of
                          Some existing \<Rightarrow> (Inr existing, cache1)
                        | None \<Rightarrow>
                            (let p = \<lparr>op_jwks = jwks, op_issuer = issuer, op_audience = audience\<rparr>
                             in (Inr p, cache1((issuer, audience) \<mapsto> p))))))))"

section \<open>Authentication\<close>

definition default_token_header_name :: gostring where
  "default_token_header_name = ''Authorization''"

definition oauthTokenHeader :: "document option \<Rightarrow> gostring" where
  "oauthTokenHeader p =
     (case p of
        None \<Rightarrow> default_token_header_name
      | Some d \<Rightarrow>
          (case dc_auth d of
             None \<Rightarrow> default_token_header_name
           | Some a \<Rightarrow>
               if trim_space (au_token_header a) \<noteq> [] then trim_space (au_token_header a)
               else default_token_header_name))"

record oauth_result =
  or_allowed :: bool
  or_status :: nat
  or_reason :: gostring
  or_identity :: identity_context
  or_token :: gostring

definition oauth_refused :: "nat \<Rightarrow> gostring \<Rightarrow> oauth_result" where
  "oauth_refused status reason =
     \<lparr>or_allowed = False, or_status = status, or_reason = reason, or_identity = identity_none, or_token = []\<rparr>"

text \<open>What the gateway takes from the outside for a token: URL parsing, the metadata endpoints, the
  internal issuer, and the verifier, which maps a provider and a token to subject and claims.\<close>

record oauth_env =
  oe_parse :: "gostring \<Rightarrow> parsed_url option"
  oe_get :: "gostring \<Rightarrow> metadata_reply"
  oe_internal :: gostring
  oe_others :: "provider_cache \<Rightarrow> provider_cache"
  oe_verify :: "oauth_provider \<Rightarrow> gostring \<Rightarrow> (gostring \<times> claims) option"

definition token_identity :: "gostring \<Rightarrow> claims \<Rightarrow> gostring \<Rightarrow> identity_context" where
  "token_identity subject c team =
     \<lparr>ic_human = subject, ic_agent = FirstNonEmpty [stringClaim c ''azp'', stringClaim c ''client_id''],
      ic_team = team, ic_session_id = stringClaim c ''sid'', ic_session = None\<rparr>"

definition verify_token ::
  "oauth_env \<Rightarrow> document \<Rightarrow> gostring \<Rightarrow> oauth_provider \<Rightarrow> gostring \<Rightarrow> oauth_result" where
  "verify_token env d subject_team provider token =
     (case oe_verify env provider token of
        None \<Rightarrow> oauth_refused 401 ''invalid_token''
      | Some (subject, c) \<Rightarrow>
          (case oauthTeamIDForSubject c (Some d) subject_team of
             (_, False) \<Rightarrow> oauth_refused 401 ''certificate_oauth_team_mismatch''
           | (team, True) \<Rightarrow>
               \<lparr>or_allowed = True, or_status = 200, or_reason = [], or_identity = token_identity subject c team,
                or_token = token\<rparr>))"

definition authenticateOAuthForSubjectTeam ::
  "oauth_env \<Rightarrow> header \<Rightarrow> document \<Rightarrow> gostring \<Rightarrow> provider_cache \<Rightarrow> oauth_result \<times> provider_cache" where
  "authenticateOAuthForSubjectTeam env h d subject_team cache =
     (case dc_auth d of
        None \<Rightarrow> (oauth_refused 503 ''oauth_config_missing'', cache)
      | Some a \<Rightarrow>
          (let issuer = trim_space (au_issuer_url a);
               token_header = oauthTokenHeader (Some d);
               token = extractToken token_header (header_get h token_header);
               audience = trim_space (au_audience a)
           in if issuer = [] then (oauth_refused 503 ''oauth_issuer_missing'', cache)
              else if token = [] then (oauth_refused 401 ''missing_bearer_token'', cache)
              else if audience = [] then (oauth_refused 503 ''oauth_audience_missing'', cache)
              else
                (case oauthProviderForIssuer (oe_parse env) (oe_get env) (oe_internal env) (oe_others env) issuer audience
                   cache of
                   (Inl _, cache1) \<Rightarrow> (oauth_refused 503 ''oauth_provider_unavailable'', cache1)
                 | (Inr provider, cache1) \<Rightarrow> (verify_token env d subject_team provider token, cache1))))"

section \<open>Protected resource metadata\<close>

definition oauthProtectedPrefix :: gostring where
  "oauthProtectedPrefix = ''/.well-known/oauth-protected-resource''"

definition isOAuthProtectedMetadataPath :: "gostring \<Rightarrow> bool" where
  "isOAuthProtectedMetadataPath v \<longleftrightarrow> v = oauthProtectedPrefix \<or> has_prefix v (oauthProtectedPrefix @ ''/'')"

text \<open>The status of the reply and, when it carries the metadata, the advertised resource; \<^term>\<open>None\<close>
  when the path is not the metadata's.\<close>

definition handleOAuthProtectedResource ::
  "http_request \<Rightarrow> document option \<Rightarrow> (nat \<times> gostring option) option" where
  "handleOAuthProtectedResource r p =
     (if \<not> isOAuthProtectedMetadataPath (hr_path r) then None
      else if \<not> PolicyUsesOAuth p then Some (404, None)
      else if hr_method r \<noteq> ''GET'' \<and> hr_method r \<noteq> ''HEAD'' then Some (405, None)
      else
        (let audience = (case Option.bind p dc_auth of None \<Rightarrow> [] | Some a \<Rightarrow> trim_space (au_audience a))
         in if audience = [] then Some (503, None)
            else Some (200, if hr_method r = ''HEAD'' then None else Some audience)))"

section \<open>The challenge of a refusal\<close>

definition shouldChallengeOAuth :: "document option \<Rightarrow> decision \<Rightarrow> bool" where
  "shouldChallengeOAuth p d =
     (if \<not> PolicyUsesOAuth p then False
      else if de_status d = 403 then False
      else if de_status d \<noteq> 401 then False
      else de_reason d = ''missing_bearer_token'' \<or> de_reason d = ''invalid_token'')"

definition oauthScopeToken :: "gostring \<Rightarrow> gostring" where
  "oauthScopeToken v =
     map (\<lambda>c. if is_alnum c \<or> List.member (''!#$%&'' @ [CHR 0x27] @ ''()*+-.^_'' @ [CHR 0x60] @ ''|~:'') c
              then c else CHR ''_'') (trim_space v)"

definition oauthRequiredScopes :: "decision \<Rightarrow> gostring \<Rightarrow> gostring list" where
  "oauthRequiredScopes d tool =
     (if de_reason d = ''tool_denied'' \<or> de_reason d = ''tool_not_granted'' then
        (if tool \<noteq> [] then [''mcp:tool:'' @ oauthScopeToken tool] else [])
      else if de_reason d = ''trust_too_low'' then
        (if de_required_trust d \<noteq> [] then [''mcp:trust:'' @ oauthScopeToken (de_required_trust d)] else [])
      else if de_reason d = ''side_effect_not_allowed'' then
        (if de_required_side_effect d \<noteq> [] then [''mcp:side-effect:'' @ oauthScopeToken (de_required_side_effect d)] else [])
      else if de_reason d = ''no_matching_grant'' \<or> de_reason d = ''grant_without_trust'' then [''mcp:access'']
      else [])"

definition oauthScopeDescription :: "gostring \<Rightarrow> gostring" where
  "oauthScopeDescription reason =
     (if reason = ''tool_denied'' \<or> reason = ''tool_not_granted'' then ''Tool permission required for this operation''
      else if reason = ''trust_too_low'' then ''Higher trust permission required for this operation''
      else if reason = ''side_effect_not_allowed'' then ''Side-effect permission required for this operation''
      else ''Permission required for this operation'')"

definition quoted :: "gostring \<Rightarrow> gostring" where
  "quoted v = [CHR 0x22] @ v @ [CHR 0x22]"

fun join_with :: "gostring \<Rightarrow> gostring list \<Rightarrow> gostring" where
  "join_with sep [] = []"
| "join_with sep [v] = v"
| "join_with sep (v # w # vs) = v @ sep @ join_with sep (w # vs)"

text \<open>\<open>metadata_url\<close> is \<open>oauthresource.ProtectedResourceMetadataURL\<close> of the audience.\<close>

definition oauthAuthenticateHeader ::
  "(gostring \<Rightarrow> gostring) \<Rightarrow> gostring \<Rightarrow> gostring \<Rightarrow> gostring \<Rightarrow> decision \<Rightarrow> gostring" where
  "oauthAuthenticateHeader metadata_url audience reason tool d =
     (let scopes = oauthRequiredScopes d tool in
      ''Bearer '' @ join_with '', ''
        ([''realm='' @ quoted ''mcp-runtime'', ''resource_metadata='' @ quoted (metadata_url audience)] @
         (if reason = ''invalid_token'' then [''error='' @ quoted ''invalid_token''] else []) @
         (if de_status d = 403 then
            [''error='' @ quoted ''insufficient_scope''] @
            (if scopes \<noteq> [] then [''scope='' @ quoted (join_with '' '' scopes)] else []) @
            [''error_description='' @ quoted (oauthScopeDescription (de_reason d))]
          else [])))"

section \<open>Lemmas\<close>

lemma try_endpoints_Inr:
  "try_endpoints get expected eps err = Inr m \<Longrightarrow>
     trim_space (sm_issuer m) = expected \<and> trim_space (sm_jwks_uri m) \<noteq> [] \<and>
     (\<exists>ep \<in> set eps. \<exists>status. get ep = Fetched status (Some m) \<and> 200 \<le> status \<and> status < 300)"
  by (induction eps arbitrary: err) (auto split: metadata_reply.splits if_splits option.splits)

text \<open>What a cached provider was made from.\<close>

definition provider_from ::
  "(gostring \<Rightarrow> metadata_reply) \<Rightarrow> gostring \<Rightarrow> gostring \<times> gostring \<Rightarrow> oauth_provider \<Rightarrow> bool" where
  "provider_from get internal key p \<longleftrightarrow>
     op_issuer p = fst key \<and> op_audience p = snd key \<and>
     (\<exists>ep status m. get ep = Fetched status (Some m) \<and> 200 \<le> status \<and> status < 300 \<and>
        trim_space (sm_issuer m) = fst key \<and>
        (op_jwks p = sm_jwks_uri m \<or> rewriteOAuthEndpoint (sm_jwks_uri m) (sm_issuer m) internal = Inr (op_jwks p)))"

lemma map_sum_Inr_iff: "map_sum f g x = Inr y \<longleftrightarrow> (\<exists>z. x = Inr z \<and> y = g z)"
  by (cases x) auto

lemma fallback_Inr:
  assumes "fetchAuthServerMetadataWithFallback parse get internal issuer = Inr (m, b)"
  shows "trim_space (sm_issuer m) = issuer \<and>
    (\<exists>ep status. get ep = Fetched status (Some m) \<and> 200 \<le> status \<and> status < 300)"
  using assms
  by (auto simp: fetchAuthServerMetadataWithFallback_def fetchAuthServerMetadataForIssuer_def Let_def
      map_sum_Inr_iff dest!: try_endpoints_Inr split: if_splits sum.splits)

lemma provider_from_metadata:
  assumes "oauthProviderForIssuer parse get internal others issuer audience cache = (res, cache')"
    and old: "\<And>key p. cache key = Some p \<Longrightarrow> provider_from get internal key p"
    and later: "\<And>key p. others cache key = Some p \<Longrightarrow> provider_from get internal key p"
  shows "(\<forall>p. res = Inr p \<longrightarrow> provider_from get internal (trim_space issuer, audience) p) \<and>
    (\<forall>key p. cache' key = Some p \<longrightarrow> provider_from get internal key p)"
proof (cases "trim_space issuer = [] \<or> cache (trim_space issuer, audience) \<noteq> None")
  case True
  then show ?thesis using assms(1) old by (auto simp: oauthProviderForIssuer_def Let_def split: if_splits)
next
  case False
  then have fresh: "trim_space issuer \<noteq> []" "cache (trim_space issuer, audience) = None" by auto
  show ?thesis
  proof (cases "fetchAuthServerMetadataWithFallback parse get internal (trim_space issuer)")
    case (Inl e)
    then show ?thesis using fresh assms(1) later by (auto simp: oauthProviderForIssuer_def Let_def)
  next
    case (Inr r)
    then obtain m b where r: "r = (m, b)" by force
    note meta = fallback_Inr [OF Inr [unfolded r]]
    define p where "p jwks = \<lparr>op_jwks = jwks, op_issuer = trim_space issuer, op_audience = audience\<rparr>" for jwks
    have new: "provider_from get internal (trim_space issuer, audience) (p jwks)"
      if "jwks = sm_jwks_uri m \<or> rewriteOAuthEndpoint (sm_jwks_uri m) (sm_issuer m) internal = Inr jwks" for jwks
      using meta that by (auto simp: provider_from_def p_def)
    show ?thesis
    proof (cases "if b then rewriteOAuthEndpoint (sm_jwks_uri m) (sm_issuer m) internal else Inr (sm_jwks_uri m)")
      case (Inl e)
      then show ?thesis using fresh assms(1) later \<open>_ = Inr r\<close>
        by (auto simp: oauthProviderForIssuer_def Let_def r)
    next
      case (Inr jwks)
      then have ok: "provider_from get internal (trim_space issuer, audience) (p jwks)"
        by (intro new) (auto split: if_splits)
      show ?thesis
      proof (cases "others cache (trim_space issuer, audience)")
        case None
        then have "res = Inr (p jwks)" "cache' = (others cache)((trim_space issuer, audience) \<mapsto> p jwks)"
          using fresh assms(1) \<open>_ = Inr r\<close> Inr by (simp_all add: oauthProviderForIssuer_def Let_def r p_def)
        with ok later show ?thesis by simp
      next
        case (Some existing)
        then have "res = Inr existing" "cache' = others cache"
          using fresh assms(1) \<open>_ = Inr r\<close> Inr by (simp_all add: oauthProviderForIssuer_def Let_def r)
        with later Some show ?thesis by simp
      qed
    qed
  qed
qed

end
