(* ===== verification/SpiffeIdentity.thy ===== *)
theory SpiffeIdentity
  imports GatewayOAuth
begin

text \<open>
  Session identities as SPIFFE IDs (\<open>pkg/identity\<close>): the operator and the CLI write them, the
  gateway reads them back. Escaping a path segment is \<open>net/url\<close>'s; parsing the URL is a
  parameter, a function to scheme, host, escaped path, query and fragment.
\<close>

section \<open>Path segments\<close>

text \<open>\<open>shouldEscape\<close> for a path segment: letters, digits and \<open>-_.~$&+=:@\<close> stay.\<close>

definition segment_char :: "char \<Rightarrow> bool" where
  "segment_char c \<longleftrightarrow> is_alnum c \<or> List.member ''-_.~$&+=:@'' c"

definition hex_digit :: "nat \<Rightarrow> char" where
  "hex_digit n = (if n < 10 then char_of (48 + n) else char_of (55 + n))"

definition escape_char :: "char \<Rightarrow> gostring" where
  "escape_char c =
     (if segment_char c then [c]
      else (let n = of_char c :: nat in [CHR ''%'', hex_digit (n div 16), hex_digit (n mod 16)]))"

definition PathEscape :: "gostring \<Rightarrow> gostring" where
  "PathEscape s = concat (map escape_char s)"

definition hex_value :: "char \<Rightarrow> nat option" where
  "hex_value c =
     (let n = of_char c :: nat in
      if CHR ''0'' \<le> c \<and> c \<le> CHR ''9'' then Some (n - 48)
      else if CHR ''A'' \<le> c \<and> c \<le> CHR ''F'' then Some (n - 55)
      else if CHR ''a'' \<le> c \<and> c \<le> CHR ''f'' then Some (n - 87)
      else None)"

fun PathUnescape :: "gostring \<Rightarrow> gostring option" where
  "PathUnescape [] = Some []"
| "PathUnescape (c # s) =
     (if c = CHR ''%'' then
        (case s of
           a # b # s' \<Rightarrow>
             (case (hex_value a, hex_value b) of
                (Some x, Some y) \<Rightarrow> map_option (\<lambda>r. char_of (16 * x + y) # r) (PathUnescape s')
              | _ \<Rightarrow> None)
         | _ \<Rightarrow> None)
      else map_option (\<lambda>r. c # r) (PathUnescape s))"

section \<open>Session identities\<close>

record spiffe_url =
  su_scheme :: gostring
  su_host :: gostring
  su_path :: gostring
  su_query :: gostring
  su_fragment :: gostring

definition spiffe_path :: "gostring \<Rightarrow> gostring \<Rightarrow> gostring" where
  "spiffe_path ns session = ''/ns/'' @ PathEscape ns @ ''/session/'' @ PathEscape session"

definition SessionSPIFFEID :: "gostring \<Rightarrow> gostring \<Rightarrow> gostring \<Rightarrow> gostring" where
  "SessionSPIFFEID trust_domain ns session =
     ''spiffe://'' @ trim_space trust_domain @ spiffe_path (trim_space ns) (trim_space session)"

definition ParseSessionSPIFFE ::
  "(gostring \<Rightarrow> spiffe_url option) \<Rightarrow> gostring \<Rightarrow> gostring \<Rightarrow> (gostring \<times> gostring) option" where
  "ParseSessionSPIFFE parse raw trust_domain =
     (case parse raw of
        None \<Rightarrow> None
      | Some u \<Rightarrow>
          if \<not> equal_fold (su_scheme u) ''spiffe'' \<or> \<not> equal_fold (su_host u) (trim_space trust_domain) then None
          else if su_query u \<noteq> [] \<or> su_fragment u \<noteq> [] then None
          else
            (case split_on (CHR ''/'') (trim_char (CHR ''/'') (su_path u)) of
               [p0, p1, p2, p3] \<Rightarrow>
                 if p0 \<noteq> ''ns'' \<or> p2 \<noteq> ''session'' then None
                 else
                   (case PathUnescape p1 of
                      None \<Rightarrow> None
                    | Some ns \<Rightarrow>
                        if trim_space ns = [] then None
                        else
                          (case PathUnescape p3 of
                             None \<Rightarrow> None
                           | Some session \<Rightarrow> if trim_space session = [] then None else Some (ns, session)))
             | _ \<Rightarrow> None))"

text \<open>A certificate is the list of its URIs as texts.\<close>

definition CertificateHasURI :: "gostring list option \<Rightarrow> gostring \<Rightarrow> bool" where
  "CertificateHasURI cert want = (case cert of None \<Rightarrow> False | Some uris \<Rightarrow> List.member uris want)"

definition FirstClientSPIFFEURI :: "(gostring \<times> spiffe_url) list option \<Rightarrow> gostring \<Rightarrow> gostring" where
  "FirstClientSPIFFEURI cert trust_domain =
     (case cert of
        None \<Rightarrow> []
      | Some uris \<Rightarrow>
          (case List.find (\<lambda>(text, u). equal_fold (su_scheme u) ''spiffe'' \<and>
                  (trim_space trust_domain = [] \<or> equal_fold (su_host u) (trim_space trust_domain))) uris of
             None \<Rightarrow> []
           | Some (text, u) \<Rightarrow> text))"

section \<open>Escaping round trip\<close>

lemma all_below_16:
  assumes "list_all P [0, 1, 2, 3, 4, 5, 6, 7, 8, 9, 10, 11, 12, 13, 14, 15]" and "n < (16::nat)"
  shows "P n"
proof -
  from assms(2) have "n \<in> set [0, 1, 2, 3, 4, 5, 6, 7, 8, 9, 10, 11, 12, 13, 14, 15]"
    unfolding list.set insert_iff empty_iff by presburger
  with assms(1) show ?thesis by (metis list_all_iff)
qed

lemma hex_digit_value: "n < 16 \<Longrightarrow> hex_value (hex_digit n) = Some n"
proof (rule all_below_16 [of "\<lambda>n. hex_value (hex_digit n) = Some n"])
  show "list_all (\<lambda>n. hex_value (hex_digit n) = Some n) [0, 1, 2, 3, 4, 5, 6, 7, 8, 9, 10, 11, 12, 13, 14, 15]"
    by (simp add: hex_value_def hex_digit_def char_of_def Let_def less_eq_char_def bit_Suc_0_iff)
qed simp

lemma percent_not_segment: "\<not> segment_char (CHR ''%'')" "\<not> segment_char (CHR ''/'')"
  by code_simp+

lemma of_char_less: "(of_char c :: nat) < 256"
  by (metis of_char_mod_256 mod_less_divisor zero_less_numeral)

lemma PathUnescape_char: "PathUnescape (escape_char c @ s) = map_option (\<lambda>r. c # r) (PathUnescape s)"
proof (cases "segment_char c")
  case True
  then have "c \<noteq> CHR ''%''" using percent_not_segment by blast
  with True show ?thesis by (simp add: escape_char_def)
next
  case False
  define n where "n = (of_char c :: nat)"
  have n: "n < 256" "char_of n = c" by (simp_all add: n_def of_char_less)
  then have "hex_value (hex_digit (n div 16)) = Some (n div 16)" "hex_value (hex_digit (n mod 16)) = Some (n mod 16)"
    by (simp_all add: hex_digit_value less_mult_imp_div_less)
  with False n show ?thesis by (simp add: escape_char_def Let_def flip: n_def)
qed

lemma PathUnescape_PathEscape [simp]: "PathUnescape (PathEscape s) = Some s"
  by (induction s) (simp_all add: PathEscape_def PathUnescape_char)

lemma hex_digit_no_slash: "n < 16 \<Longrightarrow> hex_digit n \<noteq> CHR ''/''"
proof (rule all_below_16 [of "\<lambda>n. hex_digit n \<noteq> CHR ''/''"])
  show "list_all (\<lambda>n. hex_digit n \<noteq> CHR ''/'') [0, 1, 2, 3, 4, 5, 6, 7, 8, 9, 10, 11, 12, 13, 14, 15]"
    by (simp add: hex_digit_def char_of_def bit_Suc_0_iff)
qed simp

lemma escape_no_slash: "CHR ''/'' \<notin> set (PathEscape s)"
proof -
  have "CHR ''/'' \<notin> set (escape_char c)" for c
  proof (cases "segment_char c")
    case True
    then show ?thesis using percent_not_segment(2) by (auto simp: escape_char_def)
  next
    case False
    have "(of_char c :: nat) div 16 < 16" "(of_char c :: nat) mod 16 < 16"
      using of_char_less [of c] by (simp_all add: less_mult_imp_div_less)
    from this [THEN hex_digit_no_slash] False show ?thesis
      by (auto simp: escape_char_def Let_def)
  qed
  then show ?thesis by (auto simp: PathEscape_def)
qed

lemma split_on_no_sep: "sep \<notin> set s \<Longrightarrow> split_on sep s = [s]"
  by (induction s) auto

lemma split_on_append: "sep \<notin> set s \<Longrightarrow> split_on sep (s @ sep # t) = s # split_on sep t"
  by (induction s) auto

lemma escape_char_Nil [simp]: "escape_char c \<noteq> []"
  by (simp add: escape_char_def Let_def)

lemma PathEscape_Nil [simp]: "PathEscape s = [] \<longleftrightarrow> s = []"
  by (cases s) (simp_all add: PathEscape_def)

lemma spiffe_path_split:
  assumes "session \<noteq> []"
  shows "split_on (CHR ''/'') (trim_char (CHR ''/'') (spiffe_path ns session)) =
    [''ns'', PathEscape ns, ''session'', PathEscape session]"
proof -
  let ?e = "PathEscape session"
  have ne: "?e \<noteq> []" using assms by simp
  have last: "last ?e \<noteq> CHR ''/''" using last_in_set [OF ne] escape_no_slash [of session] by auto
  have "trim_right_char (CHR ''/'') (''ns/'' @ PathEscape ns @ ''/session/'' @ ?e) =
      ''ns/'' @ PathEscape ns @ ''/session/'' @ ?e"
    using last ne by (cases ?e rule: rev_cases) (simp_all add: trim_right_char_def)
  then have "trim_char (CHR ''/'') (spiffe_path ns session) = ''ns'' @ CHR ''/'' # (PathEscape ns @ CHR ''/'' # (''session'' @ CHR ''/'' # ?e))"
    by (simp add: trim_char_def spiffe_path_def)
  then show ?thesis
    by (simp only: split_on_append split_on_no_sep escape_no_slash not_False_eq_True) (simp add: split_on_append split_on_no_sep escape_no_slash)
qed

section \<open>What is written is read back\<close>

text \<open>\<open>ParseSessionSPIFFE\<close> reads back what \<open>SessionSPIFFEID\<close> wrote: the namespace and the session,
  trimmed, whatever characters they contain, in the same trust domain, whenever both are not
  blank. The hypothesis on the parser is what \<open>net/url\<close> documents: such a text has the scheme
  \<open>spiffe\<close>, the trust domain as its host, the rest as its escaped path, no query and no
  fragment.\<close>

theorem session_spiffe_roundtrip:
  assumes "parse (SessionSPIFFEID trust_domain ns session) =
      Some \<lparr>su_scheme = ''spiffe'', su_host = trim_space trust_domain,
        su_path = spiffe_path (trim_space ns) (trim_space session), su_query = [], su_fragment = []\<rparr>"
    and "trim_space ns \<noteq> []" and "trim_space session \<noteq> []"
  shows "ParseSessionSPIFFE parse (SessionSPIFFEID trust_domain ns session) trust_domain =
    Some (trim_space ns, trim_space session)"
  using assms by (simp add: ParseSessionSPIFFE_def spiffe_path_split)

text \<open>A parser for texts of this shape, enough to run the round trip.\<close>

definition spiffe_parser :: "gostring \<Rightarrow> spiffe_url option" where
  "spiffe_parser raw =
     (if has_prefix raw ''spiffe://'' then
        Some \<lparr>su_scheme = ''spiffe'', su_host = takeWhile (\<lambda>c. c \<noteq> CHR ''/'') (drop 9 raw),
          su_path = dropWhile (\<lambda>c. c \<noteq> CHR ''/'') (drop 9 raw), su_query = [], su_fragment = []\<rparr>
      else None)"

lemma session_spiffe_roundtrip_instance:
  "ParseSessionSPIFFE spiffe_parser (SessionSPIFFEID ''mcpruntime.org'' ''team a/b'' '' sess-1 '') ''mcpruntime.org'' =
     Some (''team a/b'', ''sess-1'')"
proof -
  have t: "trim_space ''mcpruntime.org'' = ''mcpruntime.org''" "trim_space ''team a/b'' = ''team a/b''"
      "trim_space '' sess-1 '' = ''sess-1''"
    by (simp_all add: trim_space_def is_space_def less_eq_char_def)
  have "spiffe_parser (SessionSPIFFEID ''mcpruntime.org'' ''team a/b'' '' sess-1 '') =
      Some \<lparr>su_scheme = ''spiffe'', su_host = trim_space ''mcpruntime.org'',
        su_path = spiffe_path (trim_space ''team a/b'') (trim_space '' sess-1 ''), su_query = [], su_fragment = []\<rparr>"
    unfolding t by (simp add: spiffe_parser_def SessionSPIFFEID_def t spiffe_path_def has_prefix_def)
  from session_spiffe_roundtrip [where parse = spiffe_parser and trust_domain = "''mcpruntime.org''" and ns = "''team a/b''" and session = "'' sess-1 ''", OF this] t show ?thesis by simp
qed

end
