(* ===== verification/GatewayAuth.thy ===== *)
theory GatewayAuth
  imports SpiffeIdentity SessionSync
begin

text \<open>
  Stage 3 of the gateway's pipeline (\<open>services/mcp-gateway/filter_auth.go\<close>): delegated headers,
  the adapter's certificate, the bearer token and the platform session of a token, in the code's
  order and with every early return. The dereference of a nil pointer, a panic in Go, makes a
  definition \<^term>\<open>None\<close>; that it does not happen is a theorem of the pipeline. Each reading of
  the clock is an argument of its own.
\<close>

section \<open>The server and what stage 3 takes from outside\<close>

text \<open>The configuration of a \<open>gatewayServer\<close> that the filters read, and its default policy.\<close>

record gateway_server =
  gv_policy_version :: gostring
  gv_verified_header :: gostring
  gv_trusted_proxy :: gostring
  gv_strip_prefix :: gostring
  gv_server_name :: gostring
  gv_server_namespace :: gostring
  gv_server_uid :: gostring
  gv_cluster :: gostring
  gv_fallback :: document

text \<open>The state stage 3 reads and changes: the replica of the sessions and the providers.\<close>

record auth_state =
  as_sync :: "gateway_sync option"
  as_providers :: provider_cache

record auth_env =
  av_oauth :: oauth_env
  av_parse_spiffe :: "gostring \<Rightarrow> spiffe_url option"
  av_lookup :: "session_row reply"
  av_sync_now :: time
  av_expiry_now :: time

definition defaultVerifiedSPIFFEHeader :: gostring where
  "defaultVerifiedSPIFFEHeader = ''X-MCP-Verified-SPIFFE-ID''"

definition verifiedSPIFFEHeaderName :: "gateway_server \<Rightarrow> gostring" where
  "verifiedSPIFFEHeaderName srv =
     (if trim_space (gv_verified_header srv) \<noteq> [] then trim_space (gv_verified_header srv)
      else defaultVerifiedSPIFFEHeader)"

section \<open>Refusals\<close>

definition gatewayDeniedStatus :: "decision \<Rightarrow> nat" where
  "gatewayDeniedStatus d = (if 0 < de_status d then de_status d else 403)"

definition writeDeniedResponse :: "exchange \<Rightarrow> exchange" where
  "writeDeniedResponse ex =
     (let d = ex_decision ex; status = gatewayDeniedStatus d
      in ex\<lparr>ex_decision := d\<lparr>de_status := status\<rparr>,
            ex_response := DeniedResponse status (de_reason d) (shouldChallengeOAuth (ex_policy ex) d)\<rparr>)"

definition refuse :: "nat \<Rightarrow> gostring \<Rightarrow> gostring \<Rightarrow> exchange \<Rightarrow> exchange" where
  "refuse status reason version ex = writeDeniedResponse (ex\<lparr>ex_decision := Deny status reason version\<rparr>)"

definition exchange_version :: "gateway_server \<Rightarrow> exchange \<Rightarrow> gostring" where
  "exchange_version srv ex = ChoosePolicyVersion [PolicyVersion (ex_policy ex), gv_policy_version srv]"

text \<open>An unavailable policy is the service's fault, everything else the caller's.\<close>

definition unauthorized_status :: "gostring \<Rightarrow> nat" where
  "unauthorized_status reason = (if reason = ''policy_unavailable'' then 503 else 401)"

section \<open>The adapter's certificate\<close>

definition mtlsBindingExpired :: "gostring \<Rightarrow> time \<Rightarrow> bool" where
  "mtlsBindingExpired expires_at now =
     (let s = trim_space expires_at in
      if s = [] then False
      else (case parse_rfc3339 s of None \<Rightarrow> False | Some t \<Rightarrow> \<not> now < t))"

definition bound_identity :: "binding \<Rightarrow> identity_context" where
  "bound_identity b =
     \<lparr>ic_human = bd_human_id b, ic_agent = bd_agent_id b, ic_team = bd_team_id b, ic_session_id = bd_name b,
      ic_session = Some b\<rparr>"

definition find_binding :: "time \<Rightarrow> gostring \<Rightarrow> gostring \<Rightarrow> binding list \<Rightarrow> identity_context \<times> gostring" where
  "find_binding now ns name bindings =
     (case List.find (\<lambda>b. bd_namespace b = ns \<and> bd_name b = name) bindings of
        None \<Rightarrow> (identity_none, ''session_not_found'')
      | Some b \<Rightarrow>
          (bound_identity b,
           if bd_revoked b then ''session_revoked''
           else if mtlsBindingExpired (bd_expires_at b) now then ''session_expired'' else []))"

definition sessions_on_platform :: "document \<Rightarrow> bool" where
  "sessions_on_platform d =
     (case dc_session d of None \<Rightarrow> False | Some s \<Rightarrow> sc_store s = ''platform'')"

text \<open>The certificate was verified by the ingress; its session is looked up in the policy, or in
  the replica when the platform keeps the sessions.\<close>

definition adapter_session ::
  "auth_env \<Rightarrow> document \<Rightarrow> gostring \<Rightarrow> gostring \<Rightarrow> gateway_sync option
    \<Rightarrow> ((identity_context \<times> gostring) \<times> gateway_sync option) option" where
  "adapter_session env d ns name repl =
     (if sessions_on_platform d then
        (case session_binding ns name (av_lookup env) (av_sync_now env) repl of
           ((b, reason), repl1) \<Rightarrow>
             if reason \<noteq> [] then Some ((identity_none, reason), repl1)
             else map_option (\<lambda>b. (find_binding (av_expiry_now env) ns name [b], repl1)) b)
      else Some (find_binding (av_expiry_now env) ns name (dc_sessions d), repl))"

definition authenticateAdapterCertificate ::
  "gateway_server \<Rightarrow> auth_env \<Rightarrow> http_request \<Rightarrow> document \<Rightarrow> gateway_sync option
    \<Rightarrow> ((identity_context \<times> gostring) \<times> gateway_sync option) option" where
  "authenticateAdapterCertificate srv env r d repl =
     (case hr_tls r of
        None \<Rightarrow> Some ((identity_none, ''missing_client_certificate''), repl)
      | Some tls \<Rightarrow>
          if \<not> ts_verified tls \<or> ts_peer_uris tls = None
          then Some ((identity_none, ''missing_client_certificate''), repl)
          else if trim_space (gv_trusted_proxy srv) \<noteq> [] \<and>
                  \<not> CertificateHasURI (ts_peer_uris tls) (trim_space (gv_trusted_proxy srv))
          then Some ((identity_none, ''untrusted_proxy''), repl)
          else
            (let raw = trim_space (header_get (hr_headers r) (verifiedSPIFFEHeaderName srv))
             in if raw = [] then Some ((identity_none, ''missing_verified_identity''), repl)
                else
                  (case dc_auth d of
                     None \<Rightarrow> None
                   | Some a \<Rightarrow>
                       (case ParseSessionSPIFFE (av_parse_spiffe env) raw (au_trust_domain a) of
                          None \<Rightarrow> Some ((identity_none, ''invalid_spiffe_identity''), repl)
                        | Some (ns, name) \<Rightarrow> adapter_session env d ns name repl))))"

definition certificateOAuthMismatch :: "identity_context \<Rightarrow> identity_context \<Rightarrow> gostring" where
  "certificateOAuthMismatch cert tok =
     (if trim_space (ic_human tok) = [] \<or> ic_human tok \<noteq> ic_human cert
      then ''certificate_oauth_subject_mismatch''
      else if ic_team tok \<noteq> [] \<and> ic_team cert \<noteq> [] \<and> ic_team tok \<noteq> ic_team cert
      then ''certificate_oauth_team_mismatch'' else [])"

section \<open>The stage\<close>

definition delegated_stage ::
  "gateway_server \<Rightarrow> exchange \<Rightarrow> auth_state \<Rightarrow> (filter_result \<times> exchange \<times> auth_state) option" where
  "delegated_stage srv ex st =
     (case Option.bind (ex_policy ex) dc_auth of
        None \<Rightarrow> None
      | Some a \<Rightarrow>
          (let reason = CheckRequest (hr_headers (ex_request ex)) (au_headers a) (au_credential_presence a)
           in if reason \<noteq> [] then Some (Reject, refuse 401 reason (exchange_version srv ex) ex, st)
              else Some (Continue, ex, st)))"

text \<open>The certificate's identity, if one is presented; \<^term>\<open>Inl\<close> is the refusal.\<close>

definition presents_certificate :: "gateway_server \<Rightarrow> http_request \<Rightarrow> document \<Rightarrow> bool" where
  "presents_certificate srv r d =
     (case dc_auth d of
        None \<Rightarrow> False
      | Some a \<Rightarrow> trim_space (au_trust_domain a) \<noteq> [] \<and>
                  trim_space (header_get (hr_headers r) (verifiedSPIFFEHeaderName srv)) \<noteq> [])"

definition certificate_stage ::
  "gateway_server \<Rightarrow> auth_env \<Rightarrow> exchange \<Rightarrow> document \<Rightarrow> auth_state
    \<Rightarrow> ((exchange + identity_context option) \<times> auth_state) option" where
  "certificate_stage srv env ex d st =
     (if presents_certificate srv (ex_request ex) d then
        (case authenticateAdapterCertificate srv env (ex_request ex) d (as_sync st) of
           None \<Rightarrow> None
         | Some ((idn, reason), repl) \<Rightarrow>
             Some (if reason \<noteq> []
                   then Inl (refuse (unauthorized_status reason) reason (exchange_version srv ex)
                          (ex\<lparr>ex_identity := idn\<rparr>))
                   else Inr (Some idn),
                   st\<lparr>as_sync := repl\<rparr>))
      else Some (Inr None, st))"

text \<open>The session a token names, when the platform keeps the sessions.\<close>

definition session_mismatch :: "binding \<Rightarrow> identity_context \<Rightarrow> bool" where
  "session_mismatch b idn \<longleftrightarrow>
     bd_human_id b \<noteq> [] \<and> bd_human_id b \<noteq> ic_human idn \<or>
     bd_agent_id b \<noteq> [] \<and> bd_agent_id b \<noteq> ic_agent idn \<or>
     bd_team_id b \<noteq> [] \<and> bd_team_id b \<noteq> ic_team idn"

definition binding_reason :: "time \<Rightarrow> identity_context \<Rightarrow> binding \<Rightarrow> gostring" where
  "binding_reason now idn b =
     (if bd_revoked b then ''session_revoked''
      else if mtlsBindingExpired (bd_expires_at b) now then ''session_expired''
      else if session_mismatch b idn then ''session_identity_mismatch'' else [])"

definition attach_session ::
  "auth_env \<Rightarrow> exchange \<Rightarrow> document \<Rightarrow> session_config \<Rightarrow> auth_state
    \<Rightarrow> (filter_result \<times> exchange \<times> auth_state) option" where
  "attach_session env ex d sc st =
     (case session_binding (sv_namespace (dc_server d)) (ic_session_id (ex_identity ex)) (av_lookup env)
             (av_sync_now env) (as_sync st) of
        ((b, reason), repl) \<Rightarrow>
          (let st1 = st\<lparr>as_sync := repl\<rparr>
           in case (if reason \<noteq> [] then Some reason
                    else map_option (binding_reason (av_expiry_now env) (ex_identity ex)) b) of
                None \<Rightarrow> None
              | Some why \<Rightarrow>
                  if why \<noteq> [] then
                    (if \<not> sc_required sc \<and> why \<noteq> ''policy_unavailable'' then Some (Continue, ex, st1)
                     else Some (Reject, refuse (unauthorized_status why) why (PolicyVersion (ex_policy ex)) ex, st1))
                  else Some (Continue, ex\<lparr>ex_identity := (ex_identity ex)\<lparr>ic_session := b\<rparr>\<rparr>, st1)))"

definition oauth_stage ::
  "gateway_server \<Rightarrow> auth_env \<Rightarrow> exchange \<Rightarrow> document \<Rightarrow> identity_context option \<Rightarrow> auth_state
    \<Rightarrow> (filter_result \<times> exchange \<times> auth_state) option" where
  "oauth_stage srv env ex d cert st =
     (if \<not> PolicyUsesOAuth (ex_policy ex) then
        Some (Continue, (case cert of None \<Rightarrow> ex | Some idn \<Rightarrow> ex\<lparr>ex_identity := idn\<rparr>), st)
      else
        (case authenticateOAuthForSubjectTeam (av_oauth env) (hr_headers (ex_request ex)) d
                (case cert of None \<Rightarrow> [] | Some idn \<Rightarrow> ic_team idn) (as_providers st) of
           (res, providers) \<Rightarrow>
             (let st1 = st\<lparr>as_providers := providers\<rparr>;
                  ex1 = ex\<lparr>ex_identity := or_identity res, ex_oauth_token := or_token res\<rparr>
              in if \<not> or_allowed res
                 then Some (Reject, refuse (or_status res) (or_reason res) (exchange_version srv ex1) ex1, st1)
                 else
                   (case cert of
                      Some idn \<Rightarrow>
                        (let why = certificateOAuthMismatch idn (or_identity res)
                         in if why \<noteq> [] then Some (Reject, refuse 401 why (exchange_version srv ex1) ex1, st1)
                            else Some (Continue, ex1\<lparr>ex_identity := idn\<rparr>, st1))
                    | None \<Rightarrow>
                        (case dc_session d of
                           None \<Rightarrow> Some (Continue, ex1, st1)
                         | Some sc \<Rightarrow>
                             if ic_session_id (ex_identity ex1) \<noteq> [] \<and> sc_store sc = ''platform'' \<and>
                                (in_tool_call (ex_inspection ex1) \<or> in_indeterminate (ex_inspection ex1))
                             then attach_session env ex1 d sc st1
                             else Some (Continue, ex1, st1))))))"

definition authFilter ::
  "gateway_server \<Rightarrow> auth_env \<Rightarrow> exchange \<Rightarrow> auth_state
    \<Rightarrow> (filter_result \<times> exchange \<times> auth_state) option" where
  "authFilter srv env ex st =
     (if UsesDelegatedHeaders (ex_policy ex) then delegated_stage srv ex st
      else
        (case ex_policy ex of
           None \<Rightarrow> None
         | Some d \<Rightarrow>
             (case certificate_stage srv env ex d st of
                None \<Rightarrow> None
              | Some (Inl refused, st1) \<Rightarrow> Some (Reject, refused, st1)
              | Some (Inr cert, st1) \<Rightarrow> oauth_stage srv env ex d cert st1)))"

end
