(* ===== verification/GatewayUpstream.thy ===== *)
theory GatewayUpstream
  imports GatewayAuth IdempotencyStore Breaker
begin

text \<open>
  Stages 4 and 5 of the gateway's pipeline: the authorization of a call
  (\<open>filter_authz.go\<close>), the injection of credentials (\<open>credential_broker.go\<close>), the clean-up and
  forwarding of the request (\<open>filter_upstream.go\<close>) and the idempotency keys in front of it
  (\<open>idempotency.go\<close>). What the upstream does with a request is a parameter, a function to the
  writes it causes on the client's response and to how the forwarding ended.
\<close>

section \<open>Authorization\<close>

definition policyIdentity :: "identity_context \<Rightarrow> identity" where
  "policyIdentity i =
     \<lparr>id_human = ic_human i, id_agent = ic_agent i, id_team = ic_team i, id_session = ic_session_id i\<rparr>"

definition exchange_call :: "exchange \<Rightarrow> request" where
  "exchange_call ex =
     \<lparr>rq_identity = policyIdentity (ex_identity ex), rq_rpc_method = in_method (ex_inspection ex),
      rq_tool_name = in_tool_name (ex_inspection ex), rq_session = ic_session (ex_identity ex)\<rparr>"

text \<open>Sessions the platform keeps, of a policy that enforces: they must be fresh.\<close>

definition needs_fresh_sessions :: "document option \<Rightarrow> bool" where
  "needs_fresh_sessions p =
     (case p of
        None \<Rightarrow> False
      | Some d \<Rightarrow>
          sessions_on_platform d \<and>
          (case dc_policy d of None \<Rightarrow> False | Some c \<Rightarrow> cf_mode c \<noteq> ''observe''))"

record authz_env =
  az_fresh_now :: time
  az_now :: time
  az_wall :: time

definition governed :: "exchange \<Rightarrow> bool" where
  "governed ex \<longleftrightarrow> in_tool_call (ex_inspection ex) \<or> in_indeterminate (ex_inspection ex)"

definition authz_decision ::
  "gateway_server \<Rightarrow> authz_env \<Rightarrow> exchange \<Rightarrow> gateway_sync option \<Rightarrow> decision" where
  "authz_decision srv env ex repl =
     (if needs_fresh_sessions (ex_policy ex) \<and> \<not> fresh (az_fresh_now env) repl
      then Deny 503 ''policy_unavailable'' (PolicyVersion (ex_policy ex))
      else if ex_policy_err ex then Deny 503 ''policy_unavailable'' (exchange_version srv ex)
      else if in_indeterminate (ex_inspection ex)
      then Deny 403 (FirstNonEmpty [in_failure_reason (ex_inspection ex), ''rpc_inspection_failed''])
             (exchange_version srv ex)
      else Authorize (ex_policy ex) (exchange_call ex) (az_now env) (az_wall env))"

definition authzFilter ::
  "gateway_server \<Rightarrow> authz_env \<Rightarrow> exchange \<Rightarrow> auth_state \<Rightarrow> filter_result \<times> exchange" where
  "authzFilter srv env ex st =
     (if \<not> governed ex then (Continue, ex\<lparr>ex_decision := Allow ''allowed'' (exchange_version srv ex)\<rparr>)
      else
        (let ex1 = ex\<lparr>ex_decision := authz_decision srv env ex (as_sync st)\<rparr>
         in if \<not> de_allowed (ex_decision ex1) then (Reject, writeDeniedResponse ex1) else (Continue, ex1)))"

section \<open>Credentials\<close>

text \<open>The broker's reply: none (no broker, no token, transport error), or a status, the length of
  the body that was read, and the decoded headers in the order they are ranged over.\<close>

datatype broker_reply = BrokerUnavailable | BrokerReply nat nat "(gostring \<times> gostring) list option"

definition broker_resolve :: "broker_reply \<Rightarrow> (gostring \<times> gostring) list option" where
  "broker_resolve reply =
     (case reply of
        BrokerUnavailable \<Rightarrow> None
      | BrokerReply status len decoded \<Rightarrow>
          if status \<noteq> 200 \<or> 16 * MaxValueBytes < len then None
          else
            (case decoded of
               None \<Rightarrow> None
             | Some hs \<Rightarrow>
                 if 16 < length hs then None
                 else if list_all (\<lambda>(n, v). has_prefix (CanonicalHeaderKey n) HeaderPrefix \<and> ValidValue v) hs
                 then Some hs else None))"

text \<open>What stage 5 takes from outside: the parsed upstream URL, the broker, the hash functions of
  the idempotency scope, the clock, what other requests do to the store of keys while this one is
  forwarded, and the upstream.\<close>

datatype write_event = WriteHeader header int | WriteBytes header gostring

record upstream_reply =
  ur_writes :: "write_event list"
  ur_header :: header
  ur_aborted :: bool
  ur_outcome :: upstream_outcome

record upstream_env =
  ue_upstream_url :: "local_url option"
  ue_broker :: "resolution_request \<Rightarrow> broker_reply"
  ue_hash :: "gostring list \<Rightarrow> gostring"
  ue_canonical_json :: "json option \<Rightarrow> gostring"
  ue_begin_now :: time
  ue_settle_now :: time
  ue_meanwhile :: "idem_store \<Rightarrow> idem_store"
  ue_upstream :: "http_request \<Rightarrow> upstream_reply"

definition resolution_for :: "exchange \<Rightarrow> document \<Rightarrow> binding \<Rightarrow> resolution_request" where
  "resolution_for ex d b =
     \<lparr>rs_session = bd_namespace b @ ''/'' @ bd_name b, rs_tool = in_tool_name (ex_inspection ex),
      rs_bindings = dc_credential_bindings d\<rparr>"

definition strip_credentials :: "http_request \<Rightarrow> http_request" where
  "strip_credentials r =
     r\<lparr>hr_headers := StripHeaders (hr_headers r), hr_trailers := StripHeaders (hr_trailers r)\<rparr>"

definition set_headers :: "(gostring \<times> gostring) list \<Rightarrow> header \<Rightarrow> header" where
  "set_headers hs h = fold (\<lambda>(n, v) h. header_set h n v) hs h"

definition injectCredentials :: "upstream_env \<Rightarrow> exchange \<Rightarrow> bool \<times> exchange" where
  "injectCredentials env ex =
     (let ex1 = ex\<lparr>ex_request := strip_credentials (ex_request ex)\<rparr>
      in case ex_policy ex of
           None \<Rightarrow> (True, ex1)
         | Some d \<Rightarrow>
             if dc_credential_bindings d = [] \<or> \<not> in_tool_call (ex_inspection ex) then (True, ex1)
             else
               (case ic_session (ex_identity ex) of
                  None \<Rightarrow> (False, ex1)
                | Some b \<Rightarrow>
                    if \<not> de_allowed (ex_decision ex) then (False, ex1)
                    else if \<not> LocalUpstream (ue_upstream_url env) 0 then (False, ex1)
                    else
                      (case broker_resolve (ue_broker env (resolution_for ex d b)) of
                         None \<Rightarrow> (False, ex1)
                       | Some hs \<Rightarrow>
                           (True, ex1\<lparr>ex_request := (ex_request ex1)
                                      \<lparr>hr_headers := set_headers hs (hr_headers (ex_request ex1))\<rparr>\<rparr>))))"

section \<open>The forwarded request\<close>

definition trimRequestPathPrefix :: "gostring \<Rightarrow> gostring \<Rightarrow> gostring \<times> bool" where
  "trimRequestPathPrefix value pfx =
     (let p = trim_right_char (CHR ''/'') (trim_space pfx) in
      if p = [] then (value, False)
      else if value \<noteq> p \<and> \<not> has_prefix value (p @ ''/'') then (value, False)
      else (trim_prefix value p, True))"

definition strip_path :: "gostring \<Rightarrow> http_request \<Rightarrow> http_request" where
  "strip_path pfx r =
     (case trimRequestPathPrefix (hr_path r) pfx of
        (_, False) \<Rightarrow> r
      | (path, True) \<Rightarrow>
          (let raw = (case trimRequestPathPrefix (hr_raw_path r) pfx of (v, True) \<Rightarrow> v | (_, False) \<Rightarrow> [])
           in if path = [] then r\<lparr>hr_path := ''/'', hr_raw_path := (if raw \<noteq> [] then ''/'' else raw)\<rparr>
              else r\<lparr>hr_path := path, hr_raw_path := raw\<rparr>))"

definition keeps_authorization :: "document option \<Rightarrow> bool" where
  "keeps_authorization p \<longleftrightarrow> PolicyUsesOAuth p \<or> DelegatedHeaderConfigured p default_token_header_name"

definition clean_headers :: "gateway_server \<Rightarrow> document option \<Rightarrow> header \<Rightarrow> header" where
  "clean_headers srv p h =
     (let h1 = header_del h (verifiedSPIFFEHeaderName srv)
      in if keeps_authorization p then h1 else header_del h1 default_token_header_name)"

definition prepare_request :: "gateway_server \<Rightarrow> document option \<Rightarrow> http_request \<Rightarrow> http_request" where
  "prepare_request srv p r =
     strip_path (gv_strip_prefix srv) (r\<lparr>hr_headers := clean_headers srv p (hr_headers r)\<rparr>)"

text \<open>The status the recorder holds: the last one written, 200 before any.\<close>

definition recorded_status :: "write_event list \<Rightarrow> int" where
  "recorded_status ws = fold (\<lambda>w s. case w of WriteHeader _ code \<Rightarrow> code | WriteBytes _ _ \<Rightarrow> s) ws 200"

text \<open>The deferred capture of what the transport noted about the call.\<close>

definition note_outcome :: "upstream_outcome \<Rightarrow> exchange \<Rightarrow> exchange" where
  "note_outcome out ex =
     (if uo_reason out = [] then ex
      else
        (let d = (ex_decision ex)\<lparr>de_reason := uo_reason out, de_status := nat (uo_status out)\<rparr>
         in ex\<lparr>ex_decision := (if uo_reject out then d\<lparr>de_allowed := False\<rparr> else d)\<rparr>))"

text \<open>The upstream's reply, or \<^term>\<open>None\<close> when the request is refused before it is forwarded.\<close>

definition forwardUpstream ::
  "gateway_server \<Rightarrow> upstream_env \<Rightarrow> exchange \<Rightarrow> upstream_reply option \<times> exchange" where
  "forwardUpstream srv env ex =
     (case injectCredentials env ex of
        (False, ex1) \<Rightarrow>
          (None, ex1\<lparr>ex_decision := Deny 503 ''credential_unavailable'' (de_policy_version (ex_decision ex1)),
                     ex_response := DirectResponse 503\<rparr>)
      | (True, ex1) \<Rightarrow>
          (let r = prepare_request srv (ex_policy ex1) (ex_request ex1);
               reply = ue_upstream env r
           in (Some reply,
               note_outcome (ur_outcome reply)
                 (ex1\<lparr>ex_request := r, ex_aborted := ur_aborted reply,
                     ex_response := UpstreamResponse r (recorded_status (ur_writes reply))\<rparr>))))"

section \<open>Idempotency keys\<close>

definition idempotencyKeyHeader :: gostring where
  "idempotencyKeyHeader = ''Idempotency-Key''"

definition idempotencyKeyMaxLen :: nat where
  "idempotencyKeyMaxLen = 255"

definition validIdempotencyKey :: "gostring list \<Rightarrow> gostring option" where
  "validIdempotencyKey vs =
     (case vs of
        [key] \<Rightarrow>
          if key = [] \<or> idempotencyKeyMaxLen < length key then None
          else if list_ex (\<lambda>c. c < CHR 0x21 \<or> CHR 0x7E < c) key then None
          else Some key
      | _ \<Rightarrow> None)"

definition rejectIdempotency ::
  "gateway_server \<Rightarrow> exchange \<Rightarrow> nat \<Rightarrow> gostring \<Rightarrow> gostring \<Rightarrow> filter_result \<times> exchange" where
  "rejectIdempotency srv ex status reason outcome =
     (Reject,
      writeDeniedResponse
        (ex\<lparr>ex_decision := Deny status reason
               (ChoosePolicyVersion [de_policy_version (ex_decision ex), gv_policy_version srv]),
            ex_idem_outcome := outcome\<rparr>))"

text \<open>The bounded copy of the response: \<open>WriteHeader\<close> and \<open>Write\<close> of \<open>idemCapture\<close>.\<close>

record idem_capture =
  cp_max :: int
  cp_status :: int
  cp_stream :: bool
  cp_encoded :: bool
  cp_overflow :: bool
  cp_body :: gostring

definition new_capture :: "int \<Rightarrow> idem_capture" where
  "new_capture m =
     \<lparr>cp_max = m, cp_status = 0, cp_stream = False, cp_encoded = False, cp_overflow = False, cp_body = []\<rparr>"

definition capture_header :: "header \<Rightarrow> int \<Rightarrow> idem_capture \<Rightarrow> idem_capture" where
  "capture_header h code c =
     (if cp_status c = 0 \<and> 200 \<le> code then
        (let ct = to_lower (trim_space (takeWhile (\<lambda>x. x \<noteq> CHR '';'') (header_get h ''Content-Type'')));
             enc = to_lower (trim_space (header_get h ''Content-Encoding''))
         in c\<lparr>cp_status := code, cp_stream := ct = ''text/event-stream'',
              cp_encoded := enc \<noteq> [] \<and> enc \<noteq> ''identity''\<rparr>)
      else c)"

definition capture_bytes :: "header \<Rightarrow> gostring \<Rightarrow> idem_capture \<Rightarrow> idem_capture" where
  "capture_bytes h p c0 =
     (let c = (if cp_status c0 = 0 then capture_header h 200 c0 else c0)
      in if \<not> cp_stream c \<and> \<not> cp_overflow c then
           (if cp_max c < int (length (cp_body c) + length p)
            then c\<lparr>cp_overflow := True, cp_body := []\<rparr> else c\<lparr>cp_body := cp_body c @ p\<rparr>)
         else c)"

fun capture_write :: "write_event \<Rightarrow> idem_capture \<Rightarrow> idem_capture" where
  "capture_write (WriteHeader h code) c = capture_header h code c"
| "capture_write (WriteBytes h p) c = capture_bytes h p c"

definition MaxReply :: "idem_store \<Rightarrow> int" where
  "MaxReply s = li_max_reply (st_limits s)"

text \<open>What the gateway does with the key once the request was forwarded: \<open>allowed\<close> is the decision
  after the transport noted its outcome. The result is the settlement of the entry and the outcome
  that is audited.\<close>

definition settlement_for :: "upstream_reply option \<Rightarrow> bool \<Rightarrow> idem_capture \<Rightarrow> settlement \<times> gostring" where
  "settlement_for reply allowed c =
     (let code = (if cp_status c = 0 then 200 else cp_status c);
          h = (case reply of None \<Rightarrow> [] | Some r \<Rightarrow> ur_header r)
      in if (case reply of None \<Rightarrow> False | Some r \<Rightarrow> ur_aborted r)
         then (Tombstone IdemUnknownOutcome, ''unknown_outcome'')
         else if \<not> allowed then (Release, ''released'')
         else if 500 \<le> code then (Tombstone IdemUnknownOutcome, ''unknown_outcome'')
         else if code < 200 \<or> 300 \<le> code then (Release, ''released'')
         else if cp_stream c \<or> cp_overflow c \<or> cp_encoded c
         then (Tombstone IdemNotReplayable, ''not_replayable'')
         else (Complete \<lparr>re_status = code, re_content_type = header_get h ''Content-Type'', re_body = cp_body c\<rparr>,
               ''first''))"

definition idem_scope_of :: "upstream_env \<Rightarrow> identity_context \<Rightarrow> idem_scope" where
  "idem_scope_of env i =
     (let principal = ue_hash env [''idem-principal-v1'', ic_human i, ic_agent i, ic_team i]
      in \<lparr>is_principal = principal, is_session = ue_hash env [''idem-session-v1'', principal, ic_session_id i]\<rparr>)"

definition scoped_key :: "upstream_env \<Rightarrow> identity_context \<Rightarrow> gostring \<Rightarrow> gostring \<Rightarrow> gostring" where
  "scoped_key env i uid key =
     ue_hash env [''idem-scope-v1'', ic_human i, ic_agent i, ic_team i, ic_session_id i, uid, key]"

definition request_hash :: "upstream_env \<Rightarrow> rpc_inspection \<Rightarrow> gostring \<Rightarrow> gostring" where
  "request_hash env ins key =
     ue_hash env [''idem-req-v1'', key, in_method ins, in_tool_name ins,
                  ue_canonical_json env (in_id_raw ins), ue_canonical_json env (in_params_raw ins)]"

definition replay_reply :: "gateway_server \<Rightarrow> idem_reply \<Rightarrow> exchange \<Rightarrow> exchange" where
  "replay_reply srv reply ex =
     ex\<lparr>ex_decision := Allow ''idempotent_replay''
          (ChoosePolicyVersion [de_policy_version (ex_decision ex), gv_policy_version srv]),
        ex_idem_outcome := ''replay'',
        ex_response := ReplayedResponse (re_status reply) (re_content_type reply) (re_body reply)\<rparr>"

text \<open>The header \<open>http.Error\<close> writes.\<close>

definition error_header :: header where
  "error_header =
     [(''Content-Type'', [''text/plain; charset=utf-8'']), (''X-Content-Type-Options'', [''nosniff''])]"

text \<open>The request owns the key: forward, then settle the entry.\<close>

definition forward_owned ::
  "gateway_server \<Rightarrow> upstream_env \<Rightarrow> exchange \<Rightarrow> idem_entry \<Rightarrow> idem_store
    \<Rightarrow> (filter_result \<times> exchange) \<times> idem_store" where
  "forward_owned srv env ex entry s =
     (let ex1 = ex\<lparr>ex_request := (ex_request ex)
                    \<lparr>hr_headers := header_del (hr_headers (ex_request ex)) idempotencyKeyHeader\<rparr>\<rparr>;
          (reply, ex2) = forwardUpstream srv env ex1;
          writes = (case reply of
                      None \<Rightarrow> [WriteHeader error_header 503, WriteBytes error_header (''credential unavailable'' @ [CHR 0x0A])]
                    | Some r \<Rightarrow> ur_writes r);
          capture = fold capture_write writes (new_capture (MaxReply s));
          (how, outcome) = settlement_for reply (de_allowed (ex_decision ex2)) capture
      in ((Respond, ex2\<lparr>ex_idem_outcome := outcome\<rparr>), settle how entry (ue_settle_now env) (ue_meanwhile env s)))"

definition with_retry :: "exchange \<Rightarrow> exchange" where
  "with_retry ex = ex\<lparr>ex_retry_after := True\<rparr>"

definition idempotentUpstream ::
  "gateway_server \<Rightarrow> upstream_env \<Rightarrow> exchange \<Rightarrow> idem_store \<Rightarrow> (filter_result \<times> exchange) \<times> idem_store" where
  "idempotentUpstream srv env ex s =
     (case validIdempotencyKey (values_of (hr_headers (ex_request ex)) idempotencyKeyHeader) of
        None \<Rightarrow> (rejectIdempotency srv ex 400 ''idempotency_key_invalid'' ''rejected'', s)
      | Some key \<Rightarrow>
          (let idn = ex_identity ex in
           if \<not> in_tool_call (ex_inspection ex)
           then (rejectIdempotency srv ex 400 ''idempotency_unsupported_request'' ''rejected'', s)
           else if ex_policy ex = None \<or> UsesDelegatedHeaders (ex_policy ex) \<or> (ic_human idn = [] \<and> ic_agent idn = [])
           then (rejectIdempotency srv ex 400 ''idempotency_requires_verified_identity'' ''rejected'', s)
           else
             (let uid = trim_space (sv_uid (dc_server (the (ex_policy ex)))) in
              if uid = [] then (rejectIdempotency srv ex 503 ''idempotency_unavailable'' ''rejected'', s)
              else
                (let scoped = scoped_key env idn uid key;
                     ex1 = ex\<lparr>ex_idem_key_hash := take 16 scoped\<rparr>;
                     (status, s1) = idem_begin (idem_scope_of env idn) scoped
                        (request_hash env (ex_inspection ex) key) (ue_begin_now env) s
                 in case status of
                      IdemReplay e \<Rightarrow> ((Respond, replay_reply srv (ie_reply e) ex1), s1)
                    | IdemConflict \<Rightarrow> (rejectIdempotency srv ex1 409 ''idempotency_key_conflict'' ''conflict'', s1)
                    | IdemInFlight \<Rightarrow>
                        (rejectIdempotency srv (with_retry ex1) 409 ''idempotency_in_flight'' ''in_flight'', s1)
                    | IdemUnknownOutcome \<Rightarrow>
                        (rejectIdempotency srv ex1 409 ''idempotency_outcome_unknown'' ''unknown_outcome'', s1)
                    | IdemNotReplayable \<Rightarrow>
                        (rejectIdempotency srv ex1 409 ''idempotency_response_not_replayable'' ''not_replayable'', s1)
                    | IdemCapacity \<Rightarrow>
                        (rejectIdempotency srv (with_retry ex1) 429 ''idempotency_capacity'' ''capacity'', s1)
                    | IdemStarted e \<Rightarrow> forward_owned srv env ex1 e s1))))"

definition upstreamFilter ::
  "gateway_server \<Rightarrow> upstream_env \<Rightarrow> exchange \<Rightarrow> idem_store \<Rightarrow> (filter_result \<times> exchange) \<times> idem_store" where
  "upstreamFilter srv env ex s =
     (if values_of (hr_headers (ex_request ex)) idempotencyKeyHeader \<noteq> [] then idempotentUpstream srv env ex s
      else ((Respond, snd (forwardUpstream srv env ex)), s))"

end
