(* ===== verification/GatewayPipeline.thy ===== *)
theory GatewayPipeline
  imports GatewayUpstream PolicyCache
begin

text \<open>
  The request pipeline of the gateway (\<open>services/mcp-gateway/proxy.go\<close>, \<open>exchange.go\<close>,
  \<open>filter_policy.go\<close>): the five stages in the code's order, the orchestrator that stops at the
  first stage that answers, and the payload of the audit record. Between two stages other goroutines
  may change the gateway's state: a reload of the policy, a poll of the sessions, other requests.
  \<open>rv_others\<close> is what they do before a stage, and nothing is assumed of it.
\<close>

section \<open>State and environment\<close>

record gateway_state =
  gy_policy :: policy_state
  gy_auth :: auth_state
  gy_idem :: idem_store

record request_env =
  rv_json :: "gostring \<Rightarrow> json option"
  rv_auth :: auth_env
  rv_authz :: authz_env
  rv_upstream :: upstream_env
  rv_others :: "nat \<Rightarrow> gateway_state \<Rightarrow> gateway_state"

section \<open>The stages\<close>

definition policyFilter :: "gateway_server \<Rightarrow> exchange \<Rightarrow> policy_state \<Rightarrow> filter_result \<times> exchange" where
  "policyFilter srv ex ps =
     (let (d, unavailable) = currentPolicy (gv_fallback srv) ps;
          ex1 = ex\<lparr>ex_policy := Some d, ex_policy_err := unavailable\<rparr>
      in case handleOAuthProtectedResource (ex_request ex1) (ex_policy ex1) of
           None \<Rightarrow> (Continue, ex1)
         | Some (status, _) \<Rightarrow>
             (Respond, ex1\<lparr>ex_decision := Allow ''oauth_metadata'' (exchange_version srv ex1),
                          ex_skip_audit := True, ex_response := DirectResponse status\<rparr>))"

type_synonym stage = "exchange \<Rightarrow> gateway_state \<Rightarrow> (filter_result \<times> exchange \<times> gateway_state) option"

definition inspect_stage :: "request_env \<Rightarrow> stage" where
  "inspect_stage env ex st = (case inspectFilter (rv_json env) ex of (res, ex1) \<Rightarrow> Some (res, ex1, st))"

definition policy_stage :: "gateway_server \<Rightarrow> stage" where
  "policy_stage srv ex st = (case policyFilter srv ex (gy_policy st) of (res, ex1) \<Rightarrow> Some (res, ex1, st))"

definition auth_stage :: "gateway_server \<Rightarrow> request_env \<Rightarrow> stage" where
  "auth_stage srv env ex st =
     map_option (\<lambda>(res, ex1, a). (res, ex1, st\<lparr>gy_auth := a\<rparr>)) (authFilter srv (rv_auth env) ex (gy_auth st))"

definition authz_stage :: "gateway_server \<Rightarrow> request_env \<Rightarrow> stage" where
  "authz_stage srv env ex st =
     (case authzFilter srv (rv_authz env) ex (gy_auth st) of (res, ex1) \<Rightarrow> Some (res, ex1, st))"

definition upstream_stage :: "gateway_server \<Rightarrow> request_env \<Rightarrow> stage" where
  "upstream_stage srv env ex st =
     (case upstreamFilter srv (rv_upstream env) ex (gy_idem st) of
        ((res, ex1), s) \<Rightarrow> Some (res, ex1, st\<lparr>gy_idem := s\<rparr>))"

definition buildPipeline :: "gateway_server \<Rightarrow> request_env \<Rightarrow> stage list" where
  "buildPipeline srv env =
     [inspect_stage env, policy_stage srv, auth_stage srv env, authz_stage srv env, upstream_stage srv env]"

section \<open>The orchestrator\<close>

fun run_stages ::
  "(nat \<Rightarrow> gateway_state \<Rightarrow> gateway_state) \<Rightarrow> nat \<Rightarrow> stage list \<Rightarrow> exchange \<Rightarrow> gateway_state
    \<Rightarrow> (exchange \<times> gateway_state) option" where
  "run_stages others i [] ex st = Some (ex, st)"
| "run_stages others i (f # fs) ex st =
     (case f ex (others i st) of
        None \<Rightarrow> None
      | Some (Continue, ex1, st1) \<Rightarrow> run_stages others (Suc i) fs ex1 st1
      | Some (_, ex1, st1) \<Rightarrow> Some (ex1, st1))"

text \<open>After the loop, which an aborted response does not leave normally.\<close>

definition default_decision_version :: "gateway_server \<Rightarrow> exchange \<Rightarrow> exchange" where
  "default_decision_version srv ex =
     (if \<not> ex_aborted ex \<and> de_policy_version (ex_decision ex) = []
      then ex\<lparr>ex_decision := (ex_decision ex)\<lparr>de_policy_version := gv_policy_version srv\<rparr>\<rparr> else ex)"

definition handleGateway ::
  "gateway_server \<Rightarrow> request_env \<Rightarrow> http_request \<Rightarrow> gateway_state \<Rightarrow> (exchange \<times> gateway_state) option" where
  "handleGateway srv env r st =
     map_option (\<lambda>(ex, st1). (default_decision_version srv ex, st1))
       (run_stages (rv_others env) 0 (buildPipeline srv env) (newExchange r (gv_policy_version srv)) st)"

section \<open>Audit\<close>

datatype audit_value = AStr gostring | AInt int | ABool bool

type_synonym audit_payload = "(gostring \<times> audit_value) list"

text \<open>The status of the response recorder.\<close>

definition written_status :: "response \<Rightarrow> int" where
  "written_status resp =
     (case resp of
        NotWritten \<Rightarrow> 200
      | DeniedResponse status _ _ \<Rightarrow> int status
      | DirectResponse status \<Rightarrow> int status
      | ReplayedResponse status _ _ \<Rightarrow> status
      | UpstreamResponse _ status \<Rightarrow> status)"

definition when_set :: "gostring \<Rightarrow> gostring \<Rightarrow> audit_payload" where
  "when_set name v = (if v = [] then [] else [(name, AStr v)])"

text \<open>The matched object and its namespace, which is written only with the object.\<close>

definition matched_fields :: "gostring \<Rightarrow> gostring \<Rightarrow> gostring \<Rightarrow> audit_payload" where
  "matched_fields name v ns = (if v = [] then [] else (name, AStr v) # when_set (name @ ''_namespace'') ns)"

definition auditPayload :: "gateway_server \<Rightarrow> exchange \<Rightarrow> int \<Rightarrow> int \<Rightarrow> audit_payload" where
  "auditPayload srv ex latency_ms bytes_out =
     (let p = ex_policy ex; d = ex_decision ex; i = ex_identity ex; r = ex_request ex;
          tool = in_tool_name (ex_inspection ex)
      in [(''method'', AStr (hr_method r)), (''path'', AStr (ex_original_path ex)),
          (''status'', AInt (written_status (ex_response ex))), (''latency_ms'', AInt latency_ms),
          (''bytes_in'', AInt (max 0 (hr_content_length r))), (''bytes_out'', AInt bytes_out),
          (''server'', AStr (FirstNonEmpty [PolicyServerName p, gv_server_name srv])),
          (''namespace'', AStr (FirstNonEmpty [PolicyServerNamespace p, gv_server_namespace srv])),
          (''server_uid'', AStr (gv_server_uid srv)),
          (''team_id'', AStr (PolicyServerTeamID p)), (''resource_team_id'', AStr (PolicyServerTeamID p)),
          (''cluster'', AStr (FirstNonEmpty [PolicyServerCluster p, gv_cluster srv])),
          (''human_id'', AStr (ic_human i)), (''agent_id'', AStr (ic_agent i)),
          (''subject_team_id'', AStr (ic_team i)), (''session_id'', AStr (ic_session_id i)),
          (''decision'', AStr (if de_allowed d then ''allow'' else ''deny'')),
          (''reason'', AStr (de_reason d)),
          (''policy_version'', AStr (FirstNonEmpty [de_policy_version d, gv_policy_version srv]))] @
         (if de_would_deny d
          then [(''would_deny'', ABool True), (''would_deny_reason'', AStr (de_would_deny_reason d))] else []) @
         (if UsesDelegatedHeaders p
          then [(''auth_delegation'', AStr ''upstream_header''), (''caller_identity'', AStr ''unverified'')] else []) @
         when_set ''rpc_method'' (in_method (ex_inspection ex)) @
         when_set ''tool_name'' tool @
         matched_fields ''matched_grant'' (de_matched_grant d) (de_matched_grant_namespace d) @
         matched_fields ''matched_session'' (de_matched_session d) (de_matched_session_namespace d) @
         when_set ''required_trust'' (de_required_trust d) @
         when_set ''required_side_effect'' (de_required_side_effect d) @
         when_set ''risk_level'' (FirstNonEmpty [de_risk_level d, ToolRiskLevel p tool]) @
         when_set ''admin_trust'' (de_admin_trust d) @
         when_set ''consented_trust'' (de_consented_trust d) @
         when_set ''effective_trust'' (de_effective_trust d))"

definition auditPayloadForExchange :: "gateway_server \<Rightarrow> exchange \<Rightarrow> int \<Rightarrow> int \<Rightarrow> audit_payload" where
  "auditPayloadForExchange srv ex latency_ms bytes_out =
     auditPayload srv ex latency_ms bytes_out @ when_set ''idempotency'' (ex_idem_outcome ex) @
     when_set ''idempotency_key_hash'' (ex_idem_key_hash ex)"

end
