(* ===== verification/GatewayClaims.thy ===== *)
theory GatewayClaims
  imports GatewayPipeline PolicyClaims
begin

text \<open>
  What the gateway guarantees of a request from its arrival to its forwarding: the composition of
  the five stages, whatever other goroutines do between them.
\<close>

section \<open>The stages one by one\<close>

lemma version_default_sel [simp]:
  "ex_response (default_decision_version srv ex) = ex_response ex"
  "ex_policy (default_decision_version srv ex) = ex_policy ex"
  "ex_policy_err (default_decision_version srv ex) = ex_policy_err ex"
  "ex_identity (default_decision_version srv ex) = ex_identity ex"
  "ex_inspection (default_decision_version srv ex) = ex_inspection ex"
  "ex_skip_audit (default_decision_version srv ex) = ex_skip_audit ex"
  "ex_oauth_token (default_decision_version srv ex) = ex_oauth_token ex"
  "de_allowed (ex_decision (default_decision_version srv ex)) = de_allowed (ex_decision ex)"
  "de_reason (ex_decision (default_decision_version srv ex)) = de_reason (ex_decision ex)"
  by (simp_all add: default_decision_version_def)

lemma refuse_sel [simp]:
  "ex_policy (refuse status reason version ex) = ex_policy ex"
  "ex_policy_err (refuse status reason version ex) = ex_policy_err ex"
  "ex_identity (refuse status reason version ex) = ex_identity ex"
  "ex_inspection (refuse status reason version ex) = ex_inspection ex"
  "ex_skip_audit (refuse status reason version ex) = ex_skip_audit ex"
  "\<not> de_allowed (ex_decision (refuse status reason version ex))"
  "de_reason (ex_decision (refuse status reason version ex)) = reason"
  by (simp_all add: refuse_def writeDeniedResponse_def Let_def)

lemma newExchange_sel [simp]:
  "ex_request (newExchange r v) = r" "ex_response (newExchange r v) = NotWritten"
  "ex_inspection (newExchange r v) = inspection_zero" "\<not> ex_skip_audit (newExchange r v)"
  "\<not> de_allowed (ex_decision (newExchange r v))" "\<not> ex_aborted (newExchange r v)"
  by (simp_all add: newExchange_def)

lemma session_binding_some: "session_binding ns name lookup now st = ((b, []), st') \<Longrightarrow> b \<noteq> None"
  by (auto simp: session_binding_def split: option.splits if_splits prod.splits sum.splits)

text \<open>Stage 3 never dereferences a nil pointer.\<close>

lemma adapter_session_defined: "adapter_session env d ns name repl \<noteq> None"
  using session_binding_some
  by (auto simp: adapter_session_def split: prod.split) fastforce

lemma certificate_stage_defined: "certificate_stage srv env ex d st \<noteq> None"
  using adapter_session_defined [of env d _ _ "as_sync st"]
  by (auto simp del: not_None_eq simp: adapter_session_defined certificate_stage_def presents_certificate_def authenticateAdapterCertificate_def Let_def
      split: option.splits)

lemma attach_session_defined: "attach_session env ex d sc st \<noteq> None"
  using session_binding_some
  by (auto simp: attach_session_def Let_def split: prod.split option.split) fastforce

lemma oauth_stage_defined: "oauth_stage srv env ex d cert st \<noteq> None"
  using attach_session_defined
  by (simp add: oauth_stage_def Let_def split: prod.split option.split)

lemma authFilter_defined:
  assumes "ex_policy ex \<noteq> None"
  shows "authFilter srv env ex st \<noteq> None"
proof (cases "UsesDelegatedHeaders (ex_policy ex)")
  case True
  then have "Option.bind (ex_policy ex) dc_auth \<noteq> None"
    by (auto simp: UsesDelegatedHeaders_def split: option.splits)
  with True show ?thesis by (auto simp: authFilter_def delegated_stage_def Let_def)
next
  case False
  then obtain d where d: "ex_policy ex = Some d" using assms by blast
  obtain c st1 where c: "certificate_stage srv env ex d st = Some (c, st1)"
    using certificate_stage_defined [of srv env ex d st] by fastforce
  show ?thesis
    using False d c oauth_stage_defined by (cases c) (simp_all add: authFilter_def)
qed

text \<open>A refusal: the decision denies and its reason is what the client was told.\<close>

definition told_refused :: "exchange \<Rightarrow> bool" where
  "told_refused ex \<longleftrightarrow>
     \<not> de_allowed (ex_decision ex) \<and>
     (\<exists>status ch. ex_response ex = DeniedResponse status (de_reason (ex_decision ex)) ch)"

lemma told_refused_refuse [simp]: "told_refused (refuse status reason version ex)"
  by (simp add: told_refused_def refuse_def writeDeniedResponse_def Let_def)

definition same_call :: "exchange \<Rightarrow> exchange \<Rightarrow> bool" where
  "same_call a b \<longleftrightarrow>
     ex_policy a = ex_policy b \<and> ex_policy_err a = ex_policy_err b \<and> ex_inspection a = ex_inspection b \<and>
     ex_skip_audit a = ex_skip_audit b"

lemma same_call_simps [simp]:
  "same_call (refuse status reason version ex) ex" "same_call ex ex"
  "same_call (refuse status reason version (ex\<lparr>ex_identity := i, ex_oauth_token := tok\<rparr>)) ex"
  "same_call (refuse status reason version (ex\<lparr>ex_identity := i\<rparr>)) ex"
  by (simp_all add: same_call_def)

definition only_identity :: "exchange \<Rightarrow> exchange \<Rightarrow> bool" where
  "only_identity ex ex1 \<longleftrightarrow> ex1 = ex\<lparr>ex_identity := ex_identity ex1, ex_oauth_token := ex_oauth_token ex1\<rparr>"

lemma only_identity_simps [simp]:
  "only_identity ex ex" "only_identity ex (ex\<lparr>ex_identity := i\<rparr>)"
  "only_identity ex (ex\<lparr>ex_identity := i, ex_oauth_token := tok\<rparr>)"
  "only_identity ex (ex\<lparr>ex_oauth_token := tok, ex_identity := i\<rparr>)"
  "only_identity (ex\<lparr>ex_identity := i, ex_oauth_token := tok\<rparr>) ex1 \<longleftrightarrow> only_identity ex ex1"
  by (simp_all add: only_identity_def)

lemma only_identity_sel:
  assumes "only_identity ex ex1"
  shows "ex_request ex1 = ex_request ex" "ex_policy ex1 = ex_policy ex" "ex_policy_err ex1 = ex_policy_err ex"
    "ex_inspection ex1 = ex_inspection ex" "ex_skip_audit ex1 = ex_skip_audit ex"
    "ex_response ex1 = ex_response ex" "ex_decision ex1 = ex_decision ex" "ex_aborted ex1 = ex_aborted ex"
    "ex_original_path ex1 = ex_original_path ex"
  by (subst assms [unfolded only_identity_def], simp)+

definition auth_done :: "exchange \<Rightarrow> filter_result \<times> exchange \<times> 'st \<Rightarrow> bool" where
  "auth_done ex = (\<lambda>(res, ex1, st1).
     (res = Continue \<and> only_identity ex ex1) \<or> (res = Reject \<and> told_refused ex1 \<and> same_call ex1 ex))"

lemma auth_done_Continue [simp]:
  "auth_done ex (Continue, ex1, st1) \<longleftrightarrow> only_identity ex ex1"
  "auth_done ex (Reject, ex1, st1) \<longleftrightarrow> told_refused ex1 \<and> same_call ex1 ex"
  by (simp_all add: auth_done_def)

lemma attach_session_done:
  assumes "attach_session env ex d sc st = Some out"
  shows "auth_done ex out"
  using assms by (auto simp: attach_session_def Let_def split: prod.splits option.splits if_splits)

lemma oauth_stage_done:
  assumes "oauth_stage srv env ex d cert st = Some out"
  shows "auth_done ex out"
proof -
  have attached: "auth_done ex out"
    if "attach_session env (ex\<lparr>ex_identity := j, ex_oauth_token := tok\<rparr>) d sc st1 = Some out" for j tok sc st1
    using attach_session_done [OF that] by (auto simp: auth_done_def same_call_def)
  show ?thesis
    using assms attached
    by (auto simp: oauth_stage_def Let_def split: prod.splits option.splits if_splits)
qed

lemma authFilter_done:
  assumes "authFilter srv env ex st = Some out"
  shows "auth_done ex out"
proof (cases "UsesDelegatedHeaders (ex_policy ex)")
  case True
  then show ?thesis using assms
    by (auto simp: authFilter_def delegated_stage_def Let_def split: option.splits if_splits)
next
  case False
  have "auth_done ex (Reject, x, st1)" if "certificate_stage srv env ex d st = Some (Inl x, st1)" for d x st1
    using that by (auto simp: certificate_stage_def split: option.splits if_splits)
  with False assms show ?thesis
    by (auto simp: authFilter_def split: option.splits sum.splits intro: oauth_stage_done)
qed

section \<open>The path of a request that is answered\<close>

definition answered :: "exchange \<Rightarrow> bool" where
  "answered ex \<longleftrightarrow>
     (case ex_response ex of UpstreamResponse _ _ \<Rightarrow> True | ReplayedResponse _ _ _ \<Rightarrow> True | _ \<Rightarrow> False)"

lemma answered_simps [simp]:
  "answered (default_decision_version srv ex) = answered ex" "\<not> answered (newExchange r v)"
  "\<not> answered (writeDeniedResponse ex)"
  by (simp_all add: answered_def default_decision_version_def newExchange_def writeDeniedResponse_def Let_def)

lemma told_refused_not_answered: "told_refused ex \<Longrightarrow> \<not> answered ex"
  by (auto simp: told_refused_def answered_def)

text \<open>The exchange after stage 2: what it reads of the state is the snapshot alone.\<close>

definition after_policy ::
  "gateway_server \<Rightarrow> request_env \<Rightarrow> http_request \<Rightarrow> gateway_state \<Rightarrow> exchange" where
  "after_policy srv env r st =
     (let (d, unavailable) = currentPolicy (gv_fallback srv) (gy_policy (rv_others env 1 (rv_others env 0 st)))
      in (newExchange r (gv_policy_version srv))
           \<lparr>ex_inspection := inspectRPCRequest (rv_json env) r, ex_policy := Some d, ex_policy_err := unavailable\<rparr>)"

text \<open>A request passes the first four stages; \<open>ex\<close> and \<open>st4\<close> are what stage 5 finds.\<close>

definition passes ::
  "gateway_server \<Rightarrow> request_env \<Rightarrow> http_request \<Rightarrow> gateway_state \<Rightarrow> exchange \<Rightarrow> gateway_state \<Rightarrow> bool" where
  "passes srv env r st ex st5 \<longleftrightarrow>
     (\<exists>ex3 st3 a st4.
        st3 = rv_others env 2 (rv_others env 1 (rv_others env 0 st)) \<and>
        authFilter srv (rv_auth env) (after_policy srv env r st) (gy_auth st3) = Some (Continue, ex3, a) \<and>
        st4 = rv_others env 3 (st3\<lparr>gy_auth := a\<rparr>) \<and>
        authzFilter srv (rv_authz env) ex3 (gy_auth st4) = (Continue, ex) \<and>
        st5 = rv_others env 4 st4)"

definition after_upstream ::
  "gateway_server \<Rightarrow> request_env \<Rightarrow> exchange \<Rightarrow> gateway_state \<Rightarrow> exchange \<times> gateway_state \<Rightarrow> bool" where
  "after_upstream srv env ex5 st5 out \<longleftrightarrow>
     (\<exists>res ex6 s. upstreamFilter srv (rv_upstream env) ex5 (gy_idem st5) = ((res, ex6), s) \<and>
        out = (default_decision_version srv ex6, st5\<lparr>gy_idem := s\<rparr>))"

lemma told_refused_version [simp]:
  "told_refused (default_decision_version srv ex) = told_refused ex"
  "same_call (default_decision_version srv ex) ex' = same_call ex ex'"
  by (simp_all add: told_refused_def same_call_def)

lemma after_policy_sel [simp]:
  "ex_request (after_policy srv env r st) = r" "ex_response (after_policy srv env r st) = NotWritten"
  "ex_inspection (after_policy srv env r st) = inspectRPCRequest (rv_json env) r"
  "\<not> ex_skip_audit (after_policy srv env r st)" "ex_policy (after_policy srv env r st) \<noteq> None"
  "\<not> ex_aborted (after_policy srv env r st)"
  by (simp_all add: after_policy_def split: prod.split)

lemma writeDeniedResponse_refused:
  "\<not> de_allowed (ex_decision ex) \<Longrightarrow> told_refused (writeDeniedResponse ex)"
  by (simp add: told_refused_def writeDeniedResponse_def Let_def)

lemma authzFilter_done:
  assumes "authzFilter srv env ex st = (res, ex1)"
  shows "(res = Continue \<and> de_allowed (ex_decision ex1) \<and> (\<exists>d. ex1 = ex\<lparr>ex_decision := d\<rparr>)) \<or>
    (res = Reject \<and> told_refused ex1 \<and> same_call ex1 ex)"
proof (cases "governed ex")
  case True
  show ?thesis
  proof (cases "de_allowed (authz_decision srv env ex (as_sync st))")
    case True
    then show ?thesis using assms \<open>governed ex\<close> by (auto simp: authzFilter_def Let_def)
  next
    case False
    then have "res = Reject" "ex1 = writeDeniedResponse (ex\<lparr>ex_decision := authz_decision srv env ex (as_sync st)\<rparr>)"
      using assms \<open>governed ex\<close> by (auto simp: authzFilter_def Let_def)
    with False show ?thesis
      by (simp add: writeDeniedResponse_refused) (simp add: same_call_def writeDeniedResponse_def Let_def)
  qed
qed (use assms in \<open>auto simp: authzFilter_def\<close>)

text \<open>Stages 1 and 2.\<close>

lemma early_stages:
  obtains (metadata) ex1 where
    "\<And>fs. run_stages (rv_others env) 0 (inspect_stage env # policy_stage srv # fs)
        (newExchange r (gv_policy_version srv)) st = Some (ex1, rv_others env 1 (rv_others env 0 st))"
    and "ex_skip_audit ex1" "de_allowed (ex_decision ex1)" "\<not> answered ex1"
      "isOAuthProtectedMetadataPath (hr_path r)"
  | (further)
    "\<And>fs. run_stages (rv_others env) 0 (inspect_stage env # policy_stage srv # fs)
        (newExchange r (gv_policy_version srv)) st =
      run_stages (rv_others env) 2 fs (after_policy srv env r st) (rv_others env 1 (rv_others env 0 st))"
proof -
  obtain d un where cur: "currentPolicy (gv_fallback srv) (gy_policy (rv_others env 1 (rv_others env 0 st))) = (d, un)"
    by fastforce
  define ex0 where "ex0 = (newExchange r (gv_policy_version srv))\<lparr>ex_inspection := inspectRPCRequest (rv_json env) r\<rparr>"
  have [simp]: "ex_request ex0 = r" by (simp add: ex0_def)
  have ap: "after_policy srv env r st = ex0\<lparr>ex_policy := Some d, ex_policy_err := un\<rparr>"
    unfolding after_policy_def cur ex0_def by simp
  show thesis
  proof (cases "handleOAuthProtectedResource r (Some d)")
    case None
    then show thesis
      using cur unfolding One_nat_def by (intro further)
        (simp add: inspect_stage_def inspectFilter_def policy_stage_def policyFilter_def Let_def ap numeral_2_eq_2
          flip: ex0_def)
  next
    case (Some m)
    obtain status body where m: "m = (status, body)" by force
    have path: "isOAuthProtectedMetadataPath (hr_path r)"
      using Some by (simp add: handleOAuthProtectedResource_def split: if_splits)
    define ex1 where "ex1 = ex0\<lparr>ex_policy := Some d, ex_policy_err := un,
      ex_decision := Allow ''oauth_metadata'' (exchange_version srv (ex0\<lparr>ex_policy := Some d, ex_policy_err := un\<rparr>)),
      ex_skip_audit := True, ex_response := DirectResponse status\<rparr>"
    show thesis
      by (rule metadata [of ex1])
        (use cur [unfolded One_nat_def] Some path in \<open>simp_all add: m inspect_stage_def inspectFilter_def policy_stage_def policyFilter_def
          Let_def answered_def ex1_def flip: ex0_def\<close>)
  qed
qed

lemma upstream_last:
  "run_stages others i [upstream_stage srv env] ex st =
     (case upstreamFilter srv (rv_upstream env) ex (gy_idem (others i st)) of
        ((res, ex1), s) \<Rightarrow> Some (ex1, (others i st)\<lparr>gy_idem := s\<rparr>))"
  by (simp add: upstream_stage_def split: prod.split filter_result.split)

lemma handleGateway_cases:
  assumes "handleGateway srv env r st = Some out"
  shows "(\<exists>ex5 st5. passes srv env r st ex5 st5 \<and> after_upstream srv env ex5 st5 out) \<or>
     (\<not> answered (fst out) \<and>
      (ex_skip_audit (fst out) \<and> de_allowed (ex_decision (fst out)) \<and> isOAuthProtectedMetadataPath (hr_path r) \<or>
       told_refused (fst out) \<and> same_call (fst out) (after_policy srv env r st)))"
proof -
  let ?s2 = "rv_others env 1 (rv_others env 0 st)"
  let ?s3 = "rv_others env 2 ?s2"
  have out: "map_option (\<lambda>(ex, st1). (default_decision_version srv ex, st1))
      (run_stages (rv_others env) 0 (buildPipeline srv env) (newExchange r (gv_policy_version srv)) st) = Some out"
    using assms by (simp only: handleGateway_def)
  show ?thesis
  proof (cases rule: early_stages [where srv = srv and env = env and r = r and st = st])
    case (metadata ex1)
    then show ?thesis using out by (auto simp: buildPipeline_def)
  next
    case further
    obtain res ex3 a where auth: "authFilter srv (rv_auth env) (after_policy srv env r st) (gy_auth ?s3) = Some (res, ex3, a)"
      using authFilter_defined [OF after_policy_sel(5)] by (metis option.exhaust prod.exhaust)
    note fin = authFilter_done [OF auth]
    show ?thesis
    proof (cases "res = Continue")
      case False
      then have "res = Reject" "told_refused ex3" "same_call ex3 (after_policy srv env r st)"
        using fin by (simp_all add: auth_done_def)
      then show ?thesis using out further auth told_refused_not_answered
        by (auto simp: buildPipeline_def auth_stage_def)
    next
      case True
      define s4 where "s4 = rv_others env 3 (?s3\<lparr>gy_auth := a\<rparr>)"
      obtain res4 ex4 where authz: "authzFilter srv (rv_authz env) ex3 (gy_auth s4) = (res4, ex4)" by force
      have ex3: "only_identity (after_policy srv env r st) ex3" using fin True by simp
      have run: "run_stages (rv_others env) 0 (buildPipeline srv env) (newExchange r (gv_policy_version srv)) st =
          run_stages (rv_others env) 3 [authz_stage srv env, upstream_stage srv env] ex3 (?s3\<lparr>gy_auth := a\<rparr>)"
        using further auth True by (simp add: buildPipeline_def auth_stage_def numeral_3_eq_3)
      show ?thesis
      proof (cases "res4 = Continue")
        case False
        then have "res4 = Reject" "told_refused ex4" "same_call ex4 ex3"
          using authzFilter_done [OF authz] by auto
        then show ?thesis using out run authz told_refused_not_answered only_identity_sel [OF ex3]
          by (auto simp: authz_stage_def s4_def same_call_def)
      next
        case cont: True
        then have p: "passes srv env r st ex4 (rv_others env 4 s4)"
          using auth True authz by (auto simp: passes_def s4_def)
        moreover have "after_upstream srv env ex4 (rv_others env 4 s4) out"
          using out run authz cont
          by (auto simp: authz_stage_def s4_def upstream_last after_upstream_def split: prod.splits
              simp del: run_stages.simps(2) simp: run_stages.simps(2) [of _ _ "authz_stage srv env"])
        ultimately show ?thesis by blast
      qed
    qed
  qed
qed

section \<open>Stage 5\<close>

lemma note_outcome_sel [simp]:
  "ex_policy (note_outcome out ex) = ex_policy ex" "ex_policy_err (note_outcome out ex) = ex_policy_err ex"
  "ex_identity (note_outcome out ex) = ex_identity ex" "ex_inspection (note_outcome out ex) = ex_inspection ex"
  "ex_response (note_outcome out ex) = ex_response ex" "ex_skip_audit (note_outcome out ex) = ex_skip_audit ex"
  by (simp_all add: note_outcome_def Let_def)

lemma same_call_note [simp]: "same_call (note_outcome out ex) ex' = same_call ex ex'"
  by (simp add: same_call_def)

definition keeps_identity :: "exchange \<Rightarrow> exchange \<Rightarrow> bool" where
  "keeps_identity a b \<longleftrightarrow> same_call a b \<and> ex_identity a = ex_identity b"

lemma injectCredentials_sel:
  assumes "injectCredentials env ex = (ok, ex1)"
  shows "ex1 = ex\<lparr>ex_request := ex_request ex1\<rparr>"
  using assms
  by (auto simp: injectCredentials_def strip_credentials_def Let_def split: option.splits if_splits)

lemma forwardUpstream_keeps:
  assumes "forwardUpstream srv env ex = (reply, ex1)"
  shows "keeps_identity ex1 ex"
proof -
  obtain ok ex0 where inj: "injectCredentials env ex = (ok, ex0)" by force
  have "keeps_identity (ex\<lparr>ex_request := q\<rparr>) ex" for q by (simp add: keeps_identity_def same_call_def)
  with injectCredentials_sel [OF inj] have "keeps_identity ex0 ex" by metis
  with assms inj show ?thesis
    by (cases ok) (auto simp: forwardUpstream_def Let_def keeps_identity_def same_call_def)
qed

lemma forwardUpstream_response:
  assumes "forwardUpstream srv env ex = (reply, ex1)" and "ex_response ex1 = UpstreamResponse q code"
  shows "\<exists>ex0. injectCredentials env ex = (True, ex0) \<and> q = prepare_request srv (ex_policy ex0) (ex_request ex0) \<and>
    reply = Some (ue_upstream env q) \<and> code = recorded_status (ur_writes (ue_upstream env q))"
  using assms
  by (auto simp: forwardUpstream_def Let_def split: prod.splits bool.splits)

lemma forward_owned_simps:
  "forward_owned srv env ex e s = ((res, ex1), s1) \<Longrightarrow>
     \<exists>reply ex2. forwardUpstream srv env
        (ex\<lparr>ex_request := (ex_request ex)\<lparr>hr_headers := header_del (hr_headers (ex_request ex)) idempotencyKeyHeader\<rparr>\<rparr>) = (reply, ex2) \<and>
       res = Respond \<and> (\<exists>o'. ex1 = ex2\<lparr>ex_idem_outcome := o'\<rparr>)"
  unfolding forward_owned_def Let_def by (auto split: prod.splits)

text \<open>How stage 5 ends: it refuses, replays, or forwards the request without an idempotency key.\<close>

definition without_key :: "http_request \<Rightarrow> http_request" where
  "without_key r = r\<lparr>hr_headers := header_del (hr_headers r) idempotencyKeyHeader\<rparr>"

definition forwards :: "gateway_server \<Rightarrow> upstream_env \<Rightarrow> exchange \<Rightarrow> exchange \<Rightarrow> bool" where
  "forwards srv env ex ex1 \<longleftrightarrow>
     (\<exists>r h o' reply ex2.
        (r = ex_request ex \<or> r = without_key (ex_request ex)) \<and> values_of (hr_headers r) idempotencyKeyHeader = [] \<and>
        forwardUpstream srv env (ex\<lparr>ex_request := r, ex_idem_key_hash := h\<rparr>) = (reply, ex2) \<and>
        ex1 = ex2\<lparr>ex_idem_outcome := o'\<rparr>)"

lemma rejectIdempotency_refused:
  "rejectIdempotency srv ex status reason outcome = (res, ex1) \<Longrightarrow> told_refused ex1 \<and> keeps_identity ex1 ex"
  unfolding rejectIdempotency_def
  by (clarsimp simp: writeDeniedResponse_refused) (simp add: keeps_identity_def same_call_def writeDeniedResponse_def Let_def)

text \<open>The checks before the store of keys is asked.\<close>

definition may_use_key :: "exchange \<Rightarrow> bool" where
  "may_use_key ex \<longleftrightarrow>
     validIdempotencyKey (values_of (hr_headers (ex_request ex)) idempotencyKeyHeader) \<noteq> None \<and>
     in_tool_call (ex_inspection ex) \<and> ex_policy ex \<noteq> None \<and> \<not> UsesDelegatedHeaders (ex_policy ex) \<and>
     (ic_human (ex_identity ex) \<noteq> [] \<or> ic_agent (ex_identity ex) \<noteq> []) \<and>
     trim_space (sv_uid (dc_server (the (ex_policy ex)))) \<noteq> []"

lemma idempotentUpstream_refused:
  assumes "\<not> may_use_key ex" and "idempotentUpstream srv env ex s = ((res, ex1), s1)"
  shows "\<exists>n why. rejectIdempotency srv ex n why ''rejected'' = (res, ex1)"
proof (cases "validIdempotencyKey (values_of (hr_headers (ex_request ex)) idempotencyKeyHeader)")
  case None
  then show ?thesis using assms(2) by (simp add: idempotentUpstream_def) blast
next
  case (Some key)
  consider "\<not> in_tool_call (ex_inspection ex)"
    | "in_tool_call (ex_inspection ex)" "ex_policy ex = None \<or> UsesDelegatedHeaders (ex_policy ex) \<or>
        ic_human (ex_identity ex) = [] \<and> ic_agent (ex_identity ex) = []"
    | "in_tool_call (ex_inspection ex)" "\<not> (ex_policy ex = None \<or> UsesDelegatedHeaders (ex_policy ex) \<or>
        ic_human (ex_identity ex) = [] \<and> ic_agent (ex_identity ex) = [])"
      "trim_space (sv_uid (dc_server (the (ex_policy ex)))) = []"
    using assms(1) Some unfolding may_use_key_def by (simp only: option.distinct not_False_eq_True simp_thms) blast
  then show ?thesis
    using assms(2) by cases (simp add: idempotentUpstream_def Some Let_def, blast)+
qed

definition key_hash :: "upstream_env \<Rightarrow> exchange \<Rightarrow> gostring" where
  "key_hash env ex =
     take 16 (scoped_key env (ex_identity ex) (trim_space (sv_uid (dc_server (the (ex_policy ex)))))
       (the (validIdempotencyKey (values_of (hr_headers (ex_request ex)) idempotencyKeyHeader))))"

lemma idempotentUpstream_begun:
  assumes "may_use_key ex" and "idempotentUpstream srv env ex s = ((res, ex1), s1)"
  obtains (replay) e :: idem_entry where "ex1 = replay_reply srv (ie_reply e) (ex\<lparr>ex_idem_key_hash := key_hash env ex\<rparr>)"
  | (owned) e s2 where "forward_owned srv env (ex\<lparr>ex_idem_key_hash := key_hash env ex\<rparr>) e s2 = ((res, ex1), s1)"
  | (rejected) ex0 n why outcome where "ex0 = ex\<lparr>ex_idem_key_hash := key_hash env ex\<rparr> \<or>
      ex0 = with_retry (ex\<lparr>ex_idem_key_hash := key_hash env ex\<rparr>)"
      "rejectIdempotency srv ex0 n why outcome = (res, ex1)"
proof -
  obtain key where key: "validIdempotencyKey (values_of (hr_headers (ex_request ex)) idempotencyKeyHeader) = Some key"
    using assms(1) by (auto simp: may_use_key_def)
  let ?uid = "trim_space (sv_uid (dc_server (the (ex_policy ex))))"
  obtain status s2 where b: "idem_begin (idem_scope_of env (ex_identity ex)) (scoped_key env (ex_identity ex) ?uid key)
      (request_hash env (ex_inspection ex) key) (ue_begin_now env) s = (status, s2)" by force
  define ex0 where "ex0 = ex\<lparr>ex_idem_key_hash := key_hash env ex\<rparr>"
  have ex0: "ex\<lparr>ex_idem_key_hash := take 16 (scoped_key env (ex_identity ex) ?uid key)\<rparr> = ex0"
    by (simp add: ex0_def key_hash_def key)
  have gate: "\<not> (ex_policy ex = None \<or> UsesDelegatedHeaders (ex_policy ex) \<or>
      ic_human (ex_identity ex) = [] \<and> ic_agent (ex_identity ex) = [])"
    "in_tool_call (ex_inspection ex)" "?uid \<noteq> []"
    using assms(1) by (auto simp: may_use_key_def)
  note run = assms(2) [unfolded idempotentUpstream_def key option.case Let_def if_not_P [OF gate(1)] b prod.case ex0]
  have rej: thesis if "rejectIdempotency srv ex0 n why outcome = (res, ex1) \<or>
      rejectIdempotency srv (with_retry ex0) n why outcome = (res, ex1)" for n why outcome
    using that rejected unfolding ex0_def by blast
  show thesis
  proof (cases status)
    case (IdemStarted e)
    then have "forward_owned srv env ex0 e s2 = ((res, ex1), s1)" using run gate by simp
    then show thesis unfolding ex0_def by (rule owned)
  next
    case (IdemReplay e)
    then have "ex1 = replay_reply srv (ie_reply e) ex0" using run gate by simp
    then show thesis unfolding ex0_def by (rule replay)
  next
    case IdemConflict
    then show thesis using run gate by (intro rej) auto
  next
    case IdemInFlight
    then show thesis using run gate by (intro rej) auto
  next
    case IdemUnknownOutcome
    then show thesis using run gate by (intro rej) auto
  next
    case IdemNotReplayable
    then show thesis using run gate by (intro rej) auto
  next
    case IdemCapacity
    then show thesis using run gate by (intro rej) auto
  qed
qed

lemma upstreamFilter_cases:
  assumes "upstreamFilter srv env ex s = ((res, ex1), s1)"
  shows "told_refused ex1 \<and> keeps_identity ex1 ex \<or>
    (\<exists>reply h. ex1 = replay_reply srv reply (ex\<lparr>ex_idem_key_hash := h\<rparr>)) \<or> forwards srv env ex ex1"
proof (cases "values_of (hr_headers (ex_request ex)) idempotencyKeyHeader = []")
  case True
  obtain reply ex2 where f: "forwardUpstream srv env ex = (reply, ex2)" by force
  have self: "ex\<lparr>ex_request := ex_request ex, ex_idem_key_hash := ex_idem_key_hash ex\<rparr> = ex"
    "ex2 = ex2\<lparr>ex_idem_outcome := ex_idem_outcome ex2\<rparr>" by simp_all
  have "ex1 = ex2" using assms True f by (simp add: upstreamFilter_def)
  with True f self show ?thesis unfolding forwards_def by metis
next
  case False
  then have run: "idempotentUpstream srv env ex s = ((res, ex1), s1)" using assms by (simp add: upstreamFilter_def)
  have keep: "keeps_identity ex1 ex" if "keeps_identity ex1 (ex\<lparr>ex_idem_key_hash := h\<rparr>) \<or>
      keeps_identity ex1 (with_retry (ex\<lparr>ex_idem_key_hash := h\<rparr>))" for h
    using that by (auto simp: keeps_identity_def same_call_def with_retry_def)
  have fwd: "forwards srv env ex ex1" if "forward_owned srv env (ex\<lparr>ex_idem_key_hash := h\<rparr>) e s2 = ((res, ex1), s1)" (is ?fo) for h e s2
  proof -
    note fo = \<open>?fo\<close>
    obtain reply ex2 o' where "forwardUpstream srv env
        (ex\<lparr>ex_idem_key_hash := h, ex_request := without_key (ex_request ex)\<rparr>) = (reply, ex2)"
        "ex1 = ex2\<lparr>ex_idem_outcome := o'\<rparr>"
      using forward_owned_simps [OF fo] by (auto simp: without_key_def)
    moreover have "ex\<lparr>ex_idem_key_hash := h, ex_request := q\<rparr> = ex\<lparr>ex_request := q, ex_idem_key_hash := h\<rparr>" for q
      by simp
    moreover have "values_of (hr_headers (without_key (ex_request ex))) idempotencyKeyHeader = []"
      by (simp add: without_key_def)
    ultimately show ?thesis unfolding forwards_def by metis
  qed
  show ?thesis
  proof (cases "may_use_key ex")
    case False
    from idempotentUpstream_refused [OF this run] rejectIdempotency_refused show ?thesis by blast
  next
    case True
    show ?thesis
    proof (cases rule: idempotentUpstream_begun [OF True run])
      case (1 e)
      then show ?thesis by blast
    next
      case (2 e s2)
      with fwd show ?thesis by blast
    next
      case (3 ex0 n why outcome)
      then show ?thesis using rejectIdempotency_refused [OF 3(2)] keep by blast
    qed
  qed
qed

section \<open>What a passed request has been through\<close>

lemma passes_authz:
  assumes "passes srv env r st ex5 st5"
  obtains ex3 a4 where
    "only_identity (after_policy srv env r st) ex3"
    "ex5 = ex3\<lparr>ex_decision := (if governed ex3 then authz_decision srv (rv_authz env) ex3 a4
        else Allow ''allowed'' (exchange_version srv ex3))\<rparr>"
    "de_allowed (ex_decision ex5)"
    "\<exists>a (st3::gateway_state). authFilter srv (rv_auth env) (after_policy srv env r st) (gy_auth st3) = Some (Continue, ex3, a)"
proof -
  obtain ex3 a and st3 st4 :: gateway_state where p: "authFilter srv (rv_auth env) (after_policy srv env r st) (gy_auth st3) = Some (Continue, ex3, a)"
    "authzFilter srv (rv_authz env) ex3 (gy_auth st4) = (Continue, ex5)"
    using assms unfolding passes_def by blast
  show thesis
  proof (rule that)
    show "only_identity (after_policy srv env r st) ex3" using authFilter_done [OF p(1)] by simp
    show "ex5 = ex3\<lparr>ex_decision := (if governed ex3 then authz_decision srv (rv_authz env) ex3 (as_sync (gy_auth st4))
        else Allow ''allowed'' (exchange_version srv ex3))\<rparr>"
      using p(2) by (auto simp: authzFilter_def Let_def split: if_splits)
    show "de_allowed (ex_decision ex5)" using authzFilter_done [OF p(2)] by auto
    show "\<exists>a (st3::gateway_state). authFilter srv (rv_auth env) (after_policy srv env r st) (gy_auth st3) = Some (Continue, ex3, a)"
      using p(1) by blast
  qed
qed

lemma authz_decision_allowed:
  assumes "de_allowed (authz_decision srv env ex repl)"
  shows "\<not> ex_policy_err ex" "\<not> in_indeterminate (ex_inspection ex)"
    "de_allowed (Authorize (ex_policy ex) (exchange_call ex) (az_now env) (az_wall env))"
    "needs_fresh_sessions (ex_policy ex) \<Longrightarrow> fresh (az_fresh_now env) repl"
  using assms by (auto simp: authz_decision_def split: if_splits)

lemma keeps_identity_simps [simp]:
  "keeps_identity (ex\<lparr>ex_idem_outcome := o'\<rparr>) ex' = keeps_identity ex ex'"
  "keeps_identity ex (ex'\<lparr>ex_request := q, ex_idem_key_hash := h\<rparr>) = keeps_identity ex ex'"
  "keeps_identity ex (ex'\<lparr>ex_idem_key_hash := h\<rparr>) = keeps_identity ex ex'"
  "keeps_identity (replay_reply srv reply (ex\<lparr>ex_idem_key_hash := h\<rparr>)) ex"
  "keeps_identity (default_decision_version srv ex) ex' = keeps_identity ex ex'"
  by (simp_all add: keeps_identity_def same_call_def replay_reply_def)

lemma after_upstream_keeps:
  assumes "after_upstream srv env ex5 st5 (ex, st')"
  shows "keeps_identity ex ex5"
proof -
  obtain res ex6 s where u: "upstreamFilter srv (rv_upstream env) ex5 (gy_idem st5) = ((res, ex6), s)"
    and ex: "ex = default_decision_version srv ex6" using assms by (auto simp: after_upstream_def)
  have "keeps_identity ex6 ex5"
    using upstreamFilter_cases [OF u] by (auto simp: forwards_def keeps_identity_def same_call_def replay_reply_def dest!: forwardUpstream_keeps)
  then show ?thesis by (simp add: ex)
qed

lemma exchange_call_keeps: "keeps_identity ex ex' \<Longrightarrow> exchange_call ex = exchange_call ex'"
  by (simp add: keeps_identity_def same_call_def exchange_call_def)

lemma only_identity_same_call: "only_identity ex ex1 \<Longrightarrow> same_call ex1 ex"
  by (simp add: same_call_def only_identity_sel)

lemma answered_passes:
  assumes "handleGateway srv env r st = Some (ex, st')" and "answered ex"
  obtains ex5 st5 where "passes srv env r st ex5 st5" "after_upstream srv env ex5 st5 (ex, st')"
  using handleGateway_cases [OF assms(1)] assms(2) by auto

section \<open>Authorization\<close>

text \<open>C1: A tool call that reaches the upstream, or is answered with a stored reply, was allowed: the
  policy in force at stage 2 was available, and \<open>Authorize\<close> on that very document, for the method
  and the tool that were read from the body and for the identity stage 3 established, allowed it.
  This holds for a replay as for a first call, and whatever reloads, session polls and other
  requests happen between the stages.\<close>

theorem forwarded_call_authorized:
  assumes "handleGateway srv env r st = Some (ex, st')" and "answered ex"
    and "in_tool_call (inspectRPCRequest (rv_json env) r)"
  shows "\<exists>d. currentPolicy (gv_fallback srv) (gy_policy (rv_others env 1 (rv_others env 0 st))) = (d, False) \<and>
    ex_policy ex = Some d \<and> ex_inspection ex = inspectRPCRequest (rv_json env) r \<and>
    de_allowed (Authorize (Some d) (exchange_call ex) (az_now (rv_authz env)) (az_wall (rv_authz env)))"
proof -
  obtain ex5 st5 where p: "passes srv env r st ex5 st5" and u: "after_upstream srv env ex5 st5 (ex, st')"
    using answered_passes [OF assms(1,2)] .
  obtain ex3 a4 where ex3: "only_identity (after_policy srv env r st) ex3"
    and ex5: "ex5 = ex3\<lparr>ex_decision := (if governed ex3 then authz_decision srv (rv_authz env) ex3 a4
        else Allow ''allowed'' (exchange_version srv ex3))\<rparr>" and ok: "de_allowed (ex_decision ex5)"
    using passes_authz [OF p] by metis
  note same = only_identity_sel [OF ex3]
  have gov: "governed ex3" using assms(3) by (simp add: governed_def same)
  with ex5 ok have "de_allowed (authz_decision srv (rv_authz env) ex3 a4)" by simp
  note auth = authz_decision_allowed [OF this]
  note keep = after_upstream_keeps [OF u]
  then have "exchange_call ex = exchange_call ex3" "ex_policy ex = ex_policy ex3" "ex_inspection ex = ex_inspection ex3"
    using ex5 by (simp_all add: keeps_identity_def same_call_def exchange_call_def)
  moreover obtain d un where "currentPolicy (gv_fallback srv) (gy_policy (rv_others env 1 (rv_others env 0 st))) = (d, un)"
    by fastforce
  ultimately show ?thesis using auth same by (auto simp: after_policy_def)
qed

section \<open>A gateway to run\<close>

text \<open>An OAuth server whose policy is the sample document, and one tool call of its grantee.\<close>

definition sample_auth :: auth where
  "sample_auth =
     \<lparr>au_mode = '''', au_headers = [], au_credential_presence = '''', au_token_header = ''Authorization'',
      au_issuer_url = ''idp'', au_audience = ''mcp'', au_scopes = [], au_trust_domain = ''mesh''\<rparr>"

definition sample_policy :: document where
  "sample_policy = (sample_document [sample_grant ''g'' '''' ''allow''] True)
     \<lparr>dc_auth := Some sample_auth, dc_server := server_zero\<lparr>sv_uid := ''uid-1'', sv_name := ''demo''\<rparr>\<rparr>"

definition sample_gateway :: gateway_server where
  "sample_gateway =
     \<lparr>gv_policy_version = ''v1'', gv_verified_header = '''', gv_trusted_proxy = '''', gv_strip_prefix = ''/demo'',
      gv_server_name = ''demo'', gv_server_namespace = ''mcp-servers'', gv_server_uid = ''uid-1'', gv_cluster = '''',
      gv_fallback = document_zero\<rparr>"

definition sample_provider :: oauth_provider where
  "sample_provider = \<lparr>op_jwks = ''keys'', op_issuer = ''idp'', op_audience = ''mcp''\<rparr>"

definition sample_state :: gateway_state where
  "sample_state =
     \<lparr>gy_policy = Some \<lparr>ps_policy = Some sample_policy, ps_revision = ''r1'', ps_loaded_at = 1, ps_err = None, ps_ready = True\<rparr>,
      gy_auth = \<lparr>as_sync = None, as_providers = Map.empty\<rparr>,
      gy_idem = newIdempotencyStore defaultIdempotencyLimits\<rparr>"

definition sample_get :: "gostring \<Rightarrow> metadata_reply" where
  "sample_get ep = Fetched 200 (Some \<lparr>sm_issuer = ''idp'', sm_jwks_uri = ''keys''\<rparr>)"

definition sample_oauth :: oauth_env where
  "sample_oauth =
     \<lparr>oe_parse = (\<lambda>u. Some \<lparr>pu_scheme = ''https'', pu_host = u, pu_path = '''', pu_text = ''https://'' @ u\<rparr>),
      oe_get = sample_get, oe_internal = '''', oe_others = (\<lambda>c. c),
      oe_verify = (\<lambda>p tok. if tok = ''token'' then Some (''alice'', (\<lambda>k. if k = ''sid'' then Some (ClaimString ''s1'') else None)) else None)\<rparr>"

definition sample_upstream :: upstream_env where
  "sample_upstream =
     \<lparr>ue_upstream_url = None, ue_broker = (\<lambda>_. BrokerUnavailable), ue_hash = concat, ue_canonical_json = (\<lambda>_. ''''),
      ue_begin_now = 10, ue_settle_now = 11, ue_meanwhile = (\<lambda>s. s),
      ue_upstream = (\<lambda>_. \<lparr>ur_writes = [WriteHeader [] 200, WriteBytes [] ''result''], ur_header = [],
        ur_aborted = False, ur_outcome = \<lparr>uo_status = 0, uo_reason = '''', uo_reject = False\<rparr>\<rparr>)\<rparr>"

definition sample_body :: json where
  "sample_body = JObject [(''method'', JString ''tools/call''), (''params'', JObject [(''name'', JString ''search'')])]"

definition sample_env :: request_env where
  "sample_env =
     \<lparr>rv_json = (\<lambda>_. Some sample_body),
      rv_auth = \<lparr>av_oauth = sample_oauth, av_parse_spiffe = spiffe_parser, av_lookup = NoCredential, av_sync_now = 5,
        av_expiry_now = 5\<rparr>,
      rv_authz = \<lparr>az_fresh_now = 5, az_now = 5, az_wall = 7\<rparr>, rv_upstream = sample_upstream, rv_others = (\<lambda>_ s. s)\<rparr>"

definition sample_call :: "header \<Rightarrow> http_request" where
  "sample_call extra =
     \<lparr>hr_method = ''POST'', hr_path = ''/demo/mcp'', hr_raw_path = '''',
      hr_headers = [(''Authorization'', [''Bearer token'']), (''X-Mcp-Credential-Db'', [''forged''])] @ extra,
      hr_trailers = [], hr_content_length = 2, hr_body = BodyBytes ''{}'', hr_tls = None\<rparr>"

text \<open>For evaluation: the limits as integers.\<close>

lemma inspect_body_code [code]:
  "inspect_body parse data =
     (if data = [] \<or> 1048576 < int (length data) then inspection_failed True
      else
        (case Option.bind (parse data) decode_rpc_request of
           None \<Rightarrow> inspection_failed True
         | Some req \<Rightarrow>
             if trim_space (rr_method req) = [] then inspection_failed True
             else
               inspection_zero\<lparr>in_method := rr_method req,
                 in_tool_name :=
                   (case Option.bind (rr_params req) decode_tool_name of None \<Rightarrow> [] | Some n \<Rightarrow> n),
                 in_tool_call := IsToolCallMethod (rr_method req),
                 in_params_raw := rr_params req, in_id_raw := rr_id req\<rparr>))"
  by (simp add: inspect_body_def maxRPCBodyBytes_def)

lemma inspectRPCRequest_code [code]:
  "inspectRPCRequest parse r =
     (let content_type = to_lower (header_get (hr_headers r) ''content-type'')
      in if hr_method r \<noteq> ''POST'' then inspection_zero
         else if content_type \<noteq> [] \<and> \<not> contains_sub content_type ''application/json''
         then inspection_failed False
         else if (case hr_body r of NoBody \<Rightarrow> True | _ \<Rightarrow> False) \<or> hr_content_length r = 0 \<or> 1048576 < hr_content_length r
         then inspection_failed True
         else (case hr_body r of
                 NoBody \<Rightarrow> inspection_failed True
               | BodyFails \<Rightarrow> inspection_failed True
               | BodyBytes data \<Rightarrow> inspect_body parse data))"
  by (cases "hr_body r") (simp_all add: inspectRPCRequest_def maxRPCBodyBytes_def)

lemma sample_run:
  "case handleGateway sample_gateway sample_env (sample_call []) sample_state of
     None \<Rightarrow> False
   | Some (ex, _) \<Rightarrow> answered ex \<and> ic_human (ex_identity ex) = ''alice'' \<and> ic_agent (ex_identity ex) = [] \<and> PolicyUsesOAuth (ex_policy ex) \<and>
      (case ex_response ex of UpstreamResponse q _ \<Rightarrow> hr_path q = ''/mcp'' \<and>
         map fst (hr_headers q) = [''Authorization''] | _ \<Rightarrow> False)"
  by code_simp

lemma sample_result:
  obtains ex st' q code where
    "handleGateway sample_gateway sample_env (sample_call []) sample_state = Some (ex, st')"
    "answered ex" "ic_human (ex_identity ex) = ''alice''" "ic_agent (ex_identity ex) = []"
    "PolicyUsesOAuth (ex_policy ex)" "ex_response ex = UpstreamResponse q code" "hr_path q = ''/mcp''" "map fst (hr_headers q) = [''Authorization'']"
  using sample_run by (auto split: option.splits response.splits)

lemma sample_is_tool_call: "in_tool_call (inspectRPCRequest (rv_json sample_env) (sample_call []))"
  by code_simp

theorem forwarded_call_authorized_instance:
  "\<exists>ex st' d. handleGateway sample_gateway sample_env (sample_call []) sample_state = Some (ex, st') \<and>
     ex_policy ex = Some d \<and> de_allowed (Authorize (Some d) (exchange_call ex) 5 7) \<and>
     ic_human (ex_identity ex) = ''alice''"
proof -
  obtain ex st' where run: "handleGateway sample_gateway sample_env (sample_call []) sample_state = Some (ex, st')"
    "answered ex" "ic_human (ex_identity ex) = ''alice''"
    by (rule sample_result)
  have times: "az_now (rv_authz sample_env) = 5" "az_wall (rv_authz sample_env) = 7"
    by (simp_all add: sample_env_def)
  from forwarded_call_authorized [OF run(1,2) sample_is_tool_call, unfolded times] run(1,3) show ?thesis by blast
qed

end
