(* ===== verification/GatewayAudit.thy ===== *)
theory GatewayAudit
  imports GatewayPipeline
begin

text \<open>
  Stage 6 of the pipeline: what \<open>emitAuditFromExchange\<close> records of an exchange
  (\<open>services/mcp-gateway/proxy.go\<close>), the envelope it is wrapped in (\<open>pkg/events/envelope.go\<close>) and
  the queue of \<open>services/mcp-gateway/analytics.go\<close> it is handed to. The queue is a Go channel that
  is made at most once; the four workers take its head and post it, which is not modelled. Every
  critical section of \<open>emitIfEnabled\<close> is preceded by whatever other goroutines do to the dispatcher
  (\<open>ad_others\<close>): nothing is assumed of it here. A send on a closed channel, which panics, makes the
  operation \<^term>\<open>None\<close>.
\<close>

section \<open>Envelopes\<close>

text \<open>The timestamp is kept as the instant it renders.\<close>

record envelope =
  ev_source :: gostring
  ev_type :: gostring
  ev_payload :: gostring
  ev_timestamp :: time

definition NewEnvelope ::
  "(audit_payload \<Rightarrow> gostring option) \<Rightarrow> gostring \<Rightarrow> gostring \<Rightarrow> audit_payload \<Rightarrow> time \<Rightarrow> envelope option" where
  "NewEnvelope marshal source event_type payload now =
     map_option (\<lambda>raw. \<lparr>ev_source = source, ev_type = event_type, ev_payload = raw, ev_timestamp = now\<rparr>)
       (marshal payload)"

section \<open>The dispatcher\<close>

definition analyticsQueueSize :: nat where
  "analyticsQueueSize = 256"

definition analyticsWorkerCount :: nat where
  "analyticsWorkerCount = 4"

record dispatcher =
  dp_url :: gostring
  dp_once :: bool
  dp_closed :: bool
  dp_queue_set :: bool
  dp_channel :: "envelope list"
  dp_channel_closed :: bool
  dp_workers :: nat
  dp_dropped :: "64 word"

definition startAnalyticsDispatcher :: "dispatcher \<Rightarrow> dispatcher" where
  "startAnalyticsDispatcher st =
     (if dp_url st = [] \<or> dp_once st then st
      else
        (let st1 = st\<lparr>dp_once := True\<rparr>
         in if dp_closed st1 then st1
            else
              (let st2 = (if dp_queue_set st1 then st1
                          else st1\<lparr>dp_queue_set := True, dp_channel := [], dp_channel_closed := False\<rparr>)
               in st2\<lparr>dp_workers := dp_workers st2 + analyticsWorkerCount\<rparr>)))"

definition stopAnalyticsDispatcher :: "dispatcher \<Rightarrow> dispatcher" where
  "stopAnalyticsDispatcher st =
     (if dp_closed st then st
      else st\<lparr>dp_closed := True, dp_queue_set := False,
              dp_channel_closed := dp_queue_set st \<or> dp_channel_closed st\<rparr>)"

text \<open>A worker takes the oldest event.\<close>

definition take_event :: "dispatcher \<Rightarrow> (envelope \<times> dispatcher) option" where
  "take_event st = (case dp_channel st of [] \<Rightarrow> None | e # es \<Rightarrow> Some (e, st\<lparr>dp_channel := es\<rparr>))"

datatype emission = NotAudited | NotEncoded | NotEnabled | QueueGone | QueuedEvent | DroppedEvent

definition drop_event :: "dispatcher \<Rightarrow> dispatcher" where
  "drop_event st = st\<lparr>dp_dropped := dp_dropped st + 1\<rparr>"

text \<open>The queue, started on first use; \<^term>\<open>False\<close> is nil.\<close>

definition analyticsEventQueue :: "(nat \<Rightarrow> dispatcher \<Rightarrow> dispatcher) \<Rightarrow> dispatcher \<Rightarrow> bool \<times> dispatcher" where
  "analyticsEventQueue others st =
     (let st1 = others 1 st
      in if dp_queue_set st1 then (True, st1)
         else
           (let st2 = others 2 (startAnalyticsDispatcher st1)
            in (\<not> dp_closed st2 \<and> dp_queue_set st2, st2)))"

definition send_event :: "envelope \<Rightarrow> dispatcher \<Rightarrow> (emission \<times> dispatcher) option" where
  "send_event ev st =
     (if dp_channel_closed st then None
      else if length (dp_channel st) < analyticsQueueSize
      then Some (QueuedEvent, st\<lparr>dp_channel := dp_channel st @ [ev]\<rparr>)
      else Some (DroppedEvent, drop_event st))"

definition emitIfEnabled ::
  "(nat \<Rightarrow> dispatcher \<Rightarrow> dispatcher) \<Rightarrow> envelope \<Rightarrow> dispatcher \<Rightarrow> (emission \<times> dispatcher) option" where
  "emitIfEnabled others ev st =
     (if dp_url st = [] then Some (NotEnabled, st)
      else
        (let st1 = others 0 st
         in if dp_closed st1 then Some (DroppedEvent, drop_event st1)
            else
              (case analyticsEventQueue others st1 of
                 (False, st2) \<Rightarrow> Some (QueueGone, st2)
               | (True, st2) \<Rightarrow> send_event ev (others 3 st2))))"

section \<open>The audit record of an exchange\<close>

text \<open>What the recorder of the response counted, and what wraps the record.\<close>

record audit_env =
  ad_marshal :: "audit_payload \<Rightarrow> gostring option"
  ad_source :: gostring
  ad_event_type :: gostring
  ad_now :: time
  ad_latency :: int
  ad_bytes :: int
  ad_others :: "nat \<Rightarrow> dispatcher \<Rightarrow> dispatcher"

definition emitAuditPayload ::
  "audit_env \<Rightarrow> audit_payload \<Rightarrow> dispatcher \<Rightarrow> (emission \<times> dispatcher) option" where
  "emitAuditPayload env payload st =
     (case NewEnvelope (ad_marshal env) (ad_source env) (ad_event_type env) payload (ad_now env) of
        None \<Rightarrow> Some (NotEncoded, st)
      | Some ev \<Rightarrow> emitIfEnabled (ad_others env) ev st)"

definition inventory_agent :: gostring where
  "inventory_agent = ''mcp-runtime-live-inventory''"

definition emitAuditFromExchange ::
  "gateway_server \<Rightarrow> audit_env \<Rightarrow> exchange \<Rightarrow> dispatcher \<Rightarrow> (emission \<times> dispatcher) option" where
  "emitAuditFromExchange srv env ex st =
     (let m = in_method (ex_inspection ex)
      in if ex_skip_audit ex then Some (NotAudited, st)
         else if ic_agent (ex_identity ex) = inventory_agent then Some (NotAudited, st)
         else if de_allowed (ex_decision ex) \<and> m = [] then Some (NotAudited, st)
         else if \<not> de_allowed (ex_decision ex) \<and> m = [] \<and> \<not> in_is_rpc_attempt (ex_inspection ex)
         then Some (NotAudited, st)
         else emitAuditPayload env (auditPayloadForExchange srv ex (ad_latency env) (ad_bytes env)) st)"

section \<open>A running dispatcher\<close>

definition running :: "dispatcher \<Rightarrow> bool" where
  "running st \<longleftrightarrow>
     dp_url st \<noteq> [] \<and> \<not> dp_closed st \<and> \<not> dp_channel_closed st \<and> (dp_once st \<longrightarrow> dp_queue_set st) \<and>
     length (dp_channel st) \<le> analyticsQueueSize"

lemma start_running: "running st \<Longrightarrow> running (startAnalyticsDispatcher st) \<and> dp_queue_set (startAnalyticsDispatcher st)"
  by (auto simp: running_def startAnalyticsDispatcher_def Let_def)

lemma send_running: "running st \<Longrightarrow> send_event ev st = Some (out, st') \<Longrightarrow> running st'"
  by (auto simp: running_def send_event_def drop_event_def split: if_splits)

lemma take_running: "running st \<Longrightarrow> take_event st = Some (e, st') \<Longrightarrow> running st'"
  by (auto simp: running_def take_event_def split: list.splits)

text \<open>While it runs, an event is queued, or counted because the queue is full.\<close>

definition recorded :: "envelope \<Rightarrow> emission \<Rightarrow> dispatcher \<Rightarrow> dispatcher \<Rightarrow> bool" where
  "recorded ev out d d' \<longleftrightarrow>
     out = QueuedEvent \<and> length (dp_channel d) < analyticsQueueSize \<and> d' = d\<lparr>dp_channel := dp_channel d @ [ev]\<rparr> \<or>
     out = DroppedEvent \<and> length (dp_channel d) = analyticsQueueSize \<and> d' = drop_event d"

definition keep_running :: "(nat \<Rightarrow> dispatcher \<Rightarrow> dispatcher) \<Rightarrow> bool" where
  "keep_running others \<longleftrightarrow>
     (\<forall>i s. running s \<longrightarrow> running (others i s) \<and> (dp_queue_set s \<longrightarrow> dp_queue_set (others i s)))"

lemma emitIfEnabled_running:
  assumes "running st" and "keep_running others"
  shows "\<exists>d out d'. emitIfEnabled others ev st = Some (out, d') \<and> running d \<and> recorded ev out d d'"
proof -
  have keep: "running (others i s)" if "running s" for i s using assms(2) that by (simp add: keep_running_def)
  have st2: "running (others 1 (others 0 st))" "running (others 0 st)" by (intro keep assms(1))+
  note start = start_running [OF st2(1)]
  have "dp_queue_set (others 2 (startAnalyticsDispatcher (others 1 (others 0 st))))"
    using assms(2) start by (simp add: keep_running_def)
  moreover have "running (others 2 (startAnalyticsDispatcher (others 1 (others 0 st))))"
    using keep start by blast
  ultimately obtain q where q: "analyticsEventQueue others (others 0 st) = (True, q)" "running q"
    using st2 by (cases "dp_queue_set (others 1 (others 0 st))")
      (auto simp: analyticsEventQueue_def Let_def running_def)
  have d: "running (others 3 q)" by (rule keep [OF q(2)])
  have url: "dp_url st \<noteq> []" "\<not> dp_closed (others 0 st)" using assms(1) st2(2) by (simp_all add: running_def)
  have emit: "emitIfEnabled others ev st = send_event ev (others 3 q)"
    unfolding emitIfEnabled_def Let_def q(1) using url by simp
  have "\<exists>out d'. send_event ev (others 3 q) = Some (out, d') \<and> recorded ev out (others 3 q) d'"
    using d by (auto simp: send_event_def running_def recorded_def)
  with d emit show ?thesis by auto
qed

text \<open>Shutting down: the queue that \<open>emitIfEnabled\<close> has read may be closed by the time it sends, and
  a send on a closed channel panics.\<close>

lemma late_emission_panics:
  assumes "running st" and "dp_queue_set st"
    and "others = (\<lambda>i s. if i = 3 then stopAnalyticsDispatcher s else s)"
  shows "emitIfEnabled others ev st = None"
  using assms
  by (simp add: emitIfEnabled_def analyticsEventQueue_def Let_def running_def send_event_def stopAnalyticsDispatcher_def)

end
