(* ===== verification/GatewayGuarantees.thy ===== *)
theory GatewayGuarantees
  imports GatewayClaims GatewayAudit
begin

text \<open>
  More guarantees of the pipeline: which headers reach the upstream, that an OAuth server forwards
  nothing unauthenticated, what a presented certificate binds, that no request panics the gateway,
  and what the audit trail says.
\<close>

section \<open>Names of headers\<close>

lemma to_lower_upper_char: "to_lower_char (to_upper_char c) = to_lower_char c"
proof (cases "CHR ''a'' \<le> c \<and> c \<le> CHR ''z''")
  case True
  define n where "n = (of_char c :: nat)"
  have c: "c = char_of n" and n: "97 \<le> n" "n \<le> 122"
    using True by (simp_all add: n_def less_eq_char_def)
  have "to_upper_char c = char_of (n - 32)" using True by (simp add: to_upper_char_def n_def)
  moreover obtain m where m: "n = m + 32" "65 \<le> m" "m \<le> 90"
    using that [of "n - 32"] n by simp
  moreover have "\<not> c \<le> CHR ''Z''" using n by (simp add: less_eq_char_def c)
  ultimately show ?thesis by (simp add: to_lower_char_def less_eq_char_def c)
qed (auto simp: to_upper_char_def)

lemma to_lower_idem_char [simp]: "to_lower_char (to_lower_char c) = to_lower_char c"
proof (cases "CHR ''A'' \<le> c \<and> c \<le> CHR ''Z''")
  case True
  define n where "n = (of_char c :: nat)"
  have c: "c = char_of n" and n: "65 \<le> n" "n \<le> 90"
    using True by (simp_all add: n_def less_eq_char_def)
  have "to_lower_char c = char_of (n + 32)" using True by (simp add: to_lower_char_def n_def)
  moreover have "(of_char (char_of (n + 32) :: char) :: nat) = n + 32" using n by simp
  ultimately show ?thesis using n by (simp add: to_lower_char_def less_eq_char_def)
next
  case False
  then have "to_lower_char c = c" by (auto simp: to_lower_char_def)
  then show ?thesis by simp
qed

lemma to_lower_canonical: "to_lower (canonical_key upper s) = to_lower s"
  by (induction s arbitrary: upper) (auto simp: to_lower_def to_lower_upper_char)

lemma to_lower_CanonicalHeaderKey [simp]: "to_lower (CanonicalHeaderKey s) = to_lower s"
  by (simp add: CanonicalHeaderKey_def to_lower_canonical)

lemma has_prefix_lower: "has_prefix s p \<Longrightarrow> has_prefix (to_lower s) (to_lower p)"
  by (simp add: has_prefix_def to_lower_def take_map)

lemma canonical_is_credential: "has_prefix (CanonicalHeaderKey n) HeaderPrefix \<Longrightarrow> is_credential_name n"
  using has_prefix_lower [of "CanonicalHeaderKey n" HeaderPrefix] by (simp add: is_credential_name_def)

lemma is_credential_fold: "equal_fold a b \<Longrightarrow> is_credential_name a = is_credential_name b"
  by (simp add: equal_fold_def is_credential_name_def)

lemma not_credential_names [simp]:
  "\<not> is_credential_name ''Authorization''" "\<not> is_credential_name idempotencyKeyHeader"
  "\<not> is_credential_name ''Trailer''"
  by code_simp+

lemma trailer_prefix_not_credential: "has_prefix n ''Trailer:'' \<Longrightarrow> \<not> is_credential_name n"
proof
  assume "has_prefix n ''Trailer:''" "is_credential_name n"
  then have "hd (to_lower n) = CHR ''t''" "hd (to_lower n) = CHR ''x''"
    by (cases n; force simp: has_prefix_def is_credential_name_def to_lower_def HeaderPrefix_def to_lower_char_def
        less_eq_char_def)+
  then show False by simp
qed

section \<open>Stripping credentials\<close>

lemma StripHeaders_no_credentials:
  "e \<in> set (StripHeaders h) \<Longrightarrow> \<not> is_credential_name (fst e)"
proof -
  assume e: "e \<in> set (StripHeaders h)"
  have "\<not> is_credential_name (fst x)" if "\<not> is_credential_name (trim_prefix (fst x) ''Trailer:'')" for x :: "gostring \<times> gostring list"
    using that trailer_prefix_not_credential by (auto simp: trim_prefix_def split: if_splits)
  with e show ?thesis
    by (auto simp: StripHeaders_def Let_def header_del_def split: if_splits)
qed

lemma values_of_append: "values_of (a @ b) n = values_of a n @ values_of b n"
  by (simp add: values_of_def)

lemma values_of_filter_absent: "values_of h n = [] \<Longrightarrow> values_of (filter P h) n = []"
  by (auto simp: values_of_def)

lemma StripHeaders_absent:
  assumes "values_of h n = []" and "\<not> equal_fold ''Trailer'' n"
  shows "values_of (StripHeaders h) n = []"
proof -
  have "values_of [(''Trailer'', xs)] n = []" for xs using assms(2) by (simp add: values_of_def)
  then show ?thesis using values_of_filter_absent [OF assms(1)] assms(2)
    by (simp add: StripHeaders_def Let_def header_del_def values_of_append values_of_filter_absent)
qed

section \<open>Injected credentials\<close>

lemma set_headers_Cons: "set_headers ((n, v) # hs) h = set_headers hs (header_set h n v)"
  by (simp add: set_headers_def)

lemma set_headers_names:
  "e \<in> set (set_headers hs h) \<Longrightarrow> e \<in> set h \<or> (\<exists>v. (fst e, v) \<in> set hs \<and> snd e = [v])"
proof (induction hs arbitrary: h)
  case Nil
  then show ?case by (simp add: set_headers_def)
next
  case (Cons p hs)
  obtain n v where p: "p = (n, v)" by force
  from Cons.prems have "e \<in> set (set_headers hs (header_set h n v))" by (simp add: p set_headers_Cons)
  from Cons.IH [OF this] show ?case by (auto simp: p header_set_def header_del_def)
qed

lemma set_headers_absent:
  "values_of h n = [] \<Longrightarrow> \<forall>(m, v) \<in> set hs. \<not> equal_fold m n \<Longrightarrow> values_of (set_headers hs h) n = []"
proof (induction hs arbitrary: h)
  case Nil
  then show ?case by (simp add: set_headers_def)
next
  case (Cons p hs)
  then show ?case by (cases p) (auto simp: set_headers_Cons)
qed

lemma broker_resolve_names:
  assumes "broker_resolve reply = Some hs" and "(n, v) \<in> set hs"
  shows "is_credential_name n" "ValidValue v"
  using assms canonical_is_credential
  by (auto simp: broker_resolve_def list_all_iff split: broker_reply.splits option.splits if_splits)

text \<open>Where the credential headers of an injected request come from.\<close>

definition brokered :: "upstream_env \<Rightarrow> exchange \<Rightarrow> (gostring \<times> gostring) list \<Rightarrow> bool" where
  "brokered env ex hs \<longleftrightarrow>
     (\<exists>d b. ex_policy ex = Some d \<and> ic_session (ex_identity ex) = Some b \<and> in_tool_call (ex_inspection ex) \<and>
        LocalUpstream (ue_upstream_url env) 0 \<and>
        broker_resolve (ue_broker env (resolution_for ex d b)) = Some hs)"

lemma injectCredentials_headers:
  assumes "injectCredentials env ex = (True, ex1)"
  obtains hs where "hr_headers (ex_request ex1) = set_headers hs (StripHeaders (hr_headers (ex_request ex)))"
    "hr_trailers (ex_request ex1) = StripHeaders (hr_trailers (ex_request ex))"
    "hs = [] \<or> brokered env ex hs"
proof -
  let ?h = "StripHeaders (hr_headers (ex_request ex))"
  have none: "set_headers [] ?h = ?h" by (simp add: set_headers_def)
  consider "ex1 = ex\<lparr>ex_request := strip_credentials (ex_request ex)\<rparr>"
    | d b hs where "ex_policy ex = Some d" "ic_session (ex_identity ex) = Some b" "in_tool_call (ex_inspection ex)"
        "LocalUpstream (ue_upstream_url env) 0" "broker_resolve (ue_broker env (resolution_for ex d b)) = Some hs"
        "ex1 = ex\<lparr>ex_request := (strip_credentials (ex_request ex))\<lparr>hr_headers := set_headers hs ?h\<rparr>\<rparr>"
    using assms
    by (auto simp: injectCredentials_def Let_def strip_credentials_def split: option.splits if_splits)
  then show thesis
  proof cases
    case 1
    then show thesis using none by (intro that [of "[]"]) (simp_all add: strip_credentials_def)
  next
    case (2 d b hs)
    then show thesis by (intro that [of hs]) (auto simp: strip_credentials_def brokered_def)
  qed
qed

section \<open>The forwarded request\<close>

lemma strip_path_headers [simp]:
  "hr_headers (strip_path pfx r) = hr_headers r" "hr_trailers (strip_path pfx r) = hr_trailers r"
  "hr_body (strip_path pfx r) = hr_body r" "hr_method (strip_path pfx r) = hr_method r"
  by (auto simp: strip_path_def Let_def split: prod.split bool.split)

lemma header_del_subset: "e \<in> set (header_del h n) \<Longrightarrow> e \<in> set h"
  by (simp add: header_del_def)

lemma values_of_del_absent: "values_of h n = [] \<Longrightarrow> values_of (header_del h m) n = []"
  by (simp add: header_del_def values_of_filter_absent)

lemma clean_headers_subset: "e \<in> set (clean_headers srv p h) \<Longrightarrow> e \<in> set h"
  by (auto simp: clean_headers_def Let_def split: if_splits dest: header_del_subset)

lemma clean_headers_absent:
  "values_of (clean_headers srv p h) (verifiedSPIFFEHeaderName srv) = []"
  "\<not> keeps_authorization p \<Longrightarrow> values_of (clean_headers srv p h) default_token_header_name = []"
  "values_of h n = [] \<Longrightarrow> values_of (clean_headers srv p h) n = []"
  by (simp_all add: clean_headers_def Let_def values_of_del_absent)

lemma brokered_keeps: "keeps_identity a b \<Longrightarrow> brokered env a hs \<Longrightarrow> brokered env b hs"
  by (simp add: brokered_def resolution_for_def keeps_identity_def same_call_def)

text \<open>What is true of a request that is forwarded for the exchange \<open>ex\<close>.\<close>

definition clean_request :: "gateway_server \<Rightarrow> upstream_env \<Rightarrow> exchange \<Rightarrow> http_request \<Rightarrow> bool" where
  "clean_request srv env ex q \<longleftrightarrow>
     values_of (hr_headers q) (verifiedSPIFFEHeaderName srv) = [] \<and>
     values_of (hr_headers q) idempotencyKeyHeader = [] \<and>
     (\<not> keeps_authorization (ex_policy ex) \<longrightarrow> values_of (hr_headers q) ''Authorization'' = []) \<and>
     (\<forall>e \<in> set (hr_trailers q). \<not> is_credential_name (fst e)) \<and>
     (\<exists>hs. (hs = [] \<or> brokered env ex hs) \<and>
        (\<forall>e \<in> set (hr_headers q). is_credential_name (fst e) \<longrightarrow> (\<exists>v. (fst e, v) \<in> set hs \<and> snd e = [v])))"

lemma key_not_trailer: "\<not> equal_fold ''Trailer'' idempotencyKeyHeader"
  by code_simp

lemma prepare_request_clean:
  assumes inj: "injectCredentials env ex = (True, ex1)"
    and key: "values_of (hr_headers (ex_request ex)) idempotencyKeyHeader = []"
  shows "clean_request srv env ex (prepare_request srv (ex_policy ex1) (ex_request ex1))"
proof -
  obtain hs where hs: "hr_headers (ex_request ex1) = set_headers hs (StripHeaders (hr_headers (ex_request ex)))"
    "hr_trailers (ex_request ex1) = StripHeaders (hr_trailers (ex_request ex))" "hs = [] \<or> brokered env ex hs"
    using injectCredentials_headers [OF inj] by metis
  let ?h = "hr_headers (ex_request ex1)"
  have p: "ex_policy ex1 = ex_policy ex" by (subst injectCredentials_sel [OF inj]) simp
  have names: "is_credential_name m" if "(m, v) \<in> set hs" for m v
    using hs(3) that broker_resolve_names(1) by (auto simp: brokered_def)
  then have "\<forall>(m, v) \<in> set hs. \<not> equal_fold m idempotencyKeyHeader"
    using is_credential_fold not_credential_names(2) by blast
  then have "values_of ?h idempotencyKeyHeader = []"
    unfolding hs(1) by (intro set_headers_absent StripHeaders_absent key key_not_trailer)
  moreover have "\<exists>v. (fst e, v) \<in> set hs \<and> snd e = [v]" if "e \<in> set ?h" "is_credential_name (fst e)" for e
    using set_headers_names [of e hs] that StripHeaders_no_credentials unfolding hs(1) by blast
  ultimately have "values_of (clean_headers srv (ex_policy ex) ?h) idempotencyKeyHeader = []"
      "\<forall>e \<in> set (clean_headers srv (ex_policy ex) ?h). is_credential_name (fst e) \<longrightarrow>
         (\<exists>v. (fst e, v) \<in> set hs \<and> snd e = [v])"
    using clean_headers_subset by (simp add: clean_headers_absent(3), blast)
  then show ?thesis
    using hs(2,3) StripHeaders_no_credentials clean_headers_absent(1) [of srv "ex_policy ex" ?h]
      clean_headers_absent(2) [of "ex_policy ex" srv ?h]
    unfolding clean_request_def prepare_request_def p default_token_header_name_def
    by (intro conjI exI [of _ hs]) simp_all
qed

lemma forwarded_request:
  assumes "handleGateway srv env r st = Some (ex, st')" and "ex_response ex = UpstreamResponse q code"
  obtains ex0 ex1 where
    "keeps_identity ex ex0" "values_of (hr_headers (ex_request ex0)) idempotencyKeyHeader = []"
    "injectCredentials (rv_upstream env) ex0 = (True, ex1)"
    "q = prepare_request srv (ex_policy ex1) (ex_request ex1)" "ex_request ex0 = r \<or> ex_request ex0 = without_key r"
proof -
  have "answered ex" using assms(2) by (simp add: answered_def)
  then obtain ex5 st5 where p: "passes srv env r st ex5 st5" and u: "after_upstream srv env ex5 st5 (ex, st')"
    using answered_passes [OF assms(1)] by blast
  from u obtain res ex6 s where up: "upstreamFilter srv (rv_upstream env) ex5 (gy_idem st5) = ((res, ex6), s)"
    and ex: "ex = default_decision_version srv ex6" by (auto simp: after_upstream_def)
  have "forwards srv (rv_upstream env) ex5 ex6"
    using upstreamFilter_cases [OF up] assms(2) by (auto simp: ex told_refused_def replay_reply_def)
  then obtain r0 h o' reply ex2 where r0: "r0 = ex_request ex5 \<or> r0 = without_key (ex_request ex5)"
    "values_of (hr_headers r0) idempotencyKeyHeader = []"
    and f: "forwardUpstream srv (rv_upstream env) (ex5\<lparr>ex_request := r0, ex_idem_key_hash := h\<rparr>) = (reply, ex2)"
    and ex6: "ex6 = ex2\<lparr>ex_idem_outcome := o'\<rparr>" unfolding forwards_def by blast
  define ex0 where "ex0 = ex5\<lparr>ex_request := r0, ex_idem_key_hash := h\<rparr>"
  have "ex_response ex2 = UpstreamResponse q code" using assms(2) by (simp add: ex ex6)
  from forwardUpstream_response [OF f this] obtain ex1 where
    i: "injectCredentials (rv_upstream env) ex0 = (True, ex1)" "q = prepare_request srv (ex_policy ex1) (ex_request ex1)"
    by (auto simp: ex0_def)
  obtain ex3 d where "only_identity (after_policy srv env r st) ex3" "ex5 = ex3\<lparr>ex_decision := d\<rparr>"
    using passes_authz [OF p] by metis
  then have "ex_request ex5 = r" using only_identity_sel(1) by simp
  moreover have "keeps_identity ex ex0"
    using forwardUpstream_keeps [OF f] by (simp add: ex ex6 ex0_def)
  ultimately show thesis using r0 i by (intro that [of ex0 ex1]) (simp_all add: ex0_def)
qed

text \<open>C7: What the upstream receives: never the ingress's identity assertion, never an idempotency key,
  no \<open>Authorization\<close> header unless the server uses OAuth or configured that header itself, no
  credential header that the client sent, as header or trailer, and only those values the broker
  delivered for this session, this tool and a local upstream.\<close>

theorem forwarded_headers:
  assumes "handleGateway srv env r st = Some (ex, st')" and "ex_response ex = UpstreamResponse q code"
  shows "clean_request srv (rv_upstream env) ex q"
proof -
  obtain ex0 ex1 where f: "keeps_identity ex ex0" "values_of (hr_headers (ex_request ex0)) idempotencyKeyHeader = []"
    "injectCredentials (rv_upstream env) ex0 = (True, ex1)" "q = prepare_request srv (ex_policy ex1) (ex_request ex1)"
    by (rule forwarded_request [OF assms]) (rule that)
  have "keeps_identity ex0 ex" using f(1) by (simp add: keeps_identity_def same_call_def)
  then have "brokered (rv_upstream env) ex0 hs = brokered (rv_upstream env) ex hs" for hs
    using brokered_keeps f(1) by blast
  then show ?thesis using prepare_request_clean [OF f(3,2)] f(1,4)
    by (simp add: clean_request_def keeps_identity_def same_call_def)
qed

theorem forwarded_headers_instance:
  "\<exists>ex st' q code. handleGateway sample_gateway sample_env (sample_call []) sample_state = Some (ex, st') \<and>
     ex_response ex = UpstreamResponse q code \<and> map fst (hr_headers q) = [''Authorization''] \<and>
     clean_request sample_gateway (rv_upstream sample_env) ex q"
proof -
  obtain ex st' q code where run: "handleGateway sample_gateway sample_env (sample_call []) sample_state = Some (ex, st')"
    "ex_response ex = UpstreamResponse q code" "map fst (hr_headers q) = [''Authorization'']"
    by (rule sample_result)
  show ?thesis
    by (intro exI [of _ ex] exI [of _ st'] exI [of _ q] exI [of _ code] conjI run forwarded_headers [OF run(1,2)])
qed

section \<open>Authentication\<close>

definition providers_ok :: "oauth_env \<Rightarrow> provider_cache \<Rightarrow> bool" where
  "providers_ok o_env cache \<longleftrightarrow>
     (\<forall>key p. cache key = Some p \<or> oe_others o_env cache key = Some p \<longrightarrow>
        provider_from (oe_get o_env) (oe_internal o_env) key p)"

text \<open>A token was verified for the policy's issuer and audience and names this subject.\<close>

definition verified_subject :: "oauth_env \<Rightarrow> document \<Rightarrow> header \<Rightarrow> gostring \<Rightarrow> bool" where
  "verified_subject o_env d h subject \<longleftrightarrow>
     (\<exists>a provider c. dc_auth d = Some a \<and>
        provider_from (oe_get o_env) (oe_internal o_env) (trim_space (au_issuer_url a), trim_space (au_audience a)) provider \<and>
        oe_verify o_env provider (extractToken (oauthTokenHeader (Some d)) (header_get h (oauthTokenHeader (Some d)))) =
          Some (subject, c))"

lemma authenticateOAuth_allowed:
  assumes "authenticateOAuthForSubjectTeam o_env h d team cache = (res, cache')" and "or_allowed res"
    and "providers_ok o_env cache"
  shows "verified_subject o_env d h (ic_human (or_identity res))"
proof -
  obtain a where a: "dc_auth d = Some a"
    using assms(1,2) by (auto simp: authenticateOAuthForSubjectTeam_def oauth_refused_def split: option.splits)
  let ?issuer = "trim_space (au_issuer_url a)" and ?aud = "trim_space (au_audience a)"
  let ?token = "extractToken (oauthTokenHeader (Some d)) (header_get h (oauthTokenHeader (Some d)))"
  obtain provider cache1 where p: "oauthProviderForIssuer (oe_parse o_env) (oe_get o_env) (oe_internal o_env) (oe_others o_env) ?issuer ?aud cache =
      (Inr provider, cache1)" and res: "res = verify_token o_env d team provider ?token"
    using assms(1,2)
    by (auto simp: authenticateOAuthForSubjectTeam_def a Let_def oauth_refused_def split: if_splits prod.splits sum.splits)
  have "provider_from (oe_get o_env) (oe_internal o_env) (trim_space ?issuer, ?aud) provider"
    using provider_from_metadata [OF p] assms(3) by (auto simp: providers_ok_def)
  moreover obtain subject c where "oe_verify o_env provider ?token = Some (subject, c)" "ic_human (or_identity res) = subject"
    using res assms(2)
    by (auto simp: verify_token_def oauth_refused_def token_identity_def split: option.splits prod.splits bool.splits)
  ultimately show ?thesis by (auto simp: verified_subject_def a)
qed

lemma attach_session_human:
  "attach_session env ex d sc st = Some (Continue, ex1, st1) \<Longrightarrow> ic_human (ex_identity ex1) = ic_human (ex_identity ex)"
  by (auto simp: attach_session_def Let_def split: prod.splits option.splits if_splits)

lemma mismatch_none: "certificateOAuthMismatch cert tok = [] \<Longrightarrow> ic_human tok = ic_human cert"
  by (auto simp: certificateOAuthMismatch_def split: if_splits)

lemma oauth_stage_verified:
  assumes "oauth_stage srv env ex d cert st = Some (Continue, ex1, st1)" and "PolicyUsesOAuth (ex_policy ex)"
    and "providers_ok (av_oauth env) (as_providers st)"
  shows "verified_subject (av_oauth env) d (hr_headers (ex_request ex)) (ic_human (ex_identity ex1))"
proof -
  obtain res cache' where o1: "authenticateOAuthForSubjectTeam (av_oauth env) (hr_headers (ex_request ex)) d
      (case cert of None \<Rightarrow> [] | Some idn \<Rightarrow> ic_team idn) (as_providers st) = (res, cache')" by force
  have "or_allowed res" using assms(1,2) o1 by (auto simp: oauth_stage_def Let_def split: if_splits)
  note v = authenticateOAuth_allowed [OF o1 this assms(3)]
  have "ic_human (ex_identity ex1) = ic_human (or_identity res)"
    using assms(1,2) o1 \<open>or_allowed res\<close>
    by (auto simp: oauth_stage_def Let_def split: if_splits option.splits dest: attach_session_human mismatch_none)
  with v show ?thesis by simp
qed

lemma certificate_stage_providers:
  "certificate_stage srv env ex d st = Some (c, st1) \<Longrightarrow> as_providers st1 = as_providers st"
  by (auto simp: certificate_stage_def split: if_splits option.splits)

lemma authFilter_verified:
  assumes "authFilter srv env ex st = Some (Continue, ex1, st1)" and "PolicyUsesOAuth (ex_policy ex)"
    and "providers_ok (av_oauth env) (as_providers st)"
  shows "\<exists>d. ex_policy ex = Some d \<and>
    verified_subject (av_oauth env) d (hr_headers (ex_request ex)) (ic_human (ex_identity ex1))"
proof -
  have "\<not> UsesDelegatedHeaders (ex_policy ex)" using assms(2) delegated_not_oauth by blast
  then obtain d cert st2 where "ex_policy ex = Some d" "certificate_stage srv env ex d st = Some (Inr cert, st2)"
    "oauth_stage srv env ex d cert st2 = Some (Continue, ex1, st1)"
    using assms(1) by (auto simp: authFilter_def split: option.splits sum.splits)
  with oauth_stage_verified [OF this(3) assms(2)] certificate_stage_providers assms(3) show ?thesis by auto
qed

text \<open>The state stage 3 runs in.\<close>

definition auth_time_state :: "request_env \<Rightarrow> gateway_state \<Rightarrow> gateway_state" where
  "auth_time_state env st = rv_others env 2 (rv_others env 1 (rv_others env 0 st))"

lemma passes_auth:
  assumes "passes srv env r st ex5 st5"
  obtains ex3 a where
    "authFilter srv (rv_auth env) (after_policy srv env r st) (gy_auth (auth_time_state env st)) = Some (Continue, ex3, a)"
    "ex_identity ex5 = ex_identity ex3" "ex_policy ex5 = ex_policy (after_policy srv env r st)"
proof -
  obtain ex3 a and st4 :: gateway_state where
    p: "authFilter srv (rv_auth env) (after_policy srv env r st) (gy_auth (auth_time_state env st)) = Some (Continue, ex3, a)"
      "authzFilter srv (rv_authz env) ex3 (gy_auth st4) = (Continue, ex5)"
    using assms unfolding passes_def auth_time_state_def by blast
  obtain d where "ex5 = ex3\<lparr>ex_decision := d\<rparr>" using authzFilter_done [OF p(2)] by auto
  moreover have "only_identity (after_policy srv env r st) ex3" using authFilter_done [OF p(1)] by simp
  ultimately show thesis using p(1) only_identity_sel(2) by (intro that) simp_all
qed

text \<open>C5: A server that uses OAuth forwards nothing unauthenticated, tool call or not: for every answered
  request the library verified the token in the policy's token header against keys that came from
  metadata of the policy's own issuer and for the policy's audience, and the identity the gateway
  acts for is that token's subject, also when an adapter's certificate was presented. The
  hypothesis, that every cached provider came from such metadata, is what every lookup keeps of the
  cache.\<close>

theorem oauth_requests_authenticated:
  assumes "handleGateway srv env r st = Some (ex, st')" and "answered ex" and "PolicyUsesOAuth (ex_policy ex)"
    and "providers_ok (av_oauth (rv_auth env)) (as_providers (gy_auth (auth_time_state env st)))"
  shows "\<exists>d. ex_policy ex = Some d \<and>
    verified_subject (av_oauth (rv_auth env)) d (hr_headers r) (ic_human (ex_identity ex))"
proof -
  obtain ex5 st5 where p: "passes srv env r st ex5 st5" and u: "after_upstream srv env ex5 st5 (ex, st')"
    using answered_passes [OF assms(1,2)] .
  obtain ex3 a where f: "authFilter srv (rv_auth env) (after_policy srv env r st) (gy_auth (auth_time_state env st)) = Some (Continue, ex3, a)"
    "ex_identity ex5 = ex_identity ex3" "ex_policy ex5 = ex_policy (after_policy srv env r st)"
    using passes_auth [OF p] .
  have keep: "ex_policy ex = ex_policy ex5" "ex_identity ex = ex_identity ex5"
    using after_upstream_keeps [OF u] by (simp_all add: keeps_identity_def same_call_def)
  then have "PolicyUsesOAuth (ex_policy (after_policy srv env r st))" using assms(3) f(3) by simp
  from authFilter_verified [OF f(1) this assms(4)] show ?thesis by (simp add: keep f)
qed

theorem oauth_requests_authenticated_instance:
  "\<exists>ex st' d. handleGateway sample_gateway sample_env (sample_call []) sample_state = Some (ex, st') \<and>
     ex_policy ex = Some d \<and>
     verified_subject (av_oauth (rv_auth sample_env)) d (hr_headers (sample_call [])) ''alice''"
proof -
  obtain ex st' where run: "handleGateway sample_gateway sample_env (sample_call []) sample_state = Some (ex, st')"
    "answered ex" "ic_human (ex_identity ex) = ''alice''" "PolicyUsesOAuth (ex_policy ex)"
    by (rule sample_result)
  have "providers_ok (av_oauth (rv_auth sample_env)) (as_providers (gy_auth (auth_time_state sample_env sample_state)))"
    by (simp add: providers_ok_def auth_time_state_def sample_env_def sample_state_def sample_oauth_def)
  from oauth_requests_authenticated [OF run(1,2,4) this] run(1,3) show ?thesis by auto
qed

section \<open>Certificates\<close>

text \<open>The session a replica serves, or the platform's answer to a lookup of one it lacks.\<close>

definition served_session ::
  "auth_env \<Rightarrow> gateway_sync option \<Rightarrow> gostring \<Rightarrow> gostring \<Rightarrow> binding \<Rightarrow> bool" where
  "served_session env repl ns name b \<longleftrightarrow>
     (\<exists>st row. repl = Some st \<and> fresh (av_sync_now env) repl \<and> b = se_binding row \<and>
        (case Option.bind (gw_sessions st) (\<lambda>m. m (session_key ns name)) of
           Some held \<Rightarrow> row = held
         | None \<Rightarrow> av_lookup env = Response 200 (Some row) \<and> owns (gw_server st) row))"

definition existing_session ::
  "auth_env \<Rightarrow> gateway_sync option \<Rightarrow> document \<Rightarrow> gostring \<Rightarrow> gostring \<Rightarrow> binding \<Rightarrow> bool" where
  "existing_session env repl d ns name b \<longleftrightarrow>
     bd_namespace b = ns \<and> bd_name b = name \<and>
     (if sessions_on_platform d then served_session env repl ns name b else b \<in> set (dc_sessions d))"

definition certified ::
  "gateway_server \<Rightarrow> auth_env \<Rightarrow> gateway_sync option \<Rightarrow> document \<Rightarrow> http_request \<Rightarrow> binding \<Rightarrow> bool" where
  "certified srv env repl d r b \<longleftrightarrow>
     (\<exists>a tls ns name. dc_auth d = Some a \<and> hr_tls r = Some tls \<and> ts_verified tls \<and>
        (trim_space (gv_trusted_proxy srv) = [] \<or>
         CertificateHasURI (ts_peer_uris tls) (trim_space (gv_trusted_proxy srv))) \<and>
        ParseSessionSPIFFE (av_parse_spiffe env) (trim_space (header_get (hr_headers r) (verifiedSPIFFEHeaderName srv)))
          (au_trust_domain a) = Some (ns, name) \<and>
        existing_session env repl d ns name b \<and>
        \<not> bd_revoked b \<and> \<not> mtlsBindingExpired (bd_expires_at b) (av_expiry_now env))"

lemma session_binding_served:
  assumes "session_binding ns name (av_lookup env) (av_sync_now env) repl = ((b, []), repl1)"
  obtains b' where "b = Some b'" "served_session env repl ns name b'"
  using assms
  by (auto simp: session_binding_def served_session_def getJSON_Inr
      split: option.splits if_splits prod.splits sum.splits)

lemma find_binding_live:
  assumes "find_binding now ns name bs = (idn, [])"
  shows "\<exists>b \<in> set bs. idn = bound_identity b \<and> bd_namespace b = ns \<and> bd_name b = name \<and> \<not> bd_revoked b \<and>
    \<not> mtlsBindingExpired (bd_expires_at b) now"
  using assms by (auto simp: find_binding_def find_Some_iff split: option.splits if_splits)

lemma adapter_session_live:
  assumes "adapter_session env d ns name repl = Some ((idn, []), repl1)"
  shows "\<exists>b. idn = bound_identity b \<and> existing_session env repl d ns name b \<and> \<not> bd_revoked b \<and>
    \<not> mtlsBindingExpired (bd_expires_at b) (av_expiry_now env)"
proof (cases "sessions_on_platform d")
  case True
  obtain b reason repl2 where s: "session_binding ns name (av_lookup env) (av_sync_now env) repl = ((b, reason), repl2)"
    by (metis prod.exhaust)
  then have reason: "reason = []" using assms True by (auto simp: adapter_session_def split: if_splits)
  then obtain b' where b: "b = Some b'" "served_session env repl ns name b'"
    using session_binding_served s by blast
  then have "find_binding (av_expiry_now env) ns name [b'] = (idn, [])"
    using assms True s reason by (simp add: adapter_session_def)
  from find_binding_live [OF this] b(2) True show ?thesis by (auto simp: existing_session_def)
next
  case False
  then have "find_binding (av_expiry_now env) ns name (dc_sessions d) = (idn, [])"
    using assms by (simp add: adapter_session_def)
  from find_binding_live [OF this] False show ?thesis by (auto simp: existing_session_def)
qed

lemma certificate_certified:
  assumes "authenticateAdapterCertificate srv env r d repl = Some ((idn, []), repl1)"
  shows "\<exists>b. idn = bound_identity b \<and> certified srv env repl d r b"
  using assms
  by (auto simp: authenticateAdapterCertificate_def certified_def Let_def
      split: option.splits if_splits prod.splits dest!: adapter_session_live)

lemma oauth_stage_certificate:
  "oauth_stage srv env ex d (Some idn) st = Some (Continue, ex1, st1) \<Longrightarrow> ex_identity ex1 = idn"
  by (auto simp: oauth_stage_def Let_def split: if_splits prod.splits)

text \<open>C6: On a server with a trust domain that does not delegate its headers, a request that presents an
  adapter's certificate is answered only if the connection is the ingress's verified one, with
  the pinned identity where one is configured, and the header parses to the namespace and name of
  a session that exists, is not revoked and has not expired: a session of the policy document, or,
  where the platform keeps the sessions, the one the gateway's fresh replica holds under that
  name or, if it holds none, the platform's answer to the lookup, of this very server. The
  identity the gateway acts for is that session's, whatever the bearer token says besides.\<close>

theorem certificate_binds_session:
  assumes "handleGateway srv env r st = Some (ex, st')" and "answered ex"
    and "ex_policy ex = Some d" and "presents_certificate srv r d" and "\<not> UsesDelegatedHeaders (Some d)"
  shows "\<exists>b. ex_identity ex = bound_identity b \<and>
    certified srv (rv_auth env) (as_sync (gy_auth (auth_time_state env st))) d r b"
proof -
  obtain ex5 st5 where p: "passes srv env r st ex5 st5" and u: "after_upstream srv env ex5 st5 (ex, st')"
    using answered_passes [OF assms(1,2)] .
  obtain ex3 a where f: "authFilter srv (rv_auth env) (after_policy srv env r st) (gy_auth (auth_time_state env st)) = Some (Continue, ex3, a)"
    "ex_identity ex5 = ex_identity ex3" "ex_policy ex5 = ex_policy (after_policy srv env r st)"
    using passes_auth [OF p] .
  have keep: "ex_policy ex = ex_policy ex5" "ex_identity ex = ex_identity ex5"
    using after_upstream_keeps [OF u] by (simp_all add: keeps_identity_def same_call_def)
  have pol: "ex_policy (after_policy srv env r st) = Some d" using assms(3) keep f(3) by simp
  then obtain cert st2 where c: "certificate_stage srv (rv_auth env) (after_policy srv env r st) d (gy_auth (auth_time_state env st)) = Some (Inr cert, st2)"
    "oauth_stage srv (rv_auth env) (after_policy srv env r st) d cert st2 = Some (Continue, ex3, a)"
    using f(1) assms(5) by (auto simp: authFilter_def split: option.splits sum.splits)
  from c(1) assms(4) obtain idn repl1 where
    "authenticateAdapterCertificate srv (rv_auth env) r d (as_sync (gy_auth (auth_time_state env st))) = Some ((idn, []), repl1)"
    "cert = Some idn"
    by (auto simp: certificate_stage_def split: option.splits if_splits)
  with certificate_certified [OF this(1)] oauth_stage_certificate c(2) show ?thesis by (auto simp: keep f(2))
qed

definition sample_cert_state :: gateway_state where
  "sample_cert_state = sample_state
     \<lparr>gy_policy := Some \<lparr>ps_policy = Some (sample_policy\<lparr>dc_sessions := [binding_zero
         \<lparr>bd_name := ''s1'', bd_namespace := ''team'', bd_human_id := ''alice''\<rparr>]\<rparr>),
       ps_revision = ''r1'', ps_loaded_at = 1, ps_err = None, ps_ready = True\<rparr>\<rparr>"

definition sample_cert_call :: http_request where
  "sample_cert_call = (sample_call [(''X-MCP-Verified-SPIFFE-ID'', [''spiffe://mesh/ns/team/session/s1''])])
     \<lparr>hr_tls := Some \<lparr>ts_verified = True, ts_peer_uris = Some [''spiffe://mesh/ingress'']\<rparr>\<rparr>"

lemma sample_cert_run:
  "case handleGateway sample_gateway sample_env sample_cert_call sample_cert_state of
     None \<Rightarrow> False
   | Some (ex, _) \<Rightarrow> answered ex \<and>
      (case ex_policy ex of None \<Rightarrow> False
       | Some d \<Rightarrow> presents_certificate sample_gateway sample_cert_call d \<and> \<not> UsesDelegatedHeaders (Some d) \<and>
           \<not> sessions_on_platform d)"
  by code_simp

theorem certificate_binds_session_instance:
  "\<exists>ex st' d b. handleGateway sample_gateway sample_env sample_cert_call sample_cert_state = Some (ex, st') \<and>
     ex_identity ex = bound_identity b \<and> b \<in> set (dc_sessions d) \<and>
     certified sample_gateway (rv_auth sample_env) (as_sync (gy_auth (auth_time_state sample_env sample_cert_state))) d
       sample_cert_call b"
proof -
  obtain ex st' d where run: "handleGateway sample_gateway sample_env sample_cert_call sample_cert_state = Some (ex, st')"
    "answered ex" "ex_policy ex = Some d" "presents_certificate sample_gateway sample_cert_call d"
    "\<not> UsesDelegatedHeaders (Some d)" "\<not> sessions_on_platform d"
    using sample_cert_run by (auto split: option.splits)
  from certificate_binds_session [OF run(1-5)] run(1,6) show ?thesis
    unfolding certified_def existing_session_def by (metis (no_types, lifting))
qed

section \<open>No panic\<close>

text \<open>C34: No request makes the gateway dereference a nil pointer, whatever its policy, headers, tokens,
  certificates and the replies of the platform: the pipeline always ends with an exchange.\<close>

theorem gateway_never_panics: "handleGateway srv env r st \<noteq> None"
proof -
  let ?s2 = "rv_others env 1 (rv_others env 0 st)"
  let ?run = "run_stages (rv_others env) 0 (buildPipeline srv env) (newExchange r (gv_policy_version srv)) st"
  have last: "run_stages others i [authz_stage srv env, upstream_stage srv env] ex s \<noteq> None" for others i ex s
  proof -
    obtain res ex1 where "authzFilter srv (rv_authz env) ex (gy_auth (others i s)) = (res, ex1)" by force
    then show ?thesis
      by (cases res) (simp_all add: authz_stage_def upstream_last split: prod.split del: run_stages.simps(2)
          add: run_stages.simps(2) [of _ _ "authz_stage srv env"])
  qed
  have "?run \<noteq> None"
  proof (cases rule: early_stages [where srv = srv and env = env and r = r and st = st])
    case (metadata ex1)
    then show ?thesis by (simp add: buildPipeline_def)
  next
    case further
    obtain res ex3 a where auth: "authFilter srv (rv_auth env) (after_policy srv env r st) (gy_auth (rv_others env 2 ?s2)) = Some (res, ex3, a)"
      using authFilter_defined [OF after_policy_sel(5)] by (metis option.exhaust prod.exhaust)
    have "?run = (if res = Continue then run_stages (rv_others env) 3 [authz_stage srv env, upstream_stage srv env] ex3
        ((rv_others env 2 ?s2)\<lparr>gy_auth := a\<rparr>) else Some (ex3, (rv_others env 2 ?s2)\<lparr>gy_auth := a\<rparr>))"
      using further auth by (cases res) (simp_all add: buildPipeline_def auth_stage_def numeral_3_eq_3)
    then show ?thesis using last by auto
  qed
  then show ?thesis by (simp add: handleGateway_def)
qed

section \<open>The audit trail\<close>

lemma note_outcome_allowed: "de_allowed (ex_decision (note_outcome out ex)) \<Longrightarrow> de_allowed (ex_decision ex)"
  by (auto simp: note_outcome_def Let_def split: if_splits)

lemma forwardUpstream_allowed:
  assumes "forwardUpstream srv env ex = (reply, ex1)" and "de_allowed (ex_decision ex1)"
  shows "answered ex1"
  using assms by (auto simp: forwardUpstream_def Let_def answered_def split: prod.splits bool.splits)

lemma allowed_is_answered:
  assumes "after_upstream srv env ex5 st5 (ex, st')" and "de_allowed (ex_decision ex)"
  shows "answered ex"
proof -
  obtain res ex6 s where up: "upstreamFilter srv (rv_upstream env) ex5 (gy_idem st5) = ((res, ex6), s)"
    and ex: "ex = default_decision_version srv ex6" using assms(1) by (auto simp: after_upstream_def)
  have "de_allowed (ex_decision ex6)" using assms(2) by (simp add: ex)
  then have "answered ex6"
    using upstreamFilter_cases [OF up]
    by (auto simp: told_refused_def forwards_def replay_reply_def answered_def dest!: forwardUpstream_allowed)
  then show ?thesis by (simp add: ex)
qed

definition audited :: "audit_payload \<Rightarrow> gostring \<Rightarrow> audit_value \<Rightarrow> bool" where
  "audited payload name v \<longleftrightarrow> map_of payload name = Some v"

lemma payload_fields:
  "audited (auditPayloadForExchange srv ex l b) ''decision''
     (AStr (if de_allowed (ex_decision ex) then ''allow'' else ''deny''))"
  "audited (auditPayloadForExchange srv ex l b) ''reason'' (AStr (de_reason (ex_decision ex)))"
  "audited (auditPayloadForExchange srv ex l b) ''human_id'' (AStr (ic_human (ex_identity ex)))"
  "audited (auditPayloadForExchange srv ex l b) ''status'' (AInt (written_status (ex_response ex)))"
  by (simp_all add: audited_def auditPayloadForExchange_def auditPayload_def Let_def map_add_def)

lemma handleGateway_inspection:
  assumes "handleGateway srv env r st = Some (ex, st')" and "\<not> isOAuthProtectedMetadataPath (hr_path r)"
  shows "same_call ex (after_policy srv env r st)" "answered ex \<or> \<not> de_allowed (ex_decision ex)"
proof -
  consider ex5 st5 where "passes srv env r st ex5 st5" "after_upstream srv env ex5 st5 (ex, st')"
    | "told_refused ex" "same_call ex (after_policy srv env r st)"
    using handleGateway_cases [OF assms(1)] assms(2) by auto
  then have "same_call ex (after_policy srv env r st) \<and> (answered ex \<or> \<not> de_allowed (ex_decision ex))"
  proof cases
    case (1 ex5 st5)
    obtain ex3 d where "only_identity (after_policy srv env r st) ex3" "ex5 = ex3\<lparr>ex_decision := d\<rparr>"
      using passes_authz [OF 1(1)] by metis
    then have "same_call ex5 (after_policy srv env r st)"
      using only_identity_same_call by (auto simp: same_call_def)
    with 1(2) after_upstream_keeps [OF 1(2)] allowed_is_answered [OF 1(2)] show ?thesis
      by (auto simp: keeps_identity_def same_call_def)
  next
    case 2
    then show ?thesis by (simp add: told_refused_def)
  qed
  then show "same_call ex (after_policy srv env r st)" "answered ex \<or> \<not> de_allowed (ex_decision ex)" by auto
qed

text \<open>C22: While the dispatcher of analytics runs (an ingest URL is set and it was not stopped), every
  request whose RPC method stage 1 could read leaves one audit record, unless it comes from the
  platform's own inventory agent or asks for the OAuth metadata: the record is put behind those
  that wait, or counted as dropped because 256 wait already. It carries the decision, its reason,
  the caller and the status, and it says \<open>allow\<close> only if the upstream or a stored reply answered,
  so that every refusal, by whichever stage, is on record as one. What the four workers do with
  the queue is not part of this; that JSON can encode a record of strings, numbers and booleans
  is a hypothesis.\<close>

theorem mcp_requests_audited:
  assumes "handleGateway srv env r st = Some (ex, st')" and "\<not> isOAuthProtectedMetadataPath (hr_path r)"
    and "in_method (inspectRPCRequest (rv_json env) r) \<noteq> []" and "ic_agent (ex_identity ex) \<noteq> inventory_agent"
    and "running disp" and "keep_running (ad_others aenv)" and "\<forall>payload. ad_marshal aenv payload \<noteq> None"
  shows "\<exists>payload raw out d d'.
    emitAuditFromExchange srv aenv ex disp = Some (out, d') \<and> running d \<and>
    ad_marshal aenv payload = Some raw \<and>
    recorded \<lparr>ev_source = ad_source aenv, ev_type = ad_event_type aenv, ev_payload = raw, ev_timestamp = ad_now aenv\<rparr>
      out d d' \<and>
    audited payload ''decision'' (AStr (if de_allowed (ex_decision ex) then ''allow'' else ''deny'')) \<and>
    audited payload ''reason'' (AStr (de_reason (ex_decision ex))) \<and>
    audited payload ''human_id'' (AStr (ic_human (ex_identity ex))) \<and>
    audited payload ''status'' (AInt (written_status (ex_response ex))) \<and>
    (de_allowed (ex_decision ex) \<longrightarrow> answered ex)"
proof -
  let ?payload = "auditPayloadForExchange srv ex (ad_latency aenv) (ad_bytes aenv)"
  note call = handleGateway_inspection [OF assms(1,2)]
  then have rpc: "\<not> ex_skip_audit ex" "in_method (ex_inspection ex) \<noteq> []" using assms(3) by (auto simp: same_call_def)
  obtain raw where raw: "ad_marshal aenv ?payload = Some raw" using assms(7) by blast
  let ?ev = "\<lparr>ev_source = ad_source aenv, ev_type = ad_event_type aenv, ev_payload = raw, ev_timestamp = ad_now aenv\<rparr>"
  have "emitAuditFromExchange srv aenv ex disp = emitIfEnabled (ad_others aenv) ?ev disp"
    using rpc assms(4) by (simp add: emitAuditFromExchange_def Let_def emitAuditPayload_def NewEnvelope_def raw)
  with emitIfEnabled_running [OF assms(5,6), of ?ev] obtain d out d' where
    "emitAuditFromExchange srv aenv ex disp = Some (out, d')" "running d" "recorded ?ev out d d'" by auto
  with raw call(2) payload_fields [of srv ex "ad_latency aenv" "ad_bytes aenv"] show ?thesis by blast
qed

definition sample_dispatcher :: dispatcher where
  "sample_dispatcher =
     \<lparr>dp_url = ''http://ingest'', dp_once = False, dp_closed = False, dp_queue_set = False, dp_channel = [],
      dp_channel_closed = False, dp_workers = 0, dp_dropped = 0\<rparr>"

definition sample_audit :: audit_env where
  "sample_audit =
     \<lparr>ad_marshal = (\<lambda>payload. Some (concat (map fst payload))), ad_source = ''mcp-gateway'', ad_event_type = ''mcp.request'',
      ad_now = 9, ad_latency = 3, ad_bytes = 17, ad_others = (\<lambda>_ s. s)\<rparr>"

theorem mcp_requests_audited_instance:
  "\<exists>ex st' payload raw d. handleGateway sample_gateway sample_env (sample_call []) sample_state = Some (ex, st') \<and>
     audited payload ''human_id'' (AStr ''alice'') \<and> ad_marshal sample_audit payload = Some raw \<and>
     emitAuditFromExchange sample_gateway sample_audit ex sample_dispatcher = Some (QueuedEvent, d) \<and>
     map ev_payload (dp_channel d) = [raw]"
proof -
  obtain ex st' where run: "handleGateway sample_gateway sample_env (sample_call []) sample_state = Some (ex, st')"
    "ic_human (ex_identity ex) = ''alice''" "ic_agent (ex_identity ex) = []"
    by (rule sample_result)
  have call: "\<not> isOAuthProtectedMetadataPath (hr_path (sample_call []))" "in_method (inspectRPCRequest (rv_json sample_env) (sample_call [])) \<noteq> []"
    by code_simp+
  have agent: "ic_agent (ex_identity ex) \<noteq> inventory_agent" using run(3) by (simp add: inventory_agent_def)
  have disp: "running sample_dispatcher" "keep_running (ad_others sample_audit)" "\<forall>p. ad_marshal sample_audit p \<noteq> None"
    by (simp_all add: running_def sample_dispatcher_def keep_running_def sample_audit_def)
  have queued: "out = QueuedEvent \<and> map ev_payload (dp_channel d') = [ev_payload ev]"
    if "emitAuditFromExchange sample_gateway sample_audit ex sample_dispatcher = Some (out, d')"
      "recorded ev out d d'" for ev out d d'
  proof -
    have "out = NotAudited \<or> out = QueuedEvent \<and> length (dp_channel d') = 1"
      using that(1)
      by (auto simp: emitAuditFromExchange_def Let_def emitAuditPayload_def NewEnvelope_def emitIfEnabled_def
          analyticsEventQueue_def send_event_def sample_audit_def sample_dispatcher_def startAnalyticsDispatcher_def
          analyticsQueueSize_def split: if_splits)
    with that(2) show ?thesis by (auto simp: recorded_def)
  qed
  from mcp_requests_audited [OF run(1) call agent disp] obtain payload raw out d d' where
    emitted: "emitAuditFromExchange sample_gateway sample_audit ex sample_dispatcher = Some (out, d')"
      "ad_marshal sample_audit payload = Some raw" "audited payload ''human_id'' (AStr (ic_human (ex_identity ex)))"
    and rec: "recorded \<lparr>ev_source = ad_source sample_audit, ev_type = ad_event_type sample_audit, ev_payload = raw,
        ev_timestamp = ad_now sample_audit\<rparr> out d d'" by blast
  from queued [OF emitted(1) rec] emitted run(1,2) show ?thesis by auto
qed

section \<open>Two spellings of one key\<close>

text \<open>A JSON body that stage 1 reads.\<close>

definition json_post :: "http_request \<Rightarrow> gostring \<Rightarrow> bool" where
  "json_post r data \<longleftrightarrow>
     hr_method r = ''POST'' \<and>
     (let content_type = to_lower (header_get (hr_headers r) ''content-type'')
      in content_type = [] \<or> contains_sub content_type ''application/json'') \<and>
     hr_body r = BodyBytes data \<and> data \<noteq> [] \<and> length data \<le> maxRPCBodyBytes \<and>
     hr_content_length r \<noteq> 0 \<and> hr_content_length r \<le> int maxRPCBodyBytes"

lemma inspect_json_post: "json_post r data \<Longrightarrow> inspectRPCRequest parse r = inspect_body parse data"
  by (auto simp: json_post_def inspectRPCRequest_def Let_def)

lemma string_field_append:
  "string_field name (ps @ qs) v = Option.bind (string_field name ps v) (string_field name qs)"
  by (induction name ps v rule: string_field.induct) (auto split: json.splits)

lemma string_field_absent: "\<forall>p \<in> set ps. \<not> equal_fold (fst p) name \<Longrightarrow> string_field name ps v = Some v"
  by (induction ps arbitrary: v) auto

lemma tool_call_read:
  assumes "string_field ''method'' ps [] = Some m" and "IsToolCallMethod m" and "data \<noteq> []"
    and "length data \<le> maxRPCBodyBytes"
  shows "in_tool_call (inspect_body (\<lambda>_. Some (JObject ps)) data)"
proof -
  have "trim_space m \<noteq> []" using assms(2) by (auto simp: IsToolCallMethod_def; code_simp)
  with assms show ?thesis by (simp add: inspect_body_def decode_rpc_request_def)
qed

lemma prepare_request_body: "hr_body (prepare_request srv p r) = hr_body r"
  by (simp add: prepare_request_def)

lemma injectCredentials_body: "injectCredentials env ex = (ok, ex1) \<Longrightarrow> hr_body (ex_request ex1) = hr_body (ex_request ex)"
  by (auto simp: injectCredentials_def strip_credentials_def Let_def split: option.splits if_splits)

text \<open>C35: The JSON decoder matches a key with the field \<open>method\<close> without regard to case, and the last
  match wins. Take any body that stage 1 reads as a tool call, and put one more pair anywhere
  behind its method, whose key is another spelling of \<open>method\<close> and whose value names another
  method: stage 1 now reads that method, stage 4 allows the request without asking the policy,
  whatever the policy, the identity and the sessions are, and if the request is forwarded, the upstream
  receives the body byte for byte, where a server that looks for the key \<open>method\<close> finds the tool
  call.\<close>

theorem case_variant_method_ungoverned:
  assumes "json_post r data" and "rv_json env data = Some (JObject (ps @ (key, JString m) # rest))"
    and "string_field ''method'' ps [] = Some call" and "IsToolCallMethod call"
    and "equal_fold key ''method''" and "\<forall>p \<in> set rest. \<not> equal_fold (fst p) ''method''"
    and "trim_space m \<noteq> []" and "\<not> IsToolCallMethod m"
  shows "in_tool_call (inspect_body (\<lambda>_. Some (JObject (ps @ rest))) data) \<and>
    in_method (inspectRPCRequest (rv_json env) r) = m \<and>
    (\<forall>ex a. ex_inspection ex = inspectRPCRequest (rv_json env) r \<longrightarrow>
       authzFilter srv (rv_authz env) ex a = (Continue, ex\<lparr>ex_decision := Allow ''allowed'' (exchange_version srv ex)\<rparr>)) \<and>
    (\<forall>st ex st' q code. handleGateway srv env r st = Some (ex, st') \<and> ex_response ex = UpstreamResponse q code \<longrightarrow>
       hr_body q = BodyBytes data)"
proof -
  have data: "data \<noteq> []" "length data \<le> maxRPCBodyBytes" "hr_body r = BodyBytes data"
    using assms(1) by (simp_all add: json_post_def)
  have "string_field ''method'' (ps @ rest) [] = Some call"
    by (simp add: string_field_append assms(3) string_field_absent [OF assms(6)])
  note alone = tool_call_read [OF this assms(4) data(1,2)]
  have "string_field ''method'' (ps @ (key, JString m) # rest) [] = Some m"
    by (simp add: string_field_append assms(3,5) string_field_absent [OF assms(6)])
  then have read: "in_method (inspectRPCRequest (rv_json env) r) = m" "\<not> in_tool_call (inspectRPCRequest (rv_json env) r)"
    "\<not> in_indeterminate (inspectRPCRequest (rv_json env) r)"
    using data assms(2,7,8)
    by (simp_all add: inspect_json_post [OF assms(1)] inspect_body_def decode_rpc_request_def inspection_zero_def)
  have "hr_body q = BodyBytes data"
    if run: "handleGateway srv env r st = Some (ex, st')" "ex_response ex = UpstreamResponse q code" for st ex st' q code
  proof -
    obtain ex0 ex1 where f: "injectCredentials (rv_upstream env) ex0 = (True, ex1)"
      "q = prepare_request srv (ex_policy ex1) (ex_request ex1)" "ex_request ex0 = r \<or> ex_request ex0 = without_key r"
      by (rule forwarded_request [OF run]) (rule that)
    then show ?thesis
      using injectCredentials_body [OF f(1)] data(3) by (auto simp: prepare_request_body without_key_def)
  qed
  with alone read show ?thesis by (auto simp: authzFilter_def governed_def)
qed

definition two_methods :: json where
  "two_methods = JObject ([(''params'', JObject [(''name'', JString ''search'')]), (''method'', JString ''tools/call'')] @
     (''METHOD'', JString ''ping'') # [(''id'', JNumber ''7'')])"

definition no_grants_state :: gateway_state where
  "no_grants_state = sample_state
     \<lparr>gy_policy := Some \<lparr>ps_policy = Some (sample_policy\<lparr>dc_grants := []\<rparr>),
       ps_revision = ''r1'', ps_loaded_at = 1, ps_err = None, ps_ready = True\<rparr>\<rparr>"

definition variant_env :: request_env where
  "variant_env = sample_env\<lparr>rv_json := \<lambda>_. Some two_methods\<rparr>"

lemma variant_run:
  "(case handleGateway sample_gateway sample_env (sample_call []) no_grants_state of
      None \<Rightarrow> False
    | Some (ex, _) \<Rightarrow> de_reason (ex_decision ex) = ''no_matching_grant'' \<and> \<not> answered ex)"
  "(case handleGateway sample_gateway variant_env (sample_call []) no_grants_state of
      None \<Rightarrow> False
    | Some (ex, _) \<Rightarrow> (case ex_response ex of UpstreamResponse q _ \<Rightarrow> True | _ \<Rightarrow> False))"
  by code_simp+

text \<open>Under a policy without any grant the tool call alone is refused, and its variant forwarded.\<close>

theorem case_variant_method_ungoverned_instance:
  "(\<exists>ex st'. handleGateway sample_gateway sample_env (sample_call []) no_grants_state = Some (ex, st') \<and>
      de_reason (ex_decision ex) = ''no_matching_grant'' \<and> \<not> answered ex) \<and>
   (\<exists>ex st' q code. handleGateway sample_gateway variant_env (sample_call []) no_grants_state = Some (ex, st') \<and>
      ex_response ex = UpstreamResponse q code \<and> hr_body q = BodyBytes ''{}'')"
proof -
  have post: "json_post (sample_call []) ''{}''" by (simp add: json_post_def sample_call_def maxRPCBodyBytes_def header_get_def
        values_of_def equal_fold_def to_lower_def to_lower_char_def)
  have body: "rv_json variant_env ''{}'' = Some (JObject ([(''params'', JObject [(''name'', JString ''search'')]),
      (''method'', JString ''tools/call'')] @ (''METHOD'', JString ''ping'') # [(''id'', JNumber ''7'')]))"
    by (simp add: variant_env_def two_methods_def)
  have keys: "string_field ''method'' [(''params'', JObject [(''name'', JString ''search'')]), (''method'', JString ''tools/call'')] [] =
      Some ''tools/call''" "IsToolCallMethod ''tools/call''" "equal_fold ''METHOD'' ''method''"
    "\<forall>p \<in> set [(''id'', JNumber ''7'')]. \<not> equal_fold (fst p) ''method''" "trim_space ''ping'' \<noteq> []" "\<not> IsToolCallMethod ''ping''"
    by code_simp+
  obtain ex st' q code where run: "handleGateway sample_gateway variant_env (sample_call []) no_grants_state = Some (ex, st')"
    "ex_response ex = UpstreamResponse q code"
    using variant_run(2) by (auto split: option.splits response.splits)
  from case_variant_method_ungoverned [OF post body keys] run have "hr_body q = BodyBytes ''{}''" by blast
  with run variant_run(1) show ?thesis by (auto split: option.splits)
qed

end
