(* ===== verification/ServerSpec.thy ===== *)
theory ServerSpec
  imports CredentialTypes PolicyTypes
begin

text \<open>
  The custom resources the platform is configured with (\<open>api/v1alpha1\<close>): \<open>MCPServer\<close> and
  \<open>MCPAccessGrant\<close>, the defaults the admission webhook and the operator apply
  (\<open>DefaultWithOptions\<close> in \<open>validation.go\<close>), the public URL of a server (\<open>public_url.go\<close>) and the
  OAuth settings derived from it (\<open>ResolveDerivedAuth\<close>).

  A pointer is an \<open>option\<close>, a nil and an empty slice are the empty list, a Go map is a list of
  pairs, an \<open>int32\<close> an \<open>int\<close> (nothing is computed with it). Fields that no modelled operation
  reads (resources, plain environment, prompts, status, \<dots>) are left out.
\<close>

section \<open>Objects\<close>

record object_meta =
  om_name :: gostring
  om_namespace :: namespace
  om_uid :: gostring
  om_annotations :: "(gostring \<times> gostring) list"
  om_creation :: time
  om_deletion :: "time option"

record secret_key_ref =
  kr_name :: gostring
  kr_key :: gostring

record credential_gateway_config =
  cg_validation_path :: gostring
  cg_secret_headers :: "gostring list"

record auth_config =
  ac_mode :: gostring
  ac_headers :: "gostring list"
  ac_credential_presence :: gostring
  ac_token_header :: gostring
  ac_issuer_url :: gostring
  ac_scopes :: "gostring list"
  ac_audience :: gostring
  ac_credential_gateway :: "credential_gateway_config option"

record delegated_rule_spec =
  ds_name :: gostring
  ds_decision :: gostring

record policy_config =
  pc_mode :: gostring
  pc_default_decision :: gostring
  pc_enforce_on :: gostring
  pc_policy_version :: gostring
  pc_delegated_tool_rules :: "delegated_rule_spec list"
  pc_max_side_effect :: gostring

record session_spec =
  ss_required :: bool
  ss_store :: gostring
  ss_max_lifetime :: gostring
  ss_idle_timeout :: gostring
  ss_upstream_token_header :: gostring

record gateway_spec =
  gx_enabled :: "bool option"
  gx_port :: int
  gx_upstream_url :: gostring
  gx_strip_prefix :: gostring

record analytics_config =
  an_disabled :: bool
  an_ingest_url :: gostring
  an_source :: gostring
  an_event_type :: gostring
  an_api_key_ref :: "secret_key_ref option"

record rollout_config =
  ro_strategy :: gostring
  ro_max_unavailable :: gostring
  ro_max_surge :: gostring
  ro_canary_replicas :: "int option"

record tool_config =
  tc_name :: gostring
  tc_description :: gostring
  tc_required_trust :: gostring
  tc_side_effect :: gostring
  tc_risk_level :: gostring
  tc_labels :: "(gostring \<times> gostring) list"

record secret_env_var =
  ev_name :: gostring
  ev_ref :: "secret_key_ref option"

record server_spec =
  ms_credential_bindings :: "gostring list"
  ms_team_id :: gostring
  ms_image :: gostring
  ms_image_tag :: gostring
  ms_replicas :: "int option"
  ms_port :: int
  ms_service_port :: int
  ms_ingress_path :: gostring
  ms_ingress_host :: gostring
  ms_public_path_prefix :: gostring
  ms_ingress_class :: gostring
  ms_ingress_annotations :: "(gostring \<times> gostring) list"
  ms_secret_env_vars :: "secret_env_var list"
  ms_tools :: "tool_config list"
  ms_auth :: "auth_config option"
  ms_policy :: "policy_config option"
  ms_session :: "session_spec option"
  ms_gateway :: "gateway_spec option"
  ms_analytics :: "analytics_config option"
  ms_rollout :: "rollout_config option"

record mcp_server =
  mo_meta :: object_meta
  mo_spec :: server_spec

record server_reference =
  rf_name :: gostring
  rf_namespace :: namespace

record subject_ref =
  sj_human_id :: gostring
  sj_agent_id :: gostring
  sj_team_id :: gostring

record tool_rule =
  ru_name :: gostring
  ru_decision :: gostring
  ru_required_trust :: gostring

record grant_spec =
  gn_server_ref :: server_reference
  gn_subject :: subject_ref
  gn_mode :: gostring
  gn_max_trust :: gostring
  gn_allowed_side_effects :: "gostring list"
  gn_policy_version :: gostring
  gn_disabled :: bool
  gn_expires_at :: "time option"
  gn_tool_rules :: "tool_rule list"

record access_grant =
  ag_meta :: object_meta
  ag_spec :: grant_spec

definition annotation :: "object_meta \<Rightarrow> gostring \<Rightarrow> gostring" where
  "annotation m key = (case map_of (om_annotations m) key of None \<Rightarrow> [] | Some v \<Rightarrow> v)"

definition retiring_annotation :: gostring where
  "retiring_annotation = ''mcpruntime.org/retiring''"

definition server_uid_annotation :: gostring where
  "server_uid_annotation = ''mcpruntime.org/server-uid''"

section \<open>Predicates on the spec\<close>

definition GatewayIsEnabled :: "gateway_spec option \<Rightarrow> bool" where
  "GatewayIsEnabled g =
     (case g of None \<Rightarrow> True | Some x \<Rightarrow> (case gx_enabled x of None \<Rightarrow> True | Some e \<Rightarrow> e))"

definition AuthUsesHeaderMode :: "auth_config option \<Rightarrow> bool" where
  "AuthUsesHeaderMode a = (case a of None \<Rightarrow> False | Some x \<Rightarrow> equal_fold (trim_space (ac_mode x)) ''header'')"

text \<open>\<open>strings.LastIndex\<close> of a byte; an absent one is before every position.\<close>

definition last_index :: "char \<Rightarrow> gostring \<Rightarrow> int" where
  "last_index c s =
     (if List.member s c then int (length s) - 1 - int (length (takeWhile (\<lambda>x. x \<noteq> c) (rev s))) else -1)"

definition imageHasTagOrDigest :: "gostring \<Rightarrow> bool" where
  "imageHasTagOrDigest img \<longleftrightarrow>
     List.member img (CHR ''@'') \<or> last_index (CHR ''/'') img < last_index (CHR '':'') img"

section \<open>Defaults\<close>

text \<open>Decimal numbers, the \<open>%d\<close> of \<open>fmt\<close>.\<close>

fun show_nat :: "nat \<Rightarrow> gostring" where
  "show_nat n = (if n < 10 then [char_of (48 + n)] else show_nat (n div 10) @ [char_of (48 + n mod 10)])"

declare show_nat.simps [simp del]

definition show_int :: "int \<Rightarrow> gostring" where
  "show_int i = (if i < 0 then CHR ''-'' # show_nat (nat (- i)) else show_nat (nat i))"

text \<open>A field that is blank gets its default.\<close>

definition fill :: "gostring \<Rightarrow> gostring \<Rightarrow> gostring" where
  "fill v d = (if trim_space v = [] then d else v)"

record default_options =
  do_ingress_host :: gostring
  do_ingress_tls :: bool
  do_ingest_url :: gostring
  do_oauth_issuer :: gostring

definition gateway_zero :: gateway_spec where
  "gateway_zero = \<lparr>gx_enabled = None, gx_port = 0, gx_upstream_url = [], gx_strip_prefix = []\<rparr>"

definition analytics_zero :: analytics_config where
  "analytics_zero =
     \<lparr>an_disabled = False, an_ingest_url = [], an_source = [], an_event_type = [], an_api_key_ref = None\<rparr>"

definition defaultIngressPathFromName :: "gostring \<Rightarrow> gostring" where
  "defaultIngressPathFromName name =
     (if trim_space name = [] then [] else ''/'' @ trim_space name @ ''/mcp'')"

definition default_routing :: "default_options \<Rightarrow> gostring \<Rightarrow> server_spec \<Rightarrow> server_spec" where
  "default_routing opts name sp =
     (let host_unset = (trim_space (ms_ingress_host sp) = []);
          prefix_unset = (trim_space (ms_public_path_prefix sp) = [])
      in sp\<lparr>
        ms_image_tag :=
          (if trim_space (ms_image_tag sp) = [] \<and> \<not> imageHasTagOrDigest (trim_space (ms_image sp))
           then ''latest'' else ms_image_tag sp),
        ms_replicas := (case ms_replicas sp of None \<Rightarrow> Some 1 | Some n \<Rightarrow> Some n),
        ms_port := (if ms_port sp = 0 then 8088 else ms_port sp),
        ms_service_port := (if ms_service_port sp = 0 then 80 else ms_service_port sp),
        ms_ingress_path := fill (ms_ingress_path sp) (defaultIngressPathFromName name),
        ms_public_path_prefix := fill (ms_public_path_prefix sp) (trim_space name),
        ms_ingress_class := fill (ms_ingress_class sp) ''traefik'',
        ms_ingress_host :=
          (if host_unset \<and> prefix_unset then trim_space (do_ingress_host opts) else ms_ingress_host sp)\<rparr>)"

text \<open>The gateway is enabled unless the spec opts out; enabled, it gets a port and an upstream.\<close>

definition default_gateway :: "int \<Rightarrow> gateway_spec option \<Rightarrow> gateway_spec" where
  "default_gateway port g =
     (let g0 = (case g of None \<Rightarrow> gateway_zero | Some x \<Rightarrow> x);
          g1 = (case gx_enabled g0 of None \<Rightarrow> g0\<lparr>gx_enabled := Some True\<rparr> | Some _ \<Rightarrow> g0)
      in if GatewayIsEnabled (Some g1)
         then g1\<lparr>gx_port := (if gx_port g1 = 0 then 8091 else gx_port g1),
                 gx_upstream_url := fill (gx_upstream_url g1) (''http://127.0.0.1:'' @ show_int port)\<rparr>
         else g1)"

definition default_auth :: "auth_config option \<Rightarrow> auth_config option" where
  "default_auth a =
     (case a of
        None \<Rightarrow> None
      | Some x \<Rightarrow>
          if AuthUsesHeaderMode a
          then Some (x\<lparr>ac_credential_presence := fill (ac_credential_presence x) ''any''\<rparr>)
          else Some (x\<lparr>ac_token_header := fill (ac_token_header x) ''Authorization''\<rparr>))"

definition header_policy :: policy_config where
  "header_policy =
     \<lparr>pc_mode = ''allow-list'', pc_default_decision = ''deny'', pc_enforce_on = ''call_tool'',
      pc_policy_version = ''v1'', pc_delegated_tool_rules = [], pc_max_side_effect = []\<rparr>"

definition fill_policy :: "policy_config \<Rightarrow> policy_config" where
  "fill_policy c =
     c\<lparr>pc_mode := fill (pc_mode c) ''allow-list'',
       pc_default_decision := fill (pc_default_decision c) ''deny'',
       pc_enforce_on := fill (pc_enforce_on c) ''call_tool'',
       pc_policy_version := fill (pc_policy_version c) ''v1''\<rparr>"

definition default_policy :: "auth_config option \<Rightarrow> policy_config option \<Rightarrow> policy_config option" where
  "default_policy a p =
     map_option fill_policy
       (case p of None \<Rightarrow> if AuthUsesHeaderMode a then Some header_policy else None | Some c \<Rightarrow> Some c)"

definition fill_session :: "session_spec \<Rightarrow> session_spec" where
  "fill_session s =
     s\<lparr>ss_store := fill (ss_store s) ''kubernetes'',
       ss_max_lifetime := fill (ss_max_lifetime s) ''24h'',
       ss_idle_timeout := fill (ss_idle_timeout s) ''1h'',
       ss_upstream_token_header := fill (ss_upstream_token_header s) ''Authorization''\<rparr>"

definition fill_tool :: "tool_config \<Rightarrow> tool_config" where
  "fill_tool t = t\<lparr>tc_required_trust := fill (tc_required_trust t) ''low''\<rparr>"

definition default_analytics ::
  "default_options \<Rightarrow> gostring \<Rightarrow> bool \<Rightarrow> analytics_config option \<Rightarrow> analytics_config option" where
  "default_analytics opts name enabled a =
     (let a1 = (case a of
                  None \<Rightarrow> if enabled \<and> trim_space (do_ingest_url opts) \<noteq> [] then Some analytics_zero else None
                | Some x \<Rightarrow> Some x)
      in case a1 of
           None \<Rightarrow> None
         | Some x \<Rightarrow>
             if an_disabled x then Some x
             else Some (x\<lparr>an_source := fill (an_source x) (trim_space name @ ''-gateway''),
                          an_event_type := fill (an_event_type x) ''mcp.request'',
                          an_ingest_url :=
                            (if trim_space (an_ingest_url x) = [] \<and> trim_space (do_ingest_url opts) \<noteq> []
                             then trim_space (do_ingest_url opts) else an_ingest_url x)\<rparr>))"

definition fill_rollout :: "rollout_config \<Rightarrow> rollout_config" where
  "fill_rollout r =
     r\<lparr>ro_strategy := fill (ro_strategy r) ''RollingUpdate'',
       ro_max_unavailable := fill (ro_max_unavailable r) ''25%'',
       ro_max_surge := fill (ro_max_surge r) ''25%''\<rparr>"

definition DefaultWithOptions :: "default_options \<Rightarrow> mcp_server \<Rightarrow> mcp_server" where
  "DefaultWithOptions opts s =
     (let name = om_name (mo_meta s);
          sp = default_routing opts name (mo_spec s);
          g = default_gateway (ms_port sp) (ms_gateway sp)
      in s\<lparr>mo_spec := sp\<lparr>
           ms_gateway := Some g,
           ms_auth := default_auth (ms_auth sp),
           ms_policy := default_policy (ms_auth sp) (ms_policy sp),
           ms_session := map_option fill_session (ms_session sp),
           ms_tools := map fill_tool (ms_tools sp),
           ms_analytics := default_analytics opts name (GatewayIsEnabled (Some g)) (ms_analytics sp),
           ms_rollout := map_option fill_rollout (ms_rollout sp)\<rparr>\<rparr>)"

section \<open>The public URL\<close>

text \<open>\<open>path.Clean\<close> of a rooted path: empty and \<open>.\<close> elements go, \<open>..\<close> drops the element before it.\<close>

definition clean_element :: "gostring \<Rightarrow> gostring list \<Rightarrow> gostring list" where
  "clean_element e acc =
     (if e = [] \<or> e = ''.'' then acc
      else if e = ''..'' then (if acc = [] then [] else butlast acc)
      else acc @ [e])"

definition cleanURLPath :: "gostring \<Rightarrow> gostring" where
  "cleanURLPath v =
     (let parts = fold clean_element (split_on (CHR ''/'') v) []
      in if parts = [] then ''/'' else concat (map (\<lambda>p. CHR ''/'' # p) parts))"

definition EffectivePublicPath :: "server_spec \<Rightarrow> gostring" where
  "EffectivePublicPath sp =
     (let pfx = trim_char (CHR ''/'') (trim_space (ms_public_path_prefix sp))
      in if pfx = [] then ms_ingress_path sp else ''/'' @ pfx @ ''/mcp'')"

definition PublicIngressUsesTLS :: "server_spec \<Rightarrow> bool \<Rightarrow> bool" where
  "PublicIngressUsesTLS sp defaultTLS \<longleftrightarrow>
     defaultTLS \<or>
     list_ex (\<lambda>(k, v). equal_fold (trim_space k) ''traefik.ingress.kubernetes.io/router.tls'' \<and>
                equal_fold (trim_space v) ''true'') (ms_ingress_annotations sp)"

definition PublicBaseURL :: "default_options \<Rightarrow> server_spec \<Rightarrow> gostring" where
  "PublicBaseURL opts sp =
     (let own = trim_space (ms_ingress_host sp);
          host = (if own = [] then trim_space (do_ingress_host opts) else own)
      in if host = [] then []
         else (if PublicIngressUsesTLS sp (do_ingress_tls opts) then ''https'' else ''http'') @ ''://'' @ host)"

definition CanonicalResourceURL :: "default_options \<Rightarrow> server_spec \<Rightarrow> gostring" where
  "CanonicalResourceURL opts sp =
     (let base = PublicBaseURL opts sp; p = trim_space (EffectivePublicPath sp)
      in if base = [] \<or> p = [] then [] else base @ cleanURLPath p)"

definition ResolveDerivedAuth :: "default_options \<Rightarrow> mcp_server \<Rightarrow> mcp_server" where
  "ResolveDerivedAuth opts s =
     (case ms_auth (mo_spec s) of
        None \<Rightarrow> s
      | Some a \<Rightarrow>
          if AuthUsesHeaderMode (Some a) then s
          else
            (let a1 = a\<lparr>ac_issuer_url :=
                         (if trim_space (ac_issuer_url a) = [] then trim_space (do_oauth_issuer opts)
                          else ac_issuer_url a)\<rparr>;
                 a2 = a1\<lparr>ac_audience :=
                          (if trim_space (ac_audience a1) = [] then CanonicalResourceURL opts (mo_spec s)
                           else ac_audience a1)\<rparr>
             in s\<lparr>mo_spec := (mo_spec s)\<lparr>ms_auth := Some a2\<rparr>\<rparr>))"

text \<open>The operator's copy of a server on every reconcile.\<close>

definition defaultedMCPServerForReconcile :: "default_options \<Rightarrow> mcp_server \<Rightarrow> mcp_server" where
  "defaultedMCPServerForReconcile opts s = ResolveDerivedAuth opts (DefaultWithOptions opts s)"

section \<open>Defaulting settles\<close>

lemma fill_fill [simp]: "fill (fill v d) d = fill v d"
  by (simp add: fill_def)

lemma fill_nonblank: "trim_space d \<noteq> [] \<Longrightarrow> trim_space (fill v d) \<noteq> []"
  by (simp add: fill_def)

lemma AuthUsesHeaderMode_default [simp]: "AuthUsesHeaderMode (default_auth a) = AuthUsesHeaderMode a"
  by (cases a) (simp_all add: default_auth_def AuthUsesHeaderMode_def)

lemma default_auth_idem: "default_auth (default_auth a) = default_auth a"
  by (cases a) (simp_all add: default_auth_def AuthUsesHeaderMode_def)

lemma fill_policy_idem [simp]: "fill_policy (fill_policy c) = fill_policy c"
  by (simp add: fill_policy_def)

lemma default_policy_idem: "default_policy (default_auth a) (default_policy a p) = default_policy a p"
  by (cases p) (simp_all add: default_policy_def)

lemma fill_session_idem [simp]: "fill_session (fill_session s) = fill_session s"
  by (simp add: fill_session_def)

lemma fill_rollout_idem [simp]: "fill_rollout (fill_rollout s) = fill_rollout s"
  by (simp add: fill_rollout_def)

lemma fill_tool_idem [simp]: "fill_tool (fill_tool t) = fill_tool t"
  by (simp add: fill_tool_def)

lemma default_gateway_idem: "default_gateway port (Some (default_gateway port g)) = default_gateway port g"
  by (cases g; cases "gx_enabled (the g)") (simp_all add: default_gateway_def Let_def GatewayIsEnabled_def gateway_zero_def)

lemma default_analytics_idem:
  "default_analytics opts name enabled (default_analytics opts name enabled a) = default_analytics opts name enabled a"
proof (cases a)
  case None
  then show ?thesis by (simp add: default_analytics_def analytics_zero_def trim_space_idem)
next
  case (Some x)
  then show ?thesis by (simp add: default_analytics_def trim_space_idem)
qed

lemma default_routing_idem:
  "default_routing opts name (default_routing opts name sp) = default_routing opts name sp"
  by (simp add: default_routing_def Let_def fill_def split: option.splits)

lemma default_routing_sel [simp]:
  "ms_gateway (default_routing opts name sp) = ms_gateway sp"
  "ms_auth (default_routing opts name sp) = ms_auth sp"
  "ms_policy (default_routing opts name sp) = ms_policy sp"
  "ms_session (default_routing opts name sp) = ms_session sp"
  "ms_tools (default_routing opts name sp) = ms_tools sp"
  "ms_analytics (default_routing opts name sp) = ms_analytics sp"
  "ms_rollout (default_routing opts name sp) = ms_rollout sp"
  "ms_team_id (default_routing opts name sp) = ms_team_id sp"
  "ms_credential_bindings (default_routing opts name sp) = ms_credential_bindings sp"
  by (simp_all add: default_routing_def Let_def)

lemma default_routing_update:
  "default_routing opts name (sp\<lparr>ms_gateway := g, ms_auth := a, ms_policy := p, ms_session := s,
     ms_tools := t, ms_analytics := n, ms_rollout := r\<rparr>) =
   (default_routing opts name sp)\<lparr>ms_gateway := g, ms_auth := a, ms_policy := p, ms_session := s,
     ms_tools := t, ms_analytics := n, ms_rollout := r\<rparr>"
  by (simp add: default_routing_def Let_def)

lemma DefaultWithOptions_meta [simp]: "mo_meta (DefaultWithOptions opts s) = mo_meta s"
  by (simp add: DefaultWithOptions_def Let_def)

lemma DefaultWithOptions_idem: "DefaultWithOptions opts (DefaultWithOptions opts s) = DefaultWithOptions opts s"
proof -
  have comp: "map_option fill_session \<circ> map_option fill_session = map_option fill_session"
    "map_option fill_rollout \<circ> map_option fill_rollout = map_option fill_rollout"
    by (auto simp: fun_eq_iff option.map_comp o_def)
  show ?thesis
    by (simp add: DefaultWithOptions_def Let_def default_routing_update default_routing_idem default_gateway_idem
        default_auth_idem default_policy_idem default_analytics_idem option.map_comp o_def)
qed

end
