(* ===== verification/Admission.thy ===== *)
theory Admission
  imports ServerSpec PolicyValidate
begin

text \<open>
  What the admission webhook and the operator accept: \<open>MCPServer.validate\<close>, \<open>validateHeaderAuth\<close>
  and \<open>ValidateResolvedAuth\<close> (\<open>api/v1alpha1/validation.go\<close>), the shared contract of grants and
  sessions (\<open>pkg/access/specvalidation\<close>) as admission uses it (\<open>access_validation.go\<close>), and the
  settings of the bundled credential gateway (\<open>pkg/credentialheaders/gateway.go\<close>).

  A Go \<open>field.ErrorList\<close> is the list of its errors in order, one constructor per kind with the
  index of the element; the wording and the echoed value are left out. \<open>url.Parse\<close> appears as
  two parameters, one per set of fields the callers read.
\<close>

section \<open>The credential gateway\<close>

datatype gateway_header_error =
    GatewayPathInvalid
  | GatewayHeaderName header_error
  | GatewayHeaderOwned gostring
  | GatewaySecretUnknown gostring
  | GatewaySecretDuplicate gostring

definition gatewayOwned :: "gostring list" where
  "gatewayOwned = [''via'', ''accept-encoding'', ''last-event-id'']"

definition secretHeaderHints :: "gostring list" where
  "secretHeaderHints = [''token'', ''password'', ''secret'', ''key'', ''pat'', ''auth'', ''credential'']"

definition GatewayFieldName :: "nat \<Rightarrow> gostring" where
  "GatewayFieldName index = ''header'' @ show_nat (index + 1)"

definition sameHeader :: "gostring \<Rightarrow> gostring \<Rightarrow> bool" where
  "sameHeader a b \<longleftrightarrow> equal_fold (trim_space a) (trim_space b)"

definition IsSecretHeader :: "gostring \<Rightarrow> gostring list \<Rightarrow> bool" where
  "IsSecretHeader h secrets =
     (if secrets \<noteq> [] then list_ex (\<lambda>s. sameHeader s h) secrets
      else list_ex (\<lambda>hint. contains_sub (to_lower h) hint) secretHeaderHints)"

definition ValidateGatewayHeader :: "gostring \<Rightarrow> gateway_header_error option" where
  "ValidateGatewayHeader name =
     (case ValidateName name of
        Some e \<Rightarrow> Some (GatewayHeaderName e)
      | None \<Rightarrow>
          if List.member gatewayOwned (to_lower name) \<or> has_prefix (to_lower name) ''sec-''
          then Some (GatewayHeaderOwned name) else None)"

text \<open>\<open>True\<close> when the value may be injected.\<close>

definition ValidateInjectedValue :: "gostring \<Rightarrow> bool" where
  "ValidateInjectedValue v \<longleftrightarrow>
     v \<noteq> [] \<and> length v \<le> 8192 \<and> v = trim_space v \<and>
     list_all (\<lambda>c. (CHR 0x20 \<le> c \<or> c = CHR 0x09) \<and> c < CHR 0x7F) v"

definition validation_path_char :: "char \<Rightarrow> bool" where
  "validation_path_char c \<longleftrightarrow> is_alnum c \<or> List.member ''._~/-'' c"

definition MaxValidationPath :: nat where
  "MaxValidationPath = 128"

definition validation_path_ok :: "gostring \<Rightarrow> bool" where
  "validation_path_ok p \<longleftrightarrow>
     length p \<le> MaxValidationPath \<and> has_prefix p ''/'' \<and> list_all validation_path_char p \<and>
     \<not> contains_sub p ''//'' \<and> \<not> contains_sub p ''..''"

definition ValidateGateway ::
  "gostring \<Rightarrow> gostring list \<Rightarrow> gostring list \<Rightarrow> gateway_header_error option" where
  "ValidateGateway path secrets headers =
     (if \<not> validation_path_ok path then Some GatewayPathInvalid
      else
        (case List.find (\<lambda>e. e \<noteq> None) (map ValidateGatewayHeader headers) of
           Some e \<Rightarrow> e
         | None \<Rightarrow>
             validate_loop
               (\<lambda>_ s. check (List.member (map to_lower headers) (to_lower (trim_space s))) (GatewaySecretUnknown s))
               (\<lambda>s. to_lower (trim_space s)) GatewaySecretDuplicate (\<lambda>_ _. None) 0 [] secrets))"

section \<open>Errors of admission\<close>

datatype admission_error =
    AdUpstreamLocal
  | AdBindingsPolicy
  | AdBindingName
  | AdImage
  | AdTeamSpace
  | AdTeamLong
  | AdPathPrefix
  | AdIngressPath
  | AdIngressHost
  | AdGatewayPort
  | AdHeaderOAuth
  | AdHeaders header_error
  | AdPresence header_error
  | AdCredentialGateway gateway_header_error
  | AdHeaderSession
  | AdHeaderMode
  | AdHeaderDecision
  | AdRuleName nat
  | AdRuleDuplicate nat
  | AdRuleDecision nat
  | AdRuleTool nat
  | AdMaxSideEffect
  | AdCredentialGatewayMode
  | AdScope nat
  | AdAudience
  | AdDelegatedRules
  | AdAnalyticsGateway
  | AdCanaryReplicas
  | AdReplicas
  | AdCanaryTooMany
  | AdMaxUnavailable
  | AdMaxSurge
  | AdApiKeyName
  | AdApiKeyKey
  | AdToolName nat
  | AdToolSideEffectRequired nat
  | AdToolSideEffect nat
  | AdToolDuplicate nat
  | AdEnvName nat
  | AdEnvRef nat
  | AdEnvSecretName nat
  | AdEnvSecretKey nat
  | AdIssuerRequired
  | AdAudienceRequired

text \<open>One check of a list of checks: an error when the condition holds.\<close>

definition fails :: "bool \<Rightarrow> 'e \<Rightarrow> 'e list" where
  "fails bad e = (if bad then [e] else [])"

lemma fails_Nil [simp]: "fails bad e = [] \<longleftrightarrow> \<not> bad"
  by (simp add: fails_def)

section \<open>Header mode\<close>

definition known_tools :: "tool_config list \<Rightarrow> gostring \<rightharpoonup> gostring" where
  "known_tools tools = map_of (rev (map (\<lambda>t. (to_lower (tc_name t), tc_side_effect t)) tools))"

fun delegated_rule_errors ::
  "(gostring \<rightharpoonup> gostring) \<Rightarrow> nat \<Rightarrow> gostring list \<Rightarrow> delegated_rule_spec list \<Rightarrow> admission_error list" where
  "delegated_rule_errors known i seen [] = []"
| "delegated_rule_errors known i seen (r # rs) =
     (let name = trim_space (ds_name r); key = to_lower name in
      if name = [] then AdRuleName i # delegated_rule_errors known (Suc i) seen rs
      else
        fails (List.member seen key) (AdRuleDuplicate i) @
        fails (ds_decision r \<noteq> ''allow'' \<and> ds_decision r \<noteq> ''deny'') (AdRuleDecision i) @
        fails (case known key of None \<Rightarrow> True | Some s \<Rightarrow> trim_space s = []) (AdRuleTool i) @
        delegated_rule_errors known (Suc i) (key # seen) rs)"

definition header_policy_errors :: "tool_config list \<Rightarrow> policy_config \<Rightarrow> admission_error list" where
  "header_policy_errors tools p =
     fails (pc_mode p \<noteq> [] \<and> pc_mode p \<noteq> ''allow-list'') AdHeaderMode @
     fails (pc_default_decision p \<noteq> [] \<and> pc_default_decision p \<noteq> ''deny'') AdHeaderDecision @
     delegated_rule_errors (known_tools tools) 0 [] (pc_delegated_tool_rules p) @
     fails (\<not> List.member ['''', ''read'', ''write'', ''destructive''] (pc_max_side_effect p)) AdMaxSideEffect"

definition validateHeaderAuth ::
  "auth_config \<Rightarrow> policy_config option \<Rightarrow> session_spec option \<Rightarrow> tool_config list \<Rightarrow> admission_error list" where
  "validateHeaderAuth a policy session tools =
     fails (trim_space (ac_token_header a) \<noteq> [] \<or> trim_space (ac_issuer_url a) \<noteq> [] \<or>
            trim_space (ac_audience a) \<noteq> [] \<or> ac_scopes a \<noteq> []) AdHeaderOAuth @
     (case NormalizeNames (ac_headers a) of Some e \<Rightarrow> [AdHeaders e] | None \<Rightarrow> []) @
     (case NormalizePresence (ac_credential_presence a) of Inl e \<Rightarrow> [AdPresence e] | Inr _ \<Rightarrow> []) @
     (case ac_credential_gateway a of
        None \<Rightarrow> []
      | Some g \<Rightarrow>
          (case ValidateGateway (cg_validation_path g) (cg_secret_headers g) (ac_headers a) of
             Some e \<Rightarrow> [AdCredentialGateway e] | None \<Rightarrow> [])) @
     fails (session \<noteq> None) AdHeaderSession @
     (case policy of None \<Rightarrow> [] | Some p \<Rightarrow> header_policy_errors tools p)"

section \<open>Server specs\<close>

definition ValidSideEffect :: "gostring \<Rightarrow> bool" where
  "ValidSideEffect v \<longleftrightarrow> v = ''read'' \<or> v = ''write'' \<or> v = ''destructive''"

datatype team_id_error = TeamIDSpace | TeamIDLong

definition TeamIDField :: "gostring \<Rightarrow> team_id_error option" where
  "TeamIDField v =
     (let t = trim_space v in
      if t = [] then None
      else if t \<noteq> v \<or> contains_any t [CHR '' '', CHR 0x09, CHR 0x0D, CHR 0x0A] then Some TeamIDSpace
      else if 128 < length t then Some TeamIDLong
      else None)"

text \<open>\<open>strconv.Atoi\<close>: an optional sign and digits, in the range of 64 bits.\<close>

definition atoi :: "gostring \<Rightarrow> int option" where
  "atoi s =
     (let neg = has_prefix s ''-''; ds = (if neg \<or> has_prefix s ''+'' then tl s else s)
      in if nonempty_in is_digit ds
         then (let v = (if neg then -1 else 1) * int (fold (\<lambda>c n. 10 * n + (of_char c - 48)) ds 0)
               in if - (2 ^ 63) \<le> v \<and> v < 2 ^ 63 then Some v else None)
         else None)"

definition trim_suffix :: "gostring \<Rightarrow> gostring \<Rightarrow> gostring" where
  "trim_suffix s p = (if has_suffix s p then take (length s - length p) s else s)"

text \<open>\<open>True\<close> when the value is accepted.\<close>

definition validateRolloutValue :: "gostring \<Rightarrow> bool" where
  "validateRolloutValue v =
     (let t = trim_space v; numeric = trim_suffix t ''%'' in
      if t = [] then True
      else if numeric = [] \<or> contains_sub numeric ''%'' then False
      else (case atoi numeric of None \<Rightarrow> False | Some n \<Rightarrow> 0 \<le> n))"

fun binding_name_errors :: "gostring list \<Rightarrow> gostring list \<Rightarrow> admission_error list" where
  "binding_name_errors seen [] = []"
| "binding_name_errors seen (n # ns) =
     fails (\<not> NameValid n \<or> List.member seen n) AdBindingName @ binding_name_errors (n # seen) ns"

definition bindings_errors :: "(gostring \<Rightarrow> local_url option) \<Rightarrow> server_spec \<Rightarrow> admission_error list" where
  "bindings_errors parse_local sp =
     (if ms_credential_bindings sp = [] then []
      else
        fails (case ms_gateway sp of None \<Rightarrow> False
               | Some g \<Rightarrow> gx_upstream_url g \<noteq> [] \<and>
                   \<not> (0 \<le> ms_port sp \<and> LocalUpstream (parse_local (gx_upstream_url g)) (nat (ms_port sp)))) AdUpstreamLocal @
        fails (16 < length (ms_credential_bindings sp) \<or> \<not> GatewayIsEnabled (ms_gateway sp) \<or>
               AuthUsesHeaderMode (ms_auth sp) \<or>
               (case ms_policy sp of None \<Rightarrow> True
                | Some p \<Rightarrow> pc_mode p \<noteq> ''allow-list'' \<or> pc_default_decision p \<noteq> ''deny'')) AdBindingsPolicy @
        binding_name_errors [] (ms_credential_bindings sp))"

definition team_errors :: "gostring \<Rightarrow> admission_error list" where
  "team_errors team =
     (case TeamIDField team of
        None \<Rightarrow> [] | Some TeamIDSpace \<Rightarrow> [AdTeamSpace] | Some TeamIDLong \<Rightarrow> [AdTeamLong])"

definition routing_errors :: "server_spec \<Rightarrow> admission_error list" where
  "routing_errors sp =
     (let pfx = trim_space (ms_public_path_prefix sp) in
      fails (trim_space (ms_image sp) = []) AdImage @
      team_errors (ms_team_id sp) @
      fails (pfx \<noteq> [] \<and> trim_char (CHR ''/'') pfx = []) AdPathPrefix @
      fails (pfx = [] \<and> trim_space (ms_ingress_path sp) = []) AdIngressPath @
      fails (pfx = [] \<and> trim_space (ms_ingress_host sp) = []) AdIngressHost @
      fails (GatewayIsEnabled (ms_gateway sp) \<and>
             (case ms_gateway sp of None \<Rightarrow> False | Some g \<Rightarrow> gx_port g = ms_port sp)) AdGatewayPort)"

fun scope_errors :: "nat \<Rightarrow> gostring list \<Rightarrow> gostring list \<Rightarrow> admission_error list" where
  "scope_errors i seen [] = []"
| "scope_errors i seen (s # ss) =
     fails (s = [] \<or> trim_space s \<noteq> s \<or>
            contains_any s [CHR '' '', CHR 0x09, CHR 0x0D, CHR 0x0A, CHR 0x22, CHR 0x5C] \<or>
            List.member seen s) (AdScope i) @
     scope_errors (Suc i) (s # seen) ss"

definition auth_errors :: "url_parser \<Rightarrow> server_spec \<Rightarrow> auth_config \<Rightarrow> admission_error list" where
  "auth_errors parse_url sp a =
     (if AuthUsesHeaderMode (Some a) then validateHeaderAuth a (ms_policy sp) (ms_session sp) (ms_tools sp)
      else fails (ac_credential_gateway a \<noteq> None) AdCredentialGatewayMode) @
     scope_errors 0 [] (ac_scopes a) @
     (let aud = trim_space (ac_audience a) in
      if aud = [] then []
      else fails (case parse_url aud of None \<Rightarrow> True
                  | Some (scheme, host, fragment) \<Rightarrow> scheme = [] \<or> host = [] \<or> fragment \<noteq> []) AdAudience)"

definition delegated_errors :: "server_spec \<Rightarrow> admission_error list" where
  "delegated_errors sp =
     fails (\<not> AuthUsesHeaderMode (ms_auth sp) \<and>
            (case ms_policy sp of None \<Rightarrow> False
             | Some p \<Rightarrow> pc_delegated_tool_rules p \<noteq> [] \<or> pc_max_side_effect p \<noteq> [])) AdDelegatedRules"

definition analytics_errors :: "server_spec \<Rightarrow> admission_error list" where
  "analytics_errors sp =
     fails (\<not> GatewayIsEnabled (ms_gateway sp) \<and>
            (case ms_analytics sp of None \<Rightarrow> False
             | Some x \<Rightarrow> \<not> an_disabled x \<and>
                 (trim_space (an_ingest_url x) \<noteq> [] \<or> trim_space (an_source x) \<noteq> [] \<or>
                  trim_space (an_event_type x) \<noteq> [] \<or> an_api_key_ref x \<noteq> None))) AdAnalyticsGateway"

definition canary_errors :: "server_spec \<Rightarrow> rollout_config \<Rightarrow> admission_error list" where
  "canary_errors sp r =
     (if ro_strategy r \<noteq> ''Canary'' then []
      else
        fails (case ro_canary_replicas r of None \<Rightarrow> True | Some n \<Rightarrow> n \<le> 0) AdCanaryReplicas @
        fails (ms_replicas sp = None) AdReplicas @
        fails (case (ms_replicas sp, ro_canary_replicas r) of
                 (Some n, Some k) \<Rightarrow> n \<le> k | _ \<Rightarrow> False) AdCanaryTooMany)"

definition rollout_errors :: "server_spec \<Rightarrow> admission_error list" where
  "rollout_errors sp =
     (case ms_rollout sp of
        None \<Rightarrow> []
      | Some r \<Rightarrow>
          canary_errors sp r @
          fails (\<not> validateRolloutValue (ro_max_unavailable r)) AdMaxUnavailable @
          fails (\<not> validateRolloutValue (ro_max_surge r)) AdMaxSurge)"

definition api_key_errors :: "server_spec \<Rightarrow> admission_error list" where
  "api_key_errors sp =
     (case ms_analytics sp of
        None \<Rightarrow> []
      | Some x \<Rightarrow>
          if an_disabled x then []
          else (case an_api_key_ref x of
                  None \<Rightarrow> []
                | Some k \<Rightarrow> fails (trim_space (kr_name k) = []) AdApiKeyName @
                            fails (trim_space (kr_key k) = []) AdApiKeyKey))"

fun tool_errors :: "nat \<Rightarrow> gostring list \<Rightarrow> tool_config list \<Rightarrow> admission_error list" where
  "tool_errors i seen [] = []"
| "tool_errors i seen (t # ts) =
     (if trim_space (tc_name t) = [] then AdToolName i # tool_errors (Suc i) seen ts
      else
        fails (trim_space (tc_side_effect t) = []) (AdToolSideEffectRequired i) @
        fails (tc_side_effect t \<noteq> [] \<and> \<not> ValidSideEffect (tc_side_effect t)) (AdToolSideEffect i) @
        fails (List.member seen (tc_name t)) (AdToolDuplicate i) @
        tool_errors (Suc i) (tc_name t # seen) ts)"

fun env_errors :: "nat \<Rightarrow> secret_env_var list \<Rightarrow> admission_error list" where
  "env_errors i [] = []"
| "env_errors i (e # es) =
     fails (trim_space (ev_name e) = []) (AdEnvName i) @
     (case ev_ref e of
        None \<Rightarrow> [AdEnvRef i]
      | Some k \<Rightarrow> fails (trim_space (kr_name k) = []) (AdEnvSecretName i) @
                  fails (trim_space (kr_key k) = []) (AdEnvSecretKey i)) @
     env_errors (Suc i) es"

text \<open>All errors of a spec, in the order the code appends them.\<close>

definition validate_spec ::
  "url_parser \<Rightarrow> (gostring \<Rightarrow> local_url option) \<Rightarrow> server_spec \<Rightarrow> admission_error list" where
  "validate_spec parse_url parse_local sp =
     bindings_errors parse_local sp @ routing_errors sp @
     (case ms_auth sp of None \<Rightarrow> [] | Some a \<Rightarrow> auth_errors parse_url sp a) @
     delegated_errors sp @ analytics_errors sp @ rollout_errors sp @ api_key_errors sp @
     tool_errors 0 [] (ms_tools sp) @ env_errors 0 (ms_secret_env_vars sp)"

definition ValidateResolvedAuth :: "server_spec \<Rightarrow> admission_error list" where
  "ValidateResolvedAuth sp =
     (case ms_auth sp of
        None \<Rightarrow> []
      | Some a \<Rightarrow>
          if AuthUsesHeaderMode (Some a) then []
          else fails (GatewayIsEnabled (ms_gateway sp) \<and> trim_space (ac_issuer_url a) = []) AdIssuerRequired @
               fails (trim_space (ac_audience a) = []) AdAudienceRequired)"

section \<open>Grants and sessions\<close>

datatype boundary = AdmissionBoundary | ApplyBoundary

record subject_input =
  si_human_id :: gostring
  si_agent_id :: gostring
  si_team_id :: gostring

record rule_input =
  ri_name :: gostring
  ri_decision :: gostring
  ri_required_trust :: gostring

record grant_input =
  gi_server_name :: gostring
  gi_subject :: subject_input
  gi_mode :: "gostring option"
  gi_max_trust :: gostring
  gi_expires_at :: "time option"
  gi_allowed_side_effects :: "gostring list"
  gi_tool_rules :: "rule_input list"

record session_input =
  sx_server_name :: gostring
  sx_subject :: subject_input
  sx_consented_trust :: gostring
  sx_secret_ref :: "secret_key_ref option"

datatype spec_error =
    SpecServerName
  | SpecSubject
  | SpecTeam team_id_error
  | SpecMode
  | SpecMaxTrust
  | SpecExpired
  | SpecNoSideEffect
  | SpecSideEffectRequired nat
  | SpecSideEffect nat
  | SpecSideEffectDuplicate nat
  | SpecRuleName nat
  | SpecRuleDecision nat
  | SpecRuleTrust nat
  | SpecRuleDecisionRequired nat
  | SpecRuleDuplicate nat
  | SpecConsentedTrust
  | SpecSecretName
  | SpecSecretKey

definition ValidTrust :: "gostring \<Rightarrow> bool" where
  "ValidTrust v \<longleftrightarrow> v = ''low'' \<or> v = ''medium'' \<or> v = ''high''"

definition ValidDecision :: "gostring \<Rightarrow> bool" where
  "ValidDecision v \<longleftrightarrow> v = ''allow'' \<or> v = ''deny''"

definition ModeError :: "gostring option \<Rightarrow> boundary \<Rightarrow> bool" where
  "ModeError mode b =
     (case mode of
        None \<Rightarrow> False
      | Some m \<Rightarrow> \<not> ((m = [] \<and> b = AdmissionBoundary) \<or> m = ''enforce'' \<or> m = ''monitor''))"

definition validateSubject :: "subject_input \<Rightarrow> bool \<Rightarrow> spec_error list" where
  "validateSubject s required =
     fails (required \<and> trim_space (si_human_id s) = [] \<and> trim_space (si_agent_id s) = [] \<and>
            trim_space (si_team_id s) = []) SpecSubject @
     (case TeamIDField (si_team_id s) of None \<Rightarrow> [] | Some e \<Rightarrow> [SpecTeam e])"

fun side_effect_errors :: "nat \<Rightarrow> gostring list \<Rightarrow> gostring list \<Rightarrow> spec_error list" where
  "side_effect_errors i seen [] = []"
| "side_effect_errors i seen (e # es) =
     (if trim_space e = [] then SpecSideEffectRequired i # side_effect_errors (Suc i) seen es
      else if \<not> ValidSideEffect e then SpecSideEffect i # side_effect_errors (Suc i) seen es
      else fails (List.member seen e) (SpecSideEffectDuplicate i) @ side_effect_errors (Suc i) (e # seen) es)"

fun rule_errors :: "boundary \<Rightarrow> nat \<Rightarrow> gostring list \<Rightarrow> rule_input list \<Rightarrow> spec_error list" where
  "rule_errors b i seen [] = []"
| "rule_errors b i seen (r # rs) =
     (if trim_space (ri_name r) = [] then SpecRuleName i # rule_errors b (Suc i) seen rs
      else
        (if b = ApplyBoundary then
           fails (\<not> ValidDecision (ri_decision r)) (SpecRuleDecision i) @
           fails (ri_required_trust r \<noteq> [] \<and> \<not> ValidTrust (ri_required_trust r)) (SpecRuleTrust i)
         else
           fails (trim_space (ri_decision r) = []) (SpecRuleDecisionRequired i) @
           fails (List.member seen (ri_name r)) (SpecRuleDuplicate i)) @
        rule_errors b (Suc i) (ri_name r # seen) rs)"

definition ValidateGrant :: "grant_input \<Rightarrow> boundary \<Rightarrow> time \<Rightarrow> spec_error list" where
  "ValidateGrant g b now =
     fails (trim_space (gi_server_name g) = []) SpecServerName @
     validateSubject (gi_subject g) (b = ApplyBoundary) @
     fails (ModeError (gi_mode g) b) SpecMode @
     (if b = ApplyBoundary then
        fails (gi_max_trust g \<noteq> [] \<and> \<not> ValidTrust (gi_max_trust g)) SpecMaxTrust @
        fails (case gi_expires_at g of None \<Rightarrow> False | Some t \<Rightarrow> \<not> now < t) SpecExpired @
        fails (gi_allowed_side_effects g = []) SpecNoSideEffect
      else []) @
     side_effect_errors 0 [] (gi_allowed_side_effects g) @
     rule_errors b 0 [] (gi_tool_rules g)"

definition ValidateSession :: "session_input \<Rightarrow> boundary \<Rightarrow> spec_error list" where
  "ValidateSession s b =
     fails (trim_space (sx_server_name s) = []) SpecServerName @
     validateSubject (sx_subject s) True @
     fails (b = ApplyBoundary \<and> sx_consented_trust s \<noteq> [] \<and> \<not> ValidTrust (sx_consented_trust s))
       SpecConsentedTrust @
     (case sx_secret_ref s of
        None \<Rightarrow> []
      | Some k \<Rightarrow>
          if b = AdmissionBoundary
          then fails (trim_space (kr_name k) = []) SpecSecretName @ fails (trim_space (kr_key k) = []) SpecSecretKey
          else [])"

text \<open>\<open>MCPAccessGrant.validate\<close>: the object's spec at the admission boundary.\<close>

definition grant_as_input :: "grant_spec \<Rightarrow> grant_input" where
  "grant_as_input g =
     \<lparr>gi_server_name = rf_name (gn_server_ref g),
      gi_subject = \<lparr>si_human_id = sj_human_id (gn_subject g), si_agent_id = sj_agent_id (gn_subject g),
                    si_team_id = sj_team_id (gn_subject g)\<rparr>,
      gi_mode = (if gn_mode g \<noteq> [] then Some (gn_mode g) else None),
      gi_max_trust = gn_max_trust g, gi_expires_at = gn_expires_at g,
      gi_allowed_side_effects = gn_allowed_side_effects g,
      gi_tool_rules = map (\<lambda>r. \<lparr>ri_name = ru_name r, ri_decision = ru_decision r,
                              ri_required_trust = ru_required_trust r\<rparr>) (gn_tool_rules g)\<rparr>"

definition validate_grant :: "access_grant \<Rightarrow> spec_error list" where
  "validate_grant g = ValidateGrant (grant_as_input (ag_spec g)) AdmissionBoundary zero_time"

end
