(* ===== verification/OperatorPolicy.thy ===== *)
theory OperatorPolicy
  imports Admission PolicyCache
begin

text \<open>
  How the operator turns an \<open>MCPServer\<close> and the access grants of the cluster into the policy the
  server's gateway reads (\<open>internal/operator/policy.go\<close>, \<open>grant_index.go\<close>, the part of \<open>mtls.go\<close>
  that decides about adapter certificates, and the checks of \<open>controller.go\<close> before it).

  The Kubernetes API is a parameter: the objects it lists, which of its calls fail, and the
  config map it holds are arguments. \<open>encode\<close> is the indented JSON of a document and \<open>decode\<close> its
  inverse. The clock is an argument.
\<close>

section \<open>Configuration\<close>

record operator_config =
  op_cluster_name :: gostring
  op_trust_domain :: gostring
  op_certificates :: bool
  op_mtls_issuer :: gostring
  op_defaults :: default_options

definition usesAdapterCertificates :: "operator_config \<Rightarrow> server_spec \<Rightarrow> bool" where
  "usesAdapterCertificates op sp =
     (if AuthUsesHeaderMode (ms_auth sp) then False
      else if \<not> op_certificates op \<or> \<not> GatewayIsEnabled (ms_gateway sp) then False
      else if trim_space (ms_ingress_class sp) \<noteq> [] \<and> trim_space (ms_ingress_class sp) \<noteq> ''traefik'' then False
      else trim_space (op_trust_domain op) \<noteq> [] \<and> trim_space (op_mtls_issuer op) \<noteq> [])"

section \<open>References\<close>

definition effectiveServerReference :: "namespace \<Rightarrow> server_reference \<Rightarrow> namespace \<times> gostring" where
  "effectiveServerReference ns ref =
     (let n = trim_space (rf_namespace ref) in (if n = [] then ns else n, rf_name ref))"

definition targetServerKey :: "namespace \<Rightarrow> gostring \<Rightarrow> gostring" where
  "targetServerKey ns name = ns @ ''/'' @ name"

definition grantTargetServerKeys :: "access_grant \<Rightarrow> gostring list" where
  "grantTargetServerKeys g =
     (if rf_name (gn_server_ref (ag_spec g)) = [] then []
      else (let (ns, name) = effectiveServerReference (om_namespace (ag_meta g)) (gn_server_ref (ag_spec g))
            in [targetServerKey ns name]))"

definition serverReferenceMatches :: "namespace \<Rightarrow> server_reference \<Rightarrow> mcp_server \<Rightarrow> bool" where
  "serverReferenceMatches ns ref s \<longleftrightarrow>
     effectiveServerReference ns ref = (om_namespace (mo_meta s), om_name (mo_meta s))"

definition subjectTeamIDForServer :: "gostring \<Rightarrow> gostring \<Rightarrow> gostring" where
  "subjectTeamIDForServer server_team subject_team =
     (if trim_space subject_team = [] then trim_space server_team else trim_space subject_team)"

definition defaultTrust :: "gostring \<Rightarrow> gostring" where
  "defaultTrust t = (if t = [] then ''low'' else t)"

definition defaultDecision :: "gostring \<Rightarrow> gostring" where
  "defaultDecision d = (if d = [] then ''allow'' else d)"

section \<open>Rendering\<close>

definition render_auth :: "operator_config \<Rightarrow> server_spec \<Rightarrow> auth option" where
  "render_auth op sp =
     (if AuthUsesHeaderMode (ms_auth sp) then
        map_option (\<lambda>a. \<lparr>au_mode = ''header'', au_headers = ac_headers a,
          au_credential_presence = ac_credential_presence a, au_token_header = [], au_issuer_url = [],
          au_audience = [], au_scopes = [], au_trust_domain = []\<rparr>) (ms_auth sp)
      else if ms_auth sp \<noteq> None \<or> usesAdapterCertificates op sp then
        (let base = \<lparr>au_mode = [], au_headers = [], au_credential_presence = [], au_token_header = [],
               au_issuer_url = [], au_audience = [], au_scopes = [], au_trust_domain = trim_space (op_trust_domain op)\<rparr>
         in case ms_auth sp of
              None \<Rightarrow> Some base
            | Some a \<Rightarrow> Some (base\<lparr>au_token_header := ac_token_header a, au_issuer_url := ac_issuer_url a,
                au_audience := ac_audience a, au_scopes := ac_scopes a\<rparr>))
      else None)"

definition render_config :: "server_spec \<Rightarrow> config" where
  "render_config sp =
     (case ms_policy sp of
        Some p \<Rightarrow>
          \<lparr>cf_mode = pc_mode p, cf_default_decision = pc_default_decision p, cf_enforce_on = pc_enforce_on p,
           cf_policy_version = pc_policy_version p,
           cf_delegated_tool_rules =
             map (\<lambda>r. \<lparr>dr_name = ds_name r, dr_decision = ds_decision r\<rparr>) (pc_delegated_tool_rules p),
           cf_max_side_effect = pc_max_side_effect p\<rparr>
      | None \<Rightarrow>
          if AuthUsesHeaderMode (ms_auth sp)
          then config_zero\<lparr>cf_mode := ''allow-list'', cf_default_decision := ''deny'',
                 cf_enforce_on := ''call_tool'', cf_policy_version := ''v1''\<rparr>
          else config_zero\<lparr>cf_mode := ''observe'', cf_default_decision := ''allow'',
                 cf_enforce_on := ''call_tool'', cf_policy_version := ''v1''\<rparr>)"

definition render_session :: "session_spec \<Rightarrow> session_config" where
  "render_session s =
     \<lparr>sc_required = ss_required s, sc_store = ss_store s, sc_max_lifetime = ss_max_lifetime s,
      sc_idle_timeout = ss_idle_timeout s, sc_upstream_token_header = ss_upstream_token_header s\<rparr>"

definition render_tool :: "tool_config \<Rightarrow> tool" where
  "render_tool t =
     \<lparr>tl_name = tc_name t, tl_description = tc_description t, tl_required_trust = tc_required_trust t,
      tl_side_effect = tc_side_effect t, tl_risk_level = tc_risk_level t, tl_labels = tc_labels t\<rparr>"

definition render_rule :: "tool_rule \<Rightarrow> tool_access" where
  "render_rule r =
     \<lparr>ta_name = ru_name r, ta_decision = defaultDecision (ru_decision r),
      ta_required_trust = defaultTrust (ru_required_trust r)\<rparr>"

definition render_grant :: "gostring \<Rightarrow> access_grant \<Rightarrow> grant" where
  "render_grant server_team g =
     (let sp = ag_spec g in
      \<lparr>gr_name = om_name (ag_meta g), gr_mode = gn_mode sp, gr_namespace = om_namespace (ag_meta g),
       gr_human_id = sj_human_id (gn_subject sp), gr_agent_id = sj_agent_id (gn_subject sp),
       gr_team_id = subjectTeamIDForServer server_team (sj_team_id (gn_subject sp)),
       gr_max_trust = defaultTrust (gn_max_trust sp),
       gr_allowed_side_effects = gn_allowed_side_effects sp,
       gr_policy_version = gn_policy_version sp, gr_disabled = gn_disabled sp,
       gr_expires_at = (case gn_expires_at sp of None \<Rightarrow> [] | Some t \<Rightarrow> format_rfc3339 t),
       gr_tool_rules = map render_rule (gn_tool_rules sp)\<rparr>)"

text \<open>The grants the index returns for the server, and which of them the loop keeps.\<close>

definition indexed_grants :: "mcp_server \<Rightarrow> access_grant list \<Rightarrow> access_grant list" where
  "indexed_grants s gs =
     filter (\<lambda>g. List.member (grantTargetServerKeys g)
               (targetServerKey (om_namespace (mo_meta s)) (om_name (mo_meta s)))) gs"

definition grant_applies :: "mcp_server \<Rightarrow> access_grant \<Rightarrow> bool" where
  "grant_applies s g =
     (let uid = annotation (ag_meta g) server_uid_annotation in
      if annotation (mo_meta s) retiring_annotation = ''true'' then False
      else if uid \<noteq> [] \<and> uid \<noteq> om_uid (mo_meta s) then False
      else serverReferenceMatches (om_namespace (ag_meta g)) (gn_server_ref (ag_spec g)) s)"

definition platform_session :: "mcp_server \<Rightarrow> session_config option \<Rightarrow> session_config option" where
  "platform_session s session =
     (if AuthUsesHeaderMode (ms_auth (mo_spec s)) \<or> om_uid (mo_meta s) = [] then session
      else
        (let base = (case session of None \<Rightarrow> session_config_zero | Some c \<Rightarrow> c)\<lparr>sc_store := ''platform''\<rparr>
         in Some (if ms_credential_bindings (mo_spec s) \<noteq> [] then base\<lparr>sc_required := True\<rparr> else base)))"

datatype render_error = RenderListFailed | RenderHeaderIdentity | RenderStamp policy_error

definition render_document :: "operator_config \<Rightarrow> mcp_server \<Rightarrow> access_grant list \<Rightarrow> document" where
  "render_document op s gs =
     (let sp = mo_spec s; team = trim_space (ms_team_id sp) in
      document_zero
        \<lparr>dc_credential_bindings := ms_credential_bindings sp,
         dc_server := \<lparr>sv_uid = om_uid (mo_meta s), sv_name = om_name (mo_meta s),
                       sv_namespace = om_namespace (mo_meta s), sv_team_id = team,
                       sv_cluster = trim_space (op_cluster_name op)\<rparr>,
         dc_auth := render_auth op sp,
         dc_policy := Some (render_config sp),
         dc_session := platform_session s (map_option render_session (ms_session sp)),
         dc_tools := map render_tool (ms_tools sp),
         dc_grants := map (render_grant team) (filter (grant_applies s) (indexed_grants s gs))\<rparr>)"

text \<open>\<open>listed\<close> is what the API lists, \<^term>\<open>None\<close> when the call fails.\<close>

definition renderGatewayPolicy ::
  "(document \<Rightarrow> gostring) \<Rightarrow> operator_config \<Rightarrow> mcp_server \<Rightarrow> access_grant list option
    \<Rightarrow> render_error + document" where
  "renderGatewayPolicy digest op s listed =
     (case listed of
        None \<Rightarrow> Inl RenderListFailed
      | Some gs \<Rightarrow>
          (let d = render_document op s gs
           in if AuthUsesHeaderMode (ms_auth (mo_spec s)) \<and> (dc_grants d \<noteq> [] \<or> dc_session d \<noteq> None)
              then Inl RenderHeaderIdentity
              else (case Stamp digest (Some d) [] of Inl e \<Rightarrow> Inl (RenderStamp e) | Inr stamped \<Rightarrow> Inr stamped)))"

section \<open>The config map\<close>

definition maxGatewayPolicyBytes :: nat where
  "maxGatewayPolicyBytes = 716800"

text \<open>The stored payload whose revision is current, as the current schema writes it.\<close>

definition kept_payload ::
  "(document \<Rightarrow> gostring) \<Rightarrow> (document \<Rightarrow> gostring) \<Rightarrow> (gostring \<Rightarrow> document option) \<Rightarrow> gostring \<Rightarrow> document
    \<Rightarrow> gostring option" where
  "kept_payload digest encode decode existing d =
     (if existing = [] then None
      else
        (case decode existing of
           None \<Rightarrow> None
         | Some prev \<Rightarrow>
             if dc_revision prev \<noteq> [] \<and> dc_revision prev = dc_revision d \<and>
                ComputeRevision digest (Some prev) = Inr (dc_revision prev)
             then (let normalized = encode prev in Some (if normalized = existing then existing else normalized))
             else None))"

definition renderPolicyConfigMapData ::
  "(document \<Rightarrow> gostring) \<Rightarrow> (document \<Rightarrow> gostring) \<Rightarrow> (gostring \<Rightarrow> document option) \<Rightarrow> time
    \<Rightarrow> gostring \<Rightarrow> document \<Rightarrow> nat + gostring" where
  "renderPolicyConfigMapData digest encode decode now existing d =
     (case kept_payload digest encode decode existing d of
        Some data \<Rightarrow> Inr data
      | None \<Rightarrow>
          (let data = encode (d\<lparr>dc_generated_at := format_rfc3339 now\<rparr>)
           in if maxGatewayPolicyBytes < length data then Inl (length data) else Inr data))"

record owner_ref =
  or_group :: gostring
  or_kind :: gostring
  or_name :: gostring
  or_uid :: gostring

record config_map =
  cm_labels :: "(gostring \<times> gostring) list"
  cm_data :: "(gostring \<times> gostring) list"
  cm_controller :: "owner_ref option"

record pod =
  pd_annotations :: "(gostring \<times> gostring) list"
  pd_deletion :: "time option"
  pd_patch_ok :: bool

text \<open>What the API answers during one reconcile.\<close>

record policy_api =
  pa_get_ok :: bool
  pa_delete_ok :: bool
  pa_write_ok :: bool
  pa_grants :: "access_grant list option"
  pa_pods :: "pod list option"

datatype policy_reconcile_error =
    PolicyApiFailed
  | PolicyRender render_error
  | PolicyRejected policy_error
  | PolicyOversize nat
  | PolicyOwnedByOther

definition gatewayPolicyFileName :: gostring where
  "gatewayPolicyFileName = ''policy.json''"

definition gatewayPolicyRevisionAnnotation :: gostring where
  "gatewayPolicyRevisionAnnotation = ''mcpruntime.org/gateway-policy-revision''"

definition gatewayPolicyConfigMapName :: "gostring \<Rightarrow> gostring" where
  "gatewayPolicyConfigMapName name = name @ ''-gateway-policy''"

definition put_pair :: "gostring \<Rightarrow> gostring \<Rightarrow> (gostring \<times> gostring) list \<Rightarrow> (gostring \<times> gostring) list" where
  "put_pair k v xs = (k, v) # filter (\<lambda>p. fst p \<noteq> k) xs"

definition nudge_pod :: "gostring \<Rightarrow> pod \<Rightarrow> pod" where
  "nudge_pod revision p =
     (if pd_deletion p \<noteq> None \<or> map_of (pd_annotations p) gatewayPolicyRevisionAnnotation = Some revision \<or>
         \<not> pd_patch_ok p
      then p
      else p\<lparr>pd_annotations := put_pair gatewayPolicyRevisionAnnotation revision (pd_annotations p)\<rparr>)"

definition nudgeGatewayPodsForPolicy :: "gostring \<Rightarrow> pod list option \<Rightarrow> pod list option" where
  "nudgeGatewayPodsForPolicy revision pods =
     (if trim_space revision = [] then pods
      else (case pods of None \<Rightarrow> None | Some ps \<Rightarrow> Some (map (nudge_pod (trim_space revision)) ps)))"

text \<open>\<open>SetControllerReference\<close>: an object with a controller of another group, kind or name is refused;
  the reference of the same one is replaced, so that it has the identifier of this server.\<close>

definition policy_controller :: "mcp_server \<Rightarrow> owner_ref" where
  "policy_controller s =
     \<lparr>or_group = ''mcpruntime.org'', or_kind = ''MCPServer'', or_name = om_name (mo_meta s), or_uid = om_uid (mo_meta s)\<rparr>"

definition same_owner :: "owner_ref \<Rightarrow> owner_ref \<Rightarrow> bool" where
  "same_owner a b \<longleftrightarrow> or_group a = or_group b \<and> or_kind a = or_kind b \<and> or_name a = or_name b"

definition owned_by_other :: "mcp_server \<Rightarrow> config_map \<Rightarrow> bool" where
  "owned_by_other s cm = (case cm_controller cm of None \<Rightarrow> False | Some r \<Rightarrow> \<not> same_owner r (policy_controller s))"

text \<open>\<open>CreateOrUpdate\<close> with the code's mutation; the flag says whether an existing map was updated.\<close>

definition write_config_map ::
  "(gostring \<Rightarrow> nat + gostring) \<Rightarrow> policy_api \<Rightarrow> mcp_server \<Rightarrow> config_map option
    \<Rightarrow> policy_reconcile_error + config_map \<times> bool" where
  "write_config_map data_of api s cm =
     (if \<not> pa_get_ok api then Inl PolicyApiFailed
      else
        (let old = (case cm of None \<Rightarrow> \<lparr>cm_labels = [], cm_data = [], cm_controller = None\<rparr> | Some c \<Rightarrow> c);
             existing = (case map_of (cm_data old) gatewayPolicyFileName of None \<Rightarrow> [] | Some x \<Rightarrow> x)
         in case data_of existing of
              Inl n \<Rightarrow> Inl (PolicyOversize n)
            | Inr data \<Rightarrow>
                if owned_by_other s old
                then Inl PolicyOwnedByOther
                else
                  (let new = \<lparr>cm_labels = [(''app'', om_name (mo_meta s)),
                                (''app.kubernetes.io/managed-by'', ''mcp-runtime'')],
                              cm_data = [(gatewayPolicyFileName, data)],
                              cm_controller = Some (policy_controller s)\<rparr>
                   in if cm = Some new then Inr (new, False)
                      else if \<not> pa_write_ok api then Inl PolicyApiFailed
                      else Inr (new, cm \<noteq> None))))"

text \<open>One reconcile of the policy: the error, the config map and the pods it leaves.\<close>

definition reconcilePolicyConfigMap ::
  "url_parser \<Rightarrow> (document \<Rightarrow> gostring) \<Rightarrow> (document \<Rightarrow> gostring) \<Rightarrow> (gostring \<Rightarrow> document option) \<Rightarrow> time
    \<Rightarrow> operator_config \<Rightarrow> policy_api \<Rightarrow> mcp_server \<Rightarrow> config_map option
    \<Rightarrow> policy_reconcile_error option \<times> config_map option \<times> pod list option" where
  "reconcilePolicyConfigMap parse_url digest encode decode now op api s cm =
     (if \<not> GatewayIsEnabled (ms_gateway (mo_spec s)) then
        (if \<not> pa_get_ok api then (Some PolicyApiFailed, cm, pa_pods api)
         else if cm = None then (None, None, pa_pods api)
         else if \<not> pa_delete_ok api then (Some PolicyApiFailed, cm, pa_pods api)
         else (None, None, pa_pods api))
      else
        (case renderGatewayPolicy digest op s (pa_grants api) of
           Inl e \<Rightarrow> (Some (PolicyRender e), cm, pa_pods api)
         | Inr d \<Rightarrow>
             (case Validate parse_url digest (Some d) of
                Some e \<Rightarrow> (Some (PolicyRejected e), cm, pa_pods api)
              | None \<Rightarrow>
                  (case write_config_map (\<lambda>existing. renderPolicyConfigMapData digest encode decode now existing d)
                          api s cm of
                     Inl e \<Rightarrow> (Some e, cm, pa_pods api)
                   | Inr (new, updated) \<Rightarrow>
                       (None, Some new,
                        if updated then nudgeGatewayPodsForPolicy (dc_revision d) (pa_pods api) else pa_pods api)))))"

text \<open>The checks of \<open>Reconcile\<close> that come before the policy: the spec as it is after defaulting.\<close>

definition validateMCPServerSpec ::
  "url_parser \<Rightarrow> (gostring \<Rightarrow> local_url option) \<Rightarrow> mcp_server \<Rightarrow> admission_error list" where
  "validateMCPServerSpec parse_url parse_local s =
     (let es = validate_spec parse_url parse_local (mo_spec s)
      in if es \<noteq> [] then es else ValidateResolvedAuth (mo_spec s))"

end
