(* ===== verification/TimeFormat.thy ===== *)
theory TimeFormat
  imports GoTime
begin

text \<open>
  What \<open>format_rfc3339\<close> writes, \<open>parse_rfc3339\<close> reads: for every instant of the years 1 to 9999
  parsing the formatted instant gives it back, cut to the second. The operator writes the expiry
  of a grant this way and the gateway reads it.
\<close>

section \<open>The calendar\<close>

lemma div_diff_one: "0 < k \<Longrightarrow> y div k - (y - 1) div k = (if y mod k = 0 then 1 else 0)" for y k :: int
proof -
  assume k: "0 < k"
  have e: "y = k * (y div k) + y mod k" by simp
  show ?thesis
  proof (cases "y mod k = 0")
    case True
    have "(y - 1) div k = y div k - 1"
    proof (rule int_div_pos_eq [where r = "k - 1"])
      show "y - 1 = k * (y div k - 1) + (k - 1)" using e True by (simp add: algebra_simps)
    qed (use k in auto)
    then show ?thesis using True by simp
  next
    case False
    have "(y - 1) div k = y div k"
    proof (rule int_div_pos_eq [where r = "y mod k - 1"])
      show "y - 1 = k * (y div k) + (y mod k - 1)" using e by simp
    qed (use k False pos_mod_sign [OF k, of y] pos_mod_bound [OF k, of y] in auto)
    then show ?thesis using False by simp
  qed
qed

lemma leap_mod: "y mod 100 = 0 \<Longrightarrow> y mod 4 = 0" "y mod 400 = 0 \<Longrightarrow> y mod 100 = 0" for y :: int
  by presburger+

lemma leap_count:
  "(b \<Longrightarrow> a) \<Longrightarrow> (c \<Longrightarrow> b) \<Longrightarrow>
   (365::int) + (if a then 1 else 0) - (if b then 1 else 0) + (if c then 1 else 0) =
   365 + (if a \<and> (\<not> b \<or> c) then 1 else 0)"
  by (cases a; cases b; cases c) auto

lemma year_length: "days_before_year (y + 1) - days_before_year y = 365 + (if leap_year y then 1 else 0)"
proof -
  have "days_before_year (y + 1) - days_before_year y =
      365 + (y div 4 - (y - 1) div 4) - (y div 100 - (y - 1) div 100) + (y div 400 - (y - 1) div 400)"
    by (simp add: days_before_year_def Let_def)
  also have "\<dots> = 365 + (if y mod 4 = 0 then 1 else 0) - (if y mod 100 = 0 then 1 else 0)
      + (if y mod 400 = 0 then 1 else 0)"
    by (simp only: div_diff_one [of 4] div_diff_one [of 100] div_diff_one [of 400] zero_less_numeral)
  also have "\<dots> = 365 + (if leap_year y then 1 else 0)"
    unfolding leap_year_def by (rule leap_count [OF leap_mod [of y]])
  finally show ?thesis .
qed

lemma div_between: "0 < k \<Longrightarrow> k * (p div k) \<le> p \<and> p < k * (p div k) + k" for k p :: int
proof -
  assume k: "0 < k"
  have "p = k * (p div k) + p mod k" by simp
  then show ?thesis using pos_mod_sign [OF k, of p] pos_mod_bound [OF k, of p] by linarith
qed

lemma days_before_year_bounds:
  "146097 * (y - 1) - 800 < 400 * days_before_year y" "400 * days_before_year y < 146097 * (y - 1) + 400"
proof -
  define p where "p = y - 1"
  have "4 * (p div 4) \<le> p \<and> p < 4 * (p div 4) + 4" by (rule div_between) simp
  moreover have "100 * (p div 100) \<le> p \<and> p < 100 * (p div 100) + 100" by (rule div_between) simp
  moreover have "400 * (p div 400) \<le> p \<and> p < 400 * (p div 400) + 400" by (rule div_between) simp
  moreover have "days_before_year y = 365 * p + p div 4 - p div 100 + p div 400"
    by (simp add: days_before_year_def p_def Let_def)
  ultimately show "146097 * (y - 1) - 800 < 400 * days_before_year y"
    "400 * days_before_year y < 146097 * (y - 1) + 400"
    unfolding p_def [symmetric] by linarith+
qed

lemma year_of_days_between:
  "days_before_year (year_of_days n) \<le> n" "n < days_before_year (year_of_days n + 1)"
proof -
  define y where "y = n * 400 div 146097 + 1"
  have q: "146097 * (y - 1) \<le> n * 400" "n * 400 < 146097 * y"
    using div_between [of 146097 "n * 400"] by (simp_all add: y_def algebra_simps)
  have lo: "days_before_year (y - 1) \<le> n" using q days_before_year_bounds(2) [of "y - 1"] by (simp add: algebra_simps)
  have hi: "n < days_before_year (y + 2)" using q days_before_year_bounds(1) [of "y + 2"] by (simp add: algebra_simps)
  show "days_before_year (year_of_days n) \<le> n" "n < days_before_year (year_of_days n + 1)"
  proof -
    have y: "year_of_days n = (if n < days_before_year y then y - 1 else if days_before_year (y + 1) \<le> n then y + 1 else y)"
      by (simp add: year_of_days_def Let_def y_def)
    consider "n < days_before_year y" | "days_before_year y \<le> n" "days_before_year (y + 1) \<le> n"
      | "days_before_year y \<le> n" "n < days_before_year (y + 1)" by linarith
    then show "days_before_year (year_of_days n) \<le> n" "n < days_before_year (year_of_days n + 1)"
      using lo hi by (cases; simp add: y add.commute)+
  qed
qed

lemma days_before_year_mono: "y \<le> z \<Longrightarrow> days_before_year y \<le> days_before_year z"
proof (induction rule: int_ge_induct)
  case (step i)
  then show ?case using year_length [of i] by (auto split: if_splits)
qed simp

definition in_month :: "int \<Rightarrow> int \<Rightarrow> int \<Rightarrow> bool" where
  "in_month y r m \<longleftrightarrow>
     1 \<le> m \<and> m \<le> 12 \<and> days_before_month m y \<le> r \<and> r - days_before_month m y < days_in_month m y"

lemma month_found_leap:
  assumes "0 \<le> r" and "r < 366" and "leap_year y"
  shows "in_month y r (month_of_day month_starts y 1 r)"
proof -
  consider "0 \<le> r" "r < 31" | "31 \<le> r" "r < 60" | "60 \<le> r" "r < 91" | "91 \<le> r" "r < 121" | "121 \<le> r" "r < 152" | "152 \<le> r" "r < 182" | "182 \<le> r" "r < 213" | "213 \<le> r" "r < 244" | "244 \<le> r" "r < 274" | "274 \<le> r" "r < 305" | "305 \<le> r" "r < 335" | "335 \<le> r" "r < 366" using assms by linarith
  then show ?thesis
    by cases (use assms in \<open>simp_all add: in_month_def month_starts_def month_lengths_def days_before_month_def days_in_month_def\<close>)
qed

lemma month_found_common:
  assumes "0 \<le> r" and "r < 365" and "\<not> leap_year y"
  shows "in_month y r (month_of_day month_starts y 1 r)"
proof -
  consider "0 \<le> r" "r < 31" | "31 \<le> r" "r < 59" | "59 \<le> r" "r < 90" | "90 \<le> r" "r < 120" | "120 \<le> r" "r < 151" | "151 \<le> r" "r < 181" | "181 \<le> r" "r < 212" | "212 \<le> r" "r < 243" | "243 \<le> r" "r < 273" | "273 \<le> r" "r < 304" | "304 \<le> r" "r < 334" | "334 \<le> r" "r < 365" using assms by linarith
  then show ?thesis
    by cases (use assms in \<open>simp_all add: in_month_def month_starts_def month_lengths_def days_before_month_def days_in_month_def\<close>)
qed

lemma civil_of_days_ok:
  assumes "civil_of_days n = (y, m, d)"
  shows "1 \<le> m" "m \<le> 12" "1 \<le> d" "d \<le> days_in_month m y" "date_days y m d = n"
    "days_before_year y \<le> n" "n < days_before_year (y + 1)"
proof -
  let ?r = "n - days_before_year y"
  have y: "y = year_of_days n" and m: "m = month_of_day month_starts y 1 ?r"
    and d: "d = ?r - days_before_month m y + 1"
    using assms by (auto simp: civil_of_days_def Let_def)
  show "days_before_year y \<le> n" "n < days_before_year (y + 1)"
    using year_of_days_between [of n] by (simp_all add: y)
  then have "0 \<le> ?r" "?r < 365 + (if leap_year y then 1 else 0)" using year_length [of y] by auto
  then have "in_month y ?r m" unfolding m using month_found_leap month_found_common by (cases "leap_year y") auto
  then show "1 \<le> m" "m \<le> 12" "1 \<le> d" "d \<le> days_in_month m y"
    by (simp_all add: in_month_def d)
  show "date_days y m d = n" by (simp add: date_days_def d)
qed

section \<open>Reading what was written\<close>

lemma digit_val_char:
  assumes "0 \<le> k" and "k \<le> 9"
  shows "digit_val (digit_char k) = Some k"
proof -
  have "k = 0 \<or> k = 1 \<or> k = 2 \<or> k = 3 \<or> k = 4 \<or> k = 5 \<or> k = 6 \<or> k = 7 \<or> k = 8 \<or> k = 9"
    using assms by presburger
  then show ?thesis by (elim disjE) (simp only:, code_simp)+
qed

lemma digit_parts: "0 \<le> n \<Longrightarrow> n < 100 \<Longrightarrow> 10 * (n div 10 mod 10) + n mod 10 = n" for n :: int
  by presburger

lemma show2_read:
  assumes "0 \<le> n" and "n < 100"
  shows "two_digits (show2 n @ s) = Some (n, s)" "hour_digits (show2 n @ s) = Some (n, s)"
proof -
  have "0 \<le> n div 10 mod 10" "n div 10 mod 10 \<le> 9" "0 \<le> n mod 10" "n mod 10 \<le> 9" by presburger+
  then show "two_digits (show2 n @ s) = Some (n, s)" "hour_digits (show2 n @ s) = Some (n, s)"
    using digit_parts [OF assms] by (simp_all add: show2_def digit_val_char)
qed

lemma parse_date_shown:
  assumes "0 \<le> y" "y < 10000" "1 \<le> m" "m \<le> 12" "1 \<le> d" "d < 100"
  shows "parse_date (show2 (y div 100) @ show2 (y mod 100) @ ''-'' @ show2 m @ ''-'' @ show2 d @ s) =
    Some ((y, m, d), s)"
proof -
  have "0 \<le> y div 100" "y div 100 < 100" "0 \<le> y mod 100" "y mod 100 < 100" "100 * (y div 100) + y mod 100 = y"
    using assms(1,2) by presburger+
  then show ?thesis using assms by (simp add: parse_date_def show2_read)
qed

lemma parse_clock_shown:
  assumes "0 \<le> n" "n < 86400"
  shows "parse_clock (show2 (n div 3600) @ '':'' @ show2 (n mod 3600 div 60) @ '':'' @ show2 (n mod 60) @ s) =
    Some ((n div 3600, n mod 3600 div 60, n mod 60), s)"
proof -
  have "0 \<le> n mod 3600" "n mod 3600 < 3600" by simp_all
  then have "0 \<le> n mod 3600 div 60" "n mod 3600 div 60 < 60" by linarith+
  moreover have "0 \<le> n div 3600" "n div 3600 < 24" "0 \<le> n mod 60" "n mod 60 < 60" using assms by linarith+
  ultimately show ?thesis by (simp add: parse_clock_def show2_read)
qed

lemma clock_seconds: "n div 3600 * 60 + n mod 3600 div 60 = n div 60" for n :: int
proof -
  have "n = n mod 3600 + 60 * (n div 3600 * 60)" by simp
  then have "n div 60 = (n mod 3600 + 60 * (n div 3600 * 60)) div 60" by simp
  also have "\<dots> = n div 3600 * 60 + n mod 3600 div 60" by (subst div_mult_self2) simp_all
  finally show ?thesis by simp
qed

text \<open>The first instant of the year 10000, where the four digits of the layout end.\<close>

definition year_10000 :: time where
  "year_10000 = days_before_year 10000 * 86400 * second"

lemma days_in_month_le: "days_in_month m y \<le> 31 \<or> \<not> (1 \<le> m \<and> m \<le> 12)"
proof -
  have "m = 1 \<or> m = 2 \<or> m = 3 \<or> m = 4 \<or> m = 5 \<or> m = 6 \<or> m = 7 \<or> m = 8 \<or> m = 9 \<or> m = 10 \<or> m = 11 \<or> m = 12 \<or>
      \<not> (1 \<le> m \<and> m \<le> 12)" by presburger
  then show ?thesis by (elim disjE) (auto simp: days_in_month_def month_lengths_def)
qed

theorem parse_format_rfc3339:
  assumes "0 \<le> t" and "t < year_10000"
  shows "parse_rfc3339 (format_rfc3339 t) = Some (t - t mod second)"
proof -
  define secs where "secs = t div second"
  define day where "day = secs div 86400"
  define sod where "sod = secs mod 86400"
  obtain y m d where c: "civil_of_days day = (y, m, d)" by (cases "civil_of_days day") auto
  note ok = civil_of_days_ok [OF c]
  have N: "days_before_year 10000 = 3652059" by (simp add: days_before_year_def)
  have secs: "0 \<le> secs" "secs < 315537897600"
    using assms by (simp_all add: secs_def year_10000_def N second_def)
  have day: "0 \<le> day" "day < days_before_year 10000"
    using secs by (simp_all add: day_def N)
  have sod: "0 \<le> sod" "sod < 86400" by (simp_all add: sod_def)
  have "days_before_year 1 = 0" by (simp add: days_before_year_def)
  then have y1: "0 \<le> y" using ok(7) day(1) days_before_year_mono [of "y + 1" 1] by linarith
  have y2: "y < 10000" using ok(6) day(2) days_before_year_mono [of 10000 y] by linarith
  have d: "d < 100" using ok(1,2,4) days_in_month_le [of m y] by auto
  let ?tail = "show2 (sod div 3600) @ '':'' @ show2 (sod mod 3600 div 60) @ '':'' @ show2 (sod mod 60) @ ''Z''"
  have f: "format_rfc3339 t =
      show2 (y div 100) @ show2 (y mod 100) @ ''-'' @ show2 m @ ''-'' @ show2 d @ (''T'' @ ?tail)"
    by (simp add: format_rfc3339_def Let_def c secs_def [symmetric] day_def [symmetric] sod_def [symmetric])
  have "parse_rfc3339 (format_rfc3339 t) =
      Some (date_time y m d (sod div 3600) (sod mod 3600 div 60) (sod mod 60) 0)"
    unfolding f parse_rfc3339_def parse_date_shown [OF y1 y2 ok(1,2,3) d]
    using ok(3,4) by (simp add: parse_clock_shown [OF sod, where s = "''Z''", simplified] zone_offset_def)
  also have "date_time y m d (sod div 3600) (sod mod 3600 div 60) (sod mod 60) 0 = secs * second"
  proof -
    have "((day * 24 + sod div 3600) * 60 + sod mod 3600 div 60) * 60 + sod mod 60 = secs"
      using clock_seconds [of sod] div_mult_mod_eq [of sod 60] div_mult_mod_eq [of secs 86400]
      by (simp add: day_def sod_def algebra_simps)
    moreover have "date_time y m d (sod div 3600) (sod mod 3600 div 60) (sod mod 60) 0 =
        (((day * 24 + sod div 3600) * 60 + sod mod 3600 div 60) * 60 + sod mod 60) * second"
      by (simp add: date_time_def ok(5) minute_def algebra_simps)
    ultimately show ?thesis by simp
  qed
  also have "\<dots> = t - t mod second" by (simp add: secs_def minus_mod_eq_div_mult)
  finally show ?thesis .
qed

lemma trim_space_id: "s \<noteq> [] \<Longrightarrow> \<not> is_space (hd s) \<Longrightarrow> \<not> is_space (last s) \<Longrightarrow> trim_space s = s"
proof -
  assume s: "s \<noteq> []" "\<not> is_space (hd s)" "\<not> is_space (last s)"
  then have "dropWhile is_space s = s" by (cases s) simp_all
  moreover have "dropWhile is_space (rev s) = rev s" using s by (cases s rule: rev_cases) simp_all
  ultimately show ?thesis by (simp add: trim_space_def)
qed

lemma digit_not_space: "\<not> is_space (digit_char (k mod 10))"
proof -
  have "k mod 10 = 0 \<or> k mod 10 = 1 \<or> k mod 10 = 2 \<or> k mod 10 = 3 \<or> k mod 10 = 4 \<or>
      k mod 10 = 5 \<or> k mod 10 = 6 \<or> k mod 10 = 7 \<or> k mod 10 = 8 \<or> k mod 10 = 9" by presburger
  then show ?thesis by (elim disjE) (simp only:, code_simp)+
qed

lemma format_rfc3339_trimmed [simp]: "trim_space (format_rfc3339 t) = format_rfc3339 t"
proof (rule trim_space_id)
  show "\<not> is_space (hd (format_rfc3339 t))"
    by (simp add: format_rfc3339_def Let_def split_beta show2_def digit_not_space)
  have "\<not> is_space (CHR ''Z'')" by code_simp
  then show "\<not> is_space (last (format_rfc3339 t))" by (simp add: format_rfc3339_def Let_def split_beta)
qed (simp add: format_rfc3339_def Let_def split_beta)

lemma format_rfc3339_nonblank [simp]: "format_rfc3339 t \<noteq> []"
  by (simp add: format_rfc3339_def Let_def split_beta)

end
