(* ===== verification/OperatorClaims.thy ===== *)
theory OperatorClaims
  imports OperatorPolicy TimeFormat
begin

text \<open>
  From the custom resources to the gateway: a server that passed admission renders a policy that
  \<open>Validate\<close> accepts, what the operator writes the gateway loads and serves, and what the gateway
  then allows was granted by an access grant object of the cluster.
\<close>

section \<open>Admission, loop by loop\<close>

lemma tool_errors_Nil:
  "tool_errors i seen ts = [] \<longleftrightarrow>
     (\<forall>t \<in> set ts. trim_space (tc_name t) \<noteq> [] \<and> ValidSideEffect (tc_side_effect t)) \<and>
     distinct (map tc_name ts) \<and> set (map tc_name ts) \<inter> set seen = {}"
proof (induction i seen ts rule: tool_errors.induct)
  case (2 i seen t ts)
  have "ValidSideEffect (tc_side_effect t) \<Longrightarrow> trim_space (tc_side_effect t) \<noteq> []"
    unfolding ValidSideEffect_def by (elim disjE) (simp only:, code_simp)+
  with 2 show ?case by auto
qed simp

lemma binding_name_errors_Nil:
  "binding_name_errors seen ns = [] \<longleftrightarrow>
     (\<forall>n \<in> set ns. NameValid n) \<and> distinct ns \<and> set ns \<inter> set seen = {}"
  by (induction seen ns rule: binding_name_errors.induct) auto

lemma delegated_rule_errors_Nil:
  "delegated_rule_errors known i seen rs = [] \<Longrightarrow>
     (\<forall>r \<in> set rs. trim_space (ds_name r) \<noteq> [] \<and> (ds_decision r = ''allow'' \<or> ds_decision r = ''deny'')) \<and>
     distinct (map (\<lambda>r. to_lower (trim_space (ds_name r))) rs) \<and>
     set (map (\<lambda>r. to_lower (trim_space (ds_name r))) rs) \<inter> set seen = {}"
  by (induction known i seen rs rule: delegated_rule_errors.induct) (auto simp: Let_def split: if_splits)

lemma side_effect_errors_Nil:
  "side_effect_errors i seen es = [] \<Longrightarrow> \<forall>e \<in> set es. ValidSideEffect e"
proof (induction i seen es rule: side_effect_errors.induct)
  case (2 i seen e es)
  then show ?case by (cases "trim_space e = []"; cases "ValidSideEffect e") simp_all
qed simp

lemma rule_errors_Nil:
  "rule_errors AdmissionBoundary i seen rs = [] \<Longrightarrow>
     (\<forall>r \<in> set rs. trim_space (ri_name r) \<noteq> []) \<and> distinct (map ri_name rs) \<and>
     set (map ri_name rs) \<inter> set seen = {}"
proof (induction rs arbitrary: i seen)
  case (Cons r rs)
  have r: "trim_space (ri_name r) \<noteq> []" using Cons.prems by (cases "trim_space (ri_name r) = []") simp_all
  then have "\<not> List.member seen (ri_name r)" "rule_errors AdmissionBoundary (Suc i) (ri_name r # seen) rs = []"
    using Cons.prems by simp_all
  with Cons.IH [of "Suc i" "ri_name r # seen"] r show ?case by auto
qed simp

section \<open>The schema of the resources\<close>

text \<open>The enumerations the custom resource definitions declare (\<open>kubebuilder:validation:Enum\<close> in
  \<open>api/v1alpha1\<close>): the API server refuses other values. An omitted field is the empty string.\<close>

definition crd_server :: "server_spec \<Rightarrow> bool" where
  "crd_server sp \<longleftrightarrow>
     (case ms_policy sp of
        None \<Rightarrow> True
      | Some p \<Rightarrow> List.member ['''', ''allow-list'', ''observe''] (pc_mode p) \<and>
                  List.member ['''', ''allow'', ''deny''] (pc_default_decision p)) \<and>
     list_all (\<lambda>t. List.member ['''', ''low'', ''medium'', ''high''] (tc_required_trust t)) (ms_tools sp)"

definition crd_grant :: "grant_spec \<Rightarrow> bool" where
  "crd_grant g \<longleftrightarrow>
     List.member ['''', ''low'', ''medium'', ''high''] (gn_max_trust g) \<and>
     list_all (\<lambda>r. List.member [''allow'', ''deny''] (ru_decision r) \<and>
                   List.member ['''', ''low'', ''medium'', ''high''] (ru_required_trust r)) (gn_tool_rules g) \<and>
     (case gn_expires_at g of None \<Rightarrow> True | Some t \<Rightarrow> 0 \<le> t \<and> t < year_10000)"

lemma enum_trust: "List.member ['''', ''low'', ''medium'', ''high''] v \<Longrightarrow> validTrust v \<and> validTrust (defaultTrust v) \<and> validTrust (fill v ''low'')"
  by (simp, elim disjE) (simp_all only:, code_simp+)

lemma enum_decision: "List.member [''allow'', ''deny''] v \<Longrightarrow> validDecision (defaultDecision v)"
  by (simp, elim disjE) (simp_all only:, code_simp+)

lemma enum_side_effect: "ValidSideEffect v \<Longrightarrow> validSideEffect v b"
  unfolding ValidSideEffect_def by (cases b; elim disjE) (simp_all only:, code_simp+)

section \<open>The spec the operator works on\<close>

lemma ResolveDerivedAuth_sel [simp]:
  "mo_meta (ResolveDerivedAuth opts s) = mo_meta s"
  "ms_policy (mo_spec (ResolveDerivedAuth opts s)) = ms_policy (mo_spec s)"
  "ms_tools (mo_spec (ResolveDerivedAuth opts s)) = ms_tools (mo_spec s)"
  "ms_session (mo_spec (ResolveDerivedAuth opts s)) = ms_session (mo_spec s)"
  "ms_team_id (mo_spec (ResolveDerivedAuth opts s)) = ms_team_id (mo_spec s)"
  "AuthUsesHeaderMode (ms_auth (mo_spec (ResolveDerivedAuth opts s))) = AuthUsesHeaderMode (ms_auth (mo_spec s))"
  by (auto simp: ResolveDerivedAuth_def Let_def AuthUsesHeaderMode_def split: option.splits)

lemma DefaultWithOptions_sel [simp]:
  "ms_policy (mo_spec (DefaultWithOptions opts s)) = default_policy (ms_auth (mo_spec s)) (ms_policy (mo_spec s))"
  "ms_tools (mo_spec (DefaultWithOptions opts s)) = map fill_tool (ms_tools (mo_spec s))"
  "AuthUsesHeaderMode (ms_auth (mo_spec (DefaultWithOptions opts s))) = AuthUsesHeaderMode (ms_auth (mo_spec s))"
  by (simp_all add: DefaultWithOptions_def Let_def)

definition enum_policy :: "policy_config \<Rightarrow> bool" where
  "enum_policy p \<longleftrightarrow> pc_mode p \<in> {''allow-list'', ''observe''} \<and> pc_default_decision p \<in> {''allow'', ''deny''}"

text \<open>What defaulting makes of a spec that satisfies the schema.\<close>

definition settled_spec :: "server_spec \<Rightarrow> bool" where
  "settled_spec sp \<longleftrightarrow>
     (case ms_policy sp of None \<Rightarrow> \<not> AuthUsesHeaderMode (ms_auth sp) | Some p \<Rightarrow> enum_policy p) \<and>
     (\<forall>t \<in> set (ms_tools sp). validTrust (tc_required_trust t))"

lemma keyword_blank:
  "trim_space ''allow-list'' = ''allow-list''" "trim_space ''observe'' = ''observe''" "trim_space ''allow'' = ''allow''"
  "trim_space ''deny'' = ''deny''" "trim_space ''header'' = ''header''" "trim_space ''platform'' = ''platform''"
  "to_lower ''allow-list'' = ''allow-list''" "to_lower ''observe'' = ''observe''" "to_lower ''allow'' = ''allow''"
  "to_lower ''deny'' = ''deny''" "to_lower ''header'' = ''header''"
  by code_simp+

lemma fill_policy_enum:
  assumes "List.member ['''', ''allow-list'', ''observe''] (pc_mode p)"
    and "List.member ['''', ''allow'', ''deny''] (pc_default_decision p)"
  shows "enum_policy (fill_policy p)"
  using assms by (auto simp: enum_policy_def fill_policy_def fill_def keyword_blank)

lemma settled_spec_defaulted:
  assumes "crd_server (mo_spec s)"
  shows "settled_spec (mo_spec (defaultedMCPServerForReconcile opts s))"
proof -
  have tools: "\<forall>t \<in> set (ms_tools (mo_spec s)). validTrust (tc_required_trust (fill_tool t))"
    using assms enum_trust by (auto simp: crd_server_def list_all_iff fill_tool_def)
  have hp: "enum_policy (fill_policy header_policy)"
    by (rule fill_policy_enum) (simp_all add: header_policy_def)
  have pol: "case ms_policy (mo_spec s) of None \<Rightarrow> True | Some p \<Rightarrow> enum_policy (fill_policy p)"
    using assms fill_policy_enum by (auto simp: crd_server_def split: option.splits)
  show ?thesis
    using tools hp pol
    by (auto simp: settled_spec_def defaultedMCPServerForReconcile_def default_policy_def split: option.splits)
qed

section \<open>What is rendered validates\<close>

lemma header_not_none: "AuthUsesHeaderMode a \<Longrightarrow> \<exists>x. a = Some x"
  by (cases a) (simp_all add: AuthUsesHeaderMode_def)

lemma validateMCPServerSpec_Nil:
  "validateMCPServerSpec parse_url parse_local s = [] \<longleftrightarrow>
     validate_spec parse_url parse_local (mo_spec s) = [] \<and> ValidateResolvedAuth (mo_spec s) = []"
  by (simp add: validateMCPServerSpec_def Let_def)

lemma admitted_header:
  assumes "validate_spec parse_url parse_local sp = []" and "ms_auth sp = Some a" and "AuthUsesHeaderMode (ms_auth sp)"
  shows "NormalizeNames (ac_headers a) = None" "\<exists>m. NormalizePresence (ac_credential_presence a) = Inr m"
    "ms_session sp = None" "\<And>p. ms_policy sp = Some p \<Longrightarrow> header_policy_errors (ms_tools sp) p = []"
  using assms by (auto simp: validate_spec_def auth_errors_def validateHeaderAuth_def split: option.splits sum.splits)

lemma rendered_auth_valid:
  assumes "validateMCPServerSpec parse_url parse_local s = []" and "GatewayIsEnabled (ms_gateway (mo_spec s))"
  shows "validateAuth parse_url (render_auth op (mo_spec s)) = None"
proof (cases "AuthUsesHeaderMode (ms_auth (mo_spec s))")
  case True
  then obtain a where a: "ms_auth (mo_spec s) = Some a" using header_not_none by blast
  have "validate_spec parse_url parse_local (mo_spec s) = []" using assms(1) by (simp add: validateMCPServerSpec_Nil)
  from admitted_header [OF this a True] True show ?thesis
    by (auto simp: render_auth_def a validateAuth_def validateDelegatedAuth_def keyword_blank Let_def)
next
  case False
  show ?thesis
  proof (cases "ms_auth (mo_spec s)")
    case None
    then show ?thesis
      using False by (auto simp: render_auth_def usesAdapterCertificates_def validateAuth_def Let_def split: if_splits)
  next
    case (Some a)
    have i: "trim_space (ac_issuer_url a) \<noteq> []" "trim_space (ac_audience a) \<noteq> []"
      using assms False Some by (auto simp: validateMCPServerSpec_Nil ValidateResolvedAuth_def)
    moreover have "auth_errors parse_url (mo_spec s) a = []"
      using assms(1) Some by (simp add: validateMCPServerSpec_Nil validate_spec_def)
    ultimately have "validateResourceURI parse_url (ac_audience a) = None"
      by (auto simp: auth_errors_def validateResourceURI_def Let_def split: option.splits prod.splits)
    then show ?thesis using False i by (simp add: render_auth_def Some validateAuth_def Let_def)
  qed
qed

lemma rendered_config_valid:
  assumes "settled_spec sp"
  shows "validateConfig (Some (render_config sp)) = None"
proof (cases "ms_policy sp")
  case None
  then show ?thesis using assms by (simp add: render_config_def validateConfig_def settled_spec_def keyword_blank)
next
  case (Some p)
  then have "enum_policy p" using assms by (simp add: settled_spec_def)
  then show ?thesis by (auto simp: render_config_def Some validateConfig_def enum_policy_def keyword_blank)
qed

lemma rendered_tools_valid:
  assumes "settled_spec sp" and "validate_spec parse_url parse_local sp = []"
  shows "validateTools (map render_tool (ms_tools sp)) = None"
proof -
  have "tool_errors 0 [] (ms_tools sp) = []" using assms(2) by (simp add: validate_spec_def)
  then show ?thesis using assms(1) enum_side_effect
    by (auto simp: tool_errors_Nil validateTools_None render_tool_def settled_spec_def comp_def)
qed

lemma rendered_grant_valid:
  assumes "validate_grant g = []" and "crd_grant (ag_spec g)"
  shows "validateGrantBody (render_grant team g) = None"
proof -
  let ?sp = "ag_spec g"
  have mode: "List.member ['''', ''enforce'', ''monitor''] (to_lower (trim_space (gn_mode ?sp)))"
  proof -
    have "gn_mode ?sp = [] \<or> gn_mode ?sp = ''enforce'' \<or> gn_mode ?sp = ''monitor''"
      using assms(1) by (auto simp: validate_grant_def ValidateGrant_def grant_as_input_def ModeError_def split: if_splits)
    moreover have "to_lower (trim_space ''enforce'') = ''enforce''" "to_lower (trim_space ''monitor'') = ''monitor''"
      by code_simp+
    ultimately show ?thesis by auto
  qed
  have effects: "\<forall>e \<in> set (gn_allowed_side_effects ?sp). validSideEffect e False"
    using assms(1) side_effect_errors_Nil enum_side_effect
    by (fastforce simp: validate_grant_def ValidateGrant_def grant_as_input_def)
  have "rule_errors AdmissionBoundary 0 [] (gi_tool_rules (grant_as_input ?sp)) = []"
    using assms(1) by (simp add: validate_grant_def ValidateGrant_def)
  from rule_errors_Nil [OF this] have names: "\<forall>r \<in> set (gn_tool_rules ?sp). trim_space (ru_name r) \<noteq> []"
    "distinct (map ru_name (gn_tool_rules ?sp))"
    by (auto simp: grant_as_input_def comp_def)
  have "\<forall>r \<in> set (gn_tool_rules ?sp). validDecision (defaultDecision (ru_decision r)) \<and> validTrust (defaultTrust (ru_required_trust r))"
    using assms(2) enum_decision enum_trust by (simp add: crd_grant_def list_all_iff)
  with names have rules: "validateRules n (map render_rule (gn_tool_rules ?sp)) = None" for n
    by (auto simp: validateRules_None render_rule_def comp_def)
  have expiry: "gr_expires_at (render_grant team g) = [] \<or> parse_rfc3339 (gr_expires_at (render_grant team g)) \<noteq> None"
    using assms(2) parse_format_rfc3339
    by (fastforce simp: render_grant_def Let_def crd_grant_def split: option.splits)
  have trimmed: "trim_space (gr_expires_at (render_grant team g)) = gr_expires_at (render_grant team g)"
    by (simp add: render_grant_def Let_def split: option.split)
  have trust: "validTrust (defaultTrust (gn_max_trust ?sp))" using assms(2) enum_trust by (simp add: crd_grant_def)
  have "List.find (\<lambda>e. \<not> validSideEffect e False) (gn_allowed_side_effects ?sp) = None"
    using effects by (simp add: find_None_iff)
  then show ?thesis
    using mode trust expiry rules unfolding validateGrantBody_def trimmed
    by (auto simp: first_error_None render_grant_def Let_def)
qed

abbreviation rendered_grants :: "mcp_server \<Rightarrow> access_grant list \<Rightarrow> access_grant list" where
  "rendered_grants s gs \<equiv> filter (grant_applies s) (indexed_grants s gs)"

lemma render_document_sel [simp]:
  "dc_auth (render_document op s gs) = render_auth op (mo_spec s)"
  "dc_policy (render_document op s gs) = Some (render_config (mo_spec s))"
  "dc_session (render_document op s gs) = platform_session s (map_option render_session (ms_session (mo_spec s)))"
  "dc_tools (render_document op s gs) = map render_tool (ms_tools (mo_spec s))"
  "dc_grants (render_document op s gs) = map (render_grant (trim_space (ms_team_id (mo_spec s)))) (rendered_grants s gs)"
  "dc_sessions (render_document op s gs) = []"
  "dc_credential_bindings (render_document op s gs) = ms_credential_bindings (mo_spec s)"
  "sv_name (dc_server (render_document op s gs)) = om_name (mo_meta s)"
  "sv_uid (dc_server (render_document op s gs)) = om_uid (mo_meta s)"
  "dc_compiled (render_document op s gs) = None"
  by (simp_all add: render_document_def Let_def document_zero_def)

lemma render_grant_sel [simp]:
  "gr_name (render_grant team g) = om_name (ag_meta g)"
  "gr_namespace (render_grant team g) = om_namespace (ag_meta g)"
  "gr_disabled (render_grant team g) = gn_disabled (ag_spec g)"
  "gr_human_id (render_grant team g) = sj_human_id (gn_subject (ag_spec g))"
  "gr_agent_id (render_grant team g) = sj_agent_id (gn_subject (ag_spec g))"
  "gr_team_id (render_grant team g) = subjectTeamIDForServer team (sj_team_id (gn_subject (ag_spec g)))"
  "gr_expires_at (render_grant team g) =
     (case gn_expires_at (ag_spec g) of None \<Rightarrow> [] | Some t \<Rightarrow> format_rfc3339 t)"
  by (simp_all add: render_grant_def Let_def)

lemma rendered_delegated: "UsesDelegatedHeaders (Some (render_document op s gs)) = AuthUsesHeaderMode (ms_auth (mo_spec s))"
proof (cases "AuthUsesHeaderMode (ms_auth (mo_spec s))")
  case True
  then obtain a where "ms_auth (mo_spec s) = Some a" using header_not_none by blast
  then show ?thesis using True by (simp add: UsesDelegatedHeaders_def render_auth_def keyword_blank)
next
  case False
  have "\<not> equal_fold [] ''header''" by (simp add: equal_fold_def keyword_blank)
  then show ?thesis
    using False by (auto simp: UsesDelegatedHeaders_def render_auth_def Let_def split: option.splits)
qed

lemma delegated_rules_valid:
  assumes "delegated_rule_errors known 0 [] rs = []"
  shows "validateDelegatedRules (map (\<lambda>r. \<lparr>dr_name = ds_name r, dr_decision = ds_decision r\<rparr>) rs) = None"
proof -
  note f = delegated_rule_errors_Nil [OF assms]
  then have "trim_space (ds_name (rs ! j)) \<noteq> [] \<and> List.member [''allow'', ''deny''] (to_lower (trim_space (ds_decision (rs ! j))))"
    if "j < length rs" for j
    using nth_mem [OF that] by (auto simp: keyword_blank)
  then show ?thesis using f by (simp add: validateDelegatedRules_def validate_loop_None comp_def)
qed

lemma rendered_delegated_valid:
  assumes "settled_spec (mo_spec s)" and "validate_spec parse_url parse_local (mo_spec s) = []"
    and "AuthUsesHeaderMode (ms_auth (mo_spec s)) \<longrightarrow> rendered_grants s gs = []"
  shows "validateDelegatedDocument (render_document op s gs) = None"
proof (cases "AuthUsesHeaderMode (ms_auth (mo_spec s))")
  case False
  have "delegated_errors (mo_spec s) = []" using assms(2) by (simp add: validate_spec_def)
  then have "cf_delegated_tool_rules (render_config (mo_spec s)) = [] \<and> cf_max_side_effect (render_config (mo_spec s)) = []"
    using False by (auto simp: render_config_def delegated_errors_def config_zero_def split: option.splits)
  then show ?thesis using False by (simp add: validateDelegatedDocument_def rendered_delegated)
next
  case True
  then obtain a where a: "ms_auth (mo_spec s) = Some a" using header_not_none by blast
  obtain p where p: "ms_policy (mo_spec s) = Some p" "enum_policy p"
    using assms(1) True by (auto simp: settled_spec_def split: option.splits)
  note h = admitted_header [OF assms(2) a True]
  from h(4) [OF p(1)] have e: "pc_mode p = ''allow-list''" "pc_default_decision p = ''deny''"
    "delegated_rule_errors (known_tools (ms_tools (mo_spec s))) 0 [] (pc_delegated_tool_rules p) = []"
    "List.member ['''', ''read'', ''write'', ''destructive''] (pc_max_side_effect p)"
    using p(2) by (auto simp: header_policy_errors_def enum_policy_def)
  have side: "validSideEffect (pc_max_side_effect p) True"
    using e(4) enum_side_effect [of "pc_max_side_effect p" True]
    by (auto simp: ValidSideEffect_def validSideEffect_def)
  have "dc_session (render_document op s gs) = None" using h(3) True by (simp add: platform_session_def)
  then show ?thesis
    using True assms(3) side e(1,2) delegated_rules_valid [OF e(3)]
    by (simp add: validateDelegatedDocument_def rendered_delegated render_config_def p(1) keyword_blank)
qed

lemma rendered_bindings_valid:
  assumes "validate_spec parse_url parse_local (mo_spec s) = []" and "trim_space (om_uid (mo_meta s)) \<noteq> []"
  shows "validateCredentialBindings (render_document op s gs) = None"
proof (cases "ms_credential_bindings (mo_spec s) = []")
  case False
  let ?sp = "mo_spec s"
  have b: "bindings_errors parse_local ?sp = []" using assms(1) by (simp add: validate_spec_def)
  then have h: "\<not> AuthUsesHeaderMode (ms_auth ?sp)" and n: "length (ms_credential_bindings ?sp) \<le> 16"
    and e: "binding_name_errors [] (ms_credential_bindings ?sp) = []"
    using False by (auto simp: bindings_errors_def)
  obtain p where p: "ms_policy ?sp = Some p" "pc_mode p = ''allow-list''" "pc_default_decision p = ''deny''"
    using b False by (auto simp: bindings_errors_def split: option.splits)
  have "om_uid (mo_meta s) \<noteq> []" using assms(2) by auto
  then have "\<exists>c. dc_session (render_document op s gs) = Some c \<and> sc_required c \<and> sc_store c = ''platform''"
    using h False by (simp add: platform_session_def Let_def)
  then have "brokered_policy (render_document op s gs)"
    using n p h by (auto simp: brokered_policy_def render_config_def render_auth_def Let_def split: option.splits)
  then show ?thesis using False e
    by (auto simp: validateCredentialBindings_def validate_loop_None binding_name_errors_Nil)
qed (simp add: validateCredentialBindings_def)

text \<open>What the API server guarantees of a grant it stores: the webhook accepted it, the schema
  holds and it has a name.\<close>

definition stored_grant :: "access_grant \<Rightarrow> bool" where
  "stored_grant g \<longleftrightarrow> validate_grant g = [] \<and> crd_grant (ag_spec g) \<and> trim_space (om_name (ag_meta g)) \<noteq> []"

lemma rendered_content_valid:
  assumes "settled_spec (mo_spec s)" and "validateMCPServerSpec parse_url parse_local s = []"
    and "GatewayIsEnabled (ms_gateway (mo_spec s))"
    and "trim_space (om_name (mo_meta s)) \<noteq> []" and "trim_space (om_uid (mo_meta s)) \<noteq> []"
    and "\<forall>g \<in> set gs. stored_grant g" and "distinct (map (\<lambda>g. om_name (ag_meta g)) (rendered_grants s gs))"
    and "AuthUsesHeaderMode (ms_auth (mo_spec s)) \<longrightarrow> rendered_grants s gs = []"
  shows "validateContent parse_url (render_document op s gs) = None"
proof -
  have v: "validate_spec parse_url parse_local (mo_spec s) = []" using assms(2) by (simp add: validateMCPServerSpec_Nil)
  have "\<forall>g \<in> set (rendered_grants s gs). stored_grant g" using assms(6) by (auto simp: indexed_grants_def)
  then have "validateGrants (dc_grants (render_document op s gs)) = None"
    using assms(7) rendered_grant_valid by (auto simp: validateGrants_None stored_grant_def comp_def)
  moreover have "validatePlatform (render_document op s gs) = None"
    using assms(5) by (simp add: validatePlatform_def)
  ultimately show ?thesis
    using assms(4) rendered_bindings_valid [OF v assms(5)] rendered_auth_valid [OF assms(2,3)]
      rendered_config_valid [OF assms(1)] rendered_tools_valid [OF assms(1) v] rendered_delegated_valid [OF assms(1) v assms(8)]
    by (simp add: validateContent_None validateBindings_None)
qed

section \<open>The properties\<close>


text \<open>C14: Two grants with one name, which Kubernetes allows in different namespaces, freeze the
  policy of a server: the rendered document is refused and the config map the gateway reads stays
  as it is, whatever else has changed, so a grant that was disabled or deleted keeps working.\<close>

theorem same_name_grants_freeze_policy:
  assumes "renderGatewayPolicy digest op s (Some gs) = Inr d" and "GatewayIsEnabled (ms_gateway (mo_spec s))"
    and "\<not> distinct (map (\<lambda>g. om_name (ag_meta g)) (filter (grant_applies s) (indexed_grants s gs)))"
    and "pa_grants api = Some gs"
  shows "\<exists>e. reconcilePolicyConfigMap parse_url digest encode decode now op api s cm =
    (Some (PolicyRejected e), cm, pa_pods api)"
proof -
  have "Stamp digest (Some (render_document op s gs)) [] = Inr d"
    using assms(1) by (auto simp: renderGatewayPolicy_def Let_def split: if_splits sum.splits)
  then have "Validate parse_url digest (Some d) = validateContent parse_url (render_document op s gs)"
    by (rule Validate_stamped)
  moreover have "validateGrants (dc_grants (render_document op s gs)) \<noteq> None"
    using assms(3) by (auto simp: validateGrants_None comp_def)
  ultimately have "Validate parse_url digest (Some d) \<noteq> None"
    using validateContent_None [of parse_url "render_document op s gs"] by simp
  then obtain e where "Validate parse_url digest (Some d) = Some e" by blast
  then show ?thesis using assms(1,2,4) by (simp add: reconcilePolicyConfigMap_def)
qed

section \<open>From the operator to the gateway\<close>

text \<open>What \<open>json.Unmarshal\<close> of \<open>json.MarshalIndent\<close> is assumed to give for a document: the document,
  without the private index; an encoding is never empty.\<close>

definition json_faithful :: "(document \<Rightarrow> gostring) \<Rightarrow> (gostring \<Rightarrow> document option) \<Rightarrow> document \<Rightarrow> bool" where
  "json_faithful encode decode v \<longleftrightarrow> encode v \<noteq> [] \<and> decode (encode v) = Some v \<and> dc_compiled v = None"

definition policy_payload :: "config_map option \<Rightarrow> gostring" where
  "policy_payload cm =
     (case cm of None \<Rightarrow> []
      | Some c \<Rightarrow> (case map_of (cm_data c) gatewayPolicyFileName of None \<Rightarrow> [] | Some x \<Rightarrow> x))"

lemma renderGatewayPolicy_Inr:
  assumes "renderGatewayPolicy digest op s listed = Inr d"
  obtains gs where "listed = Some gs" "Stamp digest (Some (render_document op s gs)) [] = Inr d"
  using assms by (auto simp: renderGatewayPolicy_def Let_def split: option.splits if_splits sum.splits)

lemma stamped_revision:
  assumes "Stamp digest (Some v) t = Inr d"
  shows "ComputeRevision digest (Some d) = Inr (dc_revision d)" "dc_compiled d = dc_compiled v"
  using assms by (auto simp: Stamp_result ComputeRevision_def canonical_def)

lemma canonical_same:
  assumes "canonical a = canonical b" and "dc_revision a = dc_revision b" and "dc_compiled a = dc_compiled b"
  shows "a = b\<lparr>dc_generated_at := dc_generated_at a\<rparr>"
  using assms by (cases a; cases b) (simp add: canonical_def)

lemma Validate_dated [simp]:
  "Validate parse_url digest (Some (d\<lparr>dc_generated_at := g\<rparr>)) = Validate parse_url digest (Some d)"
proof -
  have "d\<lparr>dc_generated_at := g\<rparr> =
      d\<lparr>dc_schema_version := dc_schema_version d, dc_generated_at := g, dc_revision := dc_revision d\<rparr>"
    by simp
  then have "validateContent parse_url (d\<lparr>dc_generated_at := g\<rparr>) = validateContent parse_url d"
    using validateContent_meta by metis
  moreover have "validateVersion digest (d\<lparr>dc_generated_at := g\<rparr>) = validateVersion digest d"
    by (simp add: validateVersion_def ComputeRevision_def canonical_def Let_def)
  ultimately show ?thesis by (simp add: Validate_def)
qed

text \<open>The payload the operator leaves decodes to the rendered document with some date.\<close>

lemma payload_of_rendered:
  assumes "ComputeRevision digest (Some d) = Inr (dc_revision d)" and "dc_compiled d = None"
    and "renderPolicyConfigMapData digest encode decode now existing d = Inr data"
    and "json_faithful encode decode (d\<lparr>dc_generated_at := format_rfc3339 now\<rparr>)"
    and "\<forall>prev. decode existing = Some prev \<longrightarrow> json_faithful encode decode prev \<and>
           (digest (canonical prev) = digest (canonical d) \<longrightarrow> canonical prev = canonical d)"
  shows "data \<noteq> [] \<and> (\<exists>g. decode data = Some (d\<lparr>dc_generated_at := g\<rparr>))"
proof (cases "kept_payload digest encode decode existing d")
  case None
  then have "data = encode (d\<lparr>dc_generated_at := format_rfc3339 now\<rparr>)"
    using assms(3) by (auto simp: renderPolicyConfigMapData_def Let_def split: if_splits)
  then show ?thesis using assms(4) by (auto simp: json_faithful_def)
next
  case (Some kept)
  then have data: "data = kept" using assms(3) by (simp add: renderPolicyConfigMapData_def)
  from Some obtain prev where prev: "decode existing = Some prev" "dc_revision prev = dc_revision d"
    "ComputeRevision digest (Some prev) = Inr (dc_revision prev)" "kept = encode prev"
    by (auto simp: kept_payload_def Let_def split: if_splits option.splits)
  have "digest (canonical prev) = digest (canonical d)"
    using assms(1) prev(2,3) unfolding ComputeRevision_def by (metis option.case(2) same_append_eq sum.inject(2))
  then have "prev = d\<lparr>dc_generated_at := dc_generated_at prev\<rparr>"
    using canonical_same [of prev d] assms(2,5) prev(1,2) by (auto simp: json_faithful_def)
  then show ?thesis using assms(5) prev(1,4) data by (auto simp: json_faithful_def)
qed

lemma reconcile_wrote:
  assumes "reconcilePolicyConfigMap parse_url digest encode decode now op api s cm = (None, Some new, pods)"
    and "GatewayIsEnabled (ms_gateway (mo_spec s))" and "renderGatewayPolicy digest op s (pa_grants api) = Inr d"
  shows "Validate parse_url digest (Some d) = None"
    and "renderPolicyConfigMapData digest encode decode now (policy_payload cm) d = Inr (policy_payload (Some new))"
proof -
  have w: "Validate parse_url digest (Some d) = None \<and>
      (\<exists>u. write_config_map (\<lambda>existing. renderPolicyConfigMapData digest encode decode now existing d) api s cm = Inr (new, u))"
    using assms by (auto simp: reconcilePolicyConfigMap_def split: option.splits sum.splits prod.splits)
  then show "Validate parse_url digest (Some d) = None" ..
  show "renderPolicyConfigMapData digest encode decode now (policy_payload cm) d = Inr (policy_payload (Some new))"
    using w by (cases cm) (auto simp: write_config_map_def policy_payload_def Let_def split: if_splits sum.splits)
qed

text \<open>What the gateway decides with when it loads what the operator wrote.\<close>

abbreviation loaded_document :: "gateway_config \<Rightarrow> document \<Rightarrow> document" where
  "loaded_document cfg v \<equiv> the (Compile (Some (applyPolicyDefaults cfg v)))"

lemma gateway_loads_written:
  assumes "reconcilePolicyConfigMap parse_url digest encode decode now op api s cm = (None, Some new, pods)"
    and "GatewayIsEnabled (ms_gateway (mo_spec s))" and "renderGatewayPolicy digest op s (pa_grants api) = Inr d"
    and "json_faithful encode decode (d\<lparr>dc_generated_at := format_rfc3339 now\<rparr>)"
    and "\<forall>prev. decode (policy_payload cm) = Some prev \<longrightarrow> json_faithful encode decode prev \<and>
           (digest (canonical prev) = digest (canonical d) \<longrightarrow> canonical prev = canonical d)"
  shows "\<exists>g. loadPolicy parse_url digest decode cfg (FileBytes (policy_payload (Some new))) =
    Inr (loaded_document cfg (d\<lparr>dc_generated_at := g\<rparr>))"
proof -
  obtain gs where gs: "Stamp digest (Some (render_document op s gs)) [] = Inr d"
    using renderGatewayPolicy_Inr [OF assms(3)] by blast
  note w = reconcile_wrote [OF assms(1-3)]
  have "dc_compiled d = None" using stamped_revision(2) [OF gs] by simp
  from payload_of_rendered [OF stamped_revision(1) [OF gs] this w(2) assms(4,5)] obtain g
    where "policy_payload (Some new) \<noteq> []" "decode (policy_payload (Some new)) = Some (d\<lparr>dc_generated_at := g\<rparr>)"
    by blast
  then show ?thesis using w(1) by (auto simp: loadPolicy_def read_policy_def)
qed

text \<open>A grant object of the cluster that authorizes the caller on the server at an instant; its
  expiry counts in whole seconds, as RFC 3339 writes it.\<close>

definition grant_object :: "mcp_server \<Rightarrow> access_grant list \<Rightarrow> identity \<Rightarrow> time \<Rightarrow> bool" where
  "grant_object s gs idn at \<longleftrightarrow>
     annotation (mo_meta s) retiring_annotation \<noteq> ''true'' \<and>
     (\<exists>g \<in> set gs.
        effectiveServerReference (om_namespace (ag_meta g)) (gn_server_ref (ag_spec g)) =
          (om_namespace (mo_meta s), om_name (mo_meta s)) \<and>
        (annotation (ag_meta g) server_uid_annotation = [] \<or>
         annotation (ag_meta g) server_uid_annotation = om_uid (mo_meta s)) \<and>
        \<not> gn_disabled (ag_spec g) \<and>
        (case gn_expires_at (ag_spec g) of None \<Rightarrow> True | Some t \<Rightarrow> at < t - t mod second) \<and>
        subjectMatchesTeam (sj_human_id (gn_subject (ag_spec g))) (sj_agent_id (gn_subject (ag_spec g)))
          (subjectTeamIDForServer (ms_team_id (mo_spec s)) (sj_team_id (gn_subject (ag_spec g)))) idn)"

lemma subjectTeam_trimmed [simp]: "subjectTeamIDForServer (trim_space t) u = subjectTeamIDForServer t u"
  by (simp add: subjectTeamIDForServer_def)

lemma active_grant_object:
  assumes "g \<in> set (rendered_grants s gs)" and "stored_grant g"
    and "active_for idn at (render_grant (trim_space (ms_team_id (mo_spec s))) g)"
  shows "grant_object s gs idn at"
proof -
  have a: "g \<in> set gs" "grant_applies s g" using assms(1) by (auto simp: indexed_grants_def)
  have "case gn_expires_at (ag_spec g) of None \<Rightarrow> True | Some t \<Rightarrow> at < t - t mod second"
    using assms(2,3) parse_format_rfc3339
    by (fastforce simp: active_for_def isExpiredAt_def stored_grant_def crd_grant_def split: option.splits)
  then show ?thesis
    using a assms(3) unfolding grant_object_def
    by (auto simp: active_for_def grant_applies_def serverReferenceMatches_def Let_def split: if_splits intro!: bexI [of _ g])
qed

lemma loaded_document_sel [simp]:
  "dc_grants (loaded_document cfg v) = dc_grants v"
  "activated (loaded_document cfg v)"
  "dc_policy (loaded_document cfg v) = dc_policy (applyPolicyDefaults cfg v)"
  "UsesDelegatedHeaders (Some (loaded_document cfg v)) = UsesDelegatedHeaders (Some v)"
  by (auto simp: Compile_def applyPolicyDefaults_def Let_def activated_def UsesDelegatedHeaders_def
      default_token_header_def split: option.splits)

lemma stamped_keeps:
  assumes "Stamp digest (Some v) t = Inr d"
  shows "dc_grants d = dc_grants v" "dc_policy d = dc_policy v"
    "UsesDelegatedHeaders (Some d) = UsesDelegatedHeaders (Some v)"
  using assms by (auto simp: Stamp_result)

text \<open>C11: What the operator writes, the gateway loads; and on a server that does not delegate its headers
  (its auth is not in header mode, which has no grants) and whose policy is an allow-list that denies by
  default, the gateway then allows a tool call outright, and not as the would-be denial of a monitor
  grant, only if an access grant object of the cluster authorizes it: one that refers to this very
  server, is enabled and unexpired and has the caller as its subject. On such a server that is
  being retired it allows none. This covers a config map that is created, updated, or kept because
  its revision is current; the assumptions are that JSON round-trips and that the digest tells the
  stored policy from the new one.\<close>

theorem gateway_call_needs_grant_object:
  assumes "reconcilePolicyConfigMap parse_url digest encode decode now op api s cm = (None, Some new, pods)"
    and "GatewayIsEnabled (ms_gateway (mo_spec s))"
    and "pa_grants api = Some gs" and "\<forall>g \<in> set gs. stored_grant g"
    and "renderGatewayPolicy digest op s (Some gs) = Inr d"
    and "json_faithful encode decode (d\<lparr>dc_generated_at := format_rfc3339 now\<rparr>)"
    and "\<forall>prev. decode (policy_payload cm) = Some prev \<longrightarrow> json_faithful encode decode prev \<and>
           (digest (canonical prev) = digest (canonical d) \<longrightarrow> canonical prev = canonical d)"
    and "ms_policy (mo_spec s) = Some p" and "pc_mode p = ''allow-list''" and "pc_default_decision p = ''deny''"
    and "\<not> AuthUsesHeaderMode (ms_auth (mo_spec s))"
  shows "\<exists>d'. loadPolicy parse_url digest decode cfg (FileBytes (policy_payload (Some new))) = Inr d' \<and>
    (\<forall>req t wall. IsToolCallMethod (rq_rpc_method req) \<and> de_allowed (Authorize (Some d') req t wall) \<and>
       \<not> de_would_deny (Authorize (Some d') req t wall) \<longrightarrow> grant_object s gs (rq_identity req) (clock t wall))"
proof -
  obtain g where load: "loadPolicy parse_url digest decode cfg (FileBytes (policy_payload (Some new))) =
      Inr (loaded_document cfg (d\<lparr>dc_generated_at := g\<rparr>))"
    using gateway_loads_written [OF assms(1,2) _ assms(6,7)] assms(3,5) by metis
  let ?d = "loaded_document cfg (d\<lparr>dc_generated_at := g\<rparr>)"
  have st: "Stamp digest (Some (render_document op s gs)) [] = Inr d" using renderGatewayPolicy_Inr [OF assms(5)] by auto
  have cf: "dc_policy d = Some (render_config (mo_spec s))" using stamped_keeps(2) [OF st] by simp
  have pol: "\<exists>c. dc_policy ?d = Some c \<and> cf_mode c = ''allow-list'' \<and> cf_default_decision c = ''deny''"
    unfolding loaded_document_sel(3)
    using assms(8-10) cf
    by (simp add: applyPolicyDefaults_def Let_def default_config_def or_default_def render_config_def)
  have neq: "\<not> equal_fold ''allow-list'' ''observe''" "\<not> equal_fold ''deny'' ''allow''"
    by (simp_all add: equal_fold_def keyword_blank)
  have "grant_object s gs (rq_identity req) (clock t wall)"
    if c: "IsToolCallMethod (rq_rpc_method req)" "de_allowed (Authorize (Some ?d) req t wall)"
      "\<not> de_would_deny (Authorize (Some ?d) req t wall)" for req t wall
  proof -
    have e: "enforces ?d req" "\<not> defaultDecisionAllow (Some ?d)"
      using pol neq c(1) assms(11) stamped_keeps(3) [OF st]
      by (auto simp: enforces_def policyModeObserve_def defaultDecisionAllow_def rendered_delegated)
    obtain trust side risk where m: "resolveToolMetadata (dc_tools ?d) (rq_tool_name req) = (trust, side, risk)"
      by (cases "resolveToolMetadata (dc_tools ?d) (rq_tool_name req)") auto
    from allowed_call_active_grant [OF loaded_document_sel(2) e m c(2,3)] obtain r
      where r: "r \<in> set (dc_grants ?d)" "active_for (rq_identity req) (clock t wall) r" by blast
    have "dc_grants ?d = map (render_grant (trim_space (ms_team_id (mo_spec s)))) (rendered_grants s gs)"
      using stamped_keeps(1) [OF st] by simp
    then obtain a where o: "a \<in> set (rendered_grants s gs)" "r = render_grant (trim_space (ms_team_id (mo_spec s))) a"
      using r(1) by (auto simp del: set_filter)
    then have "stored_grant a" using assms(4) by (auto simp: indexed_grants_def)
    with active_grant_object [OF o(1)] r(2) o(2) show ?thesis by blast
  qed
  with load show ?thesis by blast
qed

section \<open>Instances\<close>

definition demo_meta :: "gostring \<Rightarrow> gostring \<Rightarrow> gostring \<Rightarrow> object_meta" where
  "demo_meta ns name uid =
     \<lparr>om_name = name, om_namespace = ns, om_uid = uid, om_annotations = [], om_creation = 0, om_deletion = None\<rparr>"

definition demo_spec :: server_spec where
  "demo_spec =
     \<lparr>ms_credential_bindings = [], ms_team_id = ''red'', ms_image = ''demo'', ms_image_tag = [], ms_replicas = None,
      ms_port = 8, ms_service_port = 80, ms_ingress_path = [], ms_ingress_host = [], ms_public_path_prefix = [],
      ms_ingress_class = [], ms_ingress_annotations = [], ms_secret_env_vars = [],
      ms_tools = [\<lparr>tc_name = ''echo'', tc_description = [], tc_required_trust = [], tc_side_effect = ''read'',
                    tc_risk_level = [], tc_labels = []\<rparr>],
      ms_auth = None,
      ms_policy = Some \<lparr>pc_mode = ''allow-list'', pc_default_decision = ''deny'', pc_enforce_on = [],
        pc_policy_version = [], pc_delegated_tool_rules = [], pc_max_side_effect = []\<rparr>,
      ms_session = None, ms_gateway = None, ms_analytics = None, ms_rollout = None\<rparr>"

definition demo_server :: mcp_server where
  "demo_server = \<lparr>mo_meta = demo_meta ''team'' ''demo'' ''uid-1'', mo_spec = demo_spec\<rparr>"

definition demo_options :: default_options where
  "demo_options = \<lparr>do_ingress_host = [], do_ingress_tls = False, do_ingest_url = [], do_oauth_issuer = []\<rparr>"

definition demo_operator :: operator_config where
  "demo_operator =
     \<lparr>op_cluster_name = [], op_trust_domain = [], op_certificates = False, op_mtls_issuer = [],
      op_defaults = demo_options\<rparr>"

definition demo_grant :: "gostring \<Rightarrow> access_grant" where
  "demo_grant ns =
     \<lparr>ag_meta = demo_meta ns ''readers'' ''uid-2'',
      ag_spec = \<lparr>gn_server_ref = \<lparr>rf_name = ''demo'', rf_namespace = ''team''\<rparr>,
        gn_subject = \<lparr>sj_human_id = ''alice'', sj_agent_id = [], sj_team_id = []\<rparr>, gn_mode = [],
        gn_max_trust = ''low'', gn_allowed_side_effects = [''read''], gn_policy_version = [],
        gn_disabled = False, gn_expires_at = Some (1000000 * second),
        gn_tool_rules = [\<lparr>ru_name = ''echo'', ru_decision = ''allow'', ru_required_trust = []\<rparr>]\<rparr>\<rparr>"

abbreviation demo_settled :: mcp_server where
  "demo_settled \<equiv> defaultedMCPServerForReconcile demo_options demo_server"

abbreviation demo_digest :: "document \<Rightarrow> gostring" where
  "demo_digest \<equiv> \<lambda>_. ''d''"

lemma demo_admitted:
  "crd_server (mo_spec demo_server)" "validateMCPServerSpec (\<lambda>_. None) (\<lambda>_. None) demo_settled = []"
  "GatewayIsEnabled (ms_gateway (mo_spec demo_settled))"
  "trim_space (om_name (mo_meta demo_settled)) \<noteq> []" "trim_space (om_uid (mo_meta demo_settled)) \<noteq> []"
  by code_simp+

lemma demo_stored: "stored_grant (demo_grant ''team'')"
proof -
  have "validate_grant (demo_grant ''team'') = []" "trim_space (om_name (ag_meta (demo_grant ''team''))) \<noteq> []"
    by code_simp+
  moreover have "crd_grant (ag_spec (demo_grant ''team''))"
    by (simp add: crd_grant_def demo_grant_def year_10000_def days_before_year_def second_def)
  ultimately show ?thesis by (simp add: stored_grant_def)
qed

lemma demo_rendered:
  "distinct (map (\<lambda>g. om_name (ag_meta g)) (filter (grant_applies demo_settled) (indexed_grants demo_settled [demo_grant ''team''])))"
  "\<not> AuthUsesHeaderMode (ms_auth (mo_spec demo_settled))"
  by code_simp+


text \<open>A second team grants access to the same server under the same name.\<close>

lemma demo_renders:
  "\<exists>d. renderGatewayPolicy demo_digest demo_operator demo_settled (Some gs) = Inr d \<and> dc_compiled d = None"
  using demo_rendered(2) by (auto simp: renderGatewayPolicy_def Let_def Stamp_result)

definition demo_api :: "access_grant list \<Rightarrow> policy_api" where
  "demo_api gs = \<lparr>pa_get_ok = True, pa_delete_ok = True, pa_write_ok = True, pa_grants = Some gs, pa_pods = None\<rparr>"

theorem same_name_grants_freeze_policy_instance:
  "\<exists>e. reconcilePolicyConfigMap (\<lambda>_. None) demo_digest (\<lambda>_. ''{}'') (\<lambda>_. None) 1 demo_operator
     (demo_api [demo_grant ''team'', demo_grant ''other'']) demo_settled None = (Some (PolicyRejected e), None, None)"
proof -
  let ?gs = "[demo_grant ''team'', demo_grant ''other'']"
  obtain d where d: "renderGatewayPolicy demo_digest demo_operator demo_settled (Some ?gs) = Inr d"
    using demo_renders by blast
  have "\<not> distinct (map (\<lambda>g. om_name (ag_meta g)) (filter (grant_applies demo_settled) (indexed_grants demo_settled ?gs)))"
    by code_simp
  from same_name_grants_freeze_policy [OF d demo_admitted(3) this, of "demo_api ?gs" "\<lambda>_. None" "\<lambda>_. ''{}''" "\<lambda>_. None" 1 None]
  show ?thesis by (simp add: demo_api_def)
qed

theorem gateway_call_needs_grant_object_instance:
  "\<exists>decode new d'.
     reconcilePolicyConfigMap (\<lambda>_. None) demo_digest (\<lambda>_. ''{}'') decode 1 demo_operator
       (demo_api [demo_grant ''team'']) demo_settled None = (None, Some new, None) \<and>
     loadPolicy (\<lambda>_. None) demo_digest decode sample_config (FileBytes (policy_payload (Some new))) = Inr d' \<and>
     (\<forall>req t wall. IsToolCallMethod (rq_rpc_method req) \<and> de_allowed (Authorize (Some d') req t wall) \<and>
        \<not> de_would_deny (Authorize (Some d') req t wall) \<longrightarrow>
        grant_object demo_settled [demo_grant ''team''] (rq_identity req) (clock t wall))"
proof -
  let ?gs = "[demo_grant ''team'']"
  obtain d where d: "renderGatewayPolicy demo_digest demo_operator demo_settled (Some ?gs) = Inr d" "dc_compiled d = None"
    using demo_renders by blast
  define decode where "decode = (\<lambda>x. if x = ''{}'' then Some (d\<lparr>dc_generated_at := format_rfc3339 1\<rparr>) else None)"
  define new where "new = \<lparr>cm_labels = [(''app'', ''demo''), (''app.kubernetes.io/managed-by'', ''mcp-runtime'')],
    cm_data = [(gatewayPolicyFileName, ''{}'')], cm_controller = Some (policy_controller demo_settled)\<rparr>"
  have stored: "\<forall>g \<in> set ?gs. stored_grant g" using demo_stored by simp
  from rendered_content_valid [OF _ demo_admitted(2-5) stored demo_rendered(1), of demo_operator]
    settled_spec_defaulted [OF demo_admitted(1)] demo_rendered(2)
  have "validateContent (\<lambda>_. None) (render_document demo_operator demo_settled ?gs) = None" by blast
  moreover have "Stamp demo_digest (Some (render_document demo_operator demo_settled ?gs)) [] = Inr d"
    using renderGatewayPolicy_Inr [OF d(1)] by auto
  ultimately have v: "Validate (\<lambda>_. None) demo_digest (Some d) = None" using Validate_stamped by metis
  have meta: "mo_meta demo_settled = demo_meta ''team'' ''demo'' ''uid-1''"
    by (simp add: defaultedMCPServerForReconcile_def demo_server_def)
  have rec: "reconcilePolicyConfigMap (\<lambda>_. None) demo_digest (\<lambda>_. ''{}'') decode 1 demo_operator
      (demo_api ?gs) demo_settled None = (None, Some new, None)"
    using demo_admitted(3) d v meta
    by (simp add: reconcilePolicyConfigMap_def demo_api_def write_config_map_def owned_by_other_def same_owner_def policy_controller_def renderPolicyConfigMapData_def
        kept_payload_def maxGatewayPolicyBytes_def new_def demo_meta_def)
  obtain p where p: "ms_policy (mo_spec demo_settled) = Some p" "pc_mode p = ''allow-list''" "pc_default_decision p = ''deny''"
  proof -
    have "pc_mode (the (ms_policy (mo_spec demo_settled))) = ''allow-list''"
      "pc_default_decision (the (ms_policy (mo_spec demo_settled))) = ''deny''"
      "ms_policy (mo_spec demo_settled) \<noteq> None" by code_simp+
    then show thesis using that by force
  qed
  have faithful: "json_faithful (\<lambda>_. ''{}'') decode (d\<lparr>dc_generated_at := format_rfc3339 1\<rparr>)"
    using d(2) by (simp add: json_faithful_def decode_def)
  have first: "\<forall>prev. decode (policy_payload None) = Some prev \<longrightarrow> json_faithful (\<lambda>_. ''{}'') decode prev \<and>
      (demo_digest (canonical prev) = demo_digest (canonical d) \<longrightarrow> canonical prev = canonical d)"
    by (simp add: policy_payload_def decode_def)
  have "pa_grants (demo_api ?gs) = Some ?gs" by (simp add: demo_api_def)
  from gateway_call_needs_grant_object [OF rec demo_admitted(3) this stored d(1) faithful first p demo_rendered(2), of sample_config]
  show ?thesis using rec by blast
qed

end
