(* ===== verification/GoMap.thy ===== *)
theory GoMap
  imports Main
begin

text \<open>
  Go maps that bounded tables keep their entries in, as lists of pairs with distinct keys. The
  order of the list is the order in which the code ranges over the map, about which nothing is
  assumed.
\<close>

definition put_item :: "'k \<Rightarrow> 'v \<Rightarrow> ('k \<times> 'v) list \<Rightarrow> ('k \<times> 'v) list" where
  "put_item k v xs = filter (\<lambda>e. fst e \<noteq> k) xs @ [(k, v)]"

definition del_item :: "'k \<Rightarrow> ('k \<times> 'v) list \<Rightarrow> ('k \<times> 'v) list" where
  "del_item k xs = filter (\<lambda>e. fst e \<noteq> k) xs"

section \<open>Lookups\<close>

lemma map_of_other: "x \<noteq> k \<Longrightarrow> map_of (filter (\<lambda>e. fst e \<noteq> k) xs) x = map_of xs x"
  by (induction xs) auto

lemma map_of_removed: "map_of (filter (\<lambda>e. fst e \<noteq> k) xs) k = None"
  by (auto simp: map_of_eq_None_iff)

lemma map_of_put_item [simp]: "map_of (put_item k v xs) = (map_of xs)(k \<mapsto> v)"
proof
  show "map_of (put_item k v xs) x = ((map_of xs)(k \<mapsto> v)) x" for x
    by (cases "x = k") (simp_all add: put_item_def map_add_def map_of_removed map_of_other split: option.split)
qed

lemma map_of_del_item [simp]: "map_of (del_item k xs) = (map_of xs)(k := None)"
proof
  show "map_of (del_item k xs) x = ((map_of xs)(k := None)) x" for x
    by (cases "x = k") (simp_all add: del_item_def map_of_removed map_of_other)
qed

lemma map_of_filter_distinct:
  "distinct (map fst items) \<Longrightarrow> map_of (filter keep items) key =
     (case map_of items key of None \<Rightarrow> None | Some item \<Rightarrow> if keep (key, item) then Some item else None)"
proof (induction items)
  case (Cons x items)
  then have "map_of items (fst x) = None" by (auto simp: map_of_eq_None_iff)
  with Cons show ?case by (cases x) (auto split: option.splits)
qed simp

section \<open>Entries\<close>

lemma set_put_item: "set (put_item k v xs) \<subseteq> insert (k, v) (set xs)"
  by (auto simp: put_item_def)

lemma set_put_item_iff: "e \<in> set (put_item k v xs) \<longleftrightarrow> e = (k, v) \<or> e \<in> set xs \<and> fst e \<noteq> k"
  by (auto simp: put_item_def)

lemma set_del_item_iff: "e \<in> set (del_item k xs) \<longleftrightarrow> e \<in> set xs \<and> fst e \<noteq> k"
  by (auto simp: del_item_def)

lemma length_put_item: "length (put_item k v xs) \<le> Suc (length xs)"
  by (simp add: put_item_def)

lemma length_put_known: "map_of xs k = Some v \<Longrightarrow> length (put_item k w xs) \<le> length xs"
proof (induction xs)
  case (Cons x xs)
  have "length (filter (\<lambda>e. fst e \<noteq> k) xs) \<le> length xs" by simp
  with Cons show ?case by (cases x) (auto simp: put_item_def split: if_splits)
qed simp

lemma length_del_item: "length (del_item k xs) \<le> length xs"
  by (simp add: del_item_def)

lemma distinct_put_item: "distinct (map fst xs) \<Longrightarrow> distinct (map fst (put_item k v xs))"
  by (auto simp: put_item_def distinct_map_filter)

lemma distinct_filter_items: "distinct (map fst xs) \<Longrightarrow> distinct (map fst (filter P xs))"
  by (rule distinct_map_filter)

lemma distinct_del_item: "distinct (map fst xs) \<Longrightarrow> distinct (map fst (del_item k xs))"
  by (simp add: del_item_def distinct_map_filter)

end
