(* ===== verification/CredentialStore.thy ===== *)
theory CredentialStore
  imports CredentialTypes SessionStore
begin

text \<open>
  The credential metadata of the platform (\<open>services/platform-api/internal/platformstore/credentials.go\<close>):
  who may manage sources and bindings, the optimistic writes, and the resolution of credentials in
  three phases around a provider read that holds no lock.

  The tables are lists; the sessions, agents and deleted users are those of the session store. A
  row of \<open>credential_metadata\<close> is its JSON data: every write sets the revision of the row and of the
  data to the same number, so the latter stands for both. Identifiers are compared as text. A
  nullable column is an \<open>option\<close>. Driver errors roll back and are not modelled, except where the
  code promises something about them: the audit record and the commit of a resolution.
\<close>

section \<open>Tables\<close>

record principal =
  pr_role :: gostring
  pr_subject :: gostring
  pr_is_service :: bool

record user_row =
  us_id :: gostring
  us_role :: gostring

record team_row =
  te_id :: gostring
  te_deleted :: bool

record membership_row =
  mb_user :: gostring
  mb_team :: gostring
  mb_role :: gostring
  mb_deleted :: bool

record namespace_row =
  nr_namespace :: namespace
  nr_user :: "gostring option"
  nr_team :: "gostring option"
  nr_deleted :: bool

record audit_row =
  al_user :: gostring
  al_action :: gostring
  al_resource :: gostring
  al_namespace :: namespace
  al_status :: gostring
  al_agent :: gostring
  al_team :: gostring

record cred_db =
  cd_store :: session_db
  cd_users :: "user_row list"
  cd_teams :: "team_row list"
  cd_members :: "membership_row list"
  cd_namespaces :: "namespace_row list"
  cd_sources :: "source list"
  cd_bindings :: "cred_binding list"
  cd_audit :: "audit_row list"

datatype cred_error =
    CredDenied
  | CredConflict
  | CredNotFound
  | CredUnavailable
  | CredSourceInvalid source_error
  | CredBindingInvalid binding_error

definition UserID :: "principal \<Rightarrow> gostring" where
  "UserID p = trim_space (pr_subject p)"

definition active_user :: "cred_db \<Rightarrow> gostring \<Rightarrow> user_row \<Rightarrow> bool" where
  "active_user db uid u \<longleftrightarrow> us_id u = uid \<and> \<not> List.member (db_deleted_users (cd_store db)) uid"

text \<open>A membership row that counts: user and team as given, neither the row nor the team deleted.\<close>

definition active_member :: "cred_db \<Rightarrow> gostring \<Rightarrow> gostring \<Rightarrow> membership_row \<Rightarrow> bool" where
  "active_member db uid team m \<longleftrightarrow>
     mb_user m = uid \<and> mb_team m = team \<and> \<not> mb_deleted m \<and>
     list_ex (\<lambda>t. te_id t = team \<and> \<not> te_deleted t) (cd_teams db)"

section \<open>Authority\<close>

definition service_admin :: "principal \<Rightarrow> bool" where
  "service_admin p \<longleftrightarrow> pr_is_service p \<and> pr_role p = ''admin''"

definition owns_namespace :: "cred_db \<Rightarrow> gostring \<Rightarrow> namespace \<Rightarrow> bool \<Rightarrow> bool" where
  "owns_namespace db uid ns manage \<longleftrightarrow>
     list_ex (\<lambda>n. nr_namespace n = ns \<and> \<not> nr_deleted n \<and>
       (nr_user n = Some uid \<or>
        (case nr_team n of
           None \<Rightarrow> False
         | Some team \<Rightarrow> list_ex (\<lambda>m. active_member db uid team m \<and> (manage \<longrightarrow> mb_role m = ''owner''))
                          (cd_members db)))) (cd_namespaces db)"

definition credentialNamespace :: "cred_db \<Rightarrow> principal \<Rightarrow> namespace \<Rightarrow> bool \<Rightarrow> cred_error option" where
  "credentialNamespace db p ns manage =
     (if service_admin p then None
      else if UserID p = [] then Some CredDenied
      else if list_ex (\<lambda>u. active_user db (UserID p) u \<and>
                (us_role u = ''admin'' \<or> owns_namespace db (us_id u) ns manage)) (cd_users db)
      then None else Some CredDenied)"

definition credentialAdmin :: "cred_db \<Rightarrow> principal \<Rightarrow> cred_error option" where
  "credentialAdmin db p =
     (if service_admin p then None
      else if list_ex (\<lambda>u. active_user db (UserID p) u \<and> us_role u = ''admin'') (cd_users db)
      then None else Some CredDenied)"

definition credentialSourceAuthority :: "cred_db \<Rightarrow> principal \<Rightarrow> source \<Rightarrow> cred_error option" where
  "credentialSourceAuthority db p s =
     (if service_admin p then None
      else if list_ex (\<lambda>u. active_user db (UserID p) u \<and>
                (us_role u = ''admin'' \<or> us_id u = so_user_id s \<or>
                 list_ex (active_member db (us_id u) (so_team_id s)) (cd_members db))) (cd_users db)
      then None else Some CredDenied)"

definition credentialActor :: "principal \<Rightarrow> gostring" where
  "credentialActor p = (if pr_is_service p then [] else UserID p)"

definition credentialSubjects :: "cred_db \<Rightarrow> gostring \<Rightarrow> gostring \<Rightarrow> gostring \<Rightarrow> cred_error option" where
  "credentialSubjects db human agent team =
     (if list_ex (active_user db human) (cd_users db) \<and>
         list_ex (active_member db human team) (cd_members db) \<and>
         db_agents (cd_store db) agent = Some (''active'', team)
      then None else Some CredDenied)"

section \<open>Reading metadata\<close>

definition find_source :: "cred_db \<Rightarrow> namespace \<Rightarrow> gostring \<Rightarrow> source option" where
  "find_source db ns name = List.find (\<lambda>s. so_namespace s = ns \<and> so_name s = name) (cd_sources db)"

definition find_cred_binding :: "cred_db \<Rightarrow> namespace \<Rightarrow> gostring \<Rightarrow> cred_binding option" where
  "find_cred_binding db ns name = List.find (\<lambda>b. cr_namespace b = ns \<and> cr_name b = name) (cd_bindings db)"

definition read_source :: "cred_db \<Rightarrow> namespace \<Rightarrow> gostring \<Rightarrow> cred_error + source" where
  "read_source db ns name = (case find_source db ns name of None \<Rightarrow> Inl CredNotFound | Some s \<Rightarrow> Inr s)"

definition read_binding :: "cred_db \<Rightarrow> namespace \<Rightarrow> gostring \<Rightarrow> cred_error + cred_binding" where
  "read_binding db ns name = (case find_cred_binding db ns name of None \<Rightarrow> Inl CredNotFound | Some b \<Rightarrow> Inr b)"

datatype cred_item = SourceItem source | BindingItem cred_binding

definition ListCredentials :: "principal \<Rightarrow> namespace \<Rightarrow> gostring \<Rightarrow> cred_db \<Rightarrow> cred_error + cred_item list" where
  "ListCredentials p ns kind db =
     (if kind \<noteq> ''sources'' \<and> kind \<noteq> ''bindings'' then Inl CredDenied
      else
        (case credentialNamespace db p ns False of
           Some e \<Rightarrow> Inl e
         | None \<Rightarrow>
             if kind = ''sources'' then
               Inr (map SourceItem (filter (\<lambda>s. credentialSourceAuthority db p s = None)
                 (sort_key so_name (filter (\<lambda>s. so_namespace s = ns) (cd_sources db)))))
             else
               Inr (map BindingItem (sort_key cr_name (filter (\<lambda>b. cr_namespace b = ns) (cd_bindings db))))))"

section \<open>Writing metadata\<close>

definition audit_entry ::
  "gostring \<Rightarrow> gostring \<Rightarrow> namespace \<Rightarrow> gostring \<Rightarrow> gostring \<Rightarrow> gostring \<Rightarrow> gostring \<Rightarrow> audit_row" where
  "audit_entry human action ns name status agent team =
     \<lparr>al_user = human, al_action = action, al_resource = name, al_namespace = ns, al_status = status,
      al_agent = agent, al_team = team\<rparr>"

definition add_audit :: "audit_row list \<Rightarrow> cred_db \<Rightarrow> cred_db" where
  "add_audit rows db = db\<lparr>cd_audit := cd_audit db @ rows\<rparr>"

text \<open>The revision a write must bring: the stored one, or zero when there is none.\<close>

definition revision_ok :: "int option \<Rightarrow> int \<Rightarrow> bool" where
  "revision_ok current revision = (case current of None \<Rightarrow> revision = 0 | Some c \<Rightarrow> c = revision)"

definition upsert_source :: "source \<Rightarrow> source list \<Rightarrow> source list" where
  "upsert_source s xs = filter (\<lambda>x. \<not> (so_namespace x = so_namespace s \<and> so_name x = so_name s)) xs @ [s]"

definition upsert_binding :: "cred_binding \<Rightarrow> cred_binding list \<Rightarrow> cred_binding list" where
  "upsert_binding b xs = filter (\<lambda>x. \<not> (cr_namespace x = cr_namespace b \<and> cr_name x = cr_name b)) xs @ [b]"

text \<open>The owner a source names exists, and so does its namespace.\<close>

definition source_scope_exists :: "cred_db \<Rightarrow> source \<Rightarrow> bool" where
  "source_scope_exists db s \<longleftrightarrow>
     list_ex (\<lambda>n. nr_namespace n = so_namespace s \<and> \<not> nr_deleted n) (cd_namespaces db) \<and>
     (list_ex (active_user db (so_user_id s)) (cd_users db) \<or>
      list_ex (\<lambda>t. te_id t = so_team_id s \<and> \<not> te_deleted t) (cd_teams db))"

definition put_source ::
  "(gostring \<Rightarrow> vault_url option) \<Rightarrow> principal \<Rightarrow> source \<Rightarrow> cred_db \<Rightarrow> cred_error + cred_item \<times> cred_db" where
  "put_source parse p s db =
     (case source_validate parse s of
        Some e \<Rightarrow> Inl (CredSourceInvalid e)
      | None \<Rightarrow>
          (case credentialAdmin db p of
             Some e \<Rightarrow> Inl e
           | None \<Rightarrow>
               if \<not> source_scope_exists db s then Inl CredDenied
               else if \<not> revision_ok (map_option so_revision (find_source db (so_namespace s) (so_name s))) (so_revision s)
               then Inl CredConflict
               else
                 (let s1 = s\<lparr>so_revision := so_revision s + 1\<rparr>
                  in Inr (SourceItem s1,
                       add_audit [audit_entry (credentialActor p) ''credential_sources_write'' (so_namespace s)
                                    (so_name s) ''success'' [] []]
                         (db\<lparr>cd_sources := upsert_source s1 (cd_sources db)\<rparr>)))))"

text \<open>A binding needs its source to exist, to serve the binding's subject and to be within the
  writer's authority, and the subject to be active.\<close>

definition binding_source_check :: "principal \<Rightarrow> cred_binding \<Rightarrow> cred_db \<Rightarrow> cred_error option" where
  "binding_source_check p b db =
     (case read_source db (cr_namespace b) (cr_source b) of
        Inl e \<Rightarrow> Some e
      | Inr s \<Rightarrow>
          if \<not> Allows s (cr_human_id b) (cr_team_id b) then Some CredDenied
          else
            (case credentialSourceAuthority db p s of
               Some e \<Rightarrow> Some e
             | None \<Rightarrow> credentialSubjects db (cr_human_id b) (cr_agent_id b) (cr_team_id b)))"

definition put_binding :: "principal \<Rightarrow> cred_binding \<Rightarrow> cred_db \<Rightarrow> cred_error + cred_item \<times> cred_db" where
  "put_binding p b db =
     (case binding_validate b of
        Some e \<Rightarrow> Inl (CredBindingInvalid e)
      | None \<Rightarrow>
          (case credentialNamespace db p (cr_namespace b) True of
             Some e \<Rightarrow> Inl e
           | None \<Rightarrow>
               (case binding_source_check p b db of
                  Some e \<Rightarrow> Inl e
                | None \<Rightarrow>
                    if \<not> revision_ok (map_option cr_revision (find_cred_binding db (cr_namespace b) (cr_name b))) (cr_revision b)
                    then Inl CredConflict
                    else
                      (let b1 = b\<lparr>cr_revision := cr_revision b + 1\<rparr>
                       in Inr (BindingItem b1,
                            add_audit [audit_entry (credentialActor p) ''credential_bindings_write'' (cr_namespace b)
                                         (cr_name b) ''success'' [] []]
                              (db\<lparr>cd_bindings := upsert_binding b1 (cd_bindings db)\<rparr>))))))"

definition PutCredential ::
  "(gostring \<Rightarrow> vault_url option) \<Rightarrow> principal \<Rightarrow> source option \<Rightarrow> cred_binding option \<Rightarrow> cred_db
    \<Rightarrow> cred_error + cred_item \<times> cred_db" where
  "PutCredential parse p src bind db =
     (case (src, bind) of
        (Some s, None) \<Rightarrow> put_source parse p s db
      | (None, Some b) \<Rightarrow> put_binding p b db
      | _ \<Rightarrow> Inl CredDenied)"

definition delete_source :: "principal \<Rightarrow> namespace \<Rightarrow> gostring \<Rightarrow> int \<Rightarrow> cred_db \<Rightarrow> cred_error + cred_db" where
  "delete_source p ns name revision db =
     (case credentialAdmin db p of
        Some e \<Rightarrow> Inl e
      | None \<Rightarrow>
          if list_ex (\<lambda>b. cr_namespace b = ns \<and> cr_source b = name) (cd_bindings db) then Inl CredConflict
          else if map_option so_revision (find_source db ns name) \<noteq> Some revision then Inl CredConflict
          else Inr (add_audit [audit_entry (credentialActor p) ''credential_sources_delete'' ns name ''success'' [] []]
                 (db\<lparr>cd_sources := filter (\<lambda>s. \<not> (so_namespace s = ns \<and> so_name s = name)) (cd_sources db)\<rparr>)))"

definition delete_binding :: "principal \<Rightarrow> namespace \<Rightarrow> gostring \<Rightarrow> int \<Rightarrow> cred_db \<Rightarrow> cred_error + cred_db" where
  "delete_binding p ns name revision db =
     (case credentialNamespace db p ns True of
        Some e \<Rightarrow> Inl e
      | None \<Rightarrow>
          if map_option cr_revision (find_cred_binding db ns name) \<noteq> Some revision then Inl CredConflict
          else Inr (add_audit [audit_entry (credentialActor p) ''credential_bindings_delete'' ns name ''success'' [] []]
                 (db\<lparr>cd_bindings := filter (\<lambda>b. \<not> (cr_namespace b = ns \<and> cr_name b = name)) (cd_bindings db)\<rparr>)))"

definition DeleteCredential ::
  "principal \<Rightarrow> namespace \<Rightarrow> gostring \<Rightarrow> gostring \<Rightarrow> int \<Rightarrow> cred_db \<Rightarrow> cred_error + cred_db" where
  "DeleteCredential p ns kind name revision db =
     (if kind = ''sources'' then delete_source p ns name revision db
      else if kind = ''bindings'' then delete_binding p ns name revision db
      else Inl CredDenied)"

section \<open>Resolving credentials\<close>

record credential_snapshot =
  cp_session :: session_row
  cp_bindings :: "cred_binding list"
  cp_sources :: "source list"
  cp_human :: gostring
  cp_agent :: gostring
  cp_team :: gostring

definition row_zero :: session_row where
  "row_zero =
     \<lparr>se_id = [], se_uid = [], se_namespace = [], se_server_namespace = [], se_server_name = [],
      se_server_uid = [], se_grant_namespace = [], se_grant_name = [], se_authority_team = [],
      se_binding = binding_zero, se_created_at = zero_time, se_revoked_at = None, se_revocation_cause = [],
      se_labels = [], se_annotations = []\<rparr>"

definition snapshot_zero :: credential_snapshot where
  "snapshot_zero =
     \<lparr>cp_session = row_zero, cp_bindings = [], cp_sources = [], cp_human = [], cp_agent = [], cp_team = []\<rparr>"

text \<open>A session that may receive credentials from a server at an instant.\<close>

definition usable_session :: "server_ident \<Rightarrow> time \<Rightarrow> session_row \<Rightarrow> bool" where
  "usable_session srv now r \<longleftrightarrow>
     (case parse_rfc3339 (bd_expires_at (se_binding r)) of None \<Rightarrow> False | Some e \<Rightarrow> now < e) \<and>
     \<not> bd_revoked (se_binding r) \<and> se_revoked_at r = None \<and>
     se_server_namespace r = sn_namespace srv \<and> se_server_name r = sn_name srv \<and> se_server_uid r = sn_uid srv \<and>
     (case map_of (se_annotations r) pending_annotation of None \<Rightarrow> True | Some v \<Rightarrow> v = []) \<and>
     se_grant_name r \<noteq> [] \<and> se_grant_namespace r \<noteq> []"

text \<open>The loop over the names of the request: the bindings and sources of the tool, up to the
  first error.\<close>

fun load_bindings ::
  "cred_db \<Rightarrow> server_ident \<Rightarrow> resolution_request \<Rightarrow> gostring list \<Rightarrow> gostring list \<Rightarrow> credential_snapshot
    \<Rightarrow> credential_snapshot \<times> cred_error option" where
  "load_bindings db srv rq seen [] snap = (snap, None)"
| "load_bindings db srv rq seen (name # names) snap =
     (if List.member seen name \<or> \<not> NameValid name then (snap, Some CredDenied)
      else
        (case read_binding db (sn_namespace srv) name of
           Inl e \<Rightarrow> (snap, Some e)
         | Inr b \<Rightarrow>
             if \<not> List.member (cr_tools b) (rs_tool rq) then load_bindings db srv rq (name # seen) names snap
             else if cr_server b \<noteq> sn_name srv \<or> cr_server_uid b \<noteq> sn_uid srv \<or>
                     \<not> Matches b (cp_human snap) (cp_agent snap) (cp_team snap) (rs_session rq) (rs_tool rq)
             then (snap, Some CredDenied)
             else
               (case read_source db (sn_namespace srv) (cr_source b) of
                  Inl e \<Rightarrow> (snap, Some e)
                | Inr s \<Rightarrow>
                    if \<not> Allows s (cp_human snap) (cp_team snap) then (snap, Some CredDenied)
                    else load_bindings db srv rq (name # seen) names
                           (snap\<lparr>cp_bindings := cp_bindings snap @ [b], cp_sources := cp_sources snap @ [s]\<rparr>))))"

definition session_snapshot_of :: "session_row \<Rightarrow> credential_snapshot" where
  "session_snapshot_of r =
     snapshot_zero\<lparr>cp_session := r, cp_human := bd_human_id (se_binding r), cp_agent := bd_agent_id (se_binding r),
       cp_team := bd_team_id (se_binding r)\<rparr>"

definition loadCredentialSnapshot ::
  "cred_db \<Rightarrow> server_ident \<Rightarrow> resolution_request \<Rightarrow> time \<Rightarrow> credential_snapshot \<times> cred_error option" where
  "loadCredentialSnapshot db srv rq now =
     (case List.find (\<lambda>r. se_id r = rs_session rq) (db_sessions (cd_store db)) of
        None \<Rightarrow> (snapshot_zero, Some CredDenied)
      | Some r \<Rightarrow>
          (let snap = session_snapshot_of r
           in if \<not> usable_session srv now r then (snap, Some CredDenied)
              else
                (case credentialSubjects db (cp_human snap) (cp_agent snap) (cp_team snap) of
                   Some e \<Rightarrow> (snap, Some e)
                 | None \<Rightarrow> load_bindings db srv rq [] (rs_bindings rq) snap)))"

definition sameCredentialMetadata :: "credential_snapshot \<Rightarrow> credential_snapshot \<Rightarrow> bool" where
  "sameCredentialMetadata a b \<longleftrightarrow>
     se_id (cp_session a) = se_id (cp_session b) \<and>
     se_server_namespace (cp_session a) = se_server_namespace (cp_session b) \<and>
     se_server_name (cp_session a) = se_server_name (cp_session b) \<and>
     se_server_uid (cp_session a) = se_server_uid (cp_session b) \<and>
     se_grant_namespace (cp_session a) = se_grant_namespace (cp_session b) \<and>
     se_grant_name (cp_session a) = se_grant_name (cp_session b) \<and>
     cp_human a = cp_human b \<and> cp_agent a = cp_agent b \<and> cp_team a = cp_team b \<and>
     cp_bindings a = cp_bindings b \<and> cp_sources a = cp_sources b"

definition use_audit :: "credential_snapshot \<Rightarrow> namespace \<Rightarrow> gostring \<Rightarrow> audit_row list" where
  "use_audit snap ns status =
     map (\<lambda>name. audit_entry (cp_human snap) ''credential_access'' ns name status (cp_agent snap) (cp_team snap))
       (if cp_bindings snap = [] then [''resolution''] else map cr_name (cp_bindings snap))"

text \<open>A delivery: header names and values.\<close>

type_synonym delivery = "(gostring \<times> gostring) list"

type_synonym cred_authorizer = "session_row \<Rightarrow> cred_binding list \<Rightarrow> source list \<Rightarrow> cred_error option"

text \<open>What happens around a resolution: the clock and the authorization at each of the two
  checks, what others do to the tables between them, and whether the audit records and the commit
  succeed. \<open>'l\<close> is whatever state the provider read has.\<close>

record 'l resolution_env =
  ve_now1 :: time
  ve_now2 :: time
  ve_authorize1 :: cred_authorizer
  ve_authorize2 :: cred_authorizer
  ve_fetch :: "session_row \<Rightarrow> cred_binding list \<Rightarrow> source list \<Rightarrow> 'l \<Rightarrow> (cred_error + delivery) \<times> 'l"
  ve_others :: "cred_db \<Rightarrow> cred_db"
  ve_denied_audit_ok :: bool
  ve_audit_ok :: bool
  ve_commit_ok :: bool

definition deny_resolution ::
  "'l resolution_env \<Rightarrow> server_ident \<Rightarrow> credential_snapshot \<Rightarrow> cred_error \<Rightarrow> cred_db \<Rightarrow> (cred_error + delivery) \<times> cred_db" where
  "deny_resolution env srv snap e db =
     (if ve_denied_audit_ok env then (Inl e, add_audit (use_audit snap (sn_namespace srv) ''denied'') db)
      else (Inl CredUnavailable, db))"

text \<open>The second and third phase: \<open>db\<close> is the state under the lock.\<close>

definition commit_resolution ::
  "'l resolution_env \<Rightarrow> server_ident \<Rightarrow> resolution_request \<Rightarrow> credential_snapshot \<Rightarrow> delivery \<Rightarrow> cred_db
    \<Rightarrow> (cred_error + delivery) \<times> cred_db" where
  "commit_resolution env srv rq snap1 out db =
     (let (snap2, e0) = loadCredentialSnapshot db srv rq (ve_now2 env);
          e1 = (case e0 of Some e \<Rightarrow> Some e
                | None \<Rightarrow> if sameCredentialMetadata snap1 snap2 then None else Some CredDenied);
          e2 = (case e1 of Some e \<Rightarrow> Some e
                | None \<Rightarrow> ve_authorize2 env (cp_session snap2) (cp_bindings snap2) (cp_sources snap2))
      in case e2 of
           Some e \<Rightarrow> deny_resolution env srv snap2 e db
         | None \<Rightarrow>
             if \<not> ve_audit_ok env then (Inl CredUnavailable, db)
             else if \<not> ve_commit_ok env then (Inl CredUnavailable, db)
             else (Inr out, add_audit (use_audit snap2 (sn_namespace srv) ''success'') db))"

definition UseCredentials ::
  "'l resolution_env \<Rightarrow> server_ident \<Rightarrow> resolution_request \<Rightarrow> 'l \<Rightarrow> cred_db
    \<Rightarrow> ((cred_error + delivery) \<times> cred_db) \<times> 'l" where
  "UseCredentials env srv rq l db =
     (if rs_bindings rq = [] \<or> 16 < length (rs_bindings rq) then ((Inl CredDenied, db), l)
      else
        (case loadCredentialSnapshot db srv rq (ve_now1 env) of
           (snap1, Some e) \<Rightarrow> (deny_resolution env srv snap1 e db, l)
         | (snap1, None) \<Rightarrow>
             (case ve_authorize1 env (cp_session snap1) (cp_bindings snap1) (cp_sources snap1) of
                Some e \<Rightarrow> (deny_resolution env srv snap1 e db, l)
              | None \<Rightarrow>
                  (case ve_fetch env (cp_session snap1) (cp_bindings snap1) (cp_sources snap1) l of
                     (Inl e, l1) \<Rightarrow> (deny_resolution env srv snap1 e (ve_others env db), l1)
                   | (Inr out, l1) \<Rightarrow> (commit_resolution env srv rq snap1 out (ve_others env db), l1)))))"

end
