(* ===== verification/CredentialLimits.thy ===== *)
theory CredentialLimits
  imports Complex_Main GoMap CredentialStore ServerSpec
begin

text \<open>
  The budgets of the credential endpoint (\<open>services/platform-api/internal/credentialapi/limits.go\<close>):
  token buckets per source address, per server, per token and for all cold reviews, the cache of
  verdicts on workload tokens, and the memory of provider failures.

  A Go map is a list of pairs with distinct keys; the order in which the code ranges over it is
  the order of the list, and nothing is assumed about that order. The \<open>float64\<close> token counts are
  rational numbers: rounding is not modelled. Each operation runs under its mutex.
\<close>

section \<open>Token buckets\<close>

record bucket =
  bk_tokens :: rat
  bk_last :: time

record token_buckets =
  tb_rate :: rat
  tb_burst :: rat
  tb_max :: nat
  tb_items :: "(gostring \<times> bucket) list"

definition seconds :: "int \<Rightarrow> rat" where
  "seconds d = of_int d / 1000000000"

definition refilled :: "token_buckets \<Rightarrow> time \<Rightarrow> bucket \<Rightarrow> rat" where
  "refilled t now b = bk_tokens b + seconds (now - bk_last b) * tb_rate t"

text \<open>A loop that deletes entries while the map is too full.\<close>

fun drop_full :: "nat \<Rightarrow> 'a list \<Rightarrow> 'a list" where
  "drop_full limit [] = []"
| "drop_full limit (x # xs) = (if Suc (length xs) < limit then x # xs else drop_full limit xs)"

definition evict :: "time \<Rightarrow> token_buckets \<Rightarrow> token_buckets" where
  "evict now t =
     t\<lparr>tb_items := drop_full (tb_max t) (filter (\<lambda>e. \<not> tb_burst t \<le> refilled t now (snd e)) (tb_items t))\<rparr>"

definition allow :: "gostring \<Rightarrow> time \<Rightarrow> token_buckets \<Rightarrow> bool \<times> token_buckets" where
  "allow key now t =
     (let (t1, b) =
        (case map_of (tb_items t) key of
           Some b \<Rightarrow> (t, b)
         | None \<Rightarrow> (if tb_max t \<le> length (tb_items t) then evict now t else t,
                    \<lparr>bk_tokens = tb_burst t, bk_last = now\<rparr>));
          tokens = min (tb_burst t) (refilled t now b)
      in if tokens < 1 then (False, t1\<lparr>tb_items := put_item key \<lparr>bk_tokens = tokens, bk_last = now\<rparr> (tb_items t1)\<rparr>)
         else (True, t1\<lparr>tb_items := put_item key \<lparr>bk_tokens = tokens - 1, bk_last = now\<rparr> (tb_items t1)\<rparr>))"

section \<open>All limits\<close>

record limits =
  li_source :: token_buckets
  li_server :: token_buckets
  li_review :: token_buckets
  li_renew :: token_buckets
  li_failures :: "(gostring \<times> time) list"
  li_auth_ok :: "(gostring \<times> server_ident \<times> time) list"
  li_auth_bad :: "(gostring \<times> time) list"

definition failureTTL :: int where "failureTTL = 5 * second"

definition failureMaxItems :: nat where "failureMaxItems = 1024"

definition authCacheTTL :: int where "authCacheTTL = 10 * second"

definition authBadTTL :: int where "authBadTTL = 5 * second"

definition authCacheMax :: nat where "authCacheMax = 4096"

definition authRenewWindow :: int where "authRenewWindow = 60 * second"

definition limiterMaxKeys :: nat where "limiterMaxKeys = 4096"

definition NewLimits :: limits where
  "NewLimits =
     \<lparr>li_source = \<lparr>tb_rate = 10, tb_burst = 20, tb_max = limiterMaxKeys, tb_items = []\<rparr>,
      li_server = \<lparr>tb_rate = 20, tb_burst = 40, tb_max = limiterMaxKeys, tb_items = []\<rparr>,
      li_review = \<lparr>tb_rate = 50, tb_burst = 100, tb_max = 1, tb_items = []\<rparr>,
      li_renew = \<lparr>tb_rate = 1, tb_burst = 3, tb_max = authCacheMax, tb_items = []\<rparr>,
      li_failures = [], li_auth_ok = [], li_auth_bad = []\<rparr>"

text \<open>The global budget is charged only when the source's budget allows.\<close>

definition AllowColdReview :: "gostring \<Rightarrow> time \<Rightarrow> limits \<Rightarrow> bool \<times> limits" where
  "AllowColdReview addr now l =
     (case allow addr now (li_source l) of
        (False, s) \<Rightarrow> (False, l\<lparr>li_source := s\<rparr>)
      | (True, s) \<Rightarrow>
          (case allow ''all'' now (li_review l) of (ok, r) \<Rightarrow> (ok, l\<lparr>li_source := s, li_review := r\<rparr>)))"

definition AllowRenewal :: "gostring \<Rightarrow> time \<Rightarrow> limits \<Rightarrow> bool \<times> limits" where
  "AllowRenewal key now l = (case allow key now (li_renew l) of (ok, b) \<Rightarrow> (ok, l\<lparr>li_renew := b\<rparr>))"

definition AllowServer :: "gostring \<Rightarrow> time \<Rightarrow> limits \<Rightarrow> bool \<times> limits" where
  "AllowServer uid now l = (case allow uid now (li_server l) of (ok, b) \<Rightarrow> (ok, l\<lparr>li_server := b\<rparr>))"

datatype token_state = AuthUnknown | AuthValid | AuthRejected | AuthRenewable

definition server_none :: server_ident where
  "server_none = \<lparr>sn_namespace = [], sn_name = [], sn_uid = []\<rparr>"

definition renewable_until :: "time \<Rightarrow> time" where
  "renewable_until until = until + (authRenewWindow - authCacheTTL)"

definition cached_ok :: "gostring \<Rightarrow> time \<Rightarrow> limits \<Rightarrow> (server_ident \<times> token_state) \<times> limits" where
  "cached_ok key now l =
     (case map_of (li_auth_ok l) key of
        None \<Rightarrow> ((server_none, AuthUnknown), l)
      | Some (srv, until) \<Rightarrow>
          if now < until then ((srv, AuthValid), l)
          else if now < renewable_until until then ((srv, AuthRenewable), l)
          else ((server_none, AuthUnknown), l\<lparr>li_auth_ok := del_item key (li_auth_ok l)\<rparr>))"

definition CachedAuth :: "gostring \<Rightarrow> time \<Rightarrow> limits \<Rightarrow> (server_ident \<times> token_state) \<times> limits" where
  "CachedAuth key now l =
     (case map_of (li_auth_bad l) key of
        None \<Rightarrow> cached_ok key now l
      | Some until \<Rightarrow>
          if now < until then ((server_none, AuthRejected), l)
          else cached_ok key now (l\<lparr>li_auth_bad := del_item key (li_auth_bad l)\<rparr>))"

definition ForgetAuth :: "gostring \<Rightarrow> limits \<Rightarrow> limits" where
  "ForgetAuth key l = l\<lparr>li_auth_ok := del_item key (li_auth_ok l)\<rparr>"

text \<open>Making room for a verdict: what has run out goes first, then rejected tokens, then valid ones.\<close>

definition make_auth_room :: "time \<Rightarrow> limits \<Rightarrow> limits" where
  "make_auth_room now l =
     (if length (li_auth_ok l) + length (li_auth_bad l) < authCacheMax then l
      else
        (let ok = filter (\<lambda>e. now < renewable_until (snd (snd e))) (li_auth_ok l);
             bad = drop_full (authCacheMax - length ok) (filter (\<lambda>e. now < snd e) (li_auth_bad l))
         in l\<lparr>li_auth_bad := bad, li_auth_ok := drop_full (authCacheMax - length bad) ok\<rparr>))"

definition RecordAuth :: "gostring \<Rightarrow> server_ident \<Rightarrow> bool \<Rightarrow> time \<Rightarrow> limits \<Rightarrow> limits" where
  "RecordAuth key srv valid now l0 =
     (let l = make_auth_room now l0
      in if valid then l\<lparr>li_auth_ok := put_item key (srv, now + authCacheTTL) (li_auth_ok l)\<rparr>
         else l\<lparr>li_auth_bad := put_item key (now + authBadTTL) (li_auth_bad l)\<rparr>)"

definition failureKey :: "gostring \<Rightarrow> source \<Rightarrow> gostring" where
  "failureKey uid s = uid @ ''|'' @ so_namespace s @ ''/'' @ so_name s @ ''@'' @ show_int (so_revision s)"

definition RecentFailure :: "gostring \<Rightarrow> time \<Rightarrow> limits \<Rightarrow> bool \<times> limits" where
  "RecentFailure key now l =
     (case map_of (li_failures l) key of
        None \<Rightarrow> (False, l)
      | Some until \<Rightarrow>
          if \<not> now < until then (False, l\<lparr>li_failures := del_item key (li_failures l)\<rparr>) else (True, l))"

definition RecordFailure :: "gostring \<Rightarrow> time \<Rightarrow> limits \<Rightarrow> limits" where
  "RecordFailure key now l =
     (let fs = (if length (li_failures l) < failureMaxItems then li_failures l
                else drop_full failureMaxItems (filter (\<lambda>e. now < snd e) (li_failures l)))
      in l\<lparr>li_failures := put_item key (now + failureTTL) fs\<rparr>)"

end
