(* ===== verification/WorkloadIdentity.thy ===== *)
theory WorkloadIdentity
  imports SessionStore ServerSpec
begin

text \<open>
  Which server a workload token speaks for
  (\<open>services/platform-api/internal/sessionapi/identity.go\<close>): a reviewed, Pod-bound service account
  token is followed through the controller references Pod, ReplicaSet, Deployment, MCPServer, each
  checked by identity. The Kubernetes API is an argument: what a token review and what each read
  answers.
\<close>

record owner_reference =
  ow_kind :: gostring
  ow_api_version :: gostring
  ow_name :: gostring
  ow_uid :: gostring
  ow_controller :: "bool option"

record workload =
  wl_meta :: object_meta
  wl_owners :: "owner_reference list"
  wl_service_account :: gostring

datatype 'a kube_get = KubeNotFound | KubeFailed | KubeFound 'a

record token_review =
  rv_authenticated :: bool
  rv_review_error :: gostring
  rv_audiences :: "gostring list"
  rv_username :: gostring
  rv_pod_name :: "gostring list"
  rv_pod_uid :: "gostring list"

record kube_client =
  kc_review :: "gostring \<Rightarrow> gostring \<Rightarrow> token_review option"
  kc_pod :: "namespace \<Rightarrow> gostring \<Rightarrow> workload kube_get"
  kc_replica_set :: "namespace \<Rightarrow> gostring \<Rightarrow> workload kube_get"
  kc_deployment :: "namespace \<Rightarrow> gostring \<Rightarrow> workload kube_get"
  kc_server :: "namespace \<Rightarrow> gostring \<Rightarrow> mcp_server kube_get"

text \<open>\<open>TokenRejected\<close> is a definite answer that may be cached; the others are not.\<close>

datatype identity_error = IdentityUnavailable | IdentityTransient | TokenRejected

definition controller_of :: "workload \<Rightarrow> gostring \<Rightarrow> gostring \<Rightarrow> owner_reference option" where
  "controller_of w kind api =
     List.find (\<lambda>o'. ow_controller o' = Some True \<and> ow_kind o' = kind \<and> ow_api_version o' = api \<and>
                   ow_uid o' \<noteq> [] \<and> ow_name o' \<noteq> []) (wl_owners w)"

definition definite :: "'a kube_get \<Rightarrow> identity_error + 'a" where
  "definite g =
     (case g of KubeFound x \<Rightarrow> Inr x | KubeNotFound \<Rightarrow> Inl TokenRejected | KubeFailed \<Rightarrow> Inl IdentityTransient)"

text \<open>The object a controller reference of \<open>w\<close> names, if it is the very one and not being deleted.\<close>

definition follow ::
  "gostring \<Rightarrow> gostring \<Rightarrow> (gostring \<Rightarrow> 'a kube_get) \<Rightarrow> ('a \<Rightarrow> object_meta) \<Rightarrow> workload \<Rightarrow> identity_error + 'a" where
  "follow kind api get meta w =
     (case controller_of w kind api of
        None \<Rightarrow> Inl TokenRejected
      | Some ow \<Rightarrow>
          (case definite (get (ow_name ow)) of
             Inl e \<Rightarrow> Inl e
           | Inr x \<Rightarrow>
               if om_uid (meta x) \<noteq> ow_uid ow \<or> om_deletion (meta x) \<noteq> None then Inl TokenRejected
               else Inr x))"

definition service_account :: "token_review \<Rightarrow> (namespace \<times> gostring) option" where
  "service_account r =
     (case split_on (CHR '':'') (rv_username r) of
        [a, b, ns, name] \<Rightarrow>
          if a = ''system'' \<and> b = ''serviceaccount'' \<and> ns \<noteq> [] \<and> name \<noteq> [] then Some (ns, name) else None
      | _ \<Rightarrow> None)"

definition bound_pod :: "token_review \<Rightarrow> (gostring \<times> gostring) option" where
  "bound_pod r =
     (case (rv_pod_name r, rv_pod_uid r) of
        ([n], [u]) \<Rightarrow> if n \<noteq> [] \<and> u \<noteq> [] then Some (n, u) else None
      | _ \<Rightarrow> None)"

definition mcp_group_version :: gostring where
  "mcp_group_version = ''mcpruntime.org/v1alpha1''"

text \<open>From the deployment to the server it belongs to.\<close>

definition server_of_deployment :: "kube_client \<Rightarrow> namespace \<Rightarrow> workload \<Rightarrow> identity_error + server_ident" where
  "server_of_deployment kc ns dep =
     (case follow ''MCPServer'' mcp_group_version (kc_server kc ns) mo_meta dep of
        Inl e \<Rightarrow> Inl e
      | Inr s \<Rightarrow>
          if annotation (mo_meta s) retiring_annotation = ''true'' then Inl TokenRejected
          else if om_name (wl_meta dep) \<noteq> om_name (mo_meta s) \<and>
                  om_name (wl_meta dep) \<noteq> om_name (mo_meta s) @ ''-canary''
          then Inl TokenRejected
          else Inr \<lparr>sn_namespace = ns, sn_name = om_name (mo_meta s), sn_uid = om_uid (mo_meta s)\<rparr>)"

definition server_of_pod :: "kube_client \<Rightarrow> namespace \<Rightarrow> workload \<Rightarrow> identity_error + server_ident" where
  "server_of_pod kc ns pod =
     (case follow ''ReplicaSet'' ''apps/v1'' (kc_replica_set kc ns) wl_meta pod of
        Inl e \<Rightarrow> Inl e
      | Inr rs \<Rightarrow>
          (case follow ''Deployment'' ''apps/v1'' (kc_deployment kc ns) wl_meta rs of
             Inl e \<Rightarrow> Inl e
           | Inr dep \<Rightarrow> server_of_deployment kc ns dep))"

definition AuthenticateAudience ::
  "kube_client option \<Rightarrow> gostring \<Rightarrow> gostring \<Rightarrow> identity_error + server_ident" where
  "AuthenticateAudience client token audience =
     (case client of
        None \<Rightarrow> Inl IdentityUnavailable
      | Some kc \<Rightarrow>
          if token = [] then Inl IdentityUnavailable
          else
            (case kc_review kc token audience of
               None \<Rightarrow> Inl IdentityTransient
             | Some r \<Rightarrow>
                 if \<not> rv_authenticated r \<or> rv_review_error r \<noteq> [] \<or> \<not> List.member (rv_audiences r) audience
                 then Inl TokenRejected
                 else
                   (case (service_account r, bound_pod r) of
                      (Some (ns, account), Some (pod_name, pod_uid)) \<Rightarrow>
                        (case definite (kc_pod kc ns pod_name) of
                           Inl e \<Rightarrow> Inl e
                         | Inr pod \<Rightarrow>
                             if om_uid (wl_meta pod) \<noteq> pod_uid \<or> wl_service_account pod \<noteq> account \<or>
                                om_deletion (wl_meta pod) \<noteq> None
                             then Inl TokenRejected
                             else server_of_pod kc ns pod)
                    | _ \<Rightarrow> Inl TokenRejected)))"

definition gateway_audience :: gostring where
  "gateway_audience = ''mcp-runtime-gateway''"

definition Authenticate :: "kube_client option \<Rightarrow> gostring \<Rightarrow> identity_error + server_ident" where
  "Authenticate client token = AuthenticateAudience client token gateway_audience"

end
