(* ===== verification/CredentialApi.thy ===== *)
theory CredentialApi
  imports CredentialLimits WorkloadIdentity OperatorPolicy
begin

text \<open>
  The HTTP side of the credential broker (\<open>services/platform-api/internal/credentialapi/handler.go\<close>
  and \<open>providers.go\<close>): management of sources and bindings, and the resolution endpoint a gateway
  calls with its workload token.

  The Kubernetes API, the JSON decoding of request bodies, the token hash and the directory of
  Secrets are arguments. A reply is its status, or the body of a 200 reply. Between two critical
  sections of the limits other requests may change them: \<open>rz_meanwhile\<close> says how.
\<close>

section \<open>Replies\<close>

datatype api_reply =
    Failed nat
  | NoContent
  | ItemsReply "cred_item list"
  | ItemReply cred_item
  | DeliveryReply delivery

definition error_status :: "cred_error \<Rightarrow> nat" where
  "error_status e =
     (case e of CredDenied \<Rightarrow> 403 | CredConflict \<Rightarrow> 409 | CredNotFound \<Rightarrow> 404 | _ \<Rightarrow> 503)"

definition respondError :: "cred_error \<Rightarrow> api_reply" where
  "respondError e = Failed (error_status e)"

definition rate_limited :: api_reply where
  "rate_limited = Failed 429"

definition maxBodyBytes :: nat where
  "maxBodyBytes = 65536"

text \<open>\<open>decode\<close>: at most 64 KiB and one JSON value of the expected shape.\<close>

definition decode :: "(gostring \<Rightarrow> 'a option) \<Rightarrow> gostring \<Rightarrow> 'a option" where
  "decode parse body = (if maxBodyBytes < length body then None else parse body)"

section \<open>The cluster\<close>

record broker_kube =
  bq_server :: "namespace \<Rightarrow> gostring \<Rightarrow> mcp_server option"
  bq_grant :: "namespace \<Rightarrow> gostring \<Rightarrow> access_grant option"

text \<open>A server that may be named by a credential: the very generation, neither deleted nor retiring.\<close>

definition live_server :: "mcp_server \<Rightarrow> gostring \<Rightarrow> bool" where
  "live_server s uid \<longleftrightarrow>
     om_uid (mo_meta s) = uid \<and> om_deletion (mo_meta s) = None \<and>
     annotation (mo_meta s) retiring_annotation \<noteq> ''true''"

definition remote_upstream :: "(gostring \<Rightarrow> local_url option) \<Rightarrow> server_spec \<Rightarrow> bool" where
  "remote_upstream parse_local sp \<longleftrightarrow>
     (case ms_gateway sp of
        None \<Rightarrow> False
      | Some g \<Rightarrow> gx_upstream_url g \<noteq> [] \<and>
          \<not> (0 \<le> ms_port sp \<and> LocalUpstream (parse_local (gx_upstream_url g)) (nat (ms_port sp))))"

definition checkBinding ::
  "(gostring \<Rightarrow> local_url option) \<Rightarrow> broker_kube option \<Rightarrow> cred_binding \<Rightarrow> cred_error option" where
  "checkBinding parse_local kube b =
     (case kube of
        None \<Rightarrow> Some CredUnavailable
      | Some k \<Rightarrow>
          (case bq_server k (cr_namespace b) (cr_server b) of
             None \<Rightarrow> Some CredDenied
           | Some s \<Rightarrow>
               if remote_upstream parse_local (mo_spec s) then Some CredDenied
               else if \<not> live_server s (cr_server_uid b) \<or>
                       \<not> List.member (ms_credential_bindings (mo_spec s)) (cr_name b)
               then Some CredDenied
               else if \<not> list_all (List.member (map tc_name (ms_tools (mo_spec s)))) (cr_tools b)
               then Some CredDenied
               else None))"

section \<open>Authorization of a resolution\<close>

text \<open>The policy document the broker decides on: the server's tools and the one grant of the session.\<close>

definition broker_grant :: "gostring \<Rightarrow> access_grant \<Rightarrow> grant" where
  "broker_grant server_team g =
     (let sp = ag_spec g; team = sj_team_id (gn_subject sp) in
      \<lparr>gr_name = om_name (ag_meta g), gr_mode = gn_mode sp, gr_namespace = om_namespace (ag_meta g),
       gr_human_id = sj_human_id (gn_subject sp), gr_agent_id = sj_agent_id (gn_subject sp),
       gr_team_id = (if team = [] then server_team else team),
       gr_max_trust = (if gn_max_trust sp = [] then ''low'' else gn_max_trust sp),
       gr_allowed_side_effects = gn_allowed_side_effects sp,
       gr_policy_version = gn_policy_version sp, gr_disabled = gn_disabled sp,
       gr_expires_at = (case gn_expires_at sp of None \<Rightarrow> [] | Some t \<Rightarrow> format_rfc3339 t),
       gr_tool_rules = map (\<lambda>r. \<lparr>ta_name = ru_name r,
         ta_decision = (if ru_decision r = [] then ''allow'' else ru_decision r),
         ta_required_trust = (if ru_required_trust r = [] then ''low'' else ru_required_trust r)\<rparr>)
           (gn_tool_rules sp)\<rparr>)"

definition broker_tool :: "tool_config \<Rightarrow> tool" where
  "broker_tool t =
     \<lparr>tl_name = tc_name t, tl_description = [], tl_required_trust = tc_required_trust t,
      tl_side_effect = tc_side_effect t, tl_risk_level = tc_risk_level t, tl_labels = []\<rparr>"

definition broker_document :: "server_ident \<Rightarrow> server_spec \<Rightarrow> policy_config \<Rightarrow> access_grant \<Rightarrow> document" where
  "broker_document srv sp pol g =
     document_zero
       \<lparr>dc_server := \<lparr>sv_uid = sn_uid srv, sv_name = sn_name srv, sv_namespace = sn_namespace srv,
                      sv_team_id = ms_team_id sp, sv_cluster = []\<rparr>,
        dc_policy := Some (config_zero\<lparr>cf_mode := ''allow-list'', cf_default_decision := ''deny'',
                       cf_policy_version := pc_policy_version pol, cf_max_side_effect := pc_max_side_effect pol\<rparr>),
        dc_session := Some (session_config_zero\<lparr>sc_required := True, sc_store := ''platform''\<rparr>),
        dc_tools := map broker_tool (ms_tools sp),
        dc_grants := [broker_grant (ms_team_id sp) g]\<rparr>"

definition broker_request :: "binding \<Rightarrow> gostring \<Rightarrow> request" where
  "broker_request b tool =
     \<lparr>rq_identity = \<lparr>id_human = bd_human_id b, id_agent = bd_agent_id b, id_team = bd_team_id b,
                     id_session = bd_name b\<rparr>,
      rq_rpc_method = ''tools/call'', rq_tool_name = tool, rq_session = Some b\<rparr>"

text \<open>The server takes credentials at all: live, explicit allow-list and deny, not header mode.\<close>

definition broker_server_ok :: "server_ident \<Rightarrow> mcp_server \<Rightarrow> policy_config option" where
  "broker_server_ok srv s =
     (if \<not> live_server s (sn_uid srv) then None
      else
        (case ms_policy (mo_spec s) of
           None \<Rightarrow> None
         | Some p \<Rightarrow>
             if pc_mode p \<noteq> ''allow-list'' \<or> pc_default_decision p \<noteq> ''deny'' \<or>
                AuthUsesHeaderMode (ms_auth (mo_spec s))
             then None else Some p))"

text \<open>The grant object belongs to this server generation and enforces.\<close>

definition broker_grant_ok :: "server_ident \<Rightarrow> access_grant \<Rightarrow> bool" where
  "broker_grant_ok srv g \<longleftrightarrow>
     (let ns = rf_namespace (gn_server_ref (ag_spec g)) in
      (if ns = [] then om_namespace (ag_meta g) else ns) = sn_namespace srv) \<and>
     rf_name (gn_server_ref (ag_spec g)) = sn_name srv \<and> om_deletion (ag_meta g) = None \<and>
     annotation (ag_meta g) server_uid_annotation = sn_uid srv \<and> gn_mode (ag_spec g) \<noteq> ''monitor''"

definition broker_decision ::
  "url_parser \<Rightarrow> (document \<Rightarrow> gostring) \<Rightarrow> time \<Rightarrow> document \<Rightarrow> binding \<Rightarrow> gostring \<Rightarrow> decision option" where
  "broker_decision parse_url digest now d b tool =
     (case Stamp digest (Some d) [] of
        Inl _ \<Rightarrow> None
      | Inr stamped \<Rightarrow>
          if Validate parse_url digest (Some stamped) \<noteq> None then None
          else Some (Authorize (Some stamped) (broker_request b tool) now now))"

definition authorize_resolution ::
  "url_parser \<Rightarrow> (document \<Rightarrow> gostring) \<Rightarrow> broker_kube \<Rightarrow> time \<Rightarrow> server_ident \<Rightarrow> session_row
    \<Rightarrow> resolution_request \<Rightarrow> cred_error option" where
  "authorize_resolution parse_url digest kube now srv session rq =
     (case bq_server kube (sn_namespace srv) (sn_name srv) of
        None \<Rightarrow> Some CredDenied
      | Some s \<Rightarrow>
          (case broker_server_ok srv s of
             None \<Rightarrow> Some CredDenied
           | Some pol \<Rightarrow>
               if \<not> list_all (List.member (ms_credential_bindings (mo_spec s))) (rs_bindings rq) then Some CredDenied
               else
                 (case bq_grant kube (se_grant_namespace session) (se_grant_name session) of
                    None \<Rightarrow> Some CredDenied
                  | Some g \<Rightarrow>
                      if \<not> broker_grant_ok srv g then Some CredDenied
                      else
                        (case broker_decision parse_url digest now (broker_document srv (mo_spec s) pol g)
                                (se_binding session) (rs_tool rq) of
                           None \<Rightarrow> Some CredDenied
                         | Some d \<Rightarrow>
                             if \<not> de_allowed d \<or> de_would_deny d \<or> de_matched_grant d \<noteq> se_grant_name session \<or>
                                de_matched_grant_namespace d \<noteq> se_grant_namespace session
                             then Some CredDenied else None))))"

section \<open>Reading the providers\<close>

type_synonym provider_reader = "source \<Rightarrow> gostring option"

text \<open>\<open>checked\<close> and the Kubernetes reader: the named key of the Secret, if it is a valid value.\<close>

definition checked :: "gostring \<Rightarrow> gostring option" where
  "checked v = (if ValidValue v then Some v else None)"

definition kubernetesReader ::
  "(namespace \<Rightarrow> gostring \<Rightarrow> (gostring \<rightharpoonup> gostring) option) option \<Rightarrow> provider_reader" where
  "kubernetesReader secrets s =
     (case secrets of
        None \<Rightarrow> None
      | Some get \<Rightarrow>
          (case get (so_namespace s) (so_resource s) of
             None \<Rightarrow> None
           | Some data \<Rightarrow> checked (case data (so_key s) of None \<Rightarrow> [] | Some v \<Rightarrow> v)))"

definition Providers ::
  "(namespace \<Rightarrow> gostring \<Rightarrow> (gostring \<rightharpoonup> gostring) option) option \<Rightarrow> provider_reader registry" where
  "Providers secrets = snd (Register ''kubernetes'' (Some (kubernetesReader secrets)) Map.empty)"

text \<open>The read of one request: the instants at which read \<open>i\<close> is looked up and, if it fails,
  recorded, and what other requests do to the limits before and during it.\<close>

record fetch_env =
  fe_lookup :: "nat \<Rightarrow> time"
  fe_record :: "nat \<Rightarrow> time"
  fe_before :: "nat \<Rightarrow> limits \<Rightarrow> limits"
  fe_during :: "nat \<Rightarrow> limits \<Rightarrow> limits"

fun fetch_headers ::
  "fetch_env \<Rightarrow> provider_reader registry \<Rightarrow> gostring \<Rightarrow> nat \<Rightarrow> (cred_binding \<times> source) list \<Rightarrow> delivery \<Rightarrow> limits
    \<Rightarrow> (cred_error + delivery) \<times> limits" where
  "fetch_headers env providers uid i [] out l = (Inr out, l)"
| "fetch_headers env providers uid i ((b, s) # rest) out l =
     (case Reader (so_provider s) providers of
        None \<Rightarrow> (Inl CredUnavailable, l)
      | Some read \<Rightarrow>
          (let key = failureKey uid s;
               (recent, l1) = RecentFailure key (fe_lookup env i) (fe_before env i l)
           in if recent then (Inl CredUnavailable, l1)
              else
                (let l2 = fe_during env i l1
                 in case read s of
                      None \<Rightarrow> (Inl CredUnavailable, RecordFailure key (fe_record env i) l2)
                    | Some v \<Rightarrow>
                        if \<not> ValidValue v then (Inl CredUnavailable, RecordFailure key (fe_record env i) l2)
                        else
                          (let h = CanonicalHeaderKey (cr_header b)
                           in if h \<in> fst ` set out then (Inl CredDenied, l2)
                              else fetch_headers env providers uid (Suc i) rest (out @ [(h, v)]) l2))))"

section \<open>The resolution endpoint\<close>

record credential_handler =
  ch_store :: bool
  ch_kube :: "broker_kube option"
  ch_identity :: "kube_client option"
  ch_providers :: "provider_reader registry"
  ch_parse_local :: "gostring \<Rightarrow> local_url option"
  ch_parse_url :: url_parser
  ch_digest :: "document \<Rightarrow> gostring"
  ch_parse_vault :: "gostring \<Rightarrow> vault_url option"
  ch_token_hash :: "gostring \<Rightarrow> gostring"
  ch_source :: "gostring \<Rightarrow> source option"
  ch_binding :: "gostring \<Rightarrow> cred_binding option"
  ch_request :: "gostring \<Rightarrow> resolution_request option"

record resolve_call =
  rc_method :: gostring
  rc_authorization :: gostring
  rc_api_key :: gostring
  rc_address :: gostring
  rc_body :: gostring

text \<open>The instants of the steps, what the cluster answers at the second authorization (the reads of
  one authorization see one state of the cluster), and what others do to the limits and to the
  tables meanwhile.\<close>

record resolve_env =
  re_cached_at :: time
  re_allowed_at :: time
  re_recorded_at :: time
  re_server_at :: time
  re_meanwhile :: "nat \<Rightarrow> limits \<Rightarrow> limits"
  re_fetch :: fetch_env
  re_now1 :: time
  re_now2 :: time
  re_decide1 :: time
  re_decide2 :: time
  re_kube2 :: broker_kube
  re_others :: "cred_db \<Rightarrow> cred_db"
  re_denied_audit_ok :: bool
  re_audit_ok :: bool
  re_commit_ok :: bool

definition broker_audience :: gostring where
  "broker_audience = ''mcp-runtime-credential-broker''"

definition bearer_prefix :: gostring where
  "bearer_prefix = ''Bearer ''"

text \<open>The cold and the renewal path: a budget, then a review whose verdict is remembered.\<close>

definition review_token ::
  "credential_handler \<Rightarrow> resolve_env \<Rightarrow> resolve_call \<Rightarrow> gostring \<Rightarrow> token_state \<Rightarrow> limits
    \<Rightarrow> (api_reply + server_ident) \<times> limits" where
  "review_token h env c token st l =
     (let key = ch_token_hash h token;
          (allowed, l1) = (if st = AuthRenewable then AllowRenewal key (re_allowed_at env) l
                           else AllowColdReview (rc_address c) (re_allowed_at env) l)
      in if \<not> allowed then (Inl rate_limited, l1)
         else
           (let l2 = re_meanwhile env 1 l1
            in case AuthenticateAudience (ch_identity h) token broker_audience of
                 Inr srv \<Rightarrow> (Inr srv, RecordAuth key srv True (re_recorded_at env) l2)
               | Inl e \<Rightarrow>
                   if e = TokenRejected
                   then (Inl (respondError CredDenied),
                         RecordAuth key server_none False (re_recorded_at env) (re_meanwhile env 2 (ForgetAuth key l2)))
                   else (Inl (respondError CredUnavailable), l2)))"

definition authenticate_caller ::
  "credential_handler \<Rightarrow> resolve_env \<Rightarrow> resolve_call \<Rightarrow> limits \<Rightarrow> (api_reply + server_ident) \<times> limits" where
  "authenticate_caller h env c l =
     (let token = trim_prefix (rc_authorization c) bearer_prefix;
          ((srv, st), l1) = CachedAuth (ch_token_hash h token) (re_cached_at env) l
      in case st of
           AuthValid \<Rightarrow> (Inr srv, l1)
         | AuthRejected \<Rightarrow> (Inl (respondError CredDenied), l1)
         | _ \<Rightarrow> review_token h env c token st (re_meanwhile env 0 l1))"

definition broker_authorizer ::
  "credential_handler \<Rightarrow> broker_kube \<Rightarrow> time \<Rightarrow> server_ident \<Rightarrow> resolution_request \<Rightarrow> cred_authorizer" where
  "broker_authorizer h kube now srv rq session bindings sources =
     (case authorize_resolution (ch_parse_url h) (ch_digest h) kube now srv session rq of
        Some e \<Rightarrow> Some e
      | None \<Rightarrow>
          (case List.find (\<lambda>e. e \<noteq> None) (map (checkBinding (ch_parse_local h) (Some kube)) bindings) of
             Some e \<Rightarrow> e
           | None \<Rightarrow> None))"

definition broker_env ::
  "credential_handler \<Rightarrow> resolve_env \<Rightarrow> broker_kube \<Rightarrow> server_ident \<Rightarrow> resolution_request \<Rightarrow> limits resolution_env" where
  "broker_env h env kube srv rq =
     \<lparr>ve_now1 = re_now1 env, ve_now2 = re_now2 env,
      ve_authorize1 = broker_authorizer h kube (re_decide1 env) srv rq,
      ve_authorize2 = broker_authorizer h (re_kube2 env) (re_decide2 env) srv rq,
      ve_fetch = (\<lambda>_ bindings sources.
        fetch_headers (re_fetch env) (ch_providers h) (sn_uid srv) 0 (zip bindings sources) []),
      ve_others = re_others env, ve_denied_audit_ok = re_denied_audit_ok env,
      ve_audit_ok = re_audit_ok env, ve_commit_ok = re_commit_ok env\<rparr>"

definition Resolve ::
  "credential_handler \<Rightarrow> resolve_env \<Rightarrow> resolve_call \<Rightarrow> limits \<Rightarrow> cred_db \<Rightarrow> (api_reply \<times> cred_db) \<times> limits" where
  "Resolve h env c l db =
     (if rc_method c \<noteq> ''POST'' then ((Failed 405, db), l)
      else
        (case (ch_kube h, ch_store h \<and> ch_identity h \<noteq> None) of
           (Some kube, True) \<Rightarrow>
             if \<not> has_prefix (rc_authorization c) bearer_prefix \<or> rc_api_key c \<noteq> []
             then ((respondError CredDenied, db), l)
             else
               (case authenticate_caller h env c l of
                  (Inl reply, l1) \<Rightarrow> ((reply, db), l1)
                | (Inr srv, l1) \<Rightarrow>
                    (case AllowServer (sn_uid srv) (re_server_at env) (re_meanwhile env 3 l1) of
                       (False, l2) \<Rightarrow> ((rate_limited, db), l2)
                     | (True, l2) \<Rightarrow>
                         (case decode (ch_request h) (rc_body c) of
                            None \<Rightarrow> ((Failed 400, db), l2)
                          | Some rq \<Rightarrow>
                              (case UseCredentials (broker_env h env kube srv rq) srv rq (re_meanwhile env 4 l2) db of
                                 ((Inl e, db1), l3) \<Rightarrow> ((respondError e, db1), l3)
                               | ((Inr out, db1), l3) \<Rightarrow> ((DeliveryReply out, db1), l3)))))
         | _ \<Rightarrow> ((respondError CredUnavailable, db), l)))"

section \<open>Management\<close>

record management_call =
  mg_principal :: "principal option"
  mg_method :: gostring
  mg_path :: gostring
  mg_revision :: gostring
  mg_body :: gostring

definition management_prefix :: gostring where
  "management_prefix = ''/api/v1/credentials/''"

text \<open>Namespace, kind and optional name of a path.\<close>

definition management_target :: "gostring \<Rightarrow> (namespace \<times> gostring \<times> gostring) option" where
  "management_target path =
     (let ok = (\<lambda>ns kind. NameValid ns \<and> (kind = ''sources'' \<or> kind = ''bindings''))
      in case split_on (CHR ''/'') (trim_prefix path management_prefix) of
           [ns, kind] \<Rightarrow> if ok ns kind then Some (ns, kind, []) else None
         | [ns, kind, name] \<Rightarrow> if ok ns kind \<and> NameValid name then Some (ns, kind, name) else None
         | _ \<Rightarrow> None)"

definition item_name :: "cred_item \<Rightarrow> gostring" where
  "item_name i = (case i of SourceItem s \<Rightarrow> so_name s | BindingItem b \<Rightarrow> cr_name b)"

definition get_items :: "principal \<Rightarrow> namespace \<Rightarrow> gostring \<Rightarrow> gostring \<Rightarrow> cred_db \<Rightarrow> api_reply" where
  "get_items p ns kind name db =
     (case ListCredentials p ns kind db of
        Inl e \<Rightarrow> respondError e
      | Inr items \<Rightarrow>
          if name = [] then ItemsReply items
          else (case List.find (\<lambda>i. item_name i = name) items of
                  None \<Rightarrow> respondError CredNotFound
                | Some i \<Rightarrow> ItemReply i))"

text \<open>The checks on a PUT body before the store sees it.\<close>

definition decode_put ::
  "credential_handler \<Rightarrow> namespace \<Rightarrow> gostring \<Rightarrow> gostring \<Rightarrow> gostring
    \<Rightarrow> api_reply + source option \<times> cred_binding option" where
  "decode_put h ns kind name body =
     (if kind = ''sources'' then
        (case decode (ch_source h) body of
           None \<Rightarrow> Inl (Failed 400)
         | Some s \<Rightarrow>
             if so_namespace s \<noteq> ns \<or> so_name s \<noteq> name then Inl (Failed 400)
             else
               (case source_validate (ch_parse_vault h) s of
                  Some ProviderNotSupported \<Rightarrow> Inl (Failed 422)
                | Some _ \<Rightarrow> Inl (Failed 400)
                | None \<Rightarrow> Inr (Some s, None)))
      else
        (case decode (ch_binding h) body of
           None \<Rightarrow> Inl (Failed 400)
         | Some b \<Rightarrow>
             if cr_namespace b \<noteq> ns \<or> cr_name b \<noteq> name \<or> binding_validate b \<noteq> None then Inl (Failed 400)
             else
               (case checkBinding (ch_parse_local h) (ch_kube h) b of
                  Some e \<Rightarrow> Inl (respondError e)
                | None \<Rightarrow> Inr (None, Some b))))"

definition put_item_reply ::
  "credential_handler \<Rightarrow> principal \<Rightarrow> namespace \<Rightarrow> gostring \<Rightarrow> gostring \<Rightarrow> gostring \<Rightarrow> cred_db
    \<Rightarrow> api_reply \<times> cred_db" where
  "put_item_reply h p ns kind name body db =
     (if name = [] then (Failed 400, db)
      else
        (case decode_put h ns kind name body of
           Inl reply \<Rightarrow> (reply, db)
         | Inr (src, bind) \<Rightarrow>
             (case PutCredential (ch_parse_vault h) p src bind db of
                Inl e \<Rightarrow> (respondError e, db)
              | Inr (item, db1) \<Rightarrow> (ItemReply item, db1))))"

definition delete_item_reply ::
  "principal \<Rightarrow> namespace \<Rightarrow> gostring \<Rightarrow> gostring \<Rightarrow> gostring \<Rightarrow> cred_db \<Rightarrow> api_reply \<times> cred_db" where
  "delete_item_reply p ns kind name revision db =
     (case atoi revision of
        None \<Rightarrow> (Failed 400, db)
      | Some r \<Rightarrow>
          if name = [] \<or> r < 1 then (Failed 400, db)
          else (case DeleteCredential p ns kind name r db of
                  Inl e \<Rightarrow> (respondError e, db)
                | Inr db1 \<Rightarrow> (NoContent, db1)))"

definition Management :: "credential_handler \<Rightarrow> management_call \<Rightarrow> cred_db \<Rightarrow> api_reply \<times> cred_db" where
  "Management h c db =
     (case mg_principal c of
        None \<Rightarrow> (respondError CredDenied, db)
      | Some p \<Rightarrow>
          (case management_target (mg_path c) of
             None \<Rightarrow> (Failed 404, db)
           | Some (ns, kind, name) \<Rightarrow>
               if \<not> ch_store h then (respondError CredUnavailable, db)
               else if mg_method c = ''GET'' then (get_items p ns kind name db, db)
               else if mg_method c = ''PUT'' then put_item_reply h p ns kind name (mg_body c) db
               else if mg_method c = ''DELETE'' then delete_item_reply p ns kind name (mg_revision c) db
               else (Failed 405, db)))"

end
