(* ===== verification/CredentialClaims.thy ===== *)
theory CredentialClaims
  imports CredentialApi OperatorClaims
begin

text \<open>
  What the credential broker promises: a secret value leaves the platform only for a workload whose
  token names a live server generation, for a session, binding, source and grant that are all in
  force when the tables are locked after the provider read; the metadata stays consistent under
  every operation of the management interface.
\<close>

section \<open>The snapshot\<close>

text \<open>Binding and source are in the tables and entitle the session to a credential for the tool.\<close>

definition entitled ::
  "cred_db \<Rightarrow> server_ident \<Rightarrow> binding \<Rightarrow> resolution_request \<Rightarrow> cred_binding \<Rightarrow> source \<Rightarrow> bool" where
  "entitled db srv who rq b s \<longleftrightarrow>
     cr_name b \<in> set (rs_bindings rq) \<and>
     find_cred_binding db (sn_namespace srv) (cr_name b) = Some b \<and>
     find_source db (sn_namespace srv) (cr_source b) = Some s \<and>
     cr_server b = sn_name srv \<and> cr_server_uid b = sn_uid srv \<and>
     Matches b (bd_human_id who) (bd_agent_id who) (bd_team_id who) (rs_session rq) (rs_tool rq) \<and>
     Allows s (bd_human_id who) (bd_team_id who)"

lemma find_cred_binding_name: "find_cred_binding db ns n = Some b \<Longrightarrow> cr_name b = n \<and> cr_namespace b = ns \<and> b \<in> set (cd_bindings db)"
  by (auto simp: find_cred_binding_def find_Some_iff)

lemma find_source_name: "find_source db ns n = Some s \<Longrightarrow> so_name s = n \<and> so_namespace s = ns \<and> s \<in> set (cd_sources db)"
  by (auto simp: find_source_def find_Some_iff)

lemma read_Inr [simp]:
  "read_binding db ns n = Inr b \<longleftrightarrow> find_cred_binding db ns n = Some b"
  "read_source db ns n = Inr s \<longleftrightarrow> find_source db ns n = Some s"
  by (simp_all add: read_binding_def read_source_def split: option.split)

lemma load_bindings_entitled:
  assumes "load_bindings db srv rq seen names snap = (snap', None)"
    and "set names \<subseteq> set (rs_bindings rq)"
    and "cp_human snap = bd_human_id who" "cp_agent snap = bd_agent_id who" "cp_team snap = bd_team_id who"
  shows "\<exists>bs ss. snap' = snap\<lparr>cp_bindings := cp_bindings snap @ bs, cp_sources := cp_sources snap @ ss\<rparr> \<and>
    list_all2 (entitled db srv who rq) bs ss"
  using assms
proof (induction names arbitrary: seen snap)
  case Nil
  then show ?case by (auto intro!: exI [of _ "[]"])
next
  case (Cons name names)
  obtain b where b: "find_cred_binding db (sn_namespace srv) name = Some b"
    using Cons.prems(1) by (auto split: if_splits sum.splits)
  have n: "cr_name b = name" using find_cred_binding_name [OF b] by simp
  show ?case
  proof (cases "List.member (cr_tools b) (rs_tool rq)")
    case False
    then have "load_bindings db srv rq (name # seen) names snap = (snap', None)"
      using Cons.prems(1) b by (auto split: if_splits simp: read_binding_def)
    with Cons.IH Cons.prems(2-) show ?thesis by auto
  next
    case True
    obtain s where s: "find_source db (sn_namespace srv) (cr_source b) = Some s"
      and ok: "cr_server b = sn_name srv" "cr_server_uid b = sn_uid srv"
        "Matches b (cp_human snap) (cp_agent snap) (cp_team snap) (rs_session rq) (rs_tool rq)"
        "Allows s (cp_human snap) (cp_team snap)"
      and rest: "load_bindings db srv rq (name # seen) names
          (snap\<lparr>cp_bindings := cp_bindings snap @ [b], cp_sources := cp_sources snap @ [s]\<rparr>) = (snap', None)"
      using Cons.prems(1) b True by (auto split: if_splits sum.splits simp: read_binding_def)
    have e: "entitled db srv who rq b s"
      using b s ok Cons.prems(2-) n by (simp add: entitled_def)
    from Cons.IH [OF rest] Cons.prems(2-) obtain bs ss where
      "snap' = snap\<lparr>cp_bindings := cp_bindings snap @ b # bs, cp_sources := cp_sources snap @ s # ss\<rparr>"
      "list_all2 (entitled db srv who rq) bs ss" by auto
    with e show ?thesis by (intro exI [of _ "b # bs"] exI [of _ "s # ss"]) simp
  qed
qed

text \<open>The session of a snapshot that loaded: stored, usable by the server, of active subjects.\<close>

definition session_in_force :: "cred_db \<Rightarrow> server_ident \<Rightarrow> time \<Rightarrow> resolution_request \<Rightarrow> session_row \<Rightarrow> bool" where
  "session_in_force db srv t rq r \<longleftrightarrow>
     r \<in> set (db_sessions (cd_store db)) \<and> se_id r = rs_session rq \<and> usable_session srv t r \<and>
     credentialSubjects db (bd_human_id (se_binding r)) (bd_agent_id (se_binding r)) (bd_team_id (se_binding r)) = None"

text \<open>One record per binding used, or a single one when the tool needs no credential.\<close>

definition access_rows :: "binding \<Rightarrow> namespace \<Rightarrow> gostring \<Rightarrow> gostring list \<Rightarrow> audit_row list" where
  "access_rows who ns status names =
     map (\<lambda>name. audit_entry (bd_human_id who) ''credential_access'' ns name status (bd_agent_id who) (bd_team_id who))
       (if names = [] then [''resolution''] else names)"

lemma loaded_snapshot:
  assumes "loadCredentialSnapshot db srv rq t = (snap, None)"
  shows "session_in_force db srv t rq (cp_session snap)"
    and "list_all2 (entitled db srv (se_binding (cp_session snap)) rq) (cp_bindings snap) (cp_sources snap)"
    and "use_audit snap ns status = access_rows (se_binding (cp_session snap)) ns status (map cr_name (cp_bindings snap))"
proof -
  obtain r where r: "List.find (\<lambda>r. se_id r = rs_session rq) (db_sessions (cd_store db)) = Some r"
    and u: "usable_session srv t r"
    and c: "credentialSubjects db (bd_human_id (se_binding r)) (bd_agent_id (se_binding r)) (bd_team_id (se_binding r)) = None"
    and l: "load_bindings db srv rq [] (rs_bindings rq) (session_snapshot_of r) = (snap, None)"
    using assms by (auto simp: loadCredentialSnapshot_def Let_def session_snapshot_of_def split: option.splits if_splits)
  from load_bindings_entitled [OF l, of "se_binding r"] obtain bs ss where
    "snap = (session_snapshot_of r)\<lparr>cp_bindings := bs, cp_sources := ss\<rparr>" "list_all2 (entitled db srv (se_binding r) rq) bs ss"
    by (auto simp: session_snapshot_of_def snapshot_zero_def)
  moreover from r have "r \<in> set (db_sessions (cd_store db))" "se_id r = rs_session rq"
    by (auto simp: find_Some_iff)
  ultimately show "session_in_force db srv t rq (cp_session snap)"
    "list_all2 (entitled db srv (se_binding (cp_session snap)) rq) (cp_bindings snap) (cp_sources snap)"
    "use_audit snap ns status = access_rows (se_binding (cp_session snap)) ns status (map cr_name (cp_bindings snap))"
    using u c by (auto simp: session_in_force_def session_snapshot_of_def use_audit_def access_rows_def)
qed

section \<open>The provider read\<close>

text \<open>A delivered header carries what the provider of its source holds.\<close>

definition carries_secret :: "provider_reader registry \<Rightarrow> cred_binding \<times> source \<Rightarrow> gostring \<times> gostring \<Rightarrow> bool" where
  "carries_secret providers bs hv \<longleftrightarrow>
     fst hv = CanonicalHeaderKey (cr_header (fst bs)) \<and> ValidValue (snd hv) \<and>
     (\<exists>read. Reader (so_provider (snd bs)) providers = Some read \<and> read (snd bs) = Some (snd hv))"

lemma fetch_headers_carries:
  assumes "fetch_headers env providers uid i ps out l = (Inr out', l')" and "distinct (map fst out)"
  shows "\<exists>new. out' = out @ new \<and> list_all2 (carries_secret providers) ps new \<and> distinct (map fst out')"
  using assms
proof (induction ps arbitrary: i out l)
  case (Cons p ps)
  obtain b s where p: "p = (b, s)" by (cases p)
  obtain read v l2 where read: "Reader (so_provider s) providers = Some read" "read s = Some v" "ValidValue v"
    and fresh: "CanonicalHeaderKey (cr_header b) \<notin> fst ` set out"
    and rest: "fetch_headers env providers uid (Suc i) ps (out @ [(CanonicalHeaderKey (cr_header b), v)]) l2 = (Inr out', l')"
    using Cons.prems(1) unfolding p
    by (simp add: Let_def case_prod_unfold split: option.splits if_splits)
  have "distinct (map fst (out @ [(CanonicalHeaderKey (cr_header b), v)]))"
    using Cons.prems(2) fresh by simp
  from Cons.IH [OF rest this] obtain new where
    "out' = out @ (CanonicalHeaderKey (cr_header b), v) # new" "list_all2 (carries_secret providers) ps new"
    "distinct (map fst out')" by auto
  moreover have "carries_secret providers p (CanonicalHeaderKey (cr_header b), v)"
    using read by (auto simp: p carries_secret_def)
  ultimately show ?case by (intro exI [of _ "(CanonicalHeaderKey (cr_header b), v) # new"]) simp
qed simp

section \<open>The authorization\<close>

text \<open>A grant object that permits the session's tool call on the server in the sense of the policy
  engine, at an instant.\<close>

definition permits_call :: "mcp_server \<Rightarrow> server_ident \<Rightarrow> binding \<Rightarrow> gostring \<Rightarrow> time \<Rightarrow> access_grant \<Rightarrow> bool" where
  "permits_call s srv who tool t g \<longleftrightarrow>
     (let r = broker_grant (ms_team_id (mo_spec s)) g in
      broker_grant_ok srv g \<and> active_for (rq_identity (broker_request who tool)) t r \<and>
      (case resolveToolMetadata (map broker_tool (ms_tools (mo_spec s))) tool of
         (trust, side, _) \<Rightarrow> side \<noteq> [] \<and> contributes tool side r \<and> TrustRank trust \<le> TrustRank (gr_max_trust r)))"

lemma broker_document_sel [simp]:
  "dc_compiled (broker_document srv sp pol g) = None"
  "dc_tools (broker_document srv sp pol g) = map broker_tool (ms_tools sp)"
  "dc_grants (broker_document srv sp pol g) = [broker_grant (ms_team_id sp) g]"
  "dc_auth (broker_document srv sp pol g) = None"
  by (simp_all add: broker_document_def document_zero_def)

lemma broker_document_policy:
  "dc_policy (broker_document srv sp pol g) =
     Some (config_zero\<lparr>cf_mode := ''allow-list'', cf_default_decision := ''deny'',
             cf_policy_version := pc_policy_version pol, cf_max_side_effect := pc_max_side_effect pol\<rparr>)"
  by (simp add: broker_document_def)

lemma broker_decision_permits:
  assumes "broker_decision parse_url digest t (broker_document srv (mo_spec s) pol g) who tool = Some d"
    and "de_allowed d" and "\<not> de_would_deny d" and "broker_grant_ok srv g"
  shows "permits_call s srv who tool t g"
proof -
  let ?v = "broker_document srv (mo_spec s) pol g"
  obtain w where w: "Stamp digest (Some ?v) [] = Inr w" and d: "d = Authorize (Some w) (broker_request who tool) t t"
    using assms(1) by (auto simp: broker_decision_def split: sum.splits if_splits)
  have keep: "dc_grants w = [broker_grant (ms_team_id (mo_spec s)) g]" "dc_tools w = map broker_tool (ms_tools (mo_spec s))"
    "dc_compiled w = None" "dc_policy w = dc_policy ?v" "\<not> UsesDelegatedHeaders (Some w)"
    using w by (auto simp: Stamp_result UsesDelegatedHeaders_def)
  have neq: "\<not> equal_fold ''allow-list'' ''observe''" "\<not> equal_fold ''deny'' ''allow''"
    by (simp_all add: equal_fold_def keyword_blank)
  have tc: "IsToolCallMethod ''tools/call''" by code_simp
  have "activated w" by (simp add: activated_def keep)
  moreover have "enforces w (broker_request who tool)" "\<not> defaultDecisionAllow (Some w)"
    using keep(4,5) neq tc
    by (auto simp: enforces_def policyModeObserve_def defaultDecisionAllow_def broker_document_policy broker_request_def)
  moreover obtain trust side risk where m: "resolveToolMetadata (dc_tools w) tool = (trust, side, risk)"
    by (cases "resolveToolMetadata (dc_tools w) tool") auto
  moreover have "rq_tool_name (broker_request who tool) = tool" by (simp add: broker_request_def)
  ultimately show ?thesis
    using allowed_call_active_grant [of w "broker_request who tool" trust side risk t t] assms(2-4) d
    by (auto simp: permits_call_def keep clock_def Let_def)
qed

text \<open>What a cluster must say for a resolution to be authorized.\<close>

definition cluster_permits ::
  "broker_kube \<Rightarrow> time \<Rightarrow> server_ident \<Rightarrow> session_row \<Rightarrow> resolution_request \<Rightarrow> bool" where
  "cluster_permits kube t srv r rq \<longleftrightarrow>
     (\<exists>s g. bq_server kube (sn_namespace srv) (sn_name srv) = Some s \<and> live_server s (sn_uid srv) \<and>
        set (rs_bindings rq) \<subseteq> set (ms_credential_bindings (mo_spec s)) \<and>
        bq_grant kube (se_grant_namespace r) (se_grant_name r) = Some g \<and>
        permits_call s srv (se_binding r) (rs_tool rq) t g)"

lemma authorized_resolution:
  assumes "authorize_resolution parse_url digest kube t srv r rq = None"
  shows "cluster_permits kube t srv r rq"
proof -
  obtain s pol g d where s: "bq_server kube (sn_namespace srv) (sn_name srv) = Some s"
    and ok: "broker_server_ok srv s = Some pol" "list_all (List.member (ms_credential_bindings (mo_spec s))) (rs_bindings rq)"
    and g: "bq_grant kube (se_grant_namespace r) (se_grant_name r) = Some g" "broker_grant_ok srv g"
    and d: "broker_decision parse_url digest t (broker_document srv (mo_spec s) pol g) (se_binding r) (rs_tool rq) = Some d"
      "de_allowed d" "\<not> de_would_deny d"
    using assms by (auto simp: authorize_resolution_def split: option.splits if_splits)
  have "live_server s (sn_uid srv)" using ok(1) by (auto simp: broker_server_ok_def split: if_splits)
  moreover have "set (rs_bindings rq) \<subseteq> set (ms_credential_bindings (mo_spec s))"
    using ok(2) by (auto simp: list_all_iff)
  ultimately show ?thesis
    using s g(1) broker_decision_permits [OF d g(2)] by (auto simp: cluster_permits_def)
qed

lemma broker_authorizer_None:
  assumes "broker_authorizer h kube t srv rq r bs ss = None"
  shows "cluster_permits kube t srv r rq" "\<forall>b \<in> set bs. checkBinding (ch_parse_local h) (Some kube) b = None"
proof -
  have a: "authorize_resolution (ch_parse_url h) (ch_digest h) kube t srv r rq = None"
    "List.find (\<lambda>e. e \<noteq> None) (map (checkBinding (ch_parse_local h) (Some kube)) bs) = None"
    using assms by (auto simp: broker_authorizer_def find_Some_iff split: option.splits)
  show "cluster_permits kube t srv r rq" by (rule authorized_resolution [OF a(1)])
  show "\<forall>b \<in> set bs. checkBinding (ch_parse_local h) (Some kube) b = None"
    using a(2) by (auto simp: find_None_iff)
qed

section \<open>The resolution\<close>

lemma UseCredentials_delivered:
  assumes "UseCredentials env srv rq l db = ((Inr out, db1), l1)"
  shows "\<exists>snap s. loadCredentialSnapshot (ve_others env db) srv rq (ve_now2 env) = (snap, None) \<and>
    ve_authorize2 env (cp_session snap) (cp_bindings snap) (cp_sources snap) = None \<and>
    ve_fetch env s (cp_bindings snap) (cp_sources snap) l = (Inr out, l1) \<and>
    db1 = add_audit (use_audit snap (sn_namespace srv) ''success'') (ve_others env db)"
proof -
  let ?db = "ve_others env db"
  obtain snap1 where f: "ve_fetch env (cp_session snap1) (cp_bindings snap1) (cp_sources snap1) l = (Inr out, l1)"
    and c: "commit_resolution env srv rq snap1 out ?db = (Inr out, db1)"
  proof -
    obtain snap1 e1 where s: "loadCredentialSnapshot db srv rq (ve_now1 env) = (snap1, e1)" by fastforce
    obtain x l2 where f: "ve_fetch env (cp_session snap1) (cp_bindings snap1) (cp_sources snap1) l = (x, l2)" by fastforce
    have "deny_resolution env srv sn e d \<noteq> (Inr out, db1)" for sn e d by (simp add: deny_resolution_def)
    moreover have "out = out'" if "commit_resolution env srv rq snap1 out' ?db = (Inr out, db1)" for out'
      using that by (auto simp: commit_resolution_def deny_resolution_def Let_def split: prod.splits option.splits if_splits)
    moreover have "\<exists>out'. x = Inr out' \<and> commit_resolution env srv rq snap1 out' ?db = (Inr out, db1) \<and> l2 = l1"
      using assms s f calculation(1) by (auto simp: UseCredentials_def split: if_splits option.splits sum.splits)
    ultimately show thesis using that f by metis
  qed
  obtain snap2 e0 where s: "loadCredentialSnapshot ?db srv rq (ve_now2 env) = (snap2, e0)" by fastforce
  have "e0 = None" and same: "sameCredentialMetadata snap1 snap2"
    and a: "ve_authorize2 env (cp_session snap2) (cp_bindings snap2) (cp_sources snap2) = None"
    and d: "db1 = add_audit (use_audit snap2 (sn_namespace srv) ''success'') ?db"
    using c s by (auto simp: commit_resolution_def deny_resolution_def Let_def split: option.splits if_splits)
  then show ?thesis using f s by (auto simp: sameCredentialMetadata_def)
qed

text \<open>The caller's workload token stands for the server: by a verdict in the cache, or reviewed now.\<close>

definition caller_speaks_for ::
  "credential_handler \<Rightarrow> resolve_env \<Rightarrow> resolve_call \<Rightarrow> limits \<Rightarrow> server_ident \<Rightarrow> bool" where
  "caller_speaks_for h env c l srv \<longleftrightarrow>
     (let token = trim_prefix (rc_authorization c) bearer_prefix
      in fst (CachedAuth (ch_token_hash h token) (re_cached_at env) l) = (srv, AuthValid) \<or>
         AuthenticateAudience (ch_identity h) token broker_audience = Inr srv)"

lemma review_token_Inl [simp]: "review_token h env c token st l \<noteq> (Inl (DeliveryReply out), l1)"
  by (auto simp: review_token_def Let_def rate_limited_def respondError_def split: prod.splits if_splits sum.splits)

lemma authenticate_caller_Inl [simp]: "authenticate_caller h env c l \<noteq> (Inl (DeliveryReply out), l1)"
  by (auto simp: authenticate_caller_def Let_def respondError_def split: prod.splits token_state.splits)

lemma authenticate_caller_Inr:
  assumes "authenticate_caller h env c l = (Inr srv, l1)"
  shows "caller_speaks_for h env c l srv"
proof -
  let ?token = "trim_prefix (rc_authorization c) bearer_prefix"
  obtain s st l0 where ca: "CachedAuth (ch_token_hash h ?token) (re_cached_at env) l = ((s, st), l0)"
    by (metis surj_pair)
  show ?thesis
  proof (cases "st = AuthValid")
    case True
    then show ?thesis using assms ca by (simp add: authenticate_caller_def caller_speaks_for_def Let_def)
  next
    case False
    then have "st \<noteq> AuthRejected \<and> review_token h env c ?token st (re_meanwhile env 0 l0) = (Inr srv, l1)"
      using assms ca by (cases st) (simp_all add: authenticate_caller_def Let_def)
    then have "AuthenticateAudience (ch_identity h) ?token broker_audience = Inr srv"
      by (auto simp: review_token_def Let_def split: prod.splits if_splits sum.splits)
    then show ?thesis by (simp add: caller_speaks_for_def Let_def)
  qed
qed

lemma Resolve_delivered:
  assumes "Resolve h env c l db = ((DeliveryReply out, db1), l1)"
  shows "\<exists>srv rq kube l2. rc_method c = ''POST'' \<and> rc_api_key c = [] \<and> caller_speaks_for h env c l srv \<and>
    decode (ch_request h) (rc_body c) = Some rq \<and>
    UseCredentials (broker_env h env kube srv rq) srv rq l2 db = ((Inr out, db1), l1)"
proof -
  obtain kube where k: "ch_kube h = Some kube" using assms
    by (cases "ch_kube h") (simp_all add: Resolve_def respondError_def split: if_splits)
  obtain x l2 where x: "authenticate_caller h env c l = (x, l2)" by fastforce
  obtain srv where s: "x = Inr srv" "rc_method c = ''POST''" "rc_api_key c = []"
    using assms x by (cases x) (auto simp: Resolve_def k respondError_def split: if_splits bool.splits)
  obtain ok l3 where a: "AllowServer (sn_uid srv) (re_server_at env) (re_meanwhile env 3 l2) = (ok, l3)" by fastforce
  obtain rq where r: "decode (ch_request h) (rc_body c) = Some rq"
    using assms x s a by (cases ok; cases "decode (ch_request h) (rc_body c)")
      (simp_all add: Resolve_def k respondError_def rate_limited_def split: if_splits bool.splits)
  obtain y db2 l4 where u: "UseCredentials (broker_env h env kube srv rq) srv rq (re_meanwhile env 4 l3) db = ((y, db2), l4)"
    by (metis surj_pair)
  have "y = Inr out \<and> db2 = db1 \<and> l4 = l1"
    using assms x s a r u by (cases ok; cases y)
      (simp_all add: Resolve_def k respondError_def rate_limited_def split: if_splits bool.splits)
  with x s r u show ?thesis using authenticate_caller_Inr by blast
qed

text \<open>C12: A secret is delivered only to a caller whose workload token stands for a server, and only
  for a session, bindings, sources and a grant in force at the end: in the tables as they are
  under the lock after the provider read, the session is stored, unexpired, unrevoked, enrolled
  and bound to this server generation, its human, agent and team are active, each binding and
  source entitles it to the tool; the cluster as it is then has the server live, its policy an
  allow-list that denies by default, and an active grant of this server generation that permits
  the call. Each header carries what the provider holds for its source, no header twice, and the
  use of each binding is on the audit log.\<close>

theorem delivered_credential_in_force:
  assumes "Resolve h env c l db = ((DeliveryReply out, db1), l1)"
  shows "\<exists>srv rq r bs ss.
    caller_speaks_for h env c l srv \<and> decode (ch_request h) (rc_body c) = Some rq \<and>
    session_in_force (re_others env db) srv (re_now2 env) rq r \<and>
    list_all2 (entitled (re_others env db) srv (se_binding r) rq) bs ss \<and>
    (\<forall>b \<in> set bs. checkBinding (ch_parse_local h) (Some (re_kube2 env)) b = None) \<and>
    cluster_permits (re_kube2 env) (re_decide2 env) srv r rq \<and>
    list_all2 (carries_secret (ch_providers h)) (zip bs ss) out \<and> distinct (map fst out) \<and>
    cd_audit db1 = cd_audit (re_others env db) @
      access_rows (se_binding r) (sn_namespace srv) ''success'' (map cr_name bs)"
proof -
  obtain srv rq kube l2 where c: "caller_speaks_for h env c l srv" "decode (ch_request h) (rc_body c) = Some rq"
    and u: "UseCredentials (broker_env h env kube srv rq) srv rq l2 db = ((Inr out, db1), l1)"
    using Resolve_delivered [OF assms] by blast
  from UseCredentials_delivered [OF u] obtain snap where
    s: "loadCredentialSnapshot (re_others env db) srv rq (re_now2 env) = (snap, None)" and
    a: "broker_authorizer h (re_kube2 env) (re_decide2 env) srv rq (cp_session snap) (cp_bindings snap) (cp_sources snap) = None" and
    f: "fetch_headers (re_fetch env) (ch_providers h) (sn_uid srv) 0 (zip (cp_bindings snap) (cp_sources snap)) [] l2 = (Inr out, l1)" and
    d: "db1 = add_audit (use_audit snap (sn_namespace srv) ''success'') (re_others env db)"
    by (auto simp: broker_env_def)
  have "list_all2 (carries_secret (ch_providers h)) (zip (cp_bindings snap) (cp_sources snap)) out \<and> distinct (map fst out)"
    using fetch_headers_carries [OF f] by simp
  moreover have "cd_audit db1 = cd_audit (re_others env db) @
      access_rows (se_binding (cp_session snap)) (sn_namespace srv) ''success'' (map cr_name (cp_bindings snap))"
    using d loaded_snapshot(3) [OF s] by (simp add: add_audit_def)
  ultimately show ?thesis
    using c loaded_snapshot(1,2) [OF s] broker_authorizer_None [OF a] by blast
qed

section \<open>A delivery\<close>

definition broker_demo_server :: mcp_server where
  "broker_demo_server = demo_server\<lparr>mo_spec := demo_spec\<lparr>ms_credential_bindings := [''token'']\<rparr>\<rparr>"

definition broker_demo_grant :: access_grant where
  "broker_demo_grant =
     (demo_grant ''team'')\<lparr>ag_meta := (demo_meta ''team'' ''readers'' ''uid-2'')
        \<lparr>om_annotations := [(server_uid_annotation, ''uid-1'')]\<rparr>,
      ag_spec := (ag_spec (demo_grant ''team''))\<lparr>gn_expires_at := None\<rparr>\<rparr>"

definition broker_demo_kube :: broker_kube where
  "broker_demo_kube =
     \<lparr>bq_server = (\<lambda>_ _. Some broker_demo_server), bq_grant = (\<lambda>_ _. Some broker_demo_grant)\<rparr>"

definition broker_demo_row :: session_row where
  "broker_demo_row =
     row_zero\<lparr>se_id := ''team/s1'', se_server_namespace := ''team'', se_server_name := ''demo'',
       se_server_uid := ''uid-1'', se_grant_namespace := ''team'', se_grant_name := ''readers'',
       se_binding := binding_zero\<lparr>bd_name := ''s1'', bd_namespace := ''team'', bd_human_id := ''alice'',
         bd_agent_id := ''bot'', bd_team_id := ''red'', bd_consented_trust := ''low'',
         bd_expires_at := ''2030-01-01T00:00:00Z''\<rparr>\<rparr>"

definition broker_demo_binding :: cred_binding where
  "broker_demo_binding =
     \<lparr>cr_namespace = ''team'', cr_name = ''token'', cr_source = ''vault'', cr_server = ''demo'',
      cr_server_uid = ''uid-1'', cr_tools = [''echo''], cr_human_id = ''alice'', cr_agent_id = ''bot'',
      cr_team_id = ''red'', cr_session_id = [], cr_header = ''x-mcp-credential-token'', cr_disabled = False,
      cr_revision = 1\<rparr>"

definition broker_demo_source :: source where
  "broker_demo_source =
     \<lparr>so_namespace = ''team'', so_name = ''vault'', so_provider = ''kubernetes'', so_resource = ''keys'',
      so_key = ''k'', so_version = [], so_user_id = [], so_team_id = ''red'', so_disabled = False,
      so_revision = 1\<rparr>"

definition broker_demo_db :: cred_db where
  "broker_demo_db =
     \<lparr>cd_store = \<lparr>db_epoch = ''e'', db_sequence = 0, db_floor = 0, db_sessions = [broker_demo_row], db_changes = [],
        db_retired = [], db_deleted = [], db_agents = [''bot'' \<mapsto> (''active'', ''red'')], db_deleted_users = []\<rparr>,
      cd_users = [\<lparr>us_id = ''alice'', us_role = ''user''\<rparr>], cd_teams = [\<lparr>te_id = ''red'', te_deleted = False\<rparr>],
      cd_members = [\<lparr>mb_user = ''alice'', mb_team = ''red'', mb_role = ''member'', mb_deleted = False\<rparr>],
      cd_namespaces = [], cd_sources = [broker_demo_source], cd_bindings = [broker_demo_binding], cd_audit = []\<rparr>"

definition broker_demo_request :: resolution_request where
  "broker_demo_request = \<lparr>rs_session = ''team/s1'', rs_tool = ''echo'', rs_bindings = [''token'']\<rparr>"

definition broker_demo_handler :: credential_handler where
  "broker_demo_handler =
     \<lparr>ch_store = True, ch_kube = Some broker_demo_kube,
      ch_identity = Some \<lparr>kc_review = (\<lambda>_ _. None), kc_pod = (\<lambda>_ _. KubeFailed),
        kc_replica_set = (\<lambda>_ _. KubeFailed), kc_deployment = (\<lambda>_ _. KubeFailed), kc_server = (\<lambda>_ _. KubeFailed)\<rparr>,
      ch_providers = Providers (Some (\<lambda>_ _. Some [''k'' \<mapsto> ''s3cret''])),
      ch_parse_local = (\<lambda>_. None), ch_parse_url = (\<lambda>_. None), ch_digest = demo_digest,
      ch_parse_vault = (\<lambda>_. None), ch_token_hash = id, ch_source = (\<lambda>_. None), ch_binding = (\<lambda>_. None),
      ch_request = (\<lambda>_. Some broker_demo_request)\<rparr>"

definition broker_demo_env :: resolve_env where
  "broker_demo_env =
     \<lparr>re_cached_at = 5, re_allowed_at = 5, re_recorded_at = 5, re_server_at = 5, re_meanwhile = (\<lambda>_. id),
      re_fetch = \<lparr>fe_lookup = (\<lambda>_. 6), fe_record = (\<lambda>_. 6), fe_before = (\<lambda>_. id), fe_during = (\<lambda>_. id)\<rparr>,
      re_now1 = 6, re_now2 = 7, re_decide1 = 6, re_decide2 = 7, re_kube2 = broker_demo_kube, re_others = id,
      re_denied_audit_ok = True, re_audit_ok = True, re_commit_ok = True\<rparr>"

definition broker_demo_call :: resolve_call where
  "broker_demo_call =
     \<lparr>rc_method = ''POST'', rc_authorization = ''Bearer t'', rc_api_key = [], rc_address = ''10.0.0.1'', rc_body = []\<rparr>"

definition broker_demo_limits :: limits where
  "broker_demo_limits = NewLimits\<lparr>li_auth_ok := [(''t'', \<lparr>sn_namespace = ''team'', sn_name = ''demo'', sn_uid = ''uid-1''\<rparr>, 100)]\<rparr>"

definition broker_demo_ident :: server_ident where
  "broker_demo_ident = \<lparr>sn_namespace = ''team'', sn_name = ''demo'', sn_uid = ''uid-1''\<rparr>"

lemma broker_demo_snapshot:
  "loadCredentialSnapshot broker_demo_db broker_demo_ident broker_demo_request 6 =
     ((session_snapshot_of broker_demo_row)\<lparr>cp_bindings := [broker_demo_binding], cp_sources := [broker_demo_source]\<rparr>, None)"
  "loadCredentialSnapshot broker_demo_db broker_demo_ident broker_demo_request 7 =
     ((session_snapshot_of broker_demo_row)\<lparr>cp_bindings := [broker_demo_binding], cp_sources := [broker_demo_source]\<rparr>, None)"
  by code_simp+

lemma broker_demo_authorized:
  "broker_authorizer broker_demo_handler broker_demo_kube 6 broker_demo_ident broker_demo_request broker_demo_row [broker_demo_binding] ss = None"
  "broker_authorizer broker_demo_handler broker_demo_kube 7 broker_demo_ident broker_demo_request broker_demo_row [broker_demo_binding] ss = None"
  by code_simp+

lemma broker_demo_fetched:
  "\<exists>l1. fetch_headers (re_fetch broker_demo_env) (ch_providers broker_demo_handler) (sn_uid broker_demo_ident) 0
     (zip [broker_demo_binding] [broker_demo_source]) [] l = (Inr [(''X-Mcp-Credential-Token'', ''s3cret'')], l1)"
  if "li_failures l = []"
proof -
  have "Reader (so_provider broker_demo_source) (ch_providers broker_demo_handler) =
      Some (kubernetesReader (Some (\<lambda>_ _. Some [''k'' \<mapsto> ''s3cret''])))"
    by (simp add: Reader_def Providers_def Register_def ProviderSupported_def broker_demo_source_def broker_demo_handler_def)
  moreover have secret: "ValidValue ''s3cret''"
  proof -
    have "utf8_valid ''s3cret''" "list_all (\<lambda>c. \<not> is_control c) ''s3cret''" by code_simp+
    then show ?thesis by (simp add: ValidValue_def MaxValueBytes_def)
  qed
  moreover have "kubernetesReader (Some (\<lambda>_ _. Some [''k'' \<mapsto> ''s3cret''])) broker_demo_source = Some ''s3cret''"
    using secret by (simp add: kubernetesReader_def checked_def broker_demo_source_def)
  moreover have "CanonicalHeaderKey (cr_header broker_demo_binding) = ''X-Mcp-Credential-Token''"
    by code_simp
  ultimately show ?thesis using that by (simp add: RecentFailure_def broker_demo_env_def)
qed

lemma broker_demo_used:
  assumes "li_failures l = []"
  shows "\<exists>db1 l1. UseCredentials (broker_env broker_demo_handler broker_demo_env broker_demo_kube broker_demo_ident broker_demo_request)
    broker_demo_ident broker_demo_request l broker_demo_db = ((Inr [(''X-Mcp-Credential-Token'', ''s3cret'')], db1), l1)"
proof -
  obtain l1 where f: "fetch_headers (re_fetch broker_demo_env) (ch_providers broker_demo_handler) (sn_uid broker_demo_ident) 0
     (zip [broker_demo_binding] [broker_demo_source]) [] l = (Inr [(''X-Mcp-Credential-Token'', ''s3cret'')], l1)"
    using broker_demo_fetched [OF assms] by blast
  have "rs_bindings broker_demo_request = [''token'']" by (simp add: broker_demo_request_def)
  moreover have "re_now1 broker_demo_env = 6" "re_now2 broker_demo_env = 7" "re_decide1 broker_demo_env = 6" "re_decide2 broker_demo_env = 7"
    "re_kube2 broker_demo_env = broker_demo_kube" "re_others broker_demo_env = id" "re_audit_ok broker_demo_env" "re_commit_ok broker_demo_env"
    by (simp_all add: broker_demo_env_def)
  ultimately show ?thesis
    using f broker_demo_snapshot broker_demo_authorized
    by (simp add: UseCredentials_def broker_env_def commit_resolution_def Let_def sameCredentialMetadata_def session_snapshot_of_def)
qed

theorem delivered_credential_in_force_instance:
  "\<exists>db1 l1. Resolve broker_demo_handler broker_demo_env broker_demo_call broker_demo_limits broker_demo_db =
       ((DeliveryReply [(''X-Mcp-Credential-Token'', ''s3cret'')], db1), l1) \<and>
     (\<exists>srv rq r. session_in_force broker_demo_db srv 7 rq r \<and> cluster_permits broker_demo_kube 7 srv r rq)"
proof -
  have pre: "has_prefix (rc_authorization broker_demo_call) bearer_prefix"
    "trim_prefix (rc_authorization broker_demo_call) bearer_prefix = ''t''" by code_simp+
  have auth: "authenticate_caller broker_demo_handler broker_demo_env broker_demo_call broker_demo_limits = (Inr broker_demo_ident, broker_demo_limits)"
    by (simp add: authenticate_caller_def pre broker_demo_handler_def broker_demo_env_def broker_demo_limits_def
        NewLimits_def CachedAuth_def cached_ok_def broker_demo_ident_def)
  obtain l2 where srv: "AllowServer (sn_uid broker_demo_ident) 5 broker_demo_limits = (True, l2)" "li_failures l2 = []"
    by (simp add: AllowServer_def allow_def broker_demo_limits_def NewLimits_def refilled_def seconds_def limiterMaxKeys_def)
  obtain db1 l1 where u: "UseCredentials (broker_env broker_demo_handler broker_demo_env broker_demo_kube broker_demo_ident broker_demo_request)
    broker_demo_ident broker_demo_request l2 broker_demo_db = ((Inr [(''X-Mcp-Credential-Token'', ''s3cret'')], db1), l1)"
    using broker_demo_used [OF srv(2)] by blast
  have "ch_kube broker_demo_handler = Some broker_demo_kube" "ch_store broker_demo_handler" "ch_identity broker_demo_handler \<noteq> None"
    "decode (ch_request broker_demo_handler) (rc_body broker_demo_call) = Some broker_demo_request"
    "rc_method broker_demo_call = ''POST''" "rc_api_key broker_demo_call = []"
    "re_server_at broker_demo_env = 5" "re_meanwhile broker_demo_env n = id" for n
    by (simp_all add: broker_demo_handler_def broker_demo_call_def decode_def broker_demo_env_def)
  then have run: "Resolve broker_demo_handler broker_demo_env broker_demo_call broker_demo_limits broker_demo_db =
      ((DeliveryReply [(''X-Mcp-Credential-Token'', ''s3cret'')], db1), l1)"
    using pre(1) auth srv(1) u by (simp add: Resolve_def)
  have "re_others broker_demo_env broker_demo_db = broker_demo_db" "re_now2 broker_demo_env = 7"
    "re_decide2 broker_demo_env = 7" "re_kube2 broker_demo_env = broker_demo_kube"
    by (simp_all add: broker_demo_env_def)
  with delivered_credential_in_force [OF run] run show ?thesis by auto
qed

end
