(* ===== verification/CredentialMetadata.thy ===== *)
theory CredentialMetadata
  imports CredentialClaims
begin

text \<open>
  The tables of sources and bindings under every sequence of management requests, resolutions and
  changes of the directory: what holds of them in every reachable state, and that a write with an
  outdated revision is refused.
\<close>

section \<open>Steps\<close>

text \<open>A management request, with the cluster as it is at that moment; the audit records of a
  resolution; a change of the users, teams, namespaces, agents and sessions.\<close>

datatype cred_event =
    ManagementRequest "broker_kube option" management_call
  | AccessRecorded "audit_row list"
  | DirectoryChange cred_db

definition cred_step :: "credential_handler \<Rightarrow> cred_event \<Rightarrow> cred_db \<Rightarrow> cred_db" where
  "cred_step h e db =
     (case e of
        ManagementRequest kube c \<Rightarrow> snd (Management (h\<lparr>ch_kube := kube\<rparr>) c db)
      | AccessRecorded rows \<Rightarrow> add_audit rows db
      | DirectoryChange d \<Rightarrow>
          db\<lparr>cd_store := cd_store d, cd_users := cd_users d, cd_teams := cd_teams d,
             cd_members := cd_members d, cd_namespaces := cd_namespaces d\<rparr>)"

text \<open>A resolution is one of these steps: it leaves only audit records.\<close>

lemma deny_resolution_records: "\<exists>rows. snd (deny_resolution env srv snap e db) = add_audit rows db"
  by (auto simp: deny_resolution_def add_audit_def intro: exI [of _ "[]"])

lemma commit_resolution_records: "\<exists>rows. snd (commit_resolution env srv rq snap out db) = add_audit rows db"
proof -
  have keep: "db = add_audit [] db" by (simp add: add_audit_def)
  then show ?thesis
    using deny_resolution_records
    by (auto simp: commit_resolution_def Let_def split: prod.split option.split if_splits)
qed

lemma UseCredentials_records:
  "\<exists>rows. snd (fst (UseCredentials env srv rq l db)) \<in> {add_audit rows db, add_audit rows (ve_others env db)}"
proof -
  have keep: "db = add_audit [] db" by (simp add: add_audit_def)
  show ?thesis
    using deny_resolution_records [where db = db] deny_resolution_records [where db = "ve_others env db"]
      commit_resolution_records [where db = "ve_others env db"] keep
    by (auto simp: UseCredentials_def split: prod.split option.split sum.split) blast+
qed

section \<open>The invariant\<close>

definition source_key :: "source \<Rightarrow> namespace \<times> gostring" where
  "source_key s = (so_namespace s, so_name s)"

definition cred_binding_key :: "cred_binding \<Rightarrow> namespace \<times> gostring" where
  "cred_binding_key b = (cr_namespace b, cr_name b)"

definition metadata_ok :: "(gostring \<Rightarrow> vault_url option) \<Rightarrow> cred_db \<Rightarrow> bool" where
  "metadata_ok parse db \<longleftrightarrow>
     distinct (map source_key (cd_sources db)) \<and> distinct (map cred_binding_key (cd_bindings db)) \<and>
     (\<forall>s \<in> set (cd_sources db). source_validate parse s = None \<and> 1 \<le> so_revision s) \<and>
     (\<forall>b \<in> set (cd_bindings db). binding_validate b = None \<and> 1 \<le> cr_revision b \<and>
        (cr_namespace b, cr_source b) \<in> source_key ` set (cd_sources db))"

lemma find_by_key:
  "find_source db ns n = None \<longleftrightarrow> (ns, n) \<notin> source_key ` set (cd_sources db)"
  "find_cred_binding db ns n = None \<longleftrightarrow> (ns, n) \<notin> cred_binding_key ` set (cd_bindings db)"
  by (auto simp: find_source_def find_cred_binding_def find_None_iff source_key_def cred_binding_key_def)

lemma found_source: "find_source db ns n = Some s \<Longrightarrow> s \<in> set (cd_sources db) \<and> source_key s = (ns, n)"
  using find_source_name by (auto simp: source_key_def)

lemma found_binding: "find_cred_binding db ns n = Some b \<Longrightarrow> b \<in> set (cd_bindings db) \<and> cred_binding_key b = (ns, n)"
  using find_cred_binding_name by (auto simp: cred_binding_key_def)

lemma upsert_by_key:
  "upsert_source s xs = filter (\<lambda>x. source_key x \<noteq> source_key s) xs @ [s]"
  "upsert_binding b ys = filter (\<lambda>y. cred_binding_key y \<noteq> cred_binding_key b) ys @ [b]"
  by (simp_all add: upsert_source_def upsert_binding_def source_key_def cred_binding_key_def)

lemma distinct_upsert:
  "distinct (map f xs) \<Longrightarrow> distinct (map f (filter (\<lambda>x. f x \<noteq> f y) xs @ [y]))"
  by (auto simp: distinct_map_filter)

lemma keys_upsert: "f ` set (filter (\<lambda>x. f x \<noteq> f y) xs @ [y]) = insert (f y) (f ` set xs)"
  by auto

lemma validateReference_revision [simp]: "validateReference parse (s\<lparr>so_revision := n\<rparr>) = validateReference parse s"
  unfolding validateReference_def Let_def by (cases s) (simp only: source.simps)

lemma validate_revision [simp]:
  "source_validate parse (s\<lparr>so_revision := n\<rparr>) = source_validate parse s"
  "binding_validate (b\<lparr>cr_revision := n\<rparr>) = binding_validate b"
  "source_key (s\<lparr>so_revision := n\<rparr>) = source_key s"
  "cred_binding_key (b\<lparr>cr_revision := n\<rparr>) = cred_binding_key b"
  by (simp_all add: source_validate_def binding_validate_def source_key_def cred_binding_key_def)

lemma put_source_Inr:
  assumes "put_source parse p s db = Inr (item, db1)"
  shows "cd_sources db1 = upsert_source (s\<lparr>so_revision := so_revision s + 1\<rparr>) (cd_sources db)"
    and "cd_bindings db1 = cd_bindings db" and "source_validate parse s = None"
    and "revision_ok (map_option so_revision (find_source db (so_namespace s) (so_name s))) (so_revision s)"
  using assms by (auto simp: put_source_def Let_def add_audit_def split: option.splits if_splits)

lemma put_binding_Inr:
  assumes "put_binding p b db = Inr (item, db1)"
  shows "cd_bindings db1 = upsert_binding (b\<lparr>cr_revision := cr_revision b + 1\<rparr>) (cd_bindings db)"
    and "cd_sources db1 = cd_sources db" and "binding_validate b = None"
    and "revision_ok (map_option cr_revision (find_cred_binding db (cr_namespace b) (cr_name b))) (cr_revision b)"
    and "(cr_namespace b, cr_source b) \<in> source_key ` set (cd_sources db)"
proof -
  have ok: "binding_validate b = None" "binding_source_check p b db = None"
    "revision_ok (map_option cr_revision (find_cred_binding db (cr_namespace b) (cr_name b))) (cr_revision b)"
    and db1: "cd_bindings db1 = upsert_binding (b\<lparr>cr_revision := cr_revision b + 1\<rparr>) (cd_bindings db)"
      "cd_sources db1 = cd_sources db"
    using assms by (auto simp: put_binding_def Let_def add_audit_def split: option.splits if_splits)
  have "find_source db (cr_namespace b) (cr_source b) \<noteq> None"
    using ok(2) by (auto simp: binding_source_check_def read_source_def split: option.splits)
  with ok db1 find_by_key(1) show "cd_bindings db1 = upsert_binding (b\<lparr>cr_revision := cr_revision b + 1\<rparr>) (cd_bindings db)"
    "cd_sources db1 = cd_sources db" "binding_validate b = None"
    "revision_ok (map_option cr_revision (find_cred_binding db (cr_namespace b) (cr_name b))) (cr_revision b)"
    "(cr_namespace b, cr_source b) \<in> source_key ` set (cd_sources db)" by auto
qed

lemma put_source_ok: "metadata_ok parse db \<Longrightarrow> put_source parse p s db = Inr (item, db1) \<Longrightarrow> metadata_ok parse db1"
proof -
  assume ok: "metadata_ok parse db" and put: "put_source parse p s db = Inr (item, db1)"
  note w = put_source_Inr [OF put]
  have rev: "0 \<le> so_revision s"
    using w(4) ok by (auto simp: revision_ok_def metadata_ok_def split: option.splits dest!: found_source)
  let ?xs = "cd_sources db" let ?s = "s\<lparr>so_revision := so_revision s + 1\<rparr>"
  have "distinct (map source_key (upsert_source ?s ?xs))"
    unfolding upsert_by_key using ok by (intro distinct_upsert) (simp add: metadata_ok_def)
  moreover have "source_key ` set (upsert_source ?s ?xs) = insert (source_key s) (source_key ` set ?xs)"
    unfolding upsert_by_key keys_upsert by simp
  ultimately show "metadata_ok parse db1"
    using ok w(1-3) rev by (auto simp: metadata_ok_def upsert_by_key)
qed

lemma put_binding_ok: "metadata_ok parse db \<Longrightarrow> put_binding p b db = Inr (item, db1) \<Longrightarrow> metadata_ok parse db1"
proof -
  assume ok: "metadata_ok parse db" and put: "put_binding p b db = Inr (item, db1)"
  note w = put_binding_Inr [OF put]
  have rev: "0 \<le> cr_revision b"
    using w(4) ok by (auto simp: revision_ok_def metadata_ok_def split: option.splits dest!: found_binding)
  have "distinct (map cred_binding_key (upsert_binding (b\<lparr>cr_revision := cr_revision b + 1\<rparr>) (cd_bindings db)))"
    unfolding upsert_by_key using ok by (intro distinct_upsert) (simp add: metadata_ok_def)
  then show "metadata_ok parse db1"
    using ok w rev by (auto simp: metadata_ok_def upsert_by_key)
qed

lemma delete_source_ok: "metadata_ok parse db \<Longrightarrow> delete_source p ns n r db = Inr db1 \<Longrightarrow> metadata_ok parse db1"
proof -
  assume ok: "metadata_ok parse db" and del: "delete_source p ns n r db = Inr db1"
  have db1: "cd_sources db1 = filter (\<lambda>s. source_key s \<noteq> (ns, n)) (cd_sources db)" "cd_bindings db1 = cd_bindings db"
    and unused: "\<forall>b \<in> set (cd_bindings db). (cr_namespace b, cr_source b) \<noteq> (ns, n)"
    using del by (auto simp: delete_source_def add_audit_def list_ex_iff source_key_def split: option.splits if_splits)
  have "(cr_namespace b, cr_source b) \<in> source_key ` set (cd_sources db1)" if b: "b \<in> set (cd_bindings db)" for b
  proof -
    obtain s where "s \<in> set (cd_sources db)" "source_key s = (cr_namespace b, cr_source b)"
      using ok b by (auto simp: metadata_ok_def image_iff)
    then show ?thesis using unused b unfolding db1 by (intro image_eqI [of _ _ s]) auto
  qed
  then show "metadata_ok parse db1"
    using ok by (auto simp: metadata_ok_def db1 distinct_map_filter)
qed

lemma delete_binding_ok: "metadata_ok parse db \<Longrightarrow> delete_binding p ns n r db = Inr db1 \<Longrightarrow> metadata_ok parse db1"
  by (auto simp: delete_binding_def add_audit_def metadata_ok_def distinct_map_filter split: option.splits if_splits)

lemma PutCredential_ok:
  assumes "metadata_ok parse db" and "PutCredential parse p src bind db = Inr (item, db1)"
  shows "metadata_ok parse db1"
proof -
  from assms(2) consider s where "put_source parse p s db = Inr (item, db1)" | b where "put_binding p b db = Inr (item, db1)"
    by (cases src; cases bind) (simp_all add: PutCredential_def)
  then show ?thesis using put_source_ok [OF assms(1)] put_binding_ok [OF assms(1)] by cases
qed

lemma DeleteCredential_ok:
  assumes "metadata_ok parse db" and "DeleteCredential p ns kind name r db = Inr db1"
  shows "metadata_ok parse db1"
proof -
  from assms(2) consider "delete_source p ns name r db = Inr db1" | "delete_binding p ns name r db = Inr db1"
    by (cases "kind = ''sources''"; cases "kind = ''bindings''") (simp_all add: DeleteCredential_def)
  then show ?thesis using delete_source_ok [OF assms(1)] delete_binding_ok [OF assms(1)] by cases
qed

text \<open>What a request that changed the tables did.\<close>

lemma Management_change:
  assumes "snd (Management h c db) \<noteq> db"
  shows "(\<exists>p src bind item. PutCredential (ch_parse_vault h) p src bind db = Inr (item, snd (Management h c db))) \<or>
    (\<exists>p ns kind name r. management_target (mg_path c) = Some (ns, kind, name) \<and> mg_method c = ''DELETE'' \<and>
       DeleteCredential p ns kind name r db = Inr (snd (Management h c db)))"
  using assms
  by (auto simp: Management_def put_item_reply_def delete_item_reply_def split: option.splits if_splits sum.splits)

lemma cred_step_ok: "metadata_ok (ch_parse_vault h) db \<Longrightarrow> metadata_ok (ch_parse_vault h) (cred_step h e db)"
proof (cases e)
  case (ManagementRequest kube c)
  assume ok: "metadata_ok (ch_parse_vault h) db"
  show ?thesis
  proof (cases "snd (Management (h\<lparr>ch_kube := kube\<rparr>) c db) = db")
    case False
    from Management_change [OF this] show ?thesis
      using PutCredential_ok [OF ok] DeleteCredential_ok [OF ok] by (auto simp: ManagementRequest cred_step_def)
  qed (use ok in \<open>simp add: ManagementRequest cred_step_def\<close>)
qed (auto simp: cred_step_def add_audit_def metadata_ok_def)

interpretation metadata_machine: step_machine "cred_step h" "metadata_ok (ch_parse_vault h)"
  by unfold_locales (rule cred_step_ok)

text \<open>C20: After any sequence of management requests, resolutions and changes of the directory, the
  metadata is consistent: names are unique per namespace and kind, every source and binding passed
  its validation and has a revision of at least one, and the source of every binding exists in the
  binding's namespace.\<close>

theorem credential_metadata_consistent:
  assumes "metadata_ok (ch_parse_vault h) db"
  shows "metadata_ok (ch_parse_vault h) (fold (cred_step h) es db)"
  using assms by (rule metadata_machine.run_inv)

section \<open>Optimistic writes\<close>

definition binding_revision :: "namespace \<Rightarrow> gostring \<Rightarrow> cred_db \<Rightarrow> int" where
  "binding_revision ns name db = (case find_cred_binding db ns name of None \<Rightarrow> 0 | Some b \<Rightarrow> cr_revision b)"

text \<open>A request to delete the named binding.\<close>

definition deletes_binding :: "namespace \<Rightarrow> gostring \<Rightarrow> cred_event \<Rightarrow> bool" where
  "deletes_binding ns name e \<longleftrightarrow>
     (case e of
        ManagementRequest _ c \<Rightarrow> mg_method c = ''DELETE'' \<and> management_target (mg_path c) = Some (ns, ''bindings'', name)
      | _ \<Rightarrow> False)"

lemma find_filter_conj: "(\<forall>x. P x \<longrightarrow> Q x) \<Longrightarrow> List.find P (filter Q xs) = List.find P xs"
  by (induction xs) auto

lemma find_filter_none: "(\<forall>x. P x \<longrightarrow> \<not> Q x) \<Longrightarrow> List.find P (filter Q xs) = None"
  by (auto simp: find_None_iff)

lemma find_append: "List.find P (xs @ ys) = (case List.find P xs of None \<Rightarrow> List.find P ys | Some x \<Rightarrow> Some x)"
  by (induction xs) auto

lemma find_upserted:
  "cd_bindings db1 = upsert_binding b (cd_bindings db) \<Longrightarrow>
   find_cred_binding db1 ns name =
     (if cred_binding_key b = (ns, name) then Some b else find_cred_binding db ns name)"
  by (auto simp: find_cred_binding_def upsert_by_key find_append find_filter_none find_filter_conj cred_binding_key_def
      split: option.split)

lemma put_raises_revision:
  assumes "PutCredential parse p src bind db = Inr (item, db1)"
  shows "binding_revision ns name db \<le> binding_revision ns name db1"
proof (cases bind)
  case None
  then obtain s where "put_source parse p s db = Inr (item, db1)"
    using assms by (auto simp: PutCredential_def split: option.splits)
  from put_source_Inr(2) [OF this] show ?thesis by (simp add: binding_revision_def find_cred_binding_def)
next
  case (Some b)
  then have put: "put_binding p b db = Inr (item, db1)"
    using assms by (auto simp: PutCredential_def split: option.splits)
  note w = put_binding_Inr [OF put]
  show ?thesis
  proof (cases "cred_binding_key b = (ns, name)")
    case True
    then have "binding_revision ns name db = cr_revision b"
      using w(4) by (auto simp: binding_revision_def cred_binding_key_def revision_ok_def split: option.splits)
    then show ?thesis using True by (simp add: binding_revision_def find_upserted [OF w(1)])
  next
    case False
    then show ?thesis by (simp add: binding_revision_def find_upserted [OF w(1)])
  qed
qed

lemma delete_keeps_revision:
  assumes "DeleteCredential p ns' kind name' r db = Inr db1" and "(ns', kind, name') \<noteq> (ns, ''bindings'', name)"
  shows "binding_revision ns name db1 = binding_revision ns name db"
proof (cases "kind = ''bindings''")
  case True
  then have "cd_bindings db1 = filter (\<lambda>b. \<not> (cr_namespace b = ns' \<and> cr_name b = name')) (cd_bindings db)"
    using assms by (auto simp: DeleteCredential_def delete_binding_def add_audit_def split: option.splits if_splits)
  moreover have "List.find (\<lambda>b. cr_namespace b = ns \<and> cr_name b = name)
      (filter (\<lambda>b. \<not> (cr_namespace b = ns' \<and> cr_name b = name')) (cd_bindings db)) =
      List.find (\<lambda>b. cr_namespace b = ns \<and> cr_name b = name) (cd_bindings db)"
    by (rule find_filter_conj) (use assms(2) True in auto)
  ultimately show ?thesis by (simp only: binding_revision_def find_cred_binding_def)
next
  case False
  then have "cd_bindings db1 = cd_bindings db"
    using assms by (auto simp: DeleteCredential_def delete_source_def add_audit_def split: option.splits if_splits)
  then show ?thesis by (simp add: binding_revision_def find_cred_binding_def)
qed

lemma step_revision:
  assumes "\<not> deletes_binding ns name e"
  shows "binding_revision ns name db \<le> binding_revision ns name (cred_step h e db)"
proof (cases e)
  case (ManagementRequest kube c)
  show ?thesis
  proof (cases "snd (Management (h\<lparr>ch_kube := kube\<rparr>) c db) = db")
    case False
    from Management_change [OF this] show ?thesis
      using put_raises_revision delete_keeps_revision [where ns = ns and name = name and db = db] assms
      by (fastforce simp: ManagementRequest cred_step_def deletes_binding_def)
  qed (simp add: ManagementRequest cred_step_def)
qed (simp_all add: cred_step_def add_audit_def binding_revision_def find_cred_binding_def)

interpretation revision_machine: monotone_machine
  "\<lambda>e db. if deletes_binding ns name e then db else cred_step h e db" "\<lambda>_. True" "binding_revision ns name"
  by unfold_locales (simp_all add: step_revision)

lemma revision_run:
  assumes "\<forall>e \<in> set es. \<not> deletes_binding ns name e"
  shows "binding_revision ns name db \<le> binding_revision ns name (fold (cred_step h) es db)"
proof -
  have "fold (cred_step h) es db = fold (\<lambda>e db. if deletes_binding ns name e then db else cred_step h e db) es db"
    using assms by (intro List.fold_cong) auto
  then show ?thesis using revision_machine.run_rank by metis
qed

text \<open>Writes of a binding are optimistic: once a write that brought revision \<open>n\<close> succeeded, no
  later write that brings a revision of at most \<open>n\<close> succeeds, whoever sends it and whatever else
  happened in between, unless the binding was deleted meanwhile.\<close>

theorem stale_binding_write_refused:
  assumes "PutCredential parse p None (Some b) db = Inr (item, db1)"
    and "\<forall>e \<in> set es. \<not> deletes_binding (cr_namespace b) (cr_name b) e"
    and "cr_namespace b' = cr_namespace b" and "cr_name b' = cr_name b" and "cr_revision b' \<le> cr_revision b"
    and "0 \<le> cr_revision b"
  shows "\<exists>e. PutCredential parse p' None (Some b') (fold (cred_step h) es db1) = Inl e"
proof (rule ccontr)
  let ?db = "fold (cred_step h) es db1"
  assume "\<nexists>e. PutCredential parse p' None (Some b') ?db = Inl e"
  then obtain item' db2 where put: "put_binding p' b' ?db = Inr (item', db2)"
    by (cases "PutCredential parse p' None (Some b') ?db") (auto simp: PutCredential_def)
  have "put_binding p b db = Inr (item, db1)" using assms(1) by (simp add: PutCredential_def)
  then have "binding_revision (cr_namespace b) (cr_name b) db1 = cr_revision b + 1"
    by (simp add: binding_revision_def find_upserted [OF put_binding_Inr(1)] cred_binding_key_def)
  then have "cr_revision b < binding_revision (cr_namespace b) (cr_name b) ?db"
    using revision_run [OF assms(2), of db1 h] by linarith
  moreover have "binding_revision (cr_namespace b) (cr_name b) ?db = cr_revision b' \<or>
      binding_revision (cr_namespace b) (cr_name b) ?db = 0"
    using put_binding_Inr(4) [OF put] assms(3,4)
    by (auto simp: revision_ok_def binding_revision_def split: option.splits)
  ultimately show False using assms(5,6) by linarith
qed

section \<open>Instances\<close>

definition uuid_demo :: gostring where
  "uuid_demo = ''00000000-0000-0000-0000-000000000001''"

definition written_source :: "int \<Rightarrow> source" where
  "written_source r =
     \<lparr>so_namespace = ''team'', so_name = ''vault'', so_provider = ''kubernetes'', so_resource = ''keys'',
      so_key = ''k'', so_version = [], so_user_id = [], so_team_id = uuid_demo, so_disabled = False, so_revision = r\<rparr>"

definition written_binding :: "int \<Rightarrow> cred_binding" where
  "written_binding r =
     \<lparr>cr_namespace = ''team'', cr_name = ''token'', cr_source = ''vault'', cr_server = ''demo'', cr_server_uid = ''uid-1'',
      cr_tools = [''echo''], cr_human_id = uuid_demo, cr_agent_id = ''agt_00000000000000000000000000'',
      cr_team_id = uuid_demo, cr_session_id = [], cr_header = ''X-Mcp-Credential-Token'', cr_disabled = False,
      cr_revision = r\<rparr>"

definition service_demo :: principal where
  "service_demo = \<lparr>pr_role = ''admin'', pr_subject = ''platform'', pr_is_service = True\<rparr>"

definition directory_demo :: cred_db where
  "directory_demo =
     broker_demo_db\<lparr>cd_store := (cd_store broker_demo_db)
         \<lparr>db_agents := [''agt_00000000000000000000000000'' \<mapsto> (''active'', uuid_demo)]\<rparr>,
       cd_users := [\<lparr>us_id = uuid_demo, us_role = ''user''\<rparr>], cd_teams := [\<lparr>te_id = uuid_demo, te_deleted = False\<rparr>],
       cd_members := [\<lparr>mb_user = uuid_demo, mb_team = uuid_demo, mb_role = ''member'', mb_deleted = False\<rparr>],
       cd_namespaces := [\<lparr>nr_namespace = ''team'', nr_user = None, nr_team = Some uuid_demo, nr_deleted = False\<rparr>],
       cd_sources := [], cd_bindings := []\<rparr>"

definition handler_demo :: credential_handler where
  "handler_demo = broker_demo_handler\<lparr>ch_source := (\<lambda>_. Some (written_source 0)), ch_binding := (\<lambda>_. Some (written_binding 0))\<rparr>"

definition put_demo :: "gostring \<Rightarrow> cred_event" where
  "put_demo path = ManagementRequest (Some broker_demo_kube)
     \<lparr>mg_principal = Some service_demo, mg_method = ''PUT'', mg_path = management_prefix @ path, mg_revision = [], mg_body = []\<rparr>"

lemma written_valid:
  "source_validate parse (written_source r) = None" "binding_validate (written_binding r) = None"
proof -
  have "uuidRE uuid_demo" "agentRE ''agt_00000000000000000000000000''" "NameValid ''team''" "NameValid ''vault''"
    "NameValid ''keys''" "NameValid ''token''" "NameValid ''demo''" "fieldRE ''k''" "ProviderSupported ''kubernetes''"
    "\<not> knownUnsupportedProvider ''kubernetes''" "\<not> contains_any ''keysk'' control_chars"
    "tool_error ''echo'' = None" "delivery_header ''X-Mcp-Credential-Token''"
    by code_simp+
  moreover have "uuid_demo \<noteq> []" by (simp add: uuid_demo_def)
  ultimately show "source_validate parse (written_source r) = None" "binding_validate (written_binding r) = None"
    by (simp_all add: source_validate_def validateReference_def binding_validate_def written_source_def written_binding_def)
qed

lemma demo_targets:
  "management_target (management_prefix @ ''team/sources/vault'') = Some (''team'', ''sources'', ''vault'')"
  "management_target (management_prefix @ ''team/bindings/token'') = Some (''team'', ''bindings'', ''token'')"
  by code_simp+

lemma demo_puts:
  assumes "cd_namespaces db = cd_namespaces directory_demo" "cd_teams db = cd_teams directory_demo"
    "cd_users db = cd_users directory_demo" "cd_members db = cd_members directory_demo"
    "cd_store db = cd_store directory_demo" "cd_bindings db = []"
  shows "cd_sources db = [] \<Longrightarrow>
      \<exists>db1. PutCredential parse service_demo (Some (written_source 0)) None db = Inr (SourceItem (written_source 1), db1) \<and>
        db1 = add_audit (drop (length (cd_audit db)) (cd_audit db1)) (db\<lparr>cd_sources := [written_source 1]\<rparr>)"
    and "cd_sources db = [written_source 1] \<Longrightarrow>
      \<exists>db1. PutCredential parse service_demo None (Some (written_binding 0)) db = Inr (BindingItem (written_binding 1), db1) \<and>
        cd_sources db1 = [written_source 1] \<and> cd_bindings db1 = [written_binding 1]"
proof -
  have subjects: "credentialSubjects db uuid_demo ''agt_00000000000000000000000000'' uuid_demo = None"
    using assms by (simp add: credentialSubjects_def directory_demo_def broker_demo_db_def active_user_def active_member_def)
  have admin: "credentialAdmin db service_demo = None" "credentialNamespace db service_demo ns m = None"
    "credentialSourceAuthority db service_demo s = None" for ns m s
    by (simp_all add: credentialAdmin_def credentialNamespace_def credentialSourceAuthority_def service_admin_def service_demo_def)
  have scope: "source_scope_exists db (written_source 0)"
    using assms by (simp add: source_scope_exists_def directory_demo_def written_source_def)
  have one: "(written_source 0)\<lparr>so_revision := 1\<rparr> = written_source 1" "(written_binding 0)\<lparr>cr_revision := 1\<rparr> = written_binding 1"
    by (simp_all add: written_source_def written_binding_def)
  show "cd_sources db = [] \<Longrightarrow>
      \<exists>db1. PutCredential parse service_demo (Some (written_source 0)) None db = Inr (SourceItem (written_source 1), db1) \<and>
        db1 = add_audit (drop (length (cd_audit db)) (cd_audit db1)) (db\<lparr>cd_sources := [written_source 1]\<rparr>)"
    using admin scope one
    by (simp add: PutCredential_def put_source_def written_valid find_source_def revision_ok_def upsert_source_def Let_def
        add_audit_def) (simp add: written_source_def)
  assume src: "cd_sources db = [written_source 1]"
  have "binding_source_check service_demo (written_binding 0) db = None"
    using src subjects admin(3)
    by (simp add: binding_source_check_def read_source_def find_source_def written_source_def written_binding_def Allows_def uuid_demo_def)
  then show "\<exists>db1. PutCredential parse service_demo None (Some (written_binding 0)) db = Inr (BindingItem (written_binding 1), db1) \<and>
        cd_sources db1 = [written_source 1] \<and> cd_bindings db1 = [written_binding 1]"
    using admin(2) one src assms(6)
    by (simp add: PutCredential_def put_binding_def written_valid find_cred_binding_def revision_ok_def upsert_binding_def Let_def
        add_audit_def) (simp add: written_binding_def)
qed

lemma demo_source_step:
  "\<exists>rows. cred_step handler_demo (put_demo ''team/sources/vault'') directory_demo =
     add_audit rows (directory_demo\<lparr>cd_sources := [written_source 1]\<rparr>)"
proof -
  obtain db1 where put: "PutCredential (\<lambda>_. None) service_demo (Some (written_source 0)) None directory_demo =
      Inr (SourceItem (written_source 1), db1)"
    and db1: "db1 = add_audit (drop (length (cd_audit directory_demo)) (cd_audit db1)) (directory_demo\<lparr>cd_sources := [written_source 1]\<rparr>)"
    using demo_puts(1) [of directory_demo "\<lambda>_. None"] by (auto simp: directory_demo_def)
  have "cred_step handler_demo (put_demo ''team/sources/vault'') directory_demo = db1"
    using put demo_targets(1)
    by (simp add: cred_step_def put_demo_def Management_def put_item_reply_def decode_put_def decode_def handler_demo_def
        broker_demo_handler_def written_valid) (simp add: written_source_def)
  with db1 show ?thesis by metis
qed

lemma demo_run:
  "cd_bindings (fold (cred_step handler_demo) [put_demo ''team/sources/vault'', put_demo ''team/bindings/token''] directory_demo) =
     [written_binding 1]"
proof -
  obtain rows where first: "cred_step handler_demo (put_demo ''team/sources/vault'') directory_demo =
      add_audit rows (directory_demo\<lparr>cd_sources := [written_source 1]\<rparr>)" (is "_ = ?db")
    using demo_source_step by blast
  have shape: "cd_namespaces ?db = cd_namespaces directory_demo" "cd_teams ?db = cd_teams directory_demo"
    "cd_users ?db = cd_users directory_demo" "cd_members ?db = cd_members directory_demo"
    "cd_store ?db = cd_store directory_demo" "cd_bindings ?db = []" "cd_sources ?db = [written_source 1]"
    by (simp_all add: add_audit_def directory_demo_def)
  from demo_puts(2) [OF shape, of "\<lambda>_. None"] obtain db1 where put: "PutCredential (\<lambda>_. None) service_demo None
      (Some (written_binding 0)) ?db = Inr (BindingItem (written_binding 1), db1)" "cd_bindings db1 = [written_binding 1]" by blast
  have "checkBinding (\<lambda>_. None) (Some broker_demo_kube) (written_binding 0) = None" by code_simp
  then have "cred_step handler_demo (put_demo ''team/bindings/token'') ?db = db1"
    using put demo_targets(2)
    by (simp add: cred_step_def put_demo_def Management_def put_item_reply_def decode_put_def decode_def handler_demo_def
        broker_demo_handler_def written_valid) (simp add: written_binding_def)
  with first put(2) show ?thesis by simp
qed

theorem credential_metadata_consistent_instance:
  "let db = fold (cred_step handler_demo) [put_demo ''team/sources/vault'', put_demo ''team/bindings/token''] directory_demo
   in cd_bindings db = [written_binding 1] \<and> metadata_ok (ch_parse_vault handler_demo) db"
proof -
  have "metadata_ok (ch_parse_vault handler_demo) directory_demo" by (simp add: metadata_ok_def directory_demo_def)
  from credential_metadata_consistent [OF this] show ?thesis unfolding Let_def using demo_run by blast
qed

theorem stale_binding_write_refused_instance:
  "\<exists>item db1 e. PutCredential (\<lambda>_. None) service_demo None (Some (written_binding 0))
       (directory_demo\<lparr>cd_sources := [written_source 1]\<rparr>) = Inr (item, db1) \<and>
     PutCredential (\<lambda>_. None) service_demo None (Some (written_binding 0))
       (fold (cred_step handler_demo) [AccessRecorded [], DirectoryChange directory_demo] db1) = Inl e"
proof -
  let ?db = "directory_demo\<lparr>cd_sources := [written_source 1]\<rparr>"
  have shape: "cd_namespaces ?db = cd_namespaces directory_demo" "cd_teams ?db = cd_teams directory_demo"
    "cd_users ?db = cd_users directory_demo" "cd_members ?db = cd_members directory_demo"
    "cd_store ?db = cd_store directory_demo" "cd_bindings ?db = []" "cd_sources ?db = [written_source 1]"
    by (simp_all add: directory_demo_def)
  from demo_puts(2) [OF shape, of "\<lambda>_. None"] obtain db1 where put: "PutCredential (\<lambda>_. None) service_demo None
      (Some (written_binding 0)) ?db = Inr (BindingItem (written_binding 1), db1)" by blast
  have "\<forall>e \<in> set [AccessRecorded [], DirectoryChange directory_demo].
      \<not> deletes_binding (cr_namespace (written_binding 0)) (cr_name (written_binding 0)) e"
    by (simp add: deletes_binding_def)
  from stale_binding_write_refused [OF put this refl refl order_refl]
  show ?thesis using put by (fastforce simp: written_binding_def)
qed

end
