(* ===== verification/LimitsClaims.thy ===== *)
theory LimitsClaims
  imports CredentialLimits
begin

text \<open>
  What the limits of the credential endpoint guarantee under every order of requests: the tables
  stay bounded, a cached verdict on a token is the one of a review less than ten seconds ago, and
  reviews of unknown tokens are rationed whatever their number and source.
\<close>

section \<open>Runs\<close>

datatype limits_event =
    ColdReview gostring time
  | Renewal gostring time
  | ServerCall gostring time
  | Lookup gostring time
  | Forget gostring
  | Verdict gostring server_ident bool time
  | FailureLookup gostring time
  | Failure gostring time

definition limits_step :: "limits_event \<Rightarrow> limits \<Rightarrow> limits" where
  "limits_step e l =
     (case e of
        ColdReview addr t \<Rightarrow> snd (AllowColdReview addr t l)
      | Renewal key t \<Rightarrow> snd (AllowRenewal key t l)
      | ServerCall uid t \<Rightarrow> snd (AllowServer uid t l)
      | Lookup key t \<Rightarrow> snd (CachedAuth key t l)
      | Forget key \<Rightarrow> ForgetAuth key l
      | Verdict key srv valid t \<Rightarrow> RecordAuth key srv valid t l
      | FailureLookup key t \<Rightarrow> snd (RecentFailure key t l)
      | Failure key t \<Rightarrow> RecordFailure key t l)"

section \<open>Bounded tables\<close>

lemma length_drop_full: "0 < n \<Longrightarrow> length (drop_full n xs) < n"
  by (induction n xs rule: drop_full.induct) auto

lemma length_drop_full_le: "length (drop_full n xs) \<le> length xs"
  by (induction n xs rule: drop_full.induct) auto

lemma drop_full_id: "length xs < n \<Longrightarrow> drop_full n xs = xs"
  by (cases xs) auto

definition buckets_ok :: "token_buckets \<Rightarrow> bool" where
  "buckets_ok t \<longleftrightarrow> 0 < tb_max t \<and> length (tb_items t) \<le> tb_max t"

lemma allow_ok: "buckets_ok t \<Longrightarrow> buckets_ok (snd (allow key now t))"
proof (cases "map_of (tb_items t) key")
  case None
  assume ok: "buckets_ok t"
  let ?t = "if tb_max t \<le> length (tb_items t) then evict now t else t"
  have "length (tb_items ?t) < tb_max ?t" "tb_max ?t = tb_max t"
    using ok length_drop_full by (auto simp: buckets_ok_def evict_def)
  then show ?thesis
    using None ok length_put_item [of key _ "tb_items ?t"]
    by (auto simp: allow_def buckets_ok_def Let_def intro!: order_trans [OF length_put_item])
next
  case (Some b)
  assume ok: "buckets_ok t"
  show ?thesis
    using ok Some length_put_known [OF Some]
    by (auto simp: allow_def buckets_ok_def Let_def intro: order_trans)
qed

definition limits_ok :: "limits \<Rightarrow> bool" where
  "limits_ok l \<longleftrightarrow>
     buckets_ok (li_source l) \<and> buckets_ok (li_server l) \<and> buckets_ok (li_review l) \<and> buckets_ok (li_renew l) \<and>
     length (li_auth_ok l) + length (li_auth_bad l) \<le> authCacheMax \<and> length (li_failures l) \<le> failureMaxItems"

lemma capacities [simp]: "0 < authCacheMax" "0 < failureMaxItems" "0 < limiterMaxKeys"
  by (simp_all add: authCacheMax_def failureMaxItems_def limiterMaxKeys_def)

lemma make_auth_room_free: "length (li_auth_ok (make_auth_room now l)) + length (li_auth_bad (make_auth_room now l)) < authCacheMax"
proof (cases "length (li_auth_ok l) + length (li_auth_bad l) < authCacheMax")
  case False
  define ok where "ok = filter (\<lambda>e. now < renewable_until (snd (snd e))) (li_auth_ok l)"
  define bad where "bad = drop_full (authCacheMax - length ok) (filter (\<lambda>e. now < snd e) (li_auth_bad l))"
  have "length (drop_full (authCacheMax - length bad) ok) + length bad < authCacheMax"
  proof (cases "length bad < authCacheMax")
    case True
    then show ?thesis using length_drop_full [of "authCacheMax - length bad" ok] by linarith
  next
    case b: False
    have "length bad < authCacheMax" if "length ok < authCacheMax"
      using length_drop_full [of "authCacheMax - length ok"] that unfolding bad_def by (metis diff_less_mono2 less_le_trans
          zero_less_diff diff_le_self)
    moreover have "bad = []" if "\<not> length ok < authCacheMax"
    proof -
      have "drop_full 0 xs = []" for xs :: "'a list" by (induction xs) auto
      then show ?thesis using that by (simp add: bad_def)
    qed
    ultimately show ?thesis using b by (cases "length ok < authCacheMax") simp_all
  qed
  then show ?thesis using False by (simp add: make_auth_room_def Let_def ok_def bad_def)
qed (simp add: make_auth_room_def)

lemma RecordAuth_ok: "limits_ok l \<Longrightarrow> limits_ok (RecordAuth key srv valid now l)"
proof -
  assume ok: "limits_ok l"
  let ?l = "make_auth_room now l"
  have "li_source ?l = li_source l \<and> li_server ?l = li_server l \<and> li_review ?l = li_review l \<and>
      li_renew ?l = li_renew l \<and> li_failures ?l = li_failures l"
    by (simp add: make_auth_room_def Let_def)
  then show ?thesis
    using ok make_auth_room_free [of now l] length_put_item [of key "(srv, now + authCacheTTL)" "li_auth_ok ?l"]
      length_put_item [of key "now + authBadTTL" "li_auth_bad ?l"]
    by (simp add: limits_ok_def RecordAuth_def Let_def)
qed

lemma CachedAuth_ok: "limits_ok l \<Longrightarrow> limits_ok (snd (CachedAuth key now l))"
  using length_del_item [of key "li_auth_ok l"] length_del_item [of key "li_auth_bad l"]
  by (auto simp: limits_ok_def CachedAuth_def cached_ok_def split: option.split)

lemma RecordFailure_ok: "limits_ok l \<Longrightarrow> limits_ok (RecordFailure key now l)"
proof -
  assume ok: "limits_ok l"
  let ?fs = "if length (li_failures l) < failureMaxItems then li_failures l
             else drop_full failureMaxItems (filter (\<lambda>e. now < snd e) (li_failures l))"
  have "length ?fs < failureMaxItems" by (simp add: length_drop_full)
  then have "length (put_item key (now + failureTTL) ?fs) \<le> failureMaxItems"
    using length_put_item [of key "now + failureTTL" ?fs] by linarith
  then show ?thesis using ok by (simp add: limits_ok_def RecordFailure_def Let_def)
qed

lemma limits_step_ok: "limits_ok l \<Longrightarrow> limits_ok (limits_step e l)"
proof (cases e)
  case (FailureLookup key t)
  then show "limits_ok l \<Longrightarrow> ?thesis"
    using length_del_item [of key "li_failures l"]
    by (auto simp: limits_step_def RecentFailure_def limits_ok_def split: option.split)
next
  case (Forget key)
  then show "limits_ok l \<Longrightarrow> ?thesis"
    using length_del_item [of key "li_auth_ok l"] by (simp add: limits_step_def ForgetAuth_def limits_ok_def)
next
  case (ColdReview addr t)
  then show "limits_ok l \<Longrightarrow> ?thesis"
    using allow_ok [of "li_source l" addr t] allow_ok [of "li_review l" "''all''" t]
    by (auto simp: limits_step_def AllowColdReview_def limits_ok_def split: prod.splits bool.splits)
next
  case (Renewal key t)
  then show "limits_ok l \<Longrightarrow> ?thesis"
    using allow_ok [of "li_renew l" key t] by (auto simp: limits_step_def AllowRenewal_def limits_ok_def split: prod.splits)
next
  case (ServerCall uid t)
  then show "limits_ok l \<Longrightarrow> ?thesis"
    using allow_ok [of "li_server l" uid t] by (auto simp: limits_step_def AllowServer_def limits_ok_def split: prod.splits)
qed (simp_all add: limits_step_def RecordAuth_ok CachedAuth_ok RecordFailure_ok)

interpretation limits_machine: step_machine limits_step limits_ok
  by unfold_locales (rule limits_step_ok)

lemma NewLimits_ok: "limits_ok NewLimits"
  by (simp add: NewLimits_def limits_ok_def buckets_ok_def)

section \<open>Verdicts\<close>

text \<open>Every verdict in the cache was recorded, and not forgotten since.\<close>

definition recorded_in :: "limits_event list \<Rightarrow> gostring \<Rightarrow> server_ident \<Rightarrow> time \<Rightarrow> bool" where
  "recorded_in es key srv until \<longleftrightarrow>
     (\<exists>es1 t es2. es = es1 @ Verdict key srv True t # es2 \<and> until = t + authCacheTTL \<and> Forget key \<notin> set es2)"

lemma recorded_snoc:
  "recorded_in es key srv until \<Longrightarrow> e \<noteq> Forget key \<Longrightarrow> recorded_in (es @ [e]) key srv until"
  unfolding recorded_in_def by (elim exE conjE) (rule exI, rule exI, rule_tac x = "es2 @ [e]" in exI, simp)

lemma set_drop_full: "set (drop_full n xs) \<subseteq> set xs"
  by (induction n xs rule: drop_full.induct) auto

lemma step_verdicts:
  "set (li_auth_ok (limits_step e l)) \<subseteq>
    (case e of
       Verdict key srv valid t \<Rightarrow> (if valid then insert (key, srv, t + authCacheTTL) (set (li_auth_ok l)) else set (li_auth_ok l))
     | Forget key \<Rightarrow> {v \<in> set (li_auth_ok l). fst v \<noteq> key}
     | _ \<Rightarrow> set (li_auth_ok l))"
proof (cases e)
  case (Verdict key srv valid t)
  have "set (li_auth_ok (make_auth_room t l)) \<subseteq> set (li_auth_ok l)"
    by (auto simp: make_auth_room_def Let_def dest!: set_drop_full [THEN subsetD])
  then show ?thesis
    using set_put_item [of key "(srv, t + authCacheTTL)" "li_auth_ok (make_auth_room t l)"]
    by (auto simp: Verdict limits_step_def RecordAuth_def Let_def)
next
  case (Lookup key t)
  then show ?thesis
    by (auto simp: limits_step_def CachedAuth_def cached_ok_def del_item_def split: option.splits)
qed (auto simp: limits_step_def AllowColdReview_def AllowRenewal_def AllowServer_def ForgetAuth_def del_item_def
    RecentFailure_def RecordFailure_def Let_def split: prod.splits bool.splits option.splits)

lemma run_verdicts:
  "(key, srv, until) \<in> set (li_auth_ok (fold limits_step es NewLimits)) \<Longrightarrow> recorded_in es key srv until"
proof (induction es rule: rev_induct)
  case Nil
  then show ?case by (simp add: NewLimits_def)
next
  case (snoc e es)
  let ?l = "fold limits_step es NewLimits"
  have v: "(key, srv, until) \<in> set (li_auth_ok (limits_step e ?l))" using snoc.prems by simp
  show ?case
  proof (cases "(key, srv, until) \<in> set (li_auth_ok ?l)")
    case True
    then have "recorded_in es key srv until" by (rule snoc.IH)
    moreover have "e \<noteq> Forget key" using v step_verdicts [of "Forget key" ?l] by auto
    ultimately show ?thesis by (rule recorded_snoc)
  next
    case False
    then obtain t where "e = Verdict key srv True t" "until = t + authCacheTTL"
      using v step_verdicts [of e ?l] by (cases e) (auto split: if_splits)
    then show ?thesis unfolding recorded_in_def by (intro exI [of _ es] exI [of _ t] exI [of _ "[]"]) simp
  qed
qed

lemma cached_valid:
  assumes "fst (CachedAuth key now l) = (srv, AuthValid)"
  shows "\<exists>until. (key, srv, until) \<in> set (li_auth_ok l) \<and> now < until"
  using assms map_of_SomeD [of "li_auth_ok l" key]
  by (auto simp: CachedAuth_def cached_ok_def split: option.splits if_splits)

text \<open>Whatever the order of the requests, a token counts as valid without a review only for the
  server that a review named less than ten seconds ago, and not if the token was definitely
  rejected since.\<close>

theorem cached_verdict_recent:
  assumes "fst (CachedAuth key now (fold limits_step es NewLimits)) = (srv, AuthValid)"
  shows "\<exists>es1 t es2. es = es1 @ Verdict key srv True t # es2 \<and> now < t + 10 * second \<and> Forget key \<notin> set es2"
proof -
  obtain until where "(key, srv, until) \<in> set (li_auth_ok (fold limits_step es NewLimits))" "now < until"
    using cached_valid [OF assms] by blast
  from run_verdicts [OF this(1)] this(2) show ?thesis
    unfolding recorded_in_def authCacheTTL_def by blast
qed

section \<open>The budget of reviews\<close>

text \<open>How many reviews of unknown tokens a run allows.\<close>

fun reviews :: "limits_event list \<Rightarrow> limits \<Rightarrow> nat" where
  "reviews [] l = 0"
| "reviews (e # es) l =
     (case e of ColdReview addr t \<Rightarrow> if fst (AllowColdReview addr t l) then 1 else 0 | _ \<Rightarrow> 0) +
     reviews es (limits_step e l)"

text \<open>The instants of the requests that ask for a review, in order.\<close>

definition cold_times :: "limits_event list \<Rightarrow> time list" where
  "cold_times es = concat (map (\<lambda>e. case e of ColdReview addr t \<Rightarrow> [t] | _ \<Rightarrow> []) es)"

text \<open>What the global bucket holds when it is asked at an instant; it has one key only.\<close>

definition review_bucket :: "time \<Rightarrow> limits \<Rightarrow> bool" where
  "review_bucket t l \<longleftrightarrow>
     tb_rate (li_review l) = 50 \<and> tb_burst (li_review l) = 100 \<and>
     (tb_items (li_review l) = [] \<or>
      (\<exists>b. tb_items (li_review l) = [(''all'', b)] \<and> bk_last b \<le> t \<and> 0 \<le> bk_tokens b))"

definition review_level :: "time \<Rightarrow> limits \<Rightarrow> rat" where
  "review_level t l =
     (case tb_items (li_review l) of
        [] \<Rightarrow> 100
      | (k, b) # _ \<Rightarrow> min 100 (bk_tokens b + seconds (t - bk_last b) * 50))"

lemma seconds_diff: "seconds (c - a) = seconds (c - b) + seconds (b - a)"
  by (simp add: seconds_def diff_divide_distrib)

lemma seconds_mono: "a \<le> b \<Longrightarrow> seconds a \<le> seconds b"
  by (simp add: seconds_def divide_right_mono)

lemma seconds_nonneg: "0 \<le> a \<Longrightarrow> 0 \<le> seconds a"
  by (simp add: seconds_def)

lemma review_passage:
  assumes "t \<le> t'" and "review_bucket t l"
  shows "review_bucket t' l" "review_level t' l \<le> review_level t l + 50 * seconds (t' - t)" "0 \<le> review_level t l"
proof -
  have s: "0 \<le> seconds (t' - t)" using assms(1) by (simp add: seconds_nonneg)
  show "review_bucket t' l" using assms by (auto simp: review_bucket_def)
  show "review_level t' l \<le> review_level t l + 50 * seconds (t' - t)"
  proof (cases "tb_items (li_review l)")
    case Nil
    then show ?thesis using s by (simp add: review_level_def)
  next
    case (Cons e rest)
    obtain k b where e: "e = (k, b)" by (cases e)
    have "seconds (t' - bk_last b) = seconds (t' - t) + seconds (t - bk_last b)" by (rule seconds_diff)
    then show ?thesis using s by (simp add: review_level_def Cons e min_def algebra_simps)
  qed
  show "0 \<le> review_level t l"
    using assms(2) seconds_nonneg by (auto simp: review_bucket_def review_level_def)
qed

lemma allow_all:
  assumes "review_bucket t l" and "allow ''all'' t (li_review l) = (granted, r)"
  shows "tb_items r = [(''all'', \<lparr>bk_tokens = review_level t l - (if granted then 1 else 0), bk_last = t\<rparr>)]"
    and "granted \<longleftrightarrow> 1 \<le> review_level t l" and "tb_rate r = 50" "tb_burst r = 100"
proof -
  let ?r = "li_review l"
  have p: "tb_rate ?r = 50" "tb_burst ?r = 100" using assms(1) by (simp_all add: review_bucket_def)
  consider "tb_items ?r = []" | b where "tb_items ?r = [(''all'', b)]"
    using assms(1) by (auto simp: review_bucket_def)
  then have "tb_items r = [(''all'', \<lparr>bk_tokens = review_level t l - (if granted then 1 else 0), bk_last = t\<rparr>)] \<and>
      (granted \<longleftrightarrow> 1 \<le> review_level t l) \<and> tb_rate r = 50 \<and> tb_burst r = 100"
  proof cases
    case 1
    then show ?thesis
      using assms(2) p by (auto simp: allow_def refilled_def review_level_def evict_def put_item_def seconds_def split: if_splits)
  next
    case (2 b)
    then show ?thesis
      using assms(2) p by (auto simp: allow_def refilled_def review_level_def put_item_def Let_def split: if_splits)
  qed
  then show "tb_items r = [(''all'', \<lparr>bk_tokens = review_level t l - (if granted then 1 else 0), bk_last = t\<rparr>)]"
    "granted \<longleftrightarrow> 1 \<le> review_level t l" "tb_rate r = 50" "tb_burst r = 100" by blast+
qed

lemma review_asked:
  assumes "review_bucket t l" and "AllowColdReview addr t l = (granted, l')"
  shows "review_bucket t l'" and "review_level t l' = review_level t l - (if granted then 1 else 0)"
proof -
  obtain ok s where src: "allow addr t (li_source l) = (ok, s)" by fastforce
  obtain g r where all: "allow ''all'' t (li_review l) = (g, r)" by fastforce
  have "review_level t l \<le> 100"
    by (simp add: review_level_def split: list.split)
  then have "review_bucket t l' \<and> review_level t l' = review_level t l - (if granted then 1 else 0)"
    using assms src all allow_all [OF assms(1) all] review_passage(3) [OF order_refl assms(1)]
    by (cases ok) (auto simp: AllowColdReview_def review_bucket_def review_level_def seconds_def)
  then show "review_bucket t l'" "review_level t l' = review_level t l - (if granted then 1 else 0)" by blast+
qed

lemma other_events_keep_bucket:
  "(\<forall>addr t. e \<noteq> ColdReview addr t) \<Longrightarrow> li_review (limits_step e l) = li_review l"
  by (cases e) (auto simp: limits_step_def AllowRenewal_def AllowServer_def ForgetAuth_def CachedAuth_def cached_ok_def
    RecentFailure_def RecordFailure_def RecordAuth_def make_auth_room_def Let_def split: prod.splits option.splits)

lemma reviews_within:
  assumes "review_bucket t0 l" and "sorted (t0 # cold_times es)" and "\<forall>t \<in> set (cold_times es). t \<le> t1" and "t0 \<le> t1"
  shows "of_nat (reviews es l) \<le> review_level t0 l + 50 * seconds (t1 - t0)"
  using assms
proof (induction es arbitrary: t0 l)
  case Nil
  then show ?case using review_passage(3) [OF order_refl Nil(1)] seconds_nonneg [of "t1 - t0"] by simp
next
  case (Cons e es)
  show ?case
  proof (cases "\<exists>addr t. e = ColdReview addr t")
    case True
    then obtain addr t where e: "e = ColdReview addr t" by blast
    then have t: "t0 \<le> t" "t \<le> t1" "sorted (t # cold_times es)" "\<forall>t \<in> set (cold_times es). t \<le> t1"
      using Cons.prems by (simp_all add: cold_times_def)
    obtain granted l' where a: "AllowColdReview addr t l = (granted, l')" by fastforce
    note pass = review_passage [OF t(1) Cons.prems(1)]
    note asked = review_asked [OF pass(1) a]
    have "of_nat (reviews es l') \<le> review_level t l' + 50 * seconds (t1 - t)"
      by (rule Cons.IH [OF asked(1) t(3,4,2)])
    moreover have "limits_step e l = l'" using a by (simp add: limits_step_def e)
    moreover have "seconds (t1 - t0) = seconds (t1 - t) + seconds (t - t0)" by (rule seconds_diff)
    ultimately show ?thesis using pass(2) asked(2) a by (auto simp: e)
  next
    case False
    then have same: "li_review (limits_step e l) = li_review l" "cold_times (e # es) = cold_times es"
      "reviews (e # es) l = reviews es (limits_step e l)"
      using other_events_keep_bucket by (cases e; auto simp: cold_times_def)+
    have "review_bucket t0 (limits_step e l)" "review_level t0 (limits_step e l) = review_level t0 l"
      using Cons.prems(1) same(1) by (simp_all add: review_bucket_def review_level_def)
    with Cons.IH [of t0 "limits_step e l"] Cons.prems same show ?thesis by simp
  qed
qed

lemma run_review_bucket:
  assumes "sorted (cold_times es)" and "\<forall>t \<in> set (cold_times es). t \<le> t0"
  shows "review_bucket t0 (fold limits_step es NewLimits)"
  using assms
proof (induction es arbitrary: t0 rule: rev_induct)
  case Nil
  then show ?case by (simp add: review_bucket_def NewLimits_def)
next
  case (snoc e es)
  let ?l = "fold limits_step es NewLimits"
  have c: "cold_times (es @ [e]) = cold_times es @ cold_times [e]" by (simp add: cold_times_def)
  show ?case
  proof (cases "\<exists>addr t. e = ColdReview addr t")
    case True
    then obtain addr t where e: "e = ColdReview addr t" by blast
    then have t: "sorted (cold_times es)" "\<forall>u \<in> set (cold_times es). u \<le> t" "t \<le> t0"
      using snoc.prems c by (auto simp: sorted_append cold_times_def)
    obtain granted l' where a: "AllowColdReview addr t ?l = (granted, l')" by fastforce
    have "review_bucket t l'" by (rule review_asked(1) [OF snoc.IH [OF t(1,2)] a])
    moreover have "fold limits_step (es @ [e]) NewLimits = l'" using a by (simp add: e) (simp add: limits_step_def)
    ultimately show ?thesis using review_passage(1) [OF t(3)] by simp
  next
    case False
    then have "li_review (limits_step e ?l) = li_review ?l" using other_events_keep_bucket by blast
    moreover have "review_bucket t0 ?l" using snoc.IH snoc.prems c by (simp add: sorted_append)
    ultimately show ?thesis by (simp add: review_bucket_def)
  qed
qed

text \<open>C21: However many requests with unknown tokens arrive, from whatever addresses and interleaved
  with whatever other traffic, in a window of time the endpoint lets at most 100 of them, and 50
  per second of the window, go to a token review.\<close>

theorem cold_reviews_rationed:
  assumes "sorted (cold_times (before @ es))" and "\<forall>t \<in> set (cold_times before). t \<le> t0"
    and "\<forall>t \<in> set (cold_times es). t0 \<le> t \<and> t \<le> t1" and "t0 \<le> t1"
  shows "of_nat (reviews es (fold limits_step before NewLimits)) \<le> 100 + 50 * seconds (t1 - t0)"
proof -
  let ?l = "fold limits_step before NewLimits"
  have c: "cold_times (before @ es) = cold_times before @ cold_times es" by (simp add: cold_times_def)
  have "review_bucket t0 ?l" using assms(1,2) c by (intro run_review_bucket) (simp_all add: sorted_append)
  moreover have "sorted (t0 # cold_times es)" using assms(1,3) c by (simp add: sorted_append)
  ultimately have "of_nat (reviews es ?l) \<le> review_level t0 ?l + 50 * seconds (t1 - t0)"
    using assms(3,4) by (intro reviews_within) auto
  moreover have "review_level t0 ?l \<le> 100" by (simp add: review_level_def split: list.split)
  ultimately show ?thesis by linarith
qed

text \<open>C: The tables of the limits never grow beyond their capacities.\<close>

theorem limits_tables_bounded:
  "length (li_auth_ok (fold limits_step es NewLimits)) + length (li_auth_bad (fold limits_step es NewLimits)) \<le> 4096 \<and>
   length (li_failures (fold limits_step es NewLimits)) \<le> 1024 \<and>
   length (tb_items (li_source (fold limits_step es NewLimits))) \<le> tb_max (li_source (fold limits_step es NewLimits))"
  using limits_machine.run_inv [OF NewLimits_ok, of es]
  by (simp add: limits_ok_def buckets_ok_def authCacheMax_def failureMaxItems_def)

section \<open>Instances\<close>

definition limits_demo :: "limits_event list" where
  "limits_demo = [ColdReview ''10.0.0.1'' 5, Verdict ''t'' \<lparr>sn_namespace = ''team'', sn_name = ''demo'', sn_uid = ''u''\<rparr> True 6]"

theorem cached_verdict_recent_instance:
  "\<exists>es1 t es2. limits_demo = es1 @ Verdict ''t'' \<lparr>sn_namespace = ''team'', sn_name = ''demo'', sn_uid = ''u''\<rparr> True t # es2 \<and>
     7 < t + 10 * second \<and> Forget ''t'' \<notin> set es2"
proof -
  have "fst (CachedAuth ''t'' 7 (fold limits_step limits_demo NewLimits)) =
      (\<lparr>sn_namespace = ''team'', sn_name = ''demo'', sn_uid = ''u''\<rparr>, AuthValid)"
    by (simp add: limits_demo_def limits_step_def AllowColdReview_def allow_def refilled_def seconds_def evict_def put_item_def
        RecordAuth_def make_auth_room_def authCacheMax_def limiterMaxKeys_def CachedAuth_def cached_ok_def NewLimits_def authCacheTTL_def second_def Let_def)
  from cached_verdict_recent [OF this] show ?thesis by blast
qed

theorem cold_reviews_rationed_instance:
  "of_nat (reviews limits_demo (fold limits_step limits_demo NewLimits)) \<le> (100 + 50 * seconds (6 - 5) :: rat)"
  using cold_reviews_rationed [of limits_demo limits_demo 5 6] by (simp add: limits_demo_def cold_times_def)

end
