(* ===== verification/WorkloadClaims.thy ===== *)
theory WorkloadClaims
  imports WorkloadIdentity
begin

text \<open>
  What an accepted workload token means: a chain of live objects, each named by identity in the
  one before, from the Pod the token is bound to up to the server it speaks for.
\<close>

text \<open>The controller of \<open>w\<close> is the live object \<open>x\<close> that the cluster returns under the reference's name.\<close>

definition controlled_by ::
  "gostring \<Rightarrow> gostring \<Rightarrow> (gostring \<Rightarrow> 'a kube_get) \<Rightarrow> ('a \<Rightarrow> object_meta) \<Rightarrow> workload \<Rightarrow> 'a \<Rightarrow> bool" where
  "controlled_by kind api get meta w x \<longleftrightarrow>
     (\<exists>ow \<in> set (wl_owners w). ow_controller ow = Some True \<and> ow_kind ow = kind \<and> ow_api_version ow = api \<and>
        ow_uid ow \<noteq> [] \<and> get (ow_name ow) = KubeFound x \<and> om_uid (meta x) = ow_uid ow \<and> om_deletion (meta x) = None)"

lemma follow_Inr: "follow kind api get meta w = Inr x \<Longrightarrow> controlled_by kind api get meta w x"
  by (auto simp: follow_def controlled_by_def controller_of_def definite_def find_Some_iff
      split: option.splits sum.splits kube_get.splits if_splits)

lemma definite_Inr [simp]: "definite g = Inr x \<longleftrightarrow> g = KubeFound x"
  by (simp add: definite_def split: kube_get.split)

text \<open>The Pod a review binds the token to, running under the service account of the token.\<close>

definition bound_to :: "kube_client \<Rightarrow> token_review \<Rightarrow> gostring \<Rightarrow> namespace \<Rightarrow> workload \<Rightarrow> bool" where
  "bound_to kc r audience ns pod \<longleftrightarrow>
     rv_authenticated r \<and> rv_review_error r = [] \<and> audience \<in> set (rv_audiences r) \<and>
     (\<exists>account name uid. service_account r = Some (ns, account) \<and> bound_pod r = Some (name, uid) \<and>
        kc_pod kc ns name = KubeFound pod \<and> om_uid (wl_meta pod) = uid \<and> wl_service_account pod = account \<and>
        om_deletion (wl_meta pod) = None)"

definition serves :: "kube_client \<Rightarrow> namespace \<Rightarrow> workload \<Rightarrow> mcp_server \<Rightarrow> bool" where
  "serves kc ns pod s \<longleftrightarrow>
     (\<exists>rs dep. controlled_by ''ReplicaSet'' ''apps/v1'' (kc_replica_set kc ns) wl_meta pod rs \<and>
        controlled_by ''Deployment'' ''apps/v1'' (kc_deployment kc ns) wl_meta rs dep \<and>
        controlled_by ''MCPServer'' mcp_group_version (kc_server kc ns) mo_meta dep s \<and>
        om_name (wl_meta dep) \<in> {om_name (mo_meta s), om_name (mo_meta s) @ ''-canary''})"

lemma server_of_pod_Inr:
  assumes "server_of_pod kc ns pod = Inr srv"
  shows "\<exists>s. serves kc ns pod s \<and> annotation (mo_meta s) retiring_annotation \<noteq> ''true'' \<and>
    srv = \<lparr>sn_namespace = ns, sn_name = om_name (mo_meta s), sn_uid = om_uid (mo_meta s)\<rparr>"
proof -
  obtain rs dep where c: "follow ''ReplicaSet'' ''apps/v1'' (kc_replica_set kc ns) wl_meta pod = Inr rs"
    "follow ''Deployment'' ''apps/v1'' (kc_deployment kc ns) wl_meta rs = Inr dep" "server_of_deployment kc ns dep = Inr srv"
    using assms by (auto simp: server_of_pod_def split: sum.splits)
  obtain s where s: "follow ''MCPServer'' mcp_group_version (kc_server kc ns) mo_meta dep = Inr s"
    "annotation (mo_meta s) retiring_annotation \<noteq> ''true''"
    "om_name (wl_meta dep) \<in> {om_name (mo_meta s), om_name (mo_meta s) @ ''-canary''}"
    "srv = \<lparr>sn_namespace = ns, sn_name = om_name (mo_meta s), sn_uid = om_uid (mo_meta s)\<rparr>"
    using c(3) by (auto simp: server_of_deployment_def split: sum.splits if_splits)
  show ?thesis
    using follow_Inr [OF c(1)] follow_Inr [OF c(2)] follow_Inr [OF s(1)] s(2-4) unfolding serves_def by blast
qed

text \<open>C19: A workload token is accepted only for a server that a chain of live objects leads to: the
  token review confirms the asked audience and binds the token to a Pod that runs under the
  token's service account; the Pod's controller is a ReplicaSet, its controller a Deployment that
  has the server's name or its canary name, its controller the server, each the very object its
  reference names and none being deleted; the server is not retiring and is reported with its own
  identity.\<close>

theorem workload_token_sound:
  assumes "AuthenticateAudience (Some kc) token audience = Inr srv"
  shows "token \<noteq> [] \<and>
    (\<exists>r pod s. kc_review kc token audience = Some r \<and> bound_to kc r audience (sn_namespace srv) pod \<and>
       serves kc (sn_namespace srv) pod s \<and> annotation (mo_meta s) retiring_annotation \<noteq> ''true'' \<and>
       om_deletion (mo_meta s) = None \<and> sn_name srv = om_name (mo_meta s) \<and> sn_uid srv = om_uid (mo_meta s))"
proof -
  obtain r ns account name uid pod where r: "token \<noteq> []" "kc_review kc token audience = Some r"
    "rv_authenticated r" "rv_review_error r = []" "audience \<in> set (rv_audiences r)"
    "service_account r = Some (ns, account)" "bound_pod r = Some (name, uid)" "kc_pod kc ns name = KubeFound pod"
    "om_uid (wl_meta pod) = uid" "wl_service_account pod = account" "om_deletion (wl_meta pod) = None"
    "server_of_pod kc ns pod = Inr srv"
    using assms by (auto simp: AuthenticateAudience_def split: option.splits if_splits sum.splits prod.splits)
  from server_of_pod_Inr [OF r(12)] obtain s where s: "serves kc ns pod s"
    "annotation (mo_meta s) retiring_annotation \<noteq> ''true''"
    "srv = \<lparr>sn_namespace = ns, sn_name = om_name (mo_meta s), sn_uid = om_uid (mo_meta s)\<rparr>" by blast
  have "om_deletion (mo_meta s) = None" using s(1) by (auto simp: serves_def controlled_by_def)
  moreover have "bound_to kc r audience ns pod" using r by (auto simp: bound_to_def)
  ultimately show ?thesis using r(1,2) s by auto
qed

section \<open>An instance\<close>

definition chain_meta :: "gostring \<Rightarrow> gostring \<Rightarrow> object_meta" where
  "chain_meta name uid =
     \<lparr>om_name = name, om_namespace = ''team'', om_uid = uid, om_annotations = [], om_creation = 0, om_deletion = None\<rparr>"

definition owned_by :: "gostring \<Rightarrow> gostring \<Rightarrow> gostring \<Rightarrow> gostring \<Rightarrow> owner_reference" where
  "owned_by kind api name uid =
     \<lparr>ow_kind = kind, ow_api_version = api, ow_name = name, ow_uid = uid, ow_controller = Some True\<rparr>"

definition chain_client :: "mcp_server \<Rightarrow> kube_client" where
  "chain_client s =
     \<lparr>kc_review = (\<lambda>_ aud. Some \<lparr>rv_authenticated = True, rv_review_error = [], rv_audiences = [aud],
        rv_username = ''system:serviceaccount:team:gateway'', rv_pod_name = [''p''], rv_pod_uid = [''u1'']\<rparr>),
      kc_pod = (\<lambda>_ _. KubeFound \<lparr>wl_meta = chain_meta ''p'' ''u1'', wl_owners = [owned_by ''ReplicaSet'' ''apps/v1'' ''rs'' ''u2''],
        wl_service_account = ''gateway''\<rparr>),
      kc_replica_set = (\<lambda>_ _. KubeFound \<lparr>wl_meta = chain_meta ''rs'' ''u2'',
        wl_owners = [owned_by ''Deployment'' ''apps/v1'' ''demo-canary'' ''u3''], wl_service_account = []\<rparr>),
      kc_deployment = (\<lambda>_ _. KubeFound \<lparr>wl_meta = chain_meta ''demo-canary'' ''u3'',
        wl_owners = [owned_by ''MCPServer'' mcp_group_version ''demo'' ''u4''], wl_service_account = []\<rparr>),
      kc_server = (\<lambda>_ _. KubeFound (s\<lparr>mo_meta := chain_meta ''demo'' ''u4''\<rparr>))\<rparr>"

theorem workload_token_sound_instance:
  "\<forall>s. \<exists>pod. AuthenticateAudience (Some (chain_client s)) ''t'' gateway_audience =
       Inr \<lparr>sn_namespace = ''team'', sn_name = ''demo'', sn_uid = ''u4''\<rparr> \<and>
     serves (chain_client s) ''team'' pod (s\<lparr>mo_meta := chain_meta ''demo'' ''u4''\<rparr>)"
proof -
  have inst: "\<exists>pod. AuthenticateAudience (Some (chain_client s)) ''t'' gateway_audience =
      Inr \<lparr>sn_namespace = ''team'', sn_name = ''demo'', sn_uid = ''u4''\<rparr> \<and>
    serves (chain_client s) ''team'' pod (s\<lparr>mo_meta := chain_meta ''demo'' ''u4''\<rparr>)" for s
  proof -
  have names: "service_account \<lparr>rv_authenticated = True, rv_review_error = [], rv_audiences = as,
        rv_username = ''system:serviceaccount:team:gateway'', rv_pod_name = [''p''], rv_pod_uid = [''u1'']\<rparr> = Some (''team'', ''gateway'')" for as
    by (simp add: service_account_def)
  have run: "AuthenticateAudience (Some (chain_client s)) ''t'' gateway_audience =
      Inr \<lparr>sn_namespace = ''team'', sn_name = ''demo'', sn_uid = ''u4''\<rparr>"
    by (simp add: AuthenticateAudience_def chain_client_def names bound_pod_def definite_def server_of_pod_def follow_def
        controller_of_def owned_by_def chain_meta_def server_of_deployment_def annotation_def)
  from workload_token_sound [OF run] obtain pod x where "serves (chain_client s) ''team'' pod x"
    by auto
  moreover from this have "x = s\<lparr>mo_meta := chain_meta ''demo'' ''u4''\<rparr>"
    by (auto simp: serves_def controlled_by_def chain_client_def)
  ultimately show ?thesis using run by blast
  qed
  show ?thesis by (intro allI inst)
qed

end
