(* ===== verification/Encoding.thy ===== *)
theory Encoding
  imports GoBase
begin

text \<open>
  The text encodings the sign-in and the session binder use: unpadded base64 with the URL alphabet
  (\<open>base64.RawURLEncoding\<close>), hexadecimal, and \<open>strings.Fields\<close> for the authorization header.
\<close>

section \<open>Base64\<close>

definition url_alphabet :: gostring where
  "url_alphabet = ''ABCDEFGHIJKLMNOPQRSTUVWXYZabcdefghijklmnopqrstuvwxyz0123456789-_''"

definition url_char :: "nat \<Rightarrow> char" where
  "url_char n = url_alphabet ! (n mod 64)"

abbreviation byte_of :: "char \<Rightarrow> nat" where
  "byte_of c \<equiv> of_char c"

fun raw_url_encode :: "gostring \<Rightarrow> gostring" where
  "raw_url_encode [] = []"
| "raw_url_encode [a] = (let n = byte_of a * 16 in [url_char (n div 64), url_char n])"
| "raw_url_encode [a, b] =
     (let n = (byte_of a * 256 + byte_of b) * 4 in [url_char (n div 4096), url_char (n div 64), url_char n])"
| "raw_url_encode (a # b # c # s) =
     (let n = (byte_of a * 256 + byte_of b) * 256 + byte_of c in
      [url_char (n div 262144), url_char (n div 4096), url_char (n div 64), url_char n] @ raw_url_encode s)"

text \<open>Decoding skips line breaks and fails on any other character outside the alphabet and on a last
  group of one character. Only the length of what it yields is used.\<close>

definition raw_url_decoded_length :: "gostring \<Rightarrow> nat option" where
  "raw_url_decoded_length s =
     (let t = filter (\<lambda>c. c \<noteq> CHR 0x0A \<and> c \<noteq> CHR 0x0D) s in
      if list_all (\<lambda>c. List.member url_alphabet c) t \<and> length t mod 4 \<noteq> 1 then Some (length t * 3 div 4) else None)"

lemma length_url_alphabet: "length url_alphabet = 64"
  by (simp add: url_alphabet_def)

lemma url_char_in: "url_char n \<in> set url_alphabet"
  unfolding url_char_def by (rule nth_mem) (simp add: length_url_alphabet)

lemma url_alphabet_plain: "c \<in> set url_alphabet \<Longrightarrow> c \<noteq> CHR 0x0A \<and> c \<noteq> CHR 0x0D \<and> c \<noteq> CHR ''.''"
  by (auto simp: url_alphabet_def)

lemma raw_url_encode_chars: "set (raw_url_encode s) \<subseteq> set url_alphabet"
  by (induction s rule: raw_url_encode.induct) (auto simp: Let_def url_char_in)

lemma raw_url_encode_plain: "c \<in> set (raw_url_encode s) \<Longrightarrow> c \<noteq> CHR 0x0A \<and> c \<noteq> CHR 0x0D \<and> c \<noteq> CHR ''.''"
  using raw_url_encode_chars url_alphabet_plain by blast

lemma length_raw_url_encode: "length (raw_url_encode s) = (length s * 4 + 2) div 3"
  by (induction s rule: raw_url_encode.induct) (simp_all add: Let_def)

lemma decoded_length_encode: "raw_url_decoded_length (raw_url_encode s) = Some (length s)"
proof -
  have "filter (\<lambda>c. c \<noteq> CHR 0x0A \<and> c \<noteq> CHR 0x0D) (raw_url_encode s) = raw_url_encode s"
    by (rule filter_True) (use raw_url_encode_plain in blast)
  moreover have "list_all (\<lambda>c. List.member url_alphabet c) (raw_url_encode s)"
    using raw_url_encode_chars by (auto simp: list_all_iff)
  moreover have "length (raw_url_encode s) mod 4 \<noteq> 1 \<and> length (raw_url_encode s) * 3 div 4 = length s"
    unfolding length_raw_url_encode by presburger
  ultimately show ?thesis by (simp add: raw_url_decoded_length_def)
qed

section \<open>Hexadecimal\<close>

definition hex_char :: "nat \<Rightarrow> char" where
  "hex_char n = ''0123456789abcdef'' ! (n mod 16)"

definition hex_encode :: "gostring \<Rightarrow> gostring" where
  "hex_encode s = concat (map (\<lambda>c. [hex_char (byte_of c div 16), hex_char (byte_of c)]) s)"

section \<open>Fields\<close>

text \<open>\<open>strings.Fields\<close>: the parts between runs of white space.\<close>

definition fields :: "gostring \<Rightarrow> gostring list" where
  "fields s = filter (\<lambda>w. w \<noteq> []) (split_on (CHR '' '') (map (\<lambda>c. if is_space c then CHR '' '' else c) s))"

text \<open>The token of an \<open>Authorization: Bearer\<close> header.\<close>

definition bearer_token :: "gostring \<Rightarrow> gostring option" where
  "bearer_token h =
     (case fields h of
        [scheme, token] \<Rightarrow> if equal_fold scheme ''Bearer'' then Some token else None
      | _ \<Rightarrow> None)"

end
