(* ===== verification/SignIn.thy ===== *)
theory SignIn
  imports GoMap GoTime Encoding
begin

text \<open>
  The sign-in pages of the credential gateway (\<open>services/mcp-gateway/credential/login.go\<close>): an
  OAuth 2.0 provider with PKCE for one service, whose login step asks for the service's header
  values and has the upstream validate them.

  SHA-256 is the parameter \<open>sha256\<close> (on byte strings); random identifiers are arguments, \<^term>\<open>None\<close>
  when the source of randomness failed; clock readings are arguments, one for each reading of
  the code. A handler that releases the mutex while it asks the upstream is two operations,
  \<open>approve_begin\<close> and \<open>approve_finish\<close>, so that every interleaving of requests is a sequence of
  operations. The HTML of the page is its template's data; a cookie's \<open>HttpOnly\<close> and \<open>SameSite=Lax\<close>
  are constant and left out; the query of the final redirect is its list of parameters.
\<close>

section \<open>Configuration and state\<close>

record form_field =
  ff_name :: gostring
  ff_label :: gostring
  ff_secret :: bool

record login_config =
  lc_client_id :: gostring
  lc_origin :: gostring
  lc_base_path :: gostring
  lc_callback :: gostring
  lc_fields :: "form_field list"
  lc_server_name :: gostring
  lc_namespace :: gostring
  lc_upstream_host :: gostring

record login_pending =
  lp_redirect :: gostring
  lp_state :: gostring
  lp_challenge :: gostring
  lp_csrf :: gostring
  lp_binding :: gostring
  lp_attempts :: nat
  lp_expires :: time

record login_grant =
  lg_subject :: gostring
  lg_challenge :: gostring
  lg_redirect :: gostring
  lg_expires :: time

record login_access =
  lt_subject :: gostring
  lt_expires :: time

record login_provider =
  lv_requests :: "(gostring \<times> login_pending) list"
  lv_codes :: "(gostring \<times> login_grant) list"
  lv_tokens :: "(gostring \<times> login_access) list"

definition NewLoginProvider :: login_provider where
  "NewLoginProvider = \<lparr>lv_requests = [], lv_codes = [], lv_tokens = []\<rparr>"

definition requestTTL :: time where "requestTTL = 5 * minute"

definition codeTTL :: time where "codeTTL = minute"

definition tokenTTL :: time where "tokenTTL = minute"

definition maxPending :: nat where "maxPending = 200"

definition maxAttempts :: nat where "maxAttempts = 5"

definition maxFieldSize :: nat where "maxFieldSize = 1024"

section \<open>Requests and replies\<close>

type_synonym parameters = "(gostring \<times> gostring) list"

text \<open>\<open>url.Values.Get\<close>: the first value of a key, or the empty string.\<close>

definition form_get :: "parameters \<Rightarrow> gostring \<Rightarrow> gostring" where
  "form_get q k = (case map_of q k of None \<Rightarrow> [] | Some v \<Rightarrow> v)"

text \<open>A request: \<open>lr_form\<close> is what \<open>ParseForm\<close> makes of the body, \<^term>\<open>None\<close> if it is malformed, and
  \<open>lr_length\<close> the size of the body.\<close>

record login_request =
  lr_method :: gostring
  lr_query :: parameters
  lr_origin :: gostring
  lr_authorization :: gostring
  lr_cookies :: parameters
  lr_length :: nat
  lr_form :: "parameters option"

definition ParseForm :: "nat \<Rightarrow> login_request \<Rightarrow> parameters option" where
  "ParseForm limit r = (if limit < lr_length r then None else lr_form r)"

record page_view =
  pw_action :: gostring
  pw_request :: gostring
  pw_csrf :: gostring
  pw_error :: gostring
  pw_server_name :: gostring
  pw_namespace :: gostring
  pw_upstream_host :: gostring
  pw_fields :: "form_field list"

record login_cookie =
  ck_name :: gostring
  ck_value :: gostring
  ck_path :: gostring
  ck_secure :: bool
  ck_max_age :: int

datatype login_reply =
    LoginRefused nat gostring
  | LoginPage nat page_view "login_cookie option"
  | LoginRedirect gostring parameters login_cookie
  | LoginToken gostring int
  | LoginSubject gostring

definition secure_origin :: "login_config \<Rightarrow> bool" where
  "secure_origin cfg \<longleftrightarrow> has_prefix (lc_origin cfg) ''https://''"

definition cookieName :: "(gostring \<Rightarrow> gostring) \<Rightarrow> gostring \<Rightarrow> gostring" where
  "cookieName sha256 rid = ''gw_login_'' @ hex_encode (take 6 (sha256 rid))"

definition login_cookie_for ::
  "login_config \<Rightarrow> (gostring \<Rightarrow> gostring) \<Rightarrow> gostring \<Rightarrow> gostring \<Rightarrow> int \<Rightarrow> login_cookie" where
  "login_cookie_for cfg sha256 rid v age =
     \<lparr>ck_name = cookieName sha256 rid, ck_value = v, ck_path = lc_base_path cfg @ ''/login'',
      ck_secure = secure_origin cfg, ck_max_age = age\<rparr>"

definition render_page ::
  "login_config \<Rightarrow> gostring \<Rightarrow> login_pending \<Rightarrow> nat \<Rightarrow> gostring \<Rightarrow> login_cookie option \<Rightarrow> login_reply" where
  "render_page cfg rid req status message cookie =
     LoginPage status
       \<lparr>pw_action = lc_base_path cfg @ ''/login/approve'', pw_request = rid, pw_csrf = lp_csrf req, pw_error = message,
        pw_server_name = lc_server_name cfg, pw_namespace = lc_namespace cfg,
        pw_upstream_host = lc_upstream_host cfg, pw_fields = lc_fields cfg\<rparr> cookie"

text \<open>A refusal is a status and its text; the token endpoint's text is the code of its JSON error.
  Which endpoint \<open>ServeHTTP\<close> hands a request to.\<close>

datatype sign_in_endpoint = EndAuthorize | EndApprove | EndToken | EndUserinfo | EndNone

definition login_endpoint :: "gostring \<Rightarrow> sign_in_endpoint" where
  "login_endpoint path =
     (let e = trim_prefix path ''/login/'' in
      if e = ''authorize'' then EndAuthorize
      else if e = ''approve'' then EndApprove
      else if e = ''token'' then EndToken
      else if e = ''userinfo'' then EndUserinfo
      else EndNone)"

section \<open>Operations\<close>

definition prune_logins :: "time \<Rightarrow> login_provider \<Rightarrow> login_provider" where
  "prune_logins now p =
     p\<lparr>lv_requests := filter (\<lambda>e. now < lp_expires (snd e)) (lv_requests p),
       lv_codes := filter (\<lambda>e. now < lg_expires (snd e)) (lv_codes p),
       lv_tokens := filter (\<lambda>e. now < lt_expires (snd e)) (lv_tokens p)\<rparr>"

definition authorize_query_ok :: "login_config \<Rightarrow> parameters \<Rightarrow> bool" where
  "authorize_query_ok cfg q \<longleftrightarrow>
     form_get q ''client_id'' = lc_client_id cfg \<and> form_get q ''redirect_uri'' = lc_callback cfg \<and>
     form_get q ''response_type'' = ''code'' \<and> form_get q ''state'' \<noteq> [] \<and> length (form_get q ''state'') \<le> 1024 \<and>
     form_get q ''code_challenge_method'' = ''S256'' \<and>
     raw_url_decoded_length (form_get q ''code_challenge'') = Some 32"

text \<open>The three random identifiers name the request, guard its form and bind its cookie; \<open>t\<close> is read
  before the lock is taken, \<open>now\<close> by the pruning.\<close>

definition login_authorize ::
  "login_config \<Rightarrow> (gostring \<Rightarrow> gostring) \<Rightarrow> gostring option \<Rightarrow> gostring option \<Rightarrow> gostring option \<Rightarrow> time \<Rightarrow> time
    \<Rightarrow> login_request \<Rightarrow> login_provider \<Rightarrow> login_reply \<times> login_provider" where
  "login_authorize cfg sha256 rid csrf binding t now r p =
     (if lr_method r \<noteq> ''GET'' then (LoginRefused 405 [], p)
      else if \<not> authorize_query_ok cfg (lr_query r) then (LoginRefused 400 ''invalid sign-in request'', p)
      else (case (rid, csrf, binding) of
              (Some i, Some c, Some b) \<Rightarrow>
                (let req = \<lparr>lp_redirect = form_get (lr_query r) ''redirect_uri'', lp_state = form_get (lr_query r) ''state'',
                      lp_challenge = form_get (lr_query r) ''code_challenge'', lp_csrf = c, lp_binding = b,
                      lp_attempts = 0, lp_expires = t + requestTTL\<rparr>;
                     p1 = prune_logins now p
                 in if maxPending \<le> length (lv_requests p1) then (LoginRefused 429 ''too many pending sign-ins'', p1)
                    else (render_page cfg i req 200 [] (Some (login_cookie_for cfg sha256 i b (requestTTL div second))),
                          p1\<lparr>lv_requests := put_item i req (lv_requests p1)\<rparr>))
            | _ \<Rightarrow> (LoginRefused 503 ''sign-in unavailable'', p)))"

text \<open>The first half of an approval: the checks under the lock, the count of the attempt, and the
  collection of the submitted values. It ends with a reply or with the submission that is now
  to be validated at the upstream.\<close>

record submission =
  su_id :: gostring
  su_request :: login_pending
  su_values :: parameters

definition submitted_values :: "login_config \<Rightarrow> parameters \<Rightarrow> parameters option" where
  "submitted_values cfg form =
     (if list_all (\<lambda>f. form_get form (ff_name f) \<noteq> [] \<and> length (form_get form (ff_name f)) \<le> maxFieldSize) (lc_fields cfg)
      then Some (map (\<lambda>f. (ff_name f, form_get form (ff_name f))) (lc_fields cfg)) else None)"

definition sign_in_failed :: gostring where
  "sign_in_failed = ''Sign-in failed. Check your details and try again.''"

definition approve_begin ::
  "login_config \<Rightarrow> (gostring \<Rightarrow> gostring) \<Rightarrow> time \<Rightarrow> login_request \<Rightarrow> login_provider
    \<Rightarrow> (login_reply + submission) \<times> login_provider" where
  "approve_begin cfg sha256 now r p =
     (if lr_method r \<noteq> ''POST'' then (Inl (LoginRefused 405 []), p)
      else if lr_origin r \<noteq> lc_origin cfg then (Inl (LoginRefused 403 ''invalid sign-in origin''), p)
      else
        (case ParseForm 16384 r of
           None \<Rightarrow> (Inl (LoginRefused 400 ''invalid sign-in form''), p)
         | Some form \<Rightarrow>
             (let rid = form_get form ''request''; p1 = prune_logins now p in
              case map_of (lv_requests p1) rid of
                None \<Rightarrow> (Inl (LoginRefused 410 ''sign-in expired; restart the MCP connection''), p1)
              | Some req \<Rightarrow>
                  if map_of (lr_cookies r) (cookieName sha256 rid) \<noteq> Some (lp_binding req) \<or>
                     lp_csrf req \<noteq> form_get form ''csrf''
                  then (Inl (LoginRefused 403 ''sign-in must finish in the browser that started it''), p1)
                  else if maxAttempts \<le> lp_attempts req
                  then (Inl (LoginRefused 429 ''too many failed attempts; restart sign-in''), p1)
                  else
                    (let req1 = req\<lparr>lp_attempts := lp_attempts req + 1\<rparr>;
                         p2 = p1\<lparr>lv_requests := put_item rid req1 (lv_requests p1)\<rparr>
                     in case submitted_values cfg form of
                          None \<Rightarrow> (Inl (render_page cfg rid req1 401 sign_in_failed None), p2)
                        | Some vs \<Rightarrow> (Inr \<lparr>su_id = rid, su_request = req1, su_values = vs\<rparr>, p2)))))"

text \<open>What the upstream said of the submitted values.\<close>

datatype form_outcome = FormRejected | FormUnavailable | FormAccepted gostring

text \<open>The second half. \<open>commit\<close> stores the values for a subject; it runs under the lock, after the
  submission has won the request. \<open>now\<close> is read by the pruning, \<open>t\<close> when the code is issued.\<close>

definition approve_finish ::
  "login_config \<Rightarrow> (gostring \<Rightarrow> gostring) \<Rightarrow> (gostring \<Rightarrow> parameters \<Rightarrow> 's \<Rightarrow> 's option) \<Rightarrow> form_outcome
    \<Rightarrow> gostring option \<Rightarrow> time \<Rightarrow> time \<Rightarrow> submission \<Rightarrow> login_provider \<Rightarrow> 's \<Rightarrow> login_reply \<times> login_provider \<times> 's" where
  "approve_finish cfg sha256 commit outcome code now t su p s =
     (case outcome of
        FormRejected \<Rightarrow> (render_page cfg (su_id su) (su_request su) 401 sign_in_failed None, p, s)
      | FormUnavailable \<Rightarrow>
          (render_page cfg (su_id su) (su_request su) 503
             ''Sign-in is temporarily unavailable. Try again shortly.'' None, p, s)
      | FormAccepted subject \<Rightarrow>
          (case code of
             None \<Rightarrow> (LoginRefused 503 ''sign-in unavailable'', p, s)
           | Some c \<Rightarrow>
               (let p1 = prune_logins now p in
                if map_of (lv_requests p1) (su_id su) = None
                then (LoginRefused 410 ''sign-in already completed'', p1, s)
                else if maxPending \<le> length (lv_codes p1) then (LoginRefused 429 ''sign-in limit reached'', p1, s)
                else
                  (case commit subject (su_values su) s of
                     None \<Rightarrow> (LoginRefused 503 ''sign-in unavailable'', p1, s)
                   | Some s1 \<Rightarrow>
                       (LoginRedirect (lp_redirect (su_request su))
                          [(''code'', c), (''state'', lp_state (su_request su))]
                          (login_cookie_for cfg sha256 (su_id su) [] (- 1)),
                        p1\<lparr>lv_requests := del_item (su_id su) (lv_requests p1),
                           lv_codes := put_item c
                             \<lparr>lg_subject = subject, lg_challenge = lp_challenge (su_request su),
                              lg_redirect = lp_redirect (su_request su), lg_expires = t + codeTTL\<rparr> (lv_codes p1)\<rparr>,
                        s1)))))"

definition pkce_challenge :: "(gostring \<Rightarrow> gostring) \<Rightarrow> gostring \<Rightarrow> gostring" where
  "pkce_challenge sha256 verifier = raw_url_encode (sha256 verifier)"

definition login_token ::
  "login_config \<Rightarrow> (gostring \<Rightarrow> gostring) \<Rightarrow> gostring option \<Rightarrow> time \<Rightarrow> time \<Rightarrow> login_request \<Rightarrow> login_provider
    \<Rightarrow> login_reply \<times> login_provider" where
  "login_token cfg sha256 access now t r p =
     (if lr_method r \<noteq> ''POST'' then (LoginRefused 405 [], p)
      else
        (case ParseForm 8192 r of
           None \<Rightarrow> (LoginRefused 400 ''invalid_request'', p)
         | Some form \<Rightarrow>
             (let verifier = form_get form ''code_verifier'' in
              if form_get form ''client_id'' \<noteq> lc_client_id cfg \<or>
                 form_get form ''grant_type'' \<noteq> ''authorization_code'' \<or> length verifier < 43 \<or> 128 < length verifier
              then (LoginRefused 400 ''invalid_request'', p)
              else
                (let p1 = prune_logins now p; code = form_get form ''code'' in
                 case map_of (lv_codes p1) code of
                   None \<Rightarrow> (LoginRefused 400 ''invalid_grant'', p1)
                 | Some g \<Rightarrow>
                     if form_get form ''redirect_uri'' \<noteq> lg_redirect g \<or> pkce_challenge sha256 verifier \<noteq> lg_challenge g
                     then (LoginRefused 400 ''invalid_grant'', p1)
                     else
                       (case access of
                          None \<Rightarrow> (LoginRefused 503 ''temporarily_unavailable'', p1)
                        | Some a \<Rightarrow>
                            if maxPending \<le> length (lv_tokens p1) then (LoginRefused 503 ''temporarily_unavailable'', p1)
                            else (LoginToken a (tokenTTL div second),
                                  p1\<lparr>lv_codes := del_item code (lv_codes p1),
                                     lv_tokens := put_item a \<lparr>lt_subject = lg_subject g, lt_expires = t + tokenTTL\<rparr>
                                       (lv_tokens p1)\<rparr>))))))"

definition login_userinfo :: "time \<Rightarrow> login_request \<Rightarrow> login_provider \<Rightarrow> login_reply \<times> login_provider" where
  "login_userinfo now r p =
     (if lr_method r \<noteq> ''GET'' then (LoginRefused 405 [], p)
      else
        (case bearer_token (lr_authorization r) of
           None \<Rightarrow> (LoginRefused 401 [], p)
         | Some token \<Rightarrow>
             (let p1 = prune_logins now p in
              case map_of (lv_tokens p1) token of
                None \<Rightarrow> (LoginRefused 401 [], p1)
              | Some t \<Rightarrow> (LoginSubject (lt_subject t), p1))))"

end
