(* ===== verification/FormStore.thy ===== *)
theory FormStore
  imports GoMap GoTime
begin

text \<open>
  The credential gateway's memory of submitted header values
  (\<open>services/mcp-gateway/credential/store.go\<close>): bounded in count and lifetime, and reachable only
  under the exact issuer, subject and service. Each operation runs under the store's mutex; its
  argument \<open>now\<close> is the clock reading it makes.
\<close>

section \<open>State and operations\<close>

type_synonym store_key = "gostring \<times> gostring \<times> gostring"

type_synonym form_values = "(gostring \<times> gostring) list"

record store_entry =
  sy_values :: form_values
  sy_expires :: time
  sy_seq :: nat

record form_store =
  ks_ttl :: time
  ks_max :: int
  ks_items :: "(store_key \<times> store_entry) list"
  ks_seq :: nat

definition store_limit :: "form_store \<Rightarrow> nat" where
  "store_limit s = (if ks_max s < 1 then 1 else nat (ks_max s))"

text \<open>The loop that looks for the entry with the lowest sequence number.\<close>

fun oldest_key :: "(store_key \<times> store_entry) option \<Rightarrow> (store_key \<times> store_entry) list \<Rightarrow> store_key option" where
  "oldest_key best [] = map_option fst best"
| "oldest_key best (e # es) =
     oldest_key (case best of None \<Rightarrow> Some e | Some b \<Rightarrow> if sy_seq (snd e) < sy_seq (snd b) then Some e else Some b) es"

lemma oldest_key_in:
  "oldest_key best es = Some k \<Longrightarrow> k \<in> fst ` (set_option best \<union> set es)"
  by (induction best es rule: oldest_key.induct) (auto split: option.splits if_splits)

lemma oldest_key_None: "oldest_key best es = None \<longleftrightarrow> best = None \<and> es = []"
  by (induction best es rule: oldest_key.induct) (auto split: option.splits)

lemma length_del_in: "k \<in> fst ` set xs \<Longrightarrow> length (del_item k xs) < length xs"
  by (auto simp: del_item_def intro!: length_filter_less)

function evict_oldest :: "nat \<Rightarrow> (store_key \<times> store_entry) list \<Rightarrow> (store_key \<times> store_entry) list" where
  "evict_oldest limit items =
     (if length items \<le> limit then items
      else (case oldest_key None items of
              None \<Rightarrow> items
            | Some k \<Rightarrow> evict_oldest limit (del_item k items)))"
  by auto

termination
proof (relation "measure (\<lambda>(_, items). length items)")
  show "((limit, del_item k items), (limit, items)) \<in> measure (\<lambda>(_, items). length items)"
    if "oldest_key None items = Some k" for limit items k
    using length_del_in [of k items] oldest_key_in [OF that] by auto
qed simp

declare evict_oldest.simps [simp del]

definition put_values :: "gostring \<Rightarrow> gostring \<Rightarrow> gostring \<Rightarrow> form_values \<Rightarrow> time \<Rightarrow> form_store \<Rightarrow> form_store" where
  "put_values issuer subject service vals now s =
     (let live = filter (\<lambda>e. now < sy_expires (snd e)) (ks_items s);
          seq = ks_seq s + 1;
          items = put_item (issuer, subject, service)
            \<lparr>sy_values = vals, sy_expires = now + ks_ttl s, sy_seq = seq\<rparr> live
      in s\<lparr>ks_seq := seq, ks_items := evict_oldest (store_limit s) items\<rparr>)"

definition get_values ::
  "gostring \<Rightarrow> gostring \<Rightarrow> gostring \<Rightarrow> time \<Rightarrow> form_store \<Rightarrow> form_values option \<times> form_store" where
  "get_values issuer subject service now s =
     (let k = (issuer, subject, service) in
      case map_of (ks_items s) k of
        None \<Rightarrow> (None, s)
      | Some e \<Rightarrow>
          if sy_expires e \<le> now then (None, s\<lparr>ks_items := del_item k (ks_items s)\<rparr>)
          else (Some (sy_values e), s))"

definition delete_values :: "gostring \<Rightarrow> gostring \<Rightarrow> gostring \<Rightarrow> form_store \<Rightarrow> form_store" where
  "delete_values issuer subject service s = s\<lparr>ks_items := del_item (issuer, subject, service) (ks_items s)\<rparr>"

definition store_len :: "form_store \<Rightarrow> nat" where
  "store_len s = length (ks_items s)"

definition new_store :: "time \<Rightarrow> int \<Rightarrow> form_store" where
  "new_store ttl limit = \<lparr>ks_ttl = ttl, ks_max = limit, ks_items = [], ks_seq = 0\<rparr>"

section \<open>Eviction\<close>

lemma set_evict_oldest: "set (evict_oldest limit items) \<subseteq> set items"
proof (induction limit items rule: evict_oldest.induct)
  case (1 limit items)
  have sub: "set (del_item k items) \<subseteq> set items" for k by (auto simp: set_del_item_iff)
  show ?case
  proof (cases "oldest_key None items")
    case (Some k)
    then show ?thesis using 1 [OF _ Some] sub [of k] by (subst evict_oldest.simps) (auto dest: subsetD)
  qed (subst evict_oldest.simps, simp)
qed

lemma length_evict_oldest: "length (evict_oldest limit items) \<le> limit"
proof (induction limit items rule: evict_oldest.induct)
  case (1 limit items)
  show ?case
    using 1 oldest_key_None [of None items]
    by (subst evict_oldest.simps) (auto split: option.splits)
qed

lemma distinct_evict_oldest: "distinct (map fst items) \<Longrightarrow> distinct (map fst (evict_oldest limit items))"
proof (induction limit items rule: evict_oldest.induct)
  case (1 limit items)
  then show ?case
    by (subst evict_oldest.simps) (auto simp: distinct_del_item split: option.splits)
qed

text \<open>The newest entry is the last one to go.\<close>

lemma oldest_key_newer:
  assumes "(k, v) \<in> set items" "\<forall>e \<in> set items. fst e \<noteq> k \<longrightarrow> sy_seq (snd e) < sy_seq v"
    and "distinct (map fst items)" "1 < length items"
  shows "oldest_key None items \<noteq> Some k"
proof -
  have go: "\<exists>j. oldest_key (Some b) es = Some j \<and> j \<noteq> k"
    if "fst b \<noteq> k \<or> (\<exists>e \<in> set es. fst e \<noteq> k)" "fst b = k \<longrightarrow> snd b = v"
      "\<forall>e \<in> insert b (set es). fst e \<noteq> k \<longrightarrow> sy_seq (snd e) < sy_seq v"
      "\<forall>e \<in> set es. fst e = k \<longrightarrow> snd e = v" for b es
    using that
  proof (induction es arbitrary: b)
    case (Cons e es)
    then show ?case by (cases "fst b = k"; cases "fst e = k") (auto intro!: Cons.IH)
  qed auto
  obtain b es where items: "items = b # es" using assms(4) by (cases items) auto
  have v: "snd e = v" if "e \<in> set items" "fst e = k" for e
    using that assms(1,3) by (metis eq_key_imp_eq_value prod.collapse)
  have "fst b \<noteq> k \<or> (\<exists>e \<in> set es. fst e \<noteq> k)"
    using assms(3,4) items by (cases es) auto
  then show ?thesis using go [of b es] v assms(2) items by auto
qed

lemma evict_keeps_newest:
  assumes "(k, v) \<in> set items" "\<forall>e \<in> set items. fst e \<noteq> k \<longrightarrow> sy_seq (snd e) < sy_seq v"
    and "distinct (map fst items)" "1 \<le> limit"
  shows "(k, v) \<in> set (evict_oldest limit items)"
  using assms
proof (induction limit items rule: evict_oldest.induct)
  case (1 limit items)
  show ?case
  proof (cases "length items \<le> limit")
    case True
    then show ?thesis using 1 by (subst evict_oldest.simps) simp
  next
    case False
    then obtain j where j: "oldest_key None items = Some j"
      using oldest_key_None [of None items] by (cases "oldest_key None items") auto
    have "j \<noteq> k" using oldest_key_newer [OF 1(2-4)] j 1(5) False by auto
    then show ?thesis
      using 1 False j by (subst evict_oldest.simps) (simp add: set_del_item_iff distinct_del_item)
  qed
qed

section \<open>Invariant\<close>

text \<open>Keys are distinct, the table is within its bound and no entry is newer than the counter.\<close>

definition form_store_ok :: "form_store \<Rightarrow> bool" where
  "form_store_ok s \<longleftrightarrow>
     distinct (map fst (ks_items s)) \<and> length (ks_items s) \<le> store_limit s \<and>
     list_all (\<lambda>e. sy_seq (snd e) \<le> ks_seq s) (ks_items s)"

lemma store_limit_pos [simp]: "Suc 0 \<le> store_limit s" "0 < store_limit s"
  by (auto simp: store_limit_def)

lemma store_limit_update [simp]:
  "store_limit (s\<lparr>ks_items := xs\<rparr>) = store_limit s" "store_limit (s\<lparr>ks_seq := n\<rparr>) = store_limit s"
  by (simp_all add: store_limit_def)

lemma put_values_ok: "form_store_ok s \<Longrightarrow> form_store_ok (put_values issuer subject service vals now s)"
  unfolding form_store_ok_def put_values_def Let_def
  by (auto simp: list_all_iff set_put_item_iff length_evict_oldest
      intro!: distinct_evict_oldest distinct_put_item distinct_filter_items
      dest!: subsetD [OF set_evict_oldest] intro: le_SucI)

lemma del_item_ok: "form_store_ok s \<Longrightarrow> form_store_ok (s\<lparr>ks_items := del_item k (ks_items s)\<rparr>)"
  using length_del_item [of k "ks_items s"]
  by (auto simp: form_store_ok_def list_all_iff set_del_item_iff distinct_del_item)

lemma get_values_ok: "form_store_ok s \<Longrightarrow> form_store_ok (snd (get_values issuer subject service now s))"
  by (auto simp: get_values_def Let_def del_item_ok split: option.split)

lemma delete_values_ok: "form_store_ok s \<Longrightarrow> form_store_ok (delete_values issuer subject service s)"
  by (simp add: delete_values_def del_item_ok)

lemma fresh_form_store_ok [simp]: "form_store_ok (new_store ttl limit)"
  by (simp add: form_store_ok_def new_store_def)

text \<open>A put is found again until it expires, however full the store was.\<close>

lemma put_values_entry:
  assumes "form_store_ok s"
  shows "map_of (ks_items (put_values issuer subject service vals now s)) (issuer, subject, service) =
    Some \<lparr>sy_values = vals, sy_expires = now + ks_ttl s, sy_seq = ks_seq s + 1\<rparr>"
proof -
  let ?k = "(issuer, subject, service)"
  let ?v = "\<lparr>sy_values = vals, sy_expires = now + ks_ttl s, sy_seq = ks_seq s + 1\<rparr>"
  let ?items = "put_item ?k ?v (filter (\<lambda>e. now < sy_expires (snd e)) (ks_items s))"
  have d: "distinct (map fst ?items)"
    using assms by (auto simp: form_store_ok_def intro!: distinct_put_item distinct_filter_items)
  have "(?k, ?v) \<in> set (evict_oldest (store_limit s) ?items)"
    using assms d by (intro evict_keeps_newest) (auto simp: set_put_item_iff form_store_ok_def list_all_iff dest!: bspec intro!: le_imp_less_Suc)
  then show ?thesis
    using distinct_evict_oldest [OF d] by (simp add: put_values_def Let_def)
qed

end
