(* ===== verification/CredentialGateway.thy ===== *)
theory CredentialGateway
  imports SignIn FormStore Admission GatewayOAuth
begin

text \<open>
  The credential gateway of \<open>services/mcp-gateway/credential\<close>: binding upstream session ids to a
  caller (\<open>session.go\<close>), authorizing a request against mcp-auth (\<open>authz.go\<close>), validating
  submitted values and forwarding calls with them (\<open>gateway.go\<close>).

  Parameters: the HMAC of the session key (\<open>mac\<close>), what mcp-auth's client library makes of a token
  (the record \<open>auth_calls\<close>), the upstream's replies, random subjects, and clock readings. Bodies
  are streamed unchanged in both directions; a request body is its bytes. Logging is left out.
\<close>

section \<open>Services\<close>

text \<open>A header rule: the name of an upstream header and the field whose value it carries.\<close>

type_synonym header_rule = "gostring \<times> gostring"

record gateway_service =
  gs_id :: gostring
  gs_server_name :: gostring
  gs_server_namespace :: gostring
  gs_resource_url :: gostring
  gs_resource_path :: gostring
  gs_upstream_url :: gostring
  gs_validation_url :: gostring
  gs_required_scopes :: "gostring list"
  gs_client_id :: gostring
  gs_key_id :: gostring
  gs_fields :: "form_field list"
  gs_headers :: "header_rule list"

record credential_config =
  gf_issuer :: gostring
  gf_token_endpoint :: gostring
  gf_jwks_uri :: gostring
  gf_insecure :: bool
  gf_auth_timeout :: time
  gf_prefix :: gostring
  gf_session_key :: gostring
  gf_form_ttl :: time
  gf_form_max :: int
  gf_max_request :: int
  gf_connect_timeout :: time
  gf_header_timeout :: time
  gf_listen_host :: gostring
  gf_listen_port :: int
  gf_services :: "gateway_service list"

definition LoginClientID :: "gostring \<Rightarrow> gostring" where
  "LoginClientID sid = ''login-'' @ sid"

definition SubjectPrefix :: "gostring \<Rightarrow> gostring" where
  "SubjectPrefix sid = ''form-'' @ sid @ '':''"

definition servicePaths :: "credential_config \<Rightarrow> gateway_service \<Rightarrow> gostring list" where
  "servicePaths cfg s =
     (let p = gf_prefix cfg in
      gs_resource_path s #
      (if p \<noteq> [] \<and> has_prefix (gs_resource_path s) (p @ ''/'') then [trim_prefix (gs_resource_path s) p] else []))"

definition loginProvider ::
  "(gostring \<Rightarrow> parsed_url option) \<Rightarrow> credential_config \<Rightarrow> gateway_service \<Rightarrow> login_config" where
  "loginProvider parse cfg s =
     \<lparr>lc_client_id = LoginClientID (gs_id s),
      lc_origin = (case parse (gs_resource_url s) of None \<Rightarrow> [] | Some u \<Rightarrow> origin_of u),
      lc_base_path = gs_resource_path s,
      lc_callback = gf_issuer cfg @ ''/identity/callback'',
      lc_fields = gs_fields s, lc_server_name = gs_server_name s, lc_namespace = gs_server_namespace s,
      lc_upstream_host = (case parse (gs_upstream_url s) of None \<Rightarrow> [] | Some u \<Rightarrow> pu_host u)\<rparr>"

section \<open>Session binding\<close>

definition maxUpstreamID :: nat where "maxUpstreamID = 512"

definition bind_tag :: "(gostring \<Rightarrow> gostring) \<Rightarrow> gostring \<Rightarrow> gostring \<Rightarrow> gostring \<Rightarrow> gostring \<Rightarrow> gostring" where
  "bind_tag mac issuer subject service rid =
     raw_url_encode (take 24 (mac (join_with [CHR 0x00] [issuer, subject, service, rid])))"

definition Wrap :: "(gostring \<Rightarrow> gostring) \<Rightarrow> gostring \<Rightarrow> gostring \<Rightarrow> gostring \<Rightarrow> gostring \<Rightarrow> gostring" where
  "Wrap mac issuer subject service rid =
     (if rid = [] \<or> maxUpstreamID < length rid then []
      else if list_ex (\<lambda>c. c < CHR 0x21 \<or> CHR 0x7E < c) rid then []
      else rid @ ''.'' @ bind_tag mac issuer subject service rid)"

definition Unwrap :: "(gostring \<Rightarrow> gostring) \<Rightarrow> gostring \<Rightarrow> gostring \<Rightarrow> gostring \<Rightarrow> gostring \<Rightarrow> gostring option" where
  "Unwrap mac issuer subject service presented =
     (let i = last_index (CHR ''.'') presented in
      if i \<le> 0 \<or> i = int (length presented) - 1 then None
      else (let rid = take (nat i) presented; tag = drop (nat i + 1) presented in
            if tag = bind_tag mac issuer subject service rid then Some rid else None))"

section \<open>Authorization\<close>

datatype claim_value = ClaimString gostring | ClaimNumber int | ClaimOther

record verified_claims =
  vc_issuer :: gostring
  vc_subject :: gostring
  vc_raw :: "(gostring \<times> claim_value) list"

datatype verify_result = VerifyScope | VerifyFailed | VerifyOk verified_claims

text \<open>A token exchange: refused with a status, broken in another way, or an assertion.\<close>

datatype exchange_result = ExchangeRefused nat | ExchangeBroken | Exchanged gostring

record auth_calls =
  au_verify :: "gostring \<Rightarrow> verify_result"
  au_exchange :: "gostring \<Rightarrow> exchange_result"
  au_assertion :: "gostring \<Rightarrow> verified_claims option"

text \<open>Which challenge header mcp-auth's library is asked to build.\<close>

datatype challenge = NoChallenge | ChallengeScopes "gostring list" | ChallengeError gostring "gostring list"

record authz_failure =
  af_status :: nat
  af_code :: gostring
  af_message :: gostring
  af_challenge :: challenge

record gw_identity =
  gi_issuer :: gostring
  gi_subject :: gostring

definition claim_string :: "verified_claims \<Rightarrow> gostring \<Rightarrow> gostring" where
  "claim_string c k = (case map_of (vc_raw c) k of Some (ClaimString v) \<Rightarrow> v | _ \<Rightarrow> [])"

definition claim_is :: "verified_claims \<Rightarrow> gostring \<Rightarrow> gostring \<Rightarrow> bool" where
  "claim_is c k v \<longleftrightarrow> map_of (vc_raw c) k = Some (ClaimString v)"

definition claim_number :: "verified_claims \<Rightarrow> gostring \<Rightarrow> int option" where
  "claim_number c k = (case map_of (vc_raw c) k of Some (ClaimNumber n) \<Rightarrow> Some n | _ \<Rightarrow> None)"

text \<open>\<open>time.Unix\<close> of a number of seconds, as an instant since the year 1.\<close>

definition unix_time :: "int \<Rightarrow> time" where
  "unix_time n = (n + 62135596800) * second"

type_synonym seen_assertions = "(gostring \<times> time) list"

definition consume :: "gostring \<Rightarrow> time \<Rightarrow> time \<Rightarrow> seen_assertions \<Rightarrow> bool \<times> seen_assertions" where
  "consume jti expires now seen =
     (let live = filter (\<lambda>e. now < snd e) seen in
      if map_of live jti \<noteq> None then (False, live) else (True, put_item jti expires live))"

definition authorize_call ::
  "auth_calls \<Rightarrow> gateway_service \<Rightarrow> gostring \<Rightarrow> time \<Rightarrow> seen_assertions
    \<Rightarrow> (authz_failure + gw_identity) \<times> seen_assertions" where
  "authorize_call calls s authorization now seen =
     (let invalid = ChallengeError ''invalid_token'' [];
          denied = ChallengeError ''insufficient_scope'' (gs_required_scopes s);
          fail = (\<lambda>st code msg ch. Inl \<lparr>af_status = st, af_code = code, af_message = msg, af_challenge = ch\<rparr>);
          bad = fail 502 ''authorization_invalid'' ''authorization response rejected'' NoChallenge in
      case bearer_token authorization of
        None \<Rightarrow> (fail 401 ''unauthorized'' ''authentication required'' (ChallengeScopes (gs_required_scopes s)), seen)
      | Some token \<Rightarrow>
          (case au_verify calls token of
             VerifyScope \<Rightarrow> (fail 403 ''insufficient_scope'' ''required scope is missing'' denied, seen)
           | VerifyFailed \<Rightarrow> (fail 401 ''invalid_token'' ''token is invalid'' invalid, seen)
           | VerifyOk claims \<Rightarrow>
               (let sid = claim_string claims ''sid'' in
                if sid = [] then (fail 401 ''invalid_token'' ''token has no session'' invalid, seen)
                else
                  (case au_exchange calls token of
                     ExchangeRefused st \<Rightarrow>
                       (if st = 400 then fail 401 ''invalid_token'' ''session is not active'' invalid
                        else if st = 403 then fail 403 ''insufficient_scope'' ''access denied'' denied
                        else fail 503 ''authorization_unavailable'' ''authorization service error'' NoChallenge, seen)
                   | ExchangeBroken \<Rightarrow>
                       (fail 503 ''authorization_unavailable'' ''authorization service error'' NoChallenge, seen)
                   | Exchanged assertion \<Rightarrow>
                       (case au_assertion calls assertion of
                          None \<Rightarrow> (bad, seen)
                        | Some grant \<Rightarrow>
                            if vc_subject grant \<noteq> vc_subject claims \<or> \<not> claim_is grant ''sid'' sid \<or>
                               \<not> claim_is grant ''resource'' (gs_resource_url s) \<or>
                               \<not> claim_is grant ''token_use'' ''credential_access''
                            then (bad, seen)
                            else
                              (case claim_number grant ''exp'' of
                                 None \<Rightarrow> (bad, seen)
                               | Some expiry \<Rightarrow>
                                   if claim_string grant ''jti'' = [] then (bad, seen)
                                   else
                                     (case consume (claim_string grant ''jti'') (unix_time expiry) now seen of
                                        (False, seen1) \<Rightarrow> (bad, seen1)
                                      | (True, seen1) \<Rightarrow>
                                          (Inr \<lparr>gi_issuer = vc_issuer grant, gi_subject = vc_subject grant\<rparr>, seen1))))))))"

section \<open>Credential values\<close>

text \<open>\<open>render\<close>: the upstream headers of stored values, \<^term>\<open>None\<close> when a value is missing or unsafe.\<close>

fun render_headers :: "header_rule list \<Rightarrow> form_values \<Rightarrow> (gostring \<times> gostring) list \<Rightarrow> (gostring \<times> gostring) list option" where
  "render_headers [] vals out = Some out"
| "render_headers ((name, field) # rules) vals out =
     (case map_of vals field of
        None \<Rightarrow> None
      | Some v \<Rightarrow> if ValidateInjectedValue v then render_headers rules vals (put_item name v out) else None)"

definition render :: "header_rule list \<Rightarrow> form_values \<Rightarrow> (gostring \<times> gostring) list option" where
  "render rules vals = render_headers rules vals []"

text \<open>\<open>checker\<close> is the status with which the validation URL answers the given headers, \<^term>\<open>None\<close> when
  it cannot be reached; \<open>random\<close> is the new subject.\<close>

definition validateUpstream ::
  "((gostring \<times> gostring) list \<Rightarrow> nat option) \<Rightarrow> (gostring \<times> gostring) list \<Rightarrow> form_outcome option" where
  "validateUpstream checker hs =
     (case checker hs of
        None \<Rightarrow> Some FormUnavailable
      | Some st \<Rightarrow> if st < 200 \<or> 300 \<le> st then Some FormRejected else None)"

definition validateForm ::
  "gateway_service \<Rightarrow> ((gostring \<times> gostring) list \<Rightarrow> nat option) \<Rightarrow> gostring option \<Rightarrow> form_values \<Rightarrow> form_outcome" where
  "validateForm s checker random submitted =
     (case render (gs_headers s) (map (\<lambda>f. (ff_name f, form_get submitted (ff_name f))) (gs_fields s)) of
        None \<Rightarrow> FormRejected
      | Some hs \<Rightarrow>
          (case validateUpstream checker hs of
             Some out \<Rightarrow> out
           | None \<Rightarrow> (case random of None \<Rightarrow> FormUnavailable | Some subject \<Rightarrow> FormAccepted subject)))"

definition commit_values ::
  "credential_config \<Rightarrow> gateway_service \<Rightarrow> time \<Rightarrow> gostring \<Rightarrow> form_values \<Rightarrow> form_store \<Rightarrow> form_store option" where
  "commit_values cfg s now subject vals store =
     Some (put_values (gf_issuer cfg) (SubjectPrefix (gs_id s) @ subject) (gs_id s) vals now store)"

section \<open>Forwarding a call\<close>

definition sessionHeader :: gostring where "sessionHeader = ''Mcp-Session-Id''"

definition forwardedRequest :: "gostring list" where
  "forwardedRequest = [''Accept'', ''Content-Type'', ''Mcp-Protocol-Version'', ''Last-Event-Id'']"

definition returnedResponse :: "gostring list" where
  "returnedResponse = [''Content-Type'', ''Cache-Control'', ''Retry-After'', ''Mcp-Protocol-Version'']"

text \<open>\<open>cl_length\<close> is the announced length of the body, negative when unknown.\<close>

record client_call =
  cl_method :: gostring
  cl_header :: header
  cl_length :: int
  cl_body :: gostring

record outgoing_call =
  uc_method :: gostring
  uc_url :: gostring
  uc_header :: header
  uc_body :: gostring

datatype call_reply =
    CallFailed nat gostring challenge
  | CallGone
  | CallReplied nat header

record upstream_response =
  ur_status :: nat
  ur_header :: header
  ur_length :: int

datatype upstream_answer = UpstreamError bool | UpstreamResponse upstream_response

definition copy_headers :: "gostring list \<Rightarrow> header \<Rightarrow> header \<Rightarrow> header" where
  "copy_headers names from out =
     fold (\<lambda>name h. if header_get from name \<noteq> [] then header_set h name (header_get from name) else h) names out"

definition method_allowed :: "client_call \<Rightarrow> bool" where
  "method_allowed r \<longleftrightarrow> List.member [''POST'', ''GET'', ''DELETE''] (cl_method r)"

text \<open>The front of a call: its method, then its authorization. The message of a failure is its description.\<close>

definition accept_call ::
  "auth_calls \<Rightarrow> gateway_service \<Rightarrow> client_call \<Rightarrow> time \<Rightarrow> seen_assertions \<Rightarrow> (call_reply + gw_identity) \<times> seen_assertions" where
  "accept_call calls s r now seen =
     (if \<not> method_allowed r then (Inl (CallFailed 405 ''method_not_allowed'' NoChallenge), seen)
      else
        (case authorize_call calls s (header_get (cl_header r) ''Authorization'') now seen of
           (Inl f, seen1) \<Rightarrow> (Inl (CallFailed (af_status f) (af_code f) (af_challenge f)), seen1)
         | (Inr i, seen1) \<Rightarrow> (Inr i, seen1)))"

text \<open>The checks between authorization and the store: the bound of the body, the caller's session.\<close>

definition call_checks ::
  "credential_config \<Rightarrow> (gostring \<Rightarrow> gostring) \<Rightarrow> gateway_service \<Rightarrow> gw_identity \<Rightarrow> client_call
    \<Rightarrow> call_reply + (gostring \<times> gostring)" where
  "call_checks cfg mac s i r =
     (if gf_max_request cfg < cl_length r then Inl (CallFailed 413 ''request_too_large'' NoChallenge)
      else
        (let presented = header_get (cl_header r) sessionHeader;
             session = (if presented \<noteq> [] then Unwrap mac (gi_issuer i) (gi_subject i) (gs_id s) presented else Some [])
         in case session of
              None \<Rightarrow> Inl (CallFailed 403 ''session_binding_mismatch'' NoChallenge)
            | Some upstream_session \<Rightarrow>
                if presented = [] \<and> cl_method r = ''DELETE'' then Inl (CallFailed 400 ''missing_session'' NoChallenge)
                else if cl_method r = ''POST'' \<and> gf_max_request cfg < int (length (cl_body r))
                then Inl (CallFailed 413 ''request_too_large'' NoChallenge)
                else Inr (upstream_session, if cl_method r = ''POST'' then cl_body r else [])))"

definition upstream_headers :: "client_call \<Rightarrow> gostring \<Rightarrow> (gostring \<times> gostring) list \<Rightarrow> header" where
  "upstream_headers r session injected =
     (let h1 = header_set (copy_headers forwardedRequest (cl_header r) []) ''Accept-Encoding'' ''identity'';
          h2 = (if session \<noteq> [] then header_set h1 sessionHeader session else h1)
      in fold (\<lambda>(name, v) h. header_set h name v) injected h2)"

definition dispatch_call ::
  "credential_config \<Rightarrow> (gostring \<Rightarrow> gostring) \<Rightarrow> gateway_service \<Rightarrow> gw_identity \<Rightarrow> client_call \<Rightarrow> time \<Rightarrow> form_store
    \<Rightarrow> (call_reply + outgoing_call) \<times> form_store" where
  "dispatch_call cfg mac s i r now store =
     (case call_checks cfg mac s i r of
        Inl reply \<Rightarrow> (Inl reply, store)
      | Inr (session, body) \<Rightarrow>
          (case get_values (gi_issuer i) (gi_subject i) (gs_id s) now store of
             (None, store1) \<Rightarrow>
               (Inl (CallFailed 401 ''credentials_expired'' (ChallengeError ''invalid_token'' [])), store1)
           | (Some vals, store1) \<Rightarrow>
               (case render (gs_headers s) vals of
                  None \<Rightarrow> (Inl (CallFailed 502 ''credential_unavailable'' NoChallenge), store1)
                | Some injected \<Rightarrow>
                    (Inr \<lparr>uc_method = cl_method r, uc_url = gs_upstream_url s,
                       uc_header = upstream_headers r session injected, uc_body = body\<rparr>, store1))))"

text \<open>After the upstream's answer. The Boolean of an error says that the client went away.\<close>

definition conclude_call ::
  "(gostring \<Rightarrow> gostring) \<Rightarrow> gateway_service \<Rightarrow> gw_identity \<Rightarrow> upstream_answer \<Rightarrow> form_store
    \<Rightarrow> call_reply \<times> form_store" where
  "conclude_call mac s i answer store =
     (case answer of
        UpstreamError gone \<Rightarrow> (if gone then CallGone else CallFailed 502 ''upstream_unreachable'' NoChallenge, store)
      | UpstreamResponse u \<Rightarrow>
          if 300 \<le> ur_status u \<and> ur_status u < 400 then (CallFailed 502 ''upstream_redirect'' NoChallenge, store)
          else if ur_status u = 401
          then (CallFailed 502 ''upstream_credentials_rejected'' NoChallenge,
                delete_values (gi_issuer i) (gi_subject i) (gs_id s) store)
          else
            (let enc = header_get (ur_header u) ''Content-Encoding'';
                 h1 = copy_headers returnedResponse (ur_header u) [];
                 returned = header_get (ur_header u) sessionHeader;
                 wrapped = Wrap mac (gi_issuer i) (gi_subject i) (gs_id s) returned;
                 h2 = (if returned \<noteq> [] then header_set h1 sessionHeader wrapped else h1);
                 h3 = (if 0 \<le> ur_length u then header_set h2 ''Content-Length'' (show_int (ur_length u)) else h2)
             in if enc \<noteq> [] \<and> \<not> equal_fold enc ''identity'' then (CallFailed 502 ''upstream_invalid'' NoChallenge, store)
                else if returned \<noteq> [] \<and> wrapped = [] then (CallFailed 502 ''upstream_invalid'' NoChallenge, store)
                else (CallReplied (ur_status u) h3, store)))"

end
