(* ===== verification/GatewayRun.thy ===== *)
theory GatewayRun
  imports CredentialGateway
begin

text \<open>
  The credential gateway as one machine: the sign-in pages of every service, the store of values,
  the assertions already used, and the requests that are between two critical sections. An event
  is one critical section of one request, so a list of events is one interleaving of any number
  of requests. An event for a request that is not at that point has no effect.
\<close>

section \<open>State and events\<close>

record credential_gateway_state =
  gy_login :: "gostring \<Rightarrow> login_provider"
  gy_submissions :: "(gostring \<times> submission) list"
  gy_store :: form_store
  gy_seen :: seen_assertions
  gy_authorized :: "(gostring \<times> gw_identity \<times> client_call) list"
  gy_sent :: "(gostring \<times> gw_identity) list"

definition gateway_start :: "credential_config \<Rightarrow> credential_gateway_state" where
  "gateway_start cfg =
     \<lparr>gy_login = (\<lambda>_. NewLoginProvider), gy_submissions = [], gy_store = new_store (gf_form_ttl cfg) (gf_form_max cfg),
      gy_seen = [], gy_authorized = [], gy_sent = []\<rparr>"

record randomness =
  ra_request :: "gostring option"
  ra_csrf :: "gostring option"
  ra_binding :: "gostring option"

datatype gateway_event =
    SignInStart gateway_service randomness time time login_request
  | SignInSubmit gateway_service time login_request
  | SignInFinish gateway_service submission "(gostring \<times> gostring) list \<Rightarrow> nat option" "gostring option"
      "gostring option" time time time
  | SignInToken gateway_service "gostring option" time time login_request
  | SignInUser gateway_service time login_request
  | CallAccept gateway_service auth_calls client_call time
  | CallDispatch gateway_service gw_identity client_call time
  | CallConclude gateway_service gw_identity upstream_answer

datatype gateway_output =
    OutLogin login_reply
  | OutPending
  | OutUpstream outgoing_call
  | OutReply call_reply
  | OutNothing

text \<open>What stays fixed while the gateway runs.\<close>

record gateway_env =
  ge_config :: credential_config
  ge_parse :: "gostring \<Rightarrow> parsed_url option"
  ge_sha256 :: "gostring \<Rightarrow> gostring"
  ge_mac :: "gostring \<Rightarrow> gostring"

abbreviation login_of :: "gateway_env \<Rightarrow> gateway_service \<Rightarrow> login_config" where
  "login_of env s \<equiv> loginProvider (ge_parse env) (ge_config env) s"

definition event_service :: "gateway_event \<Rightarrow> gateway_service" where
  "event_service e =
     (case e of SignInStart s _ _ _ _ \<Rightarrow> s | SignInSubmit s _ _ \<Rightarrow> s | SignInFinish s _ _ _ _ _ _ _ \<Rightarrow> s
      | SignInToken s _ _ _ _ \<Rightarrow> s | SignInUser s _ _ \<Rightarrow> s | CallAccept s _ _ _ \<Rightarrow> s
      | CallDispatch s _ _ _ \<Rightarrow> s | CallConclude s _ _ \<Rightarrow> s)"

definition set_login :: "gateway_service \<Rightarrow> login_provider \<Rightarrow> credential_gateway_state \<Rightarrow> credential_gateway_state" where
  "set_login s p st = st\<lparr>gy_login := (gy_login st)(gs_id s := p)\<rparr>"

section \<open>Steps\<close>

definition sign_in_start ::
  "gateway_env \<Rightarrow> gateway_service \<Rightarrow> randomness \<Rightarrow> time \<Rightarrow> time \<Rightarrow> login_request \<Rightarrow> credential_gateway_state
    \<Rightarrow> gateway_output \<times> credential_gateway_state" where
  "sign_in_start env s rnd t now r st =
     (let (reply, p) = login_authorize (login_of env s) (ge_sha256 env) (ra_request rnd) (ra_csrf rnd) (ra_binding rnd)
            t now r (gy_login st (gs_id s))
      in (OutLogin reply, set_login s p st))"

definition sign_in_submit ::
  "gateway_env \<Rightarrow> gateway_service \<Rightarrow> time \<Rightarrow> login_request \<Rightarrow> credential_gateway_state \<Rightarrow> gateway_output \<times> credential_gateway_state" where
  "sign_in_submit env s now r st =
     (case approve_begin (login_of env s) (ge_sha256 env) now r (gy_login st (gs_id s)) of
        (Inl reply, p) \<Rightarrow> (OutLogin reply, set_login s p st)
      | (Inr su, p) \<Rightarrow>
          (OutPending, (set_login s p st)\<lparr>gy_submissions := (gs_id s, su) # gy_submissions st\<rparr>))"

definition sign_in_finish ::
  "gateway_env \<Rightarrow> gateway_service \<Rightarrow> submission \<Rightarrow> ((gostring \<times> gostring) list \<Rightarrow> nat option) \<Rightarrow> gostring option
    \<Rightarrow> gostring option \<Rightarrow> time \<Rightarrow> time \<Rightarrow> time \<Rightarrow> credential_gateway_state \<Rightarrow> gateway_output \<times> credential_gateway_state" where
  "sign_in_finish env s su checker random code now put_now t st =
     (if \<not> List.member (gy_submissions st) (gs_id s, su) then (OutNothing, st)
      else
        (let (reply, p, store) = approve_finish (login_of env s) (ge_sha256 env)
               (commit_values (ge_config env) s put_now) (validateForm s checker random (su_values su)) code now t su
               (gy_login st (gs_id s)) (gy_store st)
         in (OutLogin reply,
             (set_login s p st)\<lparr>gy_store := store, gy_submissions := remove1 (gs_id s, su) (gy_submissions st)\<rparr>)))"

definition sign_in_token ::
  "gateway_env \<Rightarrow> gateway_service \<Rightarrow> gostring option \<Rightarrow> time \<Rightarrow> time \<Rightarrow> login_request \<Rightarrow> credential_gateway_state
    \<Rightarrow> gateway_output \<times> credential_gateway_state" where
  "sign_in_token env s access now t r st =
     (let (reply, p) = login_token (login_of env s) (ge_sha256 env) access now t r (gy_login st (gs_id s))
      in (OutLogin reply, set_login s p st))"

definition sign_in_user ::
  "gateway_service \<Rightarrow> time \<Rightarrow> login_request \<Rightarrow> credential_gateway_state \<Rightarrow> gateway_output \<times> credential_gateway_state" where
  "sign_in_user s now r st =
     (let (reply, p) = login_userinfo now r (gy_login st (gs_id s)) in (OutLogin reply, set_login s p st))"

definition call_accept ::
  "gateway_service \<Rightarrow> auth_calls \<Rightarrow> client_call \<Rightarrow> time \<Rightarrow> credential_gateway_state \<Rightarrow> gateway_output \<times> credential_gateway_state" where
  "call_accept s calls r now st =
     (case accept_call calls s r now (gy_seen st) of
        (Inl reply, seen) \<Rightarrow> (OutReply reply, st\<lparr>gy_seen := seen\<rparr>)
      | (Inr i, seen) \<Rightarrow> (OutPending, st\<lparr>gy_seen := seen, gy_authorized := (gs_id s, i, r) # gy_authorized st\<rparr>))"

definition call_dispatch ::
  "gateway_env \<Rightarrow> gateway_service \<Rightarrow> gw_identity \<Rightarrow> client_call \<Rightarrow> time \<Rightarrow> credential_gateway_state
    \<Rightarrow> gateway_output \<times> credential_gateway_state" where
  "call_dispatch env s i r now st =
     (if \<not> List.member (gy_authorized st) (gs_id s, i, r) then (OutNothing, st)
      else
        (let st1 = st\<lparr>gy_authorized := remove1 (gs_id s, i, r) (gy_authorized st)\<rparr> in
         case dispatch_call (ge_config env) (ge_mac env) s i r now (gy_store st) of
           (Inl reply, store) \<Rightarrow> (OutReply reply, st1\<lparr>gy_store := store\<rparr>)
         | (Inr call, store) \<Rightarrow> (OutUpstream call, st1\<lparr>gy_store := store, gy_sent := (gs_id s, i) # gy_sent st\<rparr>)))"

definition call_conclude ::
  "gateway_env \<Rightarrow> gateway_service \<Rightarrow> gw_identity \<Rightarrow> upstream_answer \<Rightarrow> credential_gateway_state
    \<Rightarrow> gateway_output \<times> credential_gateway_state" where
  "call_conclude env s i answer st =
     (if \<not> List.member (gy_sent st) (gs_id s, i) then (OutNothing, st)
      else
        (let (reply, store) = conclude_call (ge_mac env) s i answer (gy_store st)
         in (OutReply reply, st\<lparr>gy_store := store, gy_sent := remove1 (gs_id s, i) (gy_sent st)\<rparr>)))"

definition gateway_step :: "gateway_env \<Rightarrow> gateway_event \<Rightarrow> credential_gateway_state \<Rightarrow> gateway_output \<times> credential_gateway_state" where
  "gateway_step env e st =
     (case e of
        SignInStart s rnd t now r \<Rightarrow> sign_in_start env s rnd t now r st
      | SignInSubmit s now r \<Rightarrow> sign_in_submit env s now r st
      | SignInFinish s su checker random code now put_now t \<Rightarrow>
          sign_in_finish env s su checker random code now put_now t st
      | SignInToken s access now t r \<Rightarrow> sign_in_token env s access now t r st
      | SignInUser s now r \<Rightarrow> sign_in_user s now r st
      | CallAccept s calls r now \<Rightarrow> call_accept s calls r now st
      | CallDispatch s i r now \<Rightarrow> call_dispatch env s i r now st
      | CallConclude s i answer \<Rightarrow> call_conclude env s i answer st)"

definition gateway_run :: "gateway_env \<Rightarrow> gateway_event list \<Rightarrow> credential_gateway_state" where
  "gateway_run env es = fold (\<lambda>e st. snd (gateway_step env e st)) es (gateway_start (ge_config env))"

text \<open>The services of the events are the configured ones, whose identifiers tell them apart.\<close>

definition configured :: "gateway_env \<Rightarrow> gateway_event list \<Rightarrow> bool" where
  "configured env es \<longleftrightarrow>
     distinct (map gs_id (gf_services (ge_config env))) \<and>
     list_all (\<lambda>e. List.member (gf_services (ge_config env)) (event_service e)) es"

end
