(* ===== verification/SignInClaims.thy ===== *)
theory SignInClaims
  imports GatewayRun
begin

text \<open>
  What the sign-in guarantees, whatever requests come in whatever order: who a subject stands for,
  whose values are sent upstream, and how long. Every entry of the tables is justified by the
  events that led to it.
\<close>

section \<open>Histories\<close>

text \<open>An event satisfied \<open>P\<close> together with the events before it.\<close>

definition happened :: "gateway_event list \<Rightarrow> (gateway_event list \<Rightarrow> gateway_event \<Rightarrow> bool) \<Rightarrow> bool" where
  "happened es P \<longleftrightarrow> (\<exists>pre e post. es = pre @ e # post \<and> P pre e)"

lemma happened_snoc: "happened (es @ [e]) P \<longleftrightarrow> happened es P \<or> P es e"
proof
  assume "happened (es @ [e]) P"
  then obtain pre x post where x: "es @ [e] = pre @ x # post" "P pre x" unfolding happened_def by blast
  then show "happened es P \<or> P es e"
    by (cases post rule: rev_cases) (auto simp: happened_def)
next
  assume "happened es P \<or> P es e"
  then show "happened (es @ [e]) P" unfolding happened_def by fastforce
qed

lemma happened_more: "happened es P \<Longrightarrow> happened (es @ [e]) P"
  by (simp add: happened_snoc)

text \<open>A browser opened the sign-in page: request \<open>rid\<close> was created from a well-formed query.\<close>

definition opened :: "gateway_env \<Rightarrow> gateway_service \<Rightarrow> gostring \<Rightarrow> login_pending \<Rightarrow> gateway_event list \<Rightarrow> bool" where
  "opened env s rid req es \<longleftrightarrow>
     happened es (\<lambda>_ e. \<exists>rnd t now r.
       e = SignInStart s rnd t now r \<and> lr_method r = ''GET'' \<and> authorize_query_ok (login_of env s) (lr_query r) \<and>
       ra_request rnd = Some rid \<and> ra_csrf rnd = Some (lp_csrf req) \<and> ra_binding rnd = Some (lp_binding req) \<and>
       lp_redirect req = form_get (lr_query r) ''redirect_uri'' \<and> lp_state req = form_get (lr_query r) ''state'' \<and>
       lp_challenge req = form_get (lr_query r) ''code_challenge'' \<and> lp_expires req = t + requestTTL)"

text \<open>The form of that page came back from the gateway's own origin, with the page's cookie and its
  hidden field, before the request expired.\<close>

definition submitted :: "gateway_env \<Rightarrow> gateway_service \<Rightarrow> submission \<Rightarrow> gateway_event list \<Rightarrow> bool" where
  "submitted env s su es \<longleftrightarrow>
     happened es (\<lambda>pre e. \<exists>now r form.
       e = SignInSubmit s now r \<and> lr_method r = ''POST'' \<and> lr_origin r = lc_origin (login_of env s) \<and>
       ParseForm 16384 r = Some form \<and> form_get form ''request'' = su_id su \<and>
       form_get form ''csrf'' = lp_csrf (su_request su) \<and>
       map_of (lr_cookies r) (cookieName (ge_sha256 env) (su_id su)) = Some (lp_binding (su_request su)) \<and>
       submitted_values (login_of env s) form = Some (su_values su) \<and> now < lp_expires (su_request su) \<and>
       opened env s (su_id su) (su_request su) pre)"

text \<open>The upstream accepted the submitted values, and the sign-in was completed for a new subject.\<close>

definition completed ::
  "gateway_env \<Rightarrow> gateway_service \<Rightarrow> (submission \<Rightarrow> gostring \<Rightarrow> gostring \<Rightarrow> time \<Rightarrow> time \<Rightarrow> bool) \<Rightarrow> gateway_event list \<Rightarrow> bool" where
  "completed env s Q es \<longleftrightarrow>
     happened es (\<lambda>pre e. \<exists>su checker random code now put_now t subject.
       e = SignInFinish s su checker random (Some code) now put_now t \<and> random = Some subject \<and>
       validateForm s checker random (su_values su) = FormAccepted subject \<and> submitted env s su pre \<and>
       Q su subject code put_now t)"

definition code_issued :: "gateway_env \<Rightarrow> gateway_service \<Rightarrow> gostring \<Rightarrow> login_grant \<Rightarrow> gateway_event list \<Rightarrow> bool" where
  "code_issued env s code g es \<longleftrightarrow>
     completed env s (\<lambda>su subject c _ t. c = code \<and> lg_subject g = subject \<and>
       lg_challenge g = lp_challenge (su_request su) \<and> lg_redirect g = lp_redirect (su_request su) \<and>
       lg_expires g = t + codeTTL) es"

text \<open>The code was redeemed in time, by whoever knows the verifier of the page's challenge.\<close>

definition redeemed :: "gateway_env \<Rightarrow> gateway_service \<Rightarrow> gostring \<Rightarrow> login_access \<Rightarrow> gateway_event list \<Rightarrow> bool" where
  "redeemed env s access a es \<longleftrightarrow>
     happened es (\<lambda>pre e. \<exists>now t r form g.
       e = SignInToken s (Some access) now t r \<and> ParseForm 8192 r = Some form \<and>
       pkce_challenge (ge_sha256 env) (form_get form ''code_verifier'') = lg_challenge g \<and>
       now < lg_expires g \<and> code_issued env s (form_get form ''code'') g pre \<and>
       lt_subject a = lg_subject g \<and> lt_expires a = t + tokenTTL)"

lemmas history_defs = opened_def submitted_def completed_def code_issued_def redeemed_def

lemma history_more:
  "opened env s rid req es \<Longrightarrow> opened env s rid req (es @ [e])"
  "submitted env s su es \<Longrightarrow> submitted env s su (es @ [e])"
  "completed env s Q es \<Longrightarrow> completed env s Q (es @ [e])"
  "code_issued env s code g es \<Longrightarrow> code_issued env s code g (es @ [e])"
  "redeemed env s access a es \<Longrightarrow> redeemed env s access a (es @ [e])"
  by (simp_all add: history_defs happened_more)

lemma opened_attempts: "opened env s rid (req\<lparr>lp_attempts := n\<rparr>) es = opened env s rid req es"
  by (simp add: opened_def)

section \<open>The tables of one service\<close>

definition tables_justified ::
  "gateway_env \<Rightarrow> gateway_service \<Rightarrow> gateway_event list \<Rightarrow> login_provider \<Rightarrow> bool" where
  "tables_justified env s es p \<longleftrightarrow>
     (\<forall>rid req. (rid, req) \<in> set (lv_requests p) \<longrightarrow> opened env s rid req es) \<and>
     (\<forall>code g. (code, g) \<in> set (lv_codes p) \<longrightarrow> code_issued env s code g es) \<and>
     (\<forall>access a. (access, a) \<in> set (lv_tokens p) \<longrightarrow> redeemed env s access a es)"

lemma tables_justified_more: "tables_justified env s es p \<Longrightarrow> tables_justified env s (es @ [e]) p"
  by (auto simp: tables_justified_def history_more)

lemma tables_justified_prune: "tables_justified env s es p \<Longrightarrow> tables_justified env s es (prune_logins now p)"
  by (auto simp: tables_justified_def prune_logins_def)

lemma authorize_justified:
  assumes "tables_justified env s es p"
  shows "tables_justified env s (es @ [SignInStart s rnd t now r])
    (snd (login_authorize (login_of env s) (ge_sha256 env) (ra_request rnd) (ra_csrf rnd) (ra_binding rnd) t now r p))"
    (is "tables_justified env s ?es _")
proof -
  have old: "tables_justified env s ?es p" "tables_justified env s ?es (prune_logins now p)"
    using assms by (simp_all add: tables_justified_more tables_justified_prune)
  have new: "tables_justified env s ?es ((prune_logins now p)\<lparr>lv_requests := put_item rid req (lv_requests (prune_logins now p))\<rparr>)"
    if "opened env s rid req ?es" for rid req
    using old(2) that by (auto simp: tables_justified_def set_put_item_iff)
  show ?thesis
    using old by (auto simp: login_authorize_def Let_def opened_def happened_snoc intro!: new split: option.split)
qed

lemma approve_begin_justified:
  assumes "tables_justified env s es p"
  shows "tables_justified env s (es @ [e]) (snd (approve_begin (login_of env s) (ge_sha256 env) now r p))"
proof -
  let ?p = "prune_logins now p"
  have old: "tables_justified env s (es @ [e]) p" "tables_justified env s (es @ [e]) ?p"
    using assms by (simp_all add: tables_justified_more tables_justified_prune)
  have new: "tables_justified env s (es @ [e]) (?p\<lparr>lv_requests := put_item rid (req\<lparr>lp_attempts := n\<rparr>) (lv_requests ?p)\<rparr>)"
    if "map_of (lv_requests ?p) rid = Some req" for rid req n
    using old(2) map_of_SomeD [OF that]
    by (auto simp: tables_justified_def set_put_item_iff opened_attempts)
  show ?thesis
    using old by (auto simp: approve_begin_def Let_def intro!: new split: option.split)
qed

lemma approve_begin_submitted:
  assumes "tables_justified env s es p"
    and "approve_begin (login_of env s) (ge_sha256 env) now r p = (Inr su, p1)"
  shows "submitted env s su (es @ [SignInSubmit s now r])"
proof -
  obtain form req where f: "lr_method r = ''POST''" "lr_origin r = lc_origin (login_of env s)"
      "ParseForm 16384 r = Some form" "map_of (lv_requests (prune_logins now p)) (form_get form ''request'') = Some req"
      "map_of (lr_cookies r) (cookieName (ge_sha256 env) (form_get form ''request'')) = Some (lp_binding req)"
      "lp_csrf req = form_get form ''csrf''"
      "su_id su = form_get form ''request''" "su_request su = req\<lparr>lp_attempts := lp_attempts req + 1\<rparr>"
      "submitted_values (login_of env s) form = Some (su_values su)"
    using assms(2) by (auto simp: approve_begin_def Let_def split: option.splits if_splits)
  from map_of_SomeD [OF f(4)] have "(form_get form ''request'', req) \<in> set (lv_requests p)" "now < lp_expires req"
    by (auto simp: prune_logins_def)
  then have "opened env s (form_get form ''request'') req es"
    using assms(1) by (auto simp: tables_justified_def)
  with f \<open>now < lp_expires req\<close> show ?thesis
    unfolding submitted_def happened_snoc by (auto simp: opened_attempts)
qed

lemma approve_finish_justified:
  assumes "tables_justified env s es p" and "submitted env s su es"
    and "approve_finish (login_of env s) (ge_sha256 env) commit (validateForm s checker random (su_values su)) code now t su p st
      = (reply, p1, st1)"
  shows "tables_justified env s (es @ [SignInFinish s su checker random code now put_now t]) p1"
    (is "tables_justified env s ?es _")
proof -
  let ?p = "prune_logins now p"
  have old: "tables_justified env s ?es p" "tables_justified env s ?es ?p"
    using assms(1) by (simp_all add: tables_justified_more tables_justified_prune)
  have new: "tables_justified env s ?es (?p\<lparr>lv_requests := del_item rid (lv_requests ?p), lv_codes := put_item c g (lv_codes ?p)\<rparr>)"
    if "code_issued env s c g ?es" for rid c g
    using old(2) that by (auto simp: tables_justified_def set_put_item_iff set_del_item_iff)
  have random: "random = Some subject" if "validateForm s checker random vs = FormAccepted subject" for vs subject
    using that by (auto simp: validateForm_def validateUpstream_def split: option.splits if_splits)
  have "p1 = p \<or> p1 = ?p \<or>
      (\<exists>subject c. validateForm s checker random (su_values su) = FormAccepted subject \<and> code = Some c \<and>
        p1 = ?p\<lparr>lv_requests := del_item (su_id su) (lv_requests ?p),
          lv_codes := put_item c \<lparr>lg_subject = subject, lg_challenge = lp_challenge (su_request su),
            lg_redirect = lp_redirect (su_request su), lg_expires = t + codeTTL\<rparr> (lv_codes ?p)\<rparr>)"
    using assms(3) by (auto simp: approve_finish_def Let_def split: form_outcome.splits option.splits if_splits)
  then consider "p1 = p" | "p1 = ?p"
    | subject c where "validateForm s checker random (su_values su) = FormAccepted subject" "code = Some c"
      "p1 = ?p\<lparr>lv_requests := del_item (su_id su) (lv_requests ?p),
        lv_codes := put_item c \<lparr>lg_subject = subject, lg_challenge = lp_challenge (su_request su),
          lg_redirect = lp_redirect (su_request su), lg_expires = t + codeTTL\<rparr> (lv_codes ?p)\<rparr>"
    by blast
  then show ?thesis
  proof cases
    case (3 subject c)
    have "code_issued env s c \<lparr>lg_subject = subject, lg_challenge = lp_challenge (su_request su),
        lg_redirect = lp_redirect (su_request su), lg_expires = t + codeTTL\<rparr> ?es"
      using 3(1,2) random [OF 3(1)] assms(2) by (simp add: code_issued_def completed_def happened_snoc)
    then show ?thesis unfolding 3(3) by (rule new)
  qed (use old in simp_all)
qed

lemma token_justified:
  assumes "tables_justified env s es p"
  shows "tables_justified env s (es @ [SignInToken s access now t r])
    (snd (login_token (login_of env s) (ge_sha256 env) access now t r p))"
    (is "tables_justified env s ?es _")
proof -
  let ?p = "prune_logins now p"
  have old: "tables_justified env s ?es p" "tables_justified env s ?es ?p"
    using assms by (simp_all add: tables_justified_more tables_justified_prune)
  have new: "tables_justified env s ?es (?p\<lparr>lv_codes := del_item code (lv_codes ?p), lv_tokens := put_item a tok (lv_tokens ?p)\<rparr>)"
    if "redeemed env s a tok ?es" for code a tok
    using old(2) that by (auto simp: tables_justified_def set_put_item_iff set_del_item_iff)
  have code: "code_issued env s code g es \<and> now < lg_expires g" if "map_of (lv_codes ?p) code = Some g" for code g
    using assms map_of_SomeD [OF that] by (auto simp: tables_justified_def prune_logins_def)
  obtain reply p1 where run: "login_token (login_of env s) (ge_sha256 env) access now t r p = (reply, p1)" by fastforce
  have "p1 = p \<or> p1 = ?p \<or> (\<exists>form g a. ParseForm 8192 r = Some form \<and>
      map_of (lv_codes ?p) (form_get form ''code'') = Some g \<and>
      pkce_challenge (ge_sha256 env) (form_get form ''code_verifier'') = lg_challenge g \<and> access = Some a \<and>
      p1 = ?p\<lparr>lv_codes := del_item (form_get form ''code'') (lv_codes ?p),
        lv_tokens := put_item a \<lparr>lt_subject = lg_subject g, lt_expires = t + tokenTTL\<rparr> (lv_tokens ?p)\<rparr>)"
    using run by (auto simp: login_token_def Let_def split: option.splits if_splits)
  then consider "p1 = p" | "p1 = ?p"
    | form g a where "ParseForm 8192 r = Some form" "map_of (lv_codes ?p) (form_get form ''code'') = Some g"
      "pkce_challenge (ge_sha256 env) (form_get form ''code_verifier'') = lg_challenge g" "access = Some a"
      "p1 = ?p\<lparr>lv_codes := del_item (form_get form ''code'') (lv_codes ?p),
        lv_tokens := put_item a \<lparr>lt_subject = lg_subject g, lt_expires = t + tokenTTL\<rparr> (lv_tokens ?p)\<rparr>"
    by blast
  then show ?thesis
  proof cases
    case (3 form g a)
    have "redeemed env s a \<lparr>lt_subject = lg_subject g, lt_expires = t + tokenTTL\<rparr> ?es"
      using 3(1,3,4) code [OF 3(2)] unfolding redeemed_def happened_snoc by auto
    then show ?thesis unfolding run snd_conv 3(5) by (rule new)
  qed (use old in \<open>simp_all add: run\<close>)
qed

lemma userinfo_justified:
  "tables_justified env s es p \<Longrightarrow> tables_justified env s (es @ [e]) (snd (login_userinfo now r p))"
  by (auto simp: login_userinfo_def Let_def tables_justified_more tables_justified_prune split: option.split)

lemma userinfo_subject:
  assumes "tables_justified env s es p" and "login_userinfo now r p = (LoginSubject subject, p1)"
  shows "\<exists>access a. bearer_token (lr_authorization r) = Some access \<and> redeemed env s access a es \<and>
    now < lt_expires a \<and> lt_subject a = subject"
proof -
  obtain access a where "bearer_token (lr_authorization r) = Some access"
      "map_of (lv_tokens (prune_logins now p)) access = Some a" "lt_subject a = subject"
    using assms(2) by (auto simp: login_userinfo_def Let_def split: option.splits if_splits)
  moreover from map_of_SomeD [OF this(2)] have "(access, a) \<in> set (lv_tokens p)" "now < lt_expires a"
    by (auto simp: prune_logins_def)
  moreover from this have "redeemed env s access a es" using assms(1) by (simp add: tables_justified_def)
  ultimately show ?thesis by blast
qed

section \<open>The whole gateway\<close>

definition gateway_justified :: "gateway_env \<Rightarrow> gateway_event list \<Rightarrow> credential_gateway_state \<Rightarrow> bool" where
  "gateway_justified env es st \<longleftrightarrow>
     (\<forall>s \<in> set (gf_services (ge_config env)).
        tables_justified env s es (gy_login st (gs_id s)) \<and>
        (\<forall>su. (gs_id s, su) \<in> set (gy_submissions st) \<longrightarrow> submitted env s su es))"

lemma gateway_justified_frame:
  assumes "gateway_justified env es st" "s \<in> set (gf_services (ge_config env))"
    and "distinct (map gs_id (gf_services (ge_config env)))"
    and "tables_justified env s (es @ [e]) p"
    and "gy_login st1 = (gy_login st)(gs_id s := p)"
    and "\<And>k su. (k, su) \<in> set (gy_submissions st1) \<Longrightarrow>
      (k, su) \<in> set (gy_submissions st) \<or> k = gs_id s \<and> submitted env s su (es @ [e])"
  shows "gateway_justified env (es @ [e]) st1"
  unfolding gateway_justified_def
proof (intro ballI conjI allI impI)
  fix s' assume s': "s' \<in> set (gf_services (ge_config env))"
  have eq: "s' = s" if "gs_id s' = gs_id s"
    using that s' assms(2,3) by (metis distinct_map inj_on_def)
  show "tables_justified env s' (es @ [e]) (gy_login st1 (gs_id s'))"
    using assms(1,4,5) s' eq by (cases "gs_id s' = gs_id s") (auto simp: gateway_justified_def tables_justified_more)
  fix su assume "(gs_id s', su) \<in> set (gy_submissions st1)"
  then show "submitted env s' su (es @ [e])"
    using assms(1,6) s' eq unfolding gateway_justified_def by (metis history_more(2))
qed

lemma gateway_justified_other:
  assumes "gateway_justified env es st" "gy_login st1 = gy_login st" "gy_submissions st1 = gy_submissions st"
  shows "gateway_justified env (es @ [e]) st1"
  using assms by (auto simp: gateway_justified_def tables_justified_more history_more)

lemma set_login_simps [simp]:
  "gy_login (set_login s p st) = (gy_login st)(gs_id s := p)" "gy_submissions (set_login s p st) = gy_submissions st"
  "gy_store (set_login s p st) = gy_store st" "gy_seen (set_login s p st) = gy_seen st"
  "gy_authorized (set_login s p st) = gy_authorized st" "gy_sent (set_login s p st) = gy_sent st"
  by (simp_all add: set_login_def)

lemma gateway_step_justified:
  assumes inv: "gateway_justified env es st" and dist: "distinct (map gs_id (gf_services (ge_config env)))"
    and known: "event_service e \<in> set (gf_services (ge_config env))"
  shows "gateway_justified env (es @ [e]) (snd (gateway_step env e st))"
proof (cases e)
  case (SignInStart s rnd t now r)
  then have s: "s \<in> set (gf_services (ge_config env))" using known by (simp add: event_service_def)
  with inv have "tables_justified env s es (gy_login st (gs_id s))" by (simp add: gateway_justified_def)
  from authorize_justified [OF this] show ?thesis
    unfolding SignInStart gateway_step_def
    by (auto simp: sign_in_start_def split: prod.split intro!: gateway_justified_frame [OF inv s dist])
next
  case (SignInSubmit s now r)
  then have s: "s \<in> set (gf_services (ge_config env))" using known by (simp add: event_service_def)
  with inv have t: "tables_justified env s es (gy_login st (gs_id s))" by (simp add: gateway_justified_def)
  show ?thesis
    unfolding SignInSubmit gateway_step_def
    using approve_begin_justified [OF t, of "SignInSubmit s now r" now r] approve_begin_submitted [OF t, of now r]
    by (auto simp: sign_in_submit_def split: prod.split sum.split intro!: gateway_justified_frame [OF inv s dist])
next
  case (SignInFinish s su checker random code now put_now t)
  then have s: "s \<in> set (gf_services (ge_config env))" using known by (simp add: event_service_def)
  show ?thesis
  proof (cases "(gs_id s, su) \<in> set (gy_submissions st)")
    case True
    from inv s True have "tables_justified env s es (gy_login st (gs_id s))" "submitted env s su es"
      by (auto simp: gateway_justified_def)
    from approve_finish_justified [OF this] show ?thesis
      unfolding SignInFinish gateway_step_def using True
      by (auto simp: sign_in_finish_def split: prod.split dest: notin_set_remove1 [THEN contrapos_pp]
          intro!: gateway_justified_frame [OF inv s dist])
  next
    case False
    then show ?thesis
      unfolding SignInFinish gateway_step_def
      by (auto simp: sign_in_finish_def intro: gateway_justified_other [OF inv])
  qed
next
  case (SignInToken s access now t r)
  then have s: "s \<in> set (gf_services (ge_config env))" using known by (simp add: event_service_def)
  with inv have "tables_justified env s es (gy_login st (gs_id s))" by (simp add: gateway_justified_def)
  from token_justified [OF this] show ?thesis
    unfolding SignInToken gateway_step_def
    by (auto simp: sign_in_token_def split: prod.split intro!: gateway_justified_frame [OF inv s dist])
next
  case (SignInUser s now r)
  then have s: "s \<in> set (gf_services (ge_config env))" using known by (simp add: event_service_def)
  with inv have "tables_justified env s es (gy_login st (gs_id s))" by (simp add: gateway_justified_def)
  from userinfo_justified [OF this, of e now r] show ?thesis
    unfolding SignInUser gateway_step_def
    by (auto simp: sign_in_user_def split: prod.split intro!: gateway_justified_frame [OF inv s dist])
next
  case (CallAccept s calls r now)
  then show ?thesis
    by (auto simp: gateway_step_def call_accept_def split: prod.split sum.split intro: gateway_justified_other [OF inv])
next
  case (CallDispatch s i r now)
  then show ?thesis
    by (auto simp: gateway_step_def call_dispatch_def Let_def split: prod.split sum.split intro: gateway_justified_other [OF inv])
next
  case (CallConclude s i answer)
  then show ?thesis
    by (auto simp: gateway_step_def call_conclude_def split: prod.split intro: gateway_justified_other [OF inv])
qed

lemma gateway_run_snoc: "gateway_run env (es @ [e]) = snd (gateway_step env e (gateway_run env es))"
  by (simp add: gateway_run_def)

lemma gateway_run_justified: "configured env es \<Longrightarrow> gateway_justified env es (gateway_run env es)"
proof (induction es rule: rev_induct)
  case Nil
  show ?case
    by (simp add: gateway_run_def gateway_start_def gateway_justified_def tables_justified_def NewLoginProvider_def)
next
  case (snoc e es)
  then show ?case
    unfolding gateway_run_snoc by (intro gateway_step_justified) (auto simp: configured_def)
qed

end
