(* ===== verification/SignInGuarantees.thy ===== *)
theory SignInGuarantees
  imports SignInClaims
begin

text \<open>
  The guarantees of the credential gateway that follow from the justified tables: what a subject
  stands for, and whose values a forwarded call carries.
\<close>

section \<open>Submitted values\<close>

lemma map_of_fields:
  "map_of (map (\<lambda>f. (n f, g (n f))) fs) x = (if x \<in> n ` set fs then Some (g x) else None)"
  by (induction fs) auto

lemma submitted_values_get:
  "submitted_values cfg form = Some vs \<Longrightarrow> map (\<lambda>f. (ff_name f, form_get vs (ff_name f))) (lc_fields cfg) = vs"
proof -
  assume "submitted_values cfg form = Some vs"
  then have vs: "vs = map (\<lambda>f. (ff_name f, form_get form (ff_name f))) (lc_fields cfg)"
    by (simp add: submitted_values_def split: if_splits)
  have "form_get vs (ff_name f) = form_get form (ff_name f)" if "f \<in> set (lc_fields cfg)" for f
    using that map_of_fields [of ff_name "form_get form" "lc_fields cfg" "ff_name f"]
    by (simp add: vs form_get_def [of "map _ _"])
  then show ?thesis by (simp add: vs)
qed

lemma validateForm_accepted:
  assumes "submitted_values (login_of env s) form = Some vs" and "validateForm s checker random vs = FormAccepted subject"
  shows "\<exists>hs status. render (gs_headers s) vs = Some hs \<and> checker hs = Some status \<and> 200 \<le> status \<and> status < 300"
proof -
  have "map (\<lambda>f. (ff_name f, form_get vs (ff_name f))) (gs_fields s) = vs"
    using submitted_values_get [OF assms(1)] by (simp add: loginProvider_def)
  then show ?thesis
    using assms(2) by (auto simp: validateForm_def validateUpstream_def split: option.splits if_splits)
qed

section \<open>A browser's sign-in\<close>

text \<open>The events of a completed sign-in, in their order: the page of request \<open>rid\<close> was opened with the
  query of \<open>r1\<close>, its form came back in \<open>r2\<close> from the same browser, and the upstream accepted the
  values.\<close>

definition sign_in_of ::
  "gateway_env \<Rightarrow> gateway_service \<Rightarrow> gateway_event list \<Rightarrow> login_request \<Rightarrow> login_request \<Rightarrow> form_values
    \<Rightarrow> (gostring \<times> gostring) list \<Rightarrow> gateway_event list \<Rightarrow> gateway_event list \<Rightarrow> bool" where
  "sign_in_of env s pre r1 r2 vs hs mid1 mid2 \<longleftrightarrow>
     (\<exists>es1 rnd t1 n1 n2 form rid csrf binding.
        pre = es1 @ [SignInStart s rnd t1 n1 r1] @ mid1 @ [SignInSubmit s n2 r2] @ mid2 \<and>
        authorize_query_ok (login_of env s) (lr_query r1) \<and> n2 < t1 + requestTTL \<and>
        ra_request rnd = Some rid \<and> ra_csrf rnd = Some csrf \<and> ra_binding rnd = Some binding \<and>
        lr_origin r2 = lc_origin (login_of env s) \<and> ParseForm 16384 r2 = Some form \<and>
        form_get form ''request'' = rid \<and> form_get form ''csrf'' = csrf \<and>
        map_of (lr_cookies r2) (cookieName (ge_sha256 env) rid) = Some binding \<and>
        submitted_values (login_of env s) form = Some vs \<and> render (gs_headers s) vs = Some hs)"

lemma submitted_sign_in:
  assumes "submitted env s su pre" and "validateForm s checker random (su_values su) = FormAccepted subject"
  shows "\<exists>r1 r2 hs mid1 mid2 status. sign_in_of env s pre r1 r2 (su_values su) hs mid1 mid2 \<and>
    lp_challenge (su_request su) = form_get (lr_query r1) ''code_challenge'' \<and>
    checker hs = Some status \<and> 200 \<le> status \<and> status < 300"
proof -
  from assms(1) obtain pre2 n2 r2 post2 form where s2: "pre = pre2 @ SignInSubmit s n2 r2 # post2"
      "lr_origin r2 = lc_origin (login_of env s)" "ParseForm 16384 r2 = Some form"
      "form_get form ''request'' = su_id su" "form_get form ''csrf'' = lp_csrf (su_request su)"
      "map_of (lr_cookies r2) (cookieName (ge_sha256 env) (su_id su)) = Some (lp_binding (su_request su))"
      "submitted_values (login_of env s) form = Some (su_values su)" "n2 < lp_expires (su_request su)"
      "opened env s (su_id su) (su_request su) pre2"
    by (auto simp: submitted_def happened_def)
  from s2(9) obtain pre1 rnd t1 n1 r1 post1 where s1: "pre2 = pre1 @ SignInStart s rnd t1 n1 r1 # post1"
      "authorize_query_ok (login_of env s) (lr_query r1)"
      "ra_request rnd = Some (su_id su)" "ra_csrf rnd = Some (lp_csrf (su_request su))"
      "ra_binding rnd = Some (lp_binding (su_request su))"
      "lp_challenge (su_request su) = form_get (lr_query r1) ''code_challenge''"
      "lp_expires (su_request su) = t1 + requestTTL"
    by (auto simp: opened_def happened_def)
  from validateForm_accepted [OF s2(7) assms(2)] obtain hs status where
    hs: "render (gs_headers s) (su_values su) = Some hs" "checker hs = Some status" "200 \<le> status" "status < 300" by blast
  have "sign_in_of env s pre r1 r2 (su_values su) hs post1 post2"
    unfolding sign_in_of_def
  proof (intro exI conjI)
    show "pre = pre1 @ [SignInStart s rnd t1 n1 r1] @ post1 @ [SignInSubmit s n2 r2] @ post2"
      using s1(1) s2(1) by simp
  qed (use s1 s2 hs in simp_all)
  then show ?thesis using s1(6) hs by blast
qed

text \<open>C15: The subject that \<open>/login/userinfo\<close> reports for a token stands for one browser's sign-in. Some
  earlier request of that browser opened the page for the configured callback; the form came back
  from the gateway's own origin with the page's hidden value and its cookie, within five minutes;
  the upstream answered the submitted values with a 2xx status, and the subject was created for
  them; the code was redeemed within its minute by someone who knows the verifier of the challenge
  that opened the page, and the token is used within its minute.\<close>

theorem sign_in_bound_to_browser:
  assumes "configured env es" and "s \<in> set (gf_services (ge_config env))"
    and "fst (gateway_step env (SignInUser s now r) (gateway_run env es)) = OutLogin (LoginSubject subject)"
  shows "\<exists>pre su checker code n3 p3 t3 mid access n4 t4 r4 form post r1 r2 hs mid1 mid2 status.
    es = pre @ [SignInFinish s su checker (Some subject) (Some code) n3 p3 t3] @ mid @
      [SignInToken s (Some access) n4 t4 r4] @ post \<and>
    sign_in_of env s pre r1 r2 (su_values su) hs mid1 mid2 \<and>
    checker hs = Some status \<and> 200 \<le> status \<and> status < 300 \<and>
    ParseForm 8192 r4 = Some form \<and> form_get form ''code'' = code \<and> n4 < t3 + codeTTL \<and>
    pkce_challenge (ge_sha256 env) (form_get form ''code_verifier'') = form_get (lr_query r1) ''code_challenge'' \<and>
    bearer_token (lr_authorization r) = Some access \<and> now < t4 + tokenTTL"
proof -
  have just: "tables_justified env s es (gy_login (gateway_run env es) (gs_id s))"
    using gateway_run_justified [OF assms(1)] assms(2) by (simp add: gateway_justified_def)
  obtain p1 where "login_userinfo now r (gy_login (gateway_run env es) (gs_id s)) = (LoginSubject subject, p1)"
    using assms(3) by (auto simp: gateway_step_def sign_in_user_def split: prod.splits)
  from userinfo_subject [OF just this] obtain access a where a: "bearer_token (lr_authorization r) = Some access"
    "redeemed env s access a es" "now < lt_expires a" "lt_subject a = subject" by blast
  from a(2) obtain pre4 n4 t4 r4 post form g where g: "es = pre4 @ SignInToken s (Some access) n4 t4 r4 # post"
      "ParseForm 8192 r4 = Some form"
      "pkce_challenge (ge_sha256 env) (form_get form ''code_verifier'') = lg_challenge g"
      "n4 < lg_expires g" "code_issued env s (form_get form ''code'') g pre4" "lg_subject g = subject"
      "lt_expires a = t4 + tokenTTL"
    using a(4) by (auto simp: redeemed_def happened_def)
  from g(5,6) obtain pre su checker n3 p3 t3 mid where c:
      "pre4 = pre @ SignInFinish s su checker (Some subject) (Some (form_get form ''code'')) n3 p3 t3 # mid"
      "validateForm s checker (Some subject) (su_values su) = FormAccepted subject" "submitted env s su pre"
      "lg_challenge g = lp_challenge (su_request su)" "lg_expires g = t3 + codeTTL"
    by (auto simp: code_issued_def completed_def happened_def)
  from submitted_sign_in [OF c(3,2)] obtain r1 r2 hs mid1 mid2 status where
    "sign_in_of env s pre r1 r2 (su_values su) hs mid1 mid2"
    "lp_challenge (su_request su) = form_get (lr_query r1) ''code_challenge''"
    "checker hs = Some status" "200 \<le> status" "status < 300" by blast
  moreover have "es = pre @ [SignInFinish s su checker (Some subject) (Some (form_get form ''code'')) n3 p3 t3] @ mid @
      [SignInToken s (Some access) n4 t4 r4] @ post"
    using g(1) c(1) by simp
  ultimately show ?thesis using g c a by metis
qed

section \<open>Stored values\<close>

definition stored_by :: "gateway_env \<Rightarrow> gateway_service \<Rightarrow> store_key \<Rightarrow> store_entry \<Rightarrow> gateway_event list \<Rightarrow> bool" where
  "stored_by env s k v es \<longleftrightarrow>
     completed env s (\<lambda>su subject _ put_now _.
       k = (gf_issuer (ge_config env), SubjectPrefix (gs_id s) @ subject, gs_id s) \<and>
       sy_values v = su_values su \<and> sy_expires v = put_now + gf_form_ttl (ge_config env)) es"

definition store_justified :: "gateway_env \<Rightarrow> gateway_event list \<Rightarrow> form_store \<Rightarrow> bool" where
  "store_justified env es store \<longleftrightarrow>
     ks_ttl store = gf_form_ttl (ge_config env) \<and>
     (\<forall>k v. (k, v) \<in> set (ks_items store) \<longrightarrow>
        (\<exists>s \<in> set (gf_services (ge_config env)). snd (snd k) = gs_id s \<and> stored_by env s k v es))"

lemma store_justified_more: "store_justified env es store \<Longrightarrow> store_justified env (es @ [e]) store"
  unfolding store_justified_def stored_by_def by (meson history_more(3))

lemma store_justified_fewer:
  "store_justified env es store \<Longrightarrow> ks_ttl store1 = ks_ttl store \<Longrightarrow> set (ks_items store1) \<subseteq> set (ks_items store)
    \<Longrightarrow> store_justified env es store1"
  unfolding store_justified_def by (simp only:) (blast dest: subsetD)

lemma get_values_fewer:
  "ks_ttl (snd (get_values i u sv now store)) = ks_ttl store"
  "set (ks_items (snd (get_values i u sv now store))) \<subseteq> set (ks_items store)"
  by (auto simp: get_values_def Let_def set_del_item_iff split: option.split)

lemma conclude_call_fewer:
  "ks_ttl (snd (conclude_call mac s i answer store)) = ks_ttl store"
  "set (ks_items (snd (conclude_call mac s i answer store))) \<subseteq> set (ks_items store)"
  by (auto simp: conclude_call_def Let_def delete_values_def set_del_item_iff split: upstream_answer.split)

lemma dispatch_call_store:
  "snd (dispatch_call cfg mac s i r now store) = store \<or>
   snd (dispatch_call cfg mac s i r now store) = snd (get_values (gi_issuer i) (gi_subject i) (gs_id s) now store)"
  by (auto simp: dispatch_call_def split: sum.split prod.split option.split)

text \<open>Only the completion of a sign-in adds an entry, and only under its own key.\<close>

lemma approve_finish_store:
  assumes "approve_finish (login_of env s) sha (commit_values (ge_config env) s put_now)
      (validateForm s checker random vs) code now t su p store = (reply, p1, store1)"
    and "su_values su = vs"
  shows "store1 = store \<or>
    (\<exists>subject c. random = Some subject \<and> code = Some c \<and> validateForm s checker random vs = FormAccepted subject \<and>
       store1 = put_values (gf_issuer (ge_config env)) (SubjectPrefix (gs_id s) @ subject) (gs_id s) vs put_now store)"
proof -
  have new: "random = Some subject" if "validateForm s checker random vs = FormAccepted subject" for subject
    using that by (auto simp: validateForm_def validateUpstream_def split: option.splits if_splits)
  show ?thesis
  proof (cases "validateForm s checker random vs")
    case (FormAccepted subject)
    show ?thesis
      using assms new [OF FormAccepted] unfolding FormAccepted
      by (auto simp: approve_finish_def commit_values_def Let_def split: option.splits if_splits)
  qed (use assms in \<open>simp_all add: approve_finish_def\<close>)
qed

lemma set_put_values:
  "set (ks_items (put_values i u sv vals now store)) \<subseteq>
     insert ((i, u, sv), \<lparr>sy_values = vals, sy_expires = now + ks_ttl store, sy_seq = ks_seq store + 1\<rparr>) (set (ks_items store))"
  by (auto simp: put_values_def Let_def set_put_item_iff dest!: subsetD [OF set_evict_oldest])

lemma put_values_ttl [simp]: "ks_ttl (put_values i u sv vals now store) = ks_ttl store"
  by (simp add: put_values_def Let_def)

text \<open>What one event does to the store.\<close>

lemma gateway_step_store:
  "(ks_ttl (gy_store (snd (gateway_step env e st))) = ks_ttl (gy_store st) \<and>
    set (ks_items (gy_store (snd (gateway_step env e st)))) \<subseteq> set (ks_items (gy_store st))) \<or>
   (\<exists>s su checker subject code now put_now t.
      e = SignInFinish s su checker (Some subject) (Some code) now put_now t \<and> (gs_id s, su) \<in> set (gy_submissions st) \<and>
      validateForm s checker (Some subject) (su_values su) = FormAccepted subject \<and>
      gy_store (snd (gateway_step env e st)) =
        put_values (gf_issuer (ge_config env)) (SubjectPrefix (gs_id s) @ subject) (gs_id s) (su_values su) put_now (gy_store st))"
proof (cases e)
  case (SignInFinish s su checker random code now put_now t)
  obtain reply p store where run: "approve_finish (login_of env s) (ge_sha256 env) (commit_values (ge_config env) s put_now)
      (validateForm s checker random (su_values su)) code now t su (gy_login st (gs_id s)) (gy_store st) = (reply, p, store)"
    by (metis prod_cases3)
  have "gy_store (snd (gateway_step env e st)) = (if (gs_id s, su) \<in> set (gy_submissions st) then store else gy_store st)"
    using run by (simp add: SignInFinish gateway_step_def sign_in_finish_def)
  then show ?thesis
    using approve_finish_store [OF run refl] unfolding SignInFinish by (auto split: if_splits)
next
  case (CallDispatch s i r now)
  then show ?thesis
    using dispatch_call_store [of "ge_config env" "ge_mac env" s i r now "gy_store st"]
      get_values_fewer [of "gi_issuer i" "gi_subject i" "gs_id s" now "gy_store st"]
    by (auto simp: gateway_step_def call_dispatch_def Let_def split: prod.split sum.split)
next
  case (CallConclude s i answer)
  then show ?thesis
    using conclude_call_fewer [of "ge_mac env" s i answer "gy_store st"]
    by (auto simp: gateway_step_def call_conclude_def split: prod.split)
qed (auto simp: gateway_step_def sign_in_start_def sign_in_submit_def sign_in_token_def sign_in_user_def call_accept_def
    split: prod.split sum.split)

lemma gateway_run_store:
  assumes "configured env es"
  shows "store_justified env es (gy_store (gateway_run env es))"
  using assms
proof (induction es rule: rev_induct)
  case Nil
  show ?case by (simp add: gateway_run_def gateway_start_def new_store_def store_justified_def)
next
  case (snoc e es)
  then have conf: "configured env es" and known: "event_service e \<in> set (gf_services (ge_config env))"
    by (auto simp: configured_def)
  let ?st = "gateway_run env es"
  have IH: "store_justified env (es @ [e]) (gy_store ?st)"
    using snoc.IH conf by (intro store_justified_more) simp
  from gateway_step_store [of env e ?st] show ?case
    unfolding gateway_run_snoc
  proof (elim disjE exE conjE)
    fix s su checker subject code now put_now t
    assume e: "e = SignInFinish s su checker (Some subject) (Some code) now put_now t"
      and su: "(gs_id s, su) \<in> set (gy_submissions ?st)"
      and ok: "validateForm s checker (Some subject) (su_values su) = FormAccepted subject"
      and put: "gy_store (snd (gateway_step env e ?st)) =
        put_values (gf_issuer (ge_config env)) (SubjectPrefix (gs_id s) @ subject) (gs_id s) (su_values su) put_now (gy_store ?st)"
    have s: "s \<in> set (gf_services (ge_config env))" using known by (simp add: e event_service_def)
    have "submitted env s su es"
      using gateway_run_justified [OF conf] s su by (auto simp: gateway_justified_def)
    then have new: "stored_by env s (gf_issuer (ge_config env), SubjectPrefix (gs_id s) @ subject, gs_id s) v (es @ [e])"
      if "sy_values v = su_values su" "sy_expires v = put_now + gf_form_ttl (ge_config env)" for v
      using that ok unfolding stored_by_def completed_def happened_snoc e by auto
    show "store_justified env (es @ [e]) (gy_store (snd (gateway_step env e ?st)))"
      unfolding put
    proof (unfold store_justified_def, intro conjI allI impI)
      show ttl: "ks_ttl (put_values (gf_issuer (ge_config env)) (SubjectPrefix (gs_id s) @ subject) (gs_id s)
          (su_values su) put_now (gy_store ?st)) = gf_form_ttl (ge_config env)"
        using IH by (simp add: store_justified_def)
      fix k v assume "(k, v) \<in> set (ks_items (put_values (gf_issuer (ge_config env)) (SubjectPrefix (gs_id s) @ subject)
        (gs_id s) (su_values su) put_now (gy_store ?st)))"
      then consider "(k, v) \<in> set (ks_items (gy_store ?st))"
        | "k = (gf_issuer (ge_config env), SubjectPrefix (gs_id s) @ subject, gs_id s)" "sy_values v = su_values su"
          "sy_expires v = put_now + gf_form_ttl (ge_config env)"
        using set_put_values IH by (fastforce simp: store_justified_def)
      then show "\<exists>s \<in> set (gf_services (ge_config env)). snd (snd k) = gs_id s \<and> stored_by env s k v (es @ [e])"
      proof cases
        case 1
        then show ?thesis using IH unfolding store_justified_def by blast
      next
        case 2
        then show ?thesis using new [OF 2(2,3)] s by auto
      qed
    qed
  qed (use store_justified_fewer [OF IH] in blast)
qed

end
