(* ===== verification/GatewayDelivery.thy ===== *)
theory GatewayDelivery
  imports SignInGuarantees
begin

text \<open>
  Calls through the credential gateway: which values a forwarded call carries and for whom, which
  of the client's headers go along, how values are forgotten, and that an assertion of the
  authorization server serves one call.
\<close>

section \<open>Authorized calls\<close>

text \<open>What an accepted call proves of its bearer: a verified token with a session, an assertion of the
  authorization server for the same subject, session and this service's resource.\<close>

definition call_authorized :: "auth_calls \<Rightarrow> gateway_service \<Rightarrow> client_call \<Rightarrow> gw_identity \<Rightarrow> verified_claims \<Rightarrow> bool" where
  "call_authorized calls s r i grant \<longleftrightarrow>
     method_allowed r \<and>
     (\<exists>token claims assertion.
        bearer_token (header_get (cl_header r) ''Authorization'') = Some token \<and>
        au_verify calls token = VerifyOk claims \<and> claim_string claims ''sid'' \<noteq> [] \<and>
        au_exchange calls token = Exchanged assertion \<and> au_assertion calls assertion = Some grant \<and>
        vc_subject grant = vc_subject claims \<and> claim_is grant ''sid'' (claim_string claims ''sid'') \<and>
        claim_is grant ''resource'' (gs_resource_url s) \<and> claim_is grant ''token_use'' ''credential_access'' \<and>
        claim_string grant ''jti'' \<noteq> [] \<and>
        i = \<lparr>gi_issuer = vc_issuer grant, gi_subject = vc_subject grant\<rparr>)"

lemma authorize_call_Inr:
  assumes "authorize_call calls s h now seen = (Inr i, seen1)"
  shows "\<exists>token claims assertion grant expiry. bearer_token h = Some token \<and> au_verify calls token = VerifyOk claims \<and>
    claim_string claims ''sid'' \<noteq> [] \<and> au_exchange calls token = Exchanged assertion \<and>
    au_assertion calls assertion = Some grant \<and> vc_subject grant = vc_subject claims \<and>
    claim_is grant ''sid'' (claim_string claims ''sid'') \<and> claim_is grant ''resource'' (gs_resource_url s) \<and>
    claim_is grant ''token_use'' ''credential_access'' \<and> claim_number grant ''exp'' = Some expiry \<and>
    claim_string grant ''jti'' \<noteq> [] \<and> consume (claim_string grant ''jti'') (unix_time expiry) now seen = (True, seen1) \<and>
    i = \<lparr>gi_issuer = vc_issuer grant, gi_subject = vc_subject grant\<rparr>"
  using assms unfolding authorize_call_def Let_def
  by (auto split: option.splits verify_result.splits exchange_result.splits if_splits prod.splits bool.splits)

lemma accept_call_Inr:
  assumes "accept_call calls s r now seen = (Inr i, seen1)"
  shows "\<exists>grant expiry. call_authorized calls s r i grant \<and> claim_number grant ''exp'' = Some expiry \<and>
    consume (claim_string grant ''jti'') (unix_time expiry) now seen = (True, seen1)"
proof -
  have "authorize_call calls s (header_get (cl_header r) ''Authorization'') now seen = (Inr i, seen1)" "method_allowed r"
    using assms by (auto simp: accept_call_def split: if_splits prod.splits sum.splits)
  then show ?thesis using authorize_call_Inr unfolding call_authorized_def by blast
qed

definition calls_accepted :: "gateway_env \<Rightarrow> gateway_event list \<Rightarrow> credential_gateway_state \<Rightarrow> bool" where
  "calls_accepted env es st \<longleftrightarrow>
     (\<forall>k i r. (k, i, r) \<in> set (gy_authorized st) \<longrightarrow>
        (\<exists>s calls t grant. k = gs_id s \<and> CallAccept s calls r t \<in> set es \<and> call_authorized calls s r i grant))"

lemma calls_accepted_other:
  "calls_accepted env es st \<Longrightarrow> set (gy_authorized st1) \<subseteq> set (gy_authorized st) \<Longrightarrow> calls_accepted env (es @ [e]) st1"
  unfolding calls_accepted_def set_append by blast

lemma gateway_step_accepted:
  assumes "calls_accepted env es st"
  shows "calls_accepted env (es @ [e]) (snd (gateway_step env e st))"
proof (cases e)
  case (CallAccept s calls r now)
  show ?thesis
  proof (cases "accept_call calls s r now (gy_seen st)")
    case (Pair out seen)
    show ?thesis
    proof (cases out)
      case (Inl reply)
      then show ?thesis
        using Pair by (auto simp: CallAccept gateway_step_def call_accept_def intro!: calls_accepted_other [OF assms])
    next
      case (Inr i)
      then have "accept_call calls s r now (gy_seen st) = (Inr i, seen)" using Pair by simp
      from accept_call_Inr [OF this] obtain grant where "call_authorized calls s r i grant" by blast
      moreover have "gy_authorized (snd (gateway_step env e st)) = (gs_id s, i, r) # gy_authorized st"
        using Pair Inr by (simp add: CallAccept gateway_step_def call_accept_def)
      ultimately show ?thesis
        using assms unfolding calls_accepted_def CallAccept by (simp only: set_simps set_append) blast
    qed
  qed
next
  case (CallDispatch s i r now)
  then show ?thesis
    by (auto simp: gateway_step_def call_dispatch_def Let_def split: prod.split sum.split
        intro!: calls_accepted_other [OF assms] dest: subsetD [OF set_remove1_subset])
qed (auto simp: gateway_step_def sign_in_start_def sign_in_submit_def sign_in_finish_def sign_in_token_def sign_in_user_def
    call_conclude_def split: prod.split sum.split intro!: calls_accepted_other [OF assms])

lemma gateway_run_accepted: "calls_accepted env es (gateway_run env es)"
proof (induction es rule: rev_induct)
  case Nil
  show ?case by (simp add: gateway_run_def gateway_start_def calls_accepted_def)
qed (simp add: gateway_run_snoc gateway_step_accepted)

section \<open>Whose values a call carries\<close>

lemma dispatch_sent:
  assumes "fst (gateway_step env (CallDispatch s i r now) st) = OutUpstream call"
  shows "(gs_id s, i, r) \<in> set (gy_authorized st) \<and>
    (\<exists>v session hs. ((gi_issuer i, gi_subject i, gs_id s), v) \<in> set (ks_items (gy_store st)) \<and> now < sy_expires v \<and>
       render (gs_headers s) (sy_values v) = Some hs \<and> uc_method call = cl_method r \<and>
       uc_url call = gs_upstream_url s \<and> uc_header call = upstream_headers r session hs)"
proof -
  have auth: "(gs_id s, i, r) \<in> set (gy_authorized st)"
    using assms by (simp add: gateway_step_def call_dispatch_def split: if_splits)
  then obtain store where "dispatch_call (ge_config env) (ge_mac env) s i r now (gy_store st) = (Inr call, store)"
    using assms by (auto simp: gateway_step_def call_dispatch_def Let_def split: prod.splits sum.splits)
  then obtain session body vals hs where d: "get_values (gi_issuer i) (gi_subject i) (gs_id s) now (gy_store st) = (Some vals, store)"
      "render (gs_headers s) vals = Some hs"
      "call = \<lparr>uc_method = cl_method r, uc_url = gs_upstream_url s, uc_header = upstream_headers r session hs, uc_body = body\<rparr>"
    by (auto simp: dispatch_call_def split: sum.splits prod.splits option.splits)
  from d(1) obtain v where "map_of (ks_items (gy_store st)) (gi_issuer i, gi_subject i, gs_id s) = Some v"
      "sy_values v = vals" "now < sy_expires v"
    by (auto simp: get_values_def Let_def split: option.splits if_splits)
  then show ?thesis using auth d(2,3) map_of_SomeD by fastforce
qed

text \<open>C16: A call is forwarded with header values only for a caller whose token and assertion were
  verified for this very service, and the values are those of that caller's own sign-in: submitted
  in the browser that opened the page, accepted by the upstream with a 2xx status, stored under a
  subject created for this sign-in, and not older than the configured lifetime.\<close>

theorem injected_values_signed_in:
  assumes "configured env es" and "s \<in> set (gf_services (ge_config env))"
    and "fst (gateway_step env (CallDispatch s i r now) (gateway_run env es)) = OutUpstream call"
  shows "(\<exists>s' calls t grant. gs_id s' = gs_id s \<and> CallAccept s' calls r t \<in> set es \<and> call_authorized calls s' r i grant) \<and>
    (\<exists>pre su checker subject code n3 p3 t3 post r1 r2 hs mid1 mid2 status session.
       es = pre @ [SignInFinish s su checker (Some subject) (Some code) n3 p3 t3] @ post \<and>
       sign_in_of env s pre r1 r2 (su_values su) hs mid1 mid2 \<and>
       checker hs = Some status \<and> 200 \<le> status \<and> status < 300 \<and>
       gi_issuer i = gf_issuer (ge_config env) \<and> gi_subject i = SubjectPrefix (gs_id s) @ subject \<and>
       now < p3 + gf_form_ttl (ge_config env) \<and>
       uc_url call = gs_upstream_url s \<and> uc_header call = upstream_headers r session hs)"
proof
  from dispatch_sent [OF assms(3)] obtain v session hs where d:
      "(gs_id s, i, r) \<in> set (gy_authorized (gateway_run env es))"
      "((gi_issuer i, gi_subject i, gs_id s), v) \<in> set (ks_items (gy_store (gateway_run env es)))" "now < sy_expires v"
      "render (gs_headers s) (sy_values v) = Some hs" "uc_url call = gs_upstream_url s"
      "uc_header call = upstream_headers r session hs" by blast
  show "\<exists>s' calls t grant. gs_id s' = gs_id s \<and> CallAccept s' calls r t \<in> set es \<and> call_authorized calls s' r i grant"
    using gateway_run_accepted [of env es] d(1) unfolding calls_accepted_def by metis
  from gateway_run_store [OF assms(1)] d(2) obtain s' where s': "s' \<in> set (gf_services (ge_config env))"
      "gs_id s = gs_id s'" "stored_by env s' (gi_issuer i, gi_subject i, gs_id s) v es"
    unfolding store_justified_def by (metis snd_conv)
  have "s' = s"
    using s'(1,2) assms(1,2) by (auto simp: configured_def distinct_map inj_on_def)
  with s'(3) obtain pre su checker subject code n3 p3 t3 post where c:
      "es = pre @ SignInFinish s su checker (Some subject) (Some code) n3 p3 t3 # post"
      "validateForm s checker (Some subject) (su_values su) = FormAccepted subject" "submitted env s su pre"
      "gi_issuer i = gf_issuer (ge_config env)" "gi_subject i = SubjectPrefix (gs_id s) @ subject"
      "sy_values v = su_values su" "sy_expires v = p3 + gf_form_ttl (ge_config env)"
    by (auto simp: stored_by_def completed_def happened_def)
  from submitted_sign_in [OF c(3,2)] obtain r1 r2 hs' mid1 mid2 status where o:
      "sign_in_of env s pre r1 r2 (su_values su) hs' mid1 mid2" "checker hs' = Some status" "200 \<le> status" "status < 300"
    by blast
  have "hs' = hs" using o(1) d(4) c(6) by (auto simp: sign_in_of_def)
  moreover have "es = pre @ [SignInFinish s su checker (Some subject) (Some code) n3 p3 t3] @ post" using c(1) by simp
  ultimately show "\<exists>pre su checker subject code n3 p3 t3 post r1 r2 hs mid1 mid2 status session.
       es = pre @ [SignInFinish s su checker (Some subject) (Some code) n3 p3 t3] @ post \<and>
       sign_in_of env s pre r1 r2 (su_values su) hs mid1 mid2 \<and>
       checker hs = Some status \<and> 200 \<le> status \<and> status < 300 \<and>
       gi_issuer i = gf_issuer (ge_config env) \<and> gi_subject i = SubjectPrefix (gs_id s) @ subject \<and>
       now < p3 + gf_form_ttl (ge_config env) \<and>
       uc_url call = gs_upstream_url s \<and> uc_header call = upstream_headers r session hs"
    using o c d by metis
qed

end
