(* ===== verification/GatewayBounds.thy ===== *)
theory GatewayBounds
  imports GatewayDelivery
begin

text \<open>
  What bounds the credential gateway: refused values are forgotten, an assertion serves one call,
  a sign-in page may ask the upstream five times, and every table has its size.
\<close>

section \<open>Refused values are forgotten\<close>

definition completes_key :: "gateway_env \<Rightarrow> store_key \<Rightarrow> gateway_event \<Rightarrow> bool" where
  "completes_key env k e \<longleftrightarrow>
     (\<exists>s su checker subject code now put_now t.
        e = SignInFinish s su checker (Some subject) (Some code) now put_now t \<and>
        validateForm s checker (Some subject) (su_values su) = FormAccepted subject \<and>
        k = (gf_issuer (ge_config env), SubjectPrefix (gs_id s) @ subject, gs_id s))"

lemma step_new_key:
  assumes "k \<in> fst ` set (ks_items (gy_store (snd (gateway_step env e st))))"
  shows "k \<in> fst ` set (ks_items (gy_store st)) \<or> completes_key env k e"
  using gateway_step_store [of env e st]
proof (elim disjE exE conjE)
  fix s su checker subject code now put_now t
  assume e: "e = SignInFinish s su checker (Some subject) (Some code) now put_now t"
    and v: "validateForm s checker (Some subject) (su_values su) = FormAccepted subject"
    and put: "gy_store (snd (gateway_step env e st)) = put_values (gf_issuer (ge_config env))
      (SubjectPrefix (gs_id s) @ subject) (gs_id s) (su_values su) put_now (gy_store st)"
  have "k = (gf_issuer (ge_config env), SubjectPrefix (gs_id s) @ subject, gs_id s) \<or> k \<in> fst ` set (ks_items (gy_store st))"
    using assms set_put_values unfolding put by fastforce
  then show ?thesis using e v unfolding completes_key_def by blast
qed (use assms in blast)

lemma run_new_key:
  assumes "k \<in> fst ` set (ks_items (gy_store (gateway_run env (es1 @ es2))))"
    and "k \<notin> fst ` set (ks_items (gy_store (gateway_run env es1)))"
  shows "\<exists>e \<in> set es2. completes_key env k e"
  using assms(1)
proof (induction es2 rule: rev_induct)
  case Nil
  then show ?case using assms(2) by simp
next
  case (snoc e es2)
  from snoc.prems have "k \<in> fst ` set (ks_items (gy_store (gateway_run env (es1 @ es2)))) \<or> completes_key env k e"
    using step_new_key [of k env e "gateway_run env (es1 @ es2)"]
    by (simp add: gateway_run_snoc flip: append_assoc)
  then show ?case using snoc.IH by auto
qed

lemma conclude_rejected:
  assumes "fst (gateway_step env (CallConclude s i (UpstreamResponse u)) st) \<noteq> OutNothing" "ur_status u = 401"
  shows "(gi_issuer i, gi_subject i, gs_id s) \<notin>
    fst ` set (ks_items (gy_store (snd (gateway_step env (CallConclude s i (UpstreamResponse u)) st))))"
  using assms by (auto simp: gateway_step_def call_conclude_def conclude_call_def delete_values_def set_del_item_iff split: if_splits)

text \<open>C17: Once the upstream answered a call with 401, the values it carried are never sent again: a
  later call of the same caller is forwarded only if since then a sign-in for the very same subject
  was completed and accepted by the upstream.\<close>

theorem rejected_values_forgotten:
  assumes "fst (gateway_step env (CallConclude s i (UpstreamResponse u)) (gateway_run env es1)) \<noteq> OutNothing"
    and "ur_status u = 401"
    and "fst (gateway_step env (CallDispatch s i r now)
          (gateway_run env (es1 @ [CallConclude s i (UpstreamResponse u)] @ es2))) = OutUpstream call"
  shows "\<exists>e \<in> set es2. completes_key env (gi_issuer i, gi_subject i, gs_id s) e"
proof (rule run_new_key)
  let ?k = "(gi_issuer i, gi_subject i, gs_id s)"
  show "?k \<in> fst ` set (ks_items (gy_store (gateway_run env ((es1 @ [CallConclude s i (UpstreamResponse u)]) @ es2))))"
    using dispatch_sent [OF assms(3)] by (force simp: image_iff)
  show "?k \<notin> fst ` set (ks_items (gy_store (gateway_run env (es1 @ [CallConclude s i (UpstreamResponse u)]))))"
    unfolding gateway_run_snoc by (rule conclude_rejected [OF assms(1,2)])
qed

section \<open>An assertion serves one call\<close>

definition grant_of :: "auth_calls \<Rightarrow> client_call \<Rightarrow> verified_claims option" where
  "grant_of calls r =
     (case bearer_token (header_get (cl_header r) ''Authorization'') of
        None \<Rightarrow> None
      | Some token \<Rightarrow> (case au_exchange calls token of Exchanged a \<Rightarrow> au_assertion calls a | _ \<Rightarrow> None))"

lemma call_accept_pending:
  assumes "fst (gateway_step env (CallAccept s calls r now) st) = OutPending" "grant_of calls r = Some grant"
  shows "\<exists>expiry. claim_number grant ''exp'' = Some expiry \<and>
    consume (claim_string grant ''jti'') (unix_time expiry) now (gy_seen st) =
      (True, gy_seen (snd (gateway_step env (CallAccept s calls r now) st)))"
proof -
  obtain i seen where run: "accept_call calls s r now (gy_seen st) = (Inr i, seen)"
    using assms(1) by (auto simp: gateway_step_def call_accept_def split: prod.splits sum.splits)
  from accept_call_Inr [OF this] obtain g expiry where "call_authorized calls s r i g"
      "claim_number g ''exp'' = Some expiry" "consume (claim_string g ''jti'') (unix_time expiry) now (gy_seen st) = (True, seen)"
    by blast
  moreover from this(1) have "grant_of calls r = Some g" by (auto simp: call_authorized_def grant_of_def)
  ultimately show ?thesis using assms(2) run by (auto simp: gateway_step_def call_accept_def)
qed

lemma consume_adds: "consume j x now seen = (True, seen1) \<Longrightarrow> (j, x) \<in> set seen1"
  by (auto simp: consume_def Let_def put_item_def split: if_splits)

lemma consume_keeps:
  "(j, x) \<in> set seen \<Longrightarrow> now < x \<Longrightarrow> (j, x) \<in> set (snd (consume jti expires now seen))"
  by (auto simp: consume_def Let_def set_put_item_iff map_of_eq_None_iff image_iff)

lemma consume_seen: "(j, x) \<in> set seen \<Longrightarrow> now < x \<Longrightarrow> consume j expires now seen = (False, snd (consume j expires now seen))"
  by (auto simp: consume_def Let_def map_of_eq_None_iff image_iff)

lemma authorize_call_seen:
  "snd (authorize_call calls s h now seen) = seen \<or>
   (\<exists>jti expires. snd (authorize_call calls s h now seen) = snd (consume jti expires now seen))"
proof (cases "authorize_call calls s h now seen")
  case (Pair out seen1)
  then have "seen1 = seen \<or> (\<exists>jti expires ok. consume jti expires now seen = (ok, seen1))"
    unfolding authorize_call_def Let_def
    by (auto split: option.splits verify_result.splits exchange_result.splits if_splits prod.splits bool.splits)
  then show ?thesis using Pair by (metis snd_conv)
qed

definition reads_before :: "time \<Rightarrow> gateway_event \<Rightarrow> bool" where
  "reads_before x e \<longleftrightarrow> (case e of CallAccept _ _ _ now \<Rightarrow> now < x | _ \<Rightarrow> True)"

lemma step_keeps_seen:
  assumes "(j, x) \<in> set (gy_seen st)" "reads_before x e"
  shows "(j, x) \<in> set (gy_seen (snd (gateway_step env e st)))"
proof (cases e)
  case (CallAccept s calls r now)
  have now: "now < x" using assms(2) by (simp add: CallAccept reads_before_def)
  have "snd (accept_call calls s r now seen) = seen \<or>
      snd (accept_call calls s r now seen) = snd (authorize_call calls s (header_get (cl_header r) ''Authorization'') now seen)" for seen
    by (auto simp: accept_call_def split: prod.split sum.split)
  then have "(j, x) \<in> set (snd (accept_call calls s r now (gy_seen st)))"
    using authorize_call_seen [of calls s _ now "gy_seen st"] consume_keeps [OF assms(1) now] assms(1)
    by metis
  then show ?thesis
    by (auto simp: CallAccept gateway_step_def call_accept_def split: prod.splits sum.splits)
qed (use assms in \<open>auto simp: gateway_step_def sign_in_start_def sign_in_submit_def sign_in_finish_def sign_in_token_def
    sign_in_user_def call_dispatch_def call_conclude_def Let_def split: prod.split sum.split\<close>)

text \<open>C18: Until an assertion of the authorization server expires, one call is accepted for it: of two
  accepted calls, whatever their services and whatever happens in between, the assertions have
  different identifiers.\<close>

theorem assertion_serves_one_call:
  assumes "fst (gateway_step env (CallAccept s1 c1 r1 t1) (gateway_run env es1)) = OutPending"
    and "grant_of c1 r1 = Some g1" and "claim_number g1 ''exp'' = Some expiry"
    and "fst (gateway_step env (CallAccept s2 c2 r2 t2) (gateway_run env (es1 @ [CallAccept s1 c1 r1 t1] @ es2))) = OutPending"
    and "grant_of c2 r2 = Some g2" and "list_all (reads_before (unix_time expiry)) es2" and "t2 < unix_time expiry"
  shows "claim_string g2 ''jti'' \<noteq> claim_string g1 ''jti''"
proof
  assume same: "claim_string g2 ''jti'' = claim_string g1 ''jti''"
  let ?e = "(claim_string g1 ''jti'', unix_time expiry)"
  have "?e \<in> set (gy_seen (gateway_run env (es1 @ [CallAccept s1 c1 r1 t1])))"
    using call_accept_pending [OF assms(1,2)] assms(3) unfolding gateway_run_snoc
    by (metis consume_adds option.inject)
  then have "?e \<in> set (gy_seen (gateway_run env ((es1 @ [CallAccept s1 c1 r1 t1]) @ es2)))"
    using assms(6)
  proof (induction es2 rule: rev_induct)
    case (snoc e es2)
    then show ?case
      using step_keeps_seen [of _ _ "gateway_run env ((es1 @ [CallAccept s1 c1 r1 t1]) @ es2)" e env]
      by (simp add: gateway_run_snoc flip: append_assoc)
  qed simp
  then have "?e \<in> set (gy_seen (gateway_run env (es1 @ [CallAccept s1 c1 r1 t1] @ es2)))" by simp
  from consume_seen [OF this assms(7)] call_accept_pending [OF assms(4,5)] same show False
    by (metis Pair_inject)
qed

section \<open>A page asks the upstream five times\<close>

text \<open>The submissions of the form of request \<open>rid\<close> that went to the upstream.\<close>

definition asks_upstream :: "gateway_env \<Rightarrow> gateway_service \<Rightarrow> gostring \<Rightarrow> gateway_event \<Rightarrow> credential_gateway_state \<Rightarrow> bool" where
  "asks_upstream env s rid e st \<longleftrightarrow>
     (case e of
        SignInSubmit s' now r \<Rightarrow>
          gs_id s' = gs_id s \<and> fst (gateway_step env e st) = OutPending \<and>
          (case ParseForm 16384 r of None \<Rightarrow> False | Some form \<Rightarrow> form_get form ''request'' = rid)
      | _ \<Rightarrow> False)"

fun validations :: "gateway_env \<Rightarrow> gateway_service \<Rightarrow> gostring \<Rightarrow> gateway_event list \<Rightarrow> credential_gateway_state \<Rightarrow> nat" where
  "validations env s rid [] st = 0"
| "validations env s rid (e # es) st =
     (if asks_upstream env s rid e st then 1 else 0) + validations env s rid es (snd (gateway_step env e st))"

definition opens_page :: "gateway_service \<Rightarrow> gostring \<Rightarrow> gateway_event \<Rightarrow> bool" where
  "opens_page s rid e \<longleftrightarrow>
     (case e of SignInStart s' rnd _ _ _ \<Rightarrow> gs_id s' = gs_id s \<and> ra_request rnd = Some rid | _ \<Rightarrow> False)"

definition attempts_left :: "gostring \<Rightarrow> login_provider \<Rightarrow> nat" where
  "attempts_left rid p = (case map_of (lv_requests p) rid of None \<Rightarrow> 0 | Some req \<Rightarrow> maxAttempts - lp_attempts req)"

definition requests_distinct :: "login_provider \<Rightarrow> bool" where
  "requests_distinct p \<longleftrightarrow> distinct (map fst (lv_requests p))"

lemma prune_distinct: "requests_distinct p \<Longrightarrow> requests_distinct (prune_logins now p)"
  by (simp add: requests_distinct_def prune_logins_def distinct_map_filter)

lemma prune_requests:
  assumes "requests_distinct p"
  shows "map_of (lv_requests (prune_logins now p)) rid =
    (case map_of (lv_requests p) rid of None \<Rightarrow> None | Some req \<Rightarrow> if now < lp_expires req then Some req else None)"
  using assms by (simp add: requests_distinct_def prune_logins_def map_of_filter_distinct split: option.split)

lemma prune_attempts: "requests_distinct p \<Longrightarrow> attempts_left rid (prune_logins now p) \<le> attempts_left rid p"
  by (simp add: attempts_left_def prune_requests split: option.split)

lemma authorize_attempts:
  assumes "requests_distinct p" "i \<noteq> Some rid"
  shows "attempts_left rid (snd (login_authorize cfg sha i c b t now r p)) \<le> attempts_left rid p \<and>
    requests_distinct (snd (login_authorize cfg sha i c b t now r p))"
proof -
  let ?xs = "lv_requests (snd (login_authorize cfg sha i c b t now r p))"
  have "?xs = lv_requests p \<or> ?xs = lv_requests (prune_logins now p) \<or>
      (\<exists>x req. i = Some x \<and> ?xs = put_item x req (lv_requests (prune_logins now p)))"
    by (auto simp: login_authorize_def Let_def split: option.split)
  then show ?thesis
    using assms prune_attempts [OF assms(1), of rid now] prune_distinct [OF assms(1), of now]
    by (auto simp: attempts_left_def requests_distinct_def intro: distinct_put_item)
qed

lemma authorize_distinct:
  "requests_distinct p \<Longrightarrow> requests_distinct (snd (login_authorize cfg sha i c b t now r p))"
  using prune_distinct [of p now]
  by (auto simp: login_authorize_def Let_def requests_distinct_def split: option.split intro!: distinct_put_item)

lemma finish_attempts:
  assumes "requests_distinct p" "approve_finish cfg sha commit out code now t su p st = (reply, p1, st1)"
  shows "attempts_left rid p1 \<le> attempts_left rid p \<and> requests_distinct p1"
proof -
  have "p1 = p \<or> lv_requests p1 = lv_requests (prune_logins now p) \<or>
      lv_requests p1 = del_item (su_id su) (lv_requests (prune_logins now p))"
    using assms(2) by (auto simp: approve_finish_def Let_def split: form_outcome.splits option.splits if_splits)
  then show ?thesis
    using assms(1) prune_attempts [OF assms(1), of rid now] prune_distinct [OF assms(1), of now]
    by (auto simp: attempts_left_def requests_distinct_def distinct_del_item)
qed

lemma finish_attempts_snd:
  "requests_distinct p \<Longrightarrow> attempts_left rid (fst (snd (approve_finish cfg sha commit out code now t su p st))) \<le>
    attempts_left rid p \<and> requests_distinct (fst (snd (approve_finish cfg sha commit out code now t su p st)))"
  using finish_attempts by (metis prod.collapse)

lemma token_attempts:
  assumes "requests_distinct p"
  shows "attempts_left rid (snd (login_token cfg sha a now t r p)) \<le> attempts_left rid p \<and>
    requests_distinct (snd (login_token cfg sha a now t r p))"
proof -
  have "lv_requests (snd (login_token cfg sha a now t r p)) = lv_requests p \<or>
      lv_requests (snd (login_token cfg sha a now t r p)) = lv_requests (prune_logins now p)"
    by (auto simp: login_token_def Let_def split: option.split)
  then show ?thesis
    using assms prune_attempts [OF assms, of rid now] prune_distinct [OF assms, of now]
    by (auto simp: attempts_left_def requests_distinct_def)
qed

lemma userinfo_attempts:
  assumes "requests_distinct p"
  shows "attempts_left rid (snd (login_userinfo now r p)) \<le> attempts_left rid p \<and>
    requests_distinct (snd (login_userinfo now r p))"
  using assms prune_attempts [OF assms, of rid now] prune_distinct [OF assms, of now]
  by (auto simp: login_userinfo_def Let_def split: option.split)

lemma approve_begin_attempts:
  assumes "requests_distinct p" "approve_begin cfg sha now r p = (out, p1)"
  shows "attempts_left rid p1 + (case out of Inl _ \<Rightarrow> 0 | Inr su \<Rightarrow> if su_id su = rid then 1 else 0) \<le> attempts_left rid p \<and>
    requests_distinct p1"
proof -
  let ?p = "prune_logins now p"
  have "(p1 = p \<or> p1 = ?p) \<and> (\<exists>reply. out = Inl reply) \<or>
      (\<exists>k req. map_of (lv_requests ?p) k = Some req \<and> lp_attempts req < maxAttempts \<and>
         p1 = ?p\<lparr>lv_requests := put_item k (req\<lparr>lp_attempts := lp_attempts req + 1\<rparr>) (lv_requests ?p)\<rparr> \<and>
         (case out of Inl _ \<Rightarrow> True | Inr su \<Rightarrow> su_id su = k))"
    using assms(2) by (auto simp: approve_begin_def Let_def not_le split: option.splits if_splits; blast)
  then show ?thesis
  proof (elim disjE exE conjE)
    fix k req
    assume k: "map_of (lv_requests ?p) k = Some req" "lp_attempts req < maxAttempts"
      "p1 = ?p\<lparr>lv_requests := put_item k (req\<lparr>lp_attempts := lp_attempts req + 1\<rparr>) (lv_requests ?p)\<rparr>"
      "case out of Inl _ \<Rightarrow> True | Inr su \<Rightarrow> su_id su = k"
    have "attempts_left rid p1 + (if rid = k then 1 else 0) \<le> attempts_left rid ?p"
      using k(1,2) unfolding k(3) attempts_left_def by (auto split: option.split)
    moreover have "requests_distinct p1"
      using prune_distinct [OF assms(1)] by (simp add: k(3) requests_distinct_def distinct_put_item)
    ultimately show ?thesis
      using prune_attempts [OF assms(1), of rid now] k(4) by (auto split: sum.split_asm if_splits sum.split)
  qed (use assms(1) prune_attempts prune_distinct in auto)
qed

lemma step_attempts:
  assumes "requests_distinct (gy_login st (gs_id s))" "\<not> opens_page s rid e"
  shows "attempts_left rid (gy_login (snd (gateway_step env e st)) (gs_id s)) + (if asks_upstream env s rid e st then 1 else 0)
      \<le> attempts_left rid (gy_login st (gs_id s)) \<and>
    requests_distinct (gy_login (snd (gateway_step env e st)) (gs_id s))"
proof (cases e)
  case (SignInStart s' rnd t now r)
  then show ?thesis
    using assms authorize_attempts [OF assms(1)]
    by (auto simp: opens_page_def case_prod_beta gateway_step_def sign_in_start_def asks_upstream_def case_prod_beta)
next
  case (SignInSubmit s' now r)
  show ?thesis
  proof (cases "gs_id s' = gs_id s")
    case same: True
    obtain out p1 where run: "approve_begin (login_of env s') (ge_sha256 env) now r (gy_login st (gs_id s)) = (out, p1)"
      by fastforce
    have su: "su_id su = form_get form ''request''" if "out = Inr su" "ParseForm 16384 r = Some form" for su form
      using run that by (auto simp: approve_begin_def Let_def split: option.splits if_splits)
    show ?thesis
      using approve_begin_attempts [OF assms(1) run, of rid] run su same
      by (auto simp: SignInSubmit gateway_step_def sign_in_submit_def asks_upstream_def
          split: sum.splits option.splits if_splits)
  qed (use assms(1) in \<open>auto simp: SignInSubmit gateway_step_def sign_in_submit_def asks_upstream_def
      split: prod.split sum.split\<close>)
next
  case (SignInFinish s' su checker random code now put_now t)
  then show ?thesis
    using assms(1)
    by (auto simp: gateway_step_def sign_in_finish_def asks_upstream_def case_prod_beta finish_attempts_snd)
next
  case (SignInToken s' a now t r)
  then show ?thesis
    using assms token_attempts [OF assms(1)]
    by (auto simp: gateway_step_def sign_in_token_def asks_upstream_def case_prod_beta)
next
  case (SignInUser s' now r)
  then show ?thesis
    using assms userinfo_attempts [OF assms(1)]
    by (auto simp: gateway_step_def sign_in_user_def asks_upstream_def case_prod_beta)
qed (use assms(1) in \<open>auto simp: gateway_step_def call_accept_def call_dispatch_def call_conclude_def asks_upstream_def Let_def
    split: prod.split sum.split\<close>)

text \<open>C24: However often the form of one sign-in page is sent, and whatever else happens, at most five
  submissions reach the upstream: the count holds from any reachable state on, until a new page
  gets the same identifier.\<close>

theorem validations_rationed:
  assumes "list_all (\<lambda>e. \<not> opens_page s rid e) es"
  shows "validations env s rid es (gateway_run env es0) \<le> maxAttempts"
proof -
  have dist: "requests_distinct (gy_login (gateway_run env es0) (gs_id s))"
  proof (induction es0 rule: rev_induct)
    case Nil
    show ?case by (simp add: gateway_run_def gateway_start_def NewLoginProvider_def requests_distinct_def)
  next
    case (snoc e es0)
    show ?case
    proof (cases "opens_page s rid e")
      case True
      then obtain s' rnd t now r where "e = SignInStart s' rnd t now r" by (auto simp: opens_page_def split: gateway_event.splits)
      then show ?thesis
        using snoc authorize_distinct
        by (auto simp: gateway_run_snoc gateway_step_def sign_in_start_def case_prod_beta)
    qed (use step_attempts [OF snoc] in \<open>simp add: gateway_run_snoc\<close>)
  qed
  have "validations env s rid es st \<le> attempts_left rid (gy_login st (gs_id s))"
    if "requests_distinct (gy_login st (gs_id s))" for st
    using that assms
  proof (induction es arbitrary: st)
    case (Cons e es)
    from Cons.prems step_attempts [OF Cons.prems(1), of rid e env] Cons.IH [of "snd (gateway_step env e st)"]
    show ?case by auto
  qed simp
  from this [OF dist] show ?thesis
    by (auto simp: attempts_left_def split: option.splits)
qed

section \<open>Table sizes\<close>

definition provider_bounded :: "login_provider \<Rightarrow> bool" where
  "provider_bounded p \<longleftrightarrow>
     length (lv_requests p) \<le> maxPending \<and> length (lv_codes p) \<le> maxPending \<and> length (lv_tokens p) \<le> maxPending"

definition gateway_bounded :: "credential_gateway_state \<Rightarrow> bool" where
  "gateway_bounded st \<longleftrightarrow> (\<forall>k. provider_bounded (gy_login st k)) \<and> form_store_ok (gy_store st)"

lemma prune_bounded: "provider_bounded p \<Longrightarrow> provider_bounded (prune_logins now p)"
  by (auto simp: provider_bounded_def prune_logins_def intro: order_trans [OF length_filter_le])

lemma put_bounded: "length xs < n \<Longrightarrow> length (put_item k v xs) \<le> n"
  using length_put_item [of k v xs] by simp

lemma del_bounded: "length xs \<le> n \<Longrightarrow> length (del_item k xs) \<le> n"
  using length_del_item [of k xs] by simp

lemma put_known_bounded: "map_of xs k = Some w \<Longrightarrow> length xs \<le> n \<Longrightarrow> length (put_item k v xs) \<le> n"
  using length_put_known by (rule order_trans)

lemmas table_bounds = prune_bounded put_bounded del_bounded put_known_bounded

lemma provider_ops_bounded:
  assumes "provider_bounded p"
  shows "provider_bounded (snd (login_authorize cfg sha i c b t now r p))"
    and "provider_bounded (snd (approve_begin cfg sha now r p))"
    and "provider_bounded (fst (snd (approve_finish cfg sha commit out code now t su p store)))"
    and "provider_bounded (snd (login_token cfg sha code now t r p))"
    and "provider_bounded (snd (login_userinfo now r p))"
proof -
  have p: "provider_bounded (prune_logins now p)" for now by (rule prune_bounded [OF assms])
  note len = p [unfolded provider_bounded_def]
  show "provider_bounded (snd (login_authorize cfg sha i c b t now r p))"
    using assms p len [of now]
    by (auto simp: login_authorize_def Let_def split: option.split) (auto simp: provider_bounded_def intro: put_bounded)
  show "provider_bounded (snd (approve_begin cfg sha now r p))"
    using assms p len [of now]
    by (auto simp: approve_begin_def Let_def split: option.split) (auto simp: provider_bounded_def intro: put_known_bounded)
  show "provider_bounded (fst (snd (approve_finish cfg sha commit out code now t su p store)))"
    using assms p len [of now]
    by (auto simp: approve_finish_def Let_def split: option.split form_outcome.split)
      (auto simp: provider_bounded_def intro: put_bounded del_bounded)
  show "provider_bounded (snd (login_token cfg sha code now t r p))"
    using assms p len [of now]
    by (auto simp: login_token_def Let_def split: option.split) (auto simp: provider_bounded_def intro: put_bounded del_bounded)
  show "provider_bounded (snd (login_userinfo now r p))"
    using assms p by (auto simp: login_userinfo_def Let_def split: option.split)
qed

lemma conclude_call_ok: "form_store_ok store \<Longrightarrow> form_store_ok (snd (conclude_call mac s i answer store))"
  by (auto simp: conclude_call_def Let_def delete_values_ok split: upstream_answer.split)

lemma dispatch_call_ok: "form_store_ok store \<Longrightarrow> form_store_ok (snd (dispatch_call cfg mac s i r now store))"
  using dispatch_call_store [of cfg mac s i r now store] get_values_ok by metis

lemma finish_store_ok:
  assumes "form_store_ok store"
  shows "form_store_ok (snd (snd (approve_finish cfg sha (commit_values gc s put_now) out code now t su p store)))"
  using assms
  by (auto simp: approve_finish_def commit_values_def Let_def put_values_ok split: form_outcome.split option.split)

lemma gateway_step_bounded: "gateway_bounded st \<Longrightarrow> gateway_bounded (snd (gateway_step env e st))"
  by (cases e)
    (simp_all add: gateway_bounded_def gateway_step_def sign_in_start_def sign_in_submit_def sign_in_finish_def sign_in_token_def
      sign_in_user_def call_accept_def call_dispatch_def call_conclude_def case_prod_beta Let_def provider_ops_bounded
      conclude_call_ok dispatch_call_ok finish_store_ok split: sum.split)

interpretation gateway_machine: step_machine "\<lambda>e st. snd (gateway_step env e st)" gateway_bounded
  by unfold_locales (rule gateway_step_bounded)

text \<open>C25: Whatever requests arrive, no service ever has more than 200 pending sign-ins, 200 codes or
  200 tokens, and the store keeps its configured number of entries, each under its own key.\<close>

theorem gateway_tables_bounded:
  "gateway_bounded (gateway_run env es)"
  unfolding gateway_run_def
  by (rule gateway_machine.run_inv)
    (simp add: gateway_bounded_def gateway_start_def provider_bounded_def NewLoginProvider_def)

end
