(* ===== verification/SignInDemo.thy ===== *)
theory SignInDemo
  imports GatewayBounds
begin

text \<open>
  A complete sign-in on a small gateway, its call and its refusal: the guarantees apply to runs
  that reach their end.
\<close>

section \<open>The gateway and the requests\<close>

definition demo_service :: gateway_service where
  "demo_service =
     \<lparr>gs_id = ''s'', gs_server_name = ''s'', gs_server_namespace = ''n'', gs_resource_url = ''https://h/s'',
      gs_resource_path = ''/s'', gs_upstream_url = ''https://u/s'', gs_validation_url = ''https://u/s/v'',
      gs_required_scopes = [], gs_client_id = ''c'', gs_key_id = ''k'',
      gs_fields = [\<lparr>ff_name = ''f'', ff_label = ''F'', ff_secret = True\<rparr>], gs_headers = [(''X-Key'', ''f'')]\<rparr>"

definition demo_config :: credential_config where
  "demo_config =
     \<lparr>gf_issuer = ''i'', gf_token_endpoint = ''i/token'', gf_jwks_uri = ''i/jwks'', gf_insecure = False,
      gf_auth_timeout = 0, gf_prefix = [], gf_session_key = [], gf_form_ttl = minute, gf_form_max = 9,
      gf_max_request = 100, gf_connect_timeout = 0, gf_header_timeout = 0, gf_listen_host = [], gf_listen_port = 0,
      gf_services = [demo_service]\<rparr>"

definition demo_env :: gateway_env where
  "demo_env =
     \<lparr>ge_config = demo_config,
      ge_parse = (\<lambda>_. Some \<lparr>pu_scheme = ''https'', pu_host = ''h'', pu_path = ''/s'', pu_text = ''https://h/s''\<rparr>),
      ge_sha256 = (\<lambda>_. replicate 32 (CHR 0x00)), ge_mac = (\<lambda>_. ''mac'')\<rparr>"

definition demo_request :: "gostring \<Rightarrow> parameters \<Rightarrow> parameters \<Rightarrow> login_request" where
  "demo_request m q form =
     \<lparr>lr_method = m, lr_query = q, lr_origin = ''https://h'', lr_authorization = ''Bearer a'',
      lr_cookies = [(cookieName (ge_sha256 demo_env) ''q'', ''b'')], lr_length = 0, lr_form = Some form\<rparr>"

definition demo_query :: parameters where
  "demo_query =
     [(''client_id'', ''login-s''), (''redirect_uri'', ''i/identity/callback''), (''response_type'', ''code''),
      (''state'', ''z''), (''code_challenge_method'', ''S256''),
      (''code_challenge'', pkce_challenge (ge_sha256 demo_env) [])]"

definition demo_checker :: "(gostring \<times> gostring) list \<Rightarrow> nat option" where
  "demo_checker hs = (if hs = [(''X-Key'', ''v'')] then Some 200 else None)"

definition demo_pending :: "nat \<Rightarrow> login_pending" where
  "demo_pending n =
     \<lparr>lp_redirect = ''i/identity/callback'', lp_state = ''z'', lp_challenge = pkce_challenge (ge_sha256 demo_env) [],
      lp_csrf = ''c'', lp_binding = ''b'', lp_attempts = n, lp_expires = requestTTL\<rparr>"

definition demo_submission :: submission where
  "demo_submission = \<lparr>su_id = ''q'', su_request = demo_pending 1, su_values = [(''f'', ''v'')]\<rparr>"

definition demo_start :: gateway_event where
  "demo_start = SignInStart demo_service \<lparr>ra_request = Some ''q'', ra_csrf = Some ''c'', ra_binding = Some ''b''\<rparr> 0 0
     (demo_request ''GET'' demo_query [])"

definition demo_submit :: gateway_event where
  "demo_submit = SignInSubmit demo_service 0 (demo_request ''POST'' [] [(''request'', ''q''), (''csrf'', ''c''), (''f'', ''v'')])"

definition demo_finish :: gateway_event where
  "demo_finish = SignInFinish demo_service demo_submission demo_checker (Some ''u'') (Some ''d'') 0 0 0"

definition demo_token :: gateway_event where
  "demo_token = SignInToken demo_service (Some ''a'') 0 0 (demo_request ''POST'' []
     [(''client_id'', ''login-s''), (''grant_type'', ''authorization_code''), (''code'', ''d''),
      (''redirect_uri'', ''i/identity/callback''), (''code_verifier'', replicate 43 (CHR ''x''))])"

section \<open>The sign-in\<close>

lemma demo_login:
  "login_of demo_env demo_service =
     \<lparr>lc_client_id = ''login-s'', lc_origin = ''https://h'', lc_base_path = ''/s'', lc_callback = ''i/identity/callback'',
      lc_fields = [\<lparr>ff_name = ''f'', ff_label = ''F'', ff_secret = True\<rparr>], lc_server_name = ''s'', lc_namespace = ''n'',
      lc_upstream_host = ''h''\<rparr>"
  by (simp add: loginProvider_def demo_env_def demo_service_def demo_config_def LoginClientID_def origin_of_def)

lemma demo_ids: "gs_id demo_service = ''s''" "ge_config demo_env = demo_config" "gf_issuer demo_config = ''i''"
  "gf_form_ttl demo_config = minute" "gf_form_max demo_config = 9"
  by (simp_all add: demo_service_def demo_env_def demo_config_def)

lemmas demo_logins = demo_login demo_login [unfolded demo_ids(2)]

lemma demo_challenge: "raw_url_decoded_length (pkce_challenge (ge_sha256 demo_env) v) = Some 32"
  by (simp add: pkce_challenge_def decoded_length_encode demo_env_def)

lemma demo_query_ok: "authorize_query_ok (login_of demo_env demo_service) demo_query"
  unfolding authorize_query_ok_def demo_login by (simp add: demo_query_def form_get_def demo_challenge)

lemma demo_opened:
  "gateway_run demo_env [demo_start] = (gateway_start demo_config)\<lparr>gy_login := (\<lambda>_. NewLoginProvider)(''s'' :=
     \<lparr>lv_requests = [(''q'', demo_pending 0)], lv_codes = [], lv_tokens = []\<rparr>)\<rparr>"
  using demo_query_ok
  by (simp add: gateway_run_def demo_start_def gateway_step_def sign_in_start_def login_authorize_def demo_request_def
      demo_ids gateway_start_def set_login_def NewLoginProvider_def prune_logins_def maxPending_def put_item_def demo_pending_def
      Let_def) (simp add: demo_query_def form_get_def)

lemma demo_ttls: "0 < requestTTL" "0 < codeTTL" "0 < tokenTTL" "0 < minute"
  by (simp_all add: requestTTL_def codeTTL_def tokenTTL_def minute_def second_def)

lemma demo_submitted:
  "gateway_run demo_env [demo_start, demo_submit] =
     (gateway_run demo_env [demo_start])\<lparr>gy_login := (\<lambda>_. NewLoginProvider)(''s'' :=
        \<lparr>lv_requests = [(''q'', demo_pending 1)], lv_codes = [], lv_tokens = []\<rparr>),
      gy_submissions := [(''s'', demo_submission)]\<rparr>"
proof -
  have "gateway_run demo_env [demo_start, demo_submit] = snd (gateway_step demo_env demo_submit (gateway_run demo_env [demo_start]))"
    using gateway_run_snoc [of demo_env "[demo_start]" demo_submit] by simp
  then show ?thesis
    unfolding demo_opened
    by (simp add: demo_submit_def gateway_step_def sign_in_submit_def approve_begin_def demo_request_def demo_logins demo_ids
        ParseForm_def form_get_def prune_logins_def demo_pending_def demo_ttls maxAttempts_def submitted_values_def maxFieldSize_def
        put_item_def set_login_def gateway_start_def demo_submission_def Let_def)
qed

lemma demo_validated: "validateForm demo_service demo_checker (Some ''u'') [(''f'', ''v'')] = FormAccepted ''u''"
proof -
  have "ValidateInjectedValue ''v''" by (simp add: ValidateInjectedValue_def trim_space_def is_space_def)
  then show ?thesis
    by (simp add: validateForm_def demo_service_def render_def form_get_def put_item_def validateUpstream_def demo_checker_def)
qed

lemma demo_finished:
  "gateway_run demo_env [demo_start, demo_submit, demo_finish] =
     (gateway_run demo_env [demo_start])\<lparr>gy_login := (\<lambda>_. NewLoginProvider)(''s'' :=
        \<lparr>lv_requests = [], lv_codes = [(''d'', \<lparr>lg_subject = ''u'', lg_challenge = pkce_challenge (ge_sha256 demo_env) [],
           lg_redirect = ''i/identity/callback'', lg_expires = codeTTL\<rparr>)], lv_tokens = []\<rparr>),
      gy_store := \<lparr>ks_ttl = minute, ks_max = 9,
        ks_items = [((''i'', ''form-s:u'', ''s''), \<lparr>sy_values = [(''f'', ''v'')], sy_expires = minute, sy_seq = 1\<rparr>)], ks_seq = 1\<rparr>\<rparr>"
proof -
  have "gateway_run demo_env [demo_start, demo_submit, demo_finish] =
      snd (gateway_step demo_env demo_finish (gateway_run demo_env [demo_start, demo_submit]))"
    using gateway_run_snoc [of demo_env "[demo_start, demo_submit]" demo_finish] by simp
  then show ?thesis
    unfolding demo_submitted demo_opened
    by (simp add: demo_finish_def gateway_step_def sign_in_finish_def approve_finish_def demo_logins demo_ids demo_validated
        prune_logins_def demo_ttls demo_pending_def maxPending_def commit_values_def put_values_def new_store_def
        SubjectPrefix_def store_limit_def evict_oldest.simps put_item_def del_item_def set_login_def gateway_start_def
        demo_submission_def Let_def)
qed

lemma demo_tokened:
  "gy_login (gateway_run demo_env [demo_start, demo_submit, demo_finish, demo_token]) ''s'' =
     \<lparr>lv_requests = [], lv_codes = [], lv_tokens = [(''a'', \<lparr>lt_subject = ''u'', lt_expires = tokenTTL\<rparr>)]\<rparr>"
proof -
  have "gateway_run demo_env [demo_start, demo_submit, demo_finish, demo_token] =
      snd (gateway_step demo_env demo_token (gateway_run demo_env [demo_start, demo_submit, demo_finish]))"
    using gateway_run_snoc [of demo_env "[demo_start, demo_submit, demo_finish]" demo_token] by simp
  moreover have "pkce_challenge (ge_sha256 demo_env) (replicate 43 (CHR ''x'')) = pkce_challenge (ge_sha256 demo_env) []"
    by (simp add: pkce_challenge_def demo_env_def)
  ultimately show ?thesis
    unfolding demo_finished
    by (simp add: demo_token_def gateway_step_def sign_in_token_def login_token_def demo_logins demo_ids demo_request_def
        ParseForm_def form_get_def prune_logins_def demo_ttls maxPending_def put_item_def del_item_def set_login_def Let_def)
qed

lemma demo_configured:
  "configured demo_env [demo_start, demo_submit, demo_finish, demo_token]"
  by (simp add: configured_def demo_ids demo_start_def demo_submit_def demo_finish_def demo_token_def event_service_def
      demo_config_def)

theorem sign_in_bound_to_browser_instance:
  "\<exists>pre su checker code n3 p3 t3 mid access n4 t4 r4 post.
     [demo_start, demo_submit, demo_finish, demo_token] =
       pre @ [SignInFinish demo_service su checker (Some ''u'') (Some code) n3 p3 t3] @ mid @
         [SignInToken demo_service (Some access) n4 t4 r4] @ post"
proof -
  have "bearer_token (lr_authorization (demo_request ''GET'' [] [])) = Some ''a''"
    unfolding demo_request_def by (simp, code_simp)
  then have "fst (gateway_step demo_env (SignInUser demo_service 0 (demo_request ''GET'' [] []))
      (gateway_run demo_env [demo_start, demo_submit, demo_finish, demo_token])) = OutLogin (LoginSubject ''u'')"
    by (simp add: gateway_step_def sign_in_user_def login_userinfo_def demo_ids demo_tokened prune_logins_def demo_ttls Let_def
        demo_request_def [of "''GET''"])
  from sign_in_bound_to_browser [OF demo_configured _ this] show ?thesis
    by (simp add: demo_ids demo_config_def) blast
qed

section \<open>A call\<close>

definition demo_claims :: "gostring \<Rightarrow> verified_claims" where
  "demo_claims jti =
     \<lparr>vc_issuer = ''i'', vc_subject = ''form-s:u'',
      vc_raw = [(''sid'', ClaimString ''x''), (''resource'', ClaimString ''https://h/s''),
        (''token_use'', ClaimString ''credential_access''), (''jti'', ClaimString jti), (''exp'', ClaimNumber 0)]\<rparr>"

definition demo_calls :: "gostring \<Rightarrow> auth_calls" where
  "demo_calls jti =
     \<lparr>au_verify = (\<lambda>_. VerifyOk (demo_claims jti)), au_exchange = (\<lambda>_. Exchanged ''x''),
      au_assertion = (\<lambda>_. Some (demo_claims jti))\<rparr>"

definition demo_call :: client_call where
  "demo_call = \<lparr>cl_method = ''GET'', cl_header = [(''Authorization'', [''Bearer t''])], cl_length = 0, cl_body = []\<rparr>"

definition demo_identity :: gw_identity where
  "demo_identity = \<lparr>gi_issuer = ''i'', gi_subject = ''form-s:u''\<rparr>"

lemma demo_bearer: "bearer_token (header_get (cl_header demo_call) ''Authorization'') = Some ''t''"
  by code_simp

lemma demo_accept:
  assumes "consume jti (unix_time 0) 0 seen = (True, seen1)" "jti \<noteq> []"
  shows "accept_call (demo_calls jti) demo_service demo_call 0 seen = (Inr demo_identity, seen1)"
  using assms demo_bearer
  by (simp add: accept_call_def method_allowed_def authorize_call_def demo_calls_def demo_claims_def claim_string_def claim_is_def
      claim_number_def demo_service_def demo_identity_def Let_def) (simp add: demo_call_def)

lemma demo_consume: "consume j (unix_time 0) 0 [] = (True, [(j, unix_time 0)])"
  by (simp add: consume_def put_item_def)

lemma demo_accepted:
  "gateway_step demo_env (CallAccept demo_service (demo_calls ''j'') demo_call 0)
      (gateway_run demo_env [demo_start, demo_submit, demo_finish]) =
   (OutPending, (gateway_run demo_env [demo_start, demo_submit, demo_finish])\<lparr>gy_seen := [(''j'', unix_time 0)],
      gy_authorized := [(''s'', demo_identity, demo_call)]\<rparr>)"
proof -
  have "gy_seen (gateway_run demo_env [demo_start, demo_submit, demo_finish]) = []"
    "gy_authorized (gateway_run demo_env [demo_start, demo_submit, demo_finish]) = []"
    unfolding demo_finished demo_opened by (simp_all add: gateway_start_def)
  then show ?thesis
    by (simp add: gateway_step_def call_accept_def demo_accept demo_consume demo_ids)
qed

definition demo_call_run :: "gateway_event list" where
  "demo_call_run = [demo_start, demo_submit, demo_finish, CallAccept demo_service (demo_calls ''j'') demo_call 0]"

lemma demo_call_run_state:
  "gateway_run demo_env demo_call_run = (gateway_run demo_env [demo_start, demo_submit, demo_finish])\<lparr>gy_seen := [(''j'', unix_time 0)],
     gy_authorized := [(''s'', demo_identity, demo_call)]\<rparr>"
  using gateway_run_snoc [of demo_env "[demo_start, demo_submit, demo_finish]"
      "CallAccept demo_service (demo_calls ''j'') demo_call 0"] demo_accepted
  by (simp add: demo_call_run_def)

lemma demo_render: "render (gs_headers demo_service) [(''f'', ''v'')] = Some [(''X-Key'', ''v'')]"
proof -
  have "ValidateInjectedValue ''v''" by (simp add: ValidateInjectedValue_def trim_space_def is_space_def)
  then show ?thesis by (simp add: demo_service_def render_def put_item_def)
qed

lemma demo_sent:
  "gateway_step demo_env (CallDispatch demo_service demo_identity demo_call 0) (gateway_run demo_env demo_call_run) =
     (OutUpstream \<lparr>uc_method = ''GET'', uc_url = ''https://u/s'',
        uc_header = upstream_headers demo_call [] [(''X-Key'', ''v'')], uc_body = []\<rparr>,
      (gateway_run demo_env demo_call_run)\<lparr>gy_authorized := [], gy_sent := [(''s'', demo_identity)]\<rparr>)"
proof -
  have h: "header_get (cl_header demo_call) sessionHeader = []" by code_simp
  have c: "call_checks demo_config (ge_mac demo_env) demo_service demo_identity demo_call = Inr ([], [])"
    unfolding call_checks_def h by (simp add: demo_call_def demo_config_def)
  have s: "gy_sent (gateway_run demo_env demo_call_run) = []"
    unfolding demo_call_run_state demo_finished demo_opened by (simp add: gateway_start_def)
  have g: "get_values ''i'' ''form-s:u'' ''s'' 0 (gy_store (gateway_run demo_env demo_call_run)) =
      (Some [(''f'', ''v'')], gy_store (gateway_run demo_env demo_call_run))"
    unfolding demo_call_run_state demo_finished by (simp add: get_values_def Let_def demo_ttls not_le)
  have a: "gy_authorized (gateway_run demo_env demo_call_run) = [(''s'', demo_identity, demo_call)]"
    unfolding demo_call_run_state by simp
  have i: "gi_issuer demo_identity = ''i''" "gi_subject demo_identity = ''form-s:u''" "cl_method demo_call = ''GET''"
    "gs_upstream_url demo_service = ''https://u/s''"
    by (simp_all add: demo_identity_def demo_call_def demo_service_def)
  show ?thesis
    by (simp add: gateway_step_def call_dispatch_def a dispatch_call_def c demo_ids i g demo_render s Let_def)
qed

theorem injected_values_signed_in_instance:
  "\<exists>pre su checker code n3 p3 t3 post.
     demo_call_run = pre @ [SignInFinish demo_service su checker (Some ''u'') (Some code) n3 p3 t3] @ post"
proof -
  have conf: "configured demo_env demo_call_run"
    by (simp add: configured_def demo_call_run_def event_service_def demo_ids demo_start_def demo_submit_def demo_finish_def
        demo_config_def)
  have "fst (gateway_step demo_env (CallDispatch demo_service demo_identity demo_call 0) (gateway_run demo_env demo_call_run)) =
      OutUpstream \<lparr>uc_method = ''GET'', uc_url = ''https://u/s'',
        uc_header = upstream_headers demo_call [] [(''X-Key'', ''v'')], uc_body = []\<rparr>"
    by (simp add: demo_sent)
  from injected_values_signed_in [OF conf _ this] obtain pre su checker subject code n3 p3 t3 post where
    "demo_call_run = pre @ [SignInFinish demo_service su checker (Some subject) (Some code) n3 p3 t3] @ post"
    "gi_subject demo_identity = SubjectPrefix (gs_id demo_service) @ subject"
    by (auto simp: demo_ids demo_config_def)
  moreover from this(2) have "subject = ''u''" by (simp add: demo_identity_def demo_ids SubjectPrefix_def)
  ultimately show ?thesis by blast
qed

section \<open>The assertion and the page\<close>

theorem assertion_serves_one_call_instance:
  "fst (gateway_step demo_env (CallAccept demo_service (demo_calls ''k'') demo_call 0) (gateway_run demo_env demo_call_run)) = OutPending \<and>
   claim_string (demo_claims ''k'') ''jti'' \<noteq> claim_string (demo_claims ''j'') ''jti''"
proof -
  have g: "grant_of (demo_calls x) demo_call = Some (demo_claims x)" for x
    by (simp add: grant_of_def demo_bearer demo_calls_def)
  have e: "claim_number (demo_claims ''j'') ''exp'' = Some 0" by (simp add: demo_claims_def claim_number_def)
  have t: "(0::int) < unix_time 0" by (simp add: unix_time_def second_def)
  have "consume ''k'' (unix_time 0) 0 [(''j'', unix_time 0)] = (True, [(''j'', unix_time 0), (''k'', unix_time 0)])"
    using t by (simp add: consume_def put_item_def)
  then have second_call: "fst (gateway_step demo_env (CallAccept demo_service (demo_calls ''k'') demo_call 0)
      (gateway_run demo_env demo_call_run)) = OutPending"
    by (simp add: demo_call_run_state gateway_step_def call_accept_def demo_accept)
  have first_call: "fst (gateway_step demo_env (CallAccept demo_service (demo_calls ''j'') demo_call 0)
      (gateway_run demo_env [demo_start, demo_submit, demo_finish])) = OutPending"
    by (simp add: demo_accepted)
  have "gateway_run demo_env ([demo_start, demo_submit, demo_finish] @
      [CallAccept demo_service (demo_calls ''j'') demo_call 0] @ []) = gateway_run demo_env demo_call_run"
    by (simp add: demo_call_run_def)
  with assertion_serves_one_call [OF first_call g e, of demo_service "demo_calls ''k''" demo_call 0 "[]", OF _ g] second_call t
  show ?thesis by simp
qed

theorem validations_rationed_instance:
  "validations demo_env demo_service ''q'' [demo_submit] (gateway_run demo_env [demo_start]) \<le> maxAttempts"
  by (rule validations_rationed) (simp add: demo_submit_def opens_page_def)

section \<open>A refusal\<close>

definition demo_login_grant :: login_grant where
  "demo_login_grant = \<lparr>lg_subject = ''u'', lg_challenge = pkce_challenge (ge_sha256 demo_env) [],
     lg_redirect = ''i/identity/callback'', lg_expires = codeTTL\<rparr>"

abbreviation demo_fold :: "gateway_event list \<Rightarrow> credential_gateway_state \<Rightarrow> credential_gateway_state" where
  "demo_fold es st \<equiv> fold (\<lambda>e st. snd (gateway_step demo_env e st)) es st"

lemma demo_again:
  assumes "gy_login st ''s'' = \<lparr>lv_requests = [], lv_codes = [(''d'', demo_login_grant)], lv_tokens = []\<rparr>" "gy_submissions st = []"
    and "gy_store st = \<lparr>ks_ttl = minute, ks_max = 9, ks_items = [], ks_seq = 1\<rparr>"
  shows "gy_store (demo_fold [demo_start, demo_submit, demo_finish] st) =
      \<lparr>ks_ttl = minute, ks_max = 9,
        ks_items = [((''i'', ''form-s:u'', ''s''), \<lparr>sy_values = [(''f'', ''v'')], sy_expires = minute, sy_seq = 2\<rparr>)], ks_seq = 2\<rparr> \<and>
    gy_seen (demo_fold [demo_start, demo_submit, demo_finish] st) = gy_seen st \<and>
    gy_authorized (demo_fold [demo_start, demo_submit, demo_finish] st) = gy_authorized st"
proof -
  have g: "0 < lg_expires demo_login_grant" by (simp add: demo_login_grant_def demo_ttls)
  have 1: "snd (gateway_step demo_env demo_start st) = st\<lparr>gy_login := (gy_login st)(''s'' :=
      \<lparr>lv_requests = [(''q'', demo_pending 0)], lv_codes = [(''d'', demo_login_grant)], lv_tokens = []\<rparr>)\<rparr>"
    using demo_query_ok assms(1) g
    by (simp add: demo_start_def gateway_step_def sign_in_start_def login_authorize_def demo_request_def
        demo_ids set_login_def prune_logins_def maxPending_def put_item_def demo_pending_def Let_def)
      (simp add: demo_query_def form_get_def)
  have 2: "snd (gateway_step demo_env demo_submit (st\<lparr>gy_login := (gy_login st)(''s'' :=
      \<lparr>lv_requests = [(''q'', demo_pending 0)], lv_codes = [(''d'', demo_login_grant)], lv_tokens = []\<rparr>)\<rparr>)) =
      st\<lparr>gy_login := (gy_login st)(''s'' :=
        \<lparr>lv_requests = [(''q'', demo_pending 1)], lv_codes = [(''d'', demo_login_grant)], lv_tokens = []\<rparr>),
        gy_submissions := [(''s'', demo_submission)]\<rparr>"
    using g assms(2)
    by (simp add: demo_submit_def gateway_step_def sign_in_submit_def approve_begin_def demo_request_def demo_logins demo_ids
        ParseForm_def form_get_def prune_logins_def demo_pending_def demo_ttls maxAttempts_def submitted_values_def maxFieldSize_def
        put_item_def set_login_def demo_submission_def Let_def)
  show ?thesis
    using g assms(3)
    by (simp add: 1 2, simp add: demo_finish_def gateway_step_def sign_in_finish_def approve_finish_def demo_logins demo_ids
        demo_validated prune_logins_def demo_ttls demo_pending_def maxPending_def commit_values_def put_values_def
        SubjectPrefix_def store_limit_def evict_oldest.simps put_item_def del_item_def set_login_def
        demo_submission_def Let_def)
qed

definition demo_refusal :: gateway_event where
  "demo_refusal = CallConclude demo_service demo_identity (UpstreamResponse \<lparr>ur_status = 401, ur_header = [], ur_length = 0\<rparr>)"

definition demo_dispatch :: gateway_event where
  "demo_dispatch = CallDispatch demo_service demo_identity demo_call 0"

definition demo_after :: "gateway_event list" where
  "demo_after = [demo_start, demo_submit, demo_finish, CallAccept demo_service (demo_calls ''k'') demo_call 0]"

lemma demo_refused:
  "gateway_step demo_env demo_refusal (gateway_run demo_env (demo_call_run @ [demo_dispatch])) =
     (OutReply (CallFailed 502 ''upstream_credentials_rejected'' NoChallenge),
      (gateway_run demo_env demo_call_run)\<lparr>gy_authorized := [], gy_sent := [],
        gy_store := \<lparr>ks_ttl = minute, ks_max = 9, ks_items = [], ks_seq = 1\<rparr>\<rparr>)"
proof -
  have "gy_store (gateway_run demo_env demo_call_run) = \<lparr>ks_ttl = minute, ks_max = 9,
      ks_items = [((''i'', ''form-s:u'', ''s''), \<lparr>sy_values = [(''f'', ''v'')], sy_expires = minute, sy_seq = 1\<rparr>)], ks_seq = 1\<rparr>"
    unfolding demo_call_run_state demo_finished by simp
  then show ?thesis
    unfolding gateway_run_snoc demo_dispatch_def demo_sent snd_conv
    by (simp add: demo_refusal_def gateway_step_def call_conclude_def conclude_call_def demo_ids delete_values_def
        demo_identity_def del_item_def)
qed

theorem rejected_values_forgotten_instance:
  "\<exists>e \<in> set demo_after. completes_key demo_env (''i'', ''form-s:u'', ''s'') e"
proof -
  define st where "st = snd (gateway_step demo_env demo_refusal (gateway_run demo_env (demo_call_run @ [demo_dispatch])))"
  define st3 where "st3 = demo_fold [demo_start, demo_submit, demo_finish] st"
  have st: "gy_login st ''s'' = \<lparr>lv_requests = [], lv_codes = [(''d'', demo_login_grant)], lv_tokens = []\<rparr>" "gy_submissions st = []"
    "gy_store st = \<lparr>ks_ttl = minute, ks_max = 9, ks_items = [], ks_seq = 1\<rparr>" "gy_seen st = [(''j'', unix_time 0)]"
    "gy_authorized st = []"
    unfolding st_def demo_refused snd_conv unfolding demo_call_run_state demo_finished demo_opened
    by (simp_all add: gateway_start_def demo_login_grant_def)
  note st3 = demo_again [OF st(1-3), folded st3_def]
  have "consume ''k'' (unix_time 0) 0 [(''j'', unix_time 0)] = (True, [(''j'', unix_time 0), (''k'', unix_time 0)])"
    by (simp add: consume_def put_item_def unix_time_def second_def)
  then have acc: "accept_call (demo_calls ''k'') demo_service demo_call 0 (gy_seen st3) =
      (Inr demo_identity, [(''j'', unix_time 0), (''k'', unix_time 0)])"
    using st3 st(4) by (simp add: demo_accept)
  define st4 where "st4 = snd (gateway_step demo_env (CallAccept demo_service (demo_calls ''k'') demo_call 0) st3)"
  have st4_eq: "gy_authorized st4 = [(''s'', demo_identity, demo_call)]" "gy_store st4 = gy_store st3"
    using acc st3 st(5) by (simp_all add: st4_def gateway_step_def call_accept_def demo_ids)
  have run: "gateway_run demo_env ((demo_call_run @ [demo_dispatch]) @ [demo_refusal] @ demo_after) = st4"
    unfolding st4_def st3_def st_def by (simp add: gateway_run_def demo_after_def)
  have h: "header_get (cl_header demo_call) sessionHeader = []" by code_simp
  have c: "call_checks demo_config (ge_mac demo_env) demo_service demo_identity demo_call = Inr ([], [])"
    unfolding call_checks_def h by (simp add: demo_call_def demo_config_def)
  have sent: "\<exists>call. fst (gateway_step demo_env (CallDispatch demo_service demo_identity demo_call 0)
      (gateway_run demo_env ((demo_call_run @ [demo_dispatch]) @ [demo_refusal] @ demo_after))) = OutUpstream call"
    unfolding run using st4_eq st3
    by (simp add: gateway_step_def call_dispatch_def demo_ids dispatch_call_def c [unfolded demo_identity_def] demo_identity_def get_values_def demo_ttls
        not_le demo_render Let_def)
  have "fst (gateway_step demo_env demo_refusal (gateway_run demo_env (demo_call_run @ [demo_dispatch]))) \<noteq> OutNothing"
    by (simp add: demo_refused)
  from rejected_values_forgotten [OF this [unfolded demo_refusal_def]] sent show ?thesis
    by (auto simp: demo_refusal_def demo_ids demo_identity_def)
qed

end
