(* ===== verification/SessionBinding.thy ===== *)
theory SessionBinding
  imports CredentialGateway
begin

text \<open>
  Upstream session identifiers that the credential gateway hands out come back to the caller and
  service they were handed out for, and to no other; and the headers of a forwarded call are the
  allowlisted ones and the configured credential headers.
\<close>

section \<open>The encoding is injective\<close>

lemma url_char_inj: "url_char m = url_char n \<Longrightarrow> m mod 64 = n mod 64"
proof -
  have "distinct url_alphabet" by (simp add: url_alphabet_def)
  moreover assume "url_char m = url_char n"
  ultimately show ?thesis
    unfolding url_char_def using nth_eq_iff_index_eq [of url_alphabet "m mod 64" "n mod 64"]
    by (simp add: length_url_alphabet)
qed

lemma byte_of_less: "byte_of c < 256"
  using range_nat_of_char by (metis atLeastLessThan_iff rangeI)

lemma byte_of_inj: "(of_char c :: nat) = of_char d \<Longrightarrow> c = d"
  by simp

lemma div_mod_inj: "x div k = y div k \<Longrightarrow> x mod k = y mod k \<Longrightarrow> x = (y::nat)"
  by (metis div_mult_mod_eq)

lemma sextets_inj:
  fixes m n :: nat
  assumes "m div 262144 mod 64 = n div 262144 mod 64" "m div 4096 mod 64 = n div 4096 mod 64"
    "m div 64 mod 64 = n div 64 mod 64" "m mod 64 = n mod 64" "m < 16777216" "n < 16777216"
  shows "m = n"
proof -
  have d: "x div 4096 div 64 = x div 262144" "x div 64 div 64 = x div 4096" for x :: nat
    by (simp_all flip: div_mult2_eq)
  have "m div 262144 < 64" "n div 262144 < 64"
    using assms(5,6) by (simp_all add: less_mult_imp_div_less)
  then have "m div 262144 = n div 262144" using assms(1) by simp
  from this [folded d(1)] assms(2) have "m div 4096 = n div 4096" by (rule div_mod_inj)
  from this [folded d(2)] assms(3) have "m div 64 = n div 64" by (rule div_mod_inj)
  then show ?thesis using assms(4) by (rule div_mod_inj)
qed

lemma bytes_inj:
  fixes a b a' b' :: nat
  assumes "a * 256 + b = a' * 256 + b'" "b < 256" "b' < 256"
  shows "a = a' \<and> b = b'"
proof -
  have "(a * 256 + b) div 256 = a" "(a' * 256 + b') div 256 = a'" using assms(2,3) by simp_all
  then have "a = a'" using assms(1) by metis
  then show ?thesis using assms(1) by simp
qed

lemma byte_sums:
  fixes a b c :: nat
  assumes "a < 256" "b < 256" "c < 256"
  shows "(a * 256 + b) * 4 < 262144" "(a * 256 + b) * 256 + c < 16777216"
proof -
  have "a \<le> 255" "b \<le> 255" "c \<le> 255" using assms by simp_all
  then have "a * 256 \<le> 65280" "a * 65536 \<le> 16711680" "b * 256 \<le> 65280" by simp_all
  moreover have "(a * 256 + b) * 4 = a * 256 * 4 + b * 4" "(a * 256 + b) * 256 + c = a * 65536 + b * 256 + c" by simp_all
  ultimately show "(a * 256 + b) * 4 < 262144" "(a * 256 + b) * 256 + c < 16777216"
    using \<open>b \<le> 255\<close> \<open>c \<le> 255\<close> by simp_all
qed

lemma raw_url_encode_inj: "raw_url_encode s = raw_url_encode t \<Longrightarrow> s = t"
proof (induction s arbitrary: t rule: raw_url_encode.induct)
  case 1
  then show ?case using length_raw_url_encode [of t] by (cases t) auto
next
  case (2 a)
  have "length t = 1"
    using 2 length_raw_url_encode [of t] length_raw_url_encode [of "[a]"] by simp
  then obtain b where t: "t = [b]" by (auto simp: length_Suc_conv)
  have "byte_of a * 16 div 64 mod 64 = byte_of b * 16 div 64 mod 64" "byte_of a * 16 mod 64 = byte_of b * 16 mod 64"
  proof -
    have "url_char (byte_of a * 16 div 64) = url_char (byte_of b * 16 div 64)" "url_char (byte_of a * 16) = url_char (byte_of b * 16)"
      using 2 unfolding t raw_url_encode.simps Let_def by (simp_all only: list.inject)
    from url_char_inj [OF this(1)] url_char_inj [OF this(2)]
    show "byte_of a * 16 div 64 mod 64 = byte_of b * 16 div 64 mod 64" "byte_of a * 16 mod 64 = byte_of b * 16 mod 64" .
  qed
  moreover have "x div 4096 = 0 \<and> x div 262144 = 0 \<and> x < 16777216" if "x < 4096" for x :: nat using that by auto
  moreover have "byte_of a * 16 < 4096" "byte_of b * 16 < 4096" using byte_of_less [of a] byte_of_less [of b] by linarith+
  ultimately have "byte_of a * 16 = byte_of b * 16" by (metis sextets_inj)
  then show ?case by (simp add: t)
next
  case (3 a b)
  have "length t = 2"
    using 3 length_raw_url_encode [of t] length_raw_url_encode [of "[a, b]"] by simp
  then obtain c d where t: "t = [c, d]" by (auto simp: length_Suc_conv numeral_2_eq_2)
  let ?m = "(byte_of a * 256 + byte_of b) * 4" and ?n = "(byte_of c * 256 + byte_of d) * 4"
  have "url_char (?m div 4096) = url_char (?n div 4096)" "url_char (?m div 64) = url_char (?n div 64)" "url_char ?m = url_char ?n"
    using 3 unfolding t raw_url_encode.simps Let_def by (simp_all only: list.inject)
  from this [THEN url_char_inj]
  have "?m div 4096 mod 64 = ?n div 4096 mod 64" "?m div 64 mod 64 = ?n div 64 mod 64" "?m mod 64 = ?n mod 64" .
  moreover have "x div 262144 = 0 \<and> x < 16777216" if "x < 262144" for x :: nat using that by auto
  moreover have "?m < 262144" "?n < 262144" by (rule byte_sums(1) [OF byte_of_less byte_of_less byte_of_less])+
  ultimately have "?m = ?n" by (metis sextets_inj)
  then have "byte_of a * 256 + byte_of b = byte_of c * 256 + byte_of d" by simp
  from bytes_inj [OF this byte_of_less byte_of_less] show ?case by (simp add: t)
next
  case (4 a b c s)
  have "length t = length s + 3"
    using 4(2) length_raw_url_encode [of t] length_raw_url_encode [of "a # b # c # s"] by simp
  then obtain d e f t' where t: "t = d # e # f # t'" by (auto simp: length_Suc_conv numeral_3_eq_3)
  let ?m = "(byte_of a * 256 + byte_of b) * 256 + byte_of c" and ?n = "(byte_of d * 256 + byte_of e) * 256 + byte_of f"
  have eqs: "url_char (?m div 262144) = url_char (?n div 262144)" "url_char (?m div 4096) = url_char (?n div 4096)"
    "url_char (?m div 64) = url_char (?n div 64)" "url_char ?m = url_char ?n" "raw_url_encode s = raw_url_encode t'"
    using 4(2) unfolding t raw_url_encode.simps Let_def by (simp_all only: list.inject append.simps)
  from eqs(1-4) [THEN url_char_inj]
  have "?m div 262144 mod 64 = ?n div 262144 mod 64" "?m div 4096 mod 64 = ?n div 4096 mod 64"
    "?m div 64 mod 64 = ?n div 64 mod 64" "?m mod 64 = ?n mod 64" .
  moreover have "?m < 16777216" "?n < 16777216" by (rule byte_sums(2) [OF byte_of_less byte_of_less byte_of_less])+
  ultimately have "?m = ?n" by (rule sextets_inj)
  from bytes_inj [OF this byte_of_less byte_of_less]
  have cf: "byte_of a * 256 + byte_of b = byte_of d * 256 + byte_of e" "c = f" by simp_all
  from bytes_inj [OF cf(1) byte_of_less byte_of_less] cf(2) have "a = d \<and> b = e \<and> c = f" by simp
  moreover have "s = t'" by (rule 4(1) [OF refl eqs(5)])
  ultimately show ?case by (simp add: t)
qed

section \<open>Wrapped identifiers\<close>

lemma last_index_split: "c \<notin> set tag \<Longrightarrow> last_index c (rid @ c # tag) = int (length rid)"
proof -
  assume "c \<notin> set tag"
  then have "takeWhile (\<lambda>x. x \<noteq> c) (rev tag @ c # rev rid) = rev tag"
    by (subst takeWhile_append2) auto
  then show ?thesis by (simp add: last_index_def)
qed

abbreviation bound_message :: "gostring \<Rightarrow> gostring \<Rightarrow> gostring \<Rightarrow> gostring \<Rightarrow> gostring" where
  "bound_message issuer subject service rid \<equiv> join_with [CHR 0x00] [issuer, subject, service, rid]"

definition no_nul :: "gostring \<Rightarrow> bool" where
  "no_nul s \<longleftrightarrow> \<not> List.member s (CHR 0x00)"

text \<open>Two messages of the tag do not collide.\<close>

definition tags_differ :: "(gostring \<Rightarrow> gostring) \<Rightarrow> gostring \<Rightarrow> gostring \<Rightarrow> bool" where
  "tags_differ mac m m' \<longleftrightarrow> m = m' \<or> take 24 (mac m) \<noteq> take 24 (mac m')"

lemma nul_split:
  assumes "CHR 0x00 \<notin> set a" "CHR 0x00 \<notin> set a'" "a @ CHR 0x00 # b = a' @ CHR 0x00 # b'"
  shows "a = a' \<and> b = b'"
proof -
  have "takeWhile (\<lambda>c. c \<noteq> CHR 0x00) (a @ CHR 0x00 # b) = a" using assms(1) by (subst takeWhile_append2) auto
  moreover have "takeWhile (\<lambda>c. c \<noteq> CHR 0x00) (a' @ CHR 0x00 # b') = a'" using assms(2) by (subst takeWhile_append2) auto
  ultimately show ?thesis using assms(3) by (metis list.inject same_append_eq)
qed

lemma nul_split_end:
  assumes "CHR 0x00 \<notin> set b" "CHR 0x00 \<notin> set b'" "a @ CHR 0x00 # b = a' @ CHR 0x00 # b'"
  shows "a = a' \<and> b = b'"
proof -
  from arg_cong [OF assms(3), of rev] have "rev b @ CHR 0x00 # rev a = rev b' @ CHR 0x00 # rev a'" by simp
  from nul_split [OF _ _ this] show ?thesis using assms(1,2) by auto
qed

lemma bound_message_inj:
  assumes "no_nul i" "no_nul i'" "no_nul s" "no_nul s'" "bound_message i u s rid = bound_message i' u' s' rid"
  shows "i = i' \<and> u = u' \<and> s = s'"
proof -
  have n: "CHR 0x00 \<notin> set i" "CHR 0x00 \<notin> set i'" "CHR 0x00 \<notin> set s" "CHR 0x00 \<notin> set s'"
    using assms(1-4) by (simp_all add: no_nul_def)
  from assms(5) have "i @ CHR 0x00 # (u @ CHR 0x00 # s @ CHR 0x00 # rid) = i' @ CHR 0x00 # (u' @ CHR 0x00 # s' @ CHR 0x00 # rid)"
    by (simp only: join_with.simps append.simps append_assoc)
  from nul_split [OF n(1,2) this]
  have "i = i'" "u @ CHR 0x00 # s @ CHR 0x00 # rid = u' @ CHR 0x00 # s' @ CHR 0x00 # rid" by simp_all
  from this(2) have "(u @ CHR 0x00 # s) @ CHR 0x00 # rid = (u' @ CHR 0x00 # s') @ CHR 0x00 # rid" by simp
  then have "u @ CHR 0x00 # s = u' @ CHR 0x00 # s'" by (simp only: append_same_eq)
  from nul_split_end [OF n(3,4) this] \<open>i = i'\<close> show ?thesis by simp
qed

lemma Unwrap_tagged:
  assumes "CHR ''.'' \<notin> set tag" "tag \<noteq> []" "rid \<noteq> []"
  shows "Unwrap mac i u s (rid @ ''.'' @ tag) = (if tag = bind_tag mac i u s rid then Some rid else None)"
proof -
  have i: "last_index (CHR ''.'') (rid @ ''.'' @ tag) = int (length rid)"
    using last_index_split [OF assms(1), of rid] by simp
  have "drop (nat (int (length rid)) + 1) (rid @ ''.'' @ tag) = tag" "take (nat (int (length rid))) (rid @ ''.'' @ tag) = rid"
    by simp_all
  moreover have "\<not> (int (length rid) \<le> 0 \<or> int (length rid) = int (length (rid @ ''.'' @ tag)) - 1)"
    using assms(2,3) by simp
  ultimately show ?thesis unfolding Unwrap_def i Let_def by (simp only: if_False)
qed

text \<open>C23: A session identifier the gateway hands out is read back for the caller and the service it was
  handed out for, and is refused for any other caller or service, unless the two HMAC tags collide.\<close>

theorem wrapped_session_private:
  assumes "Wrap mac i u s rid \<noteq> []" and "mac (bound_message i u s rid) \<noteq> []"
    and "no_nul i" "no_nul i'" "no_nul s" "no_nul s'"
    and "tags_differ mac (bound_message i u s rid) (bound_message i' u' s' rid)"
  shows "Unwrap mac i' u' s' (Wrap mac i u s rid) = (if (i', u', s') = (i, u, s) then Some rid else None)"
proof -
  have w: "Wrap mac i u s rid = rid @ ''.'' @ bind_tag mac i u s rid" and rid: "rid \<noteq> []"
    using assms(1) by (auto simp: Wrap_def split: if_splits)
  have dot: "CHR ''.'' \<notin> set (bind_tag mac i u s rid)" using raw_url_encode_plain by (auto simp: bind_tag_def)
  have "raw_url_encode (take 24 (mac (bound_message i u s rid))) \<noteq> []"
    using raw_url_encode_inj [of "take 24 (mac (bound_message i u s rid))" "[]"] assms(2) by auto
  then have ne: "bind_tag mac i u s rid \<noteq> []" by (simp add: bind_tag_def)
  have "bind_tag mac i u s rid = bind_tag mac i' u' s' rid \<longleftrightarrow> (i', u', s') = (i, u, s)"
  proof
    assume "bind_tag mac i u s rid = bind_tag mac i' u' s' rid"
    then have "take 24 (mac (bound_message i u s rid)) = take 24 (mac (bound_message i' u' s' rid))"
      unfolding bind_tag_def by (rule raw_url_encode_inj)
    then have "bound_message i u s rid = bound_message i' u' s' rid" using assms(7) unfolding tags_differ_def by metis
    from bound_message_inj [OF assms(3-6) this] show "(i', u', s') = (i, u, s)" by simp
  qed auto
  then show ?thesis unfolding w Unwrap_tagged [OF dot ne rid] by simp
qed

text \<open>A tag that tells two callers apart: on a key for which the HMAC keeps the subject.\<close>

theorem wrapped_session_private_instance:
  "Unwrap (\<lambda>m. take 30 (drop 4 m)) ''iss'' ''bob'' ''gitlab'' (Wrap (\<lambda>m. take 30 (drop 4 m)) ''iss'' ''ann'' ''gitlab'' ''up'') = None"
proof -
  have "Wrap (\<lambda>m. take 30 (drop 4 m)) ''iss'' ''ann'' ''gitlab'' ''up'' \<noteq> []"
    by (simp add: Wrap_def maxUpstreamID_def)
  moreover have "no_nul ''iss''" "no_nul ''gitlab''" by (simp_all add: no_nul_def)
  moreover have "tags_differ (\<lambda>m. take 30 (drop 4 m)) (bound_message ''iss'' ''ann'' ''gitlab'' ''up'') (bound_message ''iss'' ''bob'' ''gitlab'' ''up'')"
    by (simp add: tags_differ_def)
  ultimately show ?thesis
    using wrapped_session_private [of "\<lambda>m. take 30 (drop 4 m)" "''iss''" "''ann''" "''gitlab''" "''up''" "''iss''" "''gitlab''" "''bob''"]
    by simp
qed

section \<open>Headers of a forwarded call\<close>

lemma header_fold_other:
  "(\<forall>e \<in> set injected. \<not> equal_fold (fst e) name) \<Longrightarrow>
     values_of (fold (\<lambda>(n, v) h. header_set h n v) injected h) name = values_of h name"
  by (induction injected arbitrary: h) auto

lemma header_fold_set:
  assumes "distinct (map (to_lower \<circ> fst) injected)" "(n, v) \<in> set injected" "equal_fold n name"
  shows "values_of (fold (\<lambda>(n, v) h. header_set h n v) injected h) name = [v]"
  using assms
proof (induction injected arbitrary: h)
  case (Cons e es)
  show ?case
  proof (cases "e = (n, v)")
    case True
    have "\<forall>x \<in> set es. \<not> equal_fold (fst x) name"
      using Cons.prems(1,3) True by (auto simp: equal_fold_def image_iff)
    then show ?thesis using Cons.prems(3) True by (simp add: header_fold_other)
  qed (use Cons in auto)
qed simp

text \<open>Of the client's request headers only four reach the upstream, with the client's values. Every
  configured credential header carries its value once, whatever the client sent under that name,
  and the gateway itself adds the encoding and, on an open session, the upstream's session.\<close>

theorem upstream_headers_exact:
  assumes "distinct (map (to_lower \<circ> fst) injected)"
  shows "values_of (upstream_headers r session injected) name =
    (case List.find (\<lambda>e. equal_fold (fst e) name) injected of
       Some e \<Rightarrow> [snd e]
     | None \<Rightarrow>
         if session \<noteq> [] \<and> equal_fold sessionHeader name then [session]
         else if equal_fold ''Accept-Encoding'' name then [''identity'']
         else (case List.find (\<lambda>n. equal_fold n name) forwardedRequest of
                 Some n \<Rightarrow> if header_get (cl_header r) n \<noteq> [] then [header_get (cl_header r) n] else []
               | None \<Rightarrow> []))"
proof (cases "List.find (\<lambda>e. equal_fold (fst e) name) injected")
  case (Some e)
  then have "e \<in> set injected" "equal_fold (fst e) name" by (auto simp: find_Some_iff)
  with header_fold_set [OF assms, of "fst e" "snd e" name] Some show ?thesis
    by (simp add: upstream_headers_def Let_def)
next
  case None
  then have none: "\<forall>e \<in> set injected. \<not> equal_fold (fst e) name" by (auto simp: find_None_iff)
  have copied: "values_of (copy_headers forwardedRequest (cl_header r) []) name =
      (case List.find (\<lambda>n. equal_fold n name) forwardedRequest of
         Some n \<Rightarrow> if header_get (cl_header r) n \<noteq> [] then [header_get (cl_header r) n] else [] | None \<Rightarrow> [])"
  proof -
    have "\<not> (equal_fold m name \<and> equal_fold n name)"
      if "m \<in> set forwardedRequest" "n \<in> set forwardedRequest" "m \<noteq> n" for m n
    proof -
      have "\<forall>m \<in> set forwardedRequest. \<forall>n \<in> set forwardedRequest. m \<noteq> n \<longrightarrow> \<not> equal_fold m n" by code_simp
      then show ?thesis using that by (metis equal_fold_sym equal_fold_trans)
    qed
    moreover have "values_of [] name = []" by (simp add: values_of_def)
    ultimately show ?thesis
      by (auto simp: copy_headers_def forwardedRequest_def)
  qed
  show ?thesis
    using None copied by (simp add: upstream_headers_def Let_def header_fold_other [OF none])
qed

theorem upstream_headers_exact_instance:
  "values_of (upstream_headers \<lparr>cl_method = ''GET'', cl_header = [(''Authorization'', [''x'']), (''Accept'', [''y''])],
     cl_length = 0, cl_body = []\<rparr> [] [(''X-Key'', ''v'')]) ''Authorization'' = []"
proof -
  have "List.find (\<lambda>e. equal_fold (fst e) ''Authorization'') [(''X-Key'', ''v'')] = None" by code_simp
  moreover have "\<not> equal_fold ''Accept-Encoding'' ''Authorization''" "List.find (\<lambda>n. equal_fold n ''Authorization'') forwardedRequest = None"
    by code_simp+
  moreover have "distinct (map (to_lower \<circ> fst) [(''X-Key'', ''v'')])" by simp
  ultimately show ?thesis by (simp only: upstream_headers_exact option.case simp_thms if_False)
qed

end
