(* ===== verification/Lockout.thy ===== *)
theory Lockout
  imports GoMap GoTime "HOL-Library.Product_Lexorder"
begin

text \<open>
  The lockout of password logins: \<open>services/platform-api/auth/lockout.go\<close> and the handler around it
  in \<open>login.go\<close>. The tracker's operations run under its mutex, each with one clock reading. The
  handler asks the tracker, lets the backend check the password without any lock, and then records
  the outcome; it is two operations, so that logins may interleave.

  The audit records of the handler are left out. The eviction sorts by whether an entry is locked, whether it has failures, and when it was last
  seen; Go's sort does not fix the order of entries that agree in all three, the model keeps it.
\<close>

section \<open>The tracker\<close>

record login_attempt =
  la_failures :: nat
  la_locked_until :: time
  la_last_seen :: time

record attempt_tracker =
  at_entries :: "(gostring \<times> login_attempt) list"
  at_last_prune :: time

definition NewLoginAttemptTracker :: attempt_tracker where
  "NewLoginAttemptTracker = \<lparr>at_entries = [], at_last_prune = zero_time\<rparr>"

definition APILoginLockoutBase :: time where "APILoginLockoutBase = 15 * second"

definition APILoginLockoutMax :: time where "APILoginLockoutMax = 5 * minute"

definition APILoginAttemptIdleTTL :: time where "APILoginAttemptIdleTTL = 30 * minute"

definition APILoginAttemptMaxEntries :: nat where "APILoginAttemptMaxEntries = 4096"

definition apiLoginAttemptPruneInterval :: time where "apiLoginAttemptPruneInterval = minute"

definition apiLoginAttemptEvictionBatch :: nat where "apiLoginAttemptEvictionBatch = 256"

definition loginAttemptUnknownIP :: gostring where "loginAttemptUnknownIP = ''unknown''"

definition normalizeLoginAttemptKey :: "gostring \<Rightarrow> gostring" where
  "normalizeLoginAttemptKey key =
     (let k = trim_space key in
      if k = [] then loginAttemptUnknownIP
      else if CHR ''|'' \<in> set k
      then (let before = trim_space (takeWhile (\<lambda>c. c \<noteq> CHR ''|'') k) in
            if before \<noteq> [] then before else loginAttemptUnknownIP)
      else k)"

text \<open>The loop that doubles the lockout once for every step after the first.\<close>

fun double_lockout :: "nat \<Rightarrow> time \<Rightarrow> time" where
  "double_lockout 0 lockout = (if APILoginLockoutMax < lockout then APILoginLockoutMax else lockout)"
| "double_lockout (Suc n) lockout =
     (if APILoginLockoutMax \<le> lockout * 2 then APILoginLockoutMax else double_lockout n (lockout * 2))"

definition lockoutDurationForFailures :: "nat \<Rightarrow> time" where
  "lockoutDurationForFailures failures =
     (if failures \<le> 2 then 0 else double_lockout (failures - 2 - 1) APILoginLockoutBase)"

definition pruneIfDueLocked :: "time \<Rightarrow> attempt_tracker \<Rightarrow> attempt_tracker" where
  "pruneIfDueLocked now t =
     (if at_last_prune t \<noteq> zero_time \<and> now - at_last_prune t < apiLoginAttemptPruneInterval then t
      else t\<lparr>at_last_prune := now,
             at_entries := filter (\<lambda>e. \<not> (APILoginAttemptIdleTTL < now - la_last_seen (snd e) \<and> la_locked_until (snd e) \<le> now))
               (at_entries t)\<rparr>)"

definition enforceMaxLocked :: "time \<Rightarrow> attempt_tracker \<Rightarrow> attempt_tracker" where
  "enforceMaxLocked now t =
     (if length (at_entries t) \<le> APILoginAttemptMaxEntries then t
      else
        (let target = APILoginAttemptMaxEntries - apiLoginAttemptEvictionBatch;
             candidates = sort_key (\<lambda>e. (now < la_locked_until (snd e), 0 < la_failures (snd e), la_last_seen (snd e)))
               (at_entries t);
             victims = map fst (take (length (at_entries t) - target) candidates)
         in t\<lparr>at_entries := filter (\<lambda>e. fst e \<notin> set victims) (at_entries t)\<rparr>))"

definition attempt_of :: "attempt_tracker \<Rightarrow> gostring \<Rightarrow> login_attempt" where
  "attempt_of t key =
     (case map_of (at_entries t) key of
        None \<Rightarrow> \<lparr>la_failures = 0, la_locked_until = zero_time, la_last_seen = zero_time\<rparr>
      | Some a \<Rightarrow> a)"

definition tracker_Allow :: "gostring \<Rightarrow> time \<Rightarrow> attempt_tracker \<Rightarrow> bool \<times> attempt_tracker" where
  "tracker_Allow key now t =
     (let k = normalizeLoginAttemptKey key; t1 = pruneIfDueLocked now t in
      case map_of (at_entries t1) k of
        None \<Rightarrow> (True, t1)
      | Some a \<Rightarrow>
          (la_locked_until a = zero_time \<or> la_locked_until a \<le> now,
           t1\<lparr>at_entries := put_item k (a\<lparr>la_last_seen := now\<rparr>) (at_entries t1)\<rparr>))"

definition RecordLoginFailure :: "gostring \<Rightarrow> time \<Rightarrow> attempt_tracker \<Rightarrow> nat \<times> attempt_tracker" where
  "RecordLoginFailure key now t =
     (let k = normalizeLoginAttemptKey key;
          t1 = pruneIfDueLocked now t;
          n = la_failures (attempt_of t1 k) + 1;
          a = \<lparr>la_failures = n, la_locked_until = now + lockoutDurationForFailures n, la_last_seen = now\<rparr>
      in (n, enforceMaxLocked now (t1\<lparr>at_entries := put_item k a (at_entries t1)\<rparr>)))"

definition RecordLoginSuccess :: "gostring \<Rightarrow> time \<Rightarrow> attempt_tracker \<Rightarrow> nat \<times> attempt_tracker" where
  "RecordLoginSuccess key now t =
     (let k = normalizeLoginAttemptKey key; t1 = pruneIfDueLocked now t in
      (la_failures (attempt_of t1 k), t1\<lparr>at_entries := del_item k (at_entries t1)\<rparr>))"

section \<open>The handler\<close>

text \<open>A request: its method, the decoded email and password (\<^term>\<open>None\<close> when the body is malformed or
  too large), and the client's address.\<close>

record login_call =
  lo_method :: gostring
  lo_body :: "(gostring \<times> gostring) option"
  lo_ip :: gostring

datatype 'u login_outcome =
    LoginUnavailable
  | LoginMethodNotAllowed
  | LoginBadBody
  | LoginTooMany
  | LoginFailed
  | LoginInvalid nat
  | LoginInternal
  | LoginOk gostring 'u

definition login_email :: "gostring \<Rightarrow> gostring" where
  "login_email raw = to_lower (trim_space raw)"

definition attempt_key :: "gostring \<Rightarrow> gostring \<Rightarrow> gostring" where
  "attempt_key ip email = (if email \<noteq> [] then ip @ ''|'' @ email else ip)"

text \<open>The first half ends with an outcome or with the email and password the backend is asked about.\<close>

definition password_login_begin ::
  "bool \<Rightarrow> login_call \<Rightarrow> time \<Rightarrow> attempt_tracker \<Rightarrow> ('u login_outcome + gostring \<times> gostring) \<times> attempt_tracker" where
  "password_login_begin backend r now t =
     (if \<not> backend then (Inl LoginUnavailable, t)
      else if lo_method r \<noteq> ''POST'' then (Inl LoginMethodNotAllowed, t)
      else (case lo_body r of
              None \<Rightarrow> (Inl LoginBadBody, t)
            | Some (raw, password) \<Rightarrow>
                (case tracker_Allow (attempt_key (lo_ip r) (login_email raw)) now t of
                   (False, t1) \<Rightarrow> (Inl LoginTooMany, t1)
                 | (True, t1) \<Rightarrow> (Inr (login_email raw, password), t1))))"

text \<open>What the backend answered: an error, no such account and password, or the user.\<close>

datatype 'u password_check = CheckError | CheckWrong | CheckUser 'u

definition password_login_finish ::
  "gostring \<Rightarrow> gostring \<Rightarrow> 'u password_check \<Rightarrow> gostring option \<Rightarrow> time \<Rightarrow> attempt_tracker
    \<Rightarrow> 'u login_outcome \<times> attempt_tracker" where
  "password_login_finish ip email check token now t =
     (case check of
        CheckError \<Rightarrow> (LoginFailed, t)
      | CheckWrong \<Rightarrow>
          (case RecordLoginFailure (attempt_key ip email) now t of (n, t1) \<Rightarrow> (LoginInvalid n, t1))
      | CheckUser u \<Rightarrow>
          (case RecordLoginSuccess (attempt_key ip email) now t of
             (_, t1) \<Rightarrow> (case token of None \<Rightarrow> LoginInternal | Some tok \<Rightarrow> LoginOk tok u, t1)))"

section \<open>The duration of a lockout\<close>

lemma double_lockout_closed:
  "0 \<le> d \<Longrightarrow> double_lockout n d = min APILoginLockoutMax (d * 2 ^ n)"
proof (induction n arbitrary: d)
  case (Suc n)
  have "d * 2 \<le> d * 2 ^ Suc n"
    using Suc.prems by (intro mult_left_mono) simp_all
  with Suc show ?case by (auto simp: min_def mult.assoc)
qed (auto simp: min_def)

text \<open>Reference definition of the lockout: nothing for two failures, then fifteen seconds that double
  with each further failure, up to five minutes.\<close>

definition lockout_reference :: "nat \<Rightarrow> time" where
  "lockout_reference n = (if n \<le> 2 then 0 else min (5 * minute) (15 * second * 2 ^ (n - 3)))"

lemma lockout_is_reference: "lockoutDurationForFailures n = lockout_reference n"
proof -
  have "0 \<le> APILoginLockoutBase" by (simp add: APILoginLockoutBase_def second_def)
  then show ?thesis
    by (simp add: lockoutDurationForFailures_def lockout_reference_def double_lockout_closed APILoginLockoutMax_def
        APILoginLockoutBase_def)
qed

lemma lockout_mono: "m \<le> n \<Longrightarrow> lockoutDurationForFailures m \<le> lockoutDurationForFailures n"
proof -
  assume "m \<le> n"
  then have "(2::int) ^ (m - 3) \<le> 2 ^ (n - 3)" by (intro power_increasing) auto
  then have "15 * second * 2 ^ (m - 3) \<le> 15 * second * 2 ^ (n - 3)" by (simp add: second_def)
  moreover have "0 \<le> min (5 * minute) (15 * second * 2 ^ (n - 3))" by (simp add: minute_def second_def)
  ultimately show ?thesis
    using \<open>m \<le> n\<close> by (auto simp: lockout_is_reference lockout_reference_def min_def)
qed

lemma lockout_pos: "3 \<le> n \<Longrightarrow> 0 < lockoutDurationForFailures n"
  by (simp add: lockout_is_reference lockout_reference_def minute_def second_def)

end
