(* ===== verification/LockoutClaims.thy ===== *)
theory LockoutClaims
  imports Lockout
begin

text \<open>
  What the lockout enforces: after three failures an address stays out for as long as the reference
  duration says, whatever else is recorded meanwhile, and the table stays within its size.
\<close>

section \<open>Runs\<close>

datatype lockout_event = Asked gostring time | Failed gostring time | Succeeded gostring time

definition lockout_step :: "lockout_event \<Rightarrow> attempt_tracker \<Rightarrow> attempt_tracker" where
  "lockout_step e t =
     (case e of
        Asked key now \<Rightarrow> snd (tracker_Allow key now t)
      | Failed key now \<Rightarrow> snd (RecordLoginFailure key now t)
      | Succeeded key now \<Rightarrow> snd (RecordLoginSuccess key now t))"

definition event_time :: "lockout_event \<Rightarrow> time" where
  "event_time e = (case e of Asked _ now \<Rightarrow> now | Failed _ now \<Rightarrow> now | Succeeded _ now \<Rightarrow> now)"

definition locked_entries :: "time \<Rightarrow> attempt_tracker \<Rightarrow> nat" where
  "locked_entries now t = length (filter (\<lambda>e. now < la_locked_until (snd e)) (at_entries t))"

text \<open>How many addresses may be locked out at a time without an eviction of one of them.\<close>

definition lockout_capacity :: nat where
  "lockout_capacity = APILoginAttemptMaxEntries - apiLoginAttemptEvictionBatch"

fun never_crowded :: "attempt_tracker \<Rightarrow> lockout_event list \<Rightarrow> bool" where
  "never_crowded t [] = True"
| "never_crowded t (e # es) \<longleftrightarrow> locked_entries (event_time e) t < lockout_capacity \<and> never_crowded (lockout_step e t) es"

section \<open>The table\<close>

definition tracker_ok :: "attempt_tracker \<Rightarrow> bool" where
  "tracker_ok t \<longleftrightarrow> distinct (map fst (at_entries t)) \<and> length (at_entries t) \<le> APILoginAttemptMaxEntries"

lemma prune_tracker:
  "distinct (map fst (at_entries t)) \<Longrightarrow> distinct (map fst (at_entries (pruneIfDueLocked now t)))"
  "length (at_entries (pruneIfDueLocked now t)) \<le> length (at_entries t)"
  by (auto simp: pruneIfDueLocked_def distinct_filter_items)

lemma prune_tracker_keeps:
  assumes "distinct (map fst (at_entries t))" "map_of (at_entries t) k = Some a" "now < la_locked_until a"
  shows "map_of (at_entries (pruneIfDueLocked now t)) k = Some a"
  using assms by (simp add: pruneIfDueLocked_def map_of_filter_distinct)

lemma prune_tracker_locked: "locked_entries now (pruneIfDueLocked now t) = locked_entries now t"
  by (auto simp: locked_entries_def pruneIfDueLocked_def intro!: arg_cong [where f = length] filter_cong)

lemma filter_victims:
  assumes "distinct (map fst ys)"
  shows "filter (\<lambda>e. fst e \<notin> set (map fst (take m ys))) ys = drop m ys"
proof -
  have "distinct (map fst (take m ys) @ map fst (drop m ys))" using assms by (simp flip: map_append)
  then have "filter (\<lambda>e. fst e \<notin> set (map fst (take m ys))) (drop m ys) = drop m ys"
    by (auto intro!: filter_True)
  moreover have "filter (\<lambda>e. fst e \<notin> set (map fst (take m ys))) (take m ys) = []" by (auto simp: filter_empty_conv)
  ultimately show ?thesis by (metis append_take_drop_id append_Nil filter_append)
qed

lemma length_filter_before: "filter P (drop i ys) = [] \<Longrightarrow> length (filter P ys) \<le> i"
  using filter_append [of P "take i ys" "drop i ys"] length_filter_le [of P "take i ys"] by simp

lemma enforce_length:
  assumes "distinct (map fst (at_entries t))"
  shows "length (at_entries (enforceMaxLocked now t)) \<le> APILoginAttemptMaxEntries"
proof (cases "length (at_entries t) \<le> APILoginAttemptMaxEntries")
  case False
  let ?ys = "sort_key (\<lambda>e. (now < la_locked_until (snd e), 0 < la_failures (snd e), la_last_seen (snd e))) (at_entries t)"
  let ?m = "length (at_entries t) - (APILoginAttemptMaxEntries - apiLoginAttemptEvictionBatch)"
  let ?P = "\<lambda>e. fst e \<notin> set (map fst (take ?m ?ys))"
  have "length (filter ?P (at_entries t)) = length (filter ?P ?ys)"
    by (simp add: filter_sort)
  also have "distinct (map fst ?ys)" using assms by (simp add: distinct_map)
  then have "filter ?P ?ys = drop ?m ?ys" by (rule filter_victims)
  finally show ?thesis using False by (simp add: enforceMaxLocked_def Let_def)
qed (simp add: enforceMaxLocked_def)

lemma enforce_distinct:
  "distinct (map fst (at_entries t)) \<Longrightarrow> distinct (map fst (at_entries (enforceMaxLocked now t)))"
  by (simp add: enforceMaxLocked_def Let_def distinct_filter_items)

text \<open>A locked entry survives the eviction as long as not too many are locked.\<close>

lemma enforce_keeps:
  assumes dist: "distinct (map fst (at_entries t))" and entry: "map_of (at_entries t) k = Some a"
    and locked: "now < la_locked_until a" and few: "locked_entries now t \<le> lockout_capacity"
  shows "map_of (at_entries (enforceMaxLocked now t)) k = Some a"
proof (cases "length (at_entries t) \<le> APILoginAttemptMaxEntries")
  case False
  let ?key = "\<lambda>e. (now < la_locked_until (snd e), 0 < la_failures (snd e), la_last_seen (snd e))"
  let ?ys = "sort_key ?key (at_entries t)"
  let ?m = "length (at_entries t) - lockout_capacity"
  have distys: "distinct (map fst ?ys)" using dist by (simp add: distinct_map)
  have "k \<notin> set (map fst (take ?m ?ys))"
  proof
    assume "k \<in> set (map fst (take ?m ?ys))"
    then obtain i where i: "i < ?m" "i < length ?ys" "fst (?ys ! i) = k" by (auto simp: in_set_conv_nth)
    have "?ys ! i \<in> set (at_entries t)" using nth_mem [OF i(2)] by simp
    then have "(k, snd (?ys ! i)) \<in> set (at_entries t)" using i(3) by auto
    then have "snd (?ys ! i) = a" using entry map_of_is_SomeI [OF dist] by fastforce
    then have li: "now < la_locked_until (snd (?ys ! i))" using locked by simp
    have later: "now < la_locked_until (snd e)" if e: "e \<in> set (drop i ?ys)" for e
    proof -
      obtain j where j: "j < length ?ys - i" "e = ?ys ! (i + j)" using e by (auto simp: in_set_conv_nth)
      have "sorted (map ?key ?ys)" by simp
      from sorted_nth_mono [OF this, of i "i + j"] j i(2) have "?key (?ys ! i) \<le> ?key e" by simp
      then show ?thesis using li by (auto simp: less_eq_prod_def)
    qed
    let ?U = "\<lambda>e. \<not> now < la_locked_until (snd e)"
    have "filter ?U (drop i ?ys) = []" unfolding filter_empty_conv using later by blast
    then have "length (filter ?U ?ys) \<le> i" by (rule length_filter_before)
    moreover have "length (filter ?U ?ys) = length (filter ?U (at_entries t))" by (simp add: filter_sort)
    moreover have "length (filter ?U (at_entries t)) + locked_entries now t = length (at_entries t)"
      using sum_length_filter_compl [of "\<lambda>e. now < la_locked_until (snd e)" "at_entries t"] by (simp add: locked_entries_def)
    ultimately show False using i(1) few by linarith
  qed
  then show ?thesis
    using False entry dist by (simp add: enforceMaxLocked_def Let_def map_of_filter_distinct lockout_capacity_def)
qed (simp add: enforceMaxLocked_def entry)

lemma lockout_step_ok: "tracker_ok t \<Longrightarrow> tracker_ok (lockout_step e t)"
proof -
  assume ok: "tracker_ok t"
  have p: "distinct (map fst (at_entries (pruneIfDueLocked now t)))"
    "length (at_entries (pruneIfDueLocked now t)) \<le> APILoginAttemptMaxEntries" for now
    using ok prune_tracker(1) [of t now] le_trans [OF prune_tracker(2) [of now t]] by (simp_all add: tracker_ok_def)
  show ?thesis
  proof (cases e)
    case (Asked key now)
    show ?thesis
    proof (cases "map_of (at_entries (pruneIfDueLocked now t)) (normalizeLoginAttemptKey key)")
      case None
      then show ?thesis using p [of now] Asked by (simp add: lockout_step_def tracker_Allow_def tracker_ok_def Let_def)
    next
      case (Some a)
      then show ?thesis
        using p [of now] Asked le_trans [OF length_put_known [OF Some]]
        by (simp add: lockout_step_def tracker_Allow_def tracker_ok_def Let_def distinct_put_item)
    qed
  next
    case (Failed key now)
    then show ?thesis
      using p [of now]
      by (simp add: lockout_step_def RecordLoginFailure_def tracker_ok_def Let_def enforce_length enforce_distinct distinct_put_item)
  next
    case (Succeeded key now)
    then show ?thesis
      using p [of now] le_trans [OF length_del_item p(2) [of now]]
      by (simp add: lockout_step_def RecordLoginSuccess_def tracker_ok_def Let_def distinct_del_item)
  qed
qed

lemma enforce_shrinks: "length (at_entries (enforceMaxLocked now t)) \<le> length (at_entries t)"
  by (simp add: enforceMaxLocked_def Let_def)

lemma lockout_step_length: "length (at_entries (lockout_step e t)) \<le> Suc (length (at_entries t))"
proof -
  have put: "length (put_item k v (at_entries (pruneIfDueLocked now t))) \<le> Suc (length (at_entries t))" for k v now
    using le_trans [OF length_put_item Suc_le_mono [THEN iffD2, OF prune_tracker(2) [of now t]]] .
  have del: "length (del_item k (at_entries (pruneIfDueLocked now t))) \<le> Suc (length (at_entries t))" for k now
    using le_trans [OF length_del_item le_SucI [OF prune_tracker(2) [of now t]]] .
  show ?thesis
    by (auto simp: lockout_step_def tracker_Allow_def RecordLoginFailure_def RecordLoginSuccess_def Let_def put del
        le_SucI [OF prune_tracker(2)] le_trans [OF enforce_shrinks] split: lockout_event.split option.split)
qed

interpretation lockout_machine: step_machine lockout_step tracker_ok
  by unfold_locales (rule lockout_step_ok)

lemma new_tracker_ok [simp]: "tracker_ok NewLoginAttemptTracker"
  by (simp add: tracker_ok_def NewLoginAttemptTracker_def)

section \<open>The lock holds\<close>

definition locked_for :: "gostring \<Rightarrow> nat \<Rightarrow> time \<Rightarrow> attempt_tracker \<Rightarrow> bool" where
  "locked_for k n x t \<longleftrightarrow> (\<exists>a. map_of (at_entries t) k = Some a \<and> n \<le> la_failures a \<and> x \<le> la_locked_until a)"

definition frees :: "gostring \<Rightarrow> lockout_event \<Rightarrow> bool" where
  "frees k e \<longleftrightarrow> (case e of Succeeded key _ \<Rightarrow> normalizeLoginAttemptKey key = k | _ \<Rightarrow> False)"

lemma put_locked:
  "length (filter P (put_item k v xs)) \<le> Suc (length (filter P xs))"
proof -
  have "length (filter P (filter (\<lambda>e. fst e \<noteq> k) xs)) \<le> length (filter P xs)"
    unfolding filter_filter by (rule length_filter_mono) simp
  then show ?thesis by (simp add: put_item_def)
qed

lemma locked_after_put:
  assumes "locked_entries now t < lockout_capacity" "p = pruneIfDueLocked now t"
  shows "locked_entries now (p\<lparr>at_entries := put_item k a (at_entries p)\<rparr>) \<le> lockout_capacity"
proof -
  have "locked_entries now (p\<lparr>at_entries := put_item k a (at_entries p)\<rparr>) \<le> Suc (locked_entries now p)"
    unfolding locked_entries_def by (simp add: put_locked)
  then show ?thesis using assms(1) unfolding assms(2) prune_tracker_locked by simp
qed

lemma recorded_failure_locks:
  assumes ok: "tracker_ok t" and few: "locked_entries now t < lockout_capacity"
    and k: "normalizeLoginAttemptKey key = k" and run: "RecordLoginFailure key now t = (n, t1)" and n: "3 \<le> n"
  shows "locked_for k n (now + lockoutDurationForFailures n) t1"
proof -
  let ?p = "pruneIfDueLocked now t"
  let ?a = "\<lparr>la_failures = n, la_locked_until = now + lockoutDurationForFailures n, la_last_seen = now\<rparr>"
  let ?t = "?p\<lparr>at_entries := put_item k ?a (at_entries ?p)\<rparr>"
  have t1: "t1 = enforceMaxLocked now ?t" using run k by (auto simp: RecordLoginFailure_def Let_def)
  have "distinct (map fst (at_entries ?t))"
    using ok prune_tracker by (simp add: tracker_ok_def distinct_put_item)
  moreover have "locked_entries now ?t \<le> lockout_capacity"
    by (rule locked_after_put [OF few refl])
  ultimately have "map_of (at_entries t1) k = Some ?a"
    unfolding t1 using lockout_pos [OF n] by (intro enforce_keeps) simp_all
  then show ?thesis by (simp add: locked_for_def)
qed

lemma other_failure_keeps:
  assumes ok: "tracker_ok t" and few: "locked_entries now t < lockout_capacity"
    and lock: "locked_for k n x t" and now: "now < x" and key: "normalizeLoginAttemptKey key \<noteq> k"
  shows "locked_for k n x (snd (RecordLoginFailure key now t))"
proof -
  let ?p = "pruneIfDueLocked now t" and ?k = "normalizeLoginAttemptKey key"
  obtain a where a: "map_of (at_entries t) k = Some a" "n \<le> la_failures a" "x \<le> la_locked_until a"
    using lock by (auto simp: locked_for_def)
  have "map_of (at_entries ?p) k = Some a"
    using ok a now by (intro prune_tracker_keeps) (auto simp: tracker_ok_def)
  define b where "b = \<lparr>la_failures = la_failures (attempt_of ?p ?k) + 1,
    la_locked_until = now + lockoutDurationForFailures (la_failures (attempt_of ?p ?k) + 1), la_last_seen = now\<rparr>"
  let ?t = "?p\<lparr>at_entries := put_item ?k b (at_entries ?p)\<rparr>"
  have "distinct (map fst (at_entries ?t))"
    using ok prune_tracker by (simp add: tracker_ok_def distinct_put_item)
  moreover have "locked_entries now ?t \<le> lockout_capacity"
    by (rule locked_after_put [OF few refl])
  ultimately have "map_of (at_entries (enforceMaxLocked now ?t)) k = Some a"
    using \<open>map_of (at_entries ?p) k = Some a\<close> key a(3) now by (intro enforce_keeps) simp_all
  then show ?thesis using a by (simp add: RecordLoginFailure_def Let_def locked_for_def b_def)
qed

lemma step_keeps_lock:
  assumes ok: "tracker_ok t" and few: "locked_entries (event_time e) t < lockout_capacity"
    and lock: "locked_for k n (t0 + lockoutDurationForFailures n) t" and n: "3 \<le> n"
    and time: "t0 \<le> event_time e" "event_time e < t0 + lockoutDurationForFailures n" and "\<not> frees k e"
  shows "locked_for k n (t0 + lockoutDurationForFailures n) (lockout_step e t)"
proof -
  obtain a where a: "map_of (at_entries t) k = Some a" "n \<le> la_failures a" "t0 + lockoutDurationForFailures n \<le> la_locked_until a"
    using lock by (auto simp: locked_for_def)
  have p: "map_of (at_entries (pruneIfDueLocked (event_time e) t)) k = Some a"
    using ok a time by (intro prune_tracker_keeps) (auto simp: tracker_ok_def)
  show ?thesis
  proof (cases e)
    case (Asked key now)
    then show ?thesis
      using a p by (auto simp: lockout_step_def tracker_Allow_def locked_for_def event_time_def Let_def split: option.split)
  next
    case (Failed key now)
    show ?thesis
    proof (cases "normalizeLoginAttemptKey key = k")
      case True
      obtain m t1 where run: "RecordLoginFailure key now t = (m, t1)" by fastforce
      then have "m = la_failures a + 1"
        using p True Failed by (auto simp: RecordLoginFailure_def attempt_of_def event_time_def Let_def)
      then have m: "n \<le> m" "3 \<le> m" using a(2) n by simp_all
      have "locked_for k m (now + lockoutDurationForFailures m) t1"
        using recorded_failure_locks [OF ok _ True run m(2)] few Failed by (simp add: event_time_def)
      then show ?thesis
        using m(1) lockout_mono [OF m(1)] time(1) run Failed
        by (fastforce simp: locked_for_def lockout_step_def event_time_def)
    next
      case False
      then show ?thesis
        using other_failure_keeps [OF ok _ lock _ False, of now] few time Failed
        by (simp add: lockout_step_def event_time_def)
    qed
  next
    case (Succeeded key now)
    then show ?thesis
      using a p assms(7) by (auto simp: lockout_step_def RecordLoginSuccess_def locked_for_def event_time_def frees_def Let_def)
  qed
qed

lemma run_keeps_lock:
  assumes "tracker_ok t" "never_crowded t es" "locked_for k n (t0 + lockoutDurationForFailures n) t" "3 \<le> n"
    and "list_all (\<lambda>e. t0 \<le> event_time e \<and> event_time e < t0 + lockoutDurationForFailures n \<and> \<not> frees k e) es"
  shows "tracker_ok (fold lockout_step es t) \<and> locked_for k n (t0 + lockoutDurationForFailures n) (fold lockout_step es t)"
  using assms
proof (induction es arbitrary: t)
  case (Cons e es)
  then show ?case
    using lockout_step_ok [OF Cons.prems(1), of e] step_keeps_lock [OF Cons.prems(1) _ Cons.prems(3,4), of e] by auto
qed simp

text \<open>C26: When the n-th failure from an address is recorded, n at least three, every login from that
  address is refused before its password is checked, until min(5 min, 15 s * 2^(n-3)) later: for any
  further requests in between from anywhere, as long as no login from that address succeeds and
  fewer than 3840 addresses are locked out at a time.\<close>

theorem lockout_enforced:
  assumes "RecordLoginFailure key t0 (fold lockout_step es0 NewLoginAttemptTracker) = (n, t1)" and "3 \<le> n"
    and "never_crowded (fold lockout_step es0 NewLoginAttemptTracker) (Failed key t0 # es)"
    and "list_all (\<lambda>e. t0 \<le> event_time e \<and> event_time e < t0 + lockout_reference n \<and>
          \<not> frees (normalizeLoginAttemptKey key) e) es"
    and "lo_method r = ''POST''" and "lo_body r = Some (email, password)"
    and "normalizeLoginAttemptKey (attempt_key (lo_ip r) (login_email email)) = normalizeLoginAttemptKey key"
    and "t0 \<le> now" and "now < t0 + lockout_reference n" and "0 < t0"
  shows "fst (password_login_begin True r now (fold lockout_step es t1)) = Inl LoginTooMany"
proof -
  let ?k = "normalizeLoginAttemptKey key" and ?t = "fold lockout_step es0 NewLoginAttemptTracker"
  let ?x = "t0 + lockoutDurationForFailures n"
  have ok: "tracker_ok ?t" by (rule lockout_machine.run_inv) simp
  have t1: "t1 = lockout_step (Failed key t0) ?t" using assms(1) by (simp add: lockout_step_def)
  have "locked_for ?k n ?x t1"
    using recorded_failure_locks [OF ok _ refl assms(1,2)] assms(3) by (simp add: event_time_def)
  moreover have "tracker_ok t1" unfolding t1 by (rule lockout_step_ok [OF ok])
  ultimately have "tracker_ok (fold lockout_step es t1)" and lock: "locked_for ?k n ?x (fold lockout_step es t1)"
    using run_keeps_lock [of t1 es ?k n t0] assms(2,3,4) by (simp_all add: t1 lockout_is_reference)
  then obtain a where a: "map_of (at_entries (fold lockout_step es t1)) ?k = Some a" "?x \<le> la_locked_until a"
    by (auto simp: locked_for_def)
  have now: "now < ?x" using assms(9) by (simp add: lockout_is_reference)
  have "map_of (at_entries (pruneIfDueLocked now (fold lockout_step es t1))) ?k = Some a"
    using \<open>tracker_ok (fold lockout_step es t1)\<close> a now by (intro prune_tracker_keeps) (auto simp: tracker_ok_def)
  moreover have "\<not> (la_locked_until a = 0 \<or> la_locked_until a \<le> now)"
    using a(2) now assms(8,10) by auto
  ultimately have "fst (tracker_Allow (attempt_key (lo_ip r) (login_email email)) now (fold lockout_step es t1)) = False"
    by (simp add: tracker_Allow_def assms(7) Let_def)
  then show ?thesis
    using assms(5,6) by (auto simp: password_login_begin_def split: prod.split bool.split)
qed

text \<open>Requests that are all let in before the first outcome is recorded: the tracker does not limit a
  burst.\<close>

theorem parallel_guesses_not_limited:
  assumes "\<forall>e \<in> set es. \<exists>key now. e = Asked key now"
  shows "fst (tracker_Allow key now (fold lockout_step es NewLoginAttemptTracker)) = True"
proof -
  have "at_entries (fold lockout_step es NewLoginAttemptTracker) = []"
    using assms
  proof (induction es rule: rev_induct)
    case Nil
    show ?case by (simp add: NewLoginAttemptTracker_def)
  next
    case (snoc e es)
    then show ?case by (auto simp: lockout_step_def tracker_Allow_def pruneIfDueLocked_def Let_def)
  qed
  then show ?thesis by (simp add: tracker_Allow_def pruneIfDueLocked_def Let_def)
qed

section \<open>An instance\<close>

text \<open>A run that records fewer outcomes than the capacity is never crowded.\<close>

lemma never_crowded_short:
  "length (at_entries t) + length es < lockout_capacity \<Longrightarrow> never_crowded t es"
proof (induction es arbitrary: t)
  case (Cons e es)
  have "locked_entries (event_time e) t \<le> length (at_entries t)" by (simp add: locked_entries_def)
  moreover have "length (at_entries (lockout_step e t)) \<le> Suc (length (at_entries t))"
    by (rule lockout_step_length)
  ultimately show ?case using Cons by simp
qed simp

definition guess_key :: gostring where "guess_key = ''1.2.3.4|a@b''"

definition guessed_once :: attempt_tracker where
  "guessed_once = \<lparr>at_entries = [(''1.2.3.4'', \<lparr>la_failures = 1, la_locked_until = second, la_last_seen = second\<rparr>)],
     at_last_prune = second\<rparr>"

lemma guess_bucket [simp]: "normalizeLoginAttemptKey guess_key = ''1.2.3.4''"
  by code_simp

lemma guess_attempt [simp]: "attempt_key ''1.2.3.4'' (login_email ''a@b'') = guess_key"
  by code_simp

lemma third_failure:
  "fst (RecordLoginFailure guess_key (3 * second)
     (fold lockout_step [Failed guess_key (1 * second), Failed guess_key (2 * second)] NewLoginAttemptTracker)) = 3"
  by (simp add: RecordLoginFailure_def lockout_step_def NewLoginAttemptTracker_def pruneIfDueLocked_def enforceMaxLocked_def
      attempt_of_def put_item_def lockoutDurationForFailures_def APILoginAttemptMaxEntries_def APILoginAttemptIdleTTL_def
      apiLoginAttemptPruneInterval_def second_def minute_def Let_def)

theorem lockout_enforced_instance:
  "fst (password_login_begin True \<lparr>lo_method = ''POST'', lo_body = Some (''a@b'', ''guess''), lo_ip = ''1.2.3.4''\<rparr> (5 * second)
     (fold lockout_step [Asked ''5.6.7.8'' (4 * second), Failed ''5.6.7.8'' (4 * second)]
       (snd (RecordLoginFailure guess_key (3 * second)
         (fold lockout_step [Failed guess_key (1 * second), Failed guess_key (2 * second)] NewLoginAttemptTracker)))))
     = (Inl LoginTooMany :: unit login_outcome + gostring \<times> gostring)"
proof (rule lockout_enforced [where n = 3 and ?t0.0 = "3 * second" and key = guess_key and email = "''a@b''" and password = "''guess''"])
  show "never_crowded (fold lockout_step [Failed guess_key (1 * second), Failed guess_key (2 * second)] NewLoginAttemptTracker)
      [Failed guess_key (3 * second), Asked ''5.6.7.8'' (4 * second), Failed ''5.6.7.8'' (4 * second)]"
    using lockout_step_length [of "Failed guess_key (1 * second)" NewLoginAttemptTracker]
      lockout_step_length [of "Failed guess_key (2 * second)" "lockout_step (Failed guess_key (1 * second)) NewLoginAttemptTracker"]
    by (intro never_crowded_short) (simp add: lockout_capacity_def APILoginAttemptMaxEntries_def
        apiLoginAttemptEvictionBatch_def NewLoginAttemptTracker_def)
qed (simp_all add: prod_eq_iff third_failure [unfolded second_def, simplified] event_time_def frees_def lockout_reference_def second_def minute_def)

end
