(* ===== verification/RouteOwnership.thy ===== *)
theory RouteOwnership
  imports ServerSpec "HOL-Library.Product_Lexorder"
begin

text \<open>
  Who owns a public route: \<open>internal/operator/route_ownership.go\<close>. All gateways of a cluster share one
  ingress, and the OAuth audience a server accepts is derived from its public URL, so two servers on
  one route would accept each other's tokens. The oldest claimant keeps a route; a later one is
  refused on every reconcile and loses its ingress.

  The cluster is the list of servers a reconcile reads and the ingresses that exist, by namespace
  and name. The outcomes of the Kubernetes client's calls are part of the event.
\<close>

section \<open>Routes\<close>

record public_route =
  pr_host :: gostring
  pr_path :: gostring

definition publicRouteOf :: "mcp_server \<Rightarrow> public_route" where
  "publicRouteOf s =
     (let p = trim_space (EffectivePublicPath (mo_spec s)) in
      \<lparr>pr_host = to_lower (trim_space (ms_ingress_host (mo_spec s))),
       pr_path = (if p = [] then [] else cleanURLPath p)\<rparr>)"

definition route_overlaps :: "public_route \<Rightarrow> public_route \<Rightarrow> bool" where
  "route_overlaps a b \<longleftrightarrow>
     (if pr_path a = [] \<or> pr_path a \<noteq> pr_path b then False
      else pr_host a = [] \<or> pr_host b = [] \<or> pr_host a = pr_host b)"

definition server_key :: "mcp_server \<Rightarrow> namespace \<times> gostring" where
  "server_key s = (om_namespace (mo_meta s), om_name (mo_meta s))"

definition olderServer :: "mcp_server \<Rightarrow> mcp_server \<Rightarrow> bool" where
  "olderServer a b =
     (if om_creation (mo_meta a) \<noteq> om_creation (mo_meta b) then om_creation (mo_meta a) < om_creation (mo_meta b)
      else if om_namespace (mo_meta a) \<noteq> om_namespace (mo_meta b)
      then om_namespace (mo_meta a) < om_namespace (mo_meta b)
      else om_name (mo_meta a) < om_name (mo_meta b))"

fun owner_loop :: "mcp_server \<Rightarrow> mcp_server option \<Rightarrow> mcp_server list \<Rightarrow> mcp_server option" where
  "owner_loop server owner [] = owner"
| "owner_loop server owner (x # rest) =
     (if om_namespace (mo_meta x) = om_namespace (mo_meta server) \<and> om_name (mo_meta x) = om_name (mo_meta server)
      then owner_loop server owner rest
      else if om_deletion (mo_meta x) \<noteq> None \<or> \<not> route_overlaps (publicRouteOf x) (publicRouteOf server)
      then owner_loop server owner rest
      else if olderServer x server \<and> (case owner of None \<Rightarrow> True | Some y \<Rightarrow> olderServer x y)
      then owner_loop server (Some x) rest
      else owner_loop server owner rest)"

definition publicRouteOwner :: "mcp_server \<Rightarrow> mcp_server list \<Rightarrow> mcp_server option" where
  "publicRouteOwner server all = owner_loop server None all"

section \<open>The check of a reconcile\<close>

datatype route_error = RouteListFailed | RouteDeleteFailed | RouteTaken gostring namespace gostring

text \<open>\<open>listed\<close> is what listing the servers returned, \<open>deleted\<close> whether deleting the ingress worked (not
  finding it counts as such).\<close>

definition checkPublicRouteOwnership ::
  "default_options \<Rightarrow> mcp_server \<Rightarrow> mcp_server list option \<Rightarrow> bool \<Rightarrow> (namespace \<times> gostring) list
    \<Rightarrow> route_error option \<times> (namespace \<times> gostring) list" where
  "checkPublicRouteOwnership opts server listed deleted ingresses =
     (case listed of
        None \<Rightarrow> (Some RouteListFailed, ingresses)
      | Some servers \<Rightarrow>
          (case publicRouteOwner server (map (defaultedMCPServerForReconcile opts) servers) of
             None \<Rightarrow> (None, ingresses)
           | Some owner \<Rightarrow>
               if \<not> deleted then (Some RouteDeleteFailed, ingresses)
               else (Some (RouteTaken (pr_path (publicRouteOf server)) (om_namespace (mo_meta owner)) (om_name (mo_meta owner))),
                     filter (\<lambda>k. k \<noteq> server_key server) ingresses)))"

text \<open>The part of a reconcile that decides about the ingress: the defaults, the validation of the spec
  (\<open>valid\<close> is its outcome), the check, and, when nothing before it fails (\<open>reached\<close>), the ingress
  itself.\<close>

definition reconcile_route ::
  "default_options \<Rightarrow> mcp_server \<Rightarrow> bool \<Rightarrow> mcp_server list option \<Rightarrow> bool \<Rightarrow> bool \<Rightarrow> (namespace \<times> gostring) list
    \<Rightarrow> (namespace \<times> gostring) list" where
  "reconcile_route opts raw valid listed deleted reached ingresses =
     (let server = defaultedMCPServerForReconcile opts raw in
      if \<not> valid then ingresses
      else
        (case checkPublicRouteOwnership opts server listed deleted ingresses of
           (Some _, left) \<Rightarrow> left
         | (None, left) \<Rightarrow> if reached then server_key server # left else left))"

section \<open>The order of servers\<close>

definition server_age :: "mcp_server \<Rightarrow> time \<times> namespace \<times> gostring" where
  "server_age s = (om_creation (mo_meta s), om_namespace (mo_meta s), om_name (mo_meta s))"

lemma olderServer_age: "olderServer a b \<longleftrightarrow> server_age a < server_age b"
  by (auto simp: olderServer_def server_age_def less_prod_def)

lemma server_age_key: "server_age a = server_age b \<Longrightarrow> server_key a = server_key b"
  by (simp add: server_age_def server_key_def)

lemma older_total: "server_key a \<noteq> server_key b \<Longrightarrow> olderServer a b \<or> olderServer b a"
  using server_age_key [of a b] linorder_less_linear [of "server_age a" "server_age b"] by (auto simp: olderServer_age)

lemma route_overlaps_sym: "route_overlaps a b \<Longrightarrow> route_overlaps b a"
  by (auto simp: route_overlaps_def split: if_splits)

definition claims_before :: "mcp_server \<Rightarrow> mcp_server \<Rightarrow> bool" where
  "claims_before x s \<longleftrightarrow>
     server_key x \<noteq> server_key s \<and> om_deletion (mo_meta x) = None \<and>
     route_overlaps (publicRouteOf x) (publicRouteOf s) \<and> olderServer x s"

lemma owner_loop_none: "owner_loop s acc all = None \<longleftrightarrow> acc = None \<and> (\<forall>x \<in> set all. \<not> claims_before x s)"
  by (induction s acc all rule: owner_loop.induct) (auto simp: claims_before_def server_key_def split: option.splits)

lemma owner_loop_some:
  "owner_loop s acc all = Some w \<Longrightarrow>
     (acc = Some w \<or> w \<in> set all \<and> claims_before w s) \<and>
     (\<forall>x \<in> set all. claims_before x s \<longrightarrow> \<not> olderServer x w) \<and> (\<forall>y. acc = Some y \<longrightarrow> \<not> olderServer y w)"
proof (induction s acc all rule: owner_loop.induct)
  case (2 s acc x rest)
  then show ?case
    by (auto simp: claims_before_def server_key_def olderServer_age split: if_splits option.splits)
qed (auto simp: olderServer_age)

text \<open>The owner is the oldest live server with an overlapping route that is older than the server.\<close>

lemma publicRouteOwner_none: "publicRouteOwner s all = None \<longleftrightarrow> (\<forall>x \<in> set all. \<not> claims_before x s)"
  by (simp add: publicRouteOwner_def owner_loop_none)

lemma publicRouteOwner_some:
  "publicRouteOwner s all = Some w \<Longrightarrow> w \<in> set all \<and> claims_before w s \<and> (\<forall>x \<in> set all. claims_before x s \<longrightarrow> \<not> olderServer x w)"
  using owner_loop_some [of s None all w] by (simp add: publicRouteOwner_def)

lemma owners_disjoint:
  assumes "a \<in> set all" "b \<in> set all" "om_deletion (mo_meta a) = None" "om_deletion (mo_meta b) = None"
    and "server_key a \<noteq> server_key b" "publicRouteOwner a all = None" "publicRouteOwner b all = None"
  shows "\<not> route_overlaps (publicRouteOf a) (publicRouteOf b)"
  using assms older_total [OF assms(5)] route_overlaps_sym [of "publicRouteOf a" "publicRouteOf b"]
  by (auto simp: publicRouteOwner_none claims_before_def)

end
