(* ===== verification/RouteClaims.thy ===== *)
theory RouteClaims
  imports RouteOwnership
begin

text \<open>
  What route ownership achieves: once every server has been reconciled, no two ingresses share a
  route, and two servers that own their routes never derive the same OAuth audience.
\<close>

section \<open>Reconciles of a cluster\<close>

text \<open>A reconcile of one server: whether its spec is valid, whether listing gives the cluster's servers or
  an error, whether a deletion works, and whether it gets as far as the ingress.\<close>

datatype route_event = Reconciled mcp_server bool bool bool bool

definition route_step :: "default_options \<Rightarrow> mcp_server list \<Rightarrow> route_event \<Rightarrow> (namespace \<times> gostring) list \<Rightarrow> (namespace \<times> gostring) list" where
  "route_step opts servers e ingresses =
     (case e of Reconciled s valid listed deleted reached \<Rightarrow>
        reconcile_route opts s valid (if listed then Some servers else None) deleted reached ingresses)"

definition event_of_cluster :: "mcp_server list \<Rightarrow> route_event \<Rightarrow> bool" where
  "event_of_cluster servers e = (case e of Reconciled s _ _ _ _ \<Rightarrow> s \<in> set servers)"

definition settled :: "default_options \<Rightarrow> mcp_server list \<Rightarrow> mcp_server \<Rightarrow> (namespace \<times> gostring) list \<Rightarrow> bool" where
  "settled opts servers s ingresses \<longleftrightarrow>
     (server_key s \<in> set ingresses \<longrightarrow>
        publicRouteOwner (defaultedMCPServerForReconcile opts s) (map (defaultedMCPServerForReconcile opts) servers) = None)"

lemma defaulted_meta [simp]: "mo_meta (defaultedMCPServerForReconcile opts s) = mo_meta s"
  by (simp add: defaultedMCPServerForReconcile_def ResolveDerivedAuth_def DefaultWithOptions_def Let_def split: option.split)

lemma defaulted_key [simp]: "server_key (defaultedMCPServerForReconcile opts s) = server_key s"
  by (simp add: server_key_def)

lemma same_key_same_server: "distinct (map server_key servers) \<Longrightarrow> s \<in> set servers \<Longrightarrow> t \<in> set servers \<Longrightarrow>
    server_key s = server_key t \<Longrightarrow> s = t"
  by (auto simp: distinct_map inj_on_def)

lemma step_settles:
  "settled opts servers s (route_step opts servers (Reconciled s True True True reached) ingresses)"
  by (simp add: settled_def route_step_def reconcile_route_def checkPublicRouteOwnership_def Let_def split: option.split)

lemma step_stays_settled:
  assumes "distinct (map server_key servers)" "s \<in> set servers" "event_of_cluster servers e" "settled opts servers s ingresses"
  shows "settled opts servers s (route_step opts servers e ingresses)"
proof (cases e)
  case (Reconciled t valid listed deleted reached)
  then have t: "t \<in> set servers" using assms(3) by (simp add: event_of_cluster_def)
  show ?thesis
  proof (cases "server_key s = server_key t")
    case True
    then have "s = t" using same_key_same_server [OF assms(1,2) t] by simp
    then show ?thesis
      using assms(4) Reconciled
      by (auto simp: settled_def route_step_def reconcile_route_def checkPublicRouteOwnership_def Let_def split: option.splits if_splits)
  next
    case False
    then show ?thesis
      using assms(4) Reconciled
      by (auto simp: settled_def route_step_def reconcile_route_def checkPublicRouteOwnership_def Let_def split: option.splits if_splits)
  qed
qed

lemma run_settles:
  assumes "distinct (map server_key servers)" "s \<in> set servers" "list_all (event_of_cluster servers) es"
    and "Reconciled s True True True reached \<in> set es"
  shows "settled opts servers s (fold (route_step opts servers) es ingresses)"
proof -
  have keep: "settled opts servers s (fold (route_step opts servers) es i)"
    if "list_all (event_of_cluster servers) es" "settled opts servers s i" for es i
    using that
  proof (induction es arbitrary: i)
    case (Cons e es)
    then show ?case using step_stays_settled [OF assms(1,2), of e opts i] by simp
  qed simp
  obtain es1 es2 where es: "es = es1 @ Reconciled s True True True reached # es2" using split_list [OF assms(4)] by blast
  then have "list_all (event_of_cluster servers) es2" using assms(3) by simp
  then show ?thesis by (simp add: es keep step_settles)
qed

text \<open>C27: Whatever ingresses exist to begin with, and in whatever order the servers of the cluster are
  reconciled, with failing calls in between: once each server has been through one reconcile that
  found its spec valid and whose calls worked, the public routes of any two servers that have an
  ingress and are not being deleted are disjoint. (A server that is being deleted loses its claim at
  once, but keeps its ingress until it is gone.)\<close>

theorem routes_have_one_backend:
  assumes "distinct (map server_key servers)" and "list_all (event_of_cluster servers) es"
    and "\<forall>s \<in> set servers. \<exists>reached. Reconciled s True True True reached \<in> set es"
    and "a \<in> set servers" and "b \<in> set servers" and "server_key a \<noteq> server_key b"
    and "om_deletion (mo_meta a) = None" and "om_deletion (mo_meta b) = None"
    and "server_key a \<in> set (fold (route_step opts servers) es ingresses)"
    and "server_key b \<in> set (fold (route_step opts servers) es ingresses)"
  shows "\<not> route_overlaps (publicRouteOf (defaultedMCPServerForReconcile opts a)) (publicRouteOf (defaultedMCPServerForReconcile opts b))"
proof -
  have "settled opts servers a (fold (route_step opts servers) es ingresses)"
    "settled opts servers b (fold (route_step opts servers) es ingresses)"
    using assms(3-5) run_settles [OF assms(1) _ assms(2)] by blast+
  then show ?thesis
    using assms(4-10) by (intro owners_disjoint [where all = "map (defaultedMCPServerForReconcile opts) servers"])
      (simp_all add: settled_def)
qed

section \<open>Audiences\<close>

lemma cleanURLPath_rooted: "\<exists>q. cleanURLPath v = CHR ''/'' # q"
proof (cases "fold clean_element (split_on (CHR ''/'') v) []")
  case (Cons p ps)
  then show ?thesis by (simp add: cleanURLPath_def)
qed (simp add: cleanURLPath_def)

lemma host_path_split:
  assumes "CHR ''/'' \<notin> set h" "CHR ''/'' \<notin> set g" "h @ CHR ''/'' # p = g @ CHR ''/'' # q"
  shows "h = g \<and> p = q"
proof -
  have "takeWhile (\<lambda>c. c \<noteq> CHR ''/'') (h @ CHR ''/'' # p) = h"
    using assms(1) by (induction h) auto
  moreover have "takeWhile (\<lambda>c. c \<noteq> CHR ''/'') (g @ CHR ''/'' # q) = g"
    using assms(2) by (induction g) auto
  ultimately have "h = g" using assms(3) by simp
  then show ?thesis using assms(3) by simp
qed

definition public_host :: "default_options \<Rightarrow> server_spec \<Rightarrow> gostring" where
  "public_host opts sp =
     (if trim_space (ms_ingress_host sp) = [] then trim_space (do_ingress_host opts) else trim_space (ms_ingress_host sp))"

lemma resource_url_parts:
  assumes "CanonicalResourceURL opts sp \<noteq> []"
  shows "\<exists>scheme. scheme \<in> {''http'', ''https''} \<and> trim_space (EffectivePublicPath sp) \<noteq> [] \<and>
    CanonicalResourceURL opts sp = scheme @ ''://'' @ public_host opts sp @ cleanURLPath (trim_space (EffectivePublicPath sp))"
  using assms by (auto simp: CanonicalResourceURL_def PublicBaseURL_def public_host_def Let_def split: if_splits)

lemma scheme_cancel:
  "s \<in> {''http'', ''https''} \<Longrightarrow> t \<in> {''http'', ''https''} \<Longrightarrow> s @ ''://'' @ x = t @ ''://'' @ y \<Longrightarrow> x = y"
  by auto

lemma resource_url_inj:
  assumes "CanonicalResourceURL opts sp = CanonicalResourceURL opts sq" "CanonicalResourceURL opts sp \<noteq> []"
    and "CHR ''/'' \<notin> set (public_host opts sp)" "CHR ''/'' \<notin> set (public_host opts sq)"
  shows "trim_space (EffectivePublicPath sp) \<noteq> [] \<and> trim_space (EffectivePublicPath sq) \<noteq> [] \<and>
    public_host opts sp = public_host opts sq \<and>
    cleanURLPath (trim_space (EffectivePublicPath sp)) = cleanURLPath (trim_space (EffectivePublicPath sq))"
proof -
  obtain s1 where s1: "s1 \<in> {''http'', ''https''}" "trim_space (EffectivePublicPath sp) \<noteq> []"
    "CanonicalResourceURL opts sp = s1 @ ''://'' @ public_host opts sp @ cleanURLPath (trim_space (EffectivePublicPath sp))"
    using resource_url_parts [OF assms(2)] by blast
  obtain s2 where s2: "s2 \<in> {''http'', ''https''}" "trim_space (EffectivePublicPath sq) \<noteq> []"
    "CanonicalResourceURL opts sq = s2 @ ''://'' @ public_host opts sq @ cleanURLPath (trim_space (EffectivePublicPath sq))"
    using resource_url_parts [of opts sq] assms(1,2) by auto
  obtain p q where p: "cleanURLPath (trim_space (EffectivePublicPath sp)) = CHR ''/'' # p"
    and q: "cleanURLPath (trim_space (EffectivePublicPath sq)) = CHR ''/'' # q"
    using cleanURLPath_rooted by blast
  have "public_host opts sp @ cleanURLPath (trim_space (EffectivePublicPath sp)) =
      public_host opts sq @ cleanURLPath (trim_space (EffectivePublicPath sq))"
    by (rule scheme_cancel [OF s1(1) s2(1)]) (simp only: s1(3) [symmetric] s2(3) [symmetric] assms(1))
  then have "public_host opts sp = public_host opts sq \<and> p = q"
    unfolding p q by (rule host_path_split [OF assms(3,4)])
  then show ?thesis using s1(2) s2(2) unfolding p q by blast
qed

lemma same_url_overlap:
  assumes "CanonicalResourceURL opts (mo_spec a) = CanonicalResourceURL opts (mo_spec b)"
    and "CanonicalResourceURL opts (mo_spec a) \<noteq> []"
    and "CHR ''/'' \<notin> set (public_host opts (mo_spec a))" "CHR ''/'' \<notin> set (public_host opts (mo_spec b))"
  shows "route_overlaps (publicRouteOf a) (publicRouteOf b)"
proof -
  obtain q where "cleanURLPath (trim_space (EffectivePublicPath (mo_spec a))) = CHR ''/'' # q"
    using cleanURLPath_rooted by blast
  then show ?thesis
    using resource_url_inj [OF assms] by (auto simp: route_overlaps_def publicRouteOf_def public_host_def Let_def split: if_splits)
qed

text \<open>C28: Two servers of the cluster that both own their public route, neither of which is being deleted,
  never get the same OAuth audience from it, so neither gateway accepts a token issued for the
  other; provided no public host contains a slash (Kubernetes refuses such an ingress).\<close>

theorem derived_audiences_distinct:
  assumes "a \<in> set all" and "b \<in> set all" and "server_key a \<noteq> server_key b"
    and "om_deletion (mo_meta a) = None" and "om_deletion (mo_meta b) = None"
    and "publicRouteOwner a all = None" and "publicRouteOwner b all = None"
    and "CHR ''/'' \<notin> set (public_host opts (mo_spec a))" and "CHR ''/'' \<notin> set (public_host opts (mo_spec b))"
    and "CanonicalResourceURL opts (mo_spec a) \<noteq> []"
  shows "CanonicalResourceURL opts (mo_spec a) \<noteq> CanonicalResourceURL opts (mo_spec b)"
  using owners_disjoint [OF assms(1,2,4,5,3,6,7)] same_url_overlap [OF _ assms(10,8,9)] by blast

section \<open>A chain of conflicts\<close>

definition routed_server :: "gostring \<Rightarrow> time \<Rightarrow> gostring \<Rightarrow> gostring \<Rightarrow> mcp_server" where
  "routed_server name created host pfx =
     \<lparr>mo_meta = \<lparr>om_name = name, om_namespace = ''team'', om_uid = name, om_annotations = [], om_creation = created, om_deletion = None\<rparr>,
      mo_spec = \<lparr>ms_credential_bindings = [], ms_team_id = [], ms_image = ''demo'', ms_image_tag = [], ms_replicas = None,
        ms_port = 8, ms_service_port = 80, ms_ingress_path = [], ms_ingress_host = host, ms_public_path_prefix = pfx,
        ms_ingress_class = [], ms_ingress_annotations = [], ms_secret_env_vars = [], ms_tools = [], ms_auth = None,
        ms_policy = None, ms_session = None, ms_gateway = None, ms_analytics = None, ms_rollout = None\<rparr>\<rparr>"

definition route_options :: default_options where
  "route_options = \<lparr>do_ingress_host = ''apps.x'', do_ingress_tls = True, do_ingest_url = [], do_oauth_issuer = []\<rparr>"

definition on_a :: mcp_server where "on_a = routed_server ''a'' 1 ''a.x'' ''p''"

definition on_any :: mcp_server where "on_any = routed_server ''b'' 2 [] ''p''"

definition on_c :: mcp_server where "on_c = routed_server ''c'' 3 ''c.x'' ''p''"

definition chain :: "mcp_server list" where "chain = [on_a, on_any, on_c]"

definition chain_run :: "route_event list" where
  "chain_run = [Reconciled on_c True True True True, Reconciled on_any True True True True, Reconciled on_a True True True True]"

text \<open>C: The servers a (on a.x), b (on any host) and c (on c.x) claim one path, in this order. b is refused
  in favour of a; c is refused in favour of b, which serves nothing, although its route is free: it
  does not overlap with a's, the only route that is served.\<close>

theorem free_route_refused:
  "fold (route_step route_options chain) chain_run [] = [server_key on_a] \<and>
   fst (checkPublicRouteOwnership route_options (defaultedMCPServerForReconcile route_options on_c) (Some chain) True [server_key on_a])
     = Some (RouteTaken ''/p/mcp'' ''team'' ''b'') \<and>
   \<not> route_overlaps (publicRouteOf (defaultedMCPServerForReconcile route_options on_c))
       (publicRouteOf (defaultedMCPServerForReconcile route_options on_a))"
  by code_simp

text \<open>The server a is being deleted and reconciled once more before it is gone: it is still the owner of its
  route, so its ingress is kept, and the newer server d on the same host and path is an owner too.\<close>

definition ending_a :: mcp_server where
  "ending_a = on_a\<lparr>mo_meta := (mo_meta on_a)\<lparr>om_deletion := Some 9\<rparr>\<rparr>"

definition on_d :: mcp_server where "on_d = routed_server ''d'' 4 ''a.x'' ''p''"

lemma terminating_owner_shares_route:
  "list_all (\<lambda>k. List.member (fold (route_step route_options [ending_a, on_d])
     [Reconciled on_d True True True True, Reconciled ending_a True True True True] [server_key on_a]) k)
     [server_key ending_a, server_key on_d] \<and>
   publicRouteOf (defaultedMCPServerForReconcile route_options ending_a) =
   publicRouteOf (defaultedMCPServerForReconcile route_options on_d) \<and>
   CanonicalResourceURL route_options (mo_spec ending_a) = CanonicalResourceURL route_options (mo_spec on_d)"
  by code_simp

section \<open>Instances\<close>

definition two_routes :: "mcp_server list" where "two_routes = [on_a, on_c]"

theorem routes_have_one_backend_instance:
  "\<not> route_overlaps (publicRouteOf (defaultedMCPServerForReconcile route_options on_a))
     (publicRouteOf (defaultedMCPServerForReconcile route_options on_c))"
proof (rule routes_have_one_backend [where servers = two_routes and ingresses = "[(''team'', ''c'')]"
      and es = "[Reconciled on_c True True True True, Reconciled on_a True False True True, Reconciled on_a True True True True]"])
  show "\<forall>s \<in> set two_routes. \<exists>reached. Reconciled s True True True reached \<in>
      set [Reconciled on_c True True True True, Reconciled on_a True False True True, Reconciled on_a True True True True]"
    by (auto simp: two_routes_def)
  show "server_key on_a \<in> set (fold (route_step route_options two_routes)
      [Reconciled on_c True True True True, Reconciled on_a True False True True, Reconciled on_a True True True True] [(''team'', ''c'')])"
    "server_key on_c \<in> set (fold (route_step route_options two_routes)
      [Reconciled on_c True True True True, Reconciled on_a True False True True, Reconciled on_a True True True True] [(''team'', ''c'')])"
    by code_simp+
qed (auto simp: two_routes_def event_of_cluster_def server_key_def on_a_def on_c_def routed_server_def)

theorem derived_audiences_distinct_instance:
  "CanonicalResourceURL route_options (mo_spec on_a) \<noteq> CanonicalResourceURL route_options (mo_spec on_c)"
proof (rule derived_audiences_distinct [where all = two_routes])
  show "publicRouteOwner on_a two_routes = None" "publicRouteOwner on_c two_routes = None"
    "CanonicalResourceURL route_options (mo_spec on_a) \<noteq> []"
    "CHR ''/'' \<notin> set (public_host route_options (mo_spec on_a))"
    "CHR ''/'' \<notin> set (public_host route_options (mo_spec on_c))"
    by code_simp+
qed (simp_all add: two_routes_def server_key_def on_a_def on_c_def routed_server_def)

end
