(* ===== verification/SessionApi.thy ===== *)
theory SessionApi
  imports SessionClaims
begin

text \<open>
  The session endpoints of the platform API (\<open>services/platform-api/internal/sessionapi/handlers.go\<close>):
  the control plane manages sessions with a shared token, gateways read the sessions of the server
  their token stands for. And the control plane's client that lists sessions page by page
  (\<open>services/runtime-api/internal/platformclient/sessions.go\<close>).

  A request carries its decoded query and what decoding its body as each expected type gives
  (\<^term>\<open>None\<close> when it is malformed, too large, or has unknown fields). The path is the one the mux
  has cleaned. \<open>authenticate\<close> is the token review of the workload identity.
\<close>

section \<open>Requests and replies\<close>

record api_request =
  rq_method :: gostring
  rq_path :: gostring
  rq_authorization :: gostring
  rq_query :: "(gostring \<times> gostring) list"
  rq_session :: "session_row option"
  rq_revoke :: "(bool \<times> gostring) option"
  rq_bulk :: "(session_filter \<times> gostring) option"
  rq_enroll :: "gostring option"

datatype session_reply =
    ApiFail nat
  | ApiStatus nat
  | ApiSession nat session_row
  | ApiPage session_page
  | ApiCount nat
  | ApiSnapshot session_snapshot
  | ApiChanges session_changes

record session_api =
  sa_store :: bool
  sa_token :: gostring
  sa_authenticate :: "(gostring \<Rightarrow> server_ident option) option"

definition AccessPath :: gostring where "AccessPath = ''/internal/access/sessions''"

definition GatewayPath :: gostring where "GatewayPath = ''/internal/gateway/v1/sessions''"

definition query_value :: "(gostring \<times> gostring) list \<Rightarrow> gostring \<Rightarrow> gostring" where
  "query_value q k = (case map_of q k of None \<Rightarrow> [] | Some v \<Rightarrow> v)"

definition bearer_value :: "gostring \<Rightarrow> gostring" where
  "bearer_value v = (if \<not> has_prefix v ''Bearer '' then [] else trim_space (trim_prefix v ''Bearer ''))"

text \<open>\<open>strconv\<close>: decimal digits with an optional sign; \<open>Atoi\<close> whose error is ignored gives 0 for a
  malformed number. Its value for a number out of range is one the store clamps, like the number
  itself.\<close>

definition parse_digits :: "gostring \<Rightarrow> int option" where
  "parse_digits s =
     (if s = [] \<or> \<not> list_all (\<lambda>c. CHR ''0'' \<le> c \<and> c \<le> CHR ''9'') s then None
      else Some (fold (\<lambda>c n. n * 10 + (int (of_char c) - 48)) s 0))"

definition parse_decimal :: "gostring \<Rightarrow> int option" where
  "parse_decimal s =
     (if has_prefix s ''-'' then map_option uminus (parse_digits (tl s))
      else if has_prefix s ''+'' then parse_digits (tl s)
      else parse_digits s)"

definition parse_int64 :: "gostring \<Rightarrow> int option" where
  "parse_int64 s =
     (case parse_decimal s of
        None \<Rightarrow> None
      | Some n \<Rightarrow> if - (2 ^ 63) \<le> n \<and> n < 2 ^ 63 then Some n else None)"

definition query_limit :: "(gostring \<times> gostring) list \<Rightarrow> int" where
  "query_limit q = (case parse_decimal (query_value q ''limit'') of None \<Rightarrow> 0 | Some n \<Rightarrow> n)"

definition storeError :: "store_error \<Rightarrow> session_reply" where
  "storeError e =
     (case e of
        ErrNotFound \<Rightarrow> ApiFail 404
      | ErrConflict \<Rightarrow> ApiFail 409
      | ErrInactiveAgent \<Rightarrow> ApiFail 403
      | ErrInactiveHuman \<Rightarrow> ApiFail 403
      | _ \<Rightarrow>
          if List.member [ErrInvalidSession, ErrMissingField, ErrMissingSubject, ErrMissingTeam, ErrInvalidIdentity,
              ErrNamespaceMismatch, ErrInvalidExpiry] e
          then ApiFail 400 else ApiFail 503)"

section \<open>The control plane\<close>

definition query_filter :: "(gostring \<times> gostring) list \<Rightarrow> session_filter" where
  "query_filter q =
     filter_zero\<lparr>fi_namespace := query_value q ''namespace'', fi_server_name := query_value q ''server'',
       fi_server_uid := query_value q ''server_uid'', fi_agent := query_value q ''agent_id'',
       fi_grant_namespace := query_value q ''grant_namespace'', fi_grant_name := query_value q ''grant_name'',
       fi_after := query_value q ''after'', fi_limit := query_limit q\<rparr>"

definition api_collection :: "api_request \<Rightarrow> time \<Rightarrow> gostring \<Rightarrow> session_db \<Rightarrow> session_reply \<times> session_db" where
  "api_collection r now fresh db =
     (if rq_method r = ''POST''
      then
        (case rq_session r of
           None \<Rightarrow> (ApiFail 400, db)
         | Some item \<Rightarrow>
             if se_namespace item = [] \<or> row_name item = [] \<or> se_server_namespace item = [] \<or>
                se_server_name item = [] \<or> se_server_uid item = [] \<or>
                bd_agent_id (se_binding item) = [] \<and> bd_human_id (se_binding item) = [] \<and> bd_team_id (se_binding item) = []
             then (ApiFail 400, db)
             else (case PutSession item now fresh db of
                     Inl e \<Rightarrow> (storeError e, db)
                   | Inr (row, db1) \<Rightarrow> (ApiSession 201 row, db1)))
      else if rq_method r = ''GET'' then (ApiPage (ListSessions (query_filter (rq_query r)) db), db)
      else (ApiStatus 405, db))"

definition api_enrollment ::
  "api_request \<Rightarrow> gostring \<Rightarrow> gostring \<Rightarrow> time \<Rightarrow> session_db \<Rightarrow> session_reply \<times> session_db" where
  "api_enrollment r ns name now db =
     (let finish = (\<lambda>res. case res of Inl e \<Rightarrow> (storeError e, db) | Inr db1 \<Rightarrow> (ApiStatus 204, db1)) in
      if rq_method r = ''PATCH''
      then (case rq_enroll r of
              None \<Rightarrow> (ApiFail 400, db)
            | Some uid \<Rightarrow> if uid = [] then (ApiFail 400, db) else finish (CompleteSessionEnrollment ns name uid now db))
      else if rq_method r = ''DELETE''
      then (let uid = query_value (rq_query r) ''uid''; human = query_value (rq_query r) ''human_id'' in
            if uid = [] \<or> human = [] then (ApiFail 400, db) else finish (DeletePendingSession ns name uid human now db))
      else (ApiStatus 405, db))"

definition api_bulk_revoke :: "api_request \<Rightarrow> time \<Rightarrow> session_db \<Rightarrow> session_reply \<times> session_db" where
  "api_bulk_revoke r now db =
     (if rq_method r \<noteq> ''POST'' then (ApiStatus 405, db)
      else
        (case rq_bulk r of
           None \<Rightarrow> (ApiFail 400, db)
         | Some (f, cause) \<Rightarrow>
             if fi_server_uid f = [] \<and> fi_agent f = [] \<and> fi_grant_name f = [] then (ApiFail 400, db)
             else (case RevokeSessions f cause now db of
                     Inl e \<Rightarrow> (storeError e, db)
                   | Inr (n, db1) \<Rightarrow> (ApiCount n, db1))))"

definition api_session :: "api_request \<Rightarrow> gostring \<Rightarrow> gostring \<Rightarrow> time \<Rightarrow> session_db \<Rightarrow> session_reply \<times> session_db" where
  "api_session r ns name now db =
     (if rq_method r = ''GET''
      then (case GetSession ns name db of None \<Rightarrow> (ApiFail 404, db) | Some item \<Rightarrow> (ApiSession 200 item, db))
      else if rq_method r = ''PATCH''
      then (case rq_revoke r of
              None \<Rightarrow> (ApiFail 400, db)
            | Some (revoked, cause) \<Rightarrow>
                (case SetSessionRevoked ns name revoked cause now db of
                   Inl e \<Rightarrow> (storeError e, db) | Inr db1 \<Rightarrow> (ApiStatus 204, db1)))
      else if rq_method r = ''DELETE''
      then (case DeleteSessionVersioned ns name (query_value (rq_query r) ''uid'') db of
              Inl e \<Rightarrow> (storeError e, db) | Inr db1 \<Rightarrow> (ApiStatus 204, db1))
      else (ApiStatus 405, db))"

definition api_item :: "api_request \<Rightarrow> time \<Rightarrow> session_db \<Rightarrow> session_reply \<times> session_db" where
  "api_item r now db =
     (let p = trim_prefix (rq_path r) (AccessPath @ ''/'') in
      if p = ''revoke'' then api_bulk_revoke r now db
      else
        (case split_on (CHR ''/'') p of
           [ns, name, tail] \<Rightarrow>
             if ns \<noteq> [] \<and> name \<noteq> [] \<and> tail = ''enrollment'' then api_enrollment r ns name now db
             else (ApiStatus 404, db)
         | [ns, name] \<Rightarrow> if ns = [] \<or> name = [] then (ApiStatus 404, db) else api_session r ns name now db
         | _ \<Rightarrow> (ApiStatus 404, db)))"

definition serve_access :: "session_api \<Rightarrow> api_request \<Rightarrow> time \<Rightarrow> gostring \<Rightarrow> session_db \<Rightarrow> session_reply \<times> session_db" where
  "serve_access api r now fresh db =
     (if rq_path r \<noteq> AccessPath \<and> \<not> has_prefix (rq_path r) (AccessPath @ ''/'') then (ApiStatus 404, db)
      else
        (let token = bearer_value (rq_authorization r) in
         if sa_token api = [] \<or> token = [] \<or> token \<noteq> sa_token api then (ApiFail 401, db)
         else if \<not> sa_store api then (ApiFail 503, db)
         else if rq_path r = AccessPath then api_collection r now fresh db
         else api_item r now db))"

section \<open>The gateways\<close>

text \<open>\<open>session_api.Gateway\<close>: reads only, so the store is not part of the result.\<close>

definition serve_gateway :: "session_api \<Rightarrow> api_request \<Rightarrow> time \<Rightarrow> session_db \<Rightarrow> session_reply" where
  "serve_gateway api r now db =
     (if rq_path r \<noteq> GatewayPath \<and> \<not> has_prefix (rq_path r) (GatewayPath @ ''/'') then ApiStatus 404
      else if rq_method r \<noteq> ''GET'' then ApiStatus 405
      else
        (case sa_authenticate api of
           None \<Rightarrow> ApiFail 401
         | Some authenticate \<Rightarrow>
             if bearer_value (rq_authorization r) = [] then ApiFail 401
             else
               (case authenticate (bearer_value (rq_authorization r)) of
                  None \<Rightarrow> ApiFail 403
                | Some srv \<Rightarrow>
                    if sn_uid srv = [] \<or> sn_namespace srv = [] then ApiFail 403
                    else if \<not> sa_store api then ApiFail 503
                    else if rq_path r = GatewayPath then ApiSnapshot (SessionSnapshot srv now db)
                    else if rq_path r = GatewayPath @ ''/changes''
                    then
                      (case parse_int64 (query_value (rq_query r) ''after'') of
                         None \<Rightarrow> ApiFail 400
                       | Some after \<Rightarrow>
                           if after < 0 \<or> query_value (rq_query r) ''epoch'' = [] then ApiFail 400
                           else
                             (case SessionChanges srv (query_value (rq_query r) ''epoch'') after db of
                                Inl e \<Rightarrow> if e = ErrReset then ApiFail 410 else storeError e
                              | Inr out \<Rightarrow> ApiChanges out))
                    else
                      (case split_on (CHR ''/'') (trim_prefix (rq_path r) (GatewayPath @ ''/'')) of
                         [ns, name] \<Rightarrow>
                           if ns = [] \<or> name = [] then ApiStatus 404
                           else
                             (case GetSession ns name db of
                                None \<Rightarrow> ApiFail 404
                              | Some item \<Rightarrow>
                                  if se_server_uid item \<noteq> sn_uid srv \<or> se_server_namespace item \<noteq> sn_namespace srv \<or>
                                     se_server_name item \<noteq> sn_name srv
                                  then ApiFail 404 else ApiSession 200 item)
                       | _ \<Rightarrow> ApiStatus 404))))"

section \<open>The client\<close>

text \<open>A request for a page fails with a status (0 when it was not answered) or brings a page.\<close>

datatype list_answer = ListFailed nat | ListPage session_page

datatype client_error = ClientNotConfigured | ClientStatus nat | ClientCursor

definition list_query :: "session_filter \<Rightarrow> (gostring \<times> gostring) list" where
  "list_query f =
     [(''namespace'', fi_namespace f), (''server'', fi_server_name f), (''server_uid'', fi_server_uid f),
      (''agent_id'', fi_agent f), (''grant_namespace'', fi_grant_namespace f), (''grant_name'', fi_grant_name f),
      (''after'', fi_after f), (''limit'', ''1000'')]"

text \<open>The loop of \<open>ListSessionsFiltered\<close>; \<open>ask n\<close> answers the n-th request. It has no bound of its own:
  not returning is \<^term>\<open>None\<close>.\<close>

partial_function (option) list_pages ::
  "(nat \<Rightarrow> (gostring \<times> gostring) list \<Rightarrow> list_answer) \<Rightarrow> nat \<Rightarrow> session_filter \<Rightarrow> session_row list
    \<Rightarrow> (client_error + session_row list) option" where
  "list_pages ask n f items =
     (case ask n (list_query f) of
        ListFailed st \<Rightarrow> Some (Inl (ClientStatus st))
      | ListPage page \<Rightarrow>
          if pa_next page = [] then Some (Inr (items @ pa_sessions page))
          else if pa_next page \<le> fi_after f then Some (Inl ClientCursor)
          else list_pages ask (Suc n) (f\<lparr>fi_after := pa_next page\<rparr>) (items @ pa_sessions page))"

definition ListSessionsFiltered ::
  "bool \<Rightarrow> (nat \<Rightarrow> (gostring \<times> gostring) list \<Rightarrow> list_answer) \<Rightarrow> session_filter \<Rightarrow> (client_error + session_row list) option" where
  "ListSessionsFiltered is_configured ask f =
     (if \<not> is_configured then Some (Inl ClientNotConfigured) else list_pages ask 0 f [])"

text \<open>The client's request against the endpoint, while the store goes through the states \<open>dbs\<close>.\<close>

definition ask_platform :: "session_api \<Rightarrow> gostring \<Rightarrow> (nat \<Rightarrow> session_db) \<Rightarrow> nat \<Rightarrow> (gostring \<times> gostring) list \<Rightarrow> list_answer" where
  "ask_platform api token dbs n q =
     (case fst (serve_access api
        \<lparr>rq_method = ''GET'', rq_path = AccessPath, rq_authorization = ''Bearer '' @ token, rq_query = q,
         rq_session = None, rq_revoke = None, rq_bulk = None, rq_enroll = None\<rparr> 0 [] (dbs n)) of
        ApiPage page \<Rightarrow> ListPage page
      | ApiFail st \<Rightarrow> ListFailed st
      | _ \<Rightarrow> ListFailed 0)"

end
