(* ===== verification/SessionApiClaims.thy ===== *)
theory SessionApiClaims
  imports SessionApi
begin

text \<open>
  What the endpoints guarantee: a gateway reads the sessions of its own server only, and the control
  plane's paged listing ends and misses nothing, whatever is written meanwhile.
\<close>

section \<open>The log belongs to its servers\<close>

definition log_scoped :: "session_db \<Rightarrow> bool" where
  "log_scoped db \<longleftrightarrow>
     list_all (\<lambda>e. case ch_session (lg_change e) of
         None \<Rightarrow> True
       | Some r \<Rightarrow> se_server_namespace r = lg_server_namespace e \<and> se_server_uid r = lg_server_uid e) (db_changes db)"

lemma append_scoped: "log_scoped db \<Longrightarrow> log_scoped (appendSessionChange item d db)"
  by (auto simp: log_scoped_def appendSessionChange_def Let_def list_all_iff)

lemma prim_scoped: "prim db db' \<Longrightarrow> log_scoped db \<Longrightarrow> log_scoped db'"
proof (induction rule: prim.induct)
  case (prim_write item db)
  then show ?case unfolding writeSession_def by (intro append_scoped) (simp add: log_scoped_def)
next
  case (prim_delete item db)
  then show ?case unfolding deleteSessionTx_def by (intro append_scoped) (simp add: log_scoped_def)
qed (simp add: log_scoped_def)

lemma prims_scoped: "prim\<^sup>*\<^sup>* db db' \<Longrightarrow> log_scoped db \<Longrightarrow> log_scoped db'"
  by (induction rule: rtranclp_induct) (auto intro: prim_scoped)

lemma step_scoped: "store_ok db \<Longrightarrow> log_scoped db \<Longrightarrow> log_scoped (store_step e db)"
proof (cases "\<exists>ep. e = EvRestart ep")
  case True
  then show "log_scoped db \<Longrightarrow> log_scoped (store_step e db)" by (auto simp: initializeSessions_def log_scoped_def)
next
  case False
  then show "store_ok db \<Longrightarrow> log_scoped db \<Longrightarrow> log_scoped (store_step e db)"
    using prims_scoped [OF step_prims [of db e]] by blast
qed

interpretation scoped_machine: step_machine store_step "\<lambda>db. store_ok db \<and> log_scoped db"
  using store_machine.step_inv step_scoped by unfold_locales blast

section \<open>What a gateway reads\<close>

definition reply_sessions :: "session_reply \<Rightarrow> session_row list" where
  "reply_sessions r =
     (case r of
        ApiSession _ s \<Rightarrow> [s]
      | ApiPage p \<Rightarrow> pa_sessions p
      | ApiSnapshot s \<Rightarrow> sp_sessions s
      | ApiChanges c \<Rightarrow> List.map_filter ch_session (cs_changes c)
      | _ \<Rightarrow> [])"

lemma changes_scoped:
  assumes "log_scoped db" "SessionChanges srv epoch after db = Inr out" "c \<in> set (cs_changes out)" "ch_session c = Some s"
  shows "se_server_namespace s = sn_namespace srv \<and> se_server_uid s = sn_uid srv"
proof -
  have "c \<in> set (server_log srv after db)"
    using assms(2,3) by (auto simp: SessionChanges_def Let_def split: if_splits dest: in_set_takeD)
  then obtain e where "e \<in> set (db_changes db)" "c = lg_change e" "lg_server_namespace e = sn_namespace srv"
    "lg_server_uid e = sn_uid srv"
    by (auto simp: server_log_def)
  then show ?thesis using assms(1,4) by (auto simp: log_scoped_def list_all_iff split: option.splits)
qed

text \<open>C30: From whatever state the store has reached, every session in a reply of the gateway endpoint is a
  session of the server that the review of the request's bearer token names; without a token that
  a review accepts nothing is read, whatever path and query say.\<close>

theorem gateway_reads_own_sessions:
  assumes "s \<in> set (reply_sessions (serve_gateway api r now (fold store_step es empty_db)))"
  shows "\<exists>authenticate srv. sa_authenticate api = Some authenticate \<and> bearer_value (rq_authorization r) \<noteq> [] \<and>
     authenticate (bearer_value (rq_authorization r)) = Some srv \<and> sn_uid srv \<noteq> [] \<and>
     se_server_uid s = sn_uid srv \<and> se_server_namespace s = sn_namespace srv"
proof -
  let ?db = "fold store_step es empty_db"
  have "log_scoped ?db"
    by (rule conjunct2 [OF scoped_machine.run_inv]) (simp add: log_scoped_def, simp add: empty_db_def)
  obtain authenticate srv where auth: "sa_authenticate api = Some authenticate" "bearer_value (rq_authorization r) \<noteq> []"
    "authenticate (bearer_value (rq_authorization r)) = Some srv" "sn_uid srv \<noteq> []"
    using assms by (auto simp: serve_gateway_def reply_sessions_def split: if_splits option.splits)
  have "se_server_uid s = sn_uid srv \<and> se_server_namespace s = sn_namespace srv"
    using assms auth changes_scoped [OF \<open>log_scoped ?db\<close>]
    by (auto simp: serve_gateway_def reply_sessions_def SessionSnapshot_def storeError_def map_filter_def
        split: if_splits option.splits sum.splits list.splits store_error.splits)
  with auth show ?thesis by blast
qed

section \<open>Listing by pages\<close>

text \<open>The endpoint answers the client's query with the page of the filter the client meant, except that
  the query does not carry the person of the filter.\<close>

definition sent_filter :: "session_filter \<Rightarrow> session_filter" where
  "sent_filter f = f\<lparr>fi_human := [], fi_limit := 1000\<rparr>"

lemma query_filter_list [simp]: "query_filter (list_query f) = sent_filter f"
proof -
  have "parse_decimal ''1000'' = Some 1000" by code_simp
  then show ?thesis
    by (simp add: query_filter_def list_query_def query_value_def query_limit_def sent_filter_def filter_zero_def)
qed

lemma bearer_value_Bearer: "trim_space token = token \<Longrightarrow> bearer_value (''Bearer '' @ token) = token"
  by (simp add: bearer_value_def has_prefix_def trim_prefix_def)

definition answers_pages :: "session_api \<Rightarrow> gostring \<Rightarrow> bool" where
  "answers_pages api token \<longleftrightarrow> sa_store api \<and> sa_token api = token \<and> token \<noteq> [] \<and> trim_space token = token"

lemma ask_platform_page:
  "answers_pages api token \<Longrightarrow> ask_platform api token dbs n (list_query f) = ListPage (ListSessions (sent_filter f) (dbs n))"
  by (simp add: ask_platform_def answers_pages_def serve_access_def bearer_value_Bearer [unfolded append.simps] api_collection_def Let_def)

text \<open>What one page of a filter holds.\<close>

lemma page_limit_sent [simp]: "page_limit (sent_filter f) = 1000"
  by (simp add: page_limit_def sent_filter_def)

lemma sent_filter_after: "sent_filter (f\<lparr>fi_after := c\<rparr>) = (sent_filter f)\<lparr>fi_after := c\<rparr>"
  by (simp add: sent_filter_def)

lemma matching_mem: "r \<in> set (matching_rows f db) \<longleftrightarrow> r \<in> set (db_sessions db) \<and> sessionFilter f r"
  by (auto simp: matching_rows_def)

lemma page_cursor:
  assumes "store_ok db" "pa_next (ListSessions f db) \<noteq> []"
  shows "\<exists>r \<in> set (pa_sessions (ListSessions f db)). se_id r = pa_next (ListSessions f db) \<and>
    (\<forall>s \<in> set (pa_sessions (ListSessions f db)). se_id s \<le> se_id r)"
proof -
  define xs where "xs = matching_rows f db"
  define n where "n = page_limit f"
  have n: "0 < n" by (simp add: n_def page_limit_def)
  have list: "ListSessions f db =
      (if n < length xs then \<lparr>pa_sessions = take n xs, pa_next = se_id (xs ! (n - 1))\<rparr>
       else \<lparr>pa_sessions = xs, pa_next = []\<rparr>)"
    unfolding ListSessions_def matching_rows_def [symmetric] xs_def [symmetric] n_def [symmetric] Let_def
    using n by (simp add: min_def)
  then have long: "n < length xs" using assms(2) by (auto split: if_splits)
  have sorted: "sorted_wrt (<) (map se_id xs)" using sorted_matching [OF assms(1)] by (simp add: xs_def)
  have "se_id s \<le> se_id (xs ! (n - 1))" if s: "s \<in> set (take n xs)" for s
  proof -
    obtain i where i: "i < n" "s = xs ! i" using s by (auto simp: in_set_conv_nth)
    then show ?thesis
      using sorted_wrt_nth_less [OF sorted, of i "n - 1"] long by (cases "i = n - 1") (auto intro: less_imp_le)
  qed
  moreover have "take n xs ! (n - 1) \<in> set (take n xs)" by (rule nth_mem) (use long n in simp)
  then have "xs ! (n - 1) \<in> set (take n xs)" using n by simp
  ultimately show ?thesis using long by (auto simp: list)
qed

lemma sessionFilter_split:
  "sessionFilter g s \<longleftrightarrow> sessionFilter (g\<lparr>fi_after := []\<rparr>) s \<and> (fi_after g = [] \<or> fi_after g < se_id s)"
  by (simp add: sessionFilter_def)

lemma after_cursor:
  assumes "fi_after g < c" "c \<noteq> []" "sessionFilter (g\<lparr>fi_after := c\<rparr>) s"
  shows "sessionFilter g s \<and> c < se_id s"
  using assms sessionFilter_split [of g s] sessionFilter_split [of "g\<lparr>fi_after := c\<rparr>" s]
  by (auto dest: less_trans)

lemma less_empty: "c \<noteq> [] \<Longrightarrow> ([] :: gostring) < c"
  by (cases c) simp_all

text \<open>The loop, from any cursor on: it ends because every further page moves the cursor to a larger
  identifier, of which there are finitely many.\<close>

lemma list_pages_result:
  assumes api: "answers_pages api token" and ok: "\<And>m. store_ok (dbs m)" and fin: "finite K"
    and ids: "\<And>m r. r \<in> set (db_sessions (dbs m)) \<Longrightarrow> se_id r \<in> K"
  shows "\<exists>new. list_pages (ask_platform api token dbs) n f items = Some (Inr (items @ new)) \<and>
     sorted_wrt (<) (map se_id new) \<and>
     (\<forall>r \<in> set new. (\<exists>m. r \<in> set (db_sessions (dbs m))) \<and> sessionFilter (sent_filter f) r) \<and>
     (\<forall>r. (\<forall>m. r \<in> set (db_sessions (dbs m))) \<longrightarrow> sessionFilter (sent_filter f) r \<longrightarrow> r \<in> set new)"
proof (induction "card {k \<in> K. fi_after f < k}" arbitrary: n f items rule: less_induct)
  case less
  let ?g = "sent_filter f" and ?p = "ListSessions (sent_filter f) (dbs n)"
  note split = pages_complete [OF ok, of ?g n]
  note sorted = sorted_matching [OF ok, of ?g n]
  show ?case
  proof (cases "pa_next ?p = []")
    case True
    then have "pa_sessions ?p = matching_rows ?g (dbs n)" using split by simp
    then show ?thesis
      using True sorted matching_mem [of _ ?g "dbs n"]
      by (subst list_pages.simps) (auto simp: ask_platform_page [OF api])
  next
    case False
    define c where "c = pa_next ?p"
    obtain r where r: "r \<in> set (pa_sessions ?p)" "se_id r = c" "\<forall>s \<in> set (pa_sessions ?p). se_id s \<le> c"
      using page_cursor [OF ok False] by (auto simp: c_def)
    have rm: "r \<in> set (matching_rows ?g (dbs n))" using split r(1) by (metis UnI1 set_append)
    then have "c \<in> K" using ids r(2) matching_mem by blast
    have "fi_after f = [] \<or> fi_after f < c" using rm r(2) by (auto simp: matching_mem sessionFilter_def sent_filter_def)
    then have after: "fi_after f < c" using less_empty [of c] False by (auto simp: c_def)
    have "{k \<in> K. c < k} \<subset> {k \<in> K. fi_after f < k}" using after \<open>c \<in> K\<close> by auto
    then have "card {k \<in> K. fi_after (f\<lparr>fi_after := c\<rparr>) < k} < card {k \<in> K. fi_after f < k}"
      using psubset_card_mono [of "{k \<in> K. fi_after f < k}"] fin by simp
    from less [OF this, of "Suc n" "items @ pa_sessions ?p"] obtain new where new:
      "list_pages (ask_platform api token dbs) (Suc n) (f\<lparr>fi_after := c\<rparr>) (items @ pa_sessions ?p) =
         Some (Inr ((items @ pa_sessions ?p) @ new))"
      "sorted_wrt (<) (map se_id new)"
      "\<forall>r \<in> set new. (\<exists>m. r \<in> set (db_sessions (dbs m))) \<and> sessionFilter (?g\<lparr>fi_after := c\<rparr>) r"
      "\<forall>r. (\<forall>m. r \<in> set (db_sessions (dbs m))) \<longrightarrow> sessionFilter (?g\<lparr>fi_after := c\<rparr>) r \<longrightarrow> r \<in> set new"
      by (auto simp: sent_filter_after)
    have later: "sessionFilter ?g s \<and> c < se_id s" if "s \<in> set new" for s
      using after_cursor [of ?g c s] after False new(3) that by (simp add: c_def sent_filter_def)
    have all: "matching_rows ?g (dbs n) = pa_sessions ?p @ matching_rows (?g\<lparr>fi_after := c\<rparr>) (dbs n)"
      using split False by (simp add: c_def)
    have "list_pages (ask_platform api token dbs) n f items = Some (Inr (items @ (pa_sessions ?p @ new)))"
      using False after new(1) by (subst list_pages.simps) (simp add: ask_platform_page [OF api] c_def leD)
    moreover have "sorted_wrt (<) (map se_id (pa_sessions ?p @ new))"
      using sorted new(2) r(3) later by (auto simp: all sorted_wrt_append intro: le_less_trans)
    moreover have "\<forall>s \<in> set (pa_sessions ?p @ new). (\<exists>m. s \<in> set (db_sessions (dbs m))) \<and> sessionFilter ?g s"
      using later new(3) matching_mem [of _ ?g "dbs n"] by (auto simp: all)
    moreover have "s \<in> set (pa_sessions ?p @ new)" if "\<forall>m. s \<in> set (db_sessions (dbs m))" "sessionFilter ?g s" for s
    proof -
      have "s \<in> set (matching_rows ?g (dbs n))" using that by (simp add: matching_mem)
      then have "s \<in> set (pa_sessions ?p) \<or> sessionFilter (?g\<lparr>fi_after := c\<rparr>) s" by (auto simp: all matching_mem)
      then show ?thesis using new(4) that(1) by auto
    qed
    ultimately show ?thesis by blast
  qed
qed

text \<open>C29: The client's loop over pages returns, without an error, whatever is written to the store between
  its requests, as long as only finitely many identifiers are ever used. The sessions come in
  increasing order of identifier, each at most once; every one was stored at some time and matches
  the filter, and every session that matches and is stored throughout is among them. The person
  of the filter, which the query does not carry, is ignored.\<close>

theorem paged_listing_returns:
  assumes "answers_pages api token" and "\<forall>m. store_ok (dbs m)" and "finite K"
    and "\<forall>m. \<forall>r \<in> set (db_sessions (dbs m)). se_id r \<in> K"
  shows "\<exists>items. ListSessionsFiltered True (ask_platform api token dbs) f = Some (Inr items) \<and>
     sorted_wrt (<) (map se_id items) \<and>
     (\<forall>r \<in> set items. (\<exists>m. r \<in> set (db_sessions (dbs m))) \<and> sessionFilter (f\<lparr>fi_human := []\<rparr>) r) \<and>
     (\<forall>r. (\<forall>m. r \<in> set (db_sessions (dbs m))) \<and> sessionFilter (f\<lparr>fi_human := []\<rparr>) r \<longrightarrow> r \<in> set items)"
proof -
  have "sessionFilter (sent_filter f) = sessionFilter (f\<lparr>fi_human := []\<rparr>)"
    by (rule ext) (simp add: sessionFilter_def sent_filter_def)
  then show ?thesis
    using list_pages_result [of api token dbs K 0 f "[]"] assms by (auto simp: ListSessionsFiltered_def)
qed

section \<open>Instances\<close>

definition sample_api :: session_api where
  "sample_api =
     \<lparr>sa_store = True, sa_token = ''internal'',
      sa_authenticate = Some (\<lambda>t. if t = ''pod'' then Some \<lparr>sn_namespace = ''ns'', sn_name = ''srv'', sn_uid = ''u1''\<rparr> else None)\<rparr>"

definition gateway_get :: api_request where
  "gateway_get =
     \<lparr>rq_method = ''GET'', rq_path = GatewayPath, rq_authorization = ''Bearer pod'', rq_query = [], rq_session = None,
      rq_revoke = None, rq_bulk = None, rq_enroll = None\<rparr>"

definition sample_events :: "store_event list" where
  "sample_events = [EvPut (sample_row ''s1'') 3 ''id1'', EvPut (sample_row ''s2'') 4 ''id2'']"

theorem gateway_reads_own_sessions_instance:
  "\<exists>s. s \<in> set (reply_sessions (serve_gateway sample_api gateway_get 5 (fold store_step sample_events empty_db))) \<and>
     se_server_uid s = ''u1'' \<and> se_server_namespace s = ''ns''"
proof -
  have "reply_sessions (serve_gateway sample_api gateway_get 5 (fold store_step sample_events empty_db)) \<noteq> []"
    by code_simp
  then obtain s where s: "s \<in> set (reply_sessions (serve_gateway sample_api gateway_get 5 (fold store_step sample_events empty_db)))"
    using list.set_sel(1) by blast
  have "bearer_value (rq_authorization gateway_get) = ''pod''" by code_simp
  moreover have "sa_authenticate sample_api =
      Some (\<lambda>t. if t = ''pod'' then Some \<lparr>sn_namespace = ''ns'', sn_name = ''srv'', sn_uid = ''u1''\<rparr> else None)"
    by (simp add: sample_api_def)
  ultimately show ?thesis using gateway_reads_own_sessions [OF s] s by auto
qed

theorem paged_listing_returns_instance:
  "\<exists>items. ListSessionsFiltered True (ask_platform sample_api ''internal'' (\<lambda>n. if n = 0 then empty_db else sample_db))
     filter_zero = Some (Inr items)"
proof -
  let ?dbs = "\<lambda>n. if n = (0::nat) then empty_db else sample_db"
  have "trim_space ''internal'' = ''internal''" by code_simp
  then have "answers_pages sample_api ''internal''" by (simp add: answers_pages_def sample_api_def)
  moreover have "\<forall>m. store_ok (?dbs m)" using sample_db_ok(1) by simp
  moreover have "\<forall>m. \<forall>r \<in> set (db_sessions (?dbs m)). se_id r \<in> se_id ` set (db_sessions sample_db)"
    by (simp add: empty_db_def)
  ultimately show ?thesis
    using paged_listing_returns [of sample_api "''internal''" ?dbs "se_id ` set (db_sessions sample_db)" filter_zero] by blast
qed

end
