(* ===== verification/GatewayConfig.thy ===== *)
theory GatewayConfig
  imports CredentialGateway Complex_Main
begin

text \<open>
  The configuration of the credential gateway (\<open>services/mcp-gateway/credential/config.go\<close>): everything
  \<open>ParseConfig\<close> checks before the gateway starts, and the routes \<open>New\<close> registers (\<open>gateway.go\<close>).

  The JSON document is its decoded value (\<^term>\<open>None\<close> when it does not have the expected shape), a
  \<open>float64\<close> a rational number. Parameters: URL parsing, the files of the mounted secrets, and whether
  a text is an RSA private key. The two endpoints of the authorization server are checked in a fixed
  order, where Go ranges over a map; the order decides only which of two errors is reported.
\<close>

section \<open>The decoded document\<close>

record config_url = parsed_url +
  cu_user :: bool
  cu_query :: gostring
  cu_fragment :: gostring

record raw_form_field =
  wf_name :: gostring
  wf_label :: gostring
  wf_secret :: bool

record raw_header =
  wh_name :: gostring
  wh_type :: gostring
  wh_field :: gostring

record raw_service =
  ws_id :: gostring
  ws_server_name :: gostring
  ws_namespace :: gostring
  ws_resource_url :: gostring
  ws_upstream_url :: gostring
  ws_validation_url :: gostring
  ws_scopes :: "gostring list"
  ws_client_id :: gostring
  ws_key_id :: gostring
  ws_key_file :: gostring
  ws_source :: gostring
  ws_fields :: "raw_form_field list"
  ws_headers :: "raw_header list"

record raw_config =
  wc_host :: gostring
  wc_port :: int
  wc_insecure :: bool
  wc_issuer :: gostring
  wc_token_endpoint :: gostring
  wc_jwks_uri :: gostring
  wc_timeout :: rat
  wc_prefix :: gostring
  wc_key_file :: gostring
  wc_ttl :: rat
  wc_max_entries :: int
  wc_max_request :: int
  wc_connect :: rat
  wc_response :: rat
  wc_services :: "raw_service list"

record config_env =
  cv_url :: "gostring \<Rightarrow> config_url option"
  cv_file :: "gostring \<Rightarrow> gostring option"
  cv_rsa :: "gostring \<Rightarrow> bool"

datatype config_error =
    CfgShape
  | CfgURL gostring
  | CfgScheme gostring
  | CfgSeconds gostring
  | CfgPrefix
  | CfgSecretFile gostring
  | CfgSessionKey
  | CfgFormMax
  | CfgMaxRequest
  | CfgPort
  | CfgServiceCount
  | CfgServiceId
  | CfgOrigin
  | CfgDuplicate
  | CfgSource
  | CfgScope
  | CfgClient
  | CfgKey
  | CfgHeaderCount
  | CfgHeaderType
  | CfgHeaderName gateway_header_error
  | CfgHeaderField
  | CfgHeaderDuplicate
  | CfgFieldCount
  | CfgFieldName
  | CfgLabel
  | CfgFieldsMissing
  | CfgPath

text \<open>The checks run in sequence; the first one that fails decides.\<close>

definition check_then :: "bool \<Rightarrow> 'e \<Rightarrow> 'e + 'a \<Rightarrow> 'e + 'a" where
  "check_then ok e rest = (if ok then rest else Inl e)"

definition and_then :: "'e + 'a \<Rightarrow> ('a \<Rightarrow> 'e + 'b) \<Rightarrow> 'e + 'b" where
  "and_then m f = (case m of Inl e \<Rightarrow> Inl e | Inr x \<Rightarrow> f x)"

section \<open>Single values\<close>

text \<open>The bounds are those of the unit named \<open>name\<close>; the result is in nanoseconds.\<close>

definition config_seconds :: "rat \<Rightarrow> rat \<Rightarrow> rat \<Rightarrow> rat \<Rightarrow> gostring \<Rightarrow> config_error + time" where
  "config_seconds v dflt low high name =
     (let w = (if v = 0 then dflt else v) in
      if w < low \<or> high < w then Inl (CfgSeconds name) else Inr \<lfloor>w * 1000000000\<rfloor>)"

definition checkURL :: "config_env \<Rightarrow> gostring \<Rightarrow> gostring \<Rightarrow> bool \<Rightarrow> config_error + config_url" where
  "checkURL env raw name allowHTTP =
     (case cv_url env raw of
        None \<Rightarrow> Inl (CfgURL name)
      | Some u \<Rightarrow>
          if pu_host u = [] \<or> cu_fragment u \<noteq> [] \<or> cu_user u \<or> cu_query u \<noteq> [] then Inl (CfgURL name)
          else if pu_scheme u \<noteq> ''https'' \<and> \<not> (allowHTTP \<and> pu_scheme u = ''http'') then Inl (CfgScheme name)
          else Inr u)"

definition readSecretFile :: "config_env \<Rightarrow> gostring \<Rightarrow> gostring \<Rightarrow> config_error + gostring" where
  "readSecretFile env path what =
     (case cv_file env path of
        None \<Rightarrow> Inl (CfgSecretFile what)
      | Some data \<Rightarrow> if trim_space data = [] then Inl (CfgSecretFile what) else Inr (trim_space data))"

definition is_letter :: "char \<Rightarrow> bool" where
  "is_letter c \<longleftrightarrow> (CHR ''a'' \<le> c \<and> c \<le> CHR ''z'') \<or> (CHR ''A'' \<le> c \<and> c \<le> CHR ''Z'')"

definition serviceIDRe :: "gostring \<Rightarrow> bool" where
  "serviceIDRe s =
     (case s of [] \<Rightarrow> False
      | c # cs \<Rightarrow> is_lower_alnum c \<and> length cs \<le> 26 \<and> list_all (\<lambda>x. is_lower_alnum x \<or> x = CHR ''-'') cs)"

definition fieldRe :: "gostring \<Rightarrow> bool" where
  "fieldRe s =
     (case s of [] \<Rightarrow> False
      | c # cs \<Rightarrow> is_letter c \<and> length cs \<le> 63 \<and> list_all (\<lambda>x. is_alnum x \<or> x = CHR ''_'' \<or> x = CHR ''-'') cs)"

definition scope_ok :: "gostring \<Rightarrow> bool" where
  "scope_ok scope \<longleftrightarrow> scope \<noteq> [] \<and> \<not> contains_any scope [CHR '' '', CHR 0x09, CHR 0x0D, CHR 0x0A, CHR 0x22, CHR 0x5C]"

section \<open>Headers and form fields\<close>

fun parse_header_rules :: "gostring list \<Rightarrow> raw_header list \<Rightarrow> config_error + header_rule list" where
  "parse_header_rules seen [] = Inr []"
| "parse_header_rules seen (h # rest) =
     check_then (wh_type h = [] \<or> wh_type h = ''direct'') CfgHeaderType
       (case ValidateGatewayHeader (wh_name h) of
          Some e \<Rightarrow> Inl (CfgHeaderName e)
        | None \<Rightarrow>
            check_then (fieldRe (wh_field h)) CfgHeaderField
              (check_then (to_lower (wh_name h) \<notin> set seen) CfgHeaderDuplicate
                (and_then (parse_header_rules (to_lower (wh_name h) # seen) rest)
                  (\<lambda>out. Inr ((wh_name h, wh_field h) # out)))))"

definition parseHeaders :: "raw_header list \<Rightarrow> config_error + header_rule list" where
  "parseHeaders raw =
     (if raw = [] \<or> 16 < length raw then Inl CfgHeaderCount else parse_header_rules [] raw)"

definition field_label :: "raw_form_field \<Rightarrow> gostring" where
  "field_label f = (if trim_space (wf_label f) = [] then wf_name f else trim_space (wf_label f))"

fun parse_fields :: "gostring list \<Rightarrow> gostring list \<Rightarrow> raw_form_field list \<Rightarrow> config_error + form_field list" where
  "parse_fields want seen [] =
     (if length (remdups want) \<noteq> length seen then Inl CfgFieldsMissing else Inr [])"
| "parse_fields want seen (f # rest) =
     check_then (fieldRe (wf_name f) \<and> wf_name f \<notin> set seen \<and> wf_name f \<in> set want) CfgFieldName
       (check_then (length (field_label f) \<le> 80 \<and> \<not> contains_any (field_label f) [CHR 0x0D, CHR 0x0A, CHR 0x00]) CfgLabel
         (and_then (parse_fields want (wf_name f # seen) rest)
           (\<lambda>out. Inr (\<lparr>ff_name = wf_name f, ff_label = field_label f, ff_secret = wf_secret f\<rparr> # out))))"

definition parseFormFields :: "raw_form_field list \<Rightarrow> header_rule list \<Rightarrow> config_error + form_field list" where
  "parseFormFields raw headers =
     (if raw = [] \<or> 16 < length raw then Inl CfgFieldCount else parse_fields (map snd headers) [] raw)"

section \<open>Services\<close>

text \<open>What the services before it have taken.\<close>

record taken =
  tk_ids :: "gostring list"
  tk_resources :: "gostring list"
  tk_clients :: "gostring list"
  tk_paths :: "gostring list"

definition reserved_path :: "gostring \<Rightarrow> bool" where
  "reserved_path p \<longleftrightarrow>
     p = ''/healthz'' \<or> p = ''/readyz'' \<or> p = ''/.well-known'' \<or> has_prefix p ''/.well-known/''"

fun claim_paths :: "gostring list \<Rightarrow> gostring list \<Rightarrow> config_error + gostring list" where
  "claim_paths paths [] = Inr paths"
| "claim_paths paths (p # rest) =
     (if p \<in> set paths \<or> reserved_path p then Inl CfgPath else claim_paths (p # paths) rest)"

definition local_paths :: "gostring \<Rightarrow> gostring \<Rightarrow> gostring list" where
  "local_paths pfx p =
     p # (if pfx \<noteq> [] \<and> has_prefix p (pfx @ ''/'') then [trim_prefix p pfx] else [])"

definition resource_path :: "config_url \<Rightarrow> gostring" where
  "resource_path u = (let p = trim_right_char (CHR ''/'') (pu_path u) in if p = [] then ''/'' else p)"

definition parse_service ::
  "config_env \<Rightarrow> bool \<Rightarrow> gostring \<Rightarrow> taken \<Rightarrow> raw_service \<Rightarrow> config_error + gateway_service \<times> taken" where
  "parse_service env insecure pfx tk s =
     check_then (serviceIDRe (ws_id s)) CfgServiceId
       (and_then (checkURL env (ws_resource_url s) ''resource_url'' insecure) (\<lambda>resource.
        and_then (checkURL env (ws_upstream_url s) ''upstream_url'' insecure) (\<lambda>upstream.
        and_then (checkURL env (ws_validation_url s) ''validation_url'' insecure) (\<lambda>validation.
        check_then (pu_scheme validation = pu_scheme upstream \<and> pu_host validation = pu_host upstream) CfgOrigin
          (let resourceURL = trim_right_char (CHR ''/'') (pu_text resource) in
           check_then (ws_id s \<notin> set (tk_ids tk) \<and> resourceURL \<notin> set (tk_resources tk) \<and>
             ws_client_id s \<notin> set (tk_clients tk)) CfgDuplicate
           (check_then (ws_source s = [] \<or> ws_source s = ''form'') CfgSource
           (check_then (list_all scope_ok (ws_scopes s)) CfgScope
           (check_then (ws_client_id s \<noteq> [] \<and> ws_key_id s \<noteq> []) CfgClient
           (and_then (readSecretFile env (ws_key_file s) ''resource client key'') (\<lambda>pem.
            check_then (cv_rsa env pem) CfgKey
            (and_then (parseHeaders (ws_headers s)) (\<lambda>headers.
             and_then (parseFormFields (ws_fields s) headers) (\<lambda>fields.
             and_then (claim_paths (tk_paths tk) (local_paths pfx (resource_path resource))) (\<lambda>paths.
               Inr (\<lparr>gs_id = ws_id s, gs_server_name = ws_server_name s, gs_server_namespace = ws_namespace s,
                      gs_resource_url = resourceURL, gs_resource_path = resource_path resource,
                      gs_upstream_url = pu_text upstream, gs_validation_url = pu_text validation,
                      gs_required_scopes = ws_scopes s, gs_client_id = ws_client_id s, gs_key_id = ws_key_id s,
                      gs_fields = fields, gs_headers = headers\<rparr>,
                    \<lparr>tk_ids = ws_id s # tk_ids tk, tk_resources = resourceURL # tk_resources tk,
                      tk_clients = ws_client_id s # tk_clients tk, tk_paths = paths\<rparr>)))))))))))))))"

fun parse_services ::
  "config_env \<Rightarrow> bool \<Rightarrow> gostring \<Rightarrow> taken \<Rightarrow> raw_service list \<Rightarrow> config_error + gateway_service list" where
  "parse_services env insecure pfx tk [] = Inr []"
| "parse_services env insecure pfx tk (s # rest) =
     and_then (parse_service env insecure pfx tk s) (\<lambda>(svc, tk1).
       and_then (parse_services env insecure pfx tk1 rest) (\<lambda>out. Inr (svc # out)))"

section \<open>The whole document\<close>

definition default_int :: "int \<Rightarrow> int \<Rightarrow> int" where
  "default_int v d = (if v = 0 then d else v)"

definition ParseConfig :: "config_env \<Rightarrow> raw_config option \<Rightarrow> config_error + credential_config" where
  "ParseConfig env document =
     (case document of
        None \<Rightarrow> Inl CfgShape
      | Some f \<Rightarrow>
          and_then (checkURL env (wc_issuer f) ''issuer'' (wc_insecure f)) (\<lambda>issuer.
          let iss = trim_right_char (CHR ''/'') (pu_text issuer);
              token = (if wc_token_endpoint f = [] then iss @ ''/token'' else wc_token_endpoint f);
              jwks = (if wc_jwks_uri f = [] then iss @ ''/.well-known/jwks.json'' else wc_jwks_uri f) in
          and_then (checkURL env token ''token_endpoint'' (wc_insecure f)) (\<lambda>_.
          and_then (checkURL env jwks ''jwks_uri'' (wc_insecure f)) (\<lambda>_.
          and_then (config_seconds (wc_timeout f) 5 (1 / 10) 60 ''timeout_seconds'') (\<lambda>as_timeout.
          check_then (wc_prefix f = [] \<or> has_prefix (wc_prefix f) ''/'' \<and> last (wc_prefix f) \<noteq> CHR ''/'') CfgPrefix
          (and_then (readSecretFile env (wc_key_file f) ''session binding key'') (\<lambda>key.
          check_then (32 \<le> length key) CfgSessionKey
          (and_then (config_seconds (wc_ttl f) 3600 60 86400 ''ttl_seconds'') (\<lambda>ttl.
          check_then (1 \<le> default_int (wc_max_entries f) 1024 \<and> default_int (wc_max_entries f) 1024 \<le> 100000) CfgFormMax
          (check_then (1024 \<le> default_int (wc_max_request f) (4 * 2 ^ 20) \<and>
             default_int (wc_max_request f) (4 * 2 ^ 20) \<le> 64 * 2 ^ 20) CfgMaxRequest
          (and_then (config_seconds (wc_connect f) 5 (1 / 10) 60 ''upstream_connect_timeout_seconds'') (\<lambda>connect.
          and_then (config_seconds (wc_response f) 60 1 600 ''upstream_response_header_timeout_seconds'') (\<lambda>response.
          check_then (1 \<le> default_int (wc_port f) 8090 \<and> default_int (wc_port f) 8090 \<le> 65535) CfgPort
          (check_then (wc_services f \<noteq> [] \<and> length (wc_services f) \<le> 64) CfgServiceCount
          (and_then (parse_services env (wc_insecure f) (wc_prefix f)
               \<lparr>tk_ids = [], tk_resources = [], tk_clients = [], tk_paths = []\<rparr> (wc_services f)) (\<lambda>services.
             Inr \<lparr>gf_issuer = iss, gf_token_endpoint = token, gf_jwks_uri = jwks, gf_insecure = wc_insecure f,
               gf_auth_timeout = as_timeout, gf_prefix = wc_prefix f, gf_session_key = key, gf_form_ttl = ttl,
               gf_form_max = default_int (wc_max_entries f) 1024,
               gf_max_request = default_int (wc_max_request f) (4 * 2 ^ 20),
               gf_connect_timeout = connect, gf_header_timeout = response,
               gf_listen_host = (if wc_host f = [] then ''0.0.0.0'' else wc_host f),
               gf_listen_port = default_int (wc_port f) 8090, gf_services = services\<rparr>))))))))))))))))"

section \<open>Routes\<close>

datatype gateway_route = RouteHealth | RouteReady | RouteMCP gostring | RouteSignIn gostring | RouteMetadata gostring

text \<open>The metadata path of a local path; \<open>seen\<close> are those already registered for the service.\<close>

definition metadata_path :: "gostring \<Rightarrow> gostring" where
  "metadata_path p = ''/.well-known/oauth-protected-resource'' @ trim_right_char (CHR ''/'') p"

fun service_routes :: "gateway_service \<Rightarrow> gostring list \<Rightarrow> gostring list \<Rightarrow> (gostring \<times> gateway_route) list" where
  "service_routes s seen [] = []"
| "service_routes s seen (p # rest) =
     (p, RouteMCP (gs_id s)) # (p @ ''/login/'', RouteSignIn (gs_id s)) #
     (if metadata_path p \<in> set seen then service_routes s seen rest
      else (metadata_path p, RouteMetadata (gs_id s)) # service_routes s (metadata_path p # seen) rest)"

definition New_routes :: "credential_config \<Rightarrow> (gostring \<times> gateway_route) list" where
  "New_routes cfg =
     (''/healthz'', RouteHealth) # (''/readyz'', RouteReady) #
     concat (map (\<lambda>s. service_routes s [] (servicePaths cfg s)) (gf_services cfg))"

text \<open>How \<open>http.ServeMux\<close> picks a route for such patterns: a request path that is not clean is redirected
  to its clean form; a clean one goes to the pattern equal to it, or to the longest pattern ending in
  a slash that is a prefix of it.\<close>

definition mux_clean :: "gostring \<Rightarrow> gostring" where
  "mux_clean p =
     (let c = cleanURLPath p in if p \<noteq> [] \<and> last p = CHR ''/'' \<and> c \<noteq> ''/'' then c @ ''/'' else c)"

fun longest_subtree :: "gostring \<Rightarrow> (gostring \<times> gateway_route) option \<Rightarrow> (gostring \<times> gateway_route) list \<Rightarrow> (gostring \<times> gateway_route) option" where
  "longest_subtree p best [] = best"
| "longest_subtree p best (r # rest) =
     longest_subtree p
       (if fst r \<noteq> [] \<and> last (fst r) = CHR ''/'' \<and> has_prefix p (fst r) \<and>
           (case best of None \<Rightarrow> True | Some b \<Rightarrow> length (fst b) < length (fst r))
        then Some r else best) rest"

definition mux_route :: "(gostring \<times> gateway_route) list \<Rightarrow> gostring \<Rightarrow> gateway_route option" where
  "mux_route routes p =
     (case map_of routes (mux_clean p) of
        Some r \<Rightarrow> Some r
      | None \<Rightarrow> map_option snd (longest_subtree (mux_clean p) None routes))"

end
