(* ===== verification/GatewayConfigClaims.thy ===== *)
theory GatewayConfigClaims
  imports GatewayConfig
begin

text \<open>
  What a configuration that \<open>ParseConfig\<close> accepts guarantees the rest of the gateway: its routes are
  distinct, and the sign-in form asks for exactly the values its headers need.
\<close>

section \<open>Checks in sequence\<close>

lemma check_then_Inr [simp]: "check_then ok e rest = Inr y \<longleftrightarrow> ok \<and> rest = Inr y"
  by (simp add: check_then_def)

lemma and_then_Inr [simp]: "and_then m f = Inr y \<longleftrightarrow> (\<exists>x. m = Inr x \<and> f x = Inr y)"
  by (cases m) (simp_all add: and_then_def)

section \<open>Paths\<close>

lemma claim_paths_Inr:
  "claim_paths paths ps = Inr out \<Longrightarrow>
     out = rev ps @ paths \<and> distinct ps \<and> set ps \<inter> set paths = {} \<and> (\<forall>p \<in> set ps. \<not> reserved_path p)"
proof (induction paths ps rule: claim_paths.induct)
  case (2 paths p rest)
  then show ?case by (auto split: if_splits)
qed simp

lemma has_prefix_shorter: "has_prefix p (a @ b) \<Longrightarrow> has_prefix p a"
proof -
  assume "has_prefix p (a @ b)"
  then have "take (length a) (take (length (a @ b)) p) = take (length a) (a @ b)" by (simp only: has_prefix_def)
  then show "has_prefix p a" by (simp add: has_prefix_def)
qed

definition plain_path :: "gostring \<Rightarrow> bool" where
  "plain_path p \<longleftrightarrow> p = ''/'' \<or> p \<noteq> [] \<and> last p \<noteq> CHR ''/''"

lemma trim_right_char_last: "trim_right_char c s = [] \<or> last (trim_right_char c s) \<noteq> c"
  using hd_dropWhile [of "\<lambda>x. x = c" "rev s"] by (auto simp: trim_right_char_def last_rev)

lemma trim_right_char_id: "s = [] \<or> last s \<noteq> c \<Longrightarrow> trim_right_char c s = s"
  by (cases s rule: rev_cases) (auto simp: trim_right_char_def)

lemma resource_path_plain: "plain_path (resource_path u)"
  using trim_right_char_last [of "CHR ''/''" "pu_path u"] by (auto simp: plain_path_def resource_path_def Let_def)

lemma local_paths_plain:
  assumes "plain_path p" "q \<in> set (local_paths pfx p)"
  shows "plain_path q"
proof (cases "q = p")
  case False
  then have pfx: "pfx \<noteq> []" "has_prefix p (pfx @ ''/'')" and q: "q = trim_prefix p pfx"
    using assms(2) by (auto simp: local_paths_def split: if_splits)
  have split: "p = (pfx @ ''/'') @ drop (length (pfx @ ''/'')) p"
    using pfx(2) append_take_drop_id [of "length (pfx @ ''/'')" p] by (simp add: has_prefix_def)
  define t where "t = drop (length (pfx @ ''/'')) p"
  have p: "p = pfx @ CHR ''/'' # t" using split by (simp add: t_def)
  have "q = CHR ''/'' # t" by (simp add: q p trim_prefix_def has_prefix_def)
  moreover have "p \<noteq> ''/''" using p pfx(1) by (cases pfx) auto
  ultimately show ?thesis using assms(1) p by (cases t) (auto simp: plain_path_def)
qed (use assms(1) in simp)

text \<open>The patterns one local path gives rise to.\<close>

definition path_patterns :: "gostring \<Rightarrow> gostring set" where
  "path_patterns p = {p, p @ ''/login/'', metadata_path p}"

lemma metadata_path_inj: "plain_path p \<Longrightarrow> plain_path q \<Longrightarrow> metadata_path p = metadata_path q \<Longrightarrow> p = q"
  using trim_right_char_id [of p "CHR ''/''"] trim_right_char_id [of q "CHR ''/''"]
  by (auto simp: plain_path_def metadata_path_def trim_right_char_def)

lemma last_login: "last (p @ ''/login/'') = CHR ''/''" "p @ ''/login/'' \<noteq> ''/''"
  by (cases p; simp)+

lemma last_metadata: "last (metadata_path p) \<noteq> CHR ''/''"
  using trim_right_char_last [of "CHR ''/''" p] by (auto simp: metadata_path_def)

lemma metadata_reserved: "reserved_path (metadata_path p)"
  by (simp add: reserved_path_def metadata_path_def has_prefix_def)

lemma plain_not_login: "plain_path p \<Longrightarrow> p \<noteq> q @ ''/login/''"
  using last_login [of q] by (auto simp: plain_path_def simp del: last_append)

lemma metadata_not_login: "metadata_path p \<noteq> q @ ''/login/''"
  using last_metadata [of p] last_login(1) [of q] by metis

lemma path_patterns_disjoint:
  assumes "plain_path p" "plain_path q" "\<not> reserved_path p" "\<not> reserved_path q" "p \<noteq> q"
  shows "path_patterns p \<inter> path_patterns q = {}"
proof -
  have "p \<noteq> metadata_path q" "q \<noteq> metadata_path p" using assms(3,4) metadata_reserved by metis+
  moreover have "metadata_path p \<noteq> metadata_path q" using metadata_path_inj assms(1,2,5) by blast
  ultimately show ?thesis
    using assms(5) plain_not_login [OF assms(1)] plain_not_login [OF assms(2)] metadata_not_login
    unfolding path_patterns_def by (metis (no_types) append_same_eq disjoint_insert(1) inf_bot_right insert_iff singletonD)
qed

lemma own_patterns_distinct:
  "plain_path p \<Longrightarrow> \<not> reserved_path p \<Longrightarrow> distinct [p, p @ ''/login/'', metadata_path p]"
  using metadata_reserved [of p] metadata_not_login [of p p] by auto

lemma patterns_not_fixed:
  "plain_path p \<Longrightarrow> \<not> reserved_path p \<Longrightarrow> ''/healthz'' \<notin> path_patterns p \<and> ''/readyz'' \<notin> path_patterns p"
  using last_login(1) [of p] by (auto simp: path_patterns_def reserved_path_def metadata_path_def simp del: last_append)

section \<open>Routes of the services\<close>

lemma service_routes_distinct:
  assumes "distinct ps" "\<forall>p \<in> set ps. plain_path p \<and> \<not> reserved_path p"
  shows "distinct (map fst (service_routes s seen ps)) \<and>
    set (map fst (service_routes s seen ps)) \<subseteq> \<Union> (path_patterns ` set ps)"
  using assms
proof (induction s seen ps rule: service_routes.induct)
  case (2 s seen p rest)
  have sub: "set (map fst (service_routes s seen' rest)) \<subseteq> \<Union> (path_patterns ` set rest)"
    and dist: "distinct (map fst (service_routes s seen' rest))"
    if "seen' = seen \<and> metadata_path p \<in> set seen \<or> seen' = metadata_path p # seen \<and> metadata_path p \<notin> set seen" for seen'
    using 2 that by auto
  have "path_patterns p \<inter> path_patterns q = {}" if "q \<in> set rest" for q
    using 2(3,4) that by (intro path_patterns_disjoint) auto
  then have apart: "path_patterns p \<inter> \<Union> (path_patterns ` set rest) = {}" by blast
  have own: "distinct [p, p @ ''/login/'', metadata_path p]" using 2(4) by (intro own_patterns_distinct) auto
  have fresh: "x \<notin> set (map fst (service_routes s seen' rest))"
    if "x \<in> path_patterns p" "seen' = seen \<and> metadata_path p \<in> set seen \<or> seen' = metadata_path p # seen \<and> metadata_path p \<notin> set seen"
    for x seen'
    using apart sub [OF that(2)] that(1) by blast
  have pats: "p \<in> path_patterns p" "p @ ''/login/'' \<in> path_patterns p" "metadata_path p \<in> path_patterns p"
    by (simp_all add: path_patterns_def)
  show ?case
  proof (cases "metadata_path p \<in> set seen")
    case True
    then show ?thesis
      using own dist [of seen] sub [of seen] fresh [OF pats(1), of seen] fresh [OF pats(2), of seen] pats by auto
  next
    case False
    then show ?thesis
      using own dist [of "metadata_path p # seen"] sub [of "metadata_path p # seen"]
        fresh [OF pats(1), of "metadata_path p # seen"] fresh [OF pats(2), of "metadata_path p # seen"]
        fresh [OF pats(3), of "metadata_path p # seen"] pats by auto
  qed
qed simp

lemma patterns_apart:
  assumes "\<forall>p \<in> A \<union> B. plain_path p \<and> \<not> reserved_path p" "A \<inter> B = {}"
  shows "\<Union> (path_patterns ` A) \<inter> \<Union> (path_patterns ` B) = {}"
proof -
  have "path_patterns p \<inter> path_patterns q = {}" if "p \<in> A" "q \<in> B" for p q
    using assms that by (intro path_patterns_disjoint) auto
  then show ?thesis by blast
qed

lemma all_routes_distinct:
  assumes "distinct (concat (map paths svcs))" "\<forall>p \<in> set (concat (map paths svcs)). plain_path p \<and> \<not> reserved_path p"
  shows "distinct (map fst (concat (map (\<lambda>s. service_routes s [] (paths s)) svcs))) \<and>
    set (map fst (concat (map (\<lambda>s. service_routes s [] (paths s)) svcs))) \<subseteq>
      \<Union> (path_patterns ` set (concat (map paths svcs)))"
  using assms
proof (induction svcs)
  case (Cons s svcs)
  have head: "distinct (map fst (service_routes s [] (paths s)))"
    "set (map fst (service_routes s [] (paths s))) \<subseteq> \<Union> (path_patterns ` set (paths s))"
    using service_routes_distinct [of "paths s" s "[]"] Cons.prems by auto
  have tail: "distinct (map fst (concat (map (\<lambda>s. service_routes s [] (paths s)) svcs)))"
    "set (map fst (concat (map (\<lambda>s. service_routes s [] (paths s)) svcs))) \<subseteq>
      \<Union> (path_patterns ` set (concat (map paths svcs)))"
    using Cons by simp_all
  have "\<Union> (path_patterns ` set (paths s)) \<inter> \<Union> (path_patterns ` set (concat (map paths svcs))) = {}"
    using Cons.prems by (intro patterns_apart) auto
  then have "set (map fst (service_routes s [] (paths s))) \<inter>
      set (map fst (concat (map (\<lambda>s. service_routes s [] (paths s)) svcs))) = {}"
    using head(2) tail(2) by blast
  then have "distinct (map fst (service_routes s [] (paths s)) @ map fst (concat (map (\<lambda>s. service_routes s [] (paths s)) svcs)))"
    using head(1) tail(1) unfolding distinct_append by blast
  moreover have "set (map fst (service_routes s [] (paths s)) @ map fst (concat (map (\<lambda>s. service_routes s [] (paths s)) svcs))) \<subseteq>
      \<Union> (path_patterns ` set (paths s @ concat (map paths svcs)))"
    using head(2) tail(2) by (simp only: set_append image_Un Union_Un_distrib) blast
  ultimately show ?case by (simp only: list.map concat.simps map_append)
qed simp

section \<open>Services\<close>

lemma parse_service_Inr:
  assumes "parse_service env insecure pfx tk s = Inr (svc, tk1)"
  shows "gs_id svc \<notin> set (tk_ids tk) \<and> tk_ids tk1 = gs_id svc # tk_ids tk \<and>
    claim_paths (tk_paths tk) (local_paths pfx (gs_resource_path svc)) = Inr (tk_paths tk1) \<and>
    plain_path (gs_resource_path svc) \<and>
    parseHeaders (ws_headers s) = Inr (gs_headers svc) \<and> parseFormFields (ws_fields s) (gs_headers svc) = Inr (gs_fields svc)"
  using assms resource_path_plain by (auto simp: parse_service_def Let_def)

lemma parse_services_Inr:
  assumes "parse_services env insecure pfx tk raw = Inr out"
  shows "distinct (map gs_id out) \<and> set (map gs_id out) \<inter> set (tk_ids tk) = {} \<and>
    distinct (concat (map (\<lambda>s. local_paths pfx (gs_resource_path s)) out)) \<and>
    set (concat (map (\<lambda>s. local_paths pfx (gs_resource_path s)) out)) \<inter> set (tk_paths tk) = {} \<and>
    (\<forall>p \<in> set (concat (map (\<lambda>s. local_paths pfx (gs_resource_path s)) out)). plain_path p \<and> \<not> reserved_path p) \<and>
    (\<forall>svc \<in> set out. \<exists>s \<in> set raw. parseHeaders (ws_headers s) = Inr (gs_headers svc) \<and>
       parseFormFields (ws_fields s) (gs_headers svc) = Inr (gs_fields svc))"
  using assms
proof (induction env insecure pfx tk raw arbitrary: out rule: parse_services.induct)
  case (2 env insecure pfx tk s rest)
  then obtain svc tk1 out1 where one: "parse_service env insecure pfx tk s = Inr (svc, tk1)"
    and more: "parse_services env insecure pfx tk1 rest = Inr out1" and out: "out = svc # out1"
    by auto
  note svc = parse_service_Inr [OF one]
  then have claim: "claim_paths (tk_paths tk) (local_paths pfx (gs_resource_path svc)) = Inr (tk_paths tk1)" by blast
  have IH: "distinct (map gs_id out1)" "set (map gs_id out1) \<inter> set (tk_ids tk1) = {}"
    "distinct (concat (map (\<lambda>s. local_paths pfx (gs_resource_path s)) out1))"
    "set (concat (map (\<lambda>s. local_paths pfx (gs_resource_path s)) out1)) \<inter> set (tk_paths tk1) = {}"
    "\<forall>p \<in> set (concat (map (\<lambda>s. local_paths pfx (gs_resource_path s)) out1)). plain_path p \<and> \<not> reserved_path p"
    "\<forall>svc \<in> set out1. \<exists>s \<in> set rest. parseHeaders (ws_headers s) = Inr (gs_headers svc) \<and>
       parseFormFields (ws_fields s) (gs_headers svc) = Inr (gs_fields svc)"
    using "2.IH" [OF more] by blast+
  have paths: "tk_paths tk1 = rev (local_paths pfx (gs_resource_path svc)) @ tk_paths tk"
    "distinct (local_paths pfx (gs_resource_path svc))"
    "set (local_paths pfx (gs_resource_path svc)) \<inter> set (tk_paths tk) = {}"
    "\<forall>p \<in> set (local_paths pfx (gs_resource_path svc)). \<not> reserved_path p"
    using claim_paths_Inr [OF claim] by blast+
  have plain: "\<forall>p \<in> set (local_paths pfx (gs_resource_path svc)). plain_path p"
    using local_paths_plain svc by blast
  have "distinct (map gs_id out)" "set (map gs_id out) \<inter> set (tk_ids tk) = {}"
    using IH(1,2) svc by (auto simp: out)
  moreover have "distinct (concat (map (\<lambda>s. local_paths pfx (gs_resource_path s)) out))"
    "set (concat (map (\<lambda>s. local_paths pfx (gs_resource_path s)) out)) \<inter> set (tk_paths tk) = {}"
    using IH(3,4) paths(1-3) unfolding out list.map concat.simps set_append distinct_append by auto
  ultimately show ?case using IH(5,6) paths(4) plain svc by (auto simp: out)
qed simp

lemma ParseConfig_services:
  assumes "ParseConfig env doc = Inr cfg"
  shows "\<exists>f. doc = Some f \<and> gf_prefix cfg = wc_prefix f \<and>
    parse_services env (wc_insecure f) (gf_prefix cfg) \<lparr>tk_ids = [], tk_resources = [], tk_clients = [], tk_paths = []\<rparr>
      (wc_services f) = Inr (gf_services cfg)"
  using assms by (auto simp: ParseConfig_def Let_def split: option.splits)

lemma servicePaths_local: "servicePaths cfg s = local_paths (gf_prefix cfg) (gs_resource_path s)"
  by (simp add: servicePaths_def local_paths_def Let_def)

text \<open>C31: When a configuration is accepted, the patterns \<open>New\<close> registers are all different, so that none
  panics as a duplicate (a malformed pattern, or one with a wildcard in braces, is not excluded); and no
  two services share an identifier, a path, or a path after the ingress has stripped the public
  prefix.\<close>

theorem accepted_config_routes:
  assumes "ParseConfig env doc = Inr cfg"
  shows "distinct (map fst (New_routes cfg)) \<and> distinct (map gs_id (gf_services cfg)) \<and>
    distinct (concat (map (servicePaths cfg) (gf_services cfg)))"
proof -
  obtain f :: raw_config where "parse_services env (wc_insecure f) (gf_prefix cfg)
      \<lparr>tk_ids = [], tk_resources = [], tk_clients = [], tk_paths = []\<rparr> (wc_services f) = Inr (gf_services cfg)"
    using ParseConfig_services [OF assms] by blast
  note svc = parse_services_Inr [OF this, folded servicePaths_local]
  then have paths: "distinct (concat (map (servicePaths cfg) (gf_services cfg)))"
    "\<forall>p \<in> set (concat (map (servicePaths cfg) (gf_services cfg))). plain_path p \<and> \<not> reserved_path p"
    by blast+
  note routes = all_routes_distinct [OF paths]
  have "''/healthz'' \<notin> \<Union> (path_patterns ` set (concat (map (servicePaths cfg) (gf_services cfg))))"
    "''/readyz'' \<notin> \<Union> (path_patterns ` set (concat (map (servicePaths cfg) (gf_services cfg))))"
    using paths(2) patterns_not_fixed by blast+
  then have "''/healthz'' \<notin> set (map fst (concat (map (\<lambda>s. service_routes s [] (servicePaths cfg s)) (gf_services cfg))))"
    "''/readyz'' \<notin> set (map fst (concat (map (\<lambda>s. service_routes s [] (servicePaths cfg s)) (gf_services cfg))))"
    using routes by blast+
  then have "distinct (map fst (New_routes cfg))"
    using routes unfolding New_routes_def list.map fst_conv distinct.simps list.set by simp
  then show ?thesis using svc paths(1) by blast
qed

section \<open>Headers and form fields\<close>

lemma parse_header_rules_Inr:
  "parse_header_rules seen raw = Inr out \<Longrightarrow>
     (\<forall>h \<in> set out. ValidateGatewayHeader (fst h) = None) \<and> distinct (map (\<lambda>h. to_lower (fst h)) out) \<and>
     set (map (\<lambda>h. to_lower (fst h)) out) \<inter> set seen = {} \<and> length out = length raw"
proof (induction seen raw arbitrary: out rule: parse_header_rules.induct)
  case (2 seen h rest)
  then obtain x where x: "parse_header_rules (to_lower (wh_name h) # seen) rest = Inr x"
    and out: "out = (wh_name h, wh_field h) # x" and h: "ValidateGatewayHeader (wh_name h) = None"
      "wh_type h = [] \<or> wh_type h = ''direct''" "fieldRe (wh_field h)" "to_lower (wh_name h) \<notin> set seen"
    by (auto split: option.splits)
  from "2.IH" [OF h(1) x] h show ?case by (simp add: out)
qed simp

lemma parseHeaders_Inr:
  "parseHeaders raw = Inr out \<Longrightarrow>
     (\<forall>h \<in> set out. ValidateGatewayHeader (fst h) = None) \<and> distinct (map (\<lambda>h. to_lower (fst h)) out) \<and> out \<noteq> []"
  using parse_header_rules_Inr [of "[]" raw out] by (auto simp: parseHeaders_def split: if_splits)

lemma distinct_lower_names: "distinct (map (\<lambda>h. to_lower (fst h)) hs) \<Longrightarrow> distinct (map fst hs)"
  by (induction hs) force+

lemma parse_fields_Inr:
  "parse_fields want seen raw = Inr out \<Longrightarrow> distinct seen \<Longrightarrow> set seen \<subseteq> set want \<Longrightarrow>
     set (map ff_name out) \<union> set seen = set want \<and> distinct (map ff_name out)  \<and> set (map ff_name out) \<inter> set seen = {}"
proof (induction want seen raw arbitrary: out rule: parse_fields.induct)
  case (1 want seen)
  then have "card (set seen) = card (set want)" by (simp add: distinct_card length_remdups_card_conv split: if_splits)
  then show ?case using 1 card_subset_eq [of "set want" "set seen"] by (auto split: if_splits)
next
  case (2 want seen f rest)
  then obtain x where x: "parse_fields want (wf_name f # seen) rest = Inr x" "set (map ff_name out) = insert (wf_name f) (set (map ff_name x))"
    "map ff_name out = wf_name f # map ff_name x" and f: "wf_name f \<notin> set seen" "wf_name f \<in> set want"
    by auto
  have "set (map ff_name x) \<union> set (wf_name f # seen) = set want \<and> distinct (map ff_name x) \<and>
      set (map ff_name x) \<inter> set (wf_name f # seen) = {}"
    using "2.IH" [OF x(1)] "2.prems"(2,3) f by simp
  then show ?case using f(1) unfolding x(2,3) distinct.simps list.set by blast
qed

lemma parseFormFields_Inr:
  "parseFormFields raw headers = Inr out \<Longrightarrow> set (map ff_name out) = snd ` set headers \<and> distinct (map ff_name out)"
  using parse_fields_Inr [of "map snd headers" "[]" raw out] by (auto simp: parseFormFields_def split: if_splits)

lemma render_headers_spec:
  assumes "distinct (map fst rules)" "\<forall>h \<in> set rules. map_of vals (snd h) \<noteq> None"
  shows "render_headers rules vals out =
      (if \<forall>h \<in> set rules. ValidateInjectedValue (the (map_of vals (snd h)))
       then Some (fold (\<lambda>h. put_item (fst h) (the (map_of vals (snd h)))) rules out) else None)"
  using assms by (induction rules vals out rule: render_headers.induct) (auto split: option.splits)

lemma fold_put_rules:
  "distinct (map fst rules) \<Longrightarrow>
     map_of (fold (\<lambda>h. put_item (fst h) (g h)) rules out) = map_of out ++ map_of (map (\<lambda>h. (fst h, g h)) rules)"
proof (induction rules arbitrary: out)
  case (Cons h rules)
  then have "map_of (map (\<lambda>h. (fst h, g h)) rules) (fst h) = None" by (simp add: map_of_eq_None_iff image_image)
  then show ?case using Cons by (auto simp: fun_eq_iff map_add_def split: option.split)
qed simp

lemma map_of_form_fields: "x \<in> set (map ff_name ffs) \<Longrightarrow> map_of (map (\<lambda>f. (ff_name f, g (ff_name f))) ffs) x = Some (g x)"
  by (induction ffs) auto

text \<open>C32: For every service of an accepted configuration, whatever a browser submits: either some input of the
  form is not a safe header value and nothing is sent, or each header of the service, and no other,
  is sent with the value of the one input it reads. The header names are ones the gateway may
  supply, no two are the same up to case, and every input of the form is read by a header.\<close>

theorem accepted_form_renders:
  assumes "ParseConfig env doc = Inr cfg" and "s \<in> set (gf_services cfg)"
  shows "(\<forall>h \<in> set (gs_headers s). ValidateGatewayHeader (fst h) = None) \<and>
    distinct (map (\<lambda>h. to_lower (fst h)) (gs_headers s)) \<and> set (map ff_name (gs_fields s)) = snd ` set (gs_headers s) \<and>
    (case render (gs_headers s) (map (\<lambda>f. (ff_name f, form_get submitted (ff_name f))) (gs_fields s)) of
       None \<Rightarrow> \<exists>f \<in> set (gs_fields s). \<not> ValidateInjectedValue (form_get submitted (ff_name f))
     | Some hs \<Rightarrow>
         (\<forall>f \<in> set (gs_fields s). ValidateInjectedValue (form_get submitted (ff_name f))) \<and>
         map_of hs = map_of (map (\<lambda>h. (fst h, form_get submitted (snd h))) (gs_headers s)))"
proof -
  obtain raw :: raw_service where raw: "parseHeaders (ws_headers raw) = Inr (gs_headers s)"
    "parseFormFields (ws_fields raw) (gs_headers s) = Inr (gs_fields s)"
    using ParseConfig_services [OF assms(1)] parse_services_Inr assms(2) by blast
  note hd = parseHeaders_Inr [OF raw(1)] and fl = parseFormFields_Inr [OF raw(2)]
  let ?vals = "map (\<lambda>f. (ff_name f, form_get submitted (ff_name f))) (gs_fields s)"
  have val: "map_of ?vals (snd h) = Some (form_get submitted (snd h))" if "h \<in> set (gs_headers s)" for h
    using fl that by (intro map_of_form_fields) blast
  have dist: "distinct (map fst (gs_headers s))" using hd distinct_lower_names by blast
  have safe: "(\<forall>h \<in> set (gs_headers s). ValidateInjectedValue (the (map_of ?vals (snd h)))) \<longleftrightarrow>
      (\<forall>f \<in> set (gs_fields s). ValidateInjectedValue (form_get submitted (ff_name f)))"
    using fl val by (force simp: set_eq_iff image_iff)
  let ?sent = "fold (\<lambda>h. put_item (fst h) (the (map_of ?vals (snd h)))) (gs_headers s) []"
  have eq: "map (\<lambda>h. (fst h, the (map_of ?vals (snd h)))) (gs_headers s) =
      map (\<lambda>h. (fst h, form_get submitted (snd h))) (gs_headers s)"
    using val by (intro map_cong) simp_all
  have sent: "map_of ?sent = map_of (map (\<lambda>h. (fst h, form_get submitted (snd h))) (gs_headers s))"
    unfolding fold_put_rules [OF dist] eq by simp
  have "render (gs_headers s) ?vals =
      (if \<forall>f \<in> set (gs_fields s). ValidateInjectedValue (form_get submitted (ff_name f)) then Some ?sent else None)"
    unfolding render_def safe [symmetric] by (rule render_headers_spec [OF dist]) (simp add: val)
  then show ?thesis
    using hd fl sent by (cases "\<forall>f \<in> set (gs_fields s). ValidateInjectedValue (form_get submitted (ff_name f))") simp_all
qed

section \<open>A service at the root\<close>

lemma split_on_parts: "x \<in> set (split_on sep s) \<Longrightarrow> sep \<notin> set x"
proof (induction s arbitrary: x)
  case (Cons c s)
  then show ?case by (auto split: if_splits list.splits)
qed simp

definition solid_part :: "gostring \<Rightarrow> bool" where
  "solid_part p \<longleftrightarrow> p \<noteq> [] \<and> CHR ''/'' \<notin> set p"

lemma clean_element_solid:
  assumes "Ball (set acc) solid_part" "CHR ''/'' \<notin> set e"
  shows "Ball (set (clean_element e acc)) solid_part"
proof (cases "e = [] \<or> e = ''.'' \<or> e = ''..''")
  case True
  then show ?thesis using assms(1) by (auto simp: clean_element_def dest: in_set_butlastD)
next
  case False
  then have "clean_element e acc = acc @ [e]" "solid_part e" using assms(2) by (simp_all add: clean_element_def solid_part_def)
  then show ?thesis using assms(1) by simp
qed

lemma clean_elements:
  "Ball (set acc) solid_part \<Longrightarrow> \<forall>e \<in> set es. CHR ''/'' \<notin> set e \<Longrightarrow> Ball (set (fold clean_element es acc)) solid_part"
proof (induction es arbitrary: acc)
  case (Cons e es)
  have "Ball (set (clean_element e acc)) solid_part"
    using clean_element_solid [OF Cons.prems(1), of e] Cons.prems(2) by simp
  then show ?case using Cons.IH [of "clean_element e acc"] Cons.prems(2) by simp
qed simp

lemma mux_clean_single: "\<not> has_prefix (mux_clean p) ''//''"
proof -
  define parts where "parts = fold clean_element (split_on (CHR ''/'') p) []"
  have parts: "Ball (set parts) solid_part"
    unfolding parts_def by (rule clean_elements) (auto dest: split_on_parts)
  have clean: "cleanURLPath p = (if parts = [] then ''/'' else concat (map (\<lambda>q. CHR ''/'' # q) parts))"
    unfolding cleanURLPath_def parts_def Let_def by (rule refl)
  show ?thesis
  proof (cases parts)
    case (Cons q qs)
    then obtain c q' where "q = c # q'" "c \<noteq> CHR ''/''" using parts by (cases q) (auto simp: solid_part_def)
    then show ?thesis by (auto simp: mux_clean_def clean Cons has_prefix_def Let_def)
  qed (simp add: mux_clean_def clean has_prefix_def)
qed

lemma service_routes_sign_in:
  "(q, RouteSignIn i) \<in> set (service_routes s seen ps) \<Longrightarrow> i = gs_id s \<and> (\<exists>p \<in> set ps. q = p @ ''/login/'')"
  by (induction s seen ps rule: service_routes.induct) (auto split: if_splits)

lemma longest_subtree_mem:
  "longest_subtree p best routes = Some r \<Longrightarrow> best = Some r \<or> r \<in> set routes \<and> has_prefix p (fst r)"
  by (induction p best routes rule: longest_subtree.induct) (auto split: if_splits)

lemma mux_route_mem:
  "mux_route routes p = Some r \<Longrightarrow> \<exists>q. (q, r) \<in> set routes \<and> has_prefix (mux_clean p) q"
proof (cases "map_of routes (mux_clean p)")
  case None
  assume "mux_route routes p = Some r"
  then obtain q where "longest_subtree (mux_clean p) None routes = Some (q, r)" using None by (auto simp: mux_route_def)
  then show ?thesis using longest_subtree_mem by fastforce
next
  case (Some x)
  assume "mux_route routes p = Some r"
  then have "(mux_clean p, r) \<in> set routes" using Some map_of_SomeD by (simp add: mux_route_def)
  then show ?thesis by (auto simp: has_prefix_def)
qed

text \<open>C: A service whose resource is the root of its host is accepted, but its sign-in pages are never
  served: they are registered under \<open>//login/\<close>, and no path the mux matches begins with two
  slashes.\<close>

theorem root_service_has_no_sign_in:
  assumes "ParseConfig env doc = Inr cfg" and "s \<in> set (gf_services cfg)" and "gs_resource_path s = ''/''"
  shows "mux_route (New_routes cfg) p \<noteq> Some (RouteSignIn (gs_id s))"
proof
  assume "mux_route (New_routes cfg) p = Some (RouteSignIn (gs_id s))"
  then obtain q where q: "(q, RouteSignIn (gs_id s)) \<in> set (New_routes cfg)" "has_prefix (mux_clean p) q"
    using mux_route_mem by blast
  then obtain t where t: "t \<in> set (gf_services cfg)" "(q, RouteSignIn (gs_id s)) \<in> set (service_routes t [] (servicePaths cfg t))"
    by (auto simp: New_routes_def)
  obtain f :: raw_config where "parse_services env (wc_insecure f) (gf_prefix cfg)
      \<lparr>tk_ids = [], tk_resources = [], tk_clients = [], tk_paths = []\<rparr> (wc_services f) = Inr (gf_services cfg)"
    using ParseConfig_services [OF assms(1)] by blast
  then have "distinct (map gs_id (gf_services cfg))" using parse_services_Inr by blast
  then have "t = s" using service_routes_sign_in [OF t(2)] t(1) assms(2) by (auto simp: distinct_map inj_on_def)
  moreover have "servicePaths cfg s = [''/'']"
    by (cases "gf_prefix cfg") (auto simp: servicePaths_def assms(3) has_prefix_def)
  ultimately have "q = ''/'' @ ''/login/''" using service_routes_sign_in [OF t(2)] by auto
  then have "has_prefix (mux_clean p) ''//''"
    using q(2) has_prefix_shorter [of "mux_clean p" "''//''" "''login/''"] by simp
  then show False using mux_clean_single by blast
qed

section \<open>An accepted document\<close>

definition plain_url :: "gostring \<Rightarrow> gostring \<Rightarrow> gostring \<times> config_url" where
  "plain_url host p =
     (''https://'' @ host @ p,
      \<lparr>pu_scheme = ''https'', pu_host = host, pu_path = p, pu_text = ''https://'' @ host @ p, cu_user = False,
       cu_query = [], cu_fragment = []\<rparr>)"

definition config_demo_env :: config_env where
  "config_demo_env =
     \<lparr>cv_url = map_of [plain_url ''auth.x'' ''/mcp-auth'', plain_url ''auth.x'' ''/mcp-auth/token'',
        plain_url ''auth.x'' ''/mcp-auth/.well-known/jwks.json'', plain_url ''auth.x'' ''/team/mcp'', plain_url ''auth.x'' ''/'',
        plain_url ''mcp.x'' ''/team/mcp'', plain_url ''mcp.x'' ''/team/mcp/check''],
      cv_file = map_of [(''key'', ''0123456789abcdef0123456789abcdef''), (''pem'', ''RSA'')],
      cv_rsa = (\<lambda>t. t = ''RSA'')\<rparr>"

definition config_demo_doc :: "gostring \<Rightarrow> gostring \<Rightarrow> raw_config" where
  "config_demo_doc p header =
     \<lparr>wc_host = [], wc_port = 0, wc_insecure = False, wc_issuer = ''https://auth.x/mcp-auth'', wc_token_endpoint = [],
      wc_jwks_uri = [], wc_timeout = 0, wc_prefix = ''/team'', wc_key_file = ''key'', wc_ttl = 0, wc_max_entries = 0,
      wc_max_request = 0, wc_connect = 0, wc_response = 0,
      wc_services =
        [\<lparr>ws_id = ''demo'', ws_server_name = ''demo'', ws_namespace = ''team'', ws_resource_url = ''https://auth.x'' @ p,
          ws_upstream_url = ''https://mcp.x/team/mcp'', ws_validation_url = ''https://mcp.x/team/mcp/check'',
          ws_scopes = [''tools:read''], ws_client_id = ''gateway-demo'', ws_key_id = ''k1'', ws_key_file = ''pem'',
          ws_source = ''form'', ws_fields = [\<lparr>wf_name = ''header1'', wf_label = header, wf_secret = True\<rparr>],
          ws_headers = [\<lparr>wh_name = header, wh_type = ''direct'', wh_field = ''header1''\<rparr>]\<rparr>]\<rparr>"

lemma config_demo_accepted: "map_sum id gf_services (ParseConfig config_demo_env (Some (config_demo_doc ''/team/mcp'' ''X-Token''))) =
   Inr [\<lparr>gs_id = ''demo'', gs_server_name = ''demo'', gs_server_namespace = ''team'', gs_resource_url = ''https://auth.x/team/mcp'',
     gs_resource_path = ''/team/mcp'', gs_upstream_url = ''https://mcp.x/team/mcp'',
     gs_validation_url = ''https://mcp.x/team/mcp/check'', gs_required_scopes = [''tools:read''], gs_client_id = ''gateway-demo'',
     gs_key_id = ''k1'', gs_fields = [\<lparr>ff_name = ''header1'', ff_label = ''X-Token'', ff_secret = True\<rparr>],
     gs_headers = [(''X-Token'', ''header1'')]\<rparr>]"
  by code_simp

lemma config_demo_root: "map_sum id (map gs_resource_path \<circ> gf_services) (ParseConfig config_demo_env (Some (config_demo_doc ''/'' ''X-Token''))) = Inr [''/'']"
  by code_simp

lemma map_sum_Inr: "map_sum id g m = Inr y \<Longrightarrow> \<exists>x. m = Inr x \<and> g x = y"
  by (cases m) simp_all

theorem accepted_config_routes_instance:
  "\<exists>cfg. ParseConfig config_demo_env (Some (config_demo_doc ''/team/mcp'' ''X-Token'')) = Inr cfg \<and>
     distinct (map fst (New_routes cfg)) \<and> length (gf_services cfg) = 1"
proof -
  obtain cfg where cfg: "ParseConfig config_demo_env (Some (config_demo_doc ''/team/mcp'' ''X-Token'')) = Inr cfg"
    "length (gf_services cfg) = 1"
    using map_sum_Inr [OF config_demo_accepted] by force
  then show ?thesis using accepted_config_routes [OF cfg(1)] by blast
qed

theorem accepted_form_renders_instance:
  "\<exists>cfg s. ParseConfig config_demo_env (Some (config_demo_doc ''/team/mcp'' ''X-Token'')) = Inr cfg \<and> s \<in> set (gf_services cfg) \<and>
     set (map ff_name (gs_fields s)) = snd ` set (gs_headers s)"
proof -
  obtain cfg where cfg: "ParseConfig config_demo_env (Some (config_demo_doc ''/team/mcp'' ''X-Token'')) = Inr cfg"
    "length (gf_services cfg) = 1"
    using map_sum_Inr [OF config_demo_accepted] by force
  then have "hd (gf_services cfg) \<in> set (gf_services cfg)" by (cases "gf_services cfg") simp_all
  then show ?thesis using accepted_form_renders [OF cfg(1)] cfg(1) by blast
qed

theorem root_service_has_no_sign_in_instance:
  "\<exists>cfg s. ParseConfig config_demo_env (Some (config_demo_doc ''/'' ''X-Token'')) = Inr cfg \<and> s \<in> set (gf_services cfg) \<and>
     mux_route (New_routes cfg) ''/login/authorize'' \<noteq> Some (RouteSignIn (gs_id s))"
proof -
  obtain cfg where cfg: "ParseConfig config_demo_env (Some (config_demo_doc ''/'' ''X-Token'')) = Inr cfg"
    "map gs_resource_path (gf_services cfg) = [''/'']"
    using map_sum_Inr [OF config_demo_root] by auto
  then have s: "hd (gf_services cfg) \<in> set (gf_services cfg)" "gs_resource_path (hd (gf_services cfg)) = ''/''"
    by (cases "gf_services cfg"; simp)+
  show ?thesis using root_service_has_no_sign_in [OF cfg(1) s] cfg(1) s(1) by blast
qed

end
