(* ===== verification/GatewayDerivation.thy ===== *)
theory GatewayDerivation
  imports GatewayConfigClaims
begin

text \<open>
  Deriving a gateway service from a server that opted in (\<open>ServiceFor\<close> in
  \<open>pkg/authgateway/services.go\<close>): the configuration entry the command line writes and the credential
  gateway parses at its start. A derived service is the decoded form of that entry.
\<close>

section \<open>Derivation\<close>

record server_input =
  sv_name :: gostring
  sv_namespace :: namespace
  sv_ingress_host :: gostring
  sv_ingress_path :: gostring
  sv_headers :: "gostring list"
  sv_validation_path :: gostring
  sv_secret_headers :: "gostring list"

datatype derive_error =
    DeriveName
  | DerivePlatformHost
  | DeriveIngressHost
  | DeriveIngressPath
  | DeriveHeaders gateway_header_error
  | DeriveAuthHost

definition host_forbidden :: gostring where "host_forbidden = ''/:?#@ ''"

definition platformMCPHost :: "gostring \<Rightarrow> gostring option" where
  "platformMCPHost publicHost =
     (let host = trim_space publicHost in
      if host = [] \<or> contains_any host host_forbidden then None else Some host)"

definition ClientKeyFile :: gostring where "ClientKeyFile = ''/etc/mcp-gateway-credential/client.pem''"

definition derived_field :: "server_input \<Rightarrow> nat \<Rightarrow> gostring \<Rightarrow> raw_form_field" where
  "derived_field inp i h = \<lparr>wf_name = GatewayFieldName i, wf_label = h, wf_secret = IsSecretHeader h (sv_secret_headers inp)\<rparr>"

definition derived_header :: "nat \<Rightarrow> gostring \<Rightarrow> raw_header" where
  "derived_header i h = \<lparr>wh_name = h, wh_type = ''direct'', wh_field = GatewayFieldName i\<rparr>"

definition derived_service :: "server_input \<Rightarrow> gostring \<Rightarrow> gostring \<Rightarrow> raw_service" where
  "derived_service inp host authHost =
     (let sid = to_lower (sv_name inp); upstream = ''https://'' @ host @ sv_ingress_path inp; hs = sv_headers inp in
      \<lparr>ws_id = sid, ws_server_name = sv_name inp, ws_namespace = sv_namespace inp,
       ws_resource_url = ''https://'' @ authHost @ sv_ingress_path inp, ws_upstream_url = upstream,
       ws_validation_url = upstream @ sv_validation_path inp, ws_scopes = [''tools:read''],
       ws_client_id = ''gateway-'' @ sid, ws_key_id = ''k1'', ws_key_file = ClientKeyFile, ws_source = ''form'',
       ws_fields = map (\<lambda>(i, h). derived_field inp i h) (zip [0..<length hs] hs),
       ws_headers = map (\<lambda>(i, h). derived_header i h) (zip [0..<length hs] hs)\<rparr>)"

definition ServiceFor :: "server_input \<Rightarrow> gostring \<Rightarrow> gostring \<Rightarrow> derive_error + raw_service" where
  "ServiceFor inp authHost publicHost =
     (if \<not> serviceIDRe (to_lower (sv_name inp)) then Inl DeriveName
      else
        (case platformMCPHost publicHost of
           None \<Rightarrow> Inl DerivePlatformHost
         | Some host \<Rightarrow>
             (let declared = trim_space (sv_ingress_host inp) in
              if declared \<noteq> [] \<and> (contains_any declared host_forbidden \<or> \<not> equal_fold declared host)
              then Inl DeriveIngressHost
              else if \<not> has_prefix (sv_ingress_path inp) ''/'' \<or> last (sv_ingress_path inp) = CHR ''/'' \<or>
                      contains_sub (sv_ingress_path inp) ''//''
              then Inl DeriveIngressPath
              else
                (case ValidateGateway (sv_validation_path inp) (sv_secret_headers inp) (sv_headers inp) of
                   Some e \<Rightarrow> Inl (DeriveHeaders e)
                 | None \<Rightarrow>
                     if trim_space authHost = [] then Inl DeriveAuthHost
                     else Inr (derived_service inp host authHost)))))"

section \<open>Derived headers and fields parse\<close>

lemma field_names: "\<forall>i \<in> set [0..<16]. fieldRe (GatewayFieldName i)" "distinct (map GatewayFieldName [0..<16])"
  by code_simp+

lemma fieldRe_index: "i < 16 \<Longrightarrow> fieldRe (GatewayFieldName i)"
  using field_names(1) by simp

lemma field_name_inj: "i < 16 \<Longrightarrow> j < 16 \<Longrightarrow> GatewayFieldName i = GatewayFieldName j \<Longrightarrow> i = j"
  using field_names(2) by (auto simp: distinct_map inj_on_def)

lemma upt_step: "[n..<n + length (h # hs)] = n # [Suc n..<Suc n + length hs]"
  using upt_conv_Cons [of n "n + length (h # hs)"] by (simp del: upt_Suc)

lemma derived_rules_parse:
  assumes "\<forall>h \<in> set hs. ValidateGatewayHeader h = None" "distinct (map to_lower hs)" "n + length hs \<le> 16"
    and "to_lower ` set hs \<inter> set seen = {}"
  shows "parse_header_rules seen (map (\<lambda>(i, h). derived_header i h) (zip [n..<n + length hs] hs)) =
    Inr (map (\<lambda>(i, h). (h, GatewayFieldName i)) (zip [n..<n + length hs] hs))"
  using assms
proof (induction hs arbitrary: n seen)
  case (Cons h hs)
  have "parse_header_rules (to_lower h # seen) (map (\<lambda>(i, h). derived_header i h) (zip [Suc n..<Suc n + length hs] hs)) =
      Inr (map (\<lambda>(i, h). (h, GatewayFieldName i)) (zip [Suc n..<Suc n + length hs] hs))"
    using Cons.prems by (intro Cons.IH) auto
  then show ?case
    using Cons.prems fieldRe_index [of n]
    unfolding upt_step by (simp add: derived_header_def check_then_def and_then_def)
qed simp

lemma derived_fields_parse:
  assumes "\<forall>h \<in> set hs. trim_space h \<noteq> [] \<and> length (trim_space h) \<le> 80 \<and> \<not> contains_any (trim_space h) [CHR 0x0D, CHR 0x0A, CHR 0x00]"
    and "n + length hs \<le> 16" "set want = GatewayFieldName ` {0..<n + length hs}" "length seen = n"
    and "set seen \<subseteq> GatewayFieldName ` {0..<n}"
  shows "\<exists>out. parse_fields want seen (map (\<lambda>(i, h). derived_field inp i h) (zip [n..<n + length hs] hs)) = Inr out"
  using assms
proof (induction hs arbitrary: n seen)
  case Nil
  have "inj_on GatewayFieldName {0..<n}" using field_name_inj Nil(2) by (auto simp: inj_on_def)
  then have "card (set want) = n" using Nil(3) by (simp add: card_image)
  then show ?case using Nil(4) by (simp add: length_remdups_card_conv)
next
  case (Cons h hs)
  have fresh: "GatewayFieldName n \<notin> set seen"
  proof
    assume "GatewayFieldName n \<in> set seen"
    then obtain j where "j < n" "GatewayFieldName n = GatewayFieldName j" using Cons.prems(5) by auto
    then show False using field_name_inj [of n j] Cons.prems(2) by simp
  qed
  have "\<exists>out. parse_fields want (GatewayFieldName n # seen)
      (map (\<lambda>(i, h). derived_field inp i h) (zip [Suc n..<Suc n + length hs] hs)) = Inr out"
  proof (rule Cons.IH)
    show "set (GatewayFieldName n # seen) \<subseteq> GatewayFieldName ` {0..<Suc n}"
      using Cons.prems(5) by (auto simp: atLeast0_lessThan_Suc)
  qed (use Cons.prems in auto)
  then obtain out where "parse_fields want (GatewayFieldName n # seen)
      (map (\<lambda>(i, h). derived_field inp i h) (zip [Suc n..<Suc n + length hs] hs)) = Inr out" by blast
  moreover have "GatewayFieldName n \<in> set want" using Cons.prems(3) by simp
  ultimately show ?case
    using fresh Cons.prems(1,2) fieldRe_index [of n]
    unfolding upt_step by (simp add: derived_field_def field_label_def check_then_def and_then_def)
qed

section \<open>Accepted by the gateway\<close>

lemma token_not_space: "is_token_char c \<Longrightarrow> \<not> is_space c \<and> c \<noteq> CHR 0x0D \<and> c \<noteq> CHR 0x0A \<and> c \<noteq> CHR 0x00"
  by (auto simp: is_token_char_def is_alnum_def token_symbols_def is_space_def less_eq_char_def)

lemma ValidateName_token: "ValidateName name = None \<Longrightarrow> name \<noteq> [] \<and> list_all is_token_char name"
  by (auto simp: ValidateName_def Let_def split: if_splits)

lemma gateway_header_token: "ValidateGatewayHeader h = None \<Longrightarrow> h \<noteq> [] \<and> list_all is_token_char h"
  using ValidateName_token [of h] by (auto simp: ValidateGatewayHeader_def split: option.splits)

lemma trim_space_solid: "\<forall>c \<in> set s. \<not> is_space c \<Longrightarrow> trim_space s = s"
proof -
  assume solid: "\<forall>c \<in> set s. \<not> is_space c"
  have "dropWhile is_space s = s" using solid by (cases s) auto
  moreover have "dropWhile is_space (rev s) = rev s" using solid by (cases s rule: rev_cases) auto
  ultimately show "trim_space s = s" by (simp add: trim_space_def)
qed

lemma gateway_header_label:
  assumes "ValidateGatewayHeader h = None"
  shows "trim_space h = h \<and> h \<noteq> [] \<and> \<not> contains_any h [CHR 0x0D, CHR 0x0A, CHR 0x00]"
  using gateway_header_token [OF assms] token_not_space trim_space_solid [of h]
  by (auto simp: contains_any_def list_all_iff)

lemma ValidateGateway_headers: "ValidateGateway p secrets headers = None \<Longrightarrow> h \<in> set headers \<Longrightarrow> ValidateGatewayHeader h = None"
  by (auto simp: ValidateGateway_def find_None_iff find_Some_iff split: if_splits option.splits)

text \<open>What is relied on of URL parsing: an \<open>https\<close> URL of a plain host and a plain rooted path has these
  parts and prints as it was written.\<close>

definition host_plain :: "gostring \<Rightarrow> bool" where
  "host_plain h \<longleftrightarrow> h \<noteq> [] \<and> list_all (\<lambda>c. is_alnum c \<or> c = CHR ''.'' \<or> c = CHR ''-'') h"

definition path_plain :: "gostring \<Rightarrow> bool" where
  "path_plain p \<longleftrightarrow> has_prefix p ''/'' \<and> list_all validation_path_char p"

definition parses_plain_urls :: "config_env \<Rightarrow> bool" where
  "parses_plain_urls env \<longleftrightarrow>
     (\<forall>h p. host_plain h \<longrightarrow> path_plain p \<longrightarrow>
        cv_url env (''https://'' @ h @ p) =
          Some \<lparr>pu_scheme = ''https'', pu_host = h, pu_path = p, pu_text = ''https://'' @ h @ p, cu_user = False,
                cu_query = [], cu_fragment = []\<rparr>)"

definition none_taken :: taken where
  "none_taken = \<lparr>tk_ids = [], tk_resources = [], tk_clients = [], tk_paths = []\<rparr>"

lemma ServiceFor_Inr:
  assumes "ServiceFor inp authHost publicHost = Inr d"
  shows "\<exists>host. platformMCPHost publicHost = Some host \<and> d = derived_service inp host authHost \<and>
    serviceIDRe (to_lower (sv_name inp)) \<and> has_prefix (sv_ingress_path inp) ''/'' \<and> last (sv_ingress_path inp) \<noteq> CHR ''/'' \<and>
    ValidateGateway (sv_validation_path inp) (sv_secret_headers inp) (sv_headers inp) = None"
  using assms by (auto simp: ServiceFor_def Let_def split: if_splits option.splits)

lemma path_plain_append: "path_plain p \<Longrightarrow> list_all validation_path_char q \<Longrightarrow> path_plain (p @ q)"
  by (cases p) (auto simp: path_plain_def has_prefix_def)

lemma checkURL_plain:
  assumes "parses_plain_urls env" "host_plain h" "path_plain p"
  shows "checkURL env (''https://'' @ h @ p) what insecure =
    Inr \<lparr>pu_scheme = ''https'', pu_host = h, pu_path = p, pu_text = ''https://'' @ h @ p, cu_user = False,
      cu_query = [], cu_fragment = []\<rparr>"
proof -
  have "cv_url env (''https://'' @ h @ p) = Some \<lparr>pu_scheme = ''https'', pu_host = h, pu_path = p, pu_text = ''https://'' @ h @ p, cu_user = False,
      cu_query = [], cu_fragment = []\<rparr>"
    using assms by (simp only: parses_plain_urls_def)
  then show ?thesis using assms(2) by (simp only: checkURL_def) (simp add: host_plain_def)
qed

lemma claim_local_paths:
  assumes "\<forall>q \<in> set (local_paths pfx p). \<not> reserved_path q"
  shows "\<exists>out. claim_paths [] (local_paths pfx p) = Inr out"
proof (cases "pfx \<noteq> [] \<and> has_prefix p (pfx @ ''/'')")
  case True
  then have "length (take (length pfx + 1) p) = length pfx + 1" by (simp add: has_prefix_def)
  then have "length pfx < length p" by (simp add: min_def split: if_splits)
  then have "length (trim_prefix p pfx) < length p" if "has_prefix p pfx"
    using True that by (cases pfx) (auto simp: trim_prefix_def)
  moreover have "has_prefix p pfx"
    using True has_prefix_shorter by blast
  ultimately have "p \<noteq> trim_prefix p pfx" by auto
  then show ?thesis using assms True by (simp add: local_paths_def)
next
  case False
  then show ?thesis using assms by (auto simp: local_paths_def)
qed

lemma derived_headers_parse:
  assumes "\<forall>h \<in> set hs. ValidateGatewayHeader h = None" "distinct (map to_lower hs)" "hs \<noteq> []" "length hs \<le> 16"
  shows "parseHeaders (map (\<lambda>(i, h). derived_header i h) (zip [0..<length hs] hs)) =
    Inr (map (\<lambda>(i, h). (h, GatewayFieldName i)) (zip [0..<length hs] hs))"
  using derived_rules_parse [of hs 0 "[]"] assms by (simp add: parseHeaders_def)

lemma derived_form_parses:
  assumes "\<forall>h \<in> set hs. ValidateGatewayHeader h = None \<and> length h \<le> 80" "hs \<noteq> []" "length hs \<le> 16"
  shows "\<exists>out. parseFormFields (map (\<lambda>(i, h). derived_field inp i h) (zip [0..<length hs] hs))
    (map (\<lambda>(i, h). (h, GatewayFieldName i)) (zip [0..<length hs] hs)) = Inr out"
proof -
  have "map snd (map (\<lambda>(i, h). (h, GatewayFieldName i)) (zip [0..<length hs] hs)) = map (GatewayFieldName \<circ> fst) (zip [0..<length hs] hs)"
    by auto
  also have "\<dots> = map GatewayFieldName [0..<length hs]" by (simp flip: map_map)
  finally have want: "set (map snd (map (\<lambda>(i, h). (h, GatewayFieldName i)) (zip [0..<length hs] hs))) = GatewayFieldName ` {0..<length hs}"
    by simp
  show ?thesis
    using derived_fields_parse [of hs 0 "map snd (map (\<lambda>(i, h). (h, GatewayFieldName i)) (zip [0..<length hs] hs))" "[]" inp]
      assms gateway_header_label want
    by (simp add: parseFormFields_def)
qed

text \<open>C33: When \<open>ServiceFor\<close> derives an entry from a server whose header list admission accepted and whose
  header names have at most 80 characters, the credential gateway accepts that entry as the first
  service of its configuration, with the server's headers and path, under these conditions: the
  platform host, the auth host, the ingress path and the validation path consist of plain
  characters (which a URL parser returns as they are), the key file is readable and an RSA key, and no
  local path of the server is one of the health and discovery routes. A second service is
  checked against the first, which is not part of this.\<close>

theorem derived_service_accepted:
  assumes "ServiceFor inp authHost publicHost = Inr d" and "NormalizeNames (sv_headers inp) = None"
    and "\<forall>h \<in> set (sv_headers inp). length h \<le> 80"
    and "parses_plain_urls env" and "host_plain (trim_space publicHost)" and "host_plain authHost"
    and "path_plain (sv_ingress_path inp)" and "list_all validation_path_char (sv_validation_path inp)"
    and "readSecretFile env ClientKeyFile ''resource client key'' = Inr pem" and "cv_rsa env pem"
    and "\<forall>q \<in> set (local_paths pfx (sv_ingress_path inp)). \<not> reserved_path q"
  shows "\<exists>svc tk. parse_service env insecure pfx none_taken d = Inr (svc, tk) \<and>
    map fst (gs_headers svc) = sv_headers inp \<and> gs_resource_path svc = sv_ingress_path inp"
proof -
  let ?p = "sv_ingress_path inp" and ?hs = "sv_headers inp"
  obtain host where host: "platformMCPHost publicHost = Some host" "d = derived_service inp host authHost"
    "serviceIDRe (to_lower (sv_name inp))" "last ?p \<noteq> CHR ''/''"
    "ValidateGateway (sv_validation_path inp) (sv_secret_headers inp) ?hs = None"
    using ServiceFor_Inr [OF assms(1)] by blast
  then have "host = trim_space publicHost" by (auto simp: platformMCPHost_def Let_def split: if_splits)
  then have plain: "host_plain host" using assms(5) by simp
  have names: "\<forall>h \<in> set ?hs. ValidateGatewayHeader h = None" using ValidateGateway_headers [OF host(5)] by blast
  have hs: "?hs \<noteq> []" "length ?hs \<le> 16" "distinct (map to_lower ?hs)"
    using assms(2) by (simp_all add: NormalizeNames_None MaxNames_def)
  obtain ffs where ffs: "parseFormFields (map (\<lambda>(i, h). derived_field inp i h) (zip [0..<length ?hs] ?hs))
      (map (\<lambda>(i, h). (h, GatewayFieldName i)) (zip [0..<length ?hs] ?hs)) = Inr ffs"
    using derived_form_parses [of ?hs inp] names assms(3) hs by blast
  obtain paths where paths: "claim_paths [] (local_paths pfx ?p) = Inr paths"
    using claim_local_paths [OF assms(11)] by blast
  have "trim_right_char (CHR ''/'') ?p = ?p" using trim_right_char_id host(4) by blast
  moreover have "?p \<noteq> []" using assms(7) by (auto simp: path_plain_def has_prefix_def)
  ultimately have "parse_service env insecure pfx none_taken d = Inr (
      \<lparr>gs_id = to_lower (sv_name inp), gs_server_name = sv_name inp, gs_server_namespace = sv_namespace inp,
       gs_resource_url = trim_right_char (CHR ''/'') (''https://'' @ authHost @ ?p), gs_resource_path = ?p,
       gs_upstream_url = ''https://'' @ host @ ?p, gs_validation_url = ''https://'' @ host @ ?p @ sv_validation_path inp,
       gs_required_scopes = [''tools:read''], gs_client_id = ''gateway-'' @ to_lower (sv_name inp), gs_key_id = ''k1'',
       gs_fields = ffs, gs_headers = map (\<lambda>(i, h). (h, GatewayFieldName i)) (zip [0..<length ?hs] ?hs)\<rparr>,
      \<lparr>tk_ids = [to_lower (sv_name inp)], tk_resources = [trim_right_char (CHR ''/'') (''https://'' @ authHost @ ?p)],
       tk_clients = [''gateway-'' @ to_lower (sv_name inp)], tk_paths = paths\<rparr>)"
    using host(3) checkURL_plain [OF assms(4,6,7)] checkURL_plain [OF assms(4) plain assms(7)]
      checkURL_plain [OF assms(4) plain path_plain_append [OF assms(7,8)]] derived_headers_parse [OF names hs(3,1,2)] ffs
      assms(9,10) paths
    unfolding host(2) parse_service_def derived_service_def Let_def raw_service.simps
    by (simp add: and_then_def check_then_def resource_path_def none_taken_def scope_ok_def contains_any_def)
  moreover have "map fst (map (\<lambda>(i, h). (h, GatewayFieldName i)) (zip [0..<length ?hs] ?hs)) = ?hs"
    by (simp add: case_prod_beta comp_def)
  ultimately show ?thesis by simp
qed

section \<open>Refused by the gateway\<close>

lemma parse_fields_labels: "parse_fields want seen raw = Inr out \<Longrightarrow> f \<in> set raw \<Longrightarrow> length (field_label f) \<le> 80"
  by (induction want seen raw arbitrary: out rule: parse_fields.induct) auto

lemma parse_services_all:
  "parse_services env insecure pfx tk raw = Inr out \<Longrightarrow> s \<in> set raw \<Longrightarrow> \<exists>tk0 r. parse_service env insecure pfx tk0 s = Inr r"
  by (induction env insecure pfx tk raw arbitrary: out rule: parse_services.induct) auto

text \<open>A name of letters and digits is never reserved once it is long enough.\<close>

lemma alnum_lower: "is_alnum c \<Longrightarrow> to_lower_char c \<noteq> CHR ''-''"
proof (cases "CHR ''A'' \<le> c \<and> c \<le> CHR ''Z''")
  case True
  define n where "n = (of_char c :: nat)"
  have c: "c = char_of n" and n: "65 \<le> n" "n \<le> 90"
    using True by (simp_all add: n_def less_eq_char_def)
  have "to_lower_char c = char_of (n + 32)" using True by (simp add: to_lower_char_def n_def)
  moreover have "(of_char (char_of (n + 32) :: char) :: nat) = n + 32" using n by simp
  ultimately have "(of_char (to_lower_char c) :: nat) = n + 32" by simp
  then show ?thesis using n by auto
next
  case False
  assume "is_alnum c"
  then have "c \<noteq> CHR ''-''" by (auto simp: is_alnum_def less_eq_char_def)
  with False show ?thesis by (auto simp: to_lower_char_def)
qed

lemma alnum_no_dash: "list_all is_alnum h \<Longrightarrow> CHR ''-'' \<in> set p \<Longrightarrow> \<not> has_prefix (to_lower h) p"
proof
  assume h: "list_all is_alnum h" and dash: "CHR ''-'' \<in> set p" and "has_prefix (to_lower h) p"
  then have "set p \<subseteq> set (to_lower h)" by (metis has_prefix_def set_take_subset)
  then have "CHR ''-'' \<in> to_lower_char ` set h" using dash by (auto simp: to_lower_def)
  then obtain c where "c \<in> set h" "to_lower_char c = CHR ''-''" by auto
  then show False using h alnum_lower [of c] by (simp add: list_all_iff)
qed

lemma reserved_short: "\<forall>n \<in> set (reserved_names @ gatewayOwned). length n \<le> 80"
  by code_simp

lemma long_alnum_header:
  assumes "list_all is_alnum h" and "80 < length h"
  shows "ValidateGatewayHeader h = None"
proof -
  have "length (to_lower h) = length h" by (simp add: to_lower_def)
  then have "to_lower h \<notin> set (reserved_names @ gatewayOwned)" using bspec [OF reserved_short, of "to_lower h"] assms(2) by linarith
  moreover have "list_all is_token_char h" using assms(1) by (auto simp: list_all_iff is_token_char_def)
  moreover have "h \<noteq> []" using assms(2) by auto
  ultimately show ?thesis
    by (simp add: ValidateGatewayHeader_def ValidateName_def Let_def alnum_no_dash [OF assms(1)])
qed

text \<open>The conditions of \<open>ServiceFor\<close> on everything but the header names.\<close>

definition derivable :: "server_input \<Rightarrow> gostring \<Rightarrow> gostring \<Rightarrow> bool" where
  "derivable inp authHost publicHost \<longleftrightarrow>
     serviceIDRe (to_lower (sv_name inp)) \<and>
     trim_space publicHost \<noteq> [] \<and> \<not> contains_any (trim_space publicHost) host_forbidden \<and>
     (trim_space (sv_ingress_host inp) = [] \<or>
      \<not> contains_any (trim_space (sv_ingress_host inp)) host_forbidden \<and>
      equal_fold (trim_space (sv_ingress_host inp)) (trim_space publicHost)) \<and>
     has_prefix (sv_ingress_path inp) ''/'' \<and> last (sv_ingress_path inp) \<noteq> CHR ''/'' \<and>
     \<not> contains_sub (sv_ingress_path inp) ''//'' \<and>
     validation_path_ok (sv_validation_path inp) \<and>
     (\<forall>s \<in> set (sv_secret_headers inp). to_lower (trim_space s) \<in> to_lower ` set (sv_headers inp)) \<and>
     distinct (map (\<lambda>s. to_lower (trim_space s)) (sv_secret_headers inp)) \<and>
     trim_space authHost \<noteq> []"

lemma derivable_service:
  assumes "derivable inp authHost publicHost" and "\<forall>h \<in> set (sv_headers inp). ValidateGatewayHeader h = None"
  shows "ServiceFor inp authHost publicHost = Inr (derived_service inp (trim_space publicHost) authHost)"
proof -
  have "List.find (\<lambda>e. e \<noteq> None) (map ValidateGatewayHeader (sv_headers inp)) = None"
    using assms(2) by (simp add: find_None_iff)
  then have "ValidateGateway (sv_validation_path inp) (sv_secret_headers inp) (sv_headers inp) = None"
    using assms(1) unfolding ValidateGateway_def
    by (simp add: derivable_def validate_loop_None all_set_conv_all_nth)
  then show ?thesis
    using assms(1) by (simp add: ServiceFor_def platformMCPHost_def Let_def derivable_def)
qed

text \<open>C40: The validation of a pushed server does not bound the length of a header name, the parser of the
  gateway bounds the label that is derived from it. For every server that meets the other
  conditions of the derivation, one of whose headers has a name of more than 80 letters and
  digits, the others being acceptable: the service is derived without an error, and no
  configuration that contains it is accepted, whatever its environment and its other entries,
  so that the gateway does not start for any of its services.\<close>

theorem long_header_name_stops_gateway:
  assumes "derivable inp authHost publicHost" and "h \<in> set (sv_headers inp)" and "list_all is_alnum h" and "80 < length h"
    and "\<forall>x \<in> set (sv_headers inp) - {h}. ValidateGatewayHeader x = None"
  shows "\<exists>d. ServiceFor inp authHost publicHost = Inr d \<and>
    (\<forall>env f. d \<in> set (wc_services f) \<longrightarrow> \<not> (\<exists>cfg. ParseConfig env (Some f) = Inr cfg))"
proof -
  let ?d = "derived_service inp (trim_space publicHost) authHost"
  have names: "\<forall>x \<in> set (sv_headers inp). ValidateGatewayHeader x = None"
    using assms(5) long_alnum_header [OF assms(3,4)] by blast
  have "\<not> (\<exists>cfg. ParseConfig env (Some f) = Inr cfg)" if d: "?d \<in> set (wc_services f)" for env f
  proof
    assume "\<exists>cfg. ParseConfig env (Some f) = Inr cfg"
    then obtain cfg where "ParseConfig env (Some f) = Inr cfg" by blast
    then obtain out where "parse_services env (wc_insecure f) (wc_prefix f) none_taken (wc_services f) = Inr out"
      using ParseConfig_services by (fastforce simp: none_taken_def)
    then obtain tk0 svc tk1 where "parse_service env (wc_insecure f) (wc_prefix f) tk0 ?d = Inr (svc, tk1)"
      using parse_services_all d by fastforce
    then have "parseFormFields (ws_fields ?d) (gs_headers svc) = Inr (gs_fields svc)" using parse_service_Inr by blast
    then have "\<exists>want. parse_fields want [] (ws_fields ?d) = Inr (gs_fields svc)"
      by (auto simp: parseFormFields_def split: if_splits)
    moreover obtain i where "i < length (sv_headers inp)" "sv_headers inp ! i = h" using assms(2) by (auto simp: in_set_conv_nth)
    then have "derived_field inp i h \<in> set (ws_fields ?d)" by (force simp: derived_service_def Let_def in_set_zip)
    ultimately have "length (field_label (derived_field inp i h)) \<le> 80" using parse_fields_labels by blast
    then show False
      using assms(4) gateway_header_label [of h] long_alnum_header [OF assms(3,4)] by (simp add: field_label_def derived_field_def)
  qed
  with derivable_service [OF assms(1) names] show ?thesis by blast
qed

section \<open>Instances\<close>

definition demo_input :: "gostring \<Rightarrow> server_input" where
  "demo_input header =
     \<lparr>sv_name = ''demo'', sv_namespace = ''team'', sv_ingress_host = [], sv_ingress_path = ''/team/mcp'', sv_headers = [header],
      sv_validation_path = ''/check'', sv_secret_headers = []\<rparr>"

text \<open>A URL parser that is right on plain URLs: the host ends at the first slash.\<close>

definition split_url :: "gostring \<Rightarrow> config_url option" where
  "split_url s =
     (if \<not> has_prefix s ''https://'' then None
      else (let rest = drop 8 s; h = takeWhile (\<lambda>c. c \<noteq> CHR ''/'') rest; p = dropWhile (\<lambda>c. c \<noteq> CHR ''/'') rest in
            Some \<lparr>pu_scheme = ''https'', pu_host = h, pu_path = p, pu_text = s, cu_user = False, cu_query = [], cu_fragment = []\<rparr>))"

definition plain_env :: config_env where
  "plain_env =
     \<lparr>cv_url = split_url, cv_file = (\<lambda>f. if f = ClientKeyFile then Some ''RSA'' else Some ''0123456789abcdef0123456789abcdef''),
      cv_rsa = (\<lambda>t. t = ''RSA'')\<rparr>"

lemma plain_env_urls: "parses_plain_urls plain_env"
  unfolding parses_plain_urls_def
proof (intro allI impI)
  fix h p
  assume h: "host_plain h" and p: "path_plain p"
  have slash: "\<forall>c \<in> set h. c \<noteq> CHR ''/''" using h by (auto simp: host_plain_def list_all_iff is_alnum_def less_eq_char_def)
  obtain q where q: "p = CHR ''/'' # q" using p by (cases p) (auto simp: path_plain_def has_prefix_def)
  have "takeWhile (\<lambda>c. c \<noteq> CHR ''/'') (h @ p) = h" using slash by (simp add: q takeWhile_append2)
  moreover have "dropWhile (\<lambda>c. c \<noteq> CHR ''/'') (h @ p) = p" using slash by (simp add: q dropWhile_append2)
  ultimately show "cv_url plain_env (''https://'' @ h @ p) =
      Some \<lparr>pu_scheme = ''https'', pu_host = h, pu_path = p, pu_text = ''https://'' @ h @ p, cu_user = False,
        cu_query = [], cu_fragment = []\<rparr>"
    by (simp add: plain_env_def split_url_def has_prefix_def)
qed

theorem derived_service_accepted_instance:
  "\<exists>svc tk. parse_service plain_env False [] none_taken (derived_service (demo_input ''X-Token'') ''mcp.x'' ''auth.x'') = Inr (svc, tk) \<and>
    map fst (gs_headers svc) = [''X-Token''] \<and> gs_resource_path svc = ''/team/mcp''"
proof -
  have "ServiceFor (demo_input ''X-Token'') ''auth.x'' ''mcp.x'' = Inr (derived_service (demo_input ''X-Token'') ''mcp.x'' ''auth.x'')"
    "NormalizeNames (sv_headers (demo_input ''X-Token'')) = None"
    "host_plain (trim_space ''mcp.x'')" "host_plain ''auth.x''" "path_plain (sv_ingress_path (demo_input ''X-Token''))"
    "list_all validation_path_char (sv_validation_path (demo_input ''X-Token''))"
    "readSecretFile plain_env ClientKeyFile ''resource client key'' = Inr ''RSA''" "cv_rsa plain_env ''RSA''"
    "\<forall>q \<in> set (local_paths [] (sv_ingress_path (demo_input ''X-Token''))). \<not> reserved_path q"
    "\<forall>h \<in> set (sv_headers (demo_input ''X-Token'')). length h \<le> 80"
    by code_simp+
  from derived_service_accepted [OF this(1,2,10) plain_env_urls this(3,4,5,6,7,8,9), of False] show ?thesis
    by (simp add: demo_input_def)
qed

definition long_name :: gostring where "long_name = replicate 81 (CHR ''x'')"

theorem long_header_name_stops_gateway_instance:
  "\<exists>d. ServiceFor (demo_input long_name) ''auth.x'' ''mcp.x'' = Inr d \<and>
    \<not> (\<exists>cfg. ParseConfig plain_env (Some ((config_demo_doc ''/team/mcp'' ''X-Token'')\<lparr>wc_services := [d]\<rparr>)) = Inr cfg)"
proof -
  have inp: "derivable (demo_input long_name) ''auth.x'' ''mcp.x''" by code_simp
  have long: "list_all is_alnum long_name" "80 < length long_name" by code_simp+
  from long_header_name_stops_gateway [OF inp _ long] obtain d where
    "ServiceFor (demo_input long_name) ''auth.x'' ''mcp.x'' = Inr d"
    "\<forall>env f. d \<in> set (wc_services f) \<longrightarrow> \<not> (\<exists>cfg. ParseConfig env (Some f) = Inr cfg)"
    by (auto simp: demo_input_def)
  then show ?thesis by fastforce
qed

end
