(* ===== verification/Spec2Isabelle.thy ===== *)
theory Spec2Isabelle
  imports PolicyPadding PolicyClaims SessionClaims SessionSync BreakerClaims IdempotencyClaims IdempotencyInv
    IdempotencyStore PolicyCache GatewayGuarantees OperatorClaims CredentialMetadata LimitsClaims WorkloadClaims SignInDemo SessionBinding
    LockoutClaims RouteClaims SessionApiClaims GatewayDerivation
begin

text \<open>
  MCP Runtime puts a gateway in front of every MCP server of a Kubernetes cluster. This development
  models the path a request and the data it is judged by take through the platform, and proves what
  each part promises and what follows when they work together.

  The program's parts and how they interact:

  \<^item> Administrators create \<open>MCPServer\<close> and \<open>MCPAccessGrant\<close> objects. The admission webhook checks
    them, the operator defaults them, decides which server owns a public route, and renders one
    policy document per server into a config map.
  \<^item> The platform API keeps sessions in tables with a change log; each gateway polls the sessions of
    its own server into a replica. It also keeps credential metadata and resolves secrets for
    gateways and adapters.
  \<^item> The gateway of a server loads the policy, and takes every request through five stages:
    inspection of the JSON-RPC body, the policy snapshot, authentication (headers, OAuth, adapter
    certificates), authorization by the policy engine, and forwarding with idempotency keys,
    injected credentials and a circuit breaker. It writes an audit record.
  \<^item> The credential gateway, a second mode of the gateway's image, serves all servers that opted in:
    it signs a person in, has the upstream validate the header values they type in, keeps them in
    memory, and forwards their calls with them.

  How the code is modelled. A Go string is a list of bytes; a struct is a record, a tagged value a
  datatype, a nil pointer \<^term>\<open>None\<close>; a Go map is a finite function or a list of pairs with distinct
  keys; an instant counts nanoseconds as an integer; a 64-bit counter is a 64-bit word where it may
  wrap. An error return, a refusal with its status, a panic are values. State is passed explicitly;
  where the code releases a lock while it waits (for a reply, a password check, an upstream), the
  operation is split there, and properties quantify over every sequence of such steps, that is
  over every interleaving. Clock readings, random strings and the replies of other processes are
  arguments. The machines are interpretations of the locale \<open>step_machine\<close> (\<open>GoBase\<close>), whose facts
  carry an invariant along every run.

  Prelude:

  \<^item> \<open>GoBase\<close>: the string functions, Go's validation loops, \<open>step_machine\<close>. \<open>GoTime\<close>, \<open>TimeFormat\<close>:
    instants and RFC 3339, with the round trip of formatting and parsing. \<open>GoMap\<close>: maps as lists.
    \<open>Encoding\<close>: base64 and hexadecimal.

  The policy engine (\<open>pkg/policy\<close>):

  \<^item> \<open>PolicyTypes\<close> (types.go, helpers.go, trust.go, side_effect.go), \<open>PolicyIndex\<close> (compiled.go and the
    scans of evaluator.go), \<open>PolicyEval\<close> (evaluator.go, evaluator_delegated.go): the document, its
    index and the decision \<open>Authorize\<close>.
  \<^item> \<open>PolicySelection\<close>, \<open>PolicyAuthz\<close>: a specification of grant selection over sets, and the proof
    that the loops compute it. \<open>PolicyClaims\<close>: what holds of every decision, and that a compiled
    document decides like the plain one.
  \<^item> \<open>PolicyValidate\<close> (validate.go, revision.go): the checks both sides run and what they guarantee;
    \<open>PolicyPadding\<close>: what they let through. \<open>CredentialHeaders\<close> (\<open>pkg/credentialheaders\<close>): the header contract.

  Sessions:

  \<^item> \<open>SessionStore\<close> (platformstore/sessions.go, session_enrollment.go, and the parts of agents.go and
    user_lifecycle.go that touch sessions): each operation is one transaction. \<open>SessionInv\<close>: every
    operation is a sequence of three primitive transitions (the relation \<open>prim\<close>), from which the
    invariants follow by rule induction. \<open>SessionClaims\<close>: what holds in every reachable state.
  \<^item> \<open>SessionApi\<close>, \<open>SessionApiClaims\<close> (sessionapi/handlers.go, platformclient/sessions.go): the two
    listeners over the store and the client's loop over pages, a partial function whose value
    \<^term>\<open>None\<close> is not returning; it is proved to return.
  \<^item> \<open>SessionSync\<close> (session_sync.go): the replica as a refinement of the store. A poll reads its
    cursor, is answered and is processed at three moments, with store operations and lookups of
    single sessions, which can drop the replica, in between.
    \<open>SpiffeIdentity\<close> (\<open>pkg/identity\<close>): session identities in certificates.

  The gateway (\<open>services/mcp-gateway\<close>):

  \<^item> \<open>GatewayRequest\<close> (rpc.go, types.go), \<open>PolicyCache\<close> (policy_cache.go), \<open>GatewayAuth\<close> (filter_auth.go),
    \<open>GatewayOAuth\<close> (oauth.go), \<open>GatewayUpstream\<close> (filter_authz.go, credential_broker.go,
    idempotency.go, filter_upstream.go), \<open>GatewayPipeline\<close> (proxy.go, exchange.go): the stages and
    their composition. \<open>GatewayAudit\<close> (proxy.go, analytics.go, \<open>pkg/events\<close>): what is recorded of an
    exchange, and the queue the record is handed to. \<open>GatewayClaims\<close>, \<open>GatewayGuarantees\<close>: what holds of a request
    from its arrival to its forwarding, whatever other goroutines change between stages.
  \<^item> \<open>Breaker\<close>, \<open>BreakerClaims\<close> (upstream_resilience.go): one critical section is one event.
  \<^item> \<open>IdempotencyStore\<close>, \<open>IdempotencyInv\<close>, \<open>IdempotencyClaims\<close> (idempotency_store.go): the store; the
    locale \<open>idempotency_interface\<close> states the interface the forwarding relies on.

  From objects to policy:

  \<^item> \<open>ServerSpec\<close> (\<open>api/v1alpha1\<close>), \<open>Admission\<close> (validation.go, \<open>pkg/access/specvalidation\<close>),
    \<open>OperatorPolicy\<close> (\<open>internal/operator\<close> policy.go, grant_index.go). \<open>OperatorClaims\<close>: what
    admission accepts renders to a policy \<open>Validate\<close> accepts, and the gateway then allows no call
    without a grant object.
  \<^item> \<open>RouteOwnership\<close>, \<open>RouteClaims\<close> (route_ownership.go): one owner for each public route, hence one
    OAuth audience for each server.

  Credentials:

  \<^item> \<open>CredentialTypes\<close> (\<open>pkg/credentialbroker\<close>), \<open>CredentialStore\<close> (platformstore/credentials.go),
    \<open>CredentialLimits\<close> (credentialapi/limits.go), \<open>WorkloadIdentity\<close> (sessionapi/identity.go),
    \<open>CredentialApi\<close> (credentialapi/handler.go, providers.go). \<open>CredentialClaims\<close>,
    \<open>CredentialMetadata\<close>, \<open>LimitsClaims\<close>, \<open>WorkloadClaims\<close>: who gets a secret, the tables under every
    sequence of operations, the budgets, and what an accepted workload token means.
  \<^item> \<open>FormStore\<close> (store.go), \<open>SignIn\<close> (login.go), \<open>CredentialGateway\<close> (session.go, authz.go, gateway.go),
    \<open>GatewayRun\<close>: the credential gateway (\<open>services/mcp-gateway/credential\<close>) as one machine.
    \<open>SignInClaims\<close>, \<open>SignInGuarantees\<close>, \<open>GatewayDelivery\<close>, \<open>GatewayBounds\<close>, \<open>SessionBinding\<close>: whose
    values are sent for whom, for how long, and what bounds the tables. \<open>SignInDemo\<close>: a complete
    run the guarantees are applied to.
  \<^item> \<open>GatewayConfig\<close>, \<open>GatewayConfigClaims\<close> (config.go and the routes of gateway.go),
    \<open>GatewayDerivation\<close> (\<open>pkg/authgateway\<close> services.go): the accepted configurations, and that a
    service derived from an admitted server is among them.

  Logins: \<open>Lockout\<close>, \<open>LockoutClaims\<close> (\<open>services/platform-api/auth\<close> lockout.go, login.go).

  Bounds and fuel. No definition runs on fuel; loops are structural, or recursive with a measure, or
  the partial function named above. Sizes (page and change limits, quotas, table bounds, lockout
  durations) are the code's constants. Instants and durations are unbounded integers: the code's own
  64-bit nanoseconds reach to the year 2262.

  Parameters. SHA-256, HMAC, random strings, JWT verification and token exchange, URL parsing, the
  JSON decoder's tokens, file reads, HTTP and SQL transport, the Kubernetes client and the token
  review are arguments. A property that relies on one of them says so in its hypotheses: that the
  digest has no collision between two given inputs, that a plain URL parses into its parts. Each
  such property is applied to an instance.

  Not modelled, and why. Bodies are not streamed byte by byte; TLS handshakes, reverse proxying and
  OpenTelemetry belong to libraries. Metrics, the analytics pipeline behind the gateway's queue (posting, ingest, processor, usage
  queries), the web interface and the status of objects are read by no decision. The operator's
  workloads, services, certificates and network policies, and the command line's installation
  steps build Kubernetes objects for the API server to interpret; their effect lies outside the
  repository. Accounts, teams, keys and the registry's tokens are administration over SQL and
  libraries for hashing and OIDC; the session store's view of users, agents and teams is in the
  model. The client side (adapters and the desktop service) holds no authority of its own: what it
  sends is an arbitrary request here. Bytes from 128 on are neither folded nor trimmed, where Go
  treats some of those code points.
\<close>

end
